(* ===== verification/Prelude.thy ===== *)
theory Prelude
  imports Complex_Main "HOL-Library.AList" "HOL-Library.List_Lexorder"
    "HOL-Library.Char_ord"
begin

text \<open>
  Shared vocabulary of the development: Python exceptions as values, the monadic plumbing that
  keeps every \<open>raise\<close> a branch of the model, dictionaries with Python's insertion order,
  the string predicates the validators call, and the dynamic values (\<open>dict[str, Any]\<close>)
  that ledger metadata carries. Dates are proleptic ordinals (\<open>date.toordinal\<close>), so
  date comparison and day differences are those of \<open>int\<close>.
\<close>

section \<open>Errors as values\<close>

text \<open>
  The exceptions the modelled code raises. \<open>HTTPError\<close> is FastAPI's
  \<open>HTTPException(status, detail)\<close>; \<open>RevisionConflict\<close> and \<open>PortfolioNotFound\<close> are the
  subclasses of \<open>ValueError\<close> of \<open>ledger_revisions.py\<close> and \<open>portfolio_resources.py\<close>; then come
  those of the database layer and of the file storage.
\<close>

datatype py_error =
    ValueError string
  | RevisionConflict string
  | KeyError string
  | TypeError string
  | AssertionError
  | DivisionByZero
  | InvalidOperation
  | StopIteration
  | HTTPError int string
  | PortfolioNotFound string
  | MultipleResultsFound
  | IntegrityError string
  | OSError string

type_synonym 'a result = "py_error + 'a"

type_synonym date = int

named_theorems result_simps \<open>elimination of the error plumbing\<close>

fun bindE :: "'a result \<Rightarrow> ('a \<Rightarrow> 'b result) \<Rightarrow> 'b result" where
  "bindE (Inl e) f = Inl e"
| "bindE (Inr x) f = f x"

text \<open>For evaluation: a branch is entered only once the scrutinee is a value.\<close>

lemma bindE_case [code_unfold]: "bindE m f = (case m of Inl e \<Rightarrow> Inl e | Inr x \<Rightarrow> f x)"
  by (cases m) simp_all

text \<open>\<open>ensure b e\<close> is \<open>if not b: raise e\<close>.\<close>

definition ensure :: "bool \<Rightarrow> py_error \<Rightarrow> unit result" where
  "ensure b e = (if b then Inr () else Inl e)"

text \<open>A loop whose body may raise: the first exception stops it.\<close>

fun foldE :: "('s \<Rightarrow> 'a \<Rightarrow> 's result) \<Rightarrow> 's \<Rightarrow> 'a list \<Rightarrow> 's result" where
  "foldE f s [] = Inr s"
| "foldE f s (x # xs) = bindE (f s x) (\<lambda>s'. foldE f s' xs)"

fun mapE :: "('a \<Rightarrow> 'b result) \<Rightarrow> 'a list \<Rightarrow> 'b list result" where
  "mapE f [] = Inr []"
| "mapE f (x # xs) = bindE (f x) (\<lambda>y. bindE (mapE f xs) (\<lambda>ys. Inr (y # ys)))"

lemma bindE_Inr_iff [result_simps]:
  "bindE m f = Inr y \<longleftrightarrow> (\<exists>x. m = Inr x \<and> f x = Inr y)"
  by (cases m) auto

lemma bindE_Inl_iff:
  "bindE m f = Inl e \<longleftrightarrow> m = Inl e \<or> (\<exists>x. m = Inr x \<and> f x = Inl e)"
  by (cases m) auto

lemma ensure_Inr_iff [result_simps]: "ensure b e = Inr u \<longleftrightarrow> b"
  by (simp add: ensure_def)

lemma ensure_simps [simp]: "ensure True e = Inr ()" "ensure False e = Inl e"
  by (simp_all add: ensure_def)

lemma if_Inl_Inr_iff [result_simps]:
  "(if b then Inl e else r) = Inr y \<longleftrightarrow> \<not> b \<and> r = Inr y"
  by simp

lemma mapE_Inr_length: "mapE f xs = Inr ys \<Longrightarrow> length ys = length xs"
  by (induction xs arbitrary: ys) (auto simp: result_simps)

lemma mapE_Inr_map: "(\<And>x. x \<in> set xs \<Longrightarrow> f x = Inr (g x)) \<Longrightarrow> mapE f xs = Inr (map g xs)"
  by (induction xs) auto

lemma foldE_append: "foldE f s (xs @ ys) = bindE (foldE f s xs) (\<lambda>s'. foldE f s' ys)"
proof (induction xs arbitrary: s)
  case (Cons x xs)
  then show ?case by (cases "f s x") auto
qed simp

text \<open>The invariant rule of a raising loop.\<close>

lemma foldE_invariant:
  assumes "foldE f s xs = Inr s'" and "P s"
    and "\<And>s x s'. P s \<Longrightarrow> x \<in> set xs \<Longrightarrow> f s x = Inr s' \<Longrightarrow> P s'"
  shows "P s'"
  using assms
proof (induction xs arbitrary: s)
  case (Cons x xs)
  from Cons.prems(1) obtain t where "f s x = Inr t" "foldE f t xs = Inr s'"
    by (auto simp: result_simps)
  with Cons.prems(2,3) show ?case by (intro Cons.IH [of t]) auto
qed simp

section \<open>Dictionaries in insertion order\<close>

text \<open>
  A dict whose iteration order the code observes is an association list: assignment keeps the
  position of a key that is present and appends a new one, which is \<open>AList.update\<close>.
\<close>

type_synonym 'v dict = "(string \<times> 'v) list"

definition dict_get :: "('k \<times> 'v) list \<Rightarrow> 'k \<Rightarrow> 'v \<Rightarrow> 'v" where
  "dict_get d k v = (case map_of d k of None \<Rightarrow> v | Some w \<Rightarrow> w)"

lemma dict_get_update [simp]:
  "dict_get (AList.update k v d) k' w = (if k' = k then v else dict_get d k' w)"
  by (simp add: dict_get_def update_conv')

lemma dict_get_Nil [simp]: "dict_get [] k v = v"
  by (simp add: dict_get_def)

lemma map_of_update [simp]:
  "map_of (AList.update k v d) k' = (if k' = k then Some v else map_of d k')"
  by (simp add: update_conv')

lemma keys_update:
  "map fst (AList.update k v d) = (if k \<in> set (map fst d) then map fst d else map fst d @ [k])"
  by (induction d) auto

lemma distinct_update_keys: "distinct (map fst d) \<Longrightarrow> distinct (map fst (AList.update k v d))"
  by (simp add: keys_update del: set_map)

lemma sum_update:
  assumes "distinct (map fst d)" "f dflt = (0::rat)"
  shows "sum_list (map (\<lambda>kv. f (snd kv)) (AList.update k v d)) =
         sum_list (map (\<lambda>kv. f (snd kv)) d) - f (dict_get d k dflt) + f v"
  using assms(1)
proof (induction d)
  case Nil
  then show ?case using assms(2) by simp
next
  case (Cons kv d)
  then show ?case using assms(2) map_of_eq_None_iff [of d "fst kv"]
    by (cases kv) (auto simp: dict_get_def split: option.splits)
qed

text \<open>\<open>sorted(set(keys))\<close>; strings compare by code point, a prefix first.\<close>

definition sorted_keys :: "'a::linorder list \<Rightarrow> 'a list" where
  "sorted_keys ks = sort (remdups ks)"

lemma sorted_keys_props [simp]:
  "set (sorted_keys ks) = set ks" "distinct (sorted_keys ks)" "sorted (sorted_keys ks)"
  by (simp_all add: sorted_keys_def)

text \<open>
  The interface every keyed store of the model keeps (balances by currency, lots by instrument,
  positions by instrument): a write is seen by the reads of its key and by no other.
\<close>

locale keyed_store =
  fixes get :: "'s \<Rightarrow> 'k \<Rightarrow> 'v" and put :: "'k \<Rightarrow> 'v \<Rightarrow> 's \<Rightarrow> 's"
  assumes get_put: "get (put k v s) k' = (if k' = k then v else get s k')"
begin

lemma get_put_same [simp]: "get (put k v s) k = v"
  by (simp add: get_put)

lemma get_put_other [simp]: "k' \<noteq> k \<Longrightarrow> get (put k v s) k' = get s k'"
  by (simp add: get_put)

lemma all_put: "(\<forall>k'. P k' (get (put k v s) k')) \<longleftrightarrow> P k v \<and> (\<forall>k'. k' \<noteq> k \<longrightarrow> P k' (get s k'))"
  by (auto simp: get_put)

lemma all_putI: "(\<And>k'. P (get s k')) \<Longrightarrow> P v \<Longrightarrow> P (get (put k v s) k')"
  by (simp add: get_put)

text \<open>A sequence of read-modify-write steps: each key sees the steps that name it, in order.\<close>

lemma get_foldl:
  "get (foldl (\<lambda>s x. put (key x) (f (get s (key x)) x) s) s xs) k =
     foldl f (get s k) (filter (\<lambda>x. key x = k) xs)"
  by (induction xs arbitrary: s) (auto simp: get_put)

end

section \<open>Left folds\<close>

lemma foldl_invariant:
  assumes "P a" and "\<And>a x. P a \<Longrightarrow> x \<in> set xs \<Longrightarrow> P (f a x)"
  shows "P (foldl f a xs)"
  using assms by (induction xs arbitrary: a) auto

lemma foldl_commute_rel:
  assumes "R a b" and "\<And>a b x. R a b \<Longrightarrow> x \<in> set xs \<Longrightarrow> R (f a x) (g b x)"
  shows "R (foldl f a xs) (foldl g b xs)"
  using assms by (induction xs arbitrary: a b) auto

lemma sum_list_filter_zero:
  "(\<And>x. x \<in> set xs \<Longrightarrow> \<not> P x \<Longrightarrow> f x = (0::'a::comm_monoid_add)) \<Longrightarrow>
   sum_list (map f (filter P xs)) = sum_list (map f xs)"
  by (induction xs) auto

text \<open>A sum over items, grouped by a key.\<close>

lemma sum_by_key:
  assumes "distinct ids" "\<forall>m \<in> set ms. key m \<in> set ids"
  shows "sum_list (map (\<lambda>i. sum_list (map h (filter (\<lambda>m. key m = i) ms))) ids) =
    (sum_list (map h ms) :: 'a::comm_monoid_add)"
  using assms(2)
proof (induction ms)
  case (Cons m ms)
  have "sum_list (map (\<lambda>i. sum_list (map h (filter (\<lambda>m. key m = i) (m # ms)))) ids) =
      sum_list (map (\<lambda>i. (if key m = i then h m else 0) + sum_list (map h (filter (\<lambda>m. key m = i) ms))) ids)"
    by (intro arg_cong [where f = sum_list] map_cong) auto
  also have "\<dots> = sum_list (map (\<lambda>i. if key m = i then h m else 0) ids) +
      sum_list (map (\<lambda>i. sum_list (map h (filter (\<lambda>m. key m = i) ms))) ids)"
    by (rule sum_list_addf)
  also have "sum_list (map (\<lambda>i. if key m = i then h m else 0) ids) = h m"
    using assms(1) Cons.prems by (simp add: sum_list_distinct_conv_sum_set)
  finally show ?case using Cons by simp
qed simp

section \<open>Python strings\<close>

text \<open>
  Strings are lists of bytes; the predicates are those of \<open>str\<close> on ASCII characters. Every
  validator that calls \<open>isalpha\<close> or \<open>isupper\<close> also requires \<open>isascii\<close>, so
  the bytes of a non-ASCII character are rejected by the model where the code rejects the
  character.
\<close>

definition is_digit :: "char \<Rightarrow> bool" where
  "is_digit ch \<longleftrightarrow> 48 \<le> (of_char ch :: nat) \<and> (of_char ch :: nat) \<le> 57"

definition is_upper :: "char \<Rightarrow> bool" where
  "is_upper ch \<longleftrightarrow> 65 \<le> (of_char ch :: nat) \<and> (of_char ch :: nat) \<le> 90"

definition is_lower :: "char \<Rightarrow> bool" where
  "is_lower ch \<longleftrightarrow> 97 \<le> (of_char ch :: nat) \<and> (of_char ch :: nat) \<le> 122"

definition is_space :: "char \<Rightarrow> bool" where
  "is_space ch \<longleftrightarrow> (let n = (of_char ch :: nat) in 9 \<le> n \<and> n \<le> 13 \<or> 28 \<le> n \<and> n \<le> 32)"

definition str_isascii :: "string \<Rightarrow> bool" where
  "str_isascii s = list_all (\<lambda>ch. (of_char ch :: nat) < 128) s"

definition str_isalpha :: "string \<Rightarrow> bool" where
  "str_isalpha s \<longleftrightarrow> s \<noteq> [] \<and> list_all (\<lambda>ch. is_upper ch \<or> is_lower ch) s"

definition str_isupper :: "string \<Rightarrow> bool" where
  "str_isupper s \<longleftrightarrow> list_ex is_upper s \<and> \<not> list_ex is_lower s"

definition str_isdigit :: "string \<Rightarrow> bool" where
  "str_isdigit s \<longleftrightarrow> s \<noteq> [] \<and> list_all is_digit s"

definition upper_char :: "char \<Rightarrow> char" where
  "upper_char ch = (if is_lower ch then char_of ((of_char ch :: nat) - 32) else ch)"

definition str_upper :: "string \<Rightarrow> string" where
  "str_upper = map upper_char"

definition str_strip :: "string \<Rightarrow> string" where
  "str_strip s = rev (dropWhile is_space (rev (dropWhile is_space s)))"

named_theorems str_simps \<open>evaluation of the string predicates on literals\<close>

lemmas str_defs [str_simps] =
  is_digit_def is_upper_def is_lower_def is_space_def str_isascii_def str_isalpha_def
  str_isupper_def str_isdigit_def upper_char_def str_upper_def str_strip_def

text \<open>\<open>str\<close> of a natural number.\<close>

fun nat_str :: "nat \<Rightarrow> string" where
  "nat_str n = (if n < 10 then [char_of (48 + n)]
     else nat_str (n div 10) @ [char_of (48 + n mod 10)])"

declare nat_str.simps [simp del]

text \<open>A row is found by a key that tells the rows apart.\<close>

lemma find_distinct: "r \<in> set xs \<Longrightarrow> distinct (map key xs) \<Longrightarrow> find (\<lambda>s. key s = key r) xs = Some r"
  by (induction xs) (auto simp: image_iff)

section \<open>Dynamic values\<close>

text \<open>
  \<open>Any\<close>: a number (\<open>int\<close>, \<open>float\<close>, \<open>Decimal\<close>) is carried by the text \<open>str\<close> gives for
  it, since the accounting code reads a metadata number only as \<open>Decimal(str(value))\<close> or as
  \<open>str(value)\<close>.
\<close>

datatype pyval =
    VNone
  | VBool bool
  | VNum string
  | VStr string
  | VList "pyval list"
  | VDict "(string \<times> pyval) list"

text \<open>\<open>str(value)\<close> for the scalar values; a container prints with a bracket or brace.\<close>

fun py_str :: "pyval \<Rightarrow> string" where
  "py_str VNone = ''None''"
| "py_str (VBool True) = ''True''"
| "py_str (VBool False) = ''False''"
| "py_str (VNum s) = s"
| "py_str (VStr s) = s"
| "py_str (VList _) = ''[...]''"
| "py_str (VDict _) = ''{...}''"

text \<open>\<open>d.get(k)\<close>: a missing key reads as \<open>None\<close>.\<close>

definition meta_get :: "pyval dict \<Rightarrow> string \<Rightarrow> pyval" where
  "meta_get m k = dict_get m k VNone"

end
