(* ===== verification/Decimal_Context.thy ===== *)
theory Decimal_Context
  imports Prelude
begin

text \<open>
  Python's \<open>decimal\<close> arithmetic by value. A finite \<open>Decimal\<close> is the rational it denotes;
  every arithmetic operation of the language computes the exact result and rounds it to the
  precision of the current context (28 significant digits unless a \<open>localcontext\<close> says
  otherwise) with \<open>ROUND_HALF_EVEN\<close>. The context is an argument \<open>c\<close> of the model's
  arithmetic, since the code changes it (\<open>localcontext\<close> in \<open>money.py\<close>,
  \<open>series.py\<close> and \<open>drawdowns.py\<close>): \<open>prec 28\<close> is the default context,
  \<open>exact\<close> the ideal arithmetic of unbounded precision, in which the conservation laws of the
  accounting code are stated. Comparisons never round. The exponent of a \<open>Decimal\<close> (its
  trailing zeros) is not modelled, and neither are the traps at exponents beyond a million.
\<close>

section \<open>Significant digits\<close>

type_synonym ctx = "rat \<Rightarrow> rat"

function ndigits :: "int \<Rightarrow> int" where
  "ndigits n = (if n < 10 then 1 else 1 + ndigits (n div 10))"
  by pat_completeness auto
termination
  by (relation "measure nat") auto

declare ndigits.simps [simp del]

definition pow10 :: "int \<Rightarrow> rat" where
  "pow10 k = (if 0 \<le> k then 10 ^ nat k else 1 / 10 ^ nat (- k))"

definition adjusted :: "rat \<Rightarrow> int" where
  "adjusted x =
     (let (n, d) = quotient_of \<bar>x\<bar>; e = ndigits n - ndigits d
      in if pow10 e \<le> \<bar>x\<bar> then e else e - 1)"

definition half_even :: "rat \<Rightarrow> int" where
  "half_even r =
     (let f = \<lfloor>r\<rfloor>; t = r - of_int f
      in if t < 1 / 2 then f else if 1 / 2 < t then f + 1 else if even f then f else f + 1)"

definition round_at :: "int \<Rightarrow> ctx" where
  "round_at k x = of_int (half_even (x / pow10 k)) * pow10 k"

definition prec :: "nat \<Rightarrow> ctx" where
  "prec p x = (if x = 0 then 0 else round_at (adjusted x - int p + 1) x)"

subsection \<open>Powers of ten\<close>

lemma pow10_power_int: "pow10 k = 10 powi k"
  by (simp add: pow10_def power_int_def field_simps)

lemma pow10_pos [simp]: "0 < pow10 k"
  by (simp add: pow10_def)

lemma pow10_nonzero [simp]: "pow10 k \<noteq> 0"
  using pow10_pos [of k] by linarith

lemma pow10_add: "pow10 (a + b) = pow10 a * pow10 b"
  by (simp add: pow10_power_int power_int_add)

lemma pow10_0 [simp]: "pow10 0 = 1"
  by (simp add: pow10_def)

lemma abs_pow10 [simp]: "\<bar>pow10 k\<bar> = pow10 k"
  by (simp add: less_imp_le)

lemma pow10_strict_mono: "a < b \<Longrightarrow> pow10 a < pow10 b"
proof -
  assume "a < b"
  then have "1 < pow10 (b - a)" by (simp add: pow10_def)
  then show ?thesis using pow10_add [of "b - a" a] by simp
qed

lemma pow10_less_iff [simp]: "pow10 a < pow10 b \<longleftrightarrow> a < b"
  using pow10_strict_mono [of a b] pow10_strict_mono [of b a] by (cases a b rule: linorder_cases) auto

lemma pow10_le_iff [simp]: "pow10 a \<le> pow10 b \<longleftrightarrow> a \<le> b"
  by (simp flip: not_less)

lemma pow10_nat: "0 \<le> k \<Longrightarrow> pow10 k = of_int (10 ^ nat k)"
  by (simp add: pow10_def)

lemma pow10_Suc: "pow10 (1 + k) = 10 * pow10 k"
  by (simp add: pow10_add) (simp add: pow10_def)

lemma ndigits_pos: "1 \<le> ndigits n"
  by (induction n rule: ndigits.induct) (subst ndigits.simps, auto)

lemma ndigits_bounds:
  "1 \<le> n \<Longrightarrow> pow10 (ndigits n - 1) \<le> of_int n \<and> of_int n < pow10 (ndigits n)"
proof (induction n rule: ndigits.induct)
  case (1 n)
  show ?case
  proof (cases "n < 10")
    case True
    then show ?thesis using 1 by (simp add: ndigits.simps [of n] pow10_def)
  next
    case False
    let ?m = "n div 10"
    have IH: "pow10 (ndigits ?m - 1) \<le> of_int ?m" "of_int ?m < pow10 (ndigits ?m)"
      using 1 False by auto
    have d: "ndigits n = 1 + ndigits ?m" using False by (subst ndigits.simps) simp
    have p: "0 \<le> ndigits ?m" using ndigits_pos [of ?m] by linarith
    have m1: "?m + 1 \<le> 10 ^ nat (ndigits ?m)"
      using IH(2) pow10_nat [OF p] by (metis add1_zle_eq of_int_less_iff)
    have nm: "10 * ?m \<le> n" "n < 10 * (?m + 1)" by presburger+
    have "n < 10 * 10 ^ nat (ndigits ?m)" using nm(2) m1 by linarith
    then have u: "of_int n < 10 * pow10 (ndigits ?m)"
      by (metis of_int_less_iff of_int_mult of_int_numeral p pow10_nat)
    have "10 * (of_int ?m :: rat) \<le> of_int n"
      by (metis nm(1) of_int_le_iff of_int_mult of_int_numeral)
    moreover have "pow10 (ndigits ?m) = 10 * pow10 (ndigits ?m - 1)"
      using pow10_Suc [of "ndigits ?m - 1"] by simp
    ultimately show ?thesis using u IH(1) unfolding d by (simp add: pow10_Suc)
  qed
qed

lemma adjusted_bounds:
  assumes "x \<noteq> 0"
  shows "pow10 (adjusted x) \<le> \<bar>x\<bar>" and "\<bar>x\<bar> < pow10 (1 + adjusted x)"
proof -
  obtain n d where q: "quotient_of \<bar>x\<bar> = (n, d)" by fastforce
  have d: "0 < d" and x: "\<bar>x\<bar> = of_int n / of_int d"
    using q by (auto simp: quotient_of_denom_pos quotient_of_div)
  have n: "0 < n" using assms d x by (metis abs_0_eq abs_le_zero_iff abs_of_pos divide_nonpos_pos
      linorder_not_less of_int_0_less_iff of_int_le_0_iff zero_less_abs_iff)
  note nb = ndigits_bounds [of n] and db = ndigits_bounds [of d]
  have nb: "pow10 (ndigits n - 1) \<le> of_int n" "of_int n < pow10 (ndigits n)"
    and db: "pow10 (ndigits d - 1) \<le> of_int d" "of_int d < pow10 (ndigits d)"
    using nb db n d by auto
  let ?e = "ndigits n - ndigits d"
  have d0: "(0::rat) < of_int d" using d by simp
  have "pow10 (?e - 1) * of_int d \<le> pow10 (?e - 1) * pow10 (ndigits d)"
    using db(2) by simp
  also have "\<dots> = pow10 (ndigits n - 1)" by (simp flip: pow10_add)
  also note nb(1)
  finally have lo: "pow10 (?e - 1) \<le> \<bar>x\<bar>" unfolding x using d0 by (simp add: pos_le_divide_eq)
  have "of_int n < pow10 (1 + ?e) * pow10 (ndigits d - 1)"
    using nb(2) by (simp flip: pow10_add)
  also have "\<dots> \<le> pow10 (1 + ?e) * of_int d" using db(1) by simp
  finally have hi: "\<bar>x\<bar> < pow10 (1 + ?e)" unfolding x using d0 by (simp add: pos_divide_less_eq)
  have a: "adjusted x = (if pow10 ?e \<le> \<bar>x\<bar> then ?e else ?e - 1)"
    by (simp add: adjusted_def q)
  show "pow10 (adjusted x) \<le> \<bar>x\<bar>" "\<bar>x\<bar> < pow10 (1 + adjusted x)"
    using lo hi by (auto simp: a)
qed

lemma adjusted_less: "x \<noteq> 0 \<Longrightarrow> \<bar>x\<bar> < pow10 k \<Longrightarrow> adjusted x < k"
  using adjusted_bounds(1) [of x] pow10_less_iff [of "adjusted x" k] by linarith

lemma adjusted_mono: "x \<noteq> 0 \<Longrightarrow> \<bar>x\<bar> \<le> \<bar>y\<bar> \<Longrightarrow> adjusted x \<le> adjusted y"
  using adjusted_less [of x "1 + adjusted y"] adjusted_bounds(2) [of y] by fastforce

lemma adjusted_minus [simp]: "adjusted (- x) = adjusted x"
  by (simp add: adjusted_def)

subsection \<open>Half-even rounding\<close>

lemma half_even_of_int [simp]: "half_even (of_int n) = n"
  by (simp add: half_even_def)

lemma half_even_floor: "\<lfloor>r\<rfloor> \<le> half_even r" "half_even r \<le> \<lfloor>r\<rfloor> + 1"
  by (auto simp: half_even_def Let_def)

lemma half_even_error: "\<bar>of_int (half_even r) - r\<bar> \<le> 1 / 2"
proof -
  have "of_int \<lfloor>r\<rfloor> \<le> r" "r < of_int \<lfloor>r\<rfloor> + 1" by linarith+
  then show ?thesis unfolding half_even_def Let_def by (auto simp: abs_le_iff)
qed

lemma half_even_mono: "r \<le> s \<Longrightarrow> half_even r \<le> half_even s"
proof (cases "\<lfloor>r\<rfloor> = \<lfloor>s\<rfloor>")
  case True
  then show "r \<le> s \<Longrightarrow> ?thesis" by (auto simp: half_even_def Let_def)
next
  case False
  assume "r \<le> s"
  with False have "\<lfloor>r\<rfloor> + 1 \<le> \<lfloor>s\<rfloor>" by linarith
  then show ?thesis using half_even_floor(2) [of r] half_even_floor(1) [of s] by linarith
qed

lemma half_even_minus: "half_even (- r) = - half_even r"
proof (cases "r = of_int \<lfloor>r\<rfloor>")
  case True
  then show ?thesis by (metis half_even_of_int of_int_minus)
next
  case False
  then have "\<lfloor>- r\<rfloor> = - \<lfloor>r\<rfloor> - 1" by linarith
  then show ?thesis by (auto simp: half_even_def Let_def)
qed

lemma round_at_mono: "x \<le> y \<Longrightarrow> round_at k x \<le> round_at k y"
  by (simp add: round_at_def half_even_mono divide_right_mono less_imp_le)

lemma round_at_minus: "round_at k (- x) = - round_at k x"
  by (simp add: round_at_def half_even_minus flip: minus_divide_left)

lemma round_at_multiple: "j \<le> k \<Longrightarrow> round_at j (of_int m * pow10 k) = of_int m * pow10 k"
proof -
  assume "j \<le> k"
  then have "of_int m * pow10 k / pow10 j = of_int (m * 10 ^ nat (k - j))"
    using pow10_add [of "k - j" j] pow10_nat [of "k - j"] by simp
  then have "half_even (of_int m * pow10 k / pow10 j) = m * 10 ^ nat (k - j)"
    by (simp only: half_even_of_int)
  then show ?thesis
    using \<open>j \<le> k\<close> pow10_add [of "k - j" j] pow10_nat [of "k - j"] by (simp add: round_at_def)
qed

lemma round_at_error: "\<bar>round_at k x - x\<bar> \<le> pow10 k / 2"
proof -
  have "round_at k x - x = (of_int (half_even (x / pow10 k)) - x / pow10 k) * pow10 k"
    by (simp add: round_at_def left_diff_distrib)
  then have "\<bar>round_at k x - x\<bar> = \<bar>of_int (half_even (x / pow10 k)) - x / pow10 k\<bar> * pow10 k"
    by (simp only: abs_mult abs_pow10)
  also have "\<dots> \<le> 1 / 2 * pow10 k"
    by (rule mult_right_mono [OF half_even_error]) (simp add: less_imp_le)
  finally show ?thesis by simp
qed

subsection \<open>Rounding to a number of significant digits\<close>

lemma prec_multiple:
  assumes "\<bar>m\<bar> < 10 ^ p"
  shows "prec p (of_int m * pow10 k) = of_int m * pow10 k"
proof (cases "m = 0")
  case True
  then show ?thesis by (simp add: prec_def)
next
  case False
  let ?x = "of_int m * pow10 k"
  have "\<bar>?x\<bar> = of_int \<bar>m\<bar> * pow10 k" by (simp add: abs_mult)
  also have "\<dots> < of_int (10 ^ p) * pow10 k"
    using assms by (intro mult_strict_right_mono) (auto simp only: of_int_less_iff pow10_pos)
  also have "\<dots> = pow10 (int p + k)" by (simp add: pow10_add pow10_nat)
  finally have "adjusted ?x < int p + k" using False by (intro adjusted_less) auto
  then show ?thesis using False by (simp add: prec_def round_at_multiple)
qed

lemma prec_power: "0 < p \<Longrightarrow> prec p (pow10 k) = pow10 k"
  using prec_multiple [of 1 p k] by simp

lemma prec_minus: "prec p (- x) = - prec p x"
  by (simp add: prec_def round_at_minus)

lemma prec_sandwich:
  assumes "0 < p" "0 < x"
  shows "pow10 (adjusted x) \<le> prec p x" and "prec p x \<le> pow10 (1 + adjusted x)"
proof -
  let ?a = "adjusted x" and ?k = "adjusted x - int p + 1"
  note b = adjusted_bounds [of x]
  have "round_at ?k (pow10 ?a) = pow10 ?a" "round_at ?k (pow10 (1 + ?a)) = pow10 (1 + ?a)"
    using round_at_multiple [of ?k ?a 1] round_at_multiple [of ?k "1 + ?a" 1] assms(1) by auto
  then show "pow10 ?a \<le> prec p x" "prec p x \<le> pow10 (1 + ?a)"
    using b assms round_at_mono [of "pow10 ?a" x ?k] round_at_mono [of x "pow10 (1 + ?a)" ?k]
    by (auto simp: prec_def)
qed

lemma prec_pos: "0 < p \<Longrightarrow> 0 < x \<Longrightarrow> 0 < prec p x"
  using prec_sandwich(1) [of p x] pow10_pos [of "adjusted x"] by linarith

lemma prec_mono_pos:
  assumes "0 < p" "0 < x" "x \<le> y"
  shows "prec p x \<le> prec p y"
proof (cases "adjusted x = adjusted y")
  case True
  then show ?thesis using assms by (simp add: prec_def round_at_mono)
next
  case False
  then have "1 + adjusted x \<le> adjusted y" using adjusted_mono [of x y] assms by simp
  then have "pow10 (1 + adjusted x) \<le> pow10 (adjusted y)" by simp
  then show ?thesis
    using prec_sandwich(2) [of p x] prec_sandwich(1) [of p y] assms by linarith
qed

lemma prec_mono: "0 < p \<Longrightarrow> x \<le> y \<Longrightarrow> prec p x \<le> prec p y"
proof -
  assume p: "0 < p" and le: "x \<le> y"
  have z: "prec p 0 = 0" by (simp add: prec_def)
  consider "0 < x" | "x \<le> 0" "0 \<le> y" | "y < 0" by linarith
  then show ?thesis
  proof cases
    case 1
    then show ?thesis using p le by (simp add: prec_mono_pos)
  next
    case 2
    have "0 \<le> prec p y" using 2(2) p prec_pos [of p y] z by (cases "y = 0") auto
    moreover have "0 \<le> - prec p x"
      using 2(1) p prec_pos [of p "- x"] z by (cases "x = 0") (auto simp: prec_minus)
    ultimately show ?thesis by linarith
  next
    case 3
    then show ?thesis using prec_mono_pos [of p "- y" "- x"] p le by (simp add: prec_minus)
  qed
qed

lemma prec_idem: "0 < p \<Longrightarrow> prec p (prec p x) = prec p x"
proof (cases "x = 0")
  case True
  then show ?thesis by (simp add: prec_def)
next
  case False
  assume p: "0 < p"
  let ?k = "adjusted x - int p + 1"
  define m where "m = half_even (x / pow10 ?k)"
  have y: "prec p x = of_int m * pow10 ?k" using False by (simp add: prec_def round_at_def m_def)
  have "\<bar>prec p x\<bar> \<le> pow10 (1 + adjusted x)"
    using prec_sandwich(2) [OF p, of "\<bar>x\<bar>"] prec_pos [OF p, of "\<bar>x\<bar>"] False
    by (cases "0 < x") (auto simp: prec_minus abs_if)
  also have "\<dots> = of_int (10 ^ p) * pow10 ?k"
    using pow10_add [of "int p" ?k] by (simp add: pow10_nat add.commute)
  finally have "of_int \<bar>m\<bar> * pow10 ?k \<le> of_int (10 ^ p) * pow10 ?k"
    by (simp add: y abs_mult)
  then have "of_int \<bar>m\<bar> \<le> (of_int (10 ^ p) :: rat)"
    by (rule mult_right_le_imp_le) simp
  then have le: "\<bar>m\<bar> \<le> 10 ^ p" by (simp only: of_int_le_iff)
  show ?thesis
  proof (cases "\<bar>m\<bar> < 10 ^ p")
    case True
    then show ?thesis using prec_multiple [of m p ?k] by (simp add: y)
  next
    case eq: False
    have "of_int \<bar>m\<bar> * pow10 ?k = pow10 (int p + ?k)"
      using eq le pow10_add [of "int p" ?k] by (simp add: pow10_nat)
    then have "\<bar>prec p x\<bar> = pow10 (int p + ?k)" by (simp add: y abs_mult)
    then have "prec p \<bar>prec p x\<bar> = \<bar>prec p x\<bar>" using prec_power [OF p] by simp
    then show ?thesis by (auto simp: abs_if prec_minus split: if_splits)
  qed
qed

lemma prec_error: "0 < p \<Longrightarrow> \<bar>prec p x - x\<bar> \<le> \<bar>x\<bar> * pow10 (1 - int p) / 2"
proof (cases "x = 0")
  case False
  assume "0 < p"
  have "\<bar>prec p x - x\<bar> \<le> pow10 (adjusted x - int p + 1) / 2"
    using False round_at_error by (simp add: prec_def)
  also have "pow10 (adjusted x - int p + 1) = pow10 (adjusted x) * pow10 (1 - int p)"
    by (simp flip: pow10_add add: algebra_simps)
  also have "\<dots> / 2 \<le> \<bar>x\<bar> * pow10 (1 - int p) / 2"
    using adjusted_bounds(1) [OF False] by (intro divide_right_mono mult_right_mono) (auto simp: less_imp_le)
  finally show ?thesis .
qed (simp add: prec_def)

definition exact :: ctx where
  "exact x = x"

lemma prec_of_int: "\<bar>n\<bar> < 10 ^ p \<Longrightarrow> prec p (of_int n) = of_int n"
  using prec_multiple [of n p 0] by simp

lemma prec_numeral: "numeral n < (10 ^ p :: int) \<Longrightarrow> prec p (numeral n) = numeral n"
  using prec_of_int [of "numeral n" p] by simp

section \<open>The arithmetic of a context\<close>

definition dadd :: "ctx \<Rightarrow> rat \<Rightarrow> rat \<Rightarrow> rat" where "dadd c x y = c (x + y)"
definition dsub :: "ctx \<Rightarrow> rat \<Rightarrow> rat \<Rightarrow> rat" where "dsub c x y = c (x - y)"
definition dmul :: "ctx \<Rightarrow> rat \<Rightarrow> rat \<Rightarrow> rat" where "dmul c x y = c (x * y)"
definition ddiv :: "ctx \<Rightarrow> rat \<Rightarrow> rat \<Rightarrow> rat" where "ddiv c x y = c (x / y)"
definition dneg :: "ctx \<Rightarrow> rat \<Rightarrow> rat" where "dneg c x = c (- x)"
definition dabs :: "ctx \<Rightarrow> rat \<Rightarrow> rat" where "dabs c x = c \<bar>x\<bar>"

text \<open>\<open>sum(values, ZERO)\<close> adds from the left and rounds after every addition.\<close>

definition dsum :: "ctx \<Rightarrow> rat list \<Rightarrow> rat" where
  "dsum c xs = foldl (dadd c) 0 xs"

named_theorems dec_simps \<open>decimal operations in terms of the rounding\<close>

lemmas dec_defs [dec_simps] = dadd_def dsub_def dmul_def ddiv_def dneg_def dabs_def

text \<open>What every context promises the accounting code.\<close>

locale decimal_ctx =
  fixes c :: ctx
  assumes mono: "x \<le> y \<Longrightarrow> c x \<le> c y"
    and odd: "c (- x) = - c x"
    and idem: "c (c x) = c x"
    and one: "c 1 = 1"
begin

lemma zero [simp]: "c 0 = 0"
  using odd [of 0] by simp

lemma nonneg: "0 \<le> x \<Longrightarrow> 0 \<le> c x"
  using mono [of 0 x] by simp

lemma nonpos: "x \<le> 0 \<Longrightarrow> c x \<le> 0"
  using mono [of x 0] by simp

lemma add_nonneg: "0 \<le> x \<Longrightarrow> 0 \<le> y \<Longrightarrow> 0 \<le> dadd c x y"
  by (simp add: dadd_def nonneg)

lemma sub_nonneg: "y \<le> x \<Longrightarrow> 0 \<le> dsub c x y"
  by (simp add: dsub_def nonneg)

lemma sub_self [simp]: "dsub c x x = 0"
  by (simp add: dsub_def)

lemma mul_nonneg: "0 \<le> x \<Longrightarrow> 0 \<le> y \<Longrightarrow> 0 \<le> dmul c x y"
  by (simp add: dmul_def nonneg)

lemma div_nonneg: "0 \<le> x \<Longrightarrow> 0 \<le> y \<Longrightarrow> 0 \<le> ddiv c x y"
  by (simp add: ddiv_def nonneg)

lemma abs_nonneg: "0 \<le> dabs c x"
  by (simp add: dabs_def nonneg)

lemma abs_abs: "\<bar>c x\<bar> = c \<bar>x\<bar>"
  using nonneg [of x] nonpos [of x] by (cases "0 \<le> x") (auto simp: abs_if odd)

lemma neg_neg: "dneg c (dneg c x) = c x"
  by (simp add: dneg_def odd idem)

lemma add_zero: "dadd c 0 x = c x" "dadd c x 0 = c x"
  by (simp_all add: dadd_def)

lemma neg_mul: "dmul c (- x) y = - dmul c x y"
  by (simp add: dmul_def odd)

lemma sum_nonneg: "(\<And>x. x \<in> set xs \<Longrightarrow> 0 \<le> x) \<Longrightarrow> 0 \<le> dsum c xs"
  unfolding dsum_def by (rule foldl_invariant) (auto intro: add_nonneg)

lemma sum_snoc: "dsum c (xs @ [x]) = dadd c (dsum c xs) x"
  by (simp add: dsum_def)

lemma sum_Nil [simp]: "dsum c [] = 0"
  by (simp add: dsum_def)

end

text \<open>Every precision the code uses, and ideal arithmetic, keep the promise.\<close>

lemma decimal_ctx_prec: "0 < p \<Longrightarrow> decimal_ctx (prec p)"
  by unfold_locales (auto simp: prec_mono prec_minus prec_idem prec_power [of _ 0, simplified])

interpretation d28: decimal_ctx "prec 28"
  by (rule decimal_ctx_prec) simp

interpretation d40: decimal_ctx "prec 40"
  by (rule decimal_ctx_prec) simp

interpretation ideal: decimal_ctx exact
  by unfold_locales (auto simp: exact_def)

lemma exact_simps [simp]:
  "dadd exact x y = x + y" "dsub exact x y = x - y" "dmul exact x y = x * y"
  "ddiv exact x y = x / y" "dneg exact x = - x" "dabs exact x = \<bar>x\<bar>"
  by (simp_all add: dec_defs exact_def)

lemma foldl_plus: "foldl (+) (a::rat) xs = a + sum_list xs"
  by (induction xs arbitrary: a) auto

lemma dsum_exact [simp]: "dsum exact xs = sum_list xs"
proof -
  have "dadd exact = (+)" by (simp add: fun_eq_iff)
  then show ?thesis by (simp add: dsum_def foldl_plus)
qed

end
