(* ===== verification/Money.thy ===== *)
theory Money
  imports Decimal_Context
begin

text \<open>
  \<open>portfolio_domain/money.py\<close>: conversion of untrusted values to bounded decimals, display
  rounding, the storage check of the \<open>NUMERIC(24, 8)\<close> ledger, and the allocation of a total
  over weights. The constructor \<open>Decimal(text)\<close> of the standard library is written out as a
  parser, since every metadata amount passes through it.
\<close>

section \<open>Decimal values and the text constructor\<close>

text \<open>A decimal as the constructor returns it; signs of zero and NaN payloads are dropped.\<close>

datatype pynum = Fin rat | Infinity bool | NaN

fun is_finite :: "pynum \<Rightarrow> bool" where
  "is_finite (Fin _) = True"
| "is_finite _ = False"

definition digits_value :: "string \<Rightarrow> int" where
  "digits_value s = foldl (\<lambda>n ch. 10 * n + (of_char ch - 48)) 0 s"

text \<open>The exponent part: an optional sign and at least one digit.\<close>

definition parse_exponent :: "string \<Rightarrow> int option" where
  "parse_exponent s =
     (let (sg, r) = (case s of CHR ''-'' # t \<Rightarrow> (-1, t) | CHR ''+'' # t \<Rightarrow> (1, t) | _ \<Rightarrow> (1, s))
      in if str_isdigit r then Some (sg * digits_value r) else None)"

text \<open>
  An unsigned finite number: digits with an optional point, at least one digit, an optional
  exponent within the range of the C implementation.
\<close>

definition parse_finite :: "string \<Rightarrow> rat option" where
  "parse_finite s =
     (let ip = takeWhile is_digit s; r = dropWhile is_digit s;
          (fp, t) = (case r of CHR ''.'' # u \<Rightarrow> (takeWhile is_digit u, dropWhile is_digit u)
                             | _ \<Rightarrow> ([], r));
          m = digits_value (ip @ fp); shift = int (length fp)
      in if ip = [] \<and> fp = [] then None
         else case t of
             [] \<Rightarrow> Some (of_int m * pow10 (- shift))
           | ch # u \<Rightarrow>
               if ch = CHR ''e'' \<or> ch = CHR ''E''
               then (case parse_exponent u of
                       None \<Rightarrow> None
                     | Some e \<Rightarrow>
                         if e - shift < -1999999999999999997
                            \<or> 999999999999999999 < e - shift + int (length (ip @ fp)) - 1
                         then None else Some (of_int m * pow10 (e - shift)))
               else None)"

definition strip_nan :: "string \<Rightarrow> string option" where
  "strip_nan s =
     (let u = str_upper s
      in if take 3 u = ''NAN'' then Some (drop 3 s)
         else if take 4 u = ''SNAN'' then Some (drop 4 s) else None)"

definition parse_unsigned :: "string \<Rightarrow> pynum option" where
  "parse_unsigned s =
     (if str_upper s = ''INF'' \<or> str_upper s = ''INFINITY'' then Some (Infinity False)
      else case strip_nan s of
          Some d \<Rightarrow> if list_all is_digit d then Some NaN else None
        | None \<Rightarrow> map_option Fin (parse_finite s))"

fun negate_num :: "pynum \<Rightarrow> pynum" where
  "negate_num (Fin x) = Fin (- x)"
| "negate_num (Infinity b) = Infinity (\<not> b)"
| "negate_num NaN = NaN"

text \<open>\<open>Decimal(text)\<close>: white space is stripped, underscores are dropped, a sign is optional.\<close>

definition parse_decimal :: "string \<Rightarrow> pynum option" where
  "parse_decimal s =
     (case filter (\<lambda>ch. ch \<noteq> CHR ''_'') (str_strip s) of
        CHR ''-'' # t \<Rightarrow> map_option negate_num (parse_unsigned t)
      | CHR ''+'' # t \<Rightarrow> parse_unsigned t
      | t \<Rightarrow> parse_unsigned t)"

text \<open>The truth value of a dynamic value, negated.\<close>

definition falsy :: "pyval \<Rightarrow> bool" where
  "falsy v = (case v of VNone \<Rightarrow> True | VBool b \<Rightarrow> \<not> b | VNum s \<Rightarrow> parse_decimal s = Some (Fin 0)
     | VStr s \<Rightarrow> s = [] | VList vs \<Rightarrow> vs = [] | VDict d \<Rightarrow> d = [])"

section \<open>decimal\<close>

definition MAX_AMOUNT :: rat where
  "MAX_AMOUNT = 10 ^ 16"

text \<open>The checks of \<open>decimal\<close> on a number that was parsed (or was a \<open>Decimal\<close> already).\<close>

definition check_number :: "ctx \<Rightarrow> pynum \<Rightarrow> string \<Rightarrow> bool \<Rightarrow> bool \<Rightarrow> rat result" where
  "check_number c num name positive nonnegative =
     (case num of
        Fin x \<Rightarrow>
          if MAX_AMOUNT < dabs c x
          then Inl (ValueError (name @ '' must be finite and within accounting bounds''))
          else if positive \<and> x \<le> 0 \<or> nonnegative \<and> x < 0
          then Inl (ValueError (name @ '' must be '' @
                     (if positive then ''positive'' else ''non-negative'')))
          else Inr x
      | _ \<Rightarrow> Inl (ValueError (name @ '' must be finite and within accounting bounds'')))"

definition decimal :: "ctx \<Rightarrow> pyval \<Rightarrow> string \<Rightarrow> bool \<Rightarrow> bool \<Rightarrow> rat result" where
  "decimal c v name positive nonnegative =
     (case parse_decimal (py_str v) of
        None \<Rightarrow> Inl (ValueError (name @ '' must be numeric''))
      | Some num \<Rightarrow> check_number c num name positive nonnegative)"

text \<open>
  \<open>decimal\<close> on a value that is a finite \<open>Decimal\<close>: \<open>Decimal(str(x))\<close> is \<open>x\<close>.
\<close>

definition decimal_of :: "ctx \<Rightarrow> rat \<Rightarrow> string \<Rightarrow> bool \<Rightarrow> bool \<Rightarrow> rat result" where
  "decimal_of c x = check_number c (Fin x)"

section \<open>money and stored\_decimal\<close>

text \<open>
  \<open>quantize\<close> at \<open>places\<close> decimals in a context that is wide enough for the result; the
  result's zero loses its sign, which the value model does not carry.
\<close>

definition quantized :: "int \<Rightarrow> rat \<Rightarrow> rat" where
  "quantized places x = round_at (- places) x"

definition money :: "pynum \<Rightarrow> int \<Rightarrow> rat result" where
  "money v places =
     (if \<not> (0 \<le> places \<and> places \<le> 12)
      then Inl (ValueError ''Money rounding places must be between zero and twelve'')
      else case v of
          Fin x \<Rightarrow> Inr (quantized places x)
        | _ \<Rightarrow> Inl (ValueError ''Cannot round a non-finite monetary value''))"

text \<open>\<open>money(x)\<close> on a finite value with the default of two places.\<close>

definition cents :: "rat \<Rightarrow> rat" where
  "cents x = quantized 2 x"

definition check_stored :: "ctx \<Rightarrow> rat \<Rightarrow> string \<Rightarrow> rat result" where
  "check_stored c x name =
     (if MAX_AMOUNT \<le> dabs c x
      then Inl (ValueError (name @ '' exceeds the ledger's sixteen integer digits''))
      else if x \<noteq> quantized 8 x
      then Inl (ValueError (name @
             '' supports at most eight decimal places in the current ledger''))
      else Inr x)"

definition stored_decimal :: "ctx \<Rightarrow> pyval \<Rightarrow> string \<Rightarrow> bool \<Rightarrow> bool \<Rightarrow> rat result" where
  "stored_decimal c v name positive nonnegative =
     bindE (decimal c v name positive nonnegative) (\<lambda>x. check_stored c x name)"

definition stored_decimal_of :: "ctx \<Rightarrow> rat \<Rightarrow> string \<Rightarrow> bool \<Rightarrow> bool \<Rightarrow> rat result" where
  "stored_decimal_of c x name positive nonnegative =
     bindE (decimal_of c x name positive nonnegative) (\<lambda>x. check_stored c x name)"

section \<open>allocate\<close>

text \<open>
  The loop over \<open>positive[:-1]\<close>: shares are written at their index and taken off the
  remainder; the last positive index receives what remains.
\<close>

fun allocate_loop ::
  "ctx \<Rightarrow> rat \<Rightarrow> rat \<Rightarrow> rat list \<Rightarrow> nat list \<Rightarrow> rat list \<times> rat \<Rightarrow> rat list \<times> rat" where
  "allocate_loop c tot denominator weights [] (result, remainder) = (result, remainder)"
| "allocate_loop c tot denominator weights (i # is) (result, remainder) =
     (let share = ddiv c (dmul c tot (weights ! i)) denominator
      in allocate_loop c tot denominator weights is
           (result[i := share], dsub c remainder share))"

definition allocate :: "ctx \<Rightarrow> rat \<Rightarrow> rat list \<Rightarrow> rat list result" where
  "allocate c tot weights =
     (if list_ex (\<lambda>w. w < 0) weights
      then Inl (ValueError ''Allocation weights must be finite and non-negative'')
      else let denominator = dsum c weights in
      if denominator \<le> 0
      then Inl (ValueError ''Allocation requires a positive total weight'')
      else
        let positive = filter (\<lambda>i. 0 < weights ! i) [0..<length weights];
            (result, remainder) =
              allocate_loop c tot denominator weights (butlast positive)
                (replicate (length weights) 0, tot)
        in Inr (result[last positive := remainder]))"

section \<open>Lemmas\<close>

lemma check_number_Inr [result_simps]:
  "check_number c num name p n = Inr x \<longleftrightarrow>
     num = Fin x \<and> dabs c x \<le> MAX_AMOUNT \<and> (p \<longrightarrow> 0 < x) \<and> (n \<longrightarrow> 0 \<le> x)"
  by (auto simp: check_number_def split: pynum.splits)

lemma decimal_of_Inr [result_simps]:
  "decimal_of c y name p n = Inr x \<longleftrightarrow>
     y = x \<and> dabs c x \<le> MAX_AMOUNT \<and> (p \<longrightarrow> 0 < x) \<and> (n \<longrightarrow> 0 \<le> x)"
  by (auto simp: decimal_of_def result_simps)

lemma decimal_Inr:
  "decimal c v name p n = Inr x \<longleftrightarrow>
     parse_decimal (py_str v) = Some (Fin x) \<and> dabs c x \<le> MAX_AMOUNT \<and>
     (p \<longrightarrow> 0 < x) \<and> (n \<longrightarrow> 0 \<le> x)"
  by (auto simp: decimal_def result_simps split: option.splits)

lemma quantized_error: "\<bar>quantized p x - x\<bar> \<le> pow10 (- p) / 2"
  using round_at_error [of "- p" x] by (simp add: quantized_def)

lemma quantized_fixes: "quantized p x = x \<longleftrightarrow> (\<exists>m. x = of_int m * pow10 (- p))"
proof
  assume "quantized p x = x"
  then show "\<exists>m. x = of_int m * pow10 (- p)" unfolding quantized_def round_at_def by metis
next
  assume "\<exists>m. x = of_int m * pow10 (- p)"
  then show "quantized p x = x" by (auto simp: quantized_def round_at_multiple)
qed

lemma quantized_idem [simp]: "quantized p (quantized p x) = quantized p x"
  unfolding quantized_fixes by (auto simp: quantized_def round_at_def)

lemma quantized_zero [simp]: "quantized p 0 = 0"
  unfolding quantized_fixes by (intro exI [of _ 0]) simp

text \<open>A value with eight decimals and sixteen integer digits has at most 24 digits.\<close>

lemma prec_stored:
  assumes "x = of_int m * pow10 (- 8)" "\<bar>x\<bar> < 10 ^ 16" "24 \<le> p"
  shows "prec p x = x"
proof -
  have "of_int \<bar>m\<bar> = \<bar>x\<bar> * 10 ^ 8" using assms(1) by (simp add: abs_mult pow10_def)
  also have "\<dots> < of_int (10 ^ 24)" using assms(2) by simp
  finally have "\<bar>m\<bar> < 10 ^ 24" by (simp only: of_int_less_iff)
  also have "\<dots> \<le> 10 ^ p" using assms(3) by (intro power_increasing) auto
  finally show ?thesis using prec_multiple [of m p "- 8"] assms(1) by simp
qed

subsection \<open>The allocation loop\<close>

definition share :: "ctx \<Rightarrow> rat \<Rightarrow> rat list \<Rightarrow> nat \<Rightarrow> rat" where
  "share c tot weights i = ddiv c (dmul c tot (weights ! i)) (dsum c weights)"

definition positive_at :: "rat list \<Rightarrow> nat list" where
  "positive_at weights = filter (\<lambda>i. 0 < weights ! i) [0..<length weights]"

lemma positive_at_props:
  "distinct (positive_at ws)" "set (positive_at ws) = {i. i < length ws \<and> 0 < ws ! i}"
  by (auto simp: positive_at_def)

lemma allocate_loop_eq:
  "allocate_loop c tot (dsum c ws) ws is (r, rem) =
     (foldl (\<lambda>r i. r[i := share c tot ws i]) r is,
      foldl (\<lambda>m i. dsub c m (share c tot ws i)) rem is)"
  by (induction "is" arbitrary: r rem) (auto simp: share_def Let_def)

lemma foldl_update_length [simp]: "length (foldl (\<lambda>r i. r[i := f i]) r is) = length r"
  by (induction "is" arbitrary: r) auto

lemma foldl_update_nth:
  "i < length r \<Longrightarrow> foldl (\<lambda>r i. r[i := f i]) r is ! i = (if i \<in> set is then f i else r ! i)"
  by (induction "is" arbitrary: r) (auto simp: nth_list_update)

lemma allocate_Inr:
  "allocate c tot ws = Inr r \<longleftrightarrow>
     list_all (\<lambda>w. 0 \<le> w) ws \<and> 0 < dsum c ws \<and>
     r = (foldl (\<lambda>r i. r[i := share c tot ws i]) (replicate (length ws) 0)
            (butlast (positive_at ws)))
           [last (positive_at ws) :=
              foldl (\<lambda>m i. dsub c m (share c tot ws i)) tot (butlast (positive_at ws))]"
  unfolding allocate_def Let_def
  by (auto simp: allocate_loop_eq positive_at_def [symmetric] list_all_iff list_ex_iff not_less
      not_le)

lemma allocate_length: "allocate c tot ws = Inr r \<Longrightarrow> length r = length ws"
  by (auto simp: allocate_Inr)

context decimal_ctx
begin

lemma dsum_pos_Ex:
  assumes "0 < dsum c ws"
  shows "positive_at ws \<noteq> []"
proof
  assume "positive_at ws = []"
  then have le: "x \<le> 0" if "x \<in> set ws" for x
    using that by (force simp: positive_at_def filter_empty_conv in_set_conv_nth not_less)
  have "dsum c ws \<le> 0" unfolding dsum_def
    by (rule foldl_invariant [where P = "\<lambda>a. a \<le> 0"]) (use le in \<open>auto simp: dadd_def intro!: nonpos add_nonpos_nonpos\<close>)
  then show False using assms by simp
qed

lemma allocate_nth:
  assumes "allocate c tot ws = Inr r" "i < length ws"
  shows "r ! i =
    (if ws ! i \<le> 0 then 0
     else if i = last (positive_at ws)
     then foldl (\<lambda>m i. dsub c m (share c tot ws i)) tot (butlast (positive_at ws))
     else share c tot ws i)"
proof -
  have r: "r = (foldl (\<lambda>r i. r[i := share c tot ws i]) (replicate (length ws) 0)
            (butlast (positive_at ws)))
           [last (positive_at ws) :=
              foldl (\<lambda>m i. dsub c m (share c tot ws i)) tot (butlast (positive_at ws))]"
    using assms(1) by (simp add: allocate_Inr)
  show ?thesis
  proof (cases "i \<in> set (positive_at ws)")
    case True
    then have ne: "positive_at ws \<noteq> []" by auto
    have "set (positive_at ws) = insert (last (positive_at ws)) (set (butlast (positive_at ws)))"
      by (metis append_butlast_last_id list.simps(15) ne rotate1.simps(2) set_rotate1)
    then have "i = last (positive_at ws) \<or> i \<in> set (butlast (positive_at ws))" using True by auto
    then show ?thesis using True assms(2) by (auto simp: r foldl_update_nth nth_list_update
        positive_at_props)
  next
    case False
    then have "ws ! i \<le> 0" "i \<notin> set (butlast (positive_at ws))"
      using assms(2) by (auto simp: positive_at_props dest: in_set_butlastD)
    moreover have "i \<noteq> last (positive_at ws)"
      using False last_in_set dsum_pos_Ex assms(1) by (metis allocate_Inr)
    ultimately show ?thesis using assms(2)
      by (auto simp: r foldl_update_nth nth_list_update)
  qed
qed

end

text \<open>In ideal arithmetic the residual of the last index is exactly its own share.\<close>

lemma foldl_sub_exact: "foldl (\<lambda>m i. m - f i) (a::rat) is = a - sum_list (map f is)"
  by (induction "is" arbitrary: a) auto

lemma sum_positive_at:
  assumes "list_all (\<lambda>w. 0 \<le> w) ws"
  shows "sum_list (map ((!) ws) (positive_at ws)) = sum_list ws"
proof -
  have "sum_list (map ((!) ws) (positive_at ws)) = sum_list (map ((!) ws) [0..<length ws])"
    unfolding positive_at_def using assms
    by (intro sum_list_filter_zero) (auto simp: list_all_length not_less order.antisym)
  then show ?thesis by (simp add: map_nth)
qed

lemma sum_list_scale:
  "sum_list (map (\<lambda>i. a * f i / (d::rat)) is) = a * sum_list (map f is) / d"
  by (induction "is") (auto simp: add_divide_distrib distrib_left)

lemma sum_list_butlast_last:
  "xs \<noteq> [] \<Longrightarrow> sum_list (map f (butlast xs)) + f (last xs) = (sum_list (map f xs) :: rat)"
  by (induction xs rule: rev_induct) auto

lemma allocate_exact:
  assumes "allocate exact tot ws = Inr r"
  shows "r = map (\<lambda>w. tot * w / sum_list ws) ws"
proof (rule nth_equalityI)
  show "length r = length (map (\<lambda>w. tot * w / sum_list ws) ws)"
    using allocate_length [OF assms] by simp
next
  fix i assume "i < length r"
  then have i: "i < length ws" using allocate_length [OF assms] by simp
  have nn: "list_all (\<lambda>w. 0 \<le> w) ws" and s: "0 < sum_list ws"
    using assms by (auto simp: allocate_Inr)
  let ?p = "positive_at ws" and ?f = "\<lambda>i. tot * ws ! i / sum_list ws"
  have ne: "?p \<noteq> []" using ideal.dsum_pos_Ex s by simp
  have "sum_list (map ((!) ws) (butlast ?p)) + ws ! last ?p = sum_list (map ((!) ws) ?p)"
    using ne by (rule sum_list_butlast_last)
  then have b: "sum_list (map ((!) ws) (butlast ?p)) = sum_list ws - ws ! last ?p"
    using sum_positive_at [OF nn] by simp
  have "sum_list (map ?f (butlast ?p)) = tot * (sum_list ws - ws ! last ?p) / sum_list ws"
    by (simp only: sum_list_scale b)
  also have "\<dots> = tot - ?f (last ?p)" using s by (simp add: field_simps)
  finally have "tot - sum_list (map ?f (butlast ?p)) = ?f (last ?p)" by simp
  then show "r ! i = map (\<lambda>w. tot * w / sum_list ws) ws ! i"
    using ideal.allocate_nth [OF assms i] nn i
    by (auto simp: share_def foldl_sub_exact list_all_length order.antisym)
qed

lemma allocate_exact_total:
  assumes "allocate exact tot ws = Inr r"
  shows "sum_list r = tot"
proof -
  have "0 < sum_list ws" using assms by (simp add: allocate_Inr)
  then show ?thesis
    using sum_list_scale [of tot "\<lambda>w. w" "sum_list ws" ws] by (simp add: allocate_exact [OF assms])
qed

section \<open>Properties\<close>

text \<open>\<open>allocate\<close> distributes a total over non-negative weights in proportion to
  them: in ideal arithmetic the call succeeds exactly when no weight is negative and some weight
  is positive, every share is the total times the weight over the weight sum (so a zero weight
  receives zero), and the shares add up to the total.\<close>

theorem allocate_proportional:
  "(\<exists>r. allocate exact tot ws = Inr r) = ((\<forall>i<length ws. 0 \<le> ws ! i) \<and> 0 < sum_list ws) \<and>
   (\<forall>r. allocate exact tot ws = Inr r \<longrightarrow>
      r = map (\<lambda>w. tot * w / sum_list ws) ws \<and> sum_list r = tot)"
  using allocate_exact allocate_exact_total by (auto simp: allocate_Inr list_all_length)

text \<open>The weights 1 and 6 with total 6 are a concrete allocation.\<close>

theorem allocate_proportional_witness:
  "allocate exact 14 [1, 6] = Inr [2, 12] \<and> sum_list [2, 12::rat] = 14"
proof -
  have "\<exists>r. allocate exact 14 [1, 6] = Inr r"
    by (subst allocate_proportional [THEN conjunct1]) (simp add: less_Suc_eq)
  then obtain r where r: "allocate exact 14 [1, 6] = Inr r" by blast
  then have "r = map (\<lambda>w. 14 * w / sum_list [1, 6]) [1, 6]"
    using allocate_proportional [THEN conjunct2] by blast
  then show ?thesis using r by simp
qed

lemma stored_decimal_iff:
  "stored_decimal_of (prec 28) x name positive nonnegative = Inr y \<longleftrightarrow>
     y = x \<and> (\<exists>m. x = of_int m / 10 ^ 8 \<and> \<bar>m\<bar> < 10 ^ 24) \<and>
     (positive \<longrightarrow> 0 < x) \<and> (nonnegative \<longrightarrow> 0 \<le> x)"
proof -
  have pw: "of_int m * pow10 (- 8) = of_int m / 10 ^ 8" for m by (simp add: pow10_def)
  have big: "10 ^ 16 \<le> \<bar>x\<bar> \<Longrightarrow> 10 ^ 16 \<le> dabs (prec 28) x"
    using d28.mono [of "10 ^ 16" "\<bar>x\<bar>"] prec_power [of 28 16] by (simp add: dabs_def pow10_def)
  have dig: "\<bar>m\<bar> < 10 ^ 24 \<longleftrightarrow> \<bar>x\<bar> < 10 ^ 16" if "x = of_int m / 10 ^ 8" for m
  proof -
    have "\<bar>x\<bar> * 10 ^ 8 = of_int \<bar>m\<bar>" using that by (simp add: abs_divide)
    then have "\<bar>x\<bar> < 10 ^ 16 \<longleftrightarrow> of_int \<bar>m\<bar> < (of_int (10 ^ 24) :: rat)" by auto
    then show ?thesis by (simp only: of_int_less_iff)
  qed
  have small: "dabs (prec 28) x = \<bar>x\<bar>" if "x = of_int m / 10 ^ 8" "\<bar>x\<bar> < 10 ^ 16" for m
  proof -
    have "\<bar>x\<bar> = of_int \<bar>m\<bar> * pow10 (- 8)" using that(1) by (simp add: abs_divide pow10_def)
    then show ?thesis using prec_stored [of "\<bar>x\<bar>" "\<bar>m\<bar>" 28] that(2) by (simp add: dabs_def)
  qed
  have "stored_decimal_of (prec 28) x name positive nonnegative = Inr y \<longleftrightarrow>
      y = x \<and> dabs (prec 28) x < 10 ^ 16 \<and> quantized 8 x = x \<and>
      (positive \<longrightarrow> 0 < x) \<and> (nonnegative \<longrightarrow> 0 \<le> x)"
    by (auto simp: stored_decimal_of_def check_stored_def result_simps MAX_AMOUNT_def)
  moreover have "dabs (prec 28) x < 10 ^ 16 \<and> quantized 8 x = x \<longleftrightarrow>
      (\<exists>m. x = of_int m / 10 ^ 8 \<and> \<bar>m\<bar> < 10 ^ 24)"
    unfolding quantized_fixes pw using big dig small by (metis linorder_not_less)
  ultimately show ?thesis by blast
qed

text \<open>Stored decimals are whole numbers of the last stored place; their sums stay exact in the
  28-digit context while they are below \<open>10 ^ 20\<close>.\<close>

definition stored_unit :: "rat \<Rightarrow> bool" where
  "stored_unit x \<longleftrightarrow> (\<exists>m. x = of_int m / 10 ^ 8)"

lemma stored_unit_decimal: "stored_decimal_of (prec 28) x name pos nonneg = Inr y \<Longrightarrow> stored_unit y"
  by (auto simp: stored_decimal_iff stored_unit_def)

lemma stored_unit_0 [simp]: "stored_unit 0"
  by (auto simp: stored_unit_def intro: exI [of _ 0])

lemma stored_unit_add [simp]: "stored_unit x \<Longrightarrow> stored_unit y \<Longrightarrow> stored_unit (x + y)"
  unfolding stored_unit_def by (metis add_divide_distrib of_int_add)

lemma dadd_stored_unit:
  assumes "stored_unit x" "stored_unit y" "\<bar>x + y\<bar> < 10 ^ 20"
  shows "dadd (prec 28) x y = x + y"
proof -
  from assms(1,2) have "stored_unit (x + y)" by simp
  then obtain m where m: "x + y = of_int m / 10 ^ 8" by (auto simp: stored_unit_def)
  have "\<bar>x + y\<bar> * 10 ^ 8 = of_int \<bar>m\<bar>" unfolding m by (simp add: abs_divide)
  with assms(3) have "of_int \<bar>m\<bar> < (of_int (10 ^ 28) :: rat)" by simp
  then have "\<bar>m\<bar> < 10 ^ 28" by (simp only: of_int_less_iff)
  from prec_multiple [OF this, of "- 8"] show ?thesis
    by (simp add: dadd_def m pow10_def)
qed

text \<open>A value passes \<open>stored_decimal\<close> in the default context exactly when the
  \<open>NUMERIC(24, 8)\<close> column represents it, that is, when it is an integer multiple of
  \<open>10 ^ -8\<close> with at most 24 digits and satisfies the requested sign; it is then returned
  unchanged.\<close>

theorem stored_decimal_representable:
  "stored_decimal_of (prec 28) x name positive nonnegative = Inr y \<longleftrightarrow>
     y = x \<and> (\<exists>m. x = of_int m / 10 ^ 8 \<and> \<bar>m\<bar> < 10 ^ 24) \<and>
     (positive \<longrightarrow> 0 < x) \<and> (nonnegative \<longrightarrow> 0 \<le> x)"
  by (rule stored_decimal_iff)

text \<open>Two and a half units.\<close>

theorem stored_decimal_representable_witness:
  "stored_decimal_of (prec 28) (5 / 2) ''amount'' True False = Inr (5 / 2)"
proof -
  have "\<exists>m. 5 / 2 = (of_int m / 10 ^ 8 :: rat) \<and> \<bar>m\<bar> < 10 ^ 24"
    by (intro exI [of _ 250000000]) simp
  then show ?thesis
    using stored_decimal_representable [of "5 / 2" "''amount''" True False "5 / 2"] by simp
qed

end
