(* ===== verification/Accounting_Types.thy ===== *)
theory Accounting_Types
  imports Money
begin

text \<open>
  \<open>portfolio_domain/types.py\<close>: the enumerations, the accounting policy, the ledger entry with
  its validation, and the lot records shared by the accounting services. The numeric fields of
  an entry are finite decimals (rationals): entries are built from \<open>NUMERIC(24, 8)\<close> columns,
  and a non-finite value is rejected where it is parsed (\<open>Money.check_number\<close>).
\<close>

section \<open>Enumerations\<close>

datatype cost_method = AVERAGE | FIFO

datatype direction = LONG | SHORT_SIDE

text \<open>
  \<open>entry.kind\<close> is a string; the nineteen supported values are the constructors of
  \<open>TransactionKind\<close> and any other string is \<open>UNSUPPORTED\<close>.
\<close>

datatype txn_kind =
    DEPOSIT | WITHDRAWAL | BUY | SELL | SHORT | COVER | DIVIDEND | INTEREST | COMMISSION | FEE
  | TAX | FX_CONVERSION | SPLIT | REVERSE_SPLIT | SPINOFF | MERGER | TRANSFER_IN | TRANSFER_OUT
  | OTHER_ADJUSTMENT | UNSUPPORTED string

fun kind_value :: "txn_kind \<Rightarrow> string" where
  "kind_value DEPOSIT = ''DEPOSIT''"
| "kind_value WITHDRAWAL = ''WITHDRAWAL''"
| "kind_value BUY = ''BUY''"
| "kind_value SELL = ''SELL''"
| "kind_value SHORT = ''SHORT''"
| "kind_value COVER = ''COVER''"
| "kind_value DIVIDEND = ''DIVIDEND''"
| "kind_value INTEREST = ''INTEREST''"
| "kind_value COMMISSION = ''COMMISSION''"
| "kind_value FEE = ''FEE''"
| "kind_value TAX = ''TAX''"
| "kind_value FX_CONVERSION = ''FX_CONVERSION''"
| "kind_value SPLIT = ''SPLIT''"
| "kind_value REVERSE_SPLIT = ''REVERSE_SPLIT''"
| "kind_value SPINOFF = ''SPINOFF''"
| "kind_value MERGER = ''MERGER''"
| "kind_value TRANSFER_IN = ''TRANSFER_IN''"
| "kind_value TRANSFER_OUT = ''TRANSFER_OUT''"
| "kind_value OTHER_ADJUSTMENT = ''OTHER_ADJUSTMENT''"
| "kind_value (UNSUPPORTED s) = s"

fun supported_kind :: "txn_kind \<Rightarrow> bool" where
  "supported_kind (UNSUPPORTED _) = False"
| "supported_kind _ = True"

definition SECURITY_MOVEMENTS :: "txn_kind list" where
  "SECURITY_MOVEMENTS = [BUY, SELL, SHORT, COVER, TRANSFER_IN, TRANSFER_OUT]"

section \<open>Policy and entries\<close>

record policy =
  p_method :: cost_method
  p_capitalize_commissions :: bool
  p_capitalize_fees :: bool

record entry =
  e_id :: string
  e_day :: date
  e_kind :: txn_kind
  e_currency :: string
  e_quantity :: rat
  e_price :: rat
  e_fx :: rat
  e_amount :: rat
  e_fee :: rat
  e_commission :: rat
  e_tax :: rat
  e_instrument_id :: "string option"
  e_multiplier :: rat
  e_metadata :: "pyval dict"
  e_settle_date :: "date option"
  e_account_id :: "string option"

text \<open>The dataclass defaults: everything but the identity of the entry.\<close>

definition default_policy :: policy where
  "default_policy =
     \<lparr>p_method = AVERAGE, p_capitalize_commissions = False, p_capitalize_fees = False\<rparr>"

definition new_entry :: "string \<Rightarrow> date \<Rightarrow> txn_kind \<Rightarrow> string \<Rightarrow> entry" where
  "new_entry i d k cur =
     \<lparr>e_id = i, e_day = d, e_kind = k, e_currency = cur, e_quantity = 0, e_price = 0, e_fx = 1,
      e_amount = 0, e_fee = 0, e_commission = 0, e_tax = 0, e_instrument_id = None,
      e_multiplier = 1, e_metadata = [], e_settle_date = None, e_account_id = None\<rparr>"

text \<open>\<open>AccountingPolicy.from_config\<close>: the \<open>accounting\<close> object of a portfolio profile.\<close>

definition cost_method_of :: "string \<Rightarrow> cost_method result" where
  "cost_method_of s =
     (if s = ''AVERAGE'' then Inr AVERAGE
      else if s = ''FIFO'' then Inr FIFO
      else Inl (ValueError (CHR 0x27 # s @ CHR 0x27 # '' is not a valid CostMethod'')))"

definition from_config :: "pyval dict \<Rightarrow> policy result" where
  "from_config config =
     (case dict_get config ''accounting'' (VDict []) of
        VDict raw \<Rightarrow>
          bindE (cost_method_of (str_upper (py_str (dict_get raw ''method'' (VStr ''AVERAGE'')))))
          (\<lambda>m.
            case (dict_get raw ''capitalize_commissions'' (VBool False),
                  dict_get raw ''capitalize_fees'' (VBool False)) of
              (VBool b, VBool f) \<Rightarrow>
                Inr \<lparr>p_method = m, p_capitalize_commissions = b, p_capitalize_fees = f\<rparr>
            | _ \<Rightarrow> Inl (ValueError ''Cost treatment switches must be boolean''))
      | _ \<Rightarrow> Inl (ValueError ''Accounting policy must be an object''))"

fun method_value :: "cost_method \<Rightarrow> string" where
  "method_value AVERAGE = ''AVERAGE''"
| "method_value FIFO = ''FIFO''"

definition policy_to_dict :: "policy \<Rightarrow> pyval dict" where
  "policy_to_dict p =
     [(''method'', VStr (method_value (p_method p))),
      (''capitalize_commissions'', VBool (p_capitalize_commissions p)),
      (''capitalize_fees'', VBool (p_capitalize_fees p))]"

definition capitalizable :: "txn_kind \<Rightarrow> bool" where
  "capitalizable k \<longleftrightarrow> k \<in> {BUY, SELL, SHORT, COVER}"

definition capitalized :: "ctx \<Rightarrow> policy \<Rightarrow> entry \<Rightarrow> rat" where
  "capitalized c p e =
     (if \<not> capitalizable (e_kind e) then 0
      else dadd c (if p_capitalize_commissions p then e_commission e else 0)
                  (if p_capitalize_fees p then e_fee e else 0))"

definition charges :: "ctx \<Rightarrow> entry \<Rightarrow> rat" where
  "charges c e = dadd c (dadd c (e_fee e) (e_commission e)) (e_tax e)"

text \<open>\<open>quantity * price * multiplier\<close>, from the left.\<close>

definition notional :: "ctx \<Rightarrow> entry \<Rightarrow> rat" where
  "notional c e = dmul c (dmul c (e_quantity e) (e_price e)) (e_multiplier e)"

definition gross :: "ctx \<Rightarrow> entry \<Rightarrow> rat" where
  "gross c e = (if e_amount e \<noteq> 0 then e_amount e else notional c e)"

definition settlement :: "entry \<Rightarrow> date" where
  "settlement e = (case e_settle_date e of Some d \<Rightarrow> d | None \<Rightarrow> e_day e)"

text \<open>\<open>not self.instrument_id\<close>: absent or empty.\<close>

definition has_instrument :: "entry \<Rightarrow> bool" where
  "has_instrument e \<longleftrightarrow> e_instrument_id e \<noteq> None \<and> e_instrument_id e \<noteq> Some []"

definition valid_currency :: "string \<Rightarrow> bool" where
  "valid_currency s \<longleftrightarrow> length s = 3 \<and> str_isascii s \<and> str_isalpha s \<and> str_isupper s"

definition validate :: "ctx \<Rightarrow> entry \<Rightarrow> unit result" where
  "validate c e =
     bindE (ensure (e_id e \<noteq> [] \<and> supported_kind (e_kind e))
        (ValueError ''Entry requires an ID and supported transaction type'')) (\<lambda>_.
     bindE (ensure (valid_currency (e_currency e))
        (ValueError ''Currency must be an uppercase three-letter code'')) (\<lambda>_.
     bindE (decimal_of c (e_quantity e) ''quantity'' False True) (\<lambda>_.
     bindE (decimal_of c (e_price e) ''price'' False True) (\<lambda>_.
     bindE (decimal_of c (e_amount e) ''amount'' False True) (\<lambda>_.
     bindE (decimal_of c (e_fee e) ''fee'' False True) (\<lambda>_.
     bindE (decimal_of c (e_commission e) ''commission'' False True) (\<lambda>_.
     bindE (decimal_of c (e_tax e) ''tax'' False True) (\<lambda>_.
     bindE (decimal_of c (e_fx e) ''FX'' True False) (\<lambda>_.
     bindE (decimal_of c (e_multiplier e) ''contract multiplier'' True False) (\<lambda>_.
     bindE (ensure (e_day e \<le> settlement e)
        (ValueError ''Settlement date cannot precede trade date'')) (\<lambda>_.
     if capitalizable (e_kind e)
     then
       bindE (ensure (has_instrument e \<and> 0 < e_quantity e \<and> 0 < e_price e)
         (ValueError ''A trade requires a known instrument and positive quantity and price''))
       (\<lambda>_.
         ensure (e_amount e \<noteq> 0 \<longrightarrow> e_amount e = notional c e)
           (ValueError ''Gross amount must equal quantity times price times multiplier''))
     else Inr ())))))))))))"

section \<open>Lots\<close>

record open_lot =
  ol_id :: string
  ol_instrument_id :: string
  ol_entry_id :: string
  ol_opened :: date
  ol_direction :: direction
  ol_quantity :: rat
  ol_native_basis :: rat
  ol_base_basis :: rat
  ol_multiplier :: rat

record lot_match =
  lm_lot_id :: string
  lm_opening_entry_id :: string
  lm_closing_entry_id :: string
  lm_instrument_id :: string
  lm_direction :: direction
  lm_quantity :: rat
  lm_native_basis :: rat
  lm_base_basis :: rat
  lm_native_proceeds :: rat
  lm_base_proceeds :: rat
  lm_realised_native :: rat
  lm_realised_base :: rat
  lm_closed :: date

text \<open>The position rollup (class \<open>Lot\<close>).\<close>

record position =
  ps_quantity :: rat
  ps_cost_native :: rat
  ps_cost_base :: rat
  ps_realised :: rat
  ps_income :: rat
  ps_charges :: rat
  ps_multiplier :: rat
  ps_capitalized_charges :: rat

definition new_position :: position where
  "new_position =
     \<lparr>ps_quantity = 0, ps_cost_native = 0, ps_cost_base = 0, ps_realised = 0, ps_income = 0,
      ps_charges = 0, ps_multiplier = 1, ps_capitalized_charges = 0\<rparr>"

definition expensed_charges :: "ctx \<Rightarrow> position \<Rightarrow> rat" where
  "expensed_charges c p = dsub c (ps_charges p) (ps_capitalized_charges p)"

section \<open>Lemmas\<close>

definition bounded_amount :: "ctx \<Rightarrow> rat \<Rightarrow> bool" where
  "bounded_amount c x \<longleftrightarrow> dabs c x \<le> MAX_AMOUNT"

text \<open>What a validated entry satisfies, as one conjunction.\<close>

definition valid_entry :: "ctx \<Rightarrow> entry \<Rightarrow> bool" where
  "valid_entry c e \<longleftrightarrow>
     e_id e \<noteq> [] \<and> supported_kind (e_kind e) \<and> valid_currency (e_currency e) \<and>
     (\<forall>x\<in>{e_quantity e, e_price e, e_amount e, e_fee e, e_commission e, e_tax e}.
        bounded_amount c x \<and> 0 \<le> x) \<and>
     (\<forall>x\<in>{e_fx e, e_multiplier e}. bounded_amount c x \<and> 0 < x) \<and>
     e_day e \<le> settlement e \<and>
     (capitalizable (e_kind e) \<longrightarrow>
        has_instrument e \<and> 0 < e_quantity e \<and> 0 < e_price e \<and>
        (e_amount e \<noteq> 0 \<longrightarrow> e_amount e = notional c e))"

lemma validate_iff [result_simps]: "validate c e = Inr u \<longleftrightarrow> valid_entry c e"
  unfolding validate_def valid_entry_def
  by (simp add: result_simps bounded_amount_def)

lemma validate_unit: "validate c e = Inr () \<or> (\<exists>x. validate c e = Inl x)"
  by (cases "validate c e") auto

lemma validate_error: "\<not> valid_entry c e \<Longrightarrow> \<exists>x. validate c e = Inl x"
  using validate_unit [of c e] by (auto simp: validate_iff)

lemma valid_entryD:
  assumes "valid_entry c e"
  shows "0 \<le> e_quantity e" "0 \<le> e_price e" "0 \<le> e_amount e" "0 \<le> e_fee e"
    "0 \<le> e_commission e" "0 \<le> e_tax e" "0 < e_fx e" "0 < e_multiplier e"
    "e_day e \<le> settlement e" "supported_kind (e_kind e)"
  using assms by (auto simp: valid_entry_def)

context decimal_ctx
begin

lemma notional_nonneg: "valid_entry c e \<Longrightarrow> 0 \<le> notional c e"
  using valid_entryD [of c e] by (simp add: notional_def mul_nonneg)

lemma gross_nonneg: "valid_entry c e \<Longrightarrow> 0 \<le> gross c e"
  by (auto simp: gross_def notional_nonneg dest: valid_entryD)

lemma charges_nonneg: "valid_entry c e \<Longrightarrow> 0 \<le> charges c e"
  by (auto simp: charges_def dest: valid_entryD intro!: add_nonneg)

lemma capitalized_nonneg: "valid_entry c e \<Longrightarrow> 0 \<le> capitalized c p e"
  by (auto simp: capitalized_def dest: valid_entryD intro!: add_nonneg)

lemma gross_trade: "valid_entry c e \<Longrightarrow> capitalizable (e_kind e) \<Longrightarrow> gross c e = notional c e"
  by (auto simp: gross_def valid_entry_def)

end

section \<open>Properties\<close>

text \<open>Writing an accounting policy to its dictionary and reading it back from the profile
  configuration returns the same policy.\<close>

theorem policy_roundtrip: "from_config [(''accounting'', VDict (policy_to_dict p))] = Inr p"
  by (cases "p_method p")
    (simp_all add: from_config_def policy_to_dict_def dict_get_def cost_method_of_def
      str_upper_def upper_char_def is_lower_def)

end
