(* ===== verification/Cash.thy ===== *)
theory Cash
  imports Accounting_Types
begin

text \<open>
  \<open>portfolio_domain/cash.py\<close>: the append-only list of cash movements and the balances read
  from it. Cash is economic from the trade date and settled from the settlement date; a movement
  between the two is a receivable or a payable, and only payables reduce the available cash.
\<close>

section \<open>Movements\<close>

record cash_movement =
  mv_transaction_id :: string
  mv_currency :: string
  mv_amount :: rat
  mv_fx :: rat
  mv_trade_date :: date
  mv_settlement_date :: date
  mv_account_id :: "string option"
  mv_description :: string

record currency_cash =
  cc_currency :: string
  cc_economic :: rat
  cc_settled :: rat
  cc_receivable :: rat
  cc_payable :: rat
  cc_available :: rat
  cc_book_base :: rat

type_synonym cash_service = "cash_movement list"

definition record_movement :: "cash_service \<Rightarrow> cash_movement \<Rightarrow> cash_service result" where
  "record_movement ms m =
     (if mv_fx m \<le> 0
      then Inl (ValueError ''Cash amount and FX must be finite, with positive FX'')
      else if mv_settlement_date m < mv_trade_date m
      then Inl (ValueError ''Cash settlement cannot precede trade date'')
      else Inr (ms @ [m]))"

section \<open>Balances\<close>

text \<open>The accumulators of \<open>balance\<close>, and one turn of its loop.\<close>

record cash_totals =
  ct_economic :: rat
  ct_settled :: rat
  ct_receivable :: rat
  ct_payable :: rat
  ct_book_base :: rat

definition zero_totals :: cash_totals where
  "zero_totals = \<lparr>ct_economic = 0, ct_settled = 0, ct_receivable = 0, ct_payable = 0,
     ct_book_base = 0\<rparr>"

definition counted :: "string \<Rightarrow> date \<Rightarrow> string option \<Rightarrow> cash_movement \<Rightarrow> bool" where
  "counted cur as_of account m \<longleftrightarrow>
     \<not> (mv_currency m \<noteq> cur \<or> as_of < mv_trade_date m) \<and>
     \<not> (account \<noteq> None \<and> mv_account_id m \<noteq> account)"

definition balance_step :: "ctx \<Rightarrow> date \<Rightarrow> cash_totals \<Rightarrow> cash_movement \<Rightarrow> cash_totals" where
  "balance_step c as_of t m =
     (let t = t\<lparr>ct_economic := dadd c (ct_economic t) (mv_amount m),
                ct_book_base := dadd c (ct_book_base t) (dmul c (mv_amount m) (mv_fx m))\<rparr>
      in if mv_settlement_date m \<le> as_of
         then t\<lparr>ct_settled := dadd c (ct_settled t) (mv_amount m)\<rparr>
         else if 0 \<le> mv_amount m
         then t\<lparr>ct_receivable := dadd c (ct_receivable t) (mv_amount m)\<rparr>
         else t\<lparr>ct_payable := dsub c (ct_payable t) (mv_amount m)\<rparr>)"

definition balance_totals ::
  "ctx \<Rightarrow> cash_service \<Rightarrow> string \<Rightarrow> date \<Rightarrow> string option \<Rightarrow> cash_totals" where
  "balance_totals c ms cur as_of account =
     foldl (\<lambda>t m. if counted cur as_of account m then balance_step c as_of t m else t)
       zero_totals ms"

definition balance ::
  "ctx \<Rightarrow> cash_service \<Rightarrow> string \<Rightarrow> date \<Rightarrow> string option \<Rightarrow> currency_cash" where
  "balance c ms cur as_of account =
     (let t = balance_totals c ms cur as_of account
      in \<lparr>cc_currency = cur, cc_economic = ct_economic t, cc_settled = ct_settled t,
          cc_receivable = ct_receivable t, cc_payable = ct_payable t,
          cc_available = dsub c (ct_settled t) (ct_payable t), cc_book_base = ct_book_base t\<rparr>)"

definition balances ::
  "ctx \<Rightarrow> cash_service \<Rightarrow> date \<Rightarrow> string option \<Rightarrow> (string \<times> currency_cash) list" where
  "balances c ms as_of account =
     map (\<lambda>cur. (cur, balance c ms cur as_of account))
       (sorted_keys (map mv_currency (filter (\<lambda>m. mv_trade_date m \<le> as_of) ms)))"

definition pending :: "cash_service \<Rightarrow> date \<Rightarrow> cash_movement list" where
  "pending ms as_of =
     filter (\<lambda>m. mv_trade_date m \<le> as_of \<and> as_of < mv_settlement_date m) ms"

definition settlement_dates :: "cash_service \<Rightarrow> date set" where
  "settlement_dates ms = set (map mv_settlement_date ms)"

section \<open>Lemmas\<close>

lemma record_movement_Inr [result_simps]:
  "record_movement ms m = Inr ms' \<longleftrightarrow>
     ms' = ms @ [m] \<and> 0 < mv_fx m \<and> mv_trade_date m \<le> mv_settlement_date m"
  by (auto simp: record_movement_def)

text \<open>The loop is the fold over the counted movements.\<close>

lemma foldl_if_filter: "foldl (\<lambda>s x. if P x then f s x else s) a xs = foldl f a (filter P xs)"
  by (induction xs arbitrary: a) auto

lemma balance_totals_filter:
  "balance_totals c ms cur as_of account =
     foldl (balance_step c as_of) zero_totals (filter (counted cur as_of account) ms)"
  by (simp add: balance_totals_def foldl_if_filter)

lemma balance_step_simps [simp]:
  "ct_economic (balance_step c as_of t m) = dadd c (ct_economic t) (mv_amount m)"
  "ct_book_base (balance_step c as_of t m) = dadd c (ct_book_base t) (dmul c (mv_amount m) (mv_fx m))"
  by (simp_all add: balance_step_def Let_def)

lemma foldl_economic:
  "ct_economic (foldl (balance_step c as_of) t ms) =
     foldl (dadd c) (ct_economic t) (map mv_amount ms)"
  "ct_book_base (foldl (balance_step c as_of) t ms) =
     foldl (dadd c) (ct_book_base t) (map (\<lambda>m. dmul c (mv_amount m) (mv_fx m)) ms)"
  by (induction ms arbitrary: t) auto

lemma zero_totals_simps [simp]:
  "ct_economic zero_totals = 0" "ct_settled zero_totals = 0" "ct_receivable zero_totals = 0"
  "ct_payable zero_totals = 0" "ct_book_base zero_totals = 0"
  by (simp_all add: zero_totals_def)

lemma balance_economic:
  "cc_economic (balance c ms cur as_of account) =
     dsum c (map mv_amount (filter (counted cur as_of account) ms))"
  by (simp add: balance_def balance_totals_filter foldl_economic dsum_def Let_def)

lemma balance_book_base:
  "cc_book_base (balance c ms cur as_of account) =
     dsum c (map (\<lambda>m. dmul c (mv_amount m) (mv_fx m)) (filter (counted cur as_of account) ms))"
  by (simp add: balance_def balance_totals_filter foldl_economic dsum_def Let_def)

lemma balance_append_skip:
  "\<not> counted cur as_of account m \<Longrightarrow>
     balance c (ms @ [m]) cur as_of account = balance c ms cur as_of account"
  by (simp add: balance_def balance_totals_def)

context decimal_ctx
begin

lemma totals_nonneg:
  "0 \<le> ct_receivable (foldl (balance_step c as_of) zero_totals ms) \<and>
   0 \<le> ct_payable (foldl (balance_step c as_of) zero_totals ms)"
  by (rule foldl_invariant [where P = "\<lambda>t. 0 \<le> ct_receivable t \<and> 0 \<le> ct_payable t"])
    (auto simp: balance_step_def Let_def dsub_def intro: add_nonneg nonneg)

lemma receivable_payable_nonneg:
  "0 \<le> cc_receivable (balance c ms cur as_of account)"
  "0 \<le> cc_payable (balance c ms cur as_of account)"
  using totals_nonneg by (simp_all add: balance_def balance_totals_filter Let_def)

lemma available_le_settled:
  "cc_available (balance c ms cur as_of account) \<le> c (cc_settled (balance c ms cur as_of account))"
  using receivable_payable_nonneg(2) by (simp add: balance_def Let_def dsub_def mono)

end

lemma foldl_settled:
  "(\<And>m. m \<in> set ms \<Longrightarrow> mv_settlement_date m \<le> as_of) \<Longrightarrow>
   ct_settled t = ct_economic t \<Longrightarrow> ct_receivable t = 0 \<Longrightarrow> ct_payable t = 0 \<Longrightarrow>
   (let u = foldl (balance_step c as_of) t ms
    in ct_settled u = ct_economic u \<and> ct_receivable u = 0 \<and> ct_payable u = 0)"
  by (induction ms arbitrary: t) (auto simp: balance_step_def Let_def)

lemma foldl_decompose_exact:
  "ct_economic t = ct_settled t + ct_receivable t - ct_payable t \<Longrightarrow>
   (let u = foldl (balance_step exact as_of) t ms
    in ct_economic u = ct_settled u + ct_receivable u - ct_payable u)"
  by (induction ms arbitrary: t) (auto simp: balance_step_def Let_def)

section \<open>Properties\<close>

text \<open>Economic cash decomposes into settled cash plus receivables less payables, whatever
  movements were recorded and for every currency, date and account filter (in ideal
  arithmetic), and available cash is settled cash less payables, so it never exceeds either the
  settled or the economic balance.\<close>

theorem cash_decomposition:
  "let b = balance exact ms cur as_of account in
     cc_economic b = cc_settled b + cc_receivable b - cc_payable b \<and>
     cc_available b = cc_economic b - cc_receivable b \<and>
     cc_available b \<le> cc_settled b \<and> cc_available b \<le> cc_economic b"
proof -
  have "ct_economic u = ct_settled u + ct_receivable u - ct_payable u \<and>
        0 \<le> ct_receivable u \<and> 0 \<le> ct_payable u"
    if "u = balance_totals exact ms cur as_of account" for u
    using foldl_decompose_exact [of zero_totals as_of] ideal.totals_nonneg
    by (simp add: that balance_totals_filter Let_def)
  then show ?thesis by (simp add: balance_def Let_def)
qed

text \<open>Once every recorded movement has settled, nothing is receivable or payable and the
  settled balance is the economic balance, in the default context with its rounding.\<close>

theorem all_settled:
  assumes "\<forall>m \<in> set ms. mv_settlement_date m \<le> as_of"
  shows "cc_receivable (balance (prec 28) ms cur as_of account) = 0 \<and>
         cc_payable (balance (prec 28) ms cur as_of account) = 0 \<and>
         cc_settled (balance (prec 28) ms cur as_of account) =
         cc_economic (balance (prec 28) ms cur as_of account)"
  using foldl_settled [of "filter (counted cur as_of account) ms" as_of zero_totals "prec 28"] assms
  by (simp add: balance_def balance_totals_filter Let_def)

text \<open>One deposit of 100 settled on its trade date.\<close>

theorem all_settled_witness:
  "let m = \<lparr>mv_transaction_id = ''t'', mv_currency = ''USD'', mv_amount = 100, mv_fx = 1,
        mv_trade_date = 5, mv_settlement_date = 5, mv_account_id = None,
        mv_description = ''CAPITAL''\<rparr>
   in cc_settled (balance (prec 28) [m] ''USD'' 7 None) = 100"
  unfolding Let_def
  by (subst all_settled [THEN conjunct2, THEN conjunct2])
    (simp_all add: balance_economic counted_def dsum_def dadd_def prec_numeral)

end
