(* ===== verification/Cost_Basis.thy ===== *)
theory Cost_Basis
  imports Accounting_Types
begin

text \<open>
  \<open>portfolio_domain/cost_basis.py\<close>: open lots per instrument, closed first-in first-out or at
  average cost. The Python lists hold mutable \<open>OpenLot\<close> objects and \<open>lots_for\<close> returns
  the same objects in date order; the model names the objects by their index in the list of the
  instrument, so that a write through the sorted view lands in the stored list. The name-based
  UUID of the lot identifiers (\<open>str(uuid5(NAMESPACE_URL, text))\<close>) is the argument \<open>u\<close>.
\<close>

section \<open>State\<close>

record cost_basis =
  cb_policy :: policy
  cb_open_lots :: "open_lot list dict"
  cb_matches :: "lot_match list"

definition new_cost_basis :: "policy \<Rightarrow> cost_basis" where
  "new_cost_basis p = \<lparr>cb_policy = p, cb_open_lots = [], cb_matches = []\<rparr>"

definition stored_lots :: "cost_basis \<Rightarrow> string \<Rightarrow> open_lot list" where
  "stored_lots s i = dict_get (cb_open_lots s) i []"

definition store_lots :: "string \<Rightarrow> open_lot list \<Rightarrow> cost_basis \<Rightarrow> cost_basis" where
  "store_lots i xs s = s\<lparr>cb_open_lots := AList.update i xs (cb_open_lots s)\<rparr>"

text \<open>The indices \<open>lots_for\<close> selects: positive quantity, stably sorted by opening date.\<close>

definition lot_order :: "open_lot list \<Rightarrow> nat list" where
  "lot_order xs =
     sort_key (\<lambda>i. ol_opened (xs ! i)) (filter (\<lambda>i. 0 < ol_quantity (xs ! i)) [0..<length xs])"

definition lots_for :: "cost_basis \<Rightarrow> string \<Rightarrow> open_lot list" where
  "lots_for s i = map ((!) (stored_lots s i)) (lot_order (stored_lots s i))"

text \<open>Assignment to the fields of the objects at the given indices.\<close>

fun write_lots :: "open_lot list \<Rightarrow> nat list \<Rightarrow> open_lot list \<Rightarrow> open_lot list" where
  "write_lots xs (i # is) (y # ys) = write_lots (xs[i := y]) is ys"
| "write_lots xs _ _ = xs"

definition update_lots :: "string \<Rightarrow> open_lot list \<Rightarrow> cost_basis \<Rightarrow> cost_basis" where
  "update_lots i ys s =
     store_lots i (write_lots (stored_lots s i) (lot_order (stored_lots s i)) ys) s"

section \<open>rollup\<close>

definition signed :: "ctx \<Rightarrow> direction \<Rightarrow> rat \<Rightarrow> rat" where
  "signed c d x = (if d = LONG then x else dneg c x)"

definition rollup :: "ctx \<Rightarrow> cost_basis \<Rightarrow> string \<Rightarrow> position \<Rightarrow> position" where
  "rollup c s i p =
     (let lots = lots_for s i;
          p = p\<lparr>ps_quantity := dsum c (map (\<lambda>l. signed c (ol_direction l) (ol_quantity l)) lots),
                ps_cost_native :=
                  dsum c (map (\<lambda>l. signed c (ol_direction l) (ol_native_basis l)) lots),
                ps_cost_base :=
                  dsum c (map (\<lambda>l. signed c (ol_direction l) (ol_base_basis l)) lots)\<rparr>
      in (case lots of [] \<Rightarrow> p | l # _ \<Rightarrow> p\<lparr>ps_multiplier := ol_multiplier l\<rparr>))"

section \<open>Opening\<close>

definition require_movement :: "ctx \<Rightarrow> entry \<Rightarrow> string result" where
  "require_movement c e =
     bindE (validate c e) (\<lambda>_.
       case e_instrument_id e of
         Some i \<Rightarrow>
           if i = [] \<or> e_quantity e \<le> 0 \<or> e_price e \<le> 0
           then Inl (ValueError ''Security movements require positive quantity and price'')
           else Inr i
       | None \<Rightarrow> Inl (ValueError ''Security movements require positive quantity and price''))"

definition open_position ::
  "ctx \<Rightarrow> (string \<Rightarrow> string) \<Rightarrow> cost_basis \<Rightarrow> entry \<Rightarrow> direction \<Rightarrow>
   (open_lot \<times> cost_basis) result" where
  "open_position c u s e d =
     bindE (require_movement c e) (\<lambda>i.
     let lots = lots_for s i in
     bindE (ensure (\<forall>l \<in> set lots. ol_direction l = d)
        (ValueError (''Use '' @ (if d = LONG then ''COVER'' else ''SELL'') @
           '' to close the existing opposite position''))) (\<lambda>_.
     bindE (ensure (\<forall>l \<in> set lots. ol_multiplier l = e_multiplier e)
        (ValueError ''Contract multiplier cannot change without an explicit adjustment'')) (\<lambda>_.
     let cost = capitalized c (cb_policy s) e;
         basis = (if d = LONG then dadd c (gross c e) cost else dsub c (gross c e) cost);
         sequence = length (stored_lots s i);
         lot = \<lparr>ol_id = u (''knk-lot:'' @ e_id e @ '':'' @ i @ '':'' @ nat_str sequence),
                ol_instrument_id = i, ol_entry_id = e_id e, ol_opened = e_day e,
                ol_direction = d, ol_quantity = e_quantity e, ol_native_basis = basis,
                ol_base_basis = dmul c basis (e_fx e), ol_multiplier = e_multiplier e\<rparr>
     in Inr (lot, store_lots i (stored_lots s i @ [lot]) s))))"

section \<open>Closing\<close>

fun fifo_quantities :: "ctx \<Rightarrow> rat \<Rightarrow> open_lot list \<Rightarrow> rat list" where
  "fifo_quantities c remaining [] = []"
| "fifo_quantities c remaining (l # ls) =
     (let matched = min remaining (ol_quantity l)
      in matched # fifo_quantities c (dsub c remaining matched) ls)"

definition matched_quantities ::
  "ctx \<Rightarrow> policy \<Rightarrow> open_lot list \<Rightarrow> rat \<Rightarrow> rat list result" where
  "matched_quantities c p lots quantity =
     (if quantity = dsum c (map ol_quantity lots) then Inr (map ol_quantity lots)
      else if p_method p = AVERAGE then allocate c quantity (map ol_quantity lots)
      else Inr (fifo_quantities c quantity lots))"

text \<open>The basis that leaves a lot: all of it, or in proportion to the quantity.\<close>

definition released :: "ctx \<Rightarrow> open_lot \<Rightarrow> rat \<Rightarrow> rat \<Rightarrow> rat" where
  "released c l basis quantity =
     (if quantity = ol_quantity l then basis
      else ddiv c (dmul c basis quantity) (ol_quantity l))"

definition sign_of :: "ctx \<Rightarrow> direction \<Rightarrow> rat" where
  "sign_of c d = (if d = LONG then 1 else dneg c 1)"

text \<open>One turn of the matching loop: the lot afterwards, and its match unless nothing matched.\<close>

definition close_lot ::
  "ctx \<Rightarrow> entry \<Rightarrow> string \<Rightarrow> direction \<Rightarrow> open_lot \<Rightarrow> rat \<times> rat \<times> rat \<Rightarrow>
   open_lot \<times> lot_match option" where
  "close_lot c e i d l qv =
     (case qv of (quantity, native_value, base_value) \<Rightarrow>
      if quantity = 0 then (l, None)
      else
        let native_basis = released c l (ol_native_basis l) quantity;
            base_basis = released c l (ol_base_basis l) quantity
        in (l\<lparr>ol_quantity := dsub c (ol_quantity l) quantity,
              ol_native_basis := dsub c (ol_native_basis l) native_basis,
              ol_base_basis := dsub c (ol_base_basis l) base_basis\<rparr>,
            Some \<lparr>lm_lot_id = ol_id l, lm_opening_entry_id = ol_entry_id l,
              lm_closing_entry_id = e_id e, lm_instrument_id = i, lm_direction = d,
              lm_quantity = quantity, lm_native_basis = native_basis,
              lm_base_basis = base_basis, lm_native_proceeds = native_value,
              lm_base_proceeds = base_value,
              lm_realised_native = dmul c (sign_of c d) (dsub c native_value native_basis),
              lm_realised_base = dmul c (sign_of c d) (dsub c base_value base_basis),
              lm_closed = e_day e\<rparr>))"

definition close_position ::
  "ctx \<Rightarrow> cost_basis \<Rightarrow> entry \<Rightarrow> direction \<Rightarrow> (lot_match list \<times> cost_basis) result" where
  "close_position c s e d =
     bindE (require_movement c e) (\<lambda>i.
     let lots = lots_for s i in
     bindE (ensure (\<forall>l \<in> set lots. ol_direction l = d)
        (ValueError ''Closing side does not match the recorded position'')) (\<lambda>_.
     let available = dsum c (map ol_quantity lots) in
     bindE (ensure (e_quantity e \<le> available)
        (ValueError ((if d = SHORT_SIDE then ''Cover'' else ''Sale or transfer'') @
           '' exceeds holdings on the trade date''))) (\<lambda>_.
     bindE (ensure (\<forall>l \<in> set lots. ol_multiplier l = e_multiplier e)
        (ValueError ''Contract multiplier does not match the open position'')) (\<lambda>_.
     bindE (matched_quantities c (cb_policy s) lots (e_quantity e)) (\<lambda>amounts.
     let cost = capitalized c (cb_policy s) e;
         proceeds = (if d = LONG then dsub c (gross c e) cost else dadd c (gross c e) cost) in
     bindE (allocate c proceeds amounts) (\<lambda>allocated_proceeds.
     bindE (allocate c (dmul c proceeds (e_fx e)) amounts) (\<lambda>base_proceeds.
     let steps = map2 (close_lot c e i d) lots
                   (zip amounts (zip allocated_proceeds base_proceeds));
         matches = List.map_filter snd steps
     in Inr (matches,
             (update_lots i (map fst steps) s)\<lparr>cb_matches := cb_matches s @ matches\<rparr>))))))))"

section \<open>Corporate actions\<close>

definition split_lots :: "ctx \<Rightarrow> cost_basis \<Rightarrow> string \<Rightarrow> rat \<Rightarrow> cost_basis result" where
  "split_lots c s i ratio =
     bindE (decimal_of c ratio ''split ratio'' True False) (\<lambda>_.
     let lots = lots_for s i in
     bindE (ensure (lots \<noteq> [])
        (ValueError ''A split requires an existing position and positive ratio'')) (\<lambda>_.
     Inr (update_lots i
            (map (\<lambda>l. l\<lparr>ol_quantity := dmul c (ol_quantity l) ratio\<rparr>) lots) s)))"

text \<open>\<open>entry.instrument_id or ""\<close>\<close>

definition instrument_or_empty :: "entry \<Rightarrow> string" where
  "instrument_or_empty e = (case e_instrument_id e of Some i \<Rightarrow> i | None \<Rightarrow> [])"

definition spinoff_child ::
  "ctx \<Rightarrow> (string \<Rightarrow> string) \<Rightarrow> entry \<Rightarrow> string \<Rightarrow> rat \<Rightarrow> open_lot \<Rightarrow> rat \<Rightarrow> open_lot" where
  "spinoff_child c u e child_id allocation l quantity =
     \<lparr>ol_id = u (''knk-spinoff:'' @ e_id e @ '':'' @ ol_id l), ol_instrument_id = child_id,
      ol_entry_id = e_id e, ol_opened = ol_opened l, ol_direction = LONG,
      ol_quantity = quantity, ol_native_basis = dmul c (ol_native_basis l) allocation,
      ol_base_basis = dmul c (ol_base_basis l) allocation, ol_multiplier = 1\<rparr>"

definition spinoff_parent :: "ctx \<Rightarrow> rat \<Rightarrow> open_lot \<Rightarrow> open_lot" where
  "spinoff_parent c allocation l =
     l\<lparr>ol_native_basis := dsub c (ol_native_basis l) (dmul c (ol_native_basis l) allocation),
       ol_base_basis := dsub c (ol_base_basis l) (dmul c (ol_base_basis l) allocation)\<rparr>"

definition spinoff ::
  "ctx \<Rightarrow> (string \<Rightarrow> string) \<Rightarrow> cost_basis \<Rightarrow> entry \<Rightarrow> string \<Rightarrow> rat \<Rightarrow> cost_basis result" where
  "spinoff c u s e child_id allocation =
     bindE (validate c e) (\<lambda>_.
     bindE (decimal_of c allocation ''cost allocation'' False True) (\<lambda>_.
     let i = instrument_or_empty e; parent = lots_for s i; child = lots_for s child_id in
     bindE (ensure (parent \<noteq> [] \<and> (\<forall>l \<in> set parent. ol_direction l = LONG))
        (ValueError ''A spinoff requires a long parent position'')) (\<lambda>_.
     bindE (ensure (child_id \<noteq> [] \<and> Some child_id \<noteq> e_instrument_id e \<and> 0 < e_quantity e)
        (ValueError ''Spinoff requires a distinct child and positive quantity'')) (\<lambda>_.
     bindE (ensure (0 \<le> allocation \<and> allocation < 1 \<and>
                    (\<forall>l \<in> set child. ol_direction l = LONG))
        (ValueError
          ''Spinoff requires a cost allocation below one and no short child position'')) (\<lambda>_.
     bindE (ensure (\<forall>l \<in> set (parent @ child). ol_multiplier l = 1)
        (ValueError ''Spinoff securities must use unit multipliers'')) (\<lambda>_.
     bindE (allocate c (e_quantity e) (map ol_quantity parent)) (\<lambda>quantities.
     let created = map2 (spinoff_child c u e child_id allocation) parent quantities;
         s' = update_lots i (map (spinoff_parent c allocation) parent) s
     in Inr (store_lots child_id (stored_lots s' child_id @ created) s'))))))))"

definition merger_successor ::
  "ctx \<Rightarrow> (string \<Rightarrow> string) \<Rightarrow> entry \<Rightarrow> string \<Rightarrow> rat \<Rightarrow> rat \<Rightarrow> open_lot \<Rightarrow> open_lot" where
  "merger_successor c u e child_id ratio cash_cost_allocation l =
     \<lparr>ol_id = u (''knk-merger:'' @ e_id e @ '':'' @ ol_id l), ol_instrument_id = child_id,
      ol_entry_id = e_id e, ol_opened = ol_opened l, ol_direction = LONG,
      ol_quantity = dmul c (ol_quantity l) ratio,
      ol_native_basis =
        dsub c (ol_native_basis l) (dmul c (ol_native_basis l) cash_cost_allocation),
      ol_base_basis = dsub c (ol_base_basis l) (dmul c (ol_base_basis l) cash_cost_allocation),
      ol_multiplier = 1\<rparr>"

definition merger_match ::
  "ctx \<Rightarrow> entry \<Rightarrow> rat \<Rightarrow> rat \<Rightarrow> open_lot \<Rightarrow> lot_match" where
  "merger_match c e cash_per_share cash_cost_allocation l =
     (let native_cash = dmul c (ol_quantity l) cash_per_share;
          basis_native = dmul c (ol_native_basis l) cash_cost_allocation;
          basis_base = dmul c (ol_base_basis l) cash_cost_allocation
      in \<lparr>lm_lot_id = ol_id l, lm_opening_entry_id = ol_entry_id l,
          lm_closing_entry_id = e_id e, lm_instrument_id = ol_instrument_id l,
          lm_direction = LONG, lm_quantity = ol_quantity l, lm_native_basis = basis_native,
          lm_base_basis = basis_base, lm_native_proceeds = native_cash,
          lm_base_proceeds = dmul c native_cash (e_fx e),
          lm_realised_native = dsub c native_cash basis_native,
          lm_realised_base = dsub c (dmul c native_cash (e_fx e)) basis_base,
          lm_closed = e_day e\<rparr>)"

text \<open>The lot the merger leaves behind.\<close>

definition emptied :: "open_lot \<Rightarrow> open_lot" where
  "emptied l = l\<lparr>ol_quantity := 0, ol_native_basis := 0, ol_base_basis := 0\<rparr>"

definition merger ::
  "ctx \<Rightarrow> (string \<Rightarrow> string) \<Rightarrow> cost_basis \<Rightarrow> entry \<Rightarrow> string \<Rightarrow> rat \<Rightarrow> rat \<Rightarrow> rat \<Rightarrow>
   ((rat \<times> rat) \<times> cost_basis) result" where
  "merger c u s e child_id ratio cash_per_share cash_cost_allocation =
     bindE (validate c e) (\<lambda>_.
     bindE (decimal_of c ratio ''exchange ratio'' True False) (\<lambda>_.
     bindE (decimal_of c cash_per_share ''cash per share'' False True) (\<lambda>_.
     bindE (decimal_of c cash_cost_allocation ''cash cost allocation'' False True) (\<lambda>_.
     let i = instrument_or_empty e; parent = lots_for s i in
     bindE (ensure (parent \<noteq> [] \<and> (\<forall>l \<in> set parent. ol_direction l = LONG))
        (ValueError ''A merger requires an existing long parent position'')) (\<lambda>_.
     bindE (ensure (child_id \<noteq> [] \<and> Some child_id \<noteq> e_instrument_id e \<and> 0 < ratio)
        (ValueError ''Merger requires a distinct successor and positive exchange ratio'')) (\<lambda>_.
     bindE (ensure (0 \<le> cash_per_share \<and> 0 \<le> cash_cost_allocation \<and> cash_cost_allocation \<le> 1)
        (ValueError ''Invalid merger cash or cash cost allocation'')) (\<lambda>_.
     bindE (ensure (\<not> (cash_per_share = 0 \<and> cash_cost_allocation \<noteq> 0))
        (ValueError ''A stock-only merger cannot allocate basis to cash'')) (\<lambda>_.
     bindE (ensure (\<forall>l \<in> set parent. ol_multiplier l = 1)
        (ValueError ''Merger parent must use a unit multiplier'')) (\<lambda>_.
     bindE (ensure (\<forall>l \<in> set (lots_for s child_id). ol_direction l = LONG \<and> ol_multiplier l = 1)
        (ValueError ''Successor must not be short or have a non-unit multiplier'')) (\<lambda>_.
     let matches = map (merger_match c e cash_per_share cash_cost_allocation) parent;
         cash = dsum c (map lm_native_proceeds matches);
         realised = dsum c (map lm_realised_base matches);
         successors = map (merger_successor c u e child_id ratio cash_cost_allocation) parent;
         s' = update_lots i (map emptied parent) s;
         s'' = store_lots child_id (stored_lots s' child_id @ successors) s'
     in Inr ((cash, realised), s''\<lparr>cb_matches := cb_matches s @ matches\<rparr>)))))))))))"

end
