(* ===== verification/Cost_Basis_Facts.thy ===== *)
theory Cost_Basis_Facts
  imports Cost_Basis
begin

text \<open>
  What the lot store guarantees: the view \<open>lots_for\<close> and the writes through it, the
  homogeneity of an instrument's open lots (one side, one multiplier) under every operation and
  every context, and the conservation of quantity, cost basis and proceeds in ideal arithmetic.
\<close>

section \<open>The view and the writes through it\<close>

lemma lot_order_props:
  "distinct (lot_order xs)" "set (lot_order xs) = {i. i < length xs \<and> 0 < ol_quantity (xs ! i)}"
  by (auto simp: lot_order_def)

lemma lot_order_sorted: "sorted (map (\<lambda>i. ol_opened (xs ! i)) (lot_order xs))"
  by (simp add: lot_order_def)

lemma lots_for_set: "set (lots_for s i) = {l \<in> set (stored_lots s i). 0 < ol_quantity l}"
  by (auto simp: lots_for_def lot_order_props in_set_conv_nth)

lemma lots_for_length: "length (lots_for s i) = length (lot_order (stored_lots s i))"
  by (simp add: lots_for_def)

lemma lots_for_pos: "l \<in> set (lots_for s i) \<Longrightarrow> 0 < ol_quantity l"
  by (simp add: lots_for_set)

interpretation lot_store: keyed_store stored_lots store_lots
  by unfold_locales (simp add: stored_lots_def store_lots_def)

lemma stored_lots_more [simp]: "stored_lots (s\<lparr>cb_matches := ms\<rparr>) i = stored_lots s i"
  by (simp add: stored_lots_def)

lemma lots_for_more [simp]: "lots_for (s\<lparr>cb_matches := ms\<rparr>) i = lots_for s i"
  by (simp add: lots_for_def)

lemma store_lots_frame [simp]:
  "cb_matches (store_lots i xs s) = cb_matches s" "cb_policy (store_lots i xs s) = cb_policy s"
  by (simp_all add: store_lots_def)

lemma stored_update_lots:
  "stored_lots (update_lots i ys s) k =
     (if k = i then write_lots (stored_lots s i) (lot_order (stored_lots s i)) ys
      else stored_lots s k)"
  by (simp add: update_lots_def lot_store.get_put)

lemma update_lots_frame [simp]:
  "cb_matches (update_lots i xs s) = cb_matches s" "cb_policy (update_lots i xs s) = cb_policy s"
  by (simp_all add: update_lots_def)

lemma write_lots_length [simp]: "length (write_lots xs is ys) = length xs"
  by (induction xs "is" ys rule: write_lots.induct) auto

lemma write_lots_skip: "k \<notin> set is \<Longrightarrow> write_lots xs is ys ! k = xs ! k"
  by (induction xs "is" ys rule: write_lots.induct) auto

lemma write_lots_set:
  assumes "distinct is" "set is \<subseteq> {..<length xs}" "length ys = length is"
  shows "set (write_lots xs is ys) = {xs ! k |k. k < length xs \<and> k \<notin> set is} \<union> set ys"
  using assms
proof (induction xs "is" ys rule: write_lots.induct)
  case (1 xs i "is" y ys)
  let ?xs = "xs[i := y]"
  have "set (write_lots ?xs is ys) = {?xs ! k |k. k < length xs \<and> k \<notin> set is} \<union> set ys"
    using 1 by auto
  also have "{?xs ! k |k. k < length xs \<and> k \<notin> set is} =
      insert y {xs ! k |k. k < length xs \<and> k \<notin> set (i # is)}"
    using "1.prems" by (force simp: nth_list_update)
  finally show ?case by auto
qed (auto simp: set_conv_nth)

lemma sum_list_update_rat:
  "i < length xs \<Longrightarrow>
   sum_list (map f (xs[i := y])) = sum_list (map f xs) - f (xs ! i) + (f y :: rat)"
  by (induction xs arbitrary: i) (auto split: nat.splits)

lemma write_lots_sum:
  assumes "distinct is" "set is \<subseteq> {..<length xs}" "length ys = length is"
  shows "sum_list (map f (write_lots xs is ys)) =
         sum_list (map f xs) - sum_list (map (\<lambda>i. f (xs ! i)) is) + (sum_list (map f ys) :: rat)"
  using assms
proof (induction xs "is" ys rule: write_lots.induct)
  case (1 xs i "is" y ys)
  then have "sum_list (map (\<lambda>k. f (xs[i := y] ! k)) is) = sum_list (map (\<lambda>k. f (xs ! k)) is)"
    by (intro arg_cong [where f = sum_list] map_cong) (auto simp: nth_list_update)
  then show ?case using 1 by (simp add: sum_list_update_rat)
qed auto

lemma order_in_range: "set (lot_order xs) \<subseteq> {..<length xs}"
  by (auto simp: lot_order_props)

lemma update_lots_set:
  assumes "length ys = length (lots_for s i)"
  shows "set (stored_lots (update_lots i ys s) i) =
         {l \<in> set (stored_lots s i). \<not> 0 < ol_quantity l} \<union> set ys"
proof -
  let ?xs = "stored_lots s i"
  have "{?xs ! k |k. k < length ?xs \<and> k \<notin> set (lot_order ?xs)} =
        {l \<in> set ?xs. \<not> 0 < ol_quantity l}"
    by (auto simp: lot_order_props in_set_conv_nth)
  then show ?thesis
    using assms by (simp add: stored_update_lots write_lots_set [OF lot_order_props(1)
        order_in_range] lots_for_length)
qed

definition stored_total :: "(open_lot \<Rightarrow> rat) \<Rightarrow> cost_basis \<Rightarrow> string \<Rightarrow> rat" where
  "stored_total f s i = sum_list (map f (stored_lots s i))"

lemma update_lots_total:
  assumes "length ys = length (lots_for s i)"
  shows "stored_total f (update_lots i ys s) i =
         stored_total f s i - sum_list (map f (lots_for s i)) + sum_list (map f ys)"
  using assms by (simp add: stored_total_def stored_update_lots lots_for_length lots_for_def
      write_lots_sum [OF lot_order_props(1) order_in_range] comp_def)

lemma stored_total_more [simp]: "stored_total f (s\<lparr>cb_matches := ms\<rparr>) i = stored_total f s i"
  by (simp add: stored_total_def)

section \<open>Inversion of the operations\<close>

lemma require_movement_Inr [result_simps]:
  "require_movement c e = Inr i \<longleftrightarrow>
     valid_entry c e \<and> e_instrument_id e = Some i \<and> i \<noteq> [] \<and> 0 < e_quantity e \<and> 0 < e_price e"
  by (auto simp: require_movement_def result_simps split: option.splits)

definition opened_lot ::
  "ctx \<Rightarrow> (string \<Rightarrow> string) \<Rightarrow> cost_basis \<Rightarrow> entry \<Rightarrow> direction \<Rightarrow> string \<Rightarrow> open_lot" where
  "opened_lot c u s e d i =
     (let cost = capitalized c (cb_policy s) e;
          basis = (if d = LONG then dadd c (gross c e) cost else dsub c (gross c e) cost)
      in \<lparr>ol_id = u (''knk-lot:'' @ e_id e @ '':'' @ i @ '':'' @ nat_str (length (stored_lots s i))),
          ol_instrument_id = i, ol_entry_id = e_id e, ol_opened = e_day e, ol_direction = d,
          ol_quantity = e_quantity e, ol_native_basis = basis,
          ol_base_basis = dmul c basis (e_fx e), ol_multiplier = e_multiplier e\<rparr>)"

lemma open_position_Inr:
  "open_position c u s e d = Inr (l, s') \<longleftrightarrow>
     (\<exists>i. require_movement c e = Inr i \<and>
        (\<forall>x \<in> set (lots_for s i). ol_direction x = d \<and> ol_multiplier x = e_multiplier e) \<and>
        l = opened_lot c u s e d i \<and> s' = store_lots i (stored_lots s i @ [l]) s)"
  unfolding open_position_def opened_lot_def Let_def
  by (simp add: bindE_Inr_iff ensure_Inr_iff) blast

definition closing_proceeds :: "ctx \<Rightarrow> cost_basis \<Rightarrow> entry \<Rightarrow> direction \<Rightarrow> rat" where
  "closing_proceeds c s e d =
     (let cost = capitalized c (cb_policy s) e
      in if d = LONG then dsub c (gross c e) cost else dadd c (gross c e) cost)"

definition closing_steps ::
  "ctx \<Rightarrow> cost_basis \<Rightarrow> entry \<Rightarrow> direction \<Rightarrow> string \<Rightarrow> rat list \<Rightarrow> rat list \<Rightarrow> rat list \<Rightarrow>
   (open_lot \<times> lot_match option) list" where
  "closing_steps c s e d i amounts ns bs =
     map2 (close_lot c e i d) (lots_for s i) (zip amounts (zip ns bs))"

lemma close_position_Inr:
  "close_position c s e d = Inr (ms, s') \<longleftrightarrow>
     (\<exists>i amounts ns bs.
        require_movement c e = Inr i \<and>
        (\<forall>l \<in> set (lots_for s i). ol_direction l = d \<and> ol_multiplier l = e_multiplier e) \<and>
        e_quantity e \<le> dsum c (map ol_quantity (lots_for s i)) \<and>
        matched_quantities c (cb_policy s) (lots_for s i) (e_quantity e) = Inr amounts \<and>
        allocate c (closing_proceeds c s e d) amounts = Inr ns \<and>
        allocate c (dmul c (closing_proceeds c s e d) (e_fx e)) amounts = Inr bs \<and>
        ms = List.map_filter snd (closing_steps c s e d i amounts ns bs) \<and>
        s' = (update_lots i (map fst (closing_steps c s e d i amounts ns bs)) s)
               \<lparr>cb_matches := cb_matches s @ ms\<rparr>)"
  unfolding close_position_def closing_proceeds_def closing_steps_def Let_def
  by (simp add: bindE_Inr_iff ensure_Inr_iff) blast

lemma fifo_length [simp]: "length (fifo_quantities c q ls) = length ls"
  by (induction ls arbitrary: q) (auto simp: Let_def)

lemma matched_length: "matched_quantities c p ls q = Inr a \<Longrightarrow> length a = length ls"
  by (auto simp: matched_quantities_def split: if_splits dest: allocate_length)

lemma closing_steps_length:
  assumes "length amounts = length (lots_for s i)"
    and "allocate c x amounts = Inr ns" "allocate c y amounts = Inr bs"
  shows "length (closing_steps c s e d i amounts ns bs) = length (lots_for s i)"
  using assms allocate_length [of c x amounts ns] allocate_length [of c y amounts bs]
  by (simp add: closing_steps_def)

lemma close_lot_frame:
  "ol_direction (fst (close_lot c e i d l qv)) = ol_direction l"
  "ol_multiplier (fst (close_lot c e i d l qv)) = ol_multiplier l"
  by (auto simp: close_lot_def Let_def split: prod.splits)

lemma closing_steps_frame:
  assumes "x \<in> set (map fst (closing_steps c s e d i amounts ns bs))"
  shows "\<exists>l \<in> set (lots_for s i). ol_direction x = ol_direction l \<and> ol_multiplier x = ol_multiplier l"
  using assms by (fastforce simp: closing_steps_def close_lot_frame dest: set_zip_leftD)

lemma split_lots_Inr:
  "split_lots c s i ratio = Inr s' \<longleftrightarrow>
     dabs c ratio \<le> MAX_AMOUNT \<and> 0 < ratio \<and> lots_for s i \<noteq> [] \<and>
     s' = update_lots i (map (\<lambda>l. l\<lparr>ol_quantity := dmul c (ol_quantity l) ratio\<rparr>) (lots_for s i)) s"
  unfolding split_lots_def Let_def by (auto simp: result_simps)

section \<open>Homogeneous lots\<close>

text \<open>
  All open lots of an instrument are on one side and share one contract multiplier. Nothing
  about rounding is needed: the guards of the operations enforce it.
\<close>

definition homogeneous :: "cost_basis \<Rightarrow> bool" where
  "homogeneous s \<longleftrightarrow>
     (\<forall>i. \<exists>d m. \<forall>l \<in> set (lots_for s i). ol_direction l = d \<and> ol_multiplier l = m)"

lemma homogeneous_more [simp]: "homogeneous (s\<lparr>cb_matches := ms\<rparr>) = homogeneous s"
  by (simp add: homogeneous_def)

lemma homogeneous_new: "homogeneous (new_cost_basis p)"
  by (simp add: homogeneous_def lots_for_set new_cost_basis_def stored_lots_def)

lemma homogeneousI:
  assumes "homogeneous s" and "\<And>k. k \<noteq> i \<Longrightarrow> stored_lots s' k = stored_lots s k"
    and "\<forall>l \<in> set (lots_for s' i). ol_direction l = d \<and> ol_multiplier l = m"
  shows "homogeneous s'"
  unfolding homogeneous_def
proof
  fix k show "\<exists>d m. \<forall>l \<in> set (lots_for s' k). ol_direction l = d \<and> ol_multiplier l = m"
    using assms by (cases "k = i") (auto simp: homogeneous_def lots_for_def)
qed

lemma homogeneous_append:
  assumes "homogeneous s"
    and "\<forall>l \<in> set (lots_for s i) \<union> set new. ol_direction l = d \<and> ol_multiplier l = m"
  shows "homogeneous (store_lots i (stored_lots s i @ new) s)"
  using assms(1)
  by (rule homogeneousI [where i = i and d = d and m = m]) (use assms(2) in \<open>auto simp: lots_for_set\<close>)

lemma homogeneous_update:
  assumes "homogeneous s" and "length ys = length (lots_for s i)"
    and "\<forall>y \<in> set ys. \<exists>l \<in> set (lots_for s i).
           ol_direction y = ol_direction l \<and> ol_multiplier y = ol_multiplier l"
  shows "homogeneous (update_lots i ys s)"
proof -
  obtain d m where "\<forall>l \<in> set (lots_for s i). ol_direction l = d \<and> ol_multiplier l = m"
    using assms(1) unfolding homogeneous_def by meson
  moreover have "set (lots_for (update_lots i ys s) i) \<subseteq> set ys"
    by (auto simp: lots_for_set [of "update_lots i ys s"] update_lots_set [OF assms(2)])
  ultimately have
    "\<forall>l \<in> set (lots_for (update_lots i ys s) i). ol_direction l = d \<and> ol_multiplier l = m"
    using assms(3) by (metis subsetD)
  then show ?thesis
    by (rule homogeneousI [OF assms(1), of i, rotated]) (simp add: stored_update_lots)
qed

lemma open_position_homogeneous:
  assumes "homogeneous s" "open_position c u s e d = Inr (l, s')"
  shows "homogeneous s'"
  using assms(2) unfolding open_position_Inr
  by (auto simp: opened_lot_def Let_def
      intro!: homogeneous_append [OF assms(1), where d = d and m = "e_multiplier e"])

lemma close_position_homogeneous:
  assumes "homogeneous s" "close_position c s e d = Inr (ms, s')"
  shows "homogeneous s'"
proof -
  obtain i amounts ns bs where
    "matched_quantities c (cb_policy s) (lots_for s i) (e_quantity e) = Inr amounts"
    "allocate c (closing_proceeds c s e d) amounts = Inr ns"
    "allocate c (dmul c (closing_proceeds c s e d) (e_fx e)) amounts = Inr bs"
    and s': "s' = (update_lots i (map fst (closing_steps c s e d i amounts ns bs)) s)
               \<lparr>cb_matches := cb_matches s @ ms\<rparr>"
    using assms(2) unfolding close_position_Inr by blast
  then have "length (closing_steps c s e d i amounts ns bs) = length (lots_for s i)"
    by (intro closing_steps_length matched_length)
  then show ?thesis unfolding s' homogeneous_more
    by (intro homogeneous_update [OF assms(1)]) (simp, use closing_steps_frame in blast)
qed

lemma split_lots_homogeneous:
  "homogeneous s \<Longrightarrow> split_lots c s i r = Inr s' \<Longrightarrow> homogeneous s'"
  by (auto simp: split_lots_Inr intro!: homogeneous_update) blast

lemma spinoff_homogeneous:
  assumes "homogeneous s" "spinoff c u s e ch a = Inr s'"
  shows "homogeneous s'"
proof -
  let ?i = "instrument_or_empty e"
  obtain qs where q: "allocate c (e_quantity e) (map ol_quantity (lots_for s ?i)) = Inr qs"
    and ch: "ch \<noteq> []" "Some ch \<noteq> e_instrument_id e"
    and child: "\<forall>l \<in> set (lots_for s ch). ol_direction l = LONG \<and> ol_multiplier l = 1"
    and s': "s' = (let s1 = update_lots ?i (map (spinoff_parent c a) (lots_for s ?i)) s
      in store_lots ch (stored_lots s1 ch @ map2 (spinoff_child c u e ch a) (lots_for s ?i) qs) s1)"
    using assms(2) unfolding spinoff_def Let_def by (auto simp: bindE_Inr_iff ensure_Inr_iff)
  have ne: "ch \<noteq> ?i" using ch by (auto simp: instrument_or_empty_def split: option.splits)
  let ?s1 = "update_lots ?i (map (spinoff_parent c a) (lots_for s ?i)) s"
  have h1: "homogeneous ?s1"
    by (rule homogeneous_update [OF assms(1)]) (auto simp: spinoff_parent_def)
  have "lots_for ?s1 ch = lots_for s ch" using ne by (simp add: lots_for_def stored_update_lots)
  then show ?thesis unfolding s' Let_def
    by (intro homogeneous_append [OF h1, where d = LONG and m = 1])
      (use child in \<open>auto simp: spinoff_child_def in_set_zip\<close>)
qed

lemma merger_homogeneous:
  assumes "homogeneous s" "merger c u s e ch r cps cca = Inr (res, s')"
  shows "homogeneous s'"
proof -
  let ?i = "instrument_or_empty e"
  let ?s1 = "update_lots ?i (map emptied (lots_for s ?i)) s"
  have ch: "ch \<noteq> []" "Some ch \<noteq> e_instrument_id e"
    and child: "\<forall>l \<in> set (lots_for s ch). ol_direction l = LONG \<and> ol_multiplier l = 1"
    and s': "\<exists>ms. s' = (store_lots ch (stored_lots ?s1 ch @
        map (merger_successor c u e ch r cca) (lots_for s ?i)) ?s1)\<lparr>cb_matches := ms\<rparr>"
    using assms(2) unfolding merger_def Let_def by (auto simp: bindE_Inr_iff ensure_Inr_iff)
  have ne: "ch \<noteq> ?i" using ch by (auto simp: instrument_or_empty_def split: option.splits)
  have h1: "homogeneous ?s1"
    by (rule homogeneous_update [OF assms(1)]) (auto simp: emptied_def)
  have "lots_for ?s1 ch = lots_for s ch" using ne by (simp add: lots_for_def stored_update_lots)
  then have "homogeneous (store_lots ch (stored_lots ?s1 ch @
        map (merger_successor c u e ch r cca) (lots_for s ?i)) ?s1)"
    by (intro homogeneous_append [OF h1, where d = LONG and m = 1])
      (use child in \<open>auto simp: merger_successor_def\<close>)
  then show ?thesis using s' by auto
qed

section \<open>Conservation in ideal arithmetic\<close>

definition matched_value :: "(lot_match \<Rightarrow> rat) \<Rightarrow> open_lot \<times> lot_match option \<Rightarrow> rat" where
  "matched_value f st = (case snd st of None \<Rightarrow> 0 | Some m \<Rightarrow> f m)"

lemma sum_map_filter:
  "sum_list (map f (List.map_filter snd steps)) = sum_list (map (matched_value f) steps)"
  by (induction steps) (auto simp: matched_value_def List.map_filter_simps split: option.splits)

text \<open>One matched lot: what leaves the lot is what the match records.\<close>

lemma close_lot_exact:
  assumes "st = close_lot exact e i d l (a, n, b)"
  shows "ol_quantity (fst st) + matched_value lm_quantity st = ol_quantity l"
    "ol_native_basis (fst st) + matched_value lm_native_basis st = ol_native_basis l"
    "ol_base_basis (fst st) + matched_value lm_base_basis st = ol_base_basis l"
    "matched_value lm_quantity st = a"
    "a = 0 \<longrightarrow> n = 0 \<Longrightarrow> matched_value lm_native_proceeds st = n"
    "a = 0 \<longrightarrow> b = 0 \<Longrightarrow> matched_value lm_base_proceeds st = b"
    "matched_value lm_realised_native st = sign_of exact d *
       (matched_value lm_native_proceeds st - matched_value lm_native_basis st)"
    "matched_value lm_realised_base st = sign_of exact d *
       (matched_value lm_base_proceeds st - matched_value lm_base_basis st)"
  unfolding assms by (auto simp: close_lot_def matched_value_def Let_def)

text \<open>The matching loop as a map over one list of rows (lot, amount, native, base).\<close>

definition closing_rows ::
  "open_lot list \<Rightarrow> rat list \<Rightarrow> rat list \<Rightarrow> rat list \<Rightarrow> (open_lot \<times> rat \<times> rat \<times> rat) list" where
  "closing_rows ls a n b = zip ls (zip a (zip n b))"

lemma closing_rows_columns:
  assumes "length a = length ls" "length n = length ls" "length b = length ls"
  shows "map fst (closing_rows ls a n b) = ls" "map (\<lambda>(l, a, n, b). a) (closing_rows ls a n b) = a"
    "map (\<lambda>(l, a, n, b). n) (closing_rows ls a n b) = n" "map (\<lambda>(l, a, n, b). b) (closing_rows ls a n b) = b"
  using assms by (auto simp: closing_rows_def list_eq_iff_nth_eq)

lemma closing_steps_rows:
  "closing_steps c s e d i a n b =
     map (\<lambda>(l, a, n, b). close_lot c e i d l (a, n, b)) (closing_rows (lots_for s i) a n b)"
  by (auto simp: closing_steps_def closing_rows_def)

lemma sum_steps:
  assumes "\<And>l a n b. (l, a, n, b) \<in> set rs \<Longrightarrow> F (st (l, a, n, b)) + G (st (l, a, n, b)) = H l"
  shows "sum_list (map F (map st rs)) + sum_list (map G (map st rs)) =
         (sum_list (map (\<lambda>r. H (fst r)) rs) :: rat)"
  using assms by (induction rs) (auto, fastforce simp: algebra_simps)

lemma fifo_exact_total:
  "(\<forall>l \<in> set ls. 0 < ol_quantity l) \<Longrightarrow> 0 \<le> q \<Longrightarrow> q \<le> sum_list (map ol_quantity ls) \<Longrightarrow>
   sum_list (fifo_quantities exact q ls) = q"
proof (induction ls arbitrary: q)
  case (Cons l ls)
  let ?m = "min q (ol_quantity l)"
  have "0 \<le> sum_list (map ol_quantity ls)"
    using Cons.prems(1) by (intro sum_list_nonneg) (auto intro: less_imp_le)
  then have "sum_list (fifo_quantities exact (q - ?m) ls) = q - ?m"
    using Cons.prems by (intro Cons.IH) (auto simp: min_def)
  then show ?case by (simp add: Let_def)
qed simp

lemma matched_exact_total:
  assumes "matched_quantities exact p ls q = Inr a" "\<forall>l \<in> set ls. 0 < ol_quantity l"
    "0 \<le> q" "q \<le> sum_list (map ol_quantity ls)"
  shows "sum_list a = q"
  using assms fifo_exact_total [OF assms(2-4)]
  by (auto simp: matched_quantities_def allocate_exact_total split: if_splits)

lemma closing_sums:
  fixes s e d i
  assumes len: "length a = length (lots_for s i)"
    and n: "allocate exact x a = Inr n" and b: "allocate exact y a = Inr b"
  defines "steps \<equiv> closing_steps exact s e d i a n b"
  shows "sum_list (map (ol_quantity \<circ> fst) steps) = sum_list (map ol_quantity (lots_for s i)) - sum_list a"
    "sum_list (map (ol_native_basis \<circ> fst) steps) + sum_list (map (matched_value lm_native_basis) steps)
       = sum_list (map ol_native_basis (lots_for s i))"
    "sum_list (map (ol_base_basis \<circ> fst) steps) + sum_list (map (matched_value lm_base_basis) steps)
       = sum_list (map ol_base_basis (lots_for s i))"
    "sum_list (map (matched_value lm_quantity) steps) = sum_list a"
    "sum_list (map (matched_value lm_native_proceeds) steps) = x"
    "sum_list (map (matched_value lm_base_proceeds) steps) = y"
proof -
  let ?rs = "closing_rows (lots_for s i) a n b"
  let ?st = "\<lambda>(l, a, n, b). close_lot exact e i d l (a, n, b)"
  have ln: "length n = length (lots_for s i)" "length b = length (lots_for s i)"
    using allocate_length [OF n] allocate_length [OF b] len by auto
  note cols = closing_rows_columns [OF len ln]
  have steps: "steps = map ?st ?rs" unfolding steps_def by (rule closing_steps_rows)
  have lots: "sum_list (map (\<lambda>r. f (fst r)) ?rs) = sum_list (map f (lots_for s i))" for f :: "open_lot \<Rightarrow> rat"
    using arg_cong [OF cols(1), of "\<lambda>xs. sum_list (map f xs)"] by (simp add: comp_def)
  have zero: "(aa = 0 \<longrightarrow> nn = 0) \<and> (aa = 0 \<longrightarrow> bb = 0)" if "(l, aa, nn, bb) \<in> set ?rs" for l aa nn bb
    using that unfolding closing_rows_def allocate_exact [OF n] allocate_exact [OF b]
    by (auto simp: in_set_zip)
  show q: "sum_list (map (matched_value lm_quantity) steps) = sum_list a"
    unfolding steps map_map comp_def
    by (subst (2) cols(2) [symmetric]) (auto intro!: arg_cong [where f = sum_list] map_cong
        simp: close_lot_exact(4) [OF refl])
  show "sum_list (map (matched_value lm_native_proceeds) steps) = x"
    unfolding steps map_map comp_def
    by (subst allocate_exact_total [OF n, symmetric], subst (2) cols(3) [symmetric])
      (use zero in \<open>auto intro!: arg_cong [where f = sum_list] map_cong simp: close_lot_exact(5) [OF refl]\<close>)
  show "sum_list (map (matched_value lm_base_proceeds) steps) = y"
    unfolding steps map_map comp_def
    by (subst allocate_exact_total [OF b, symmetric], subst (2) cols(4) [symmetric])
      (use zero in \<open>auto intro!: arg_cong [where f = sum_list] map_cong simp: close_lot_exact(6) [OF refl]\<close>)
  have "sum_list (map (ol_quantity \<circ> fst) steps) + sum_list (map (matched_value lm_quantity) steps) =
      sum_list (map (\<lambda>r. ol_quantity (fst r)) ?rs)"
    unfolding steps by (rule sum_steps) (simp add: close_lot_exact(1) [OF refl])
  then show "sum_list (map (ol_quantity \<circ> fst) steps) = sum_list (map ol_quantity (lots_for s i)) - sum_list a"
    unfolding lots q by linarith
  show "sum_list (map (ol_native_basis \<circ> fst) steps) + sum_list (map (matched_value lm_native_basis) steps)
       = sum_list (map ol_native_basis (lots_for s i))"
    unfolding lots [symmetric] unfolding steps by (rule sum_steps) (simp add: close_lot_exact(2) [OF refl])
  show "sum_list (map (ol_base_basis \<circ> fst) steps) + sum_list (map (matched_value lm_base_basis) steps)
       = sum_list (map ol_base_basis (lots_for s i))"
    unfolding lots [symmetric] unfolding steps by (rule sum_steps) (simp add: close_lot_exact(3) [OF refl])
qed

lemma sum_list_scaled_diff:
  "sum_list (map (\<lambda>x. k * (f x - g x)) xs) = k * (sum_list (map f xs) - sum_list (map g xs) :: rat)"
  by (induction xs) (auto simp: algebra_simps)

lemma realised_total:
  "sum_list (map (matched_value lm_realised_base) (closing_steps exact s e d i a n b)) =
     sign_of exact d *
       (sum_list (map (matched_value lm_base_proceeds) (closing_steps exact s e d i a n b)) -
        sum_list (map (matched_value lm_base_basis) (closing_steps exact s e d i a n b)))"
  unfolding closing_steps_rows sum_list_scaled_diff [symmetric] map_map
  by (intro arg_cong [where f = sum_list] map_cong) (auto simp: close_lot_exact(8) [OF refl])

lemma close_conserves_aux:
  assumes "close_position exact s e d = Inr (ms, s')"
  obtains i where "e_instrument_id e = Some i"
    "sum_list (map lm_quantity ms) = e_quantity e"
    "stored_total ol_quantity s' i = stored_total ol_quantity s i - e_quantity e"
    "stored_total ol_native_basis s' i + sum_list (map lm_native_basis ms) =
       stored_total ol_native_basis s i"
    "stored_total ol_base_basis s' i + sum_list (map lm_base_basis ms) =
       stored_total ol_base_basis s i"
    "sum_list (map lm_native_proceeds ms) = closing_proceeds exact s e d"
    "sum_list (map lm_base_proceeds ms) = closing_proceeds exact s e d * e_fx e"
    "sum_list (map lm_realised_base ms) = sign_of exact d *
       (sum_list (map lm_base_proceeds ms) - sum_list (map lm_base_basis ms))"
    "cb_matches s' = cb_matches s @ ms" "\<forall>k. k \<noteq> i \<longrightarrow> stored_lots s' k = stored_lots s k"
proof -
  obtain i amounts ns bs where
    req: "require_movement exact e = Inr i"
    and avail: "e_quantity e \<le> dsum exact (map ol_quantity (lots_for s i))"
    and amounts: "matched_quantities exact (cb_policy s) (lots_for s i) (e_quantity e) = Inr amounts"
    and ns: "allocate exact (closing_proceeds exact s e d) amounts = Inr ns"
    and bs: "allocate exact (dmul exact (closing_proceeds exact s e d) (e_fx e)) amounts = Inr bs"
    and ms: "ms = List.map_filter snd (closing_steps exact s e d i amounts ns bs)"
    and s': "s' = (update_lots i (map fst (closing_steps exact s e d i amounts ns bs)) s)
               \<lparr>cb_matches := cb_matches s @ ms\<rparr>"
    using assms unfolding close_position_Inr by blast
  let ?steps = "closing_steps exact s e d i amounts ns bs"
  have i: "e_instrument_id e = Some i" and q: "0 < e_quantity e" using req by (auto simp: result_simps)
  note len = matched_length [OF amounts]
  have slen: "length (map fst ?steps) = length (lots_for s i)"
    using closing_steps_length [OF len ns bs] by simp
  have tot: "sum_list amounts = e_quantity e"
    using amounts avail q lots_for_pos [of _ s i] by (intro matched_exact_total) auto
  note sums = closing_sums [OF len ns bs, of e d]
  note upd = update_lots_total [OF slen]
  have "stored_total ol_quantity s' i = stored_total ol_quantity s i - e_quantity e"
    "stored_total ol_native_basis s' i + sum_list (map lm_native_basis ms) =
       stored_total ol_native_basis s i"
    "stored_total ol_base_basis s' i + sum_list (map lm_base_basis ms) =
       stored_total ol_base_basis s i"
    using sums(1-3) tot by (simp_all add: s' upd ms sum_map_filter)
  moreover have "sum_list (map lm_realised_base ms) = sign_of exact d *
       (sum_list (map lm_base_proceeds ms) - sum_list (map lm_base_basis ms))"
    by (simp add: ms sum_map_filter realised_total)
  ultimately show thesis using i sums(4-6) tot
    by (intro that [of i]) (simp_all add: s' ms sum_map_filter stored_update_lots)
qed

lemma spinoff_Inr:
  fixes s e
  defines "i \<equiv> instrument_or_empty e"
  assumes "spinoff c u s e ch a = Inr s'"
  obtains qs where "ch \<noteq> i" "0 \<le> a" "a < 1"
    "allocate c (e_quantity e) (map ol_quantity (lots_for s i)) = Inr qs"
    "stored_lots s' i = stored_lots (update_lots i (map (spinoff_parent c a) (lots_for s i)) s) i"
    "stored_lots s' ch = stored_lots s ch @ map2 (spinoff_child c u e ch a) (lots_for s i) qs"
    "\<forall>k. k \<notin> {i, ch} \<longrightarrow> stored_lots s' k = stored_lots s k" "cb_matches s' = cb_matches s"
proof -
  let ?s1 = "update_lots i (map (spinoff_parent c a) (lots_for s i)) s"
  obtain qs where q: "allocate c (e_quantity e) (map ol_quantity (lots_for s i)) = Inr qs"
    and ch: "ch \<noteq> []" "Some ch \<noteq> e_instrument_id e" "0 \<le> a" "a < 1"
    and s': "s' = store_lots ch
      (stored_lots ?s1 ch @ map2 (spinoff_child c u e ch a) (lots_for s i) qs) ?s1"
    using assms(2) unfolding spinoff_def Let_def i_def [symmetric]
    by (auto simp: bindE_Inr_iff ensure_Inr_iff)
  have ne: "ch \<noteq> i" using ch by (auto simp: i_def instrument_or_empty_def split: option.splits)
  show thesis
    by (rule that [OF ne ch(3,4) q]) (use ne in \<open>simp_all add: s' stored_update_lots\<close>)
qed

lemma merger_Inr:
  fixes s e
  defines "i \<equiv> instrument_or_empty e"
  assumes "merger c u s e ch r cps cca = Inr (res, s')"
  defines "ms \<equiv> map (merger_match c e cps cca) (lots_for s i)"
  shows "ch \<noteq> i" "0 < r"
    "res = (dsum c (map lm_native_proceeds ms), dsum c (map lm_realised_base ms))"
    "stored_lots s' i = stored_lots (update_lots i (map emptied (lots_for s i)) s) i"
    "stored_lots s' ch =
       stored_lots s ch @ map (merger_successor c u e ch r cca) (lots_for s i)"
    "\<forall>k. k \<notin> {i, ch} \<longrightarrow> stored_lots s' k = stored_lots s k" "cb_matches s' = cb_matches s @ ms"
proof -
  let ?s1 = "update_lots i (map emptied (lots_for s i)) s"
  have ch: "ch \<noteq> []" "Some ch \<noteq> e_instrument_id e" and r: "0 < r"
    and res: "res = (dsum c (map lm_native_proceeds ms), dsum c (map lm_realised_base ms))"
    and s': "s' = (store_lots ch (stored_lots ?s1 ch @
        map (merger_successor c u e ch r cca) (lots_for s i)) ?s1)\<lparr>cb_matches := cb_matches s @ ms\<rparr>"
    using assms(2) unfolding merger_def Let_def i_def [symmetric] ms_def
    by (auto simp: bindE_Inr_iff ensure_Inr_iff)
  show ne: "ch \<noteq> i" using ch by (auto simp: i_def instrument_or_empty_def split: option.splits)
  show "0 < r" "res = (dsum c (map lm_native_proceeds ms), dsum c (map lm_realised_base ms))"
    by (fact r, fact res)
  show "stored_lots s' i = stored_lots ?s1 i"
    "stored_lots s' ch = stored_lots s ch @ map (merger_successor c u e ch r cca) (lots_for s i)"
    "\<forall>k. k \<notin> {i, ch} \<longrightarrow> stored_lots s' k = stored_lots s k" "cb_matches s' = cb_matches s @ ms"
    using ne by (simp_all add: s' stored_update_lots)
qed

lemma spinoff_totals:
  fixes s e
  defines "i \<equiv> instrument_or_empty e"
  assumes "spinoff c u s e ch a = Inr s'"
  obtains qs where "allocate c (e_quantity e) (map ol_quantity (lots_for s i)) = Inr qs"
    "length qs = length (lots_for s i)" "\<forall>l \<in> set (lots_for s i). ol_direction l = LONG"
    "\<And>f. stored_total f s' i = stored_total f s i - sum_list (map f (lots_for s i)) +
       sum_list (map (\<lambda>l. f (spinoff_parent c a l)) (lots_for s i))"
    "\<And>f. stored_total f s' ch = stored_total f s ch +
       sum_list (map f (map2 (spinoff_child c u e ch a) (lots_for s i) qs))"
proof -
  obtain qs where q: "allocate c (e_quantity e) (map ol_quantity (lots_for s i)) = Inr qs"
    and si: "stored_lots s' i =
      stored_lots (update_lots i (map (spinoff_parent c a) (lots_for s i)) s) i"
    and sc: "stored_lots s' ch =
      stored_lots s ch @ map2 (spinoff_child c u e ch a) (lots_for s i) qs"
    using spinoff_Inr [OF assms(2)] unfolding i_def by metis
  have dir: "\<forall>l \<in> set (lots_for s i). ol_direction l = LONG"
    using assms(2) unfolding spinoff_def Let_def i_def by (auto simp: bindE_Inr_iff ensure_Inr_iff)
  have tot: "stored_total f s' i = stored_total f s i - sum_list (map f (lots_for s i)) +
       sum_list (map (\<lambda>l. f (spinoff_parent c a l)) (lots_for s i))" for f
    using update_lots_total [of "map (spinoff_parent c a) (lots_for s i)" s i f]
    by (simp add: stored_total_def si comp_def)
  show thesis
    by (rule that [OF q _ dir tot]) (use allocate_length [OF q] in \<open>simp_all add: stored_total_def sc\<close>)
qed

lemma sum_map2_left:
  assumes "length ks = length ls" "\<And>l k. f (g l k) = h l"
  shows "sum_list (map f (map2 g ls ks)) = (sum_list (map h ls) :: rat)"
  using assms(1) by (induction ks ls rule: list_induct2) (auto simp: assms(2))

lemma sum_map2_right:
  assumes "length ks = length ls" "\<And>l k. f (g l k) = k"
  shows "sum_list (map f (map2 g ls ks)) = (sum_list ks :: rat)"
  using assms(1) by (induction ks ls rule: list_induct2) (auto simp: assms(2))

lemma merger_totals:
  fixes s e
  defines "i \<equiv> instrument_or_empty e"
  assumes "merger c u s e ch r cps cca = Inr (res, s')"
  shows "stored_total f s' i = stored_total f s i - sum_list (map f (lots_for s i)) +
      sum_list (map (\<lambda>l. f (emptied l)) (lots_for s i))"
    "stored_total f s' ch = stored_total f s ch +
      sum_list (map (\<lambda>l. f (merger_successor c u e ch r cca l)) (lots_for s i))"
    "\<forall>l \<in> set (lots_for s i). ol_direction l = LONG"
proof -
  note m = merger_Inr [OF assms(2), folded i_def]
  show "stored_total f s' i = stored_total f s i - sum_list (map f (lots_for s i)) +
      sum_list (map (\<lambda>l. f (emptied l)) (lots_for s i))"
    using update_lots_total [of "map emptied (lots_for s i)" s i f]
    by (simp add: stored_total_def m(4) comp_def)
  show "stored_total f s' ch = stored_total f s ch +
      sum_list (map (\<lambda>l. f (merger_successor c u e ch r cca l)) (lots_for s i))"
    by (simp add: stored_total_def m(5) comp_def)
  show "\<forall>l \<in> set (lots_for s i). ol_direction l = LONG"
    using assms(2) unfolding merger_def Let_def i_def by (auto simp: bindE_Inr_iff ensure_Inr_iff)
qed

lemma merger_exact_result:
  assumes "merger exact u s e ch r cps cca = Inr ((cash, realised), s')"
  shows "cash = cps * sum_list (map ol_quantity (lots_for s (instrument_or_empty e)))"
    "realised = cash * e_fx e -
       cca * sum_list (map ol_base_basis (lots_for s (instrument_or_empty e)))"
  using merger_Inr(3) [OF assms]
  by (simp_all add: merger_match_def Let_def comp_def sum_list_subtractf sum_list_const_mult
      sum_list_mult_const mult.commute)

section \<open>First in, first out\<close>

lemma fifo_zero:
  "c 0 = 0 \<Longrightarrow> (\<forall>l \<in> set ls. 0 \<le> ol_quantity l) \<Longrightarrow>
   fifo_quantities c 0 ls = replicate (length ls) 0"
  by (induction ls) (auto simp: dsub_def)

lemma fifo_head_exhausted:
  assumes "c 0 = 0" "\<forall>l \<in> set ls. 0 < ol_quantity l"
    "k < length ls" "0 < fifo_quantities c q ls ! k" "j < k"
  shows "fifo_quantities c q ls ! j = ol_quantity (ls ! j)"
  using assms(2-)
proof (induction ls arbitrary: q j k)
  case (Cons l ls)
  show ?case
  proof (cases "q < ol_quantity l")
    case True
    then have "fifo_quantities c (dsub c q (min q (ol_quantity l))) ls = replicate (length ls) 0"
      using Cons.prems(1) by (simp add: dsub_def assms(1) fifo_zero less_imp_le)
    then show ?thesis using Cons.prems by (cases k) (auto simp: Let_def)
  next
    case False
    then show ?thesis using Cons.prems Cons.IH [of "k - 1" _ "j - 1"]
      by (cases k; cases j) (auto simp: Let_def)
  qed
qed simp

section \<open>Properties\<close>

text \<open>Under the FIFO policy a lot is matched only after every lot opened before it is
  exhausted: in the matched quantities of a closing trade, a positive amount at one position of
  the date order means that every earlier position gave up its whole quantity, and those lots
  were opened no later. This holds in the default context, with its rounding.\<close>

theorem fifo_oldest_first:
  assumes "p_method p = FIFO"
    and "matched_quantities (prec 28) p (lots_for s i) q = Inr a"
    and "j < k" and "k < length (lots_for s i)" and "0 < a ! k"
  shows "a ! j = ol_quantity (lots_for s i ! j) \<and>
         ol_opened (lots_for s i ! j) \<le> ol_opened (lots_for s i ! k)"
proof
  have pos: "\<forall>l \<in> set (lots_for s i). 0 < ol_quantity l" using lots_for_pos by blast
  show "a ! j = ol_quantity (lots_for s i ! j)"
    using assms pos fifo_head_exhausted [where c = "prec 28" and q = q and j = j and k = k and
        ls = "lots_for s i"]
    by (auto simp: matched_quantities_def split: if_splits)
  show "ol_opened (lots_for s i ! j) \<le> ol_opened (lots_for s i ! k)"
    using lot_order_sorted [of "stored_lots s i"] assms(3,4)
    by (auto simp: sorted_iff_nth_mono lots_for_def)
qed

definition sample_lot :: "date \<Rightarrow> rat \<Rightarrow> rat \<Rightarrow> open_lot" where
  "sample_lot day q basis =
     \<lparr>ol_id = ''L'', ol_instrument_id = ''X'', ol_entry_id = ''E'', ol_opened = day,
      ol_direction = LONG, ol_quantity = q, ol_native_basis = basis, ol_base_basis = basis,
      ol_multiplier = 1\<rparr>"

definition sample_basis :: "cost_method \<Rightarrow> cost_basis" where
  "sample_basis m =
     \<lparr>cb_policy = default_policy\<lparr>p_method := m\<rparr>,
      cb_open_lots = [(''X'', [sample_lot 9 4 80, sample_lot 3 5 50])], cb_matches = []\<rparr>"

definition sample_sale :: entry where
  "sample_sale = (new_entry ''S'' 20 SELL ''USD'')
     \<lparr>e_quantity := 6, e_price := 30, e_instrument_id := Some ''X''\<rparr>"

text \<open>Two lots, the older one second in the store: a sale of 7 takes 5 from it and 2 from the
  newer one.\<close>

theorem fifo_oldest_first_witness:
  "matched_quantities (prec 28) (default_policy\<lparr>p_method := FIFO\<rparr>)
     (lots_for (sample_basis FIFO) ''X'') 7 = Inr [5, 2] \<and>
   [5, 2::rat] ! 0 = ol_quantity (lots_for (sample_basis FIFO) ''X'' ! 0)"
proof -
  have lots: "lots_for (sample_basis FIFO) ''X'' = [sample_lot 3 5 50, sample_lot 9 4 80]"
    by code_simp
  have m: "matched_quantities (prec 28) (default_policy\<lparr>p_method := FIFO\<rparr>)
      (lots_for (sample_basis FIFO) ''X'') 7 = Inr [5, 2]"
    unfolding lots by (simp add: matched_quantities_def sample_lot_def dsum_def dadd_def dsub_def
        default_policy_def Let_def prec_numeral)
  show ?thesis
    using m fifo_oldest_first [OF _ m, of 0 1] by (simp add: lots default_policy_def)
qed

text \<open>C4: a successful closing trade conserves quantity, cost and consideration in ideal
  arithmetic, at average cost and first-in first-out: the matches add up to the traded quantity
  and to the proceeds in both currencies, the basis that leaves the lots is the basis the
  matches record, realised P&L is (with the sign of the side) proceeds less released basis, and
  the lots of every other instrument are untouched.\<close>

theorem close_position_conserves:
  assumes "close_position exact s e d = Inr (ms, s')"
  shows "\<exists>i. e_instrument_id e = Some i \<and>
    sum_list (map lm_quantity ms) = e_quantity e \<and>
    stored_total ol_quantity s' i = stored_total ol_quantity s i - e_quantity e \<and>
    stored_total ol_native_basis s' i + sum_list (map lm_native_basis ms) =
      stored_total ol_native_basis s i \<and>
    stored_total ol_base_basis s' i + sum_list (map lm_base_basis ms) =
      stored_total ol_base_basis s i \<and>
    sum_list (map lm_native_proceeds ms) = closing_proceeds exact s e d \<and>
    sum_list (map lm_base_proceeds ms) = closing_proceeds exact s e d * e_fx e \<and>
    sum_list (map lm_realised_base ms) = (if d = LONG then 1 else -1) *
      (closing_proceeds exact s e d * e_fx e - sum_list (map lm_base_basis ms)) \<and>
    cb_matches s' = cb_matches s @ ms \<and> (\<forall>k. k \<noteq> i \<longrightarrow> stored_lots s' k = stored_lots s k)"
proof (rule close_conserves_aux [OF assms], goal_cases)
  case (1 i)
  then show ?case by (intro exI [of _ i]) (simp add: sign_of_def)
qed

text \<open>Selling 6 of 9 shares at average cost.\<close>

theorem close_position_conserves_witness:
  "case close_position exact (sample_basis AVERAGE) sample_sale LONG of
     Inl _ \<Rightarrow> False
   | Inr (ms, s') \<Rightarrow> sum_list (map lm_quantity ms) = 6 \<and> stored_total ol_quantity s' ''X'' = 3"
proof -
  have "\<not> isl (close_position exact (sample_basis AVERAGE) sample_sale LONG)" by code_simp
  then obtain ms s' where
    eq: "close_position exact (sample_basis AVERAGE) sample_sale LONG = Inr (ms, s')"
    by (cases "close_position exact (sample_basis AVERAGE) sample_sale LONG") auto
  have "stored_total ol_quantity (sample_basis AVERAGE) ''X'' = 9" by code_simp
  moreover have "e_instrument_id sample_sale = Some ''X''" "e_quantity sample_sale = 6"
    by (simp_all add: sample_sale_def new_entry_def)
  ultimately show ?thesis
    using close_position_conserves [OF eq] by (auto simp: eq)
qed

text \<open>A spin-off moves cost from the parent to the child and creates exactly the recorded
  child quantity, in ideal arithmetic: parent quantities are unchanged, the allocated fraction
  of the parent's open basis (native and base) appears on the child's new lots, and no basis is
  created or lost.\<close>

theorem spinoff_conserves:
  assumes "spinoff exact u s e child a = Inr s'"
  shows "let i = instrument_or_empty e in
    stored_total ol_quantity s' i = stored_total ol_quantity s i \<and>
    stored_total ol_quantity s' child = stored_total ol_quantity s child + e_quantity e \<and>
    stored_total ol_native_basis s' child = stored_total ol_native_basis s child +
      a * sum_list (map ol_native_basis (lots_for s i)) \<and>
    stored_total ol_native_basis s' i + stored_total ol_native_basis s' child =
      stored_total ol_native_basis s i + stored_total ol_native_basis s child \<and>
    stored_total ol_base_basis s' i + stored_total ol_base_basis s' child =
      stored_total ol_base_basis s i + stored_total ol_base_basis s child"
proof (rule spinoff_totals [OF assms], goal_cases)
  case (1 qs)
  note q = 1(1) and len = 1(2) and tot = 1(4,5)
  let ?new = "map2 (spinoff_child exact u e child a) (lots_for s (instrument_or_empty e)) qs"
  have n: "sum_list (map ol_native_basis ?new) =
      sum_list (map (\<lambda>l. ol_native_basis l * a) (lots_for s (instrument_or_empty e)))"
    and b: "sum_list (map ol_base_basis ?new) =
      sum_list (map (\<lambda>l. ol_base_basis l * a) (lots_for s (instrument_or_empty e)))"
    and k: "sum_list (map ol_quantity ?new) = e_quantity e"
    by (rule sum_map2_left [OF len], simp add: spinoff_child_def)+
      (subst sum_map2_right [OF len], simp_all add: spinoff_child_def allocate_exact_total [OF q])
  show ?case
    unfolding Let_def tot n b k
    by (simp add: spinoff_parent_def sum_list_subtractf sum_list_mult_const)
qed

definition sample_spinoff :: entry where
  "sample_spinoff = (new_entry ''P'' 20 SPINOFF ''USD'')
     \<lparr>e_quantity := 3, e_instrument_id := Some ''X''\<rparr>"

text \<open>A quarter of the cost of nine shares moves to three shares of the child.\<close>

theorem spinoff_conserves_witness:
  "case spinoff exact (\<lambda>t. t) (sample_basis AVERAGE) sample_spinoff ''Y'' (1 / 4) of
     Inl _ \<Rightarrow> False
   | Inr s' \<Rightarrow> stored_total ol_quantity s' ''Y'' = 3 \<and>
       stored_total ol_native_basis s' ''X'' + stored_total ol_native_basis s' ''Y'' = 130"
proof -
  have "\<not> isl (spinoff exact (\<lambda>t. t) (sample_basis AVERAGE) sample_spinoff ''Y'' (1 / 4))"
    by code_simp
  then obtain s' where
    eq: "spinoff exact (\<lambda>t. t) (sample_basis AVERAGE) sample_spinoff ''Y'' (1 / 4) = Inr s'"
    by (cases "spinoff exact (\<lambda>t. t) (sample_basis AVERAGE) sample_spinoff ''Y'' (1 / 4)") auto
  have "instrument_or_empty sample_spinoff = ''X''" "e_quantity sample_spinoff = 3"
    by (simp_all add: sample_spinoff_def new_entry_def instrument_or_empty_def)
  moreover have "stored_total ol_quantity (sample_basis AVERAGE) ''Y'' = 0"
    "stored_total ol_native_basis (sample_basis AVERAGE) ''X'' = 130"
    "stored_total ol_native_basis (sample_basis AVERAGE) ''Y'' = 0" by code_simp+
  ultimately show ?thesis
    using spinoff_conserves [OF eq] by (auto simp: eq Let_def)
qed

text \<open>A merger closes the parent completely and carries its cost over, in ideal arithmetic:
  every open parent lot ends with quantity and basis zero, the successor's lots receive the
  parent quantities times the exchange ratio, the basis is divided between the successor's lots
  and the recorded matches, and the returned cash and realised P&L are the matches' totals.\<close>

theorem merger_conserves:
  assumes "merger exact u s e child ratio cps cca = Inr ((cash, realised), s')"
  shows "let i = instrument_or_empty e; open_lots = lots_for s i in
    stored_total ol_quantity s' i = stored_total ol_quantity s i - sum_list (map ol_quantity open_lots) \<and>
    stored_total ol_quantity s' child =
      stored_total ol_quantity s child + ratio * sum_list (map ol_quantity open_lots) \<and>
    stored_total ol_base_basis s' i + stored_total ol_base_basis s' child +
      cca * sum_list (map ol_base_basis open_lots) =
      stored_total ol_base_basis s i + stored_total ol_base_basis s child \<and>
    cash = cps * sum_list (map ol_quantity open_lots) \<and>
    realised = cash * e_fx e - cca * sum_list (map ol_base_basis open_lots) \<and>
    length (cb_matches s') = length (cb_matches s) + length open_lots"
  using merger_exact_result [OF assms] merger_Inr(7) [OF assms]
  unfolding Let_def merger_totals(1,2) [OF assms]
  by (simp add: emptied_def merger_successor_def sum_list_subtractf sum_list_mult_const
      sum_list_const_mult mult.commute)

definition sample_merger :: entry where
  "sample_merger = (new_entry ''M'' 20 MERGER ''USD'')\<lparr>e_instrument_id := Some ''X''\<rparr>"

text \<open>Nine shares merge into eighteen of the successor, with two per share in cash.\<close>

theorem merger_conserves_witness:
  "case merger exact (\<lambda>t. t) (sample_basis AVERAGE) sample_merger ''Y'' 2 2 (1 / 2) of
     Inl _ \<Rightarrow> False
   | Inr ((cash, _), s') \<Rightarrow> cash = 18 \<and> stored_total ol_quantity s' ''Y'' = 18"
proof -
  let ?m = "merger exact (\<lambda>t. t) (sample_basis AVERAGE) sample_merger ''Y'' 2 2 (1 / 2)"
  have "\<not> isl ?m" by code_simp
  then obtain cash r s' where eq: "?m = Inr ((cash, r), s')" by (cases ?m) auto
  have "instrument_or_empty sample_merger = ''X''"
    by (simp add: sample_merger_def new_entry_def instrument_or_empty_def)
  moreover have "stored_total ol_quantity (sample_basis AVERAGE) ''Y'' = 0"
    "sum_list (map ol_quantity (lots_for (sample_basis AVERAGE) ''X'')) = 9" by code_simp+
  ultimately show ?thesis
    using merger_conserves [OF eq] by (auto simp: eq Let_def)
qed

end
