(* ===== verification/Ledger.thy ===== *)
theory Ledger
  imports Cost_Basis_Facts Cash
begin

text \<open>
  \<open>portfolio_domain/ledger.py\<close>: the deterministic replay of entries over the cost-basis and
  cash services. \<open>apply_entry\<close> is \<open>LedgerState.apply\<close>; a raised exception is the
  \<open>Inl\<close> result, after which no caller goes on with the half-updated object.
\<close>

section \<open>State\<close>

record ledger =
  lg_policy :: policy
  lg_cash :: "rat dict"
  lg_cash_book_base :: rat
  lg_lots :: "position dict"
  lg_external_flows :: rat
  lg_income :: rat
  lg_fees :: rat
  lg_taxes :: rat
  lg_adjustments :: rat
  lg_capitalized_charges :: rat
  lg_flow_events :: "(date \<times> rat) list"
  lg_movements :: cash_service
  lg_cost_basis :: cost_basis
  lg_last_date :: "date option"

definition new_ledger :: "policy \<Rightarrow> ledger" where
  "new_ledger p =
     \<lparr>lg_policy = p, lg_cash = [], lg_cash_book_base = 0, lg_lots = [], lg_external_flows = 0,
      lg_income = 0, lg_fees = 0, lg_taxes = 0, lg_adjustments = 0, lg_capitalized_charges = 0,
      lg_flow_events = [], lg_movements = [], lg_cost_basis = new_cost_basis p,
      lg_last_date = None\<rparr>"

definition expensed_fees :: "ctx \<Rightarrow> ledger \<Rightarrow> rat" where
  "expensed_fees c s = dsub c (lg_fees s) (lg_capitalized_charges s)"

text \<open>\<open>lots.setdefault(key, Lot())\<close> and assignment through it.\<close>

definition get_position :: "ledger \<Rightarrow> string \<Rightarrow> position" where
  "get_position s i = dict_get (lg_lots s) i new_position"

definition put_position :: "string \<Rightarrow> position \<Rightarrow> ledger \<Rightarrow> ledger" where
  "put_position i p s = s\<lparr>lg_lots := AList.update i p (lg_lots s)\<rparr>"

definition modify_position :: "string \<Rightarrow> (position \<Rightarrow> position) \<Rightarrow> ledger \<Rightarrow> ledger" where
  "modify_position i f s = put_position i (f (get_position s i)) s"

definition roll_position :: "ctx \<Rightarrow> string \<Rightarrow> ledger \<Rightarrow> ledger" where
  "roll_position c i s = modify_position i (rollup c (lg_cost_basis s) i) s"

section \<open>Cash and external flows\<close>

definition move_cash ::
  "ctx \<Rightarrow> ledger \<Rightarrow> string \<Rightarrow> rat \<Rightarrow> rat \<Rightarrow> entry \<Rightarrow> string \<Rightarrow> ledger result" where
  "move_cash c s cur amt fx e description =
     (if amt = 0 then Inr s
      else
        bindE (record_movement (lg_movements s)
          \<lparr>mv_transaction_id = e_id e, mv_currency = cur, mv_amount = amt, mv_fx = fx,
           mv_trade_date = e_day e, mv_settlement_date = settlement e,
           mv_account_id = e_account_id e, mv_description = description\<rparr>) (\<lambda>ms.
        Inr (s\<lparr>lg_movements := ms,
               lg_cash := AList.update cur (dadd c (dict_get (lg_cash s) cur 0) amt) (lg_cash s),
               lg_cash_book_base := dadd c (lg_cash_book_base s) (dmul c amt fx)\<rparr>)))"

definition external :: "ctx \<Rightarrow> ledger \<Rightarrow> entry \<Rightarrow> rat \<Rightarrow> ledger" where
  "external c s e amt =
     s\<lparr>lg_external_flows := dadd c (lg_external_flows s) amt,
       lg_flow_events := lg_flow_events s @ [(e_day e, amt)]\<rparr>"

section \<open>Validation\<close>

definition meta_decimal ::
  "ctx \<Rightarrow> entry \<Rightarrow> string \<Rightarrow> rat \<Rightarrow> string \<Rightarrow> bool \<Rightarrow> bool \<Rightarrow> rat result" where
  "meta_decimal c e key dflt name positive nonnegative =
     (case map_of (e_metadata e) key of
        None \<Rightarrow> decimal_of c dflt name positive nonnegative
      | Some v \<Rightarrow> decimal c v name positive nonnegative)"

definition other_currency :: "entry \<Rightarrow> string" where
  "other_currency e = str_upper (py_str (dict_get (e_metadata e) ''to_currency'' (VStr [])))"

definition valid_reason :: "entry \<Rightarrow> bool" where
  "valid_reason e =
     (case meta_get (e_metadata e) ''reason'' of VStr r \<Rightarrow> str_strip r \<noteq> [] | _ \<Rightarrow> False)"

text \<open>Membership of an unhashable value in a set literal is a \<open>TypeError\<close>.\<close>

definition adjustment_direction :: "entry \<Rightarrow> bool result" where
  "adjustment_direction e =
     (case meta_get (e_metadata e) ''direction'' of
        VStr d \<Rightarrow> Inr (d = ''CREDIT'' \<or> d = ''DEBIT'')
      | VList _ \<Rightarrow> Inl (TypeError ''unhashable type'')
      | VDict _ \<Rightarrow> Inl (TypeError ''unhashable type'')
      | _ \<Rightarrow> Inr False)"

definition ledger_validate :: "ctx \<Rightarrow> ledger \<Rightarrow> entry \<Rightarrow> unit result" where
  "ledger_validate c s e =
     bindE (validate c e) (\<lambda>_.
     bindE (ensure (case lg_last_date s of None \<Rightarrow> True | Some d \<Rightarrow> d \<le> e_day e)
        (ValueError ''Ledger entries must be replayed in chronological order'')) (\<lambda>_.
     let k = e_kind e;
         cash_flow = (k \<in> {DEPOSIT, WITHDRAWAL, DIVIDEND, INTEREST});
         cash_transfer = (k \<in> {TRANSFER_IN, TRANSFER_OUT} \<and> \<not> has_instrument e) in
     bindE (ensure (\<not> ((cash_flow \<or> cash_transfer) \<and> gross c e \<le> 0))
        (ValueError ''Cash flow must have an explicit positive amount'')) (\<lambda>_.
     if k \<in> {COMMISSION, FEE, TAX} then
       bindE (ensure (\<not> (gross c e \<le> 0 \<and> charges c e \<le> 0))
          (ValueError ''Expense amount must be positive'')) (\<lambda>_.
       ensure (\<not> (gross c e \<noteq> 0 \<and> charges c e \<noteq> 0))
          (ValueError ''Expense must use either amount or charge fields, not both''))
     else if k = OTHER_ADJUSTMENT then
       bindE (ensure (valid_reason e)
          (ValueError ''A correcting adjustment requires a reason'')) (\<lambda>_.
       bindE (adjustment_direction e) (\<lambda>d.
       ensure (d \<and> 0 < gross c e)
          (ValueError ''Adjustment requires CREDIT/DEBIT direction and positive amount'')))
     else if k = FX_CONVERSION then
       let other = other_currency e in
       bindE (meta_decimal c e ''to_amount'' 0 ''received amount'' True False) (\<lambda>_.
       ensure (\<not> (length other \<noteq> 3 \<or> \<not> str_isascii other \<or> \<not> str_isalpha other
                  \<or> other = e_currency e \<or> gross c e \<le> 0))
          (ValueError ''FX conversion requires two currencies and positive amounts''))
     else Inr ())))"

section \<open>Security movements, expenses and charges\<close>

text \<open>The lots side of \<open>_security_movement\<close>: the new cost basis and the realised P&L.\<close>

definition movement_cost ::
  "ctx \<Rightarrow> (string \<Rightarrow> string) \<Rightarrow> ledger \<Rightarrow> entry \<Rightarrow> (cost_basis \<times> rat) result" where
  "movement_cost c u s e =
     (let k = e_kind e in
      if k \<in> {BUY, TRANSFER_IN, SHORT} then
        bindE (open_position c u (lg_cost_basis s) e
                 (if k = SHORT then SHORT_SIDE else LONG)) (\<lambda>(_, cb). Inr (cb, 0))
      else
        bindE (close_position c (lg_cost_basis s) e
                 (if k = COVER then SHORT_SIDE else LONG)) (\<lambda>(matches, cb).
        Inr (cb, dsum c (map lm_realised_base matches))))"

text \<open>Its cash side: a transfer is an external flow, a trade moves cash.\<close>

definition movement_cash :: "ctx \<Rightarrow> ledger \<Rightarrow> entry \<Rightarrow> ledger result" where
  "movement_cash c s e =
     (let k = e_kind e in
      if k \<in> {TRANSFER_IN, TRANSFER_OUT}
      then let sign = (if k = TRANSFER_IN then 1 else dneg c 1)
           in Inr (external c s e (dmul c (dmul c sign (gross c e)) (e_fx e)))
      else let sign = (if k \<in> {SELL, SHORT} then 1 else dneg c 1)
           in move_cash c s (e_currency e) (dmul c sign (gross c e)) (e_fx e) e ''TRADE'')"

definition security_movement ::
  "ctx \<Rightarrow> (string \<Rightarrow> string) \<Rightarrow> ledger \<Rightarrow> entry \<Rightarrow> ledger result" where
  "security_movement c u s e =
     bindE (movement_cost c u s e) (\<lambda>(cb, realised).
     let i = instrument_or_empty e;
         s = roll_position c i (s\<lparr>lg_cost_basis := cb\<rparr>);
         s = modify_position i (\<lambda>p. p\<lparr>ps_realised := dadd c (ps_realised p) realised\<rparr>) s
     in movement_cash c s e)"

definition expense :: "ctx \<Rightarrow> ledger \<Rightarrow> entry \<Rightarrow> ledger result" where
  "expense c s e =
     (let charge = (if gross c e \<noteq> 0 then gross c e else charges c e);
          base = dmul c charge (e_fx e) in
      bindE (move_cash c s (e_currency e) (dneg c charge) (e_fx e) e (kind_value (e_kind e))) (\<lambda>s.
      let s = (if e_kind e = TAX then s\<lparr>lg_taxes := dadd c (lg_taxes s) base\<rparr>
               else s\<lparr>lg_fees := dadd c (lg_fees s) base\<rparr>)
      in Inr (if has_instrument e
              then modify_position (instrument_or_empty e)
                     (\<lambda>p. p\<lparr>ps_charges := dadd c (ps_charges p) base\<rparr>) s
              else s)))"

definition apply_charges :: "ctx \<Rightarrow> ledger \<Rightarrow> entry \<Rightarrow> ledger result" where
  "apply_charges c s e =
     bindE (move_cash c s (e_currency e) (dneg c (charges c e)) (e_fx e) e ''CHARGES'') (\<lambda>s.
     let cap = dmul c (capitalized c (lg_policy s) e) (e_fx e);
         s = s\<lparr>lg_fees := dadd c (lg_fees s) (dmul c (dadd c (e_fee e) (e_commission e)) (e_fx e)),
               lg_taxes := dadd c (lg_taxes s) (dmul c (e_tax e) (e_fx e)),
               lg_capitalized_charges := dadd c (lg_capitalized_charges s) cap\<rparr>
     in Inr (if has_instrument e
             then modify_position (instrument_or_empty e)
                    (\<lambda>p. p\<lparr>ps_charges := dadd c (ps_charges p) (dmul c (charges c e) (e_fx e)),
                           ps_capitalized_charges := dadd c (ps_capitalized_charges p) cap\<rparr>) s
             else s))"

section \<open>Corporate actions\<close>

definition split_action :: "ctx \<Rightarrow> ledger \<Rightarrow> entry \<Rightarrow> ledger result" where
  "split_action c s e =
     bindE (meta_decimal c e ''ratio'' (e_quantity e) ''split ratio'' True False) (\<lambda>ratio.
     bindE (ensure (\<not> (e_kind e = REVERSE_SPLIT \<and> 1 \<le> ratio))
        (ValueError ''Reverse split ratio must be below one'')) (\<lambda>_.
     bindE (split_lots c (lg_cost_basis s) (instrument_or_empty e) ratio) (\<lambda>cb.
     Inr (s\<lparr>lg_cost_basis := cb\<rparr>))))"

definition spinoff_action ::
  "ctx \<Rightarrow> (string \<Rightarrow> string) \<Rightarrow> ledger \<Rightarrow> entry \<Rightarrow> string \<Rightarrow> ledger result" where
  "spinoff_action c u s e child =
     bindE (meta_decimal c e ''cost_allocation'' 0 ''cost allocation'' False True) (\<lambda>allocation.
     bindE (spinoff c u (lg_cost_basis s) e child allocation) (\<lambda>cb.
     Inr (s\<lparr>lg_cost_basis := cb\<rparr>)))"

definition merger_action ::
  "ctx \<Rightarrow> (string \<Rightarrow> string) \<Rightarrow> ledger \<Rightarrow> entry \<Rightarrow> string \<Rightarrow> ledger result" where
  "merger_action c u s e child =
     bindE (meta_decimal c e ''exchange_ratio'' 0 ''exchange ratio'' True False) (\<lambda>ratio.
     bindE (meta_decimal c e ''cash_per_share'' 0 ''cash per share'' False True) (\<lambda>cash.
     bindE (meta_decimal c e ''cash_cost_allocation'' 0 ''cash cost allocation'' False True)
     (\<lambda>allocation.
     bindE (merger c u (lg_cost_basis s) e child ratio cash allocation)
     (\<lambda>((received, realised), cb).
     bindE (move_cash c (s\<lparr>lg_cost_basis := cb\<rparr>) (e_currency e) received (e_fx e) e
              ''MERGER_CASH'') (\<lambda>s.
     Inr (modify_position (instrument_or_empty e)
            (\<lambda>p. p\<lparr>ps_realised := dadd c (ps_realised p) realised\<rparr>) s))))))"

definition corporate_action ::
  "ctx \<Rightarrow> (string \<Rightarrow> string) \<Rightarrow> ledger \<Rightarrow> entry \<Rightarrow> ledger result" where
  "corporate_action c u s e =
     (let i = instrument_or_empty e; k = e_kind e in
      if k \<in> {SPLIT, REVERSE_SPLIT}
      then bindE (split_action c s e) (\<lambda>s. Inr (roll_position c i s))
      else
        (case meta_get (e_metadata e) ''child_instrument_id'' of
           VStr child \<Rightarrow>
             if child = [] then Inl (ValueError ''Corporate action requires a child instrument'')
             else
               bindE (if k = SPINOFF then spinoff_action c u s e child
                      else merger_action c u s e child)
                 (\<lambda>s. Inr (roll_position c i (roll_position c child s)))
         | _ \<Rightarrow> Inl (ValueError ''Corporate action requires a child instrument'')))"

section \<open>apply and advance\<close>

text \<open>The branches of \<open>apply\<close> up to the common \<open>_charges\<close>.\<close>

definition apply_kind ::
  "ctx \<Rightarrow> (string \<Rightarrow> string) \<Rightarrow> ledger \<Rightarrow> entry \<Rightarrow> ledger result" where
  "apply_kind c u s e =
     (let k = e_kind e; gr = gross c e; base = dmul c gr (e_fx e) in
      if k \<in> set SECURITY_MOVEMENTS \<and> has_instrument e then security_movement c u s e
      else if k \<in> {DEPOSIT, WITHDRAWAL, TRANSFER_IN, TRANSFER_OUT} then
        let sign = (if k \<in> {DEPOSIT, TRANSFER_IN} then 1 else dneg c 1) in
        bindE (move_cash c s (e_currency e) (dmul c sign gr) (e_fx e) e ''CAPITAL'') (\<lambda>s.
        Inr (external c s e (dmul c sign base)))
      else if k \<in> {DIVIDEND, INTEREST} then
        bindE (move_cash c s (e_currency e) gr (e_fx e) e ''INCOME'') (\<lambda>s.
        let s = s\<lparr>lg_income := dadd c (lg_income s) base\<rparr>
        in Inr (if has_instrument e
                then modify_position (instrument_or_empty e)
                       (\<lambda>p. p\<lparr>ps_income := dadd c (ps_income p) base\<rparr>) s
                else s))
      else if k = FX_CONVERSION then
        bindE (meta_decimal c e ''to_amount'' 0 ''received amount'' True False) (\<lambda>received.
        bindE (move_cash c s (e_currency e) (dneg c gr) (e_fx e) e ''FX_SOLD'') (\<lambda>s.
        move_cash c s (other_currency e) received (ddiv c base received) e ''FX_BOUGHT''))
      else if k \<in> {SPLIT, REVERSE_SPLIT, SPINOFF, MERGER} then corporate_action c u s e
      else if k = OTHER_ADJUSTMENT then
        let sign = (if meta_get (e_metadata e) ''direction'' = VStr ''CREDIT'' then 1 else dneg c 1) in
        bindE (move_cash c s (e_currency e) (dmul c sign gr) (e_fx e) e ''ADJUSTMENT'') (\<lambda>s.
        Inr (s\<lparr>lg_adjustments := dadd c (lg_adjustments s) (dmul c sign base)\<rparr>))
      else Inr s)"

definition apply_entry ::
  "ctx \<Rightarrow> (string \<Rightarrow> string) \<Rightarrow> ledger \<Rightarrow> entry \<Rightarrow> ledger result" where
  "apply_entry c u s e =
     bindE (ledger_validate c s e) (\<lambda>_.
     bindE
       (if e_kind e \<in> {COMMISSION, FEE, TAX} then expense c s e
        else bindE (apply_kind c u s e) (\<lambda>s. apply_charges c s e))
       (\<lambda>s. Inr (s\<lparr>lg_last_date := Some (e_day e)\<rparr>)))"

definition advance :: "ledger \<Rightarrow> date \<Rightarrow> ledger result" where
  "advance s d =
     (if case lg_last_date s of None \<Rightarrow> False | Some l \<Rightarrow> d < l
      then Inl (ValueError ''Ledger valuation date cannot move backwards'')
      else Inr (s\<lparr>lg_last_date := Some d\<rparr>))"

text \<open>The replay of a list of entries, as every caller does it.\<close>

definition replay ::
  "ctx \<Rightarrow> (string \<Rightarrow> string) \<Rightarrow> ledger \<Rightarrow> entry list \<Rightarrow> ledger result" where
  "replay c u s es = foldE (apply_entry c u) s es"

end
