(* ===== verification/Ledger_Facts.thy ===== *)
theory Ledger_Facts
  imports Ledger
begin

text \<open>
  Invariants of the replay that hold in every decimal context, so in the one the program runs
  in: the cash dictionary and its base-currency book value are the folds of the recorded
  movements, external flows are the fold of the flow events, everything is in date order, each
  position carries the rollup of its open lots, and the lots stay homogeneous.
\<close>

section \<open>Frames\<close>

lemma put_position_frame [simp]:
  "lg_policy (put_position i p s) = lg_policy s" "lg_cash (put_position i p s) = lg_cash s"
  "lg_cash_book_base (put_position i p s) = lg_cash_book_base s"
  "lg_external_flows (put_position i p s) = lg_external_flows s"
  "lg_income (put_position i p s) = lg_income s" "lg_fees (put_position i p s) = lg_fees s"
  "lg_taxes (put_position i p s) = lg_taxes s"
  "lg_adjustments (put_position i p s) = lg_adjustments s"
  "lg_capitalized_charges (put_position i p s) = lg_capitalized_charges s"
  "lg_flow_events (put_position i p s) = lg_flow_events s"
  "lg_movements (put_position i p s) = lg_movements s"
  "lg_cost_basis (put_position i p s) = lg_cost_basis s"
  "lg_last_date (put_position i p s) = lg_last_date s"
  by (simp_all add: put_position_def)

lemma modify_position_frame [simp]:
  "lg_policy (modify_position i f s) = lg_policy s" "lg_cash (modify_position i f s) = lg_cash s"
  "lg_cash_book_base (modify_position i f s) = lg_cash_book_base s"
  "lg_external_flows (modify_position i f s) = lg_external_flows s"
  "lg_income (modify_position i f s) = lg_income s" "lg_fees (modify_position i f s) = lg_fees s"
  "lg_taxes (modify_position i f s) = lg_taxes s"
  "lg_adjustments (modify_position i f s) = lg_adjustments s"
  "lg_capitalized_charges (modify_position i f s) = lg_capitalized_charges s"
  "lg_flow_events (modify_position i f s) = lg_flow_events s"
  "lg_movements (modify_position i f s) = lg_movements s"
  "lg_cost_basis (modify_position i f s) = lg_cost_basis s"
  "lg_last_date (modify_position i f s) = lg_last_date s"
  by (simp_all add: modify_position_def)

lemma roll_position_frame [simp]:
  "lg_policy (roll_position c i s) = lg_policy s" "lg_cash (roll_position c i s) = lg_cash s"
  "lg_cash_book_base (roll_position c i s) = lg_cash_book_base s"
  "lg_external_flows (roll_position c i s) = lg_external_flows s"
  "lg_income (roll_position c i s) = lg_income s" "lg_fees (roll_position c i s) = lg_fees s"
  "lg_taxes (roll_position c i s) = lg_taxes s"
  "lg_adjustments (roll_position c i s) = lg_adjustments s"
  "lg_capitalized_charges (roll_position c i s) = lg_capitalized_charges s"
  "lg_flow_events (roll_position c i s) = lg_flow_events s"
  "lg_movements (roll_position c i s) = lg_movements s"
  "lg_cost_basis (roll_position c i s) = lg_cost_basis s"
  "lg_last_date (roll_position c i s) = lg_last_date s"
  by (simp_all add: roll_position_def)

interpretation position_store: keyed_store get_position put_position
  by unfold_locales (simp add: get_position_def put_position_def)

interpretation cash_store: keyed_store "\<lambda>s k. dict_get s k (0::rat)" AList.update
  by unfold_locales simp

lemma get_modify [simp]:
  "get_position (modify_position i f s) k =
     (if k = i then f (get_position s i) else get_position s k)"
  by (simp add: modify_position_def position_store.get_put)

lemma get_position_more [simp]:
  "get_position (s\<lparr>lg_cash := a\<rparr>) k = get_position s k"
  "get_position (s\<lparr>lg_cash_book_base := b\<rparr>) k = get_position s k"
  "get_position (s\<lparr>lg_external_flows := b\<rparr>) k = get_position s k"
  "get_position (s\<lparr>lg_income := b\<rparr>) k = get_position s k"
  "get_position (s\<lparr>lg_fees := b\<rparr>) k = get_position s k"
  "get_position (s\<lparr>lg_taxes := b\<rparr>) k = get_position s k"
  "get_position (s\<lparr>lg_adjustments := b\<rparr>) k = get_position s k"
  "get_position (s\<lparr>lg_capitalized_charges := b\<rparr>) k = get_position s k"
  "get_position (s\<lparr>lg_flow_events := f\<rparr>) k = get_position s k"
  "get_position (s\<lparr>lg_movements := m\<rparr>) k = get_position s k"
  "get_position (s\<lparr>lg_cost_basis := cb\<rparr>) k = get_position s k"
  "get_position (s\<lparr>lg_last_date := d\<rparr>) k = get_position s k"
  by (simp_all add: get_position_def)

section \<open>Inversion\<close>

definition moved ::
  "ctx \<Rightarrow> ledger \<Rightarrow> string \<Rightarrow> rat \<Rightarrow> rat \<Rightarrow> entry \<Rightarrow> string \<Rightarrow> ledger" where
  "moved c s cur amt fx e description =
     s\<lparr>lg_movements := lg_movements s @
         [\<lparr>mv_transaction_id = e_id e, mv_currency = cur, mv_amount = amt, mv_fx = fx,
           mv_trade_date = e_day e, mv_settlement_date = settlement e,
           mv_account_id = e_account_id e, mv_description = description\<rparr>],
       lg_cash := AList.update cur (dadd c (dict_get (lg_cash s) cur 0) amt) (lg_cash s),
       lg_cash_book_base := dadd c (lg_cash_book_base s) (dmul c amt fx)\<rparr>"

lemma move_cash_Inr:
  "move_cash c s cur amt fx e description = Inr s' \<longleftrightarrow>
     (if amt = 0 then s' = s
      else 0 < fx \<and> e_day e \<le> settlement e \<and> s' = moved c s cur amt fx e description)"
  by (auto simp: move_cash_def moved_def result_simps)

lemma moved_frame [simp]:
  "lg_lots (moved c s cur amt fx e d) = lg_lots s"
  "lg_policy (moved c s cur amt fx e d) = lg_policy s"
  "lg_external_flows (moved c s cur amt fx e d) = lg_external_flows s"
  "lg_income (moved c s cur amt fx e d) = lg_income s"
  "lg_fees (moved c s cur amt fx e d) = lg_fees s"
  "lg_taxes (moved c s cur amt fx e d) = lg_taxes s"
  "lg_adjustments (moved c s cur amt fx e d) = lg_adjustments s"
  "lg_capitalized_charges (moved c s cur amt fx e d) = lg_capitalized_charges s"
  "lg_flow_events (moved c s cur amt fx e d) = lg_flow_events s"
  "lg_cost_basis (moved c s cur amt fx e d) = lg_cost_basis s"
  "lg_last_date (moved c s cur amt fx e d) = lg_last_date s"
  "get_position (moved c s cur amt fx e d) k = get_position s k"
  "lg_cash_book_base (moved c s cur amt fx e d) = dadd c (lg_cash_book_base s) (dmul c amt fx)"
  by (simp_all add: moved_def get_position_def)

lemma external_frame [simp]:
  "lg_lots (external c s e amt) = lg_lots s" "lg_policy (external c s e amt) = lg_policy s"
  "lg_income (external c s e amt) = lg_income s" "lg_fees (external c s e amt) = lg_fees s"
  "lg_taxes (external c s e amt) = lg_taxes s" "lg_cash (external c s e amt) = lg_cash s"
  "lg_cash_book_base (external c s e amt) = lg_cash_book_base s"
  "lg_adjustments (external c s e amt) = lg_adjustments s"
  "lg_capitalized_charges (external c s e amt) = lg_capitalized_charges s"
  "lg_movements (external c s e amt) = lg_movements s"
  "lg_cost_basis (external c s e amt) = lg_cost_basis s"
  "lg_last_date (external c s e amt) = lg_last_date s"
  "get_position (external c s e amt) k = get_position s k"
  "lg_external_flows (external c s e amt) = dadd c (lg_external_flows s) amt"
  by (simp_all add: external_def get_position_def)

lemma ledger_validate_valid: "ledger_validate c s e = Inr x \<Longrightarrow> valid_entry c e"
  by (auto simp: ledger_validate_def result_simps)

lemma ledger_validate_date:
  "ledger_validate c s e = Inr x \<Longrightarrow> lg_last_date s = Some d \<Longrightarrow> d \<le> e_day e"
  by (auto simp: ledger_validate_def result_simps)

section \<open>The books: cash, book value and external flows\<close>

definition book_inv :: "ctx \<Rightarrow> date \<Rightarrow> ledger \<Rightarrow> bool" where
  "book_inv c d s \<longleftrightarrow>
     (\<forall>cur. dict_get (lg_cash s) cur 0 =
        dsum c (map mv_amount (filter (\<lambda>m. mv_currency m = cur) (lg_movements s)))) \<and>
     lg_cash_book_base s = dsum c (map (\<lambda>m. dmul c (mv_amount m) (mv_fx m)) (lg_movements s)) \<and>
     (\<forall>m \<in> set (lg_movements s).
        mv_amount m \<noteq> 0 \<and> 0 < mv_fx m \<and> mv_trade_date m \<le> mv_settlement_date m) \<and>
     lg_external_flows s = dsum c (map snd (lg_flow_events s)) \<and>
     sorted (map mv_trade_date (lg_movements s) @ [d]) \<and>
     sorted (map fst (lg_flow_events s) @ [d])"

lemma dsum_snoc: "dsum c (xs @ [x]) = dadd c (dsum c xs) x"
  by (simp add: dsum_def)

lemma book_inv_new: "book_inv c d (new_ledger p)"
  by (simp add: book_inv_def new_ledger_def dsum_def)

lemma book_inv_later: "book_inv c d s \<Longrightarrow> d \<le> d' \<Longrightarrow> book_inv c d' s"
  by (auto simp: book_inv_def sorted_append)

lemma book_inv_frame:
  "lg_cash s' = lg_cash s \<Longrightarrow> lg_cash_book_base s' = lg_cash_book_base s \<Longrightarrow>
   lg_movements s' = lg_movements s \<Longrightarrow> lg_external_flows s' = lg_external_flows s \<Longrightarrow>
   lg_flow_events s' = lg_flow_events s \<Longrightarrow> book_inv c d s' = book_inv c d s"
  by (simp add: book_inv_def)

lemma book_inv_modify [simp]:
  "book_inv c d (modify_position i f s) = book_inv c d s"
  "book_inv c d (roll_position c' i s) = book_inv c d s"
  "book_inv c d (s\<lparr>lg_income := x\<rparr>) = book_inv c d s"
  "book_inv c d (s\<lparr>lg_fees := x\<rparr>) = book_inv c d s"
  "book_inv c d (s\<lparr>lg_taxes := x\<rparr>) = book_inv c d s"
  "book_inv c d (s\<lparr>lg_adjustments := x\<rparr>) = book_inv c d s"
  "book_inv c d (s\<lparr>lg_capitalized_charges := x\<rparr>) = book_inv c d s"
  "book_inv c d (s\<lparr>lg_cost_basis := cb\<rparr>) = book_inv c d s"
  "book_inv c d (s\<lparr>lg_last_date := l\<rparr>) = book_inv c d s"
  by (rule book_inv_frame; simp)+

lemma book_inv_moved:
  "book_inv c (e_day e) s \<Longrightarrow> amt \<noteq> 0 \<Longrightarrow> 0 < fx \<Longrightarrow> e_day e \<le> settlement e \<Longrightarrow>
   book_inv c (e_day e) (moved c s cur amt fx e description)"
  by (auto simp: book_inv_def moved_def dsum_snoc sorted_append)

lemma book_inv_move_cash:
  "move_cash c s cur amt fx e description = Inr s' \<Longrightarrow> book_inv c (e_day e) s \<Longrightarrow>
   book_inv c (e_day e) s'"
  by (auto simp: move_cash_Inr book_inv_moved split: if_splits)

lemma book_inv_external: "book_inv c (e_day e) s \<Longrightarrow> book_inv c (e_day e) (external c s e amt)"
  by (auto simp: book_inv_def external_def dsum_snoc sorted_append)

lemma security_movement_book:
  "security_movement c u s e = Inr s' \<Longrightarrow> book_inv c (e_day e) s \<Longrightarrow> book_inv c (e_day e) s'"
  by (auto simp: security_movement_def movement_cash_def Let_def bindE_Inr_iff book_inv_external
      split: if_splits dest: book_inv_move_cash)

lemma expense_book:
  "expense c s e = Inr s' \<Longrightarrow> book_inv c (e_day e) s \<Longrightarrow> book_inv c (e_day e) s'"
  by (auto simp: expense_def Let_def bindE_Inr_iff dest: book_inv_move_cash)

lemma apply_charges_book:
  "apply_charges c s e = Inr s' \<Longrightarrow> book_inv c (e_day e) s \<Longrightarrow> book_inv c (e_day e) s'"
  by (auto simp: apply_charges_def Let_def bindE_Inr_iff dest: book_inv_move_cash)

lemma corporate_action_book:
  "corporate_action c u s e = Inr s' \<Longrightarrow> book_inv c (e_day e) s \<Longrightarrow> book_inv c (e_day e) s'"
  by (auto simp: corporate_action_def split_action_def spinoff_action_def merger_action_def
      Let_def bindE_Inr_iff split: if_splits pyval.splits dest!: book_inv_move_cash)

lemma apply_kind_book:
  "apply_kind c u s e = Inr s' \<Longrightarrow> book_inv c (e_day e) s \<Longrightarrow> book_inv c (e_day e) s'"
  unfolding apply_kind_def Let_def
  by (auto simp: bindE_Inr_iff split: if_splits intro!: book_inv_external
      dest: security_movement_book corporate_action_book book_inv_move_cash)

text \<open>The books at the date the ledger has reached; before the first entry they are empty.\<close>

definition books :: "ctx \<Rightarrow> ledger \<Rightarrow> bool" where
  "books c s \<longleftrightarrow>
     (case lg_last_date s of None \<Rightarrow> \<forall>d. book_inv c d s | Some d \<Rightarrow> book_inv c d s)"

lemma books_at:
  "books c s \<Longrightarrow> (case lg_last_date s of None \<Rightarrow> True | Some l \<Rightarrow> l \<le> d) \<Longrightarrow> book_inv c d s"
  by (auto simp: books_def intro: book_inv_later split: option.splits)

lemma apply_entry_books:
  assumes "books c s" "apply_entry c u s e = Inr s'"
  shows "books c s'"
proof -
  have "book_inv c (e_day e) s"
    using assms ledger_validate_date
    by (intro books_at) (fastforce simp: apply_entry_def bindE_Inr_iff split: option.splits)+
  then show ?thesis using assms(2)
    by (auto simp: apply_entry_def bindE_Inr_iff books_def split: if_splits
        dest: expense_book apply_kind_book apply_charges_book)
qed

lemma new_ledger_books: "books c (new_ledger p)"
  using book_inv_new [of c _ p] by (auto simp: books_def new_ledger_def)

lemma replay_books: "books c s \<Longrightarrow> replay c u s es = Inr s' \<Longrightarrow> books c s'"
  unfolding replay_def by (rule foldE_invariant [where P = "books c"]) (auto dest: apply_entry_books)

lemma advance_books: "books c s \<Longrightarrow> advance s d = Inr s' \<Longrightarrow> books c s'"
  using books_at [of c s d] by (auto simp: advance_def books_def split: if_splits option.splits)

section \<open>Positions are the rollup of the open lots\<close>

definition position_rolled :: "ctx \<Rightarrow> cost_basis \<Rightarrow> string \<Rightarrow> position \<Rightarrow> bool" where
  "position_rolled c cb i p \<longleftrightarrow>
     ps_quantity p = dsum c (map (\<lambda>l. signed c (ol_direction l) (ol_quantity l)) (lots_for cb i)) \<and>
     ps_cost_native p =
       dsum c (map (\<lambda>l. signed c (ol_direction l) (ol_native_basis l)) (lots_for cb i)) \<and>
     ps_cost_base p =
       dsum c (map (\<lambda>l. signed c (ol_direction l) (ol_base_basis l)) (lots_for cb i))"

definition rolled :: "ctx \<Rightarrow> ledger \<Rightarrow> bool" where
  "rolled c s \<longleftrightarrow> (\<forall>i. position_rolled c (lg_cost_basis s) i (get_position s i))"

lemma rollup_rolled [simp]: "position_rolled c cb i (rollup c cb i p)"
  by (auto simp: position_rolled_def rollup_def Let_def split: list.splits)

lemma position_rolled_cong:
  "stored_lots cb' i = stored_lots cb i \<Longrightarrow> position_rolled c cb' i p = position_rolled c cb i p"
  by (simp add: position_rolled_def lots_for_def)

lemma position_rolled_update [simp]:
  "position_rolled c cb i (p\<lparr>ps_realised := x\<rparr>) = position_rolled c cb i p"
  "position_rolled c cb i (p\<lparr>ps_income := x\<rparr>) = position_rolled c cb i p"
  "position_rolled c cb i (p\<lparr>ps_charges := x\<rparr>) = position_rolled c cb i p"
  "position_rolled c cb i (p\<lparr>ps_capitalized_charges := x\<rparr>) = position_rolled c cb i p"
  by (simp_all add: position_rolled_def)

lemma rolled_frame:
  "lg_lots s' = lg_lots s \<Longrightarrow> lg_cost_basis s' = lg_cost_basis s \<Longrightarrow> rolled c s' = rolled c s"
  by (simp add: rolled_def get_position_def)

lemma rolled_simps [simp]:
  "rolled c (s\<lparr>lg_income := x\<rparr>) = rolled c s" "rolled c (s\<lparr>lg_fees := x\<rparr>) = rolled c s"
  "rolled c (s\<lparr>lg_taxes := x\<rparr>) = rolled c s" "rolled c (s\<lparr>lg_adjustments := x\<rparr>) = rolled c s"
  "rolled c (s\<lparr>lg_capitalized_charges := x\<rparr>) = rolled c s"
  "rolled c (s\<lparr>lg_last_date := l\<rparr>) = rolled c s"
  "rolled c (external c' s e amt) = rolled c s"
  "rolled c (moved c' s cur amt fx e d) = rolled c s"
  by (rule rolled_frame; simp)+

lemma rolled_modify:
  "rolled c s \<Longrightarrow> (\<And>p cb. position_rolled c cb i p \<Longrightarrow> position_rolled c cb i (f p)) \<Longrightarrow>
   rolled c (modify_position i f s)"
  by (simp add: rolled_def)

text \<open>After the cost basis changed at the instruments of a list, rolling them restores it.\<close>

lemma rolled_roll:
  assumes "\<And>k. k \<noteq> i \<Longrightarrow> position_rolled c (lg_cost_basis s) k (get_position s k)"
  shows "rolled c (roll_position c i s)"
  using assms by (auto simp: rolled_def roll_position_def)

lemma rolled_roll2:
  assumes "\<And>k. k \<noteq> i \<Longrightarrow> k \<noteq> j \<Longrightarrow> position_rolled c (lg_cost_basis s) k (get_position s k)"
  shows "rolled c (roll_position c i (roll_position c j s))"
  by (rule rolled_roll) (use assms in \<open>auto simp: roll_position_def\<close>)

lemma move_cash_rolled:
  "move_cash c s cur amt fx e d = Inr s' \<Longrightarrow> rolled c' s' = rolled c' s"
  by (auto simp: move_cash_Inr split: if_splits)

definition lots_inv :: "ctx \<Rightarrow> ledger \<Rightarrow> bool" where
  "lots_inv c s \<longleftrightarrow>
     rolled c s \<and> homogeneous (lg_cost_basis s) \<and> cb_policy (lg_cost_basis s) = lg_policy s"

lemma move_cash_frame:
  "move_cash c s cur amt fx e d = Inr s' \<Longrightarrow>
     lg_cost_basis s' = lg_cost_basis s \<and> lg_policy s' = lg_policy s \<and> lg_lots s' = lg_lots s"
  by (auto simp: move_cash_Inr split: if_splits)

lemma move_cash_lots:
  "move_cash c s cur amt fx e d = Inr s' \<Longrightarrow> lots_inv c' s' = lots_inv c' s"
  using move_cash_frame [of c s cur amt fx e d s'] move_cash_rolled [of c s cur amt fx e d s' c']
  by (simp add: lots_inv_def)

lemma lots_inv_simps [simp]:
  "lots_inv c (s\<lparr>lg_income := x\<rparr>) = lots_inv c s" "lots_inv c (s\<lparr>lg_fees := x\<rparr>) = lots_inv c s"
  "lots_inv c (s\<lparr>lg_taxes := x\<rparr>) = lots_inv c s"
  "lots_inv c (s\<lparr>lg_adjustments := x\<rparr>) = lots_inv c s"
  "lots_inv c (s\<lparr>lg_capitalized_charges := x\<rparr>) = lots_inv c s"
  "lots_inv c (s\<lparr>lg_last_date := l\<rparr>) = lots_inv c s"
  "lots_inv c (external c' s e amt) = lots_inv c s"
  "lots_inv c (moved c' s cur amt fx e d) = lots_inv c s"
  by (simp_all add: lots_inv_def)

lemma lots_inv_modify:
  "lots_inv c s \<Longrightarrow> (\<And>p cb. position_rolled c cb i p \<Longrightarrow> position_rolled c cb i (f p)) \<Longrightarrow>
   lots_inv c (modify_position i f s)"
  by (auto simp: lots_inv_def intro: rolled_modify)

lemma open_position_frame:
  assumes "open_position c u cb e d = Inr (l, cb')"
  shows "cb_policy cb' = cb_policy cb"
    "k \<noteq> instrument_or_empty e \<Longrightarrow> stored_lots cb' k = stored_lots cb k"
  using assms by (auto simp: open_position_Inr result_simps instrument_or_empty_def)

lemma close_position_frame:
  assumes "close_position c cb e d = Inr (ms, cb')"
  shows "cb_policy cb' = cb_policy cb"
    "k \<noteq> instrument_or_empty e \<Longrightarrow> stored_lots cb' k = stored_lots cb k"
  using assms
  by (auto simp: close_position_Inr result_simps instrument_or_empty_def stored_update_lots)

lemma movement_cost_frame:
  assumes "movement_cost c u s e = Inr (cb, r)"
  shows "homogeneous (lg_cost_basis s) \<Longrightarrow> homogeneous cb"
    "cb_policy cb = cb_policy (lg_cost_basis s)"
    "k \<noteq> instrument_or_empty e \<Longrightarrow> stored_lots cb k = stored_lots (lg_cost_basis s) k"
  using assms unfolding movement_cost_def Let_def
  by (auto simp: bindE_Inr_iff split: if_splits
      dest: open_position_homogeneous close_position_homogeneous
        open_position_frame close_position_frame)

lemma movement_cash_lots:
  "movement_cash c s e = Inr s' \<Longrightarrow> lots_inv c' s' = lots_inv c' s"
  by (auto simp: movement_cash_def Let_def move_cash_lots split: if_splits)

lemma security_movement_lots:
  assumes "lots_inv c s" "security_movement c u s e = Inr s'"
  shows "lots_inv c s'"
proof -
  let ?i = "instrument_or_empty e"
  obtain cb r where cb: "movement_cost c u s e = Inr (cb, r)"
    and cash: "movement_cash c (modify_position ?i (\<lambda>p. p\<lparr>ps_realised := dadd c (ps_realised p) r\<rparr>)
        (roll_position c ?i (s\<lparr>lg_cost_basis := cb\<rparr>))) e = Inr s'"
    using assms(2) by (auto simp: security_movement_def Let_def bindE_Inr_iff)
  have "position_rolled c cb k (get_position s k)" if "k \<noteq> ?i" for k
    using assms(1) position_rolled_cong [OF movement_cost_frame(3) [OF cb that]]
    by (simp add: lots_inv_def rolled_def)
  then have "rolled c (roll_position c ?i (s\<lparr>lg_cost_basis := cb\<rparr>))"
    by (intro rolled_roll) simp
  then have "lots_inv c (roll_position c ?i (s\<lparr>lg_cost_basis := cb\<rparr>))"
    using assms(1) movement_cost_frame(1,2) [OF cb] by (simp add: lots_inv_def)
  then show ?thesis unfolding movement_cash_lots [OF cash] by (rule lots_inv_modify) simp
qed

lemma expense_lots: "lots_inv c s \<Longrightarrow> expense c s e = Inr s' \<Longrightarrow> lots_inv c s'"
  by (auto simp: expense_def Let_def bindE_Inr_iff move_cash_lots intro!: lots_inv_modify)

lemma apply_charges_lots: "lots_inv c s \<Longrightarrow> apply_charges c s e = Inr s' \<Longrightarrow> lots_inv c s'"
  by (auto simp: apply_charges_def Let_def bindE_Inr_iff move_cash_lots intro!: lots_inv_modify)

text \<open>
  A corporate action changes the cost basis at the entry's instrument and at the child only, and
  rolls both positions afterwards.
\<close>

definition lots_changed :: "ledger \<Rightarrow> string set \<Rightarrow> ledger \<Rightarrow> bool" where
  "lots_changed s A s' \<longleftrightarrow>
     (homogeneous (lg_cost_basis s) \<longrightarrow> homogeneous (lg_cost_basis s')) \<and>
     cb_policy (lg_cost_basis s') = cb_policy (lg_cost_basis s) \<and> lg_policy s' = lg_policy s \<and>
     (\<forall>k. k \<notin> A \<longrightarrow> stored_lots (lg_cost_basis s') k = stored_lots (lg_cost_basis s) k \<and>
        get_position s' k = get_position s k)"

lemma split_lots_frame:
  assumes "split_lots c cb i r = Inr cb'"
  shows "cb_policy cb' = cb_policy cb" "k \<noteq> i \<Longrightarrow> stored_lots cb' k = stored_lots cb k"
  using assms by (auto simp: split_lots_Inr stored_update_lots)

lemma spinoff_policy: "spinoff c u cb e ch a = Inr cb' \<Longrightarrow> cb_policy cb' = cb_policy cb"
  by (auto simp: spinoff_def Let_def result_simps)

lemma merger_policy: "merger c u cb e ch r x y = Inr (res, cb') \<Longrightarrow> cb_policy cb' = cb_policy cb"
  by (auto simp: merger_def Let_def result_simps)

lemma split_action_changed:
  "split_action c s e = Inr s' \<Longrightarrow> lots_changed s {instrument_or_empty e} s'"
  by (auto simp: split_action_def lots_changed_def bindE_Inr_iff
      dest: split_lots_frame intro: split_lots_homogeneous)

lemma spinoff_frame:
  "spinoff c u cb e ch a = Inr cb' \<Longrightarrow> k \<noteq> instrument_or_empty e \<Longrightarrow> k \<noteq> ch \<Longrightarrow>
     stored_lots cb' k = stored_lots cb k"
  by (erule spinoff_Inr) simp

lemma spinoff_action_changed:
  "spinoff_action c u s e child = Inr s' \<Longrightarrow> lots_changed s {instrument_or_empty e, child} s'"
  by (auto simp: spinoff_action_def lots_changed_def bindE_Inr_iff
      dest: spinoff_policy spinoff_frame intro: spinoff_homogeneous)

lemma merger_action_changed:
  "merger_action c u s e child = Inr s' \<Longrightarrow> lots_changed s {instrument_or_empty e, child} s'"
  by (auto simp: merger_action_def lots_changed_def bindE_Inr_iff merger_policy get_position_def
      modify_position_def put_position_def
      dest!: move_cash_frame dest: merger_Inr intro: merger_homogeneous)

lemma lots_changed_rolled:
  assumes "lots_inv c s" "lots_changed s A s'" "k \<notin> A"
  shows "position_rolled c (lg_cost_basis s') k (get_position s' k)"
proof -
  have st: "stored_lots (lg_cost_basis s') k = stored_lots (lg_cost_basis s) k"
    and eq: "get_position s' k = get_position s k"
    using assms(2,3) unfolding lots_changed_def by blast+
  have "position_rolled c (lg_cost_basis s') k (get_position s k) =
      position_rolled c (lg_cost_basis s) k (get_position s k)"
    by (rule position_rolled_cong [OF st])
  then show ?thesis using assms(1) by (simp add: eq lots_inv_def rolled_def)
qed

lemma lots_changed_roll:
  assumes "lots_inv c s" "lots_changed s {i, j} s'"
  shows "lots_inv c (roll_position c i (roll_position c j s'))"
proof -
  have "rolled c (roll_position c i (roll_position c j s'))"
    by (rule rolled_roll2) (rule lots_changed_rolled [OF assms], simp)
  then show ?thesis using assms by (simp add: lots_inv_def lots_changed_def)
qed

lemma lots_changed_roll1:
  assumes "lots_inv c s" "lots_changed s {i} s'"
  shows "lots_inv c (roll_position c i s')"
proof -
  have "rolled c (roll_position c i s')"
    by (rule rolled_roll) (rule lots_changed_rolled [OF assms], simp)
  then show ?thesis using assms by (simp add: lots_inv_def lots_changed_def)
qed

lemma corporate_action_lots:
  assumes "lots_inv c s" "corporate_action c u s e = Inr s'"
  shows "lots_inv c s'"
proof (cases "e_kind e \<in> {SPLIT, REVERSE_SPLIT}")
  case True
  then show ?thesis using assms(2)
    by (auto simp: corporate_action_def Let_def bindE_Inr_iff
        intro: lots_changed_roll1 [OF assms(1)] split_action_changed)
next
  case False
  then obtain child t where "s' = roll_position c (instrument_or_empty e) (roll_position c child t)"
      "(if e_kind e = SPINOFF then spinoff_action c u s e child
        else merger_action c u s e child) = Inr t"
    using assms(2) unfolding corporate_action_def Let_def
    by (auto simp: bindE_Inr_iff split: if_splits pyval.splits)
  then show ?thesis
    by (auto intro!: lots_changed_roll [OF assms(1)]
        dest: spinoff_action_changed merger_action_changed split: if_splits)
qed

lemma apply_kind_lots:
  assumes "lots_inv c s" "apply_kind c u s e = Inr s'"
  shows "lots_inv c s'"
  using assms unfolding apply_kind_def Let_def
  by (auto simp: bindE_Inr_iff move_cash_lots split: if_splits intro!: lots_inv_modify
      intro: security_movement_lots [OF assms(1)] corporate_action_lots [OF assms(1)])

lemma apply_entry_lots:
  assumes "lots_inv c s" "apply_entry c u s e = Inr s'"
  shows "lots_inv c s'"
proof (cases "e_kind e \<in> {COMMISSION, FEE, TAX}")
  case True
  then show ?thesis using assms(2) expense_lots [OF assms(1)]
    by (auto simp: apply_entry_def bindE_Inr_iff)
next
  case False
  then obtain t w where "apply_kind c u s e = Inr t" "apply_charges c t e = Inr w"
      "s' = w\<lparr>lg_last_date := Some (e_day e)\<rparr>"
    using assms(2) by (auto simp: apply_entry_def bindE_Inr_iff)
  then show ?thesis using apply_charges_lots [OF apply_kind_lots [OF assms(1)]] by simp
qed

lemma new_ledger_lots: "lots_inv c (new_ledger p)"
proof -
  have "lots_for (new_cost_basis p) i = []" for i
    by (simp add: lots_for_def stored_lots_def new_cost_basis_def lot_order_def)
  then show ?thesis
    by (simp add: lots_inv_def new_ledger_def homogeneous_new rolled_def position_rolled_def
        get_position_def dsum_def new_position_def, simp add: new_cost_basis_def)
qed

lemma replay_lots: "lots_inv c s \<Longrightarrow> replay c u s es = Inr s' \<Longrightarrow> lots_inv c s'"
  unfolding replay_def by (rule foldE_invariant [where P = "lots_inv c"]) (auto dest: apply_entry_lots)

section \<open>Dates\<close>

lemma bindE_Inr_right [simp]: "bindE r Inr = r"
  by (cases r) auto

lemma replay_snoc:
  "replay c u s (es @ [e]) = bindE (replay c u s es) (\<lambda>s. apply_entry c u s e)"
  by (simp add: replay_def foldE_append)

lemma apply_entry_last_date: "apply_entry c u s e = Inr s' \<Longrightarrow> lg_last_date s' = Some (e_day e)"
  by (auto simp: apply_entry_def bindE_Inr_iff)

lemma apply_entry_validate: "apply_entry c u s e = Inr s' \<Longrightarrow> \<exists>x. ledger_validate c s e = Inr x"
  by (auto simp: apply_entry_def bindE_Inr_iff)

lemma replay_dates:
  "replay c u (new_ledger p) es = Inr s \<Longrightarrow>
     sorted (map e_day es) \<and> (\<forall>e \<in> set es. valid_entry c e) \<and>
     lg_last_date s = (if es = [] then None else Some (e_day (last es)))"
proof (induction es arbitrary: s rule: rev_induct)
  case Nil
  then show ?case by (auto simp: replay_def new_ledger_def)
next
  case (snoc e es)
  then obtain t where t: "replay c u (new_ledger p) es = Inr t" "apply_entry c u t e = Inr s"
    by (auto simp: replay_snoc bindE_Inr_iff)
  obtain x where v: "ledger_validate c t e = Inr x" using apply_entry_validate [OF t(2)] by blast
  have "sorted (map e_day es)" and l: "lg_last_date t = (if es = [] then None else Some (e_day (last es)))"
    and "\<forall>e \<in> set es. valid_entry c e"
    using snoc.IH [OF t(1)] by auto
  moreover have "\<forall>f \<in> set es. e_day f \<le> e_day e"
  proof (cases "es = []")
    case False
    then have "e_day (last es) \<le> e_day e" using l by (intro ledger_validate_date [OF v]) simp
    moreover have "\<forall>f \<in> set es. e_day f \<le> e_day (last es)"
      using \<open>sorted (map e_day es)\<close> False
      by (cases es rule: rev_cases) (auto simp: sorted_append)
    ultimately show ?thesis by force
  qed simp
  ultimately show ?case
    using ledger_validate_valid [OF v] apply_entry_last_date [OF t(2)] by (auto simp: sorted_append)
qed

lemma books_reconcile:
  assumes "books c s" "advance s d = Inr s'"
  shows "dict_get (lg_cash s') cur 0 = cc_economic (balance c (lg_movements s') cur d None)"
    "\<forall>m \<in> set (lg_movements s'). mv_trade_date m \<le> d"
proof -
  have b: "book_inv c d s'"
    using advance_books [OF assms] assms(2) by (auto simp: books_def advance_def split: if_splits)
  then show le: "\<forall>m \<in> set (lg_movements s'). mv_trade_date m \<le> d"
    by (auto simp: book_inv_def sorted_append)
  have "filter (counted cur d None) (lg_movements s') =
      filter (\<lambda>m. mv_currency m = cur) (lg_movements s')"
    by (rule filter_cong) (use le in \<open>auto simp: counted_def\<close>)
  then show "dict_get (lg_cash s') cur 0 = cc_economic (balance c (lg_movements s') cur d None)"
    using b by (simp add: book_inv_def balance_economic)
qed

section \<open>The branches of apply\<close>

lemma apply_kind_cases:
  assumes "apply_kind c u s e = Inr s'"
  obtains (trade) "e_kind e \<in> set SECURITY_MOVEMENTS" "has_instrument e"
      "security_movement c u s e = Inr s'"
  | (capital) t sg where "e_kind e \<in> {DEPOSIT, WITHDRAWAL, TRANSFER_IN, TRANSFER_OUT}"
      "sg = (if e_kind e \<in> {DEPOSIT, TRANSFER_IN} then 1 else dneg c 1)"
      "move_cash c s (e_currency e) (dmul c sg (gross c e)) (e_fx e) e ''CAPITAL'' = Inr t"
      "s' = external c t e (dmul c sg (dmul c (gross c e) (e_fx e)))"
  | (income) t where "e_kind e \<in> {DIVIDEND, INTEREST}"
      "move_cash c s (e_currency e) (gross c e) (e_fx e) e ''INCOME'' = Inr t"
      "s' = (if has_instrument e
        then modify_position (instrument_or_empty e)
          (\<lambda>p. p\<lparr>ps_income := dadd c (ps_income p) (dmul c (gross c e) (e_fx e))\<rparr>)
          (t\<lparr>lg_income := dadd c (lg_income t) (dmul c (gross c e) (e_fx e))\<rparr>)
        else t\<lparr>lg_income := dadd c (lg_income t) (dmul c (gross c e) (e_fx e))\<rparr>)"
  | (fx) r t where "e_kind e = FX_CONVERSION"
      "meta_decimal c e ''to_amount'' 0 ''received amount'' True False = Inr r"
      "move_cash c s (e_currency e) (dneg c (gross c e)) (e_fx e) e ''FX_SOLD'' = Inr t"
      "move_cash c t (other_currency e) r (ddiv c (dmul c (gross c e) (e_fx e)) r) e ''FX_BOUGHT''
         = Inr s'"
  | (action) "e_kind e \<in> {SPLIT, REVERSE_SPLIT, SPINOFF, MERGER}" "corporate_action c u s e = Inr s'"
  | (adjust) t sg where "e_kind e = OTHER_ADJUSTMENT"
      "move_cash c s (e_currency e) (dmul c sg (gross c e)) (e_fx e) e ''ADJUSTMENT'' = Inr t"
      "s' = t\<lparr>lg_adjustments :=
         dadd c (lg_adjustments t) (dmul c sg (dmul c (gross c e) (e_fx e)))\<rparr>"
  | (none) "s' = s" "e_kind e \<notin> {DEPOSIT, WITHDRAWAL, DIVIDEND, INTEREST, FX_CONVERSION, SPLIT,
      REVERSE_SPLIT, SPINOFF, MERGER, OTHER_ADJUSTMENT}"
proof -
  note k = assms [unfolded apply_kind_def Let_def]
  show thesis
  proof (cases "e_kind e \<in> set SECURITY_MOVEMENTS \<and> has_instrument e")
    case True
    then show thesis using k [unfolded if_P [OF True]] trade by blast
  next
    case 1: False
    note k1 = k [unfolded if_not_P [OF 1]]
    show thesis
    proof (cases "e_kind e \<in> {DEPOSIT, WITHDRAWAL, TRANSFER_IN, TRANSFER_OUT}")
      case True
      show thesis
        using k1 [unfolded if_P [OF True] bindE_Inr_iff] capital [OF True refl] by (auto simp only: sum.inject)
    next
      case 2: False
      note k2 = k1 [unfolded if_not_P [OF 2]]
      show thesis
      proof (cases "e_kind e \<in> {DIVIDEND, INTEREST}")
        case True
        show thesis
          using k2 [unfolded if_P [OF True] bindE_Inr_iff] income [OF True] by (auto simp only: sum.inject)
      next
        case 3: False
        note k3 = k2 [unfolded if_not_P [OF 3]]
        show thesis
        proof (cases "e_kind e = FX_CONVERSION")
          case True
          show thesis using k3 [unfolded if_P [OF True] bindE_Inr_iff] fx [OF True] by blast
        next
          case 4: False
          note k4 = k3 [unfolded if_not_P [OF 4]]
          show thesis
          proof (cases "e_kind e \<in> {SPLIT, REVERSE_SPLIT, SPINOFF, MERGER}")
            case True
            show thesis using k4 [unfolded if_P [OF True]] action [OF True] by blast
          next
            case 5: False
            note k5 = k4 [unfolded if_not_P [OF 5]]
            show thesis
            proof (cases "e_kind e = OTHER_ADJUSTMENT")
              case True
              show thesis using k5 [unfolded if_P [OF True] bindE_Inr_iff] adjust [OF True]
                by (auto simp only: sum.inject)
            next
              case 6: False
              have "s' = s" using k5 [unfolded if_not_P [OF 6]] by simp
              then show thesis using none 2 3 4 5 6 by auto
            qed
          qed
        qed
      qed
    qed
  qed
qed

section \<open>What an accepted entry does to the cost basis\<close>

lemma expense_basis: "expense c s e = Inr s' \<Longrightarrow> lg_cost_basis s' = lg_cost_basis s"
  by (auto simp: expense_def Let_def bindE_Inr_iff if_distrib [of lg_cost_basis] dest!: move_cash_frame)

lemma charges_basis: "apply_charges c s e = Inr s' \<Longrightarrow> lg_cost_basis s' = lg_cost_basis s"
  by (auto simp: apply_charges_def Let_def bindE_Inr_iff if_distrib [of lg_cost_basis]
      dest!: move_cash_frame)

lemma movement_basis:
  "security_movement c u s e = Inr s' \<Longrightarrow> \<exists>r. movement_cost c u s e = Inr (lg_cost_basis s', r)"
  by (auto simp: security_movement_def movement_cash_def Let_def bindE_Inr_iff
      split: if_splits dest!: move_cash_frame)

definition action_basis ::
  "ctx \<Rightarrow> (string \<Rightarrow> string) \<Rightarrow> cost_basis \<Rightarrow> entry \<Rightarrow> cost_basis \<Rightarrow> bool" where
  "action_basis c u cb e cb' \<longleftrightarrow>
     (if e_kind e \<in> {SPLIT, REVERSE_SPLIT}
      then \<exists>r. meta_decimal c e ''ratio'' (e_quantity e) ''split ratio'' True False = Inr r \<and>
        split_lots c cb (instrument_or_empty e) r = Inr cb'
      else \<exists>child. meta_get (e_metadata e) ''child_instrument_id'' = VStr child \<and> child \<noteq> [] \<and>
        (if e_kind e = SPINOFF
         then \<exists>a. meta_decimal c e ''cost_allocation'' 0 ''cost allocation'' False True = Inr a \<and>
           spinoff c u cb e child a = Inr cb'
         else \<exists>r x a res.
           meta_decimal c e ''exchange_ratio'' 0 ''exchange ratio'' True False = Inr r \<and>
           meta_decimal c e ''cash_cost_allocation'' 0 ''cash cost allocation'' False True = Inr a \<and>
           merger c u cb e child r x a = Inr (res, cb')))"

lemma corporate_basis:
  assumes "corporate_action c u s e = Inr s'"
  shows "action_basis c u (lg_cost_basis s) e (lg_cost_basis s')"
proof (cases "e_kind e \<in> {SPLIT, REVERSE_SPLIT}")
  case True
  then show ?thesis using assms
    by (auto simp: corporate_action_def action_basis_def split_action_def Let_def bindE_Inr_iff)
next
  case False
  then obtain child t where c: "meta_get (e_metadata e) ''child_instrument_id'' = VStr child" "child \<noteq> []"
    and t: "(if e_kind e = SPINOFF then spinoff_action c u s e child else merger_action c u s e child) = Inr t"
    and s': "s' = roll_position c (instrument_or_empty e) (roll_position c child t)"
    using assms unfolding corporate_action_def Let_def
    by (auto simp: bindE_Inr_iff split: if_splits pyval.splits)
  show ?thesis
  proof (cases "e_kind e = SPINOFF")
    case True
    then show ?thesis using t c
      by (auto simp: action_basis_def s' spinoff_action_def bindE_Inr_iff)
  next
    case merger: False
    then show ?thesis using t c False
      by (auto simp: action_basis_def s' merger_action_def bindE_Inr_iff dest!: move_cash_frame) blast
  qed
qed

lemma cash_kind_basis:
  assumes "apply_kind c u s e = Inr t" "\<not> (e_kind e \<in> set SECURITY_MOVEMENTS \<and> has_instrument e)"
    "e_kind e \<notin> {SPLIT, REVERSE_SPLIT, SPINOFF, MERGER}"
  shows "lg_cost_basis t = lg_cost_basis s"
  using assms by (cases rule: apply_kind_cases) (auto dest!: move_cash_frame)

lemma apply_entry_basis:
  assumes "apply_entry c u s e = Inr s'"
  shows "if e_kind e \<in> set SECURITY_MOVEMENTS \<and> has_instrument e
    then \<exists>r. movement_cost c u s e = Inr (lg_cost_basis s', r)
    else if e_kind e \<in> {SPLIT, REVERSE_SPLIT, SPINOFF, MERGER}
    then action_basis c u (lg_cost_basis s) e (lg_cost_basis s')
    else lg_cost_basis s' = lg_cost_basis s"
proof (cases "e_kind e \<in> {COMMISSION, FEE, TAX}")
  case True
  then show ?thesis using assms expense_basis [of c s e]
    by (auto simp: apply_entry_def bindE_Inr_iff SECURITY_MOVEMENTS_def)
next
  case False
  then obtain t w where t: "apply_kind c u s e = Inr t" and w: "apply_charges c t e = Inr w"
    and s': "s' = w\<lparr>lg_last_date := Some (e_day e)\<rparr>"
    using assms by (auto simp: apply_entry_def bindE_Inr_iff)
  have b: "lg_cost_basis s' = lg_cost_basis t" using charges_basis [OF w] by (simp add: s')
  show ?thesis unfolding b
  proof (cases "e_kind e \<in> set SECURITY_MOVEMENTS \<and> has_instrument e")
    case True
    then have "security_movement c u s e = Inr t" using t by (simp add: apply_kind_def Let_def)
    then show "if e_kind e \<in> set SECURITY_MOVEMENTS \<and> has_instrument e
      then \<exists>r. movement_cost c u s e = Inr (lg_cost_basis t, r)
      else if e_kind e \<in> {SPLIT, REVERSE_SPLIT, SPINOFF, MERGER}
      then action_basis c u (lg_cost_basis s) e (lg_cost_basis t)
      else lg_cost_basis t = lg_cost_basis s"
      using True movement_basis by auto
  next
    case False
    have "if e_kind e \<in> {SPLIT, REVERSE_SPLIT, SPINOFF, MERGER}
      then action_basis c u (lg_cost_basis s) e (lg_cost_basis t)
      else lg_cost_basis t = lg_cost_basis s"
    proof (cases "e_kind e \<in> {SPLIT, REVERSE_SPLIT, SPINOFF, MERGER}")
      case True
      then have "corporate_action c u s e = Inr t"
        using t False by (auto simp: apply_kind_def Let_def)
      then show ?thesis using True corporate_basis by auto
    next
      case other: False
      have "lg_cost_basis t = lg_cost_basis s" by (rule cash_kind_basis [OF t False other])
      then show ?thesis using other by simp
    qed
    then show "if e_kind e \<in> set SECURITY_MOVEMENTS \<and> has_instrument e
      then \<exists>r. movement_cost c u s e = Inr (lg_cost_basis t, r)
      else if e_kind e \<in> {SPLIT, REVERSE_SPLIT, SPINOFF, MERGER}
      then action_basis c u (lg_cost_basis s) e (lg_cost_basis t)
      else lg_cost_basis t = lg_cost_basis s"
      using False by (simp only: if_False)
  qed
qed

section \<open>Properties\<close>

text \<open>C2: however a book was replayed and advanced to a valuation date in the default 28-digit
  context, the running cash of every currency is exactly the economic balance the cash service
  computes from its movements at that date, the base-currency book value of cash is the sum of
  the movements at their own rates, and external flows are the sum of the flow events, none of
  them after the valuation date.\<close>

theorem replayed_cash_reconciles:
  assumes "replay (prec 28) u (new_ledger p) es = Inr s" "advance s d = Inr s'"
  shows "(\<forall>cur. dict_get (lg_cash s') cur 0 =
      cc_economic (balance (prec 28) (lg_movements s') cur d None)) \<and>
    lg_cash_book_base s' =
      dsum (prec 28) (map (\<lambda>m. dmul (prec 28) (mv_amount m) (mv_fx m)) (lg_movements s')) \<and>
    lg_external_flows s' = dsum (prec 28) (map snd (lg_flow_events s')) \<and>
    sorted (map mv_trade_date (lg_movements s') @ [d]) \<and>
    sorted (map fst (lg_flow_events s') @ [d])"
proof -
  have b: "books (prec 28) s" by (rule replay_books [OF new_ledger_books assms(1)])
  have "book_inv (prec 28) d s'"
    using advance_books [OF b assms(2)] assms(2)
    by (auto simp: books_def advance_def split: if_splits)
  then show ?thesis using books_reconcile(1) [OF b assms(2)] by (simp add: book_inv_def)
qed

definition sample_book :: "entry list" where
  "sample_book =
     [(new_entry ''D'' 1 DEPOSIT ''USD'')\<lparr>e_amount := 1000\<rparr>,
      (new_entry ''B'' 2 BUY ''USD'')
        \<lparr>e_quantity := 4, e_price := 100, e_instrument_id := Some ''X'', e_settle_date := Some 4\<rparr>]"

text \<open>A deposit of 1000 and a purchase of 400 that settles later leave 600.\<close>

theorem replayed_cash_reconciles_witness:
  "case bindE (replay (prec 28) (\<lambda>t. t) (new_ledger default_policy) sample_book) (\<lambda>s. advance s 3) of
     Inl _ \<Rightarrow> False
   | Inr s' \<Rightarrow> cc_economic (balance (prec 28) (lg_movements s') ''USD'' 3 None) = 600"
proof -
  have r: "case replay (prec 28) (\<lambda>t. t) (new_ledger default_policy) sample_book of Inl _ \<Rightarrow> False
     | Inr s \<Rightarrow> dict_get (lg_cash s) ''USD'' 0 = 600 \<and> lg_last_date s = Some 2"
    by code_simp
  then obtain s where s: "replay (prec 28) (\<lambda>t. t) (new_ledger default_policy) sample_book = Inr s"
      "dict_get (lg_cash s) ''USD'' 0 = 600" "lg_last_date s = Some 2"
    by (auto split: sum.splits)
  then have a: "advance s 3 = Inr (s\<lparr>lg_last_date := Some 3\<rparr>)" by (simp add: advance_def)
  show ?thesis
    using replayed_cash_reconciles [OF s(1) a] s by (simp add: a)
qed

text \<open>C3: in the default context, after any accepted replay, each position is the signed sum of
  its open lots in quantity, native cost and base cost, all open lots of an instrument have the
  same side and the same contract multiplier, and every open lot has a positive quantity.\<close>

theorem positions_are_their_lots:
  assumes "replay (prec 28) u (new_ledger p) es = Inr s"
  shows "let open_lots = lots_for (lg_cost_basis s) i;
             total = (\<lambda>f. dsum (prec 28)
               (map (\<lambda>l. signed (prec 28) (ol_direction l) (f l)) open_lots))
    in ps_quantity (get_position s i) = total ol_quantity \<and>
       ps_cost_native (get_position s i) = total ol_native_basis \<and>
       ps_cost_base (get_position s i) = total ol_base_basis \<and>
       (\<exists>d m. \<forall>l \<in> set open_lots. ol_direction l = d \<and> ol_multiplier l = m \<and> 0 < ol_quantity l)"
  using replay_lots [OF new_ledger_lots assms] lots_for_pos [of _ "lg_cost_basis s" i]
  by (simp add: Let_def lots_inv_def rolled_def position_rolled_def homogeneous_def)

text \<open>The purchase of four shares.\<close>

theorem positions_are_their_lots_witness:
  "case replay (prec 28) (\<lambda>t. t) (new_ledger default_policy) sample_book of
     Inl _ \<Rightarrow> False
   | Inr s \<Rightarrow> ps_quantity (get_position s ''X'') = 4"
proof -
  have "case replay (prec 28) (\<lambda>t. t) (new_ledger default_policy) sample_book of Inl _ \<Rightarrow> False
     | Inr s \<Rightarrow> map (\<lambda>l. signed (prec 28) (ol_direction l) (ol_quantity l))
          (lots_for (lg_cost_basis s) ''X'') = [4]"
    by code_simp
  then obtain s where s: "replay (prec 28) (\<lambda>t. t) (new_ledger default_policy) sample_book = Inr s"
      "map (\<lambda>l. signed (prec 28) (ol_direction l) (ol_quantity l))
         (lots_for (lg_cost_basis s) ''X'') = [4]"
    by (auto split: sum.splits)
  show ?thesis
    using positions_are_their_lots [OF s(1), of "''X''"] s
    by (simp add: Let_def dsum_def dadd_def prec_numeral)
qed

text \<open>A replay in the default context succeeds only on entries in date order that all pass
  validation, and the ledger then stands at the date of the last one.\<close>

theorem replay_in_order:
  assumes "replay (prec 28) u (new_ledger p) es = Inr s"
  shows "sorted (map e_day es) \<and> (\<forall>e \<in> set es. valid_entry (prec 28) e) \<and>
    lg_last_date s = (if es = [] then None else Some (e_day (last es)))"
  by (rule replay_dates [OF assms])

text \<open>The sample book ends on day 2.\<close>

theorem replay_in_order_witness:
  "case replay (prec 28) (\<lambda>t. t) (new_ledger default_policy) sample_book of
     Inl _ \<Rightarrow> False | Inr s \<Rightarrow> lg_last_date s = Some 2"
proof -
  have "\<not> isl (replay (prec 28) (\<lambda>t. t) (new_ledger default_policy) sample_book)" by code_simp
  then obtain s where s: "replay (prec 28) (\<lambda>t. t) (new_ledger default_policy) sample_book = Inr s"
    by (cases "replay (prec 28) (\<lambda>t. t) (new_ledger default_policy) sample_book") auto
  show ?thesis
    unfolding s using replay_in_order [OF s] by (simp add: sample_book_def new_entry_def)
qed

end
