(* ===== verification/Rounding_Drift.thy ===== *)
theory Rounding_Drift
  imports Ledger_Facts
begin

text \<open>
  What the 28-digit context does to an average-cost position: the allocation of a sale over
  several lots leaves rounded quantities behind, and their sum can fall below the quantity still
  held, so that the sale of the remaining holding is refused. The trades are replayed through the
  ledger, from an empty one; in ideal arithmetic the same trades go through.
\<close>

section \<open>Evaluating one rounding\<close>

lemma adjusted_eqI:
  assumes "pow10 k \<le> \<bar>x\<bar>" "\<bar>x\<bar> < pow10 (k + 1)"
  shows "adjusted x = k"
proof -
  have "x \<noteq> 0" using assms(1) pow10_pos [of k] by (auto simp del: pow10_pos)
  then have "pow10 (adjusted x) < pow10 (k + 1)" "pow10 k < pow10 (1 + adjusted x)"
    using adjusted_bounds [of x] assms by linarith+
  then show ?thesis by simp
qed

lemma prec_eqI:
  assumes "pow10 k \<le> \<bar>x\<bar>" "\<bar>x\<bar> < pow10 (k + 1)" "half_even (x / pow10 (k - int p + 1)) = m"
  shows "prec p x = of_int m * pow10 (k - int p + 1)"
proof -
  have "x \<noteq> 0" using assms(1) pow10_pos [of k] by (auto simp del: pow10_pos)
  then show ?thesis using adjusted_eqI [OF assms(1,2)] assms(3) by (simp add: prec_def round_at_def)
qed

lemma half_even_nearest:
  assumes "\<bar>r - of_int m\<bar> < 1 / 2"
  shows "half_even r = m"
proof -
  have "\<bar>of_int (half_even r) - r\<bar> \<le> 1 / 2" by (rule half_even_error)
  then have "\<bar>of_int (half_even r) - of_int m :: rat\<bar> < 1" using assms by linarith
  then have "\<bar>half_even r - m\<bar> < 1" by (metis of_int_1 of_int_abs of_int_diff of_int_less_iff)
  then show ?thesis by linarith
qed

lemma prec_one: "prec 28 1 = 1"
  using prec_of_int [of 1 28] by simp

lemma prec28_unit:
  assumes "1 / 10 \<le> x" "x < 1" "\<bar>x * 10 ^ 28 - of_int m\<bar> < 1 / 2"
  shows "prec 28 x = of_int m / 10 ^ 28"
  using prec_eqI [of "- 1" x 28 m] half_even_nearest [of "x * 10 ^ 28" m] assms
  by (simp add: pow10_def)

lemma prec28_ten:
  assumes "1 \<le> x" "x < 10" "\<bar>x * 10 ^ 27 - of_int m\<bar> < 1 / 2"
  shows "prec 28 x = of_int m / 10 ^ 27"
  using prec_eqI [of 0 x 28 m] half_even_nearest [of "x * 10 ^ 27" m] assms
  by (simp add: pow10_def)

text \<open>The roundings the two sales meet, as fractions in lowest terms.\<close>

lemma share_1:
  "prec 28 (6 / 7) =
     8571428571428571428571428571 / 10000000000000000000000000000"
  using prec28_unit [of "6 / 7"
    "8571428571428571428571428571"] by simp

lemma share_2:
  "prec 28 (51428571428571428571428571429 / 10000000000000000000000000000) =
     5142857142857142857142857143 / 1000000000000000000000000000"
  using prec28_ten [of "51428571428571428571428571429 / 10000000000000000000000000000"
    "5142857142857142857142857143"] by simp

lemma left_1:
  "prec 28 (1428571428571428571428571429 / 10000000000000000000000000000) =
     1428571428571428571428571429 / 10000000000000000000000000000"
  using prec28_unit [of "1428571428571428571428571429 / 10000000000000000000000000000"
    "1428571428571428571428571429"] by simp

lemma left_2:
  "prec 28 (857142857142857142857142857 / 1000000000000000000000000000) =
     857142857142857142857142857 / 1000000000000000000000000000"
  using prec28_unit [of "857142857142857142857142857 / 1000000000000000000000000000"
    "8571428571428571428571428570"] by simp

lemma left_total:
  "prec 28 (9999999999999999999999999999 / 10000000000000000000000000000) =
     9999999999999999999999999999 / 10000000000000000000000000000"
  using prec28_unit [of "9999999999999999999999999999 / 10000000000000000000000000000"
    "9999999999999999999999999999"] by simp

section \<open>One trade in the ledger\<close>

definition trade :: "string \<Rightarrow> date \<Rightarrow> txn_kind \<Rightarrow> rat \<Rightarrow> rat \<Rightarrow> entry" where
  "trade n d k q p = (new_entry n d k ''USD'')
     \<lparr>e_quantity := q, e_price := p, e_instrument_id := Some ''X''\<rparr>"

lemma trade_simps [simp]:
  "e_quantity (trade n d k q p) = q" "e_price (trade n d k q p) = p" "e_fx (trade n d k q p) = 1"
  "e_amount (trade n d k q p) = 0" "e_fee (trade n d k q p) = 0" "e_commission (trade n d k q p) = 0"
  "e_tax (trade n d k q p) = 0" "e_multiplier (trade n d k q p) = 1" "e_kind (trade n d k q p) = k"
  "e_instrument_id (trade n d k q p) = Some ''X''" "e_id (trade n d k q p) = n"
  "e_currency (trade n d k q p) = ''USD''" "e_day (trade n d k q p) = d"
  "settlement (trade n d k q p) = d" "has_instrument (trade n d k q p)"
  "instrument_or_empty (trade n d k q p) = ''X''"
  by (simp_all add: trade_def new_entry_def settlement_def has_instrument_def instrument_or_empty_def)

text \<open>A price the ledger takes.\<close>

definition listed_price :: "rat \<Rightarrow> bool" where
  "listed_price p \<longleftrightarrow> 0 < p \<and> p \<le> MAX_AMOUNT"

lemma trade_valid:
  assumes "n \<noteq> []" "q \<in> {1, 6}" "k \<in> {BUY, SELL}" "listed_price p" "c \<in> {prec 28, exact}"
  shows "valid_entry c (trade n d k q p)"
proof -
  have "prec 28 p \<le> prec 28 MAX_AMOUNT" using assms(4) by (intro prec_mono) (simp_all add: listed_price_def)
  then have "prec 28 p \<le> MAX_AMOUNT" by (simp add: MAX_AMOUNT_def prec_numeral)
  moreover have "valid_currency ''USD''" by code_simp
  moreover have "supported_kind k" using assms(3) by auto
  ultimately show ?thesis using assms
    by (auto simp: valid_entry_def bounded_amount_def MAX_AMOUNT_def dec_simps listed_price_def
        prec_numeral prec_one exact_def)
qed

lemma trade_movement:
  assumes "valid_entry c (trade n d k q p)" "0 < q" "0 < p"
  shows "require_movement c (trade n d k q p) = Inr ''X''"
  using assms by (simp add: require_movement_Inr)

lemma trade_validated:
  assumes "valid_entry c (trade n d k q p)" "k \<in> {BUY, SELL}"
    "\<forall>x. lg_last_date s = Some x \<longrightarrow> x \<le> d"
  shows "ledger_validate c s (trade n d k q p) = Inr ()"
  using assms by (auto simp: ledger_validate_def result_simps split: option.splits)

text \<open>The ledger accepts a trade when its cost basis does, and refuses it as its cost basis does.\<close>

lemma trade_accepted:
  assumes "valid_entry c (trade n d k q p)" "k \<in> {BUY, SELL}"
    "\<forall>x. lg_last_date s = Some x \<longrightarrow> x \<le> d" "decimal_ctx c"
    "movement_cost c u s (trade n d k q p) = Inr (cb, r)"
  shows "\<exists>s'. apply_entry c u s (trade n d k q p) = Inr s' \<and> lg_cost_basis s' = cb \<and>
    lg_last_date s' = Some d"
proof -
  let ?e = "trade n d k q p"
  let ?s = "modify_position ''X'' (\<lambda>p. p\<lparr>ps_realised := dadd c (ps_realised p) r\<rparr>)
    (roll_position c ''X'' (s\<lparr>lg_cost_basis := cb\<rparr>))"
  have "k \<noteq> TRANSFER_IN" "k \<noteq> TRANSFER_OUT" using assms(2) by auto
  then have "\<exists>s1. movement_cash c ?s ?e = Inr s1 \<and> lg_cost_basis s1 = cb"
    by (simp add: movement_cash_def Let_def move_cash_def record_movement_def)
  then obtain s1 where m: "movement_cash c ?s ?e = Inr s1" and cb: "lg_cost_basis s1 = cb" by blast
  have "security_movement c u s ?e = Inr s1"
    using assms(5) m by (simp add: security_movement_def Let_def)
  then have k: "apply_kind c u s ?e = Inr s1"
    using assms(2) by (auto simp: apply_kind_def SECURITY_MOVEMENTS_def)
  have zero: "charges c ?e = 0" "dneg c 0 = 0"
    using assms(4) by (simp_all add: charges_def dec_simps decimal_ctx.zero)
  show ?thesis
    using trade_validated [OF assms(1-3)] assms(2) k cb
    by (auto simp: apply_entry_def apply_charges_def zero move_cash_def Let_def)
qed

lemma trade_refused:
  assumes "valid_entry c (trade n d k q p)" "k \<in> {BUY, SELL}"
    "\<forall>x. lg_last_date s = Some x \<longrightarrow> x \<le> d" "movement_cost c u s (trade n d k q p) = Inl x"
  shows "apply_entry c u s (trade n d k q p) = Inl x"
  using trade_validated [OF assms(1-3)] assms(2,4)
  by (auto simp: apply_entry_def apply_kind_def SECURITY_MOVEMENTS_def security_movement_def)

section \<open>Two purchases\<close>

definition bought :: "ctx \<Rightarrow> (string \<Rightarrow> string) \<Rightarrow> nat \<Rightarrow> string \<Rightarrow> date \<Rightarrow> rat \<Rightarrow> rat \<Rightarrow> open_lot" where
  "bought c u k n d q p =
     (let e = trade n d BUY q p; basis = dadd c (gross c e) (capitalized c default_policy e)
      in \<lparr>ol_id = u (''knk-lot:'' @ n @ '':X:'' @ nat_str k), ol_instrument_id = ''X'', ol_entry_id = n,
          ol_opened = d, ol_direction = LONG, ol_quantity = q, ol_native_basis = basis,
          ol_base_basis = dmul c basis 1, ol_multiplier = 1\<rparr>)"

lemma bought_simps [simp]:
  "ol_opened (bought c u k n d q p) = d" "ol_direction (bought c u k n d q p) = LONG"
  "ol_quantity (bought c u k n d q p) = q" "ol_multiplier (bought c u k n d q p) = 1"
  by (simp_all add: bought_def Let_def)

lemma two_lots:
  assumes "stored_lots cb ''X'' = [a, b]" "ol_opened a \<le> ol_opened b" "0 < ol_quantity a"
    "0 < ol_quantity b"
  shows "lots_for cb ''X'' = [a, b]"
  using assms by (simp add: lots_for_def lot_order_def upt_rec)

lemma purchase:
  assumes "valid_entry c (trade n d BUY q p)" "0 < q" "0 < p" "decimal_ctx c" "lg_cost_basis s = cb"
    "\<forall>x. lg_last_date s = Some x \<longrightarrow> x \<le> d" "cb_policy cb = default_policy"
    "\<forall>l \<in> set (lots_for cb ''X''). ol_direction l = LONG \<and> ol_multiplier l = 1"
  shows "\<exists>s'. apply_entry c u s (trade n d BUY q p) = Inr s' \<and> lg_last_date s' = Some d \<and>
    cb_policy (lg_cost_basis s') = default_policy \<and>
    stored_lots (lg_cost_basis s') ''X'' =
      stored_lots cb ''X'' @ [bought c u (length (stored_lots cb ''X'')) n d q p]"
proof -
  let ?l = "bought c u (length (stored_lots cb ''X'')) n d q p"
  let ?cb = "store_lots ''X'' (stored_lots cb ''X'' @ [?l]) cb"
  have "?l = opened_lot c u cb (trade n d BUY q p) LONG ''X''"
    by (simp add: bought_def opened_lot_def assms(7) Let_def)
  then have "open_position c u cb (trade n d BUY q p) LONG = Inr (?l, ?cb)"
    unfolding open_position_Inr using trade_movement [OF assms(1-3)] assms(8) by auto
  then have "movement_cost c u s (trade n d BUY q p) = Inr (?cb, 0)"
    by (simp add: movement_cost_def assms(5))
  from trade_accepted [OF assms(1) _ assms(6,4) this] show ?thesis
    using assms(7) by (auto simp: store_lots_def stored_lots_def dict_get_def update_conv)
qed

text \<open>The ledger after buying one share on day one and six on day two.\<close>

lemma two_purchases:
  assumes "listed_price p" "listed_price p'" "c \<in> {prec 28, exact}"
  shows "\<exists>s. replay c u (new_ledger default_policy) [trade ''a'' 1 BUY 1 p, trade ''b'' 2 BUY 6 p'] = Inr s \<and>
    lg_last_date s = Some 2 \<and> cb_policy (lg_cost_basis s) = default_policy \<and>
    stored_lots (lg_cost_basis s) ''X'' = [bought c u 0 ''a'' 1 1 p, bought c u 1 ''b'' 2 6 p']"
proof -
  have ctx: "decimal_ctx c" using assms(3) d28.decimal_ctx_axioms ideal.decimal_ctx_axioms by auto
  have none: "stored_lots (lg_cost_basis (new_ledger default_policy)) ''X'' = []"
    "lg_last_date (new_ledger default_policy) = None"
    "cb_policy (lg_cost_basis (new_ledger default_policy)) = default_policy"
    by (simp_all add: new_ledger_def new_cost_basis_def stored_lots_def dict_get_def)
  obtain s1 where s1: "apply_entry c u (new_ledger default_policy) (trade ''a'' 1 BUY 1 p) = Inr s1"
    "lg_last_date s1 = Some 1" "cb_policy (lg_cost_basis s1) = default_policy"
    "stored_lots (lg_cost_basis s1) ''X'' = [bought c u 0 ''a'' 1 1 p]"
    using purchase [OF trade_valid _ _ ctx refl, of "''a''" 1 p "new_ledger default_policy" 1 u] assms none
    by (auto simp: listed_price_def lots_for_def lot_order_def)
  have "\<forall>l \<in> set (lots_for (lg_cost_basis s1) ''X''). ol_direction l = LONG \<and> ol_multiplier l = 1"
    by (simp add: lots_for_def s1(4) lot_order_def)
  then obtain s2 where "apply_entry c u s1 (trade ''b'' 2 BUY 6 p') = Inr s2" "lg_last_date s2 = Some 2"
    "cb_policy (lg_cost_basis s2) = default_policy"
    "stored_lots (lg_cost_basis s2) ''X'' = [bought c u 0 ''a'' 1 1 p, bought c u 1 ''b'' 2 6 p']"
    using purchase [OF trade_valid _ _ ctx refl, of "''b''" 6 p' s1 2 u] assms s1
    by (auto simp: listed_price_def)
  with s1(1) show ?thesis by (simp add: replay_def)
qed

section \<open>Two sales\<close>

lemma sale_matches:
  "ol_quantity a = 1 \<Longrightarrow> ol_quantity b = 6 \<Longrightarrow> matched_quantities (prec 28) default_policy [a, b] 6 =
     Inr [8571428571428571428571428571 / 10000000000000000000000000000,
       5142857142857142857142857143 / 1000000000000000000000000000]"
  "ol_quantity a = 1 \<Longrightarrow> ol_quantity b = 6 \<Longrightarrow> matched_quantities exact default_policy [a, b] 6 =
     Inr [6 / 7, 36 / 7]"
  by (simp_all add: matched_quantities_def default_policy_def allocate_def dec_simps dsum_def
      prec_numeral prec_one upt_rec Let_def share_1 share_2 exact_def)

lemma allocate_two:
  "0 < x \<Longrightarrow> 0 < y \<Longrightarrow> 0 < dsum c [x, y] \<Longrightarrow> \<exists>n m. allocate c t [x, y] = Inr [n, m]"
  by (simp add: allocate_Inr positive_at_def upt_rec)

lemma closing_exists:
  assumes "require_movement c e = Inr i" "lots_for s i = [a, b]" "stored_lots s i = [a, b]"
    "ol_direction a = d" "ol_direction b = d" "ol_multiplier a = e_multiplier e"
    "ol_multiplier b = e_multiplier e"
    "ol_opened a \<le> ol_opened b" "0 < ol_quantity a" "0 < ol_quantity b"
    "e_quantity e \<le> dsum c [ol_quantity a, ol_quantity b]"
    "matched_quantities c (cb_policy s) [a, b] (e_quantity e) = Inr [x, y]"
    "0 < x" "0 < y" "0 < dsum c [x, y]"
  shows "\<exists>ms s' a' b'. close_position c s e d = Inr (ms, s') \<and> stored_lots s' i = [a', b'] \<and>
    ol_quantity a' = dsub c (ol_quantity a) x \<and> ol_quantity b' = dsub c (ol_quantity b) y \<and>
    ol_opened a' = ol_opened a \<and> ol_opened b' = ol_opened b \<and>
    ol_direction a' = d \<and> ol_direction b' = d \<and>
    ol_multiplier a' = e_multiplier e \<and> ol_multiplier b' = e_multiplier e"
proof -
  obtain n1 n2 where n: "allocate c (closing_proceeds c s e d) [x, y] = Inr [n1, n2]"
    using allocate_two [OF assms(13-15)] by blast
  obtain b1 b2 where b: "allocate c (dmul c (closing_proceeds c s e d) (e_fx e)) [x, y] = Inr [b1, b2]"
    using allocate_two [OF assms(13-15)] by blast
  let ?st = "closing_steps c s e d i [x, y] [n1, n2] [b1, b2]"
  have st: "map fst ?st = [fst (close_lot c e i d a (x, n1, b1)), fst (close_lot c e i d b (y, n2, b2))]"
    using assms(2) by (simp add: closing_steps_def)
  have "close_position c s e d = Inr (List.map_filter snd ?st,
      (update_lots i (map fst ?st) s)\<lparr>cb_matches := cb_matches s @ List.map_filter snd ?st\<rparr>)"
    unfolding close_position_Inr using assms n b by auto
  moreover have "lot_order [a, b] = [0, 1]" using assms(8-10) by (simp add: lot_order_def upt_rec)
  then have "stored_lots (update_lots i (map fst ?st) s) i = map fst ?st"
    using assms(3) by (simp add: stored_update_lots st)
  ultimately show ?thesis using assms(4-7,13,14)
    by (simp add: st close_lot_def Let_def)
qed

lemma sale:
  assumes "valid_entry c (trade n d SELL q p)" "0 < q" "0 < p" "decimal_ctx c"
    "\<forall>x. lg_last_date s = Some x \<longrightarrow> x \<le> d" "cb_policy (lg_cost_basis s) = default_policy"
    "stored_lots (lg_cost_basis s) ''X'' = [a, b]"
    "ol_direction a = LONG" "ol_direction b = LONG" "ol_multiplier a = 1" "ol_multiplier b = 1"
    "ol_opened a \<le> ol_opened b" "0 < ol_quantity a" "0 < ol_quantity b"
    "q \<le> dsum c [ol_quantity a, ol_quantity b]"
    "matched_quantities c default_policy [a, b] q = Inr [x, y]"
    "0 < x" "0 < y" "0 < dsum c [x, y]"
  shows "\<exists>s' a' b'. apply_entry c u s (trade n d SELL q p) = Inr s' \<and> lg_last_date s' = Some d \<and>
    cb_policy (lg_cost_basis s') = default_policy \<and> stored_lots (lg_cost_basis s') ''X'' = [a', b'] \<and>
    ol_quantity a' = dsub c (ol_quantity a) x \<and> ol_quantity b' = dsub c (ol_quantity b) y \<and>
    ol_opened a' = ol_opened a \<and> ol_opened b' = ol_opened b \<and>
    ol_direction a' = LONG \<and> ol_direction b' = LONG \<and> ol_multiplier a' = 1 \<and> ol_multiplier b' = 1"
proof -
  note lf = two_lots [OF assms(7,12-14)]
  obtain ms cb a' b' where cb: "close_position c (lg_cost_basis s) (trade n d SELL q p) LONG = Inr (ms, cb)"
    "stored_lots cb ''X'' = [a', b']" "ol_quantity a' = dsub c (ol_quantity a) x"
    "ol_quantity b' = dsub c (ol_quantity b) y" "ol_opened a' = ol_opened a" "ol_opened b' = ol_opened b"
    "ol_direction a' = LONG" "ol_direction b' = LONG" "ol_multiplier a' = 1" "ol_multiplier b' = 1"
    using closing_exists [OF trade_movement [OF assms(1-3)] lf assms(7,8,9), of x y] assms(6,10-19)
    by auto
  then have "movement_cost c u s (trade n d SELL q p) = Inr (cb, dsum c (map lm_realised_base ms))"
    by (simp add: movement_cost_def)
  from trade_accepted [OF assms(1) _ assms(5,4) this] cb close_position_frame(1) [OF cb(1)] assms(6)
  show ?thesis by auto
qed

lemma prec28_not_exact: "prec 28 \<noteq> exact"
proof
  assume "prec 28 = exact"
  then have "prec 28 (6 / 7) = 6 / 7" by (simp add: exact_def)
  then show False by (simp add: share_1)
qed

text \<open>Six shares are sold in either arithmetic; the rounded quantities left add up to less than one.\<close>

lemma first_sale:
  assumes "listed_price p" "listed_price p'" "listed_price p''" "c \<in> {prec 28, exact}"
  shows "\<exists>s a b. replay c u (new_ledger default_policy)
      [trade ''a'' 1 BUY 1 p, trade ''b'' 2 BUY 6 p', trade ''c'' 3 SELL 6 p''] = Inr s \<and>
    lg_last_date s = Some 3 \<and> cb_policy (lg_cost_basis s) = default_policy \<and>
    stored_lots (lg_cost_basis s) ''X'' = [a, b] \<and> ol_opened a \<le> ol_opened b \<and>
    ol_direction a = LONG \<and> ol_direction b = LONG \<and> ol_multiplier a = 1 \<and> ol_multiplier b = 1 \<and>
    (if c = exact then ol_quantity a = 1 / 7 \<and> ol_quantity b = 6 / 7
     else ol_quantity a = 1428571428571428571428571429 / 10000000000000000000000000000 \<and>
       ol_quantity b = 857142857142857142857142857 / 1000000000000000000000000000)"
proof -
  have ctx: "decimal_ctx c" using assms(4) d28.decimal_ctx_axioms ideal.decimal_ctx_axioms by auto
  obtain s where s: "replay c u (new_ledger default_policy) [trade ''a'' 1 BUY 1 p, trade ''b'' 2 BUY 6 p'] = Inr s"
    "lg_last_date s = Some 2" "cb_policy (lg_cost_basis s) = default_policy"
    "stored_lots (lg_cost_basis s) ''X'' = [bought c u 0 ''a'' 1 1 p, bought c u 1 ''b'' 2 6 p']"
    using two_purchases [OF assms(1,2,4)] by blast
  note run = sale [OF trade_valid _ _ ctx _ s(3,4), of "''c''" 6 p'' 3]
  have pos: "0 < p''" using assms(3) by (simp add: listed_price_def)
  have "\<exists>s' a' b'. apply_entry c u s (trade ''c'' 3 SELL 6 p'') = Inr s' \<and> lg_last_date s' = Some 3 \<and>
    cb_policy (lg_cost_basis s') = default_policy \<and> stored_lots (lg_cost_basis s') ''X'' = [a', b'] \<and>
    ol_opened a' \<le> ol_opened b' \<and> ol_direction a' = LONG \<and> ol_direction b' = LONG \<and>
    ol_multiplier a' = 1 \<and> ol_multiplier b' = 1 \<and>
    (if c = exact then ol_quantity a' = 1 / 7 \<and> ol_quantity b' = 6 / 7
     else ol_quantity a' = 1428571428571428571428571429 / 10000000000000000000000000000 \<and>
       ol_quantity b' = 857142857142857142857142857 / 1000000000000000000000000000)"
  proof (cases "c = exact")
    case True
    then show ?thesis
      using run [OF _ _ _ assms(3,4) _ pos, where x = "6 / 7" and y = "36 / 7" and u = u] s(2)
      by (fastforce simp: sale_matches)
  next
    case False
    then have c: "c = prec 28" using assms(4) by simp
    have "0 < dsum (prec 28) [8571428571428571428571428571 / 10000000000000000000000000000,
        5142857142857142857142857143 / 1000000000000000000000000000]"
      by (auto simp: dsum_def dec_simps intro!: prec_pos add_pos_pos)
    then show ?thesis
      using run [OF _ _ _ assms(3,4) _ pos, where u = u and
          x = "8571428571428571428571428571 / 10000000000000000000000000000" and
          y = "5142857142857142857142857143 / 1000000000000000000000000000"] s(2) prec28_not_exact
      by (auto simp: c sale_matches dsum_def dec_simps prec_numeral prec_one left_1 left_2
          intro!: prec_pos add_pos_pos)
  qed
  then obtain s' where s': "apply_entry c u s (trade ''c'' 3 SELL 6 p'') = Inr s'" and rest: "lg_last_date s' = Some 3 \<and>
    cb_policy (lg_cost_basis s') = default_policy \<and> (\<exists>a' b'. stored_lots (lg_cost_basis s') ''X'' = [a', b'] \<and>
    ol_opened a' \<le> ol_opened b' \<and> ol_direction a' = LONG \<and> ol_direction b' = LONG \<and>
    ol_multiplier a' = 1 \<and> ol_multiplier b' = 1 \<and>
    (if c = exact then ol_quantity a' = 1 / 7 \<and> ol_quantity b' = 6 / 7
     else ol_quantity a' = 1428571428571428571428571429 / 10000000000000000000000000000 \<and>
       ol_quantity b' = 857142857142857142857142857 / 1000000000000000000000000000))" by blast
  have "replay c u (new_ledger default_policy)
      [trade ''a'' 1 BUY 1 p, trade ''b'' 2 BUY 6 p', trade ''c'' 3 SELL 6 p''] = Inr s'"
    using s(1) s' by (auto simp: replay_def bindE_Inr_iff)
  with rest show ?thesis by blast
qed

section \<open>Properties\<close>

text \<open>The first three trades of the example.\<close>

definition three_trades :: "rat \<Rightarrow> rat \<Rightarrow> rat \<Rightarrow> entry list" where
  "three_trades p1 p2 p3 = [trade ''a'' 1 BUY 1 p1, trade ''b'' 2 BUY 6 p2, trade ''c'' 3 SELL 6 p3]"

text \<open>C8: rounding can strand part of a holding. From an empty ledger at average cost, with any
  lot identifiers and any four prices the ledger takes, buying 1 share, buying 6 and selling 6 is
  accepted, and the default 28-digit context then refuses the sale of the one remaining share as
  exceeding the holding. In ideal arithmetic all four trades are accepted.\<close>

theorem average_exit_refused:
  assumes "listed_price p1" "listed_price p2" "listed_price p3" "listed_price p4"
  shows "(\<exists>s. replay (prec 28) u (new_ledger default_policy) (three_trades p1 p2 p3) = Inr s) \<and>
    replay (prec 28) u (new_ledger default_policy) (three_trades p1 p2 p3 @ [trade ''d'' 4 SELL 1 p4]) =
      Inl (ValueError ''Sale or transfer exceeds holdings on the trade date'') \<and>
    (\<exists>s. replay exact u (new_ledger default_policy) (three_trades p1 p2 p3 @ [trade ''d'' 4 SELL 1 p4]) = Inr s)"
proof -
  let ?new = "new_ledger default_policy"
  let ?last = "trade ''d'' 4 SELL 1 p4"
  have pos: "0 < p4" using assms(4) by (simp add: listed_price_def)
  have snoc: "replay c u ?new (three_trades p1 p2 p3 @ [?last]) = bindE (replay c u ?new (three_trades p1 p2 p3)) (\<lambda>s. apply_entry c u s ?last)" for c
    unfolding replay_def foldE_append by (rule arg_cong [of _ _ "bindE _"]) (simp add: fun_eq_iff)
  obtain s a b where s: "replay (prec 28) u ?new (three_trades p1 p2 p3) = Inr s" "lg_last_date s = Some 3"
    and st: "stored_lots (lg_cost_basis s) ''X'' = [a, b]" "ol_opened a \<le> ol_opened b"
      "ol_direction a = LONG" "ol_direction b = LONG"
    and q: "ol_quantity a = 1428571428571428571428571429 / 10000000000000000000000000000"
      "ol_quantity b = 857142857142857142857142857 / 1000000000000000000000000000"
    using first_sale [OF assms(1-3), of "prec 28" u] prec28_not_exact unfolding three_trades_def by auto
  have valid: "valid_entry (prec 28) ?last" by (rule trade_valid) (simp_all add: assms(4))
  have lf: "lots_for (lg_cost_basis s) ''X'' = [a, b]" by (rule two_lots [OF st(1,2)]) (simp_all add: q)
  have "close_position (prec 28) (lg_cost_basis s) ?last LONG =
      Inl (ValueError ''Sale or transfer exceeds holdings on the trade date'')"
    unfolding close_position_def trade_movement [OF valid zero_less_one pos]
    using left_total by (simp add: lf st q Let_def dsum_def dadd_def left_1 ensure_def)
  then have "movement_cost (prec 28) u s ?last =
      Inl (ValueError ''Sale or transfer exceeds holdings on the trade date'')"
    by (simp add: movement_cost_def)
  from trade_refused [OF valid _ _ this] s(2)
  have "apply_entry (prec 28) u s ?last = Inl (ValueError ''Sale or transfer exceeds holdings on the trade date'')"
    by simp
  moreover obtain s' a' b' where s': "replay exact u ?new (three_trades p1 p2 p3) = Inr s'" "lg_last_date s' = Some 3"
      "cb_policy (lg_cost_basis s') = default_policy"
    and st': "stored_lots (lg_cost_basis s') ''X'' = [a', b']" "ol_opened a' \<le> ol_opened b'"
      "ol_direction a' = LONG" "ol_direction b' = LONG" "ol_multiplier a' = 1" "ol_multiplier b' = 1"
    and q': "ol_quantity a' = 1 / 7" "ol_quantity b' = 6 / 7"
    using first_sale [OF assms(1-3), of exact u] unfolding three_trades_def by auto
  have "valid_entry exact ?last" by (rule trade_valid) (simp_all add: assms(4))
  from sale [OF this zero_less_one pos ideal.decimal_ctx_axioms _ s'(3) st'(1,3-6,2), of "1 / 7" "6 / 7" u]
  have "\<exists>s. apply_entry exact u s' ?last = Inr s"
    using s'(2) q' by (auto simp: matched_quantities_def)
  ultimately show ?thesis using s(1) s'(1) by (simp add: snoc)
qed

theorem average_exit_refused_witness:
  "replay (prec 28) (\<lambda>s. s) (new_ledger default_policy)
     [trade ''a'' 1 BUY 1 100, trade ''b'' 2 BUY 6 110, trade ''c'' 3 SELL 6 120, trade ''d'' 4 SELL 1 130] =
   Inl (ValueError ''Sale or transfer exceeds holdings on the trade date'')"
  using average_exit_refused [of 100 110 120 130 "\<lambda>s. s"] by (simp add: listed_price_def MAX_AMOUNT_def three_trades_def)

end
