(* ===== verification/Ledger_Exact.thy ===== *)
theory Ledger_Exact
  imports Ledger_Facts "HOL-Library.Multiset"
begin

text \<open>
  The accounting identity of the replay in ideal arithmetic: the book value of cash plus the
  recorded cost of the open positions equals contributed capital plus realised P&L plus income
  less expensed fees and taxes plus adjustments. It is the identity \<open>portfolio_valuation.py\<close>
  checks as \<open>expected_nav\<close>; the replay cannot break it.
\<close>

section \<open>Totals over the positions\<close>

definition pos_total :: "(position \<Rightarrow> rat) \<Rightarrow> ledger \<Rightarrow> rat" where
  "pos_total f s = sum_list (map (\<lambda>kv. f (snd kv)) (lg_lots s))"

definition distinct_positions :: "ledger \<Rightarrow> bool" where
  "distinct_positions s \<longleftrightarrow> distinct (map fst (lg_lots s))"

lemma pos_total_modify:
  assumes "distinct_positions s" "f new_position = 0"
  shows "pos_total f (modify_position i g s) =
         pos_total f s - f (get_position s i) + f (g (get_position s i))"
  using sum_update [of "lg_lots s" f new_position i] assms
  by (simp add: pos_total_def modify_position_def put_position_def get_position_def
      distinct_positions_def)

lemma distinct_modify [simp]:
  "distinct_positions s \<Longrightarrow> distinct_positions (modify_position i g s)"
  by (simp add: distinct_positions_def modify_position_def put_position_def
      distinct_update_keys del: map_update)

lemma lots_frame:
  assumes "lg_lots s' = lg_lots s"
  shows "pos_total f s' = pos_total f s" "distinct_positions s' = distinct_positions s"
  using assms by (simp_all add: pos_total_def distinct_positions_def)

lemma pos_total_simps [simp]:
  "pos_total f (s\<lparr>lg_income := x\<rparr>) = pos_total f s" "pos_total f (s\<lparr>lg_fees := x\<rparr>) = pos_total f s"
  "pos_total f (s\<lparr>lg_taxes := x\<rparr>) = pos_total f s"
  "pos_total f (s\<lparr>lg_adjustments := x\<rparr>) = pos_total f s"
  "pos_total f (s\<lparr>lg_capitalized_charges := x\<rparr>) = pos_total f s"
  "pos_total f (s\<lparr>lg_cost_basis := cb\<rparr>) = pos_total f s"
  "pos_total f (s\<lparr>lg_last_date := l\<rparr>) = pos_total f s"
  "pos_total f (external c s e a) = pos_total f s"
  "pos_total f (moved c s cur a fx e d) = pos_total f s"
  "distinct_positions (s\<lparr>lg_income := x\<rparr>) = distinct_positions s"
  "distinct_positions (s\<lparr>lg_fees := x\<rparr>) = distinct_positions s"
  "distinct_positions (s\<lparr>lg_taxes := x\<rparr>) = distinct_positions s"
  "distinct_positions (s\<lparr>lg_adjustments := x\<rparr>) = distinct_positions s"
  "distinct_positions (s\<lparr>lg_capitalized_charges := x\<rparr>) = distinct_positions s"
  "distinct_positions (s\<lparr>lg_cost_basis := cb\<rparr>) = distinct_positions s"
  "distinct_positions (s\<lparr>lg_last_date := l\<rparr>) = distinct_positions s"
  "distinct_positions (external c s e a) = distinct_positions s"
  "distinct_positions (moved c s cur a fx e d) = distinct_positions s"
  by (simp_all add: pos_total_def distinct_positions_def)

lemma new_position_simps [simp]:
  "ps_realised new_position = 0" "ps_cost_base new_position = 0"
  by (simp_all add: new_position_def)

section \<open>The identity as a balance that every step keeps\<close>

definition book_gap :: "ledger \<Rightarrow> rat" where
  "book_gap s =
     lg_cash_book_base s + pos_total ps_cost_base s
     - (lg_external_flows s + pos_total ps_realised s + lg_income s
        - (lg_fees s - lg_capitalized_charges s) - lg_taxes s + lg_adjustments s)"

text \<open>Open lots have positive quantity; a lot that is used up has no basis left.\<close>

definition clean_lot :: "open_lot \<Rightarrow> bool" where
  "clean_lot l \<longleftrightarrow>
     0 < ol_quantity l \<or> ol_quantity l = 0 \<and> ol_native_basis l = 0 \<and> ol_base_basis l = 0"

definition clean :: "cost_basis \<Rightarrow> bool" where
  "clean cb \<longleftrightarrow> (\<forall>i. \<forall>l \<in> set (stored_lots cb i). clean_lot l)"

definition base_cost :: "cost_basis \<Rightarrow> string \<Rightarrow> rat" where
  "base_cost cb i =
     sum_list (map (\<lambda>l. signed exact (ol_direction l) (ol_base_basis l)) (lots_for cb i))"

lemma lots_for_mset: "mset (lots_for cb i) = mset (filter (\<lambda>l. 0 < ol_quantity l) (stored_lots cb i))"
proof -
  let ?xs = "stored_lots cb i"
  have "mset (lots_for cb i) =
      mset (map ((!) ?xs) (filter (\<lambda>i. 0 < ol_quantity (?xs ! i)) [0..<length ?xs]))"
    by (simp add: lots_for_def lot_order_def)
  also have "map ((!) ?xs) (filter (\<lambda>i. 0 < ol_quantity (?xs ! i)) [0..<length ?xs]) =
      filter (\<lambda>l. 0 < ol_quantity l) (map ((!) ?xs) [0..<length ?xs])"
    by (simp add: filter_map comp_def)
  finally show ?thesis by (simp add: map_nth)
qed

lemma lots_for_sum:
  "sum_list (map f (lots_for cb i)) =
   (sum_list (map f (filter (\<lambda>l. 0 < ol_quantity l) (stored_lots cb i))) :: rat)"
  unfolding sum_mset_sum_list [symmetric] mset_map lots_for_mset ..

lemma base_cost_stored:
  assumes "clean cb"
  shows "base_cost cb i =
    sum_list (map (\<lambda>l. signed exact (ol_direction l) (ol_base_basis l)) (stored_lots cb i))"
  unfolding base_cost_def lots_for_sum using assms
  by (intro sum_list_filter_zero) (auto simp: clean_def clean_lot_def signed_def)

lemma base_cost_directed:
  assumes "\<forall>l \<in> set (lots_for cb i). ol_direction l = d" "clean cb"
  shows "base_cost cb i = sign_of exact d * stored_total ol_base_basis cb i"
proof -
  have "base_cost cb i = sum_list (map (\<lambda>l. sign_of exact d * ol_base_basis l) (lots_for cb i))"
    unfolding base_cost_def using assms(1)
    by (intro arg_cong [where f = sum_list] map_cong) (auto simp: signed_def sign_of_def)
  also have "\<dots> = sign_of exact d * sum_list (map ol_base_basis (lots_for cb i))"
    by (simp add: sum_list_const_mult)
  also have "sum_list (map ol_base_basis (lots_for cb i)) = stored_total ol_base_basis cb i"
    unfolding lots_for_sum stored_total_def using assms(2)
    by (intro sum_list_filter_zero) (auto simp: clean_def clean_lot_def)
  finally show ?thesis .
qed

section \<open>The cost basis operations keep the lots clean\<close>

lemma clean_new: "clean (new_cost_basis p)"
  by (simp add: clean_def stored_lots_def new_cost_basis_def)

lemma clean_more [simp]: "clean (cb\<lparr>cb_matches := ms\<rparr>) = clean cb"
  by (simp add: clean_def)

lemma clean_append:
  "clean cb \<Longrightarrow> \<forall>l \<in> set new. clean_lot l \<Longrightarrow> clean (store_lots i (stored_lots cb i @ new) cb)"
  by (auto simp: clean_def lot_store.get_put)

lemma clean_update:
  assumes "clean cb" "length ys = length (lots_for cb i)" "\<forall>y \<in> set ys. clean_lot y"
  shows "clean (update_lots i ys cb)"
  unfolding clean_def
proof
  fix k
  show "\<forall>l \<in> set (stored_lots (update_lots i ys cb) k). clean_lot l"
    using assms update_lots_set [OF assms(2)]
    by (cases "k = i") (auto simp: clean_def stored_update_lots)
qed

lemma fifo_exact_le:
  "(\<forall>l \<in> set ls. 0 < ol_quantity l) \<Longrightarrow> 0 \<le> q \<Longrightarrow> k < length ls \<Longrightarrow>
   0 \<le> fifo_quantities exact q ls ! k \<and> fifo_quantities exact q ls ! k \<le> ol_quantity (ls ! k)"
proof (induction ls arbitrary: q k)
  case (Cons l ls)
  have "0 \<le> q - min q (ol_quantity l)" by simp
  then show ?case using Cons.prems Cons.IH [of "q - min q (ol_quantity l)" "k - 1"]
    by (cases k) (auto simp: Let_def intro: less_imp_le)
qed simp

lemma matched_exact_le:
  assumes "matched_quantities exact p ls q = Inr a" "\<forall>l \<in> set ls. 0 < ol_quantity l"
    "0 \<le> q" "q \<le> sum_list (map ol_quantity ls)" "k < length ls"
  shows "0 \<le> a ! k \<and> a ! k \<le> ol_quantity (ls ! k)"
proof -
  have pos: "0 < ol_quantity (ls ! k)" using assms(2,5) by simp
  have frac: "0 \<le> q * w / t \<and> q * w / t \<le> w" if "0 < w" "0 < t" "q \<le> t" for w t :: rat
    using that assms(3) by (simp add: divide_le_eq mult_right_mono mult.commute)
  show ?thesis
  proof (cases "q = sum_list (map ol_quantity ls)")
    case True
    then show ?thesis using assms(1,5) pos by (auto simp: matched_quantities_def)
  next
    case False
    show ?thesis
    proof (cases "p_method p = AVERAGE")
      case True
      then have al: "allocate exact q (map ol_quantity ls) = Inr a"
        using False assms(1) by (auto simp: matched_quantities_def)
      then have "0 < sum_list (map ol_quantity ls)" by (simp add: allocate_Inr)
      moreover have "a ! k = q * ol_quantity (ls ! k) / sum_list (map ol_quantity ls)"
        using assms(5) by (simp add: allocate_exact [OF al])
      ultimately show ?thesis using frac [OF pos _ assms(4)] by simp
    next
      case avg: False
      then show ?thesis using False assms fifo_exact_le [OF assms(2,3,5)]
        by (auto simp: matched_quantities_def)
    qed
  qed
qed

lemma close_lot_clean:
  assumes "0 < ol_quantity l" "0 \<le> a" "a \<le> ol_quantity l"
  shows "clean_lot (fst (close_lot exact e i d l (a, n, b)))"
  using assms by (auto simp: close_lot_def clean_lot_def released_def Let_def)

lemma open_position_clean:
  assumes "clean cb" "open_position exact u cb e d = Inr (l, cb')"
  shows "clean cb'"
  using assms(2) unfolding open_position_Inr
  by (auto simp: opened_lot_def Let_def clean_lot_def result_simps intro!: clean_append [OF assms(1)])

lemma close_position_clean:
  assumes "clean cb" "close_position exact cb e d = Inr (ms, cb')"
  shows "clean cb'"
proof -
  obtain i amounts ns bs where
    req: "require_movement exact e = Inr i"
    and avail: "e_quantity e \<le> dsum exact (map ol_quantity (lots_for cb i))"
    and am: "matched_quantities exact (cb_policy cb) (lots_for cb i) (e_quantity e) = Inr amounts"
    and ns: "allocate exact (closing_proceeds exact cb e d) amounts = Inr ns"
    and bs: "allocate exact (dmul exact (closing_proceeds exact cb e d) (e_fx e)) amounts = Inr bs"
    and cb': "cb' = (update_lots i (map fst (closing_steps exact cb e d i amounts ns bs)) cb)
               \<lparr>cb_matches := cb_matches cb @ ms\<rparr>"
    using assms(2) unfolding close_position_Inr by blast
  have pos: "\<forall>l \<in> set (lots_for cb i). 0 < ol_quantity l" using lots_for_pos by blast
  have le: "0 \<le> amounts ! k \<and> amounts ! k \<le> ol_quantity (lots_for cb i ! k)"
    if "k < length (lots_for cb i)" for k
    using matched_exact_le [OF am pos _ _ that] req avail by (simp add: result_simps)
  have "clean_lot y" if "y \<in> set (map fst (closing_steps exact cb e d i amounts ns bs))" for y
    using that le pos by (auto simp: closing_steps_def in_set_zip intro!: close_lot_clean)
  then show ?thesis unfolding cb' clean_more
    using closing_steps_length [OF matched_length [OF am] ns bs]
    by (intro clean_update [OF assms(1)]) auto
qed

lemma split_lots_clean:
  "clean cb \<Longrightarrow> split_lots exact cb i r = Inr cb' \<Longrightarrow> clean cb'"
  by (auto simp: split_lots_Inr clean_lot_def lots_for_pos intro!: clean_update)

lemma spinoff_clean:
  assumes "clean cb" "spinoff exact u cb e ch a = Inr cb'"
  shows "clean cb'"
proof -
  let ?i = "instrument_or_empty e"
  let ?s1 = "update_lots ?i (map (spinoff_parent exact a) (lots_for cb ?i)) cb"
  obtain qs where q: "allocate exact (e_quantity e) (map ol_quantity (lots_for cb ?i)) = Inr qs"
    and eq: "0 < e_quantity e"
    and cb': "cb' = store_lots ch
      (stored_lots ?s1 ch @ map2 (spinoff_child exact u e ch a) (lots_for cb ?i) qs) ?s1"
    using assms(2) unfolding spinoff_def Let_def by (auto simp: bindE_Inr_iff ensure_Inr_iff)
  have s1: "clean ?s1"
    by (rule clean_update [OF assms(1)]) (auto simp: spinoff_parent_def clean_lot_def lots_for_pos)
  have tot: "0 < sum_list (map ol_quantity (lots_for cb ?i))" using q by (simp add: allocate_Inr)
  have "0 < qs ! k" if "k < length (lots_for cb ?i)" for k
    using that eq tot lots_for_pos [of "lots_for cb ?i ! k" cb ?i] by (simp add: allocate_exact [OF q])
  then show ?thesis unfolding cb'
    by (intro clean_append [OF s1]) (auto simp: in_set_zip spinoff_child_def clean_lot_def)
qed

lemma merger_clean:
  assumes "clean cb" "merger exact u cb e ch r cps cca = Inr (res, cb')"
  shows "clean cb'"
proof -
  let ?i = "instrument_or_empty e"
  let ?s1 = "update_lots ?i (map emptied (lots_for cb ?i)) cb"
  have r: "0 < r" and cb': "\<exists>ms. cb' = (store_lots ch (stored_lots ?s1 ch @
        map (merger_successor exact u e ch r cca) (lots_for cb ?i)) ?s1)\<lparr>cb_matches := ms\<rparr>"
    using assms(2) unfolding merger_def Let_def by (auto simp: bindE_Inr_iff ensure_Inr_iff)
  have s1: "clean ?s1"
    by (rule clean_update [OF assms(1)]) (auto simp: emptied_def clean_lot_def)
  have "clean (store_lots ch (stored_lots ?s1 ch @
        map (merger_successor exact u e ch r cca) (lots_for cb ?i)) ?s1)"
    using r lots_for_pos [of _ cb ?i]
    by (intro clean_append [OF s1]) (auto simp: merger_successor_def clean_lot_def)
  then show ?thesis using cb' by auto
qed

section \<open>How each step moves the identity\<close>

lemma gap_move_cash:
  "move_cash exact s cur a fx e d = Inr s' \<Longrightarrow>
     book_gap s' = book_gap s + a * fx \<and> distinct_positions s' = distinct_positions s \<and>
     lg_cost_basis s' = lg_cost_basis s \<and> lg_policy s' = lg_policy s \<and>
     get_position s' = get_position s \<and> lg_income s' = lg_income s \<and> lg_fees s' = lg_fees s \<and>
     lg_taxes s' = lg_taxes s \<and> lg_adjustments s' = lg_adjustments s \<and>
     lg_capitalized_charges s' = lg_capitalized_charges s"
  by (auto simp: move_cash_Inr book_gap_def fun_eq_iff split: if_splits)

lemma gap_external: "book_gap (external exact s e a) = book_gap s - a"
  by (simp add: book_gap_def)

lemma gap_realise:
  "distinct_positions s \<Longrightarrow>
   book_gap (modify_position i (\<lambda>p. p\<lparr>ps_realised := ps_realised p + r\<rparr>) s) = book_gap s - r"
  by (simp add: book_gap_def pos_total_modify)

lemma gap_modify:
  "distinct_positions s \<Longrightarrow> (\<And>p. ps_realised (f p) = ps_realised p \<and> ps_cost_base (f p) = ps_cost_base p) \<Longrightarrow>
   book_gap (modify_position i f s) = book_gap s"
  by (simp add: book_gap_def pos_total_modify)

lemma rollup_simps [simp]:
  "ps_realised (rollup c cb i p) = ps_realised p"
  "ps_cost_base (rollup exact cb i p) = base_cost cb i"
  by (auto simp: rollup_def base_cost_def Let_def split: list.splits)

lemma distinct_roll [simp]: "distinct_positions s \<Longrightarrow> distinct_positions (roll_position c i s)"
  by (simp add: roll_position_def)

lemma get_roll [simp]:
  "get_position (roll_position c i s) k =
     (if k = i then rollup c (lg_cost_basis s) i (get_position s i) else get_position s k)"
  by (simp add: roll_position_def)

lemma gap_roll:
  "distinct_positions s \<Longrightarrow>
   book_gap (roll_position exact i s) =
     book_gap s + base_cost (lg_cost_basis s) i - ps_cost_base (get_position s i)"
  by (simp add: book_gap_def roll_position_def pos_total_modify)

lemma gap_cost_basis [simp]: "book_gap (s\<lparr>lg_cost_basis := cb\<rparr>) = book_gap s"
  by (simp add: book_gap_def)

text \<open>What the replay maintains in ideal arithmetic.\<close>

definition exact_inv :: "ledger \<Rightarrow> bool" where
  "exact_inv s \<longleftrightarrow>
     lots_inv exact s \<and> clean (lg_cost_basis s) \<and> distinct_positions s"

lemma exact_inv_cost: "exact_inv s \<Longrightarrow> ps_cost_base (get_position s i) = base_cost (lg_cost_basis s) i"
  by (simp add: exact_inv_def lots_inv_def rolled_def position_rolled_def base_cost_def)

lemma opened_cost:
  assumes "clean cb" "open_position exact u cb e d = Inr (l, cb')"
  shows "base_cost cb' (instrument_or_empty e) =
    base_cost cb (instrument_or_empty e) +
    (if d = LONG then (gross exact e + capitalized exact (cb_policy cb) e) * e_fx e
     else - ((gross exact e - capitalized exact (cb_policy cb) e) * e_fx e))"
proof -
  obtain i where i: "instrument_or_empty e = i" "l = opened_lot exact u cb e d i"
      "cb' = store_lots i (stored_lots cb i @ [l]) cb"
    using assms(2) by (auto simp: open_position_Inr result_simps instrument_or_empty_def)
  have "clean cb'" by (rule open_position_clean [OF assms])
  then show ?thesis
    by (simp add: base_cost_stored assms(1) i opened_lot_def Let_def signed_def)
qed

lemma close_position_directions:
  assumes "close_position c cb e d = Inr (ms, cb')" "e_instrument_id e = Some i"
  shows "\<forall>l \<in> set (lots_for cb' i). ol_direction l = d"
proof -
  have dirs: "\<forall>l \<in> set (lots_for cb i). ol_direction l = d"
    using assms by (auto simp: close_position_Inr result_simps)
  obtain am ns bs where
    m: "matched_quantities c (cb_policy cb) (lots_for cb i) (e_quantity e) = Inr am"
      "allocate c (closing_proceeds c cb e d) am = Inr ns"
      "allocate c (dmul c (closing_proceeds c cb e d) (e_fx e)) am = Inr bs"
      "cb' = (update_lots i (map fst (closing_steps c cb e d i am ns bs)) cb)
             \<lparr>cb_matches := cb_matches cb @ ms\<rparr>"
    using assms unfolding close_position_Inr by (auto simp: result_simps)
  have "length (map fst (closing_steps c cb e d i am ns bs)) = length (lots_for cb i)"
    using closing_steps_length [OF matched_length [OF m(1)] m(2,3)] by simp
  then have "set (lots_for cb' i) \<subseteq> set (map fst (closing_steps c cb e d i am ns bs))"
    unfolding m(4) lots_for_more by (auto simp: lots_for_set update_lots_set)
  then show ?thesis using dirs closing_steps_frame by (metis subsetD)
qed

lemma closed_cost:
  assumes "clean cb" "close_position exact cb e d = Inr (ms, cb')"
  shows "base_cost cb' (instrument_or_empty e) - sum_list (map lm_realised_base ms) =
    base_cost cb (instrument_or_empty e) +
    (if d = LONG then - ((gross exact e - capitalized exact (cb_policy cb) e) * e_fx e)
     else (gross exact e + capitalized exact (cb_policy cb) e) * e_fx e)"
proof -
  obtain i where i: "e_instrument_id e = Some i"
    and base: "stored_total ol_base_basis cb' i + sum_list (map lm_base_basis ms) =
       stored_total ol_base_basis cb i"
    and pro: "sum_list (map lm_base_proceeds ms) = closing_proceeds exact cb e d * e_fx e"
    and re: "sum_list (map lm_realised_base ms) = sign_of exact d *
       (sum_list (map lm_base_proceeds ms) - sum_list (map lm_base_basis ms))"
    using close_conserves_aux [OF assms(2)] by metis
  have ii: "instrument_or_empty e = i" by (simp add: i instrument_or_empty_def)
  have dirs: "\<forall>l \<in> set (lots_for cb i). ol_direction l = d"
    using assms(2) by (auto simp: close_position_Inr result_simps i)
  have dirs': "\<forall>l \<in> set (lots_for cb' i). ol_direction l = d"
    by (rule close_position_directions [OF assms(2) i])
  have c': "clean cb'" by (rule close_position_clean [OF assms])
  show ?thesis
    using base unfolding ii base_cost_directed [OF dirs assms(1)] base_cost_directed [OF dirs' c'] re pro
    by (simp add: closing_proceeds_def Let_def sign_of_def algebra_simps)
qed

definition movement_value :: "policy \<Rightarrow> entry \<Rightarrow> rat" where
  "movement_value p e =
     (if e_kind e \<in> {BUY, TRANSFER_IN, COVER} then gross exact e else - gross exact e) * e_fx e
     + capitalized exact p e * e_fx e"

lemma movement_cost_value:
  assumes "clean (lg_cost_basis s)" "movement_cost exact u s e = Inr (cb, r)"
    "e_kind e \<in> set SECURITY_MOVEMENTS"
  shows "clean cb" "base_cost cb (instrument_or_empty e) - r =
    base_cost (lg_cost_basis s) (instrument_or_empty e)
      + movement_value (cb_policy (lg_cost_basis s)) e"
  using assms opened_cost [OF assms(1)] closed_cost [OF assms(1)]
    open_position_clean [OF assms(1)] close_position_clean [OF assms(1)]
  by (auto simp: movement_cost_def movement_value_def SECURITY_MOVEMENTS_def Let_def bindE_Inr_iff
      algebra_simps split: if_splits)

lemma security_movement_gap:
  assumes "exact_inv s" "security_movement exact u s e = Inr s'"
    "e_kind e \<in> set SECURITY_MOVEMENTS"
  shows "book_gap s' = book_gap s + capitalized exact (lg_policy s) e * e_fx e"
    "clean (lg_cost_basis s')" "distinct_positions s'" "lg_policy s' = lg_policy s"
proof -
  let ?i = "instrument_or_empty e"
  obtain cb r where cb: "movement_cost exact u s e = Inr (cb, r)"
    and cash: "movement_cash exact (modify_position ?i (\<lambda>p. p\<lparr>ps_realised := dadd exact (ps_realised p) r\<rparr>)
        (roll_position exact ?i (s\<lparr>lg_cost_basis := cb\<rparr>))) e = Inr s'"
      (is "movement_cash exact ?t e = _")
    using assms(2) by (auto simp: security_movement_def Let_def bindE_Inr_iff)
  have cl: "clean (lg_cost_basis s)" and d: "distinct_positions s"
    and pol: "cb_policy (lg_cost_basis s) = lg_policy s"
    using assms(1) by (auto simp: exact_inv_def lots_inv_def)
  note mv = movement_cost_value [OF cl cb assms(3)]
  have dt: "distinct_positions ?t" using d by simp
  have "book_gap ?t = book_gap s + movement_value (lg_policy s) e"
    using mv(2) d exact_inv_cost [OF assms(1), of ?i] by (simp add: gap_realise gap_roll pol)
  then show "book_gap s' = book_gap s + capitalized exact (lg_policy s) e * e_fx e"
    using cash gap_move_cash [of ?t] assms(3)
    by (auto simp: movement_cash_def Let_def gap_external movement_value_def SECURITY_MOVEMENTS_def
        split: if_splits dest!: gap_move_cash)
  have fr: "lg_cost_basis s' = cb \<and> lg_policy s' = lg_policy s \<and> distinct_positions s'"
    using cash dt by (auto simp: movement_cash_def Let_def split: if_splits dest!: gap_move_cash)
  show "clean (lg_cost_basis s')" "distinct_positions s'" "lg_policy s' = lg_policy s"
    using fr mv(1) by auto
qed

section \<open>Charges, expenses and corporate actions\<close>

lemma gap_fields [simp]:
  "book_gap (s\<lparr>lg_income := x\<rparr>) = book_gap s + lg_income s - x"
  "book_gap (s\<lparr>lg_fees := x\<rparr>) = book_gap s - lg_fees s + x"
  "book_gap (s\<lparr>lg_taxes := x\<rparr>) = book_gap s - lg_taxes s + x"
  "book_gap (s\<lparr>lg_adjustments := x\<rparr>) = book_gap s + lg_adjustments s - x"
  "book_gap (s\<lparr>lg_capitalized_charges := x\<rparr>) = book_gap s + lg_capitalized_charges s - x"
  "book_gap (s\<lparr>lg_last_date := l\<rparr>) = book_gap s"
  by (simp_all add: book_gap_def)

text \<open>What a step may not touch, beside the lots invariant proved for every context.\<close>

definition kept :: "ledger \<Rightarrow> ledger \<Rightarrow> bool" where
  "kept s s' \<longleftrightarrow> clean (lg_cost_basis s') \<and> distinct_positions s' \<and> lg_policy s' = lg_policy s"

lemma apply_charges_gap:
  assumes "apply_charges exact s e = Inr s'" "clean (lg_cost_basis s)" "distinct_positions s"
  shows "book_gap s' = book_gap s - capitalized exact (lg_policy s) e * e_fx e" "kept s s'"
  using assms
  by (auto simp: apply_charges_def Let_def bindE_Inr_iff kept_def gap_modify charges_def algebra_simps
      dest!: gap_move_cash)

lemma expense_gap:
  assumes "expense exact s e = Inr s'" "clean (lg_cost_basis s)" "distinct_positions s"
  shows "book_gap s' = book_gap s" "kept s s'"
  using assms
  by (auto simp: expense_def Let_def bindE_Inr_iff kept_def gap_modify algebra_simps
      dest!: gap_move_cash)

lemma signed_zero [simp]: "signed exact d 0 = 0"
  by (simp add: signed_def)

lemma split_cost:
  assumes "clean cb" "split_lots exact cb i r = Inr cb'"
  shows "base_cost cb' i = base_cost cb i"
proof -
  have "base_cost cb' i = stored_total (\<lambda>l. signed exact (ol_direction l) (ol_base_basis l)) cb' i"
    using base_cost_stored [OF split_lots_clean [OF assms]] by (simp add: stored_total_def)
  also have "\<dots> = stored_total (\<lambda>l. signed exact (ol_direction l) (ol_base_basis l)) cb i"
    using assms(2) by (auto simp: split_lots_Inr update_lots_total comp_def)
  finally show ?thesis using base_cost_stored [OF assms(1)] by (simp add: stored_total_def)
qed

lemma spinoff_cost:
  assumes "clean cb" "spinoff exact u cb e ch a = Inr cb'"
  defines "i \<equiv> instrument_or_empty e"
  shows "ch \<noteq> i" "base_cost cb' i + base_cost cb' ch = base_cost cb i + base_cost cb ch"
proof -
  let ?f = "\<lambda>l. signed exact (ol_direction l) (ol_base_basis l)"
  show "ch \<noteq> i" by (rule spinoff_Inr [OF assms(2)]) (simp add: i_def)
  obtain qs where q: "length qs = length (lots_for cb i)"
    and dir: "\<forall>l \<in> set (lots_for cb i). ol_direction l = LONG"
    and ti: "\<And>f. stored_total f cb' i = stored_total f cb i - sum_list (map f (lots_for cb i)) +
       sum_list (map (\<lambda>l. f (spinoff_parent exact a l)) (lots_for cb i))"
    and tc: "\<And>f. stored_total f cb' ch = stored_total f cb ch +
       sum_list (map f (map2 (spinoff_child exact u e ch a) (lots_for cb i) qs))"
    by (rule spinoff_totals [OF assms(2), folded i_def], rule that) (assumption | simp only:)+
  have "sum_list (map ?f (map2 (spinoff_child exact u e ch a) (lots_for cb i) qs)) =
      sum_list (map (\<lambda>l. ol_base_basis l * a) (lots_for cb i))"
    by (rule sum_map2_left [OF q]) (simp add: spinoff_child_def signed_def)
  moreover have "sum_list (map ?f (lots_for cb i)) = sum_list (map ol_base_basis (lots_for cb i))"
    using dir by (intro arg_cong [where f = sum_list] map_cong) (auto simp: signed_def)
  moreover have "sum_list (map (\<lambda>l. ?f (spinoff_parent exact a l)) (lots_for cb i)) =
      sum_list (map (\<lambda>l. ol_base_basis l - ol_base_basis l * a) (lots_for cb i))"
    using dir
    by (intro arg_cong [where f = sum_list] map_cong) (auto simp: signed_def spinoff_parent_def)
  ultimately have "stored_total ?f cb' i + stored_total ?f cb' ch =
      stored_total ?f cb i + stored_total ?f cb ch"
    unfolding ti [of ?f] tc [of ?f] by (simp add: sum_list_subtractf)
  then show "base_cost cb' i + base_cost cb' ch = base_cost cb i + base_cost cb ch"
    by (simp add: base_cost_stored spinoff_clean [OF assms(1,2)] assms(1) stored_total_def)
qed

lemma merger_cost:
  assumes "clean cb" "merger exact u cb e ch r cps cca = Inr ((cash, realised), cb')"
  defines "i \<equiv> instrument_or_empty e"
  shows "ch \<noteq> i" "base_cost cb' i + base_cost cb' ch =
    base_cost cb i + base_cost cb ch - (cash * e_fx e - realised)"
proof -
  let ?f = "\<lambda>l. signed exact (ol_direction l) (ol_base_basis l)"
  let ?B = "sum_list (map ol_base_basis (lots_for cb i))"
  show "ch \<noteq> i" using merger_Inr(1) [OF assms(2)] by (simp add: i_def)
  note t = merger_totals [OF assms(2), folded i_def]
  have "sum_list (map (\<lambda>l. ?f (merger_successor exact u e ch r cca l)) (lots_for cb i)) =
      ?B - cca * ?B"
    by (simp add: merger_successor_def signed_def sum_list_subtractf sum_list_mult_const
        sum_list_const_mult mult.commute)
  moreover have "sum_list (map ?f (lots_for cb i)) = ?B"
    using t(3) by (intro arg_cong [where f = sum_list] map_cong) (auto simp: signed_def)
  moreover have "sum_list (map (\<lambda>l. ?f (emptied l)) (lots_for cb i)) = 0"
    by (simp add: emptied_def)
  moreover have "cash * e_fx e - realised = cca * ?B"
    using merger_exact_result [OF assms(2)] by (simp add: i_def)
  ultimately have "stored_total ?f cb' i + stored_total ?f cb' ch =
      stored_total ?f cb i + stored_total ?f cb ch - (cash * e_fx e - realised)"
    by (simp only: t(1) [of ?f] t(2) [of ?f])
  then show "base_cost cb' i + base_cost cb' ch =
    base_cost cb i + base_cost cb ch - (cash * e_fx e - realised)"
    by (simp add: base_cost_stored merger_clean [OF assms(1,2)] assms(1) stored_total_def)
qed

lemma gap_roll2:
  "distinct_positions t \<Longrightarrow> ch \<noteq> i \<Longrightarrow>
   book_gap (roll_position exact i (roll_position exact ch t)) =
     book_gap t + base_cost (lg_cost_basis t) i + base_cost (lg_cost_basis t) ch
       - ps_cost_base (get_position t i) - ps_cost_base (get_position t ch)"
  by (simp add: gap_roll)

lemma spinoff_action_gap:
  assumes "exact_inv s" "spinoff_action exact u s e ch = Inr t"
  shows "book_gap (roll_position exact (instrument_or_empty e) (roll_position exact ch t)) = book_gap s"
    "kept s t"
proof -
  obtain a cb where sp: "spinoff exact u (lg_cost_basis s) e ch a = Inr cb"
    and t: "t = s\<lparr>lg_cost_basis := cb\<rparr>"
    using assms(2) by (auto simp: spinoff_action_def bindE_Inr_iff)
  have cl: "clean (lg_cost_basis s)" and d: "distinct_positions s"
    using assms(1) by (auto simp: exact_inv_def)
  show "book_gap (roll_position exact (instrument_or_empty e) (roll_position exact ch t)) = book_gap s"
    using spinoff_cost [OF cl sp] d
    by (subst gap_roll2) (simp_all add: t exact_inv_cost [OF assms(1)])
  show "kept s t" using d spinoff_clean [OF cl sp] by (simp add: t kept_def)
qed

lemma merger_action_gap:
  assumes "exact_inv s" "merger_action exact u s e ch = Inr t"
  shows "book_gap (roll_position exact (instrument_or_empty e) (roll_position exact ch t)) = book_gap s"
    "kept s t"
proof -
  let ?i = "instrument_or_empty e"
  obtain r x y cash realised cb w
    where m: "merger exact u (lg_cost_basis s) e ch r x y = Inr ((cash, realised), cb)"
    and w: "move_cash exact (s\<lparr>lg_cost_basis := cb\<rparr>) (e_currency e) cash (e_fx e) e
              ''MERGER_CASH'' = Inr w"
    and t: "t = modify_position ?i (\<lambda>p. p\<lparr>ps_realised := ps_realised p + realised\<rparr>) w"
    using assms(2) by (auto simp: merger_action_def bindE_Inr_iff)
  have cl: "clean (lg_cost_basis s)" and d: "distinct_positions s"
    using assms(1) by (auto simp: exact_inv_def)
  note mw = gap_move_cash [OF w]
  show "book_gap (roll_position exact ?i (roll_position exact ch t)) = book_gap s"
    using merger_cost [OF cl m] d mw
    by (subst gap_roll2) (simp_all add: t exact_inv_cost [OF assms(1)] gap_realise fun_eq_iff)
  show "kept s t" using d merger_clean [OF cl m] mw by (simp add: t kept_def)
qed

lemma split_action_gap:
  assumes "exact_inv s" "split_action exact s e = Inr t"
  shows "book_gap (roll_position exact (instrument_or_empty e) t) = book_gap s" "kept s t"
proof -
  obtain r cb where sp: "split_lots exact (lg_cost_basis s) (instrument_or_empty e) r = Inr cb"
    and t: "t = s\<lparr>lg_cost_basis := cb\<rparr>"
    using assms(2) by (auto simp: split_action_def bindE_Inr_iff)
  have cl: "clean (lg_cost_basis s)" and d: "distinct_positions s"
    using assms(1) by (auto simp: exact_inv_def)
  show "book_gap (roll_position exact (instrument_or_empty e) t) = book_gap s"
    using split_cost [OF cl sp] d by (simp add: t gap_roll exact_inv_cost [OF assms(1)])
  show "kept s t" using d split_lots_clean [OF cl sp] by (simp add: t kept_def)
qed

lemma kept_roll [simp]: "kept s t \<Longrightarrow> kept s (roll_position c i t)"
  by (simp add: kept_def)

lemma corporate_action_gap:
  assumes "exact_inv s" "corporate_action exact u s e = Inr s'"
  shows "book_gap s' = book_gap s" "kept s s'"
proof -
  have "book_gap s' = book_gap s \<and> kept s s'"
  proof (cases "e_kind e \<in> {SPLIT, REVERSE_SPLIT}")
    case True
    then show ?thesis using assms(2) split_action_gap [OF assms(1)]
      by (auto simp: corporate_action_def Let_def bindE_Inr_iff)
  next
    case False
    then obtain child t where
        "s' = roll_position exact (instrument_or_empty e) (roll_position exact child t)"
        "(if e_kind e = SPINOFF then spinoff_action exact u s e child
          else merger_action exact u s e child) = Inr t"
      using assms(2) unfolding corporate_action_def Let_def
      by (auto simp: bindE_Inr_iff split: if_splits pyval.splits)
    then show ?thesis using spinoff_action_gap [OF assms(1)] merger_action_gap [OF assms(1)]
      by (auto split: if_splits)
  qed
  then show "book_gap s' = book_gap s" "kept s s'" by auto
qed

section \<open>The replay keeps the accounting identity\<close>

lemma meta_decimal_pos: "meta_decimal c e k d n True b = Inr r \<Longrightarrow> 0 < r"
  by (auto simp: meta_decimal_def result_simps decimal_def split: option.splits)

lemma gap_capital:
  assumes "move_cash exact s cur (sg * gr) fx e d = Inr t" "distinct_positions s"
    "clean (lg_cost_basis s)"
  shows "book_gap (external exact t e (sg * (gr * fx))) = book_gap s"
    "kept s (external exact t e (sg * (gr * fx)))"
  using gap_move_cash [OF assms(1)] assms(2,3) by (auto simp: gap_external kept_def)

lemma gap_income:
  assumes "move_cash exact s cur gr fx e d = Inr t" "distinct_positions s"
    "clean (lg_cost_basis s)"
  shows "book_gap (t\<lparr>lg_income := lg_income t + gr * fx\<rparr>) = book_gap s"
    "kept s (t\<lparr>lg_income := lg_income t + gr * fx\<rparr>)"
    "book_gap (modify_position i (\<lambda>p. p\<lparr>ps_income := ps_income p + x\<rparr>)
       (t\<lparr>lg_income := lg_income t + gr * fx\<rparr>)) = book_gap s"
    "kept s (modify_position i (\<lambda>p. p\<lparr>ps_income := ps_income p + x\<rparr>)
       (t\<lparr>lg_income := lg_income t + gr * fx\<rparr>))"
  using gap_move_cash [OF assms(1)] assms(2,3) by (auto simp: kept_def gap_modify)

lemma gap_adjustment:
  assumes "move_cash exact s cur (sg * gr) fx e d = Inr t" "distinct_positions s"
    "clean (lg_cost_basis s)"
  shows "book_gap (t\<lparr>lg_adjustments := lg_adjustments t + sg * (gr * fx)\<rparr>) = book_gap s"
    "kept s (t\<lparr>lg_adjustments := lg_adjustments t + sg * (gr * fx)\<rparr>)"
  using gap_move_cash [OF assms(1)] assms(2,3) by (auto simp: kept_def)

lemma gap_conversion:
  assumes "move_cash exact s cur (- gr) fx e d = Inr w"
    "move_cash exact w cur' r (gr * fx / r) e d' = Inr t" "0 < r" "distinct_positions s"
    "clean (lg_cost_basis s)"
  shows "book_gap t = book_gap s" "kept s t"
  using gap_move_cash [OF assms(1)] gap_move_cash [OF assms(2)] assms(3-) by (auto simp: kept_def)

lemma apply_kind_gap:
  assumes "exact_inv s" "apply_kind exact u s e = Inr s'" "valid_entry exact e"
  shows "book_gap s' = book_gap s + capitalized exact (lg_policy s) e * e_fx e \<and> kept s s'"
proof (cases "e_kind e \<in> set SECURITY_MOVEMENTS \<and> has_instrument e")
  case True
  then show ?thesis using assms(2) security_movement_gap [OF assms(1)]
    by (auto simp: apply_kind_def Let_def kept_def)
next
  case False
  have z: "capitalized exact (lg_policy s) e = 0"
    using False assms(3)
    by (auto simp: capitalized_def capitalizable_def valid_entry_def SECURITY_MOVEMENTS_def)
  have cl: "clean (lg_cost_basis s)" "distinct_positions s"
    using assms(1) by (auto simp: exact_inv_def)
  show ?thesis
  proof (cases "e_kind e \<in> {SPLIT, REVERSE_SPLIT, SPINOFF, MERGER}")
    case True
    then show ?thesis using assms(2) False corporate_action_gap [OF assms(1)]
      by (auto simp: apply_kind_def Let_def z)
  next
    case other: False
    consider (capital) "e_kind e \<in> {DEPOSIT, WITHDRAWAL, TRANSFER_IN, TRANSFER_OUT}"
      | (income) "e_kind e \<in> {DIVIDEND, INTEREST}" | (fx) "e_kind e = FX_CONVERSION"
      | (adjust) "e_kind e = OTHER_ADJUSTMENT"
      | (none) "e_kind e \<notin> {DEPOSIT, WITHDRAWAL, TRANSFER_IN, TRANSFER_OUT, DIVIDEND, INTEREST,
          FX_CONVERSION, OTHER_ADJUSTMENT}" by auto
    then show ?thesis
    proof cases
      case capital
      then show ?thesis using assms(2) False gap_capital [OF _ cl(2,1)]
        unfolding apply_kind_def Let_def z by (simp add: bindE_Inr_iff) blast
    next
      case income
      then show ?thesis using assms(2) False gap_income [OF _ cl(2,1)]
        unfolding apply_kind_def Let_def z by (auto simp: bindE_Inr_iff SECURITY_MOVEMENTS_def)
    next
      case fx
      then show ?thesis using assms(2) gap_conversion [OF _ _ _ cl(2,1)] meta_decimal_pos
        unfolding apply_kind_def Let_def z
        by (auto simp: bindE_Inr_iff SECURITY_MOVEMENTS_def dest!: meta_decimal_pos)
    next
      case adjust
      then show ?thesis using assms(2) gap_adjustment [OF _ cl(2,1)]
        unfolding apply_kind_def Let_def z by (auto simp: bindE_Inr_iff SECURITY_MOVEMENTS_def)
    next
      case none
      then show ?thesis using assms(2) False other cl unfolding apply_kind_def Let_def z
        by (auto simp: kept_def)
    qed
  qed
qed

lemma apply_entry_exact:
  assumes "exact_inv s" "apply_entry exact u s e = Inr s'"
  shows "exact_inv s' \<and> book_gap s' = book_gap s"
proof (cases "e_kind e \<in> {COMMISSION, FEE, TAX}")
  case True
  then obtain t where t: "expense exact s e = Inr t" and s': "s' = t\<lparr>lg_last_date := Some (e_day e)\<rparr>"
    using assms(2) by (auto simp: apply_entry_def bindE_Inr_iff)
  have "lots_inv exact s'"
    using apply_entry_lots [OF _ assms(2)] assms(1) by (simp add: exact_inv_def)
  then show ?thesis using expense_gap [OF t] assms(1) by (simp add: s' exact_inv_def kept_def)
next
  case False
  then obtain t w x where t: "apply_kind exact u s e = Inr t" and w: "apply_charges exact t e = Inr w"
    and s': "s' = w\<lparr>lg_last_date := Some (e_day e)\<rparr>" and v: "ledger_validate exact s e = Inr x"
    using assms(2) by (auto simp: apply_entry_def bindE_Inr_iff)
  have k: "book_gap t = book_gap s + capitalized exact (lg_policy s) e * e_fx e" "kept s t"
    using apply_kind_gap [OF assms(1) t ledger_validate_valid [OF v]] by auto
  then have "book_gap w = book_gap t - capitalized exact (lg_policy t) e * e_fx e" "kept t w"
    using apply_charges_gap [OF w] by (auto simp: kept_def)
  moreover have "lots_inv exact s'"
    using apply_entry_lots [OF _ assms(2)] assms(1) by (simp add: exact_inv_def)
  ultimately show ?thesis using k by (auto simp: s' exact_inv_def kept_def)
qed

lemma new_ledger_exact: "exact_inv (new_ledger p)" "book_gap (new_ledger p) = 0"
  using new_ledger_lots clean_new
  by (auto simp: exact_inv_def new_ledger_def distinct_positions_def book_gap_def pos_total_def)

lemma replay_exact:
  assumes "replay exact u (new_ledger p) es = Inr s"
  shows "exact_inv s \<and> book_gap s = 0"
  using assms unfolding replay_def
  by (rule foldE_invariant [where P = "\<lambda>s. exact_inv s \<and> book_gap s = 0"])
    (use apply_entry_exact in \<open>auto simp: new_ledger_exact\<close>)

section \<open>Properties\<close>

text \<open>C1: the accounting identity. Whatever entries a ledger accepts from its empty state, in
  ideal arithmetic the book value of cash plus the recorded cost of all positions equals
  external flows plus realised P&L plus income less expensed fees and taxes plus adjustments;
  trades, transfers, splits, spinoffs, mergers, conversions and charges all keep it.\<close>

theorem accounting_identity:
  assumes "replay exact u (new_ledger p) es = Inr s"
  shows "lg_cash_book_base s + sum_list (map (\<lambda>(i, l). ps_cost_base l) (lg_lots s)) =
    lg_external_flows s + sum_list (map (\<lambda>(i, l). ps_realised l) (lg_lots s)) + lg_income s
      - expensed_fees exact s - lg_taxes s + lg_adjustments s"
  using replay_exact [OF assms]
  by (simp add: book_gap_def pos_total_def expensed_fees_def case_prod_unfold)

definition eventful_book :: "entry list" where
  "eventful_book =
     [(new_entry ''1'' 1 DEPOSIT ''USD'')\<lparr>e_amount := 1000\<rparr>,
      (new_entry ''2'' 2 BUY ''USD'')
        \<lparr>e_quantity := 7, e_price := 100, e_commission := 2, e_instrument_id := Some ''X''\<rparr>,
      (new_entry ''3'' 3 SELL ''USD'')
        \<lparr>e_quantity := 3, e_price := 120, e_fee := 1, e_instrument_id := Some ''X''\<rparr>,
      (new_entry ''4'' 4 SPLIT ''USD'')
        \<lparr>e_instrument_id := Some ''X'', e_metadata := [(''ratio'', VNum ''2'')]\<rparr>,
      (new_entry ''5'' 5 FEE ''USD'')\<lparr>e_amount := 5\<rparr>]"

text \<open>A deposit, a purchase, a partial sale, a split and a fee.\<close>

theorem accounting_identity_witness:
  "case replay exact (\<lambda>t. t) (new_ledger (default_policy\<lparr>p_capitalize_commissions := True\<rparr>))
     eventful_book of
     Inl _ \<Rightarrow> False
   | Inr s \<Rightarrow> lg_cash_book_base s + sum_list (map (\<lambda>(i, l). ps_cost_base l) (lg_lots s)) =
       lg_external_flows s + sum_list (map (\<lambda>(i, l). ps_realised l) (lg_lots s)) + lg_income s
         - expensed_fees exact s - lg_taxes s + lg_adjustments s"
proof -
  let ?r = "replay exact (\<lambda>t. t) (new_ledger (default_policy\<lparr>p_capitalize_commissions := True\<rparr>))
     eventful_book"
  have "\<not> isl ?r" by code_simp
  then obtain s where s: "?r = Inr s" by (cases ?r) auto
  show ?thesis using accounting_identity [OF s] by (simp add: s)
qed

end
