(* ===== verification/Nav.thy ===== *)
theory Nav
  imports Money
begin

text \<open>
  \<open>portfolio_domain/nav.py\<close>: the net-asset-value identity over marked cash, positions and
  balance buckets, and the flow-adjusted return of a day. The dictionary \<open>calculate\<close> returns
  has fixed keys, so it is a record.
\<close>

section \<open>calculate\<close>

definition ASSET_BUCKETS :: "string list" where
  "ASSET_BUCKETS = [''accrued_income'', ''receivables'']"

text \<open>In sorted order, as the sums take them.\<close>

definition LIABILITY_BUCKETS :: "string list" where
  "LIABILITY_BUCKETS = [''accrued_fees'', ''other_liabilities'', ''payables'']"

record nav_result =
  nv_nav :: rat
  nv_cash :: rat
  nv_cash_assets :: rat
  nv_cash_overdrafts :: rat
  nv_market_value :: rat
  nv_long_market_value :: rat
  nv_short_liabilities :: rat
  nv_gross_asset_value :: rat
  nv_accrued_income :: rat
  nv_receivables :: rat
  nv_payables :: rat
  nv_accrued_fees :: rat
  nv_other_liabilities :: rat
  nv_liabilities :: rat

text \<open>The list of names inside the error message, for names that need no escapes.\<close>

fun quoted_names :: "string list \<Rightarrow> string" where
  "quoted_names [] = []"
| "quoted_names [k] = CHR 0x27 # k @ [CHR 0x27]"
| "quoted_names (k # ks) = CHR 0x27 # k @ CHR 0x27 # '', '' @ quoted_names ks"

definition decimals :: "ctx \<Rightarrow> string \<Rightarrow> rat list \<Rightarrow> rat list result" where
  "decimals c name xs = mapE (\<lambda>x. decimal_of c x name False False) xs"

definition nav_values ::
  "ctx \<Rightarrow> rat \<Rightarrow> rat list \<Rightarrow> rat list \<Rightarrow> rat dict \<Rightarrow> nav_result" where
  "nav_values c cash components positions balances =
     (let cash_assets = dsum c (map (\<lambda>x. max x 0) components);
          overdrafts = dsum c (map (\<lambda>x. max (dneg c x) 0) components);
          long_assets = dsum c (map (\<lambda>x. max x 0) positions);
          short_liabilities = dsum c (map (\<lambda>x. max (dneg c x) 0) positions);
          assets = dsum c (map (\<lambda>k. dict_get balances k 0) ASSET_BUCKETS);
          recorded = dsum c (map (\<lambda>k. dict_get balances k 0) LIABILITY_BUCKETS);
          invested = dsum c positions
      in \<lparr>nv_nav = dsub c (dadd c (dadd c cash invested) assets) recorded,
          nv_cash = cash, nv_cash_assets = cash_assets, nv_cash_overdrafts = overdrafts,
          nv_market_value = invested, nv_long_market_value = long_assets,
          nv_short_liabilities = short_liabilities,
          nv_gross_asset_value = dadd c (dadd c cash_assets long_assets) assets,
          nv_accrued_income = dict_get balances ''accrued_income'' 0,
          nv_receivables = dict_get balances ''receivables'' 0,
          nv_payables = dict_get balances ''payables'' 0,
          nv_accrued_fees = dict_get balances ''accrued_fees'' 0,
          nv_other_liabilities = dict_get balances ''other_liabilities'' 0,
          nv_liabilities = dadd c (dadd c recorded overdrafts) short_liabilities\<rparr>)"

definition nav_total ::
  "ctx \<Rightarrow> rat \<Rightarrow> rat list \<Rightarrow> rat dict \<Rightarrow> rat list option \<Rightarrow> nav_result result" where
  "nav_total c cash positions balances cash_components =
     (let unknown = sorted_keys (filter (\<lambda>k. k \<notin> set ASSET_BUCKETS \<and> k \<notin> set LIABILITY_BUCKETS)
            (map fst balances)) in
      bindE (ensure (unknown = [])
         (ValueError (''Unknown NAV balance bucket: ['' @ quoted_names unknown @ '']''))) (\<lambda>_.
      bindE (decimal_of c cash ''cash'' False False) (\<lambda>_.
      let components = (case cash_components of Some xs \<Rightarrow> xs | None \<Rightarrow> [cash]) in
      bindE (decimals c ''marked currency cash'' components) (\<lambda>_.
      bindE (ensure (dsum c components = cash)
         (ValueError ''Marked currency cash components must equal settled cash'')) (\<lambda>_.
      bindE (decimals c ''position market value'' positions) (\<lambda>_.
      bindE (mapE (\<lambda>(bucket, x). decimal_of c x bucket False True) balances) (\<lambda>_.
      Inr (nav_values c cash components positions balances))))))))"

definition daily_performance :: "ctx \<Rightarrow> rat \<Rightarrow> rat \<Rightarrow> rat \<Rightarrow> (rat \<times> rat option) result" where
  "daily_performance c opening closing flows =
     bindE (decimal_of c opening ''opening NAV'' False False) (\<lambda>_.
     bindE (decimal_of c closing ''closing NAV'' False False) (\<lambda>_.
     bindE (decimal_of c flows ''flows'' False False) (\<lambda>_.
     let pnl = dsub c (dsub c closing opening) flows;
         denominator = dadd c opening flows
     in Inr (pnl, if 0 < denominator then Some (ddiv c pnl denominator) else None))))"

section \<open>Lemmas\<close>

lemma mapE_decimal [result_simps]:
  "(\<exists>ys. mapE f xs = Inr ys) \<longleftrightarrow> (\<forall>x \<in> set xs. \<exists>y. f x = Inr y)"
proof (induction xs)
  case (Cons x xs)
  then show ?case by (cases "f x"; cases "mapE f xs") auto
qed simp

lemma nav_total_Inr:
  "nav_total c cash positions balances comps = Inr r \<longleftrightarrow>
     (let components = (case comps of Some xs \<Rightarrow> xs | None \<Rightarrow> [cash]) in
      set (map fst balances) \<subseteq> set ASSET_BUCKETS \<union> set LIABILITY_BUCKETS \<and>
      dsum c components = cash \<and>
      (\<forall>x \<in> {cash} \<union> set components \<union> set positions. dabs c x \<le> MAX_AMOUNT) \<and>
      (\<forall>(k, x) \<in> set balances. dabs c x \<le> MAX_AMOUNT \<and> 0 \<le> x) \<and>
      r = nav_values c cash components positions balances)"
proof -
  have "sorted_keys (filter P xs) = [] \<longleftrightarrow> (\<forall>k \<in> set xs. \<not> P k)" for P and xs :: "string list"
    by (metis empty_filter_conv sorted_keys_props(1) set_empty)
  then show ?thesis
    by (auto simp: nav_total_def decimals_def Let_def bindE_Inr_iff ensure_Inr_iff mapE_decimal
        decimal_of_Inr split_beta)
qed

lemma positive_negative_parts:
  "sum_list (map (\<lambda>x. max x 0) xs) - sum_list (map (\<lambda>x. max (- x) 0) xs) = (sum_list xs :: rat)"
  by (induction xs) (auto simp: max_def)

context decimal_ctx
begin

lemma parts_nonneg:
  "0 \<le> dsum c (map (\<lambda>x. max x 0) xs)" "0 \<le> dsum c (map (\<lambda>x. max (dneg c x) 0) xs)"
  by (auto intro!: sum_nonneg)

lemma bucket_nonneg:
  assumes "\<forall>(k, x) \<in> set balances. 0 \<le> x"
  shows "0 \<le> (dict_get balances k 0 :: rat)"
  using assms by (auto simp: dict_get_def split: option.splits dest!: map_of_SomeD)

end

section \<open>Properties\<close>

text \<open>Whenever the NAV calculation succeeds, in ideal arithmetic NAV equals gross assets
  less liabilities, settled cash equals cash assets less overdrafts, and market value equals
  long value less short liabilities.\<close>

theorem nav_identity:
  assumes "nav_total exact cash positions balances comps = Inr r"
  shows "nv_nav r = nv_gross_asset_value r - nv_liabilities r \<and>
    nv_cash r = nv_cash_assets r - nv_cash_overdrafts r \<and>
    nv_market_value r = nv_long_market_value r - nv_short_liabilities r \<and>
    nv_liabilities r = nv_payables r + nv_accrued_fees r + nv_other_liabilities r +
      nv_cash_overdrafts r + nv_short_liabilities r"
proof -
  let ?cs = "case comps of Some xs \<Rightarrow> xs | None \<Rightarrow> [cash]"
  have r: "r = nav_values exact cash ?cs positions balances" and cash: "sum_list ?cs = cash"
    using assms by (simp_all add: nav_total_Inr Let_def)
  show ?thesis
    using positive_negative_parts [of ?cs] positive_negative_parts [of positions] cash
    by (simp add: r nav_values_def Let_def ASSET_BUCKETS_def LIABILITY_BUCKETS_def)
qed

text \<open>A short position, an overdraft in one of two currencies and two buckets.\<close>

theorem nav_identity_witness:
  "case nav_total exact 70 [50, -30] [(''payables'', 5), (''receivables'', 2)] (Some [100, -30]) of
     Inl _ \<Rightarrow> False
   | Inr r \<Rightarrow> nv_nav r = 87 \<and> nv_nav r = nv_gross_asset_value r - nv_liabilities r"
proof -
  let ?r = "nav_total exact 70 [50, -30] [(''payables'', 5), (''receivables'', 2)] (Some [100, -30])"
  have n: "case ?r of Inl _ \<Rightarrow> False | Inr r \<Rightarrow> nv_nav r = 87" by code_simp
  then obtain r where r: "?r = Inr r" "nv_nav r = 87" by (auto split: sum.splits)
  show ?thesis using nav_identity [OF r(1)] r by simp
qed

text \<open>The components of a successful NAV calculation in the default context are all
  non-negative: cash assets, overdrafts, long value, short liabilities, gross assets and total
  liabilities; only cash, market value and NAV carry a sign.\<close>

theorem nav_components_nonneg:
  assumes "nav_total (prec 28) cash positions balances comps = Inr r"
  shows "\<forall>x \<in> {nv_cash_assets r, nv_cash_overdrafts r, nv_long_market_value r, nv_short_liabilities r,
      nv_gross_asset_value r, nv_accrued_income r, nv_receivables r, nv_payables r,
      nv_accrued_fees r, nv_other_liabilities r, nv_liabilities r}. 0 \<le> x"
proof -
  have b: "\<forall>(k, x) \<in> set balances. 0 \<le> x"
    and r: "r = nav_values (prec 28) cash (case comps of Some xs \<Rightarrow> xs | None \<Rightarrow> [cash]) positions
        balances"
    using assms by (auto simp: nav_total_Inr Let_def)
  note d = d28.bucket_nonneg [OF b]
  show ?thesis using d d28.parts_nonneg
    by (auto simp: r nav_values_def Let_def intro!: d28.add_nonneg d28.sum_nonneg)
qed

text \<open>An empty book.\<close>

theorem nav_components_nonneg_witness:
  "case nav_total (prec 28) 0 [] [] None of Inl _ \<Rightarrow> False | Inr r \<Rightarrow> 0 \<le> nv_liabilities r"
proof -
  have "\<not> isl (nav_total (prec 28) 0 [] [] None)" by code_simp
  then obtain r where r: "nav_total (prec 28) 0 [] [] None = Inr r"
    by (cases "nav_total (prec 28) 0 [] [] None") auto
  show ?thesis using nav_components_nonneg [OF r] by (simp add: r)
qed

end
