(* ===== verification/Transaction_Cash.thy ===== *)
theory Transaction_Cash
  imports Ledger_Facts
begin

text \<open>
  \<open>portfolio_domain/transaction_cash.py\<close>: the cash effect of every transaction, read from
  the movements the replay recorded (so both legs of a conversion are seen). A payload is
  modelled by its identifier, its currency and the fields the function writes; the decimals are
  kept as numbers where the code prints them with \<open>str\<close>.
\<close>

section \<open>State and operations\<close>

type_synonym effects = "rat dict dict"

text \<open>\<open>native[transaction_id][currency] += amount\<close> on nested defaultdicts.\<close>

definition add_effect :: "ctx \<Rightarrow> string \<Rightarrow> string \<Rightarrow> rat \<Rightarrow> effects \<Rightarrow> effects" where
  "add_effect c i cur amount d =
     (let inner = dict_get d i []
      in AList.update i (AList.update cur (dadd c (dict_get inner cur 0) amount) inner) d)"

definition native_effects :: "ctx \<Rightarrow> cash_service \<Rightarrow> effects" where
  "native_effects c ms =
     foldl (\<lambda>d m. add_effect c (mv_transaction_id m) (mv_currency m) (mv_amount m) d) [] ms"

definition base_effects :: "ctx \<Rightarrow> cash_service \<Rightarrow> effects" where
  "base_effects c ms =
     foldl (\<lambda>d m. add_effect c (mv_transaction_id m) (mv_currency m)
                   (dmul c (mv_amount m) (mv_fx m)) d) [] ms"

record payload =
  py_id :: string
  py_currency :: string
  py_net_amount :: "rat option"
  py_net_base_value :: "rat option"
  py_net_cash_base :: "rat option"
  py_net_cash_by_currency :: "(string \<times> rat \<times> rat) list"
  py_cash_effect_state :: string

definition enrich :: "ctx \<Rightarrow> string set \<Rightarrow> effects \<Rightarrow> effects \<Rightarrow> payload \<Rightarrow> payload" where
  "enrich c effective native base p =
     (if py_id p \<notin> effective
      then p\<lparr>py_net_amount := None, py_net_base_value := None, py_net_cash_base := None,
             py_net_cash_by_currency := [], py_cash_effect_state := ''NOT_REPLAYED''\<rparr>
      else
        let native_amounts = dict_get native (py_id p) [];
            base_amounts = dict_get base (py_id p) []
        in p\<lparr>py_net_amount := Some (dict_get native_amounts (py_currency p) 0),
             py_net_base_value := Some (dict_get base_amounts (py_currency p) 0),
             py_net_cash_base := Some (dsum c (map snd base_amounts)),
             py_net_cash_by_currency :=
               map (\<lambda>cur. (cur, dict_get native_amounts cur 0, dict_get base_amounts cur 0))
                 (sorted_keys (map fst native_amounts)),
             py_cash_effect_state := ''REPLAYED''\<rparr>)"

definition enrich_cash_effects ::
  "ctx \<Rightarrow> payload list \<Rightarrow> entry list \<Rightarrow> cash_service \<Rightarrow> payload list" where
  "enrich_cash_effects c payloads entries ms =
     map (enrich c (e_id ` set entries) (native_effects c ms) (base_effects c ms)) payloads"

section \<open>Lemmas\<close>

interpretation effect_store: keyed_store "\<lambda>d i. dict_get d i []" AList.update
  by unfold_locales simp

lemma add_effect_get:
  "dict_get (add_effect c i cur a d) k [] =
     (if k = i then AList.update cur (dadd c (dict_get (dict_get d i []) cur 0) a) (dict_get d i [])
      else dict_get d k [])"
  by (simp add: add_effect_def Let_def)

lemma effect_amount:
  "dict_get (dict_get (foldl (\<lambda>d m. add_effect c (f m) (g m) (h m) d) d0 ms) i []) cur 0 =
     foldl (dadd c) (dict_get (dict_get d0 i []) cur 0)
       (map h (filter (\<lambda>m. f m = i \<and> g m = cur) ms))"
  by (induction ms arbitrary: d0) (auto simp: add_effect_get)

lemma effect_distinct:
  "(\<And>i. distinct (map fst (dict_get d0 i []))) \<Longrightarrow>
   distinct (map fst (dict_get (foldl (\<lambda>d m. add_effect c (f m) (g m) (h m) d) d0 ms) i []))"
proof (induction ms arbitrary: d0)
  case (Cons m ms)
  show ?case unfolding foldl_Cons
    by (rule Cons.IH) (use Cons.prems in \<open>auto simp: add_effect_get intro!: distinct_update_keys\<close>)
qed simp

lemma effect_total_exact:
  "(\<And>i. distinct (map fst (dict_get d0 i []))) \<Longrightarrow>
   sum_list (map snd (dict_get (foldl (\<lambda>d m. add_effect exact (f m) (g m) (h m) d) d0 ms) i [])) =
     sum_list (map snd (dict_get d0 i [])) + sum_list (map h (filter (\<lambda>m. f m = i) ms))"
proof (induction ms arbitrary: d0)
  case (Cons m ms)
  let ?d = "add_effect exact (f m) (g m) (h m) d0"
  have d: "distinct (map fst (dict_get ?d i []))" for i
    using Cons.prems by (auto simp: add_effect_get intro!: distinct_update_keys)
  have "sum_list (map snd (dict_get ?d i [])) =
      sum_list (map snd (dict_get d0 i [])) + (if f m = i then h m else 0)"
    using sum_update [OF Cons.prems [of i], of "\<lambda>x. x" 0 "g m"] by (simp add: add_effect_get)
  then show ?case using Cons.IH [of ?d, OF d] by simp
qed simp

lemma enrich_simps [simp]:
  "py_id (enrich c eff n b p) = py_id p" "py_currency (enrich c eff n b p) = py_currency p"
  by (simp_all add: enrich_def Let_def)

text \<open>Every movement a replay records carries the identifier of one of its entries.\<close>

definition movement_ids :: "ledger \<Rightarrow> string set" where
  "movement_ids s = mv_transaction_id ` set (lg_movements s)"

lemma movement_ids_simps [simp]:
  "movement_ids (modify_position i f s) = movement_ids s"
  "movement_ids (roll_position c i s) = movement_ids s"
  "movement_ids (external c s e amt) = movement_ids s"
  "movement_ids (s\<lparr>lg_income := x\<rparr>) = movement_ids s"
  "movement_ids (s\<lparr>lg_fees := x\<rparr>) = movement_ids s"
  "movement_ids (s\<lparr>lg_taxes := x\<rparr>) = movement_ids s"
  "movement_ids (s\<lparr>lg_adjustments := x\<rparr>) = movement_ids s"
  "movement_ids (s\<lparr>lg_capitalized_charges := x\<rparr>) = movement_ids s"
  "movement_ids (s\<lparr>lg_cost_basis := cb\<rparr>) = movement_ids s"
  "movement_ids (s\<lparr>lg_last_date := l\<rparr>) = movement_ids s"
  by (simp_all add: movement_ids_def)

lemma move_cash_ids:
  "move_cash c s cur a fx e d = Inr s' \<Longrightarrow> movement_ids s' \<subseteq> insert (e_id e) (movement_ids s)"
  by (auto simp: move_cash_Inr moved_def movement_ids_def split: if_splits)

lemma security_movement_ids:
  "security_movement c u s e = Inr s' \<Longrightarrow> movement_ids s' \<subseteq> insert (e_id e) (movement_ids s)"
  by (auto simp: security_movement_def movement_cash_def Let_def bindE_Inr_iff
      split: if_splits dest!: move_cash_ids)

lemma corporate_action_ids:
  "corporate_action c u s e = Inr s' \<Longrightarrow> movement_ids s' \<subseteq> insert (e_id e) (movement_ids s)"
  by (auto simp: corporate_action_def split_action_def spinoff_action_def merger_action_def
      Let_def bindE_Inr_iff split: if_splits pyval.splits dest!: move_cash_ids)

lemma apply_kind_ids:
  assumes "apply_kind c u s e = Inr s'"
  shows "movement_ids s' \<subseteq> insert (e_id e) (movement_ids s)"
  using assms security_movement_ids [of c u s e s'] corporate_action_ids [of c u s e s']
  unfolding apply_kind_def Let_def
  by (auto simp: bindE_Inr_iff split: if_splits dest!: move_cash_ids)

lemma expense_ids:
  "expense c s e = Inr s' \<Longrightarrow> movement_ids s' \<subseteq> insert (e_id e) (movement_ids s)"
  by (auto simp: expense_def Let_def bindE_Inr_iff if_distrib [of movement_ids]
      split: if_splits dest!: move_cash_ids)

lemma apply_charges_ids:
  "apply_charges c s e = Inr s' \<Longrightarrow> movement_ids s' \<subseteq> insert (e_id e) (movement_ids s)"
  by (auto simp: apply_charges_def Let_def bindE_Inr_iff if_distrib [of movement_ids]
      split: if_splits dest!: move_cash_ids)

lemma apply_entry_ids:
  assumes "apply_entry c u s e = Inr s'"
  shows "movement_ids s' \<subseteq> insert (e_id e) (movement_ids s)"
proof (cases "e_kind e \<in> {COMMISSION, FEE, TAX}")
  case True
  then show ?thesis using assms expense_ids [of c s e]
    by (auto simp: apply_entry_def bindE_Inr_iff)
next
  case False
  then obtain t w where "apply_kind c u s e = Inr t" "apply_charges c t e = Inr w"
      "s' = w\<lparr>lg_last_date := Some (e_day e)\<rparr>"
    using assms by (auto simp: apply_entry_def bindE_Inr_iff)
  then show ?thesis using apply_kind_ids [of c u s e t] apply_charges_ids [of c t e w] by auto
qed

lemma replay_ids:
  "replay c u s es = Inr s' \<Longrightarrow> movement_ids s \<subseteq> A \<Longrightarrow> e_id ` set es \<subseteq> A \<Longrightarrow> movement_ids s' \<subseteq> A"
  unfolding replay_def
  by (erule foldE_invariant [where P = "\<lambda>s. movement_ids s \<subseteq> A"]) (auto dest!: apply_entry_ids)

lemma net_base_exact:
  "sum_list (map snd (dict_get (base_effects exact ms) i [])) =
     sum_list (map (\<lambda>m. mv_amount m * mv_fx m) (filter (\<lambda>m. mv_transaction_id m = i) ms))"
  using effect_total_exact [of "[]" mv_transaction_id mv_currency "\<lambda>m. mv_amount m * mv_fx m" ms i]
  by (simp add: base_effects_def)

section \<open>Properties\<close>

text \<open>In the default context the reported cash effect of a replayed transaction in a
  currency is the fold of exactly the movements recorded for that transaction in that currency,
  natively and in base currency, and a transaction that was not replayed reports no amount.\<close>

theorem cash_effect_of_movements:
  "let own = filter (\<lambda>m. mv_transaction_id m = py_id p \<and> mv_currency m = py_currency p) ms;
       q = enrich (prec 28) effective (native_effects (prec 28) ms) (base_effects (prec 28) ms) p
   in if py_id p \<in> effective
      then py_net_amount q = Some (dsum (prec 28) (map mv_amount own)) \<and>
        py_net_base_value q =
          Some (dsum (prec 28) (map (\<lambda>m. dmul (prec 28) (mv_amount m) (mv_fx m)) own))
      else py_net_amount q = None \<and> py_net_base_value q = None \<and> py_net_cash_base q = None \<and>
        py_net_cash_by_currency q = []"
  by (simp add: enrich_def Let_def native_effects_def base_effects_def effect_amount dsum_def)

text \<open>For a replay of entries with distinct identifiers, in ideal arithmetic, the net
  base-currency cash reported over all transactions adds up to the ledger's base book value of
  cash: no movement is lost or counted twice.\<close>

theorem cash_effects_add_up:
  assumes "replay exact u (new_ledger p) es = Inr s" "distinct (map e_id es)"
    "map py_id payloads = map e_id es"
  shows "sum_list (map (\<lambda>q. case py_net_cash_base q of Some x \<Rightarrow> x | None \<Rightarrow> 0)
      (enrich_cash_effects exact payloads es (lg_movements s))) = lg_cash_book_base s"
proof -
  let ?ms = "lg_movements s" and ?h = "\<lambda>m. mv_amount m * mv_fx m"
  have b: "lg_cash_book_base s = sum_list (map ?h ?ms)"
    using replay_books [OF new_ledger_books assms(1)]
    by (auto simp: books_def book_inv_def split: option.splits)
  have ids: "\<forall>m \<in> set ?ms. mv_transaction_id m \<in> set (map e_id es)"
    using replay_ids [OF assms(1), of "set (map e_id es)"]
    by (auto simp: movement_ids_def new_ledger_def)
  have q: "py_id q \<in> e_id ` set es" if "q \<in> set payloads" for q
    using that assms(3) by (metis image_eqI list.set_map)
  have "sum_list (map (\<lambda>q. case py_net_cash_base q of Some x \<Rightarrow> x | None \<Rightarrow> 0)
      (enrich_cash_effects exact payloads es ?ms)) =
    sum_list (map (\<lambda>i. sum_list (map ?h (filter (\<lambda>m. mv_transaction_id m = i) ?ms))) (map py_id payloads))"
    unfolding enrich_cash_effects_def map_map comp_def
    by (intro arg_cong [where f = sum_list] map_cong refl)
      (simp add: enrich_def q Let_def net_base_exact)
  also have "\<dots> = sum_list (map ?h ?ms)"
    unfolding assms(3) using assms(2) ids by (rule sum_by_key)
  finally show ?thesis by (simp add: b)
qed

text \<open>The deposit and the purchase of the sample book.\<close>

theorem cash_effects_add_up_witness:
  "let row = (\<lambda>e. \<lparr>py_id = e_id e, py_currency = ''USD'', py_net_amount = None, py_net_base_value = None,
       py_net_cash_base = None, py_net_cash_by_currency = [], py_cash_effect_state = []\<rparr>)
   in case replay exact (\<lambda>t. t) (new_ledger default_policy) sample_book of
     Inl _ \<Rightarrow> False
   | Inr s \<Rightarrow> sum_list (map (\<lambda>q. case py_net_cash_base q of Some x \<Rightarrow> x | None \<Rightarrow> 0)
       (enrich_cash_effects exact (map row sample_book) sample_book (lg_movements s))) = 600"
proof -
  have "case replay exact (\<lambda>t. t) (new_ledger default_policy) sample_book of
      Inl _ \<Rightarrow> False | Inr s \<Rightarrow> lg_cash_book_base s = 600" by code_simp
  then obtain s where s: "replay exact (\<lambda>t. t) (new_ledger default_policy) sample_book = Inr s"
      "lg_cash_book_base s = 600" by (auto split: sum.splits)
  have d: "distinct (map e_id sample_book)" by (simp add: sample_book_def new_entry_def)
  show ?thesis unfolding Let_def s(1) sum.case
    by (subst cash_effects_add_up [OF s(1) d]) (simp_all add: s(2))
qed

end
