(* ===== verification/Postings.thy ===== *)
theory Postings
  imports Ledger_Facts
begin

text \<open>
  \<open>portfolio_domain/postings.py\<close>: the auditable postings derived from a completed replay,
  and the totals they add up to. The provenance mappings are kept as dynamic values; the
  rendering of a posting as text (\<open>payload\<close>) is not modelled.
\<close>

section \<open>Marks, adjustments and postings\<close>

datatype category = CAPITAL | INCOME | FEE_POSTING | ACCRUAL | LIABILITY

definition ASSET_KINDS :: "string list" where
  "ASSET_KINDS = [''accrued_income'', ''receivables'']"

text \<open>The union of both bucket sets, sorted.\<close>

definition BALANCE_BUCKETS :: "string list" where
  "BALANCE_BUCKETS =
     [''accrued_fees'', ''accrued_income'', ''other_liabilities'', ''payables'', ''receivables'']"

record currency_mark =
  mk_rate :: "rat option"
  mk_provenance :: "pyval dict"

definition new_mark :: "ctx \<Rightarrow> rat option \<Rightarrow> pyval dict \<Rightarrow> currency_mark result" where
  "new_mark c rate provenance =
     bindE (case rate of Some r \<Rightarrow> bindE (decimal_of c r ''valuation FX'' True False) (\<lambda>_. Inr ())
                       | None \<Rightarrow> Inr ()) (\<lambda>_.
     Inr \<lparr>mk_rate = rate, mk_provenance = provenance\<rparr>)"

record balance_adjustment =
  ba_id :: string
  ba_effective_date :: date
  ba_bucket :: string
  ba_currency :: string
  ba_amount :: rat
  ba_reason :: string

definition check_adjustment :: "ctx \<Rightarrow> balance_adjustment \<Rightarrow> balance_adjustment result" where
  "check_adjustment c a =
     bindE (ensure (ba_bucket a \<in> set BALANCE_BUCKETS) (ValueError ''Unknown NAV balance bucket'')) (\<lambda>_.
     bindE (decimal_of c (ba_amount a) ''balance adjustment'' False False) (\<lambda>_. Inr a))"

record posting =
  po_key :: string
  po_category :: category
  po_kind :: string
  po_effective_date :: date
  po_currency :: string
  po_native_amount :: rat
  po_fx_rate :: "rat option"
  po_transaction_id :: "string option"
  po_account_id :: "string option"
  po_instrument_id :: "string option"
  po_adjustment_id :: "string option"
  po_settlement_date :: "date option"
  po_capitalized_native :: rat
  po_provenance :: "pyval dict"

definition base_amount :: "ctx \<Rightarrow> posting \<Rightarrow> rat option" where
  "base_amount c r = map_option (\<lambda>fx. dmul c (po_native_amount r) fx) (po_fx_rate r)"

definition capitalized_base :: "ctx \<Rightarrow> posting \<Rightarrow> rat option" where
  "capitalized_base c r = map_option (\<lambda>fx. dmul c (po_capitalized_native r) fx) (po_fx_rate r)"

section \<open>transaction\_postings\<close>

definition transaction_posting ::
  "entry \<Rightarrow> category \<Rightarrow> string \<Rightarrow> rat \<Rightarrow> rat \<Rightarrow> posting" where
  "transaction_posting e cat kind amount cap =
     \<lparr>po_key = e_id e @ '':'' @ kind, po_category = cat, po_kind = kind,
      po_effective_date = e_day e, po_currency = e_currency e, po_native_amount = amount,
      po_fx_rate = Some (e_fx e), po_transaction_id = Some (e_id e),
      po_account_id = e_account_id e, po_instrument_id = e_instrument_id e,
      po_adjustment_id = None, po_settlement_date = Some (settlement e),
      po_capitalized_native = cap,
      po_provenance =
        [(''basis'', VStr ''RECORDED TRANSACTION FX''),
         (''source'', meta_get (e_metadata e) ''fx_source''),
         (''external_reference'', meta_get (e_metadata e) ''external_reference'')]\<rparr>"

text \<open>The rows of the charge fields that are not zero.\<close>

definition charge_postings :: "entry \<Rightarrow> policy \<Rightarrow> posting list" where
  "charge_postings e p =
     List.map_filter
       (\<lambda>(kind, amount, configured).
          if amount \<noteq> 0
          then Some (transaction_posting e FEE_POSTING kind amount
                 (if capitalizable (e_kind e) \<and> configured then amount else 0))
          else None)
       [(''COMMISSION'', e_commission e, p_capitalize_commissions p),
        (''FEE'', e_fee e, p_capitalize_fees p), (''TAX'', e_tax e, False)]"

definition transaction_postings :: "ctx \<Rightarrow> entry \<Rightarrow> policy \<Rightarrow> posting list result" where
  "transaction_postings c e p =
     bindE (validate c e) (\<lambda>_.
     let k = e_kind e;
         capital =
           (if k \<in> {DEPOSIT, WITHDRAWAL, TRANSFER_IN, TRANSFER_OUT}
            then [transaction_posting e CAPITAL (kind_value k)
                    (dmul c (if k \<in> {DEPOSIT, TRANSFER_IN} then 1 else dneg c 1) (gross c e)) 0]
            else []);
         income =
           (if k \<in> {DIVIDEND, INTEREST}
            then [transaction_posting e INCOME (kind_value k) (gross c e) 0] else [])
     in Inr (if k \<in> {COMMISSION, FEE, TAX}
             then capital @ income @
               [transaction_posting e FEE_POSTING (kind_value k)
                  (if gross c e \<noteq> 0 then gross c e else charges c e) 0]
             else capital @ income @ charge_postings e p))"

section \<open>outstanding\_postings\<close>

definition missing_mark :: currency_mark where
  "missing_mark = \<lparr>mk_rate = None,
     mk_provenance = [(''source'', VStr ''UNAVAILABLE''), (''data_state'', VStr ''UNAVAILABLE'')]\<rparr>"

text \<open>\<open>{**base, ...}\<close>: later keys overwrite.\<close>

definition extended :: "pyval dict \<Rightarrow> (string \<times> pyval) list \<Rightarrow> pyval dict" where
  "extended d kvs = foldl (\<lambda>d (k, v). AList.update k v d) d kvs"

definition movement_posting :: "ctx \<Rightarrow> currency_mark dict \<Rightarrow> cash_movement \<Rightarrow> posting" where
  "movement_posting c marks m =
     (let mark = dict_get marks (mv_currency m) missing_mark; payable = mv_amount m < 0 in
      \<lparr>po_key = mv_transaction_id m @ '':PENDING:'' @ mv_description m,
       po_category = (if payable then LIABILITY else ACCRUAL),
       po_kind = (if payable then ''payables'' else ''receivables''),
       po_effective_date = mv_trade_date m, po_currency = mv_currency m,
       po_native_amount = dabs c (mv_amount m), po_fx_rate = mk_rate mark,
       po_transaction_id = Some (mv_transaction_id m), po_account_id = mv_account_id m,
       po_instrument_id = None, po_adjustment_id = None,
       po_settlement_date = Some (mv_settlement_date m), po_capitalized_native = 0,
       po_provenance = extended (mk_provenance mark)
         [(''basis'', VStr ''PENDING SETTLEMENT''), (''leg'', VStr (mv_description m))]\<rparr>)"

definition adjustment_posting :: "currency_mark dict \<Rightarrow> balance_adjustment \<Rightarrow> posting" where
  "adjustment_posting marks a =
     (let mark = dict_get marks (ba_currency a) missing_mark in
      \<lparr>po_key = ba_id a @ '':BALANCE'',
       po_category = (if ba_bucket a \<in> set ASSET_KINDS then ACCRUAL else LIABILITY),
       po_kind = ba_bucket a, po_effective_date = ba_effective_date a,
       po_currency = ba_currency a, po_native_amount = ba_amount a, po_fx_rate = mk_rate mark,
       po_transaction_id = None, po_account_id = None, po_instrument_id = None,
       po_adjustment_id = Some (ba_id a), po_settlement_date = None, po_capitalized_native = 0,
       po_provenance = extended (mk_provenance mark)
         [(''basis'', VStr ''BALANCE ADJUSTMENT''), (''reason'', VStr (ba_reason a))]\<rparr>)"

definition outstanding_postings ::
  "ctx \<Rightarrow> cash_service \<Rightarrow> balance_adjustment list \<Rightarrow> date \<Rightarrow> currency_mark dict \<Rightarrow> posting list" where
  "outstanding_postings c ms adjustments as_of marks =
     map (movement_posting c marks)
       (filter (\<lambda>m. mv_trade_date m \<le> as_of \<and> as_of < mv_settlement_date m \<and> mv_amount m \<noteq> 0) ms) @
     map (adjustment_posting marks) (filter (\<lambda>a. ba_effective_date a \<le> as_of) adjustments)"

section \<open>summarize\_postings\<close>

type_synonym posting_totals = "rat option dict"

definition zero_posting_totals :: posting_totals where
  "zero_posting_totals =
     map (\<lambda>k. (k, Some 0))
       ([''external_flows'', ''income'', ''fees_paid'', ''taxes'', ''capitalized_charges'',
         ''expensed_fees''] @ BALANCE_BUCKETS)"

text \<open>A total is unavailable once one of its values is; an unknown key raises.\<close>

definition add_total ::
  "ctx \<Rightarrow> string \<Rightarrow> rat option \<Rightarrow> posting_totals \<Rightarrow> posting_totals result" where
  "add_total c k v t =
     (case map_of t k of
        None \<Rightarrow> Inl (KeyError k)
      | Some previous \<Rightarrow>
          Inr (AList.update k
                 (case (previous, v) of (Some x, Some y) \<Rightarrow> Some (dadd c x y) | _ \<Rightarrow> None) t))"

definition summarize_row :: "ctx \<Rightarrow> posting_totals \<Rightarrow> posting \<Rightarrow> posting_totals result" where
  "summarize_row c t r =
     (case po_category r of
        CAPITAL \<Rightarrow> add_total c ''external_flows'' (base_amount c r) t
      | INCOME \<Rightarrow> add_total c ''income'' (base_amount c r) t
      | FEE_POSTING \<Rightarrow>
          if po_kind r = ''TAX'' then add_total c ''taxes'' (base_amount c r) t
          else
            bindE (add_total c ''fees_paid'' (base_amount c r) t) (\<lambda>t.
            bindE (add_total c ''capitalized_charges'' (capitalized_base c r) t) (\<lambda>t.
            add_total c ''expensed_fees''
              (map_option (\<lambda>fx. dmul c (dsub c (po_native_amount r) (po_capitalized_native r)) fx)
                 (po_fx_rate r)) t))
      | _ \<Rightarrow> add_total c (po_kind r) (base_amount c r) t)"

definition summarize_postings :: "ctx \<Rightarrow> posting list \<Rightarrow> posting_totals result" where
  "summarize_postings c ps = foldE (summarize_row c) zero_posting_totals ps"

section \<open>What the totals are\<close>

text \<open>The additions one row makes, in order.\<close>

definition row_entries :: "ctx \<Rightarrow> posting \<Rightarrow> (string \<times> rat option) list" where
  "row_entries c r =
     (case po_category r of
        CAPITAL \<Rightarrow> [(''external_flows'', base_amount c r)]
      | INCOME \<Rightarrow> [(''income'', base_amount c r)]
      | FEE_POSTING \<Rightarrow>
          if po_kind r = ''TAX'' then [(''taxes'', base_amount c r)]
          else [(''fees_paid'', base_amount c r), (''capitalized_charges'', capitalized_base c r),
                (''expensed_fees'', map_option
                   (\<lambda>fx. dmul c (dsub c (po_native_amount r) (po_capitalized_native r)) fx)
                   (po_fx_rate r))]
      | _ \<Rightarrow> [(po_kind r, base_amount c r)])"

definition add_entry :: "ctx \<Rightarrow> posting_totals \<Rightarrow> string \<times> rat option \<Rightarrow> posting_totals result" where
  "add_entry c t kv = add_total c (fst kv) (snd kv) t"

definition opt_add :: "ctx \<Rightarrow> rat option \<Rightarrow> rat option \<Rightarrow> rat option" where
  "opt_add c p v = (case (p, v) of (Some x, Some y) \<Rightarrow> Some (dadd c x y) | _ \<Rightarrow> None)"

lemma add_total_Inr:
  "add_total c k v t = Inr t' \<longleftrightarrow>
     (\<exists>p. map_of t k = Some p \<and> t' = AList.update k (opt_add c p v) t)"
  by (auto simp: add_total_def opt_add_def split: option.splits)

lemma summarize_row_entries: "summarize_row c t r = foldE (add_entry c) t (row_entries c r)"
  by (auto simp: summarize_row_def row_entries_def add_entry_def split: category.splits)

lemma summarize_entries:
  "summarize_postings c ps = foldE (add_entry c) zero_posting_totals (concat (map (row_entries c) ps))"
proof -
  have "foldE (summarize_row c) t ps = foldE (add_entry c) t (concat (map (row_entries c) ps))" for t
  proof (induction ps arbitrary: t)
    case (Cons r ps)
    then show ?case
      by (cases "foldE (add_entry c) t (row_entries c r)")
        (simp_all add: summarize_row_entries foldE_append)
  qed simp
  then show ?thesis by (simp add: summarize_postings_def)
qed

lemma foldE_add_entry:
  "foldE (add_entry c) t kvs = Inr t' \<Longrightarrow> map_of t k = Some p \<Longrightarrow>
     map_of t' k = Some (foldl (opt_add c) p (map snd (filter (\<lambda>kv. fst kv = k) kvs)))"
  by (induction kvs arbitrary: t p)
    (auto simp: add_entry_def add_total_Inr bindE_Inr_iff split: if_splits)

lemma foldE_add_entry_defined:
  "(\<forall>kv \<in> set kvs. fst kv \<in> dom (map_of t)) \<longleftrightarrow> (\<exists>t'. foldE (add_entry c) t kvs = Inr t')"
proof (induction kvs arbitrary: t)
  case (Cons kv kvs)
  show ?case
  proof (cases "map_of t (fst kv)")
    case None
    then show ?thesis by (auto simp: add_entry_def add_total_def)
  next
    case (Some p)
    let ?t = "AList.update (fst kv) (opt_add c p (snd kv)) t"
    have a: "add_entry c t kv = Inr ?t" using Some by (auto simp: add_entry_def add_total_Inr)
    have "dom (map_of ?t) = dom (map_of t)" using Some by (auto split: if_splits)
    then have "(\<forall>kv \<in> set kvs. fst kv \<in> dom (map_of t)) = (\<exists>t'. foldE (add_entry c) ?t kvs = Inr t')"
      using Cons.IH [of ?t] by (simp only:)
    then show ?thesis using a Some by (simp add: domI)
  qed
qed simp

lemma foldl_opt_add:
  "foldl (opt_add c) p vs =
     (if p = None \<or> None \<in> set vs then None else Some (foldl (dadd c) (the p) (map the vs)))"
  by (induction vs arbitrary: p) (auto simp: opt_add_def split: option.splits)

definition row_values :: "ctx \<Rightarrow> string \<Rightarrow> posting list \<Rightarrow> rat option list" where
  "row_values c k ps = map snd (filter (\<lambda>kv. fst kv = k) (concat (map (row_entries c) ps)))"

lemma row_values_simps [simp]:
  "row_values c k [] = []"
  "row_values c k (r # ps) = map snd (filter (\<lambda>kv. fst kv = k) (row_entries c r)) @ row_values c k ps"
  "row_values c k (ps @ qs) = row_values c k ps @ row_values c k qs"
  by (simp_all add: row_values_def)

lemma total_keys: "dom (map_of zero_posting_totals) = set (map fst zero_posting_totals)"
  by (rule dom_map_of_conv_image_fst [THEN trans]) simp

lemma zero_total: "k \<in> set (map fst zero_posting_totals) \<Longrightarrow> map_of zero_posting_totals k = Some (Some 0)"
  by (auto simp: zero_posting_totals_def BALANCE_BUCKETS_def)

lemma summarize_total:
  assumes "summarize_postings c ps = Inr t" "k \<in> set (map fst zero_posting_totals)"
  shows "map_of t k = Some (if None \<in> set (row_values c k ps) then None
    else Some (dsum c (map the (row_values c k ps))))"
  using foldE_add_entry [OF assms(1) [unfolded summarize_entries] zero_total [OF assms(2)]]
  by (simp add: foldl_opt_add row_values_def dsum_def)

lemma summarize_defined:
  assumes "\<forall>r \<in> set ps. po_category r \<in> {ACCRUAL, LIABILITY} \<longrightarrow> po_kind r \<in> set BALANCE_BUCKETS"
  shows "\<exists>t. summarize_postings c ps = Inr t"
  unfolding summarize_entries foldE_add_entry_defined [symmetric] total_keys
  using assms
  by (auto simp: row_entries_def zero_posting_totals_def split: category.splits if_splits)

section \<open>Postings of a ledger entry and the ledger's own totals\<close>

definition flow_totals :: "ledger \<Rightarrow> rat \<times> rat \<times> rat \<times> rat \<times> rat" where
  "flow_totals s =
     (lg_external_flows s, lg_income s, lg_fees s, lg_taxes s, lg_capitalized_charges s)"

lemma flow_totals_simps [simp]:
  "flow_totals (modify_position i f s) = flow_totals s"
  "flow_totals (roll_position c i s) = flow_totals s"
  "flow_totals (s\<lparr>lg_adjustments := x\<rparr>) = flow_totals s"
  "flow_totals (s\<lparr>lg_cost_basis := cb\<rparr>) = flow_totals s"
  "flow_totals (s\<lparr>lg_last_date := l\<rparr>) = flow_totals s"
  "lg_policy (s\<lparr>lg_cost_basis := cb\<rparr>) = lg_policy s"
  by (simp_all add: flow_totals_def)

lemma move_cash_flow:
  "move_cash c s cur a fx e d = Inr s' \<Longrightarrow> flow_totals s' = flow_totals s \<and> lg_policy s' = lg_policy s"
  by (auto simp: move_cash_Inr flow_totals_def split: if_splits)

lemma corporate_action_flow:
  "corporate_action c u s e = Inr s' \<Longrightarrow> flow_totals s' = flow_totals s \<and> lg_policy s' = lg_policy s"
  by (auto simp: corporate_action_def split_action_def spinoff_action_def merger_action_def
      Let_def bindE_Inr_iff split: if_splits pyval.splits dest!: move_cash_flow)

text \<open>What a branch of \<open>apply\<close> adds to external flows and to income.\<close>

definition external_delta :: "entry \<Rightarrow> rat" where
  "external_delta e =
     (if e_kind e \<in> {DEPOSIT, TRANSFER_IN} then gross exact e * e_fx e
      else if e_kind e \<in> {WITHDRAWAL, TRANSFER_OUT} then - (gross exact e * e_fx e) else 0)"

definition income_delta :: "entry \<Rightarrow> rat" where
  "income_delta e = (if e_kind e \<in> {DIVIDEND, INTEREST} then gross exact e * e_fx e else 0)"

definition flow_step :: "ledger \<Rightarrow> entry \<Rightarrow> ledger \<Rightarrow> bool" where
  "flow_step s e s' \<longleftrightarrow>
     lg_external_flows s' = lg_external_flows s + external_delta e \<and>
     lg_income s' = lg_income s + income_delta e \<and> lg_fees s' = lg_fees s \<and>
     lg_taxes s' = lg_taxes s \<and> lg_capitalized_charges s' = lg_capitalized_charges s \<and>
     lg_policy s' = lg_policy s"

lemma flow_step_frame:
  "flow_totals t = flow_totals s \<and> lg_policy t = lg_policy s \<Longrightarrow>
   flow_step s e t \<longleftrightarrow> external_delta e = 0 \<and> income_delta e = 0"
  by (simp add: flow_totals_def flow_step_def)

lemma flow_step_external:
  "flow_totals t = flow_totals s \<and> lg_policy t = lg_policy s \<Longrightarrow> income_delta e = 0 \<Longrightarrow>
   flow_step s e (external exact t e' x) \<longleftrightarrow> x = external_delta e"
  by (auto simp: flow_totals_def flow_step_def)

lemma flow_step_income:
  "flow_totals t = flow_totals s \<and> lg_policy t = lg_policy s \<Longrightarrow> external_delta e = 0 \<Longrightarrow>
   flow_step s e (t\<lparr>lg_income := x\<rparr>) \<longleftrightarrow> x = lg_income s + income_delta e"
  "flow_totals t = flow_totals s \<and> lg_policy t = lg_policy s \<Longrightarrow> external_delta e = 0 \<Longrightarrow>
   flow_step s e (modify_position i f (t\<lparr>lg_income := x\<rparr>)) \<longleftrightarrow> x = lg_income s + income_delta e"
  by (simp_all add: flow_totals_def flow_step_def)

lemma move_cash_same:
  "move_cash c s cur a fx e d = Inr t \<Longrightarrow> flow_totals s = x \<and> lg_policy s = p \<Longrightarrow>
   flow_totals t = x \<and> lg_policy t = p"
  using move_cash_flow by blast

lemma security_movement_flow:
  assumes "security_movement exact u s e = Inr s'" "e_kind e \<in> set SECURITY_MOVEMENTS"
  shows "flow_step s e s'"
proof -
  obtain cb r where cash: "movement_cash exact (modify_position (instrument_or_empty e)
        (\<lambda>p. p\<lparr>ps_realised := dadd exact (ps_realised p) r\<rparr>)
        (roll_position exact (instrument_or_empty e) (s\<lparr>lg_cost_basis := cb\<rparr>))) e = Inr s'"
      (is "movement_cash exact ?t e = _")
    using assms(1) by (auto simp: security_movement_def Let_def bindE_Inr_iff)
  have t: "flow_totals ?t = flow_totals s \<and> lg_policy ?t = lg_policy s" by simp
  show ?thesis
  proof (cases "e_kind e \<in> {TRANSFER_IN, TRANSFER_OUT}")
    case True
    then show ?thesis using cash flow_step_external [OF t]
      by (auto simp: movement_cash_def Let_def external_delta_def income_delta_def)
  next
    case False
    then have "flow_totals s' = flow_totals s \<and> lg_policy s' = lg_policy s"
      using cash move_cash_same [OF _ t] by (auto simp: movement_cash_def Let_def)
    then show ?thesis using False assms(2)
      by (auto simp: flow_step_frame external_delta_def income_delta_def SECURITY_MOVEMENTS_def)
  qed
qed

lemma apply_kind_flow:
  assumes "apply_kind exact u s e = Inr s'"
  shows "flow_step s e s'"
proof (cases "e_kind e \<in> set SECURITY_MOVEMENTS \<and> has_instrument e")
  case True
  then show ?thesis using assms security_movement_flow [of u s e s']
    by (auto simp: apply_kind_def Let_def)
next
  case trade: False
  have refl: "flow_totals s = flow_totals s \<and> lg_policy s = lg_policy s" by simp
  show ?thesis
  proof (cases "e_kind e \<in> {DEPOSIT, WITHDRAWAL, TRANSFER_IN, TRANSFER_OUT}")
    case True
    define sg :: rat where "sg = (if e_kind e \<in> {DEPOSIT, TRANSFER_IN} then 1 else dneg exact 1)"
    have b: "apply_kind exact u s e =
        bindE (move_cash exact s (e_currency e) (dmul exact sg (gross exact e)) (e_fx e) e ''CAPITAL'')
          (\<lambda>t. Inr (external exact t e (dmul exact sg (dmul exact (gross exact e) (e_fx e)))))"
      unfolding apply_kind_def Let_def sg_def by (simp only: trade True if_True if_False)
    obtain t where t: "move_cash exact s (e_currency e) (sg * gross exact e) (e_fx e) e ''CAPITAL'' = Inr t"
      and s': "s' = external exact t e (sg * (gross exact e * e_fx e))"
      using assms unfolding b by (auto simp: bindE_Inr_iff)
    have ex: "sg * (gross exact e * e_fx e) = external_delta e"
      using True by (auto simp: sg_def external_delta_def)
    have "flow_totals t = flow_totals s \<and> lg_policy t = lg_policy s"
      by (rule move_cash_same [OF t refl])
    then show ?thesis unfolding s' ex using True by (subst flow_step_external) (auto simp: income_delta_def)
  next
    case capital: False
    show ?thesis
    proof (cases "e_kind e \<in> {DIVIDEND, INTEREST}")
      case True
      obtain t where t: "move_cash exact s (e_currency e) (gross exact e) (e_fx e) e ''INCOME'' = Inr t"
        and s': "s' = (if has_instrument e then modify_position (instrument_or_empty e)
            (\<lambda>p. p\<lparr>ps_income := ps_income p + gross exact e * e_fx e\<rparr>)
            (t\<lparr>lg_income := lg_income t + gross exact e * e_fx e\<rparr>)
          else t\<lparr>lg_income := lg_income t + gross exact e * e_fx e\<rparr>)"
        using True capital trade assms unfolding apply_kind_def Let_def
        by (auto simp: bindE_Inr_iff)
      have f: "flow_totals t = flow_totals s \<and> lg_policy t = lg_policy s"
        by (rule move_cash_same [OF t refl])
      have "external_delta e = 0" using True by (auto simp: external_delta_def)
      moreover have "lg_income t = lg_income s" using f by (simp add: flow_totals_def)
      ultimately show ?thesis unfolding s' using True
        by (auto simp: flow_step_income [OF f] income_delta_def)
    next
      case income: False
      have "flow_totals s' = flow_totals s \<and> lg_policy s' = lg_policy s"
        using capital income trade assms unfolding apply_kind_def Let_def
        by (auto simp: bindE_Inr_iff split: if_splits dest!: corporate_action_flow move_cash_flow)
      then show ?thesis using capital income
        by (auto simp: flow_step_frame external_delta_def income_delta_def)
    qed
  qed
qed

section \<open>The postings of an entry\<close>

definition value_sum :: "string \<Rightarrow> posting list \<Rightarrow> rat" where
  "value_sum k ps = sum_list (map the (row_values exact k ps))"

lemma value_sum_append [simp]: "value_sum k (ps @ qs) = value_sum k ps + value_sum k qs"
  by (simp add: value_sum_def)

lemma value_sum_Nil [simp]: "value_sum k [] = 0"
  by (simp add: value_sum_def)

lemma value_sum_posting:
  "value_sum k [transaction_posting e cat kind a cap] =
     (case cat of
        CAPITAL \<Rightarrow> if k = ''external_flows'' then a * e_fx e else 0
      | INCOME \<Rightarrow> if k = ''income'' then a * e_fx e else 0
      | FEE_POSTING \<Rightarrow>
          if kind = ''TAX'' then if k = ''taxes'' then a * e_fx e else 0
          else if k = ''fees_paid'' then a * e_fx e
          else if k = ''capitalized_charges'' then cap * e_fx e
          else if k = ''expensed_fees'' then (a - cap) * e_fx e else 0
      | _ \<Rightarrow> if k = kind then a * e_fx e else 0)"
proof (cases cat)
  case FEE_POSTING
  then show ?thesis
    by (cases "kind = ''TAX''"; cases "k = ''taxes''"; cases "k = ''fees_paid''";
        cases "k = ''capitalized_charges''"; cases "k = ''expensed_fees''")
      (simp_all add: value_sum_def row_entries_def transaction_posting_def base_amount_def
        capitalized_base_def)
qed (auto simp: value_sum_def row_entries_def transaction_posting_def base_amount_def)

lemma optional_row:
  "value_sum k (if a \<noteq> 0 then [transaction_posting e FEE_POSTING kind a (if b then a else 0)] else []) =
     (if kind = ''TAX'' then if k = ''taxes'' then a * e_fx e else 0
      else if k = ''fees_paid'' then a * e_fx e
      else if k = ''capitalized_charges'' then (if b then a else 0) * e_fx e
      else if k = ''expensed_fees'' then (a - (if b then a else 0)) * e_fx e else 0)"
  by (cases "a = 0") (simp_all add: value_sum_posting)

lemma charge_rows:
  "charge_postings e p =
     (if e_commission e \<noteq> 0 then [transaction_posting e FEE_POSTING ''COMMISSION'' (e_commission e)
        (if capitalizable (e_kind e) \<and> p_capitalize_commissions p then e_commission e else 0)] else []) @
     (if e_fee e \<noteq> 0 then [transaction_posting e FEE_POSTING ''FEE'' (e_fee e)
        (if capitalizable (e_kind e) \<and> p_capitalize_fees p then e_fee e else 0)] else []) @
     (if e_tax e \<noteq> 0 then [transaction_posting e FEE_POSTING ''TAX'' (e_tax e)
        (if False then e_tax e else 0)] else [])"
  by (simp add: charge_postings_def List.map_filter_simps)

lemma charge_value_sum:
  "value_sum k (charge_postings e p) =
     (if k = ''fees_paid'' then (e_fee e + e_commission e) * e_fx e
      else if k = ''taxes'' then e_tax e * e_fx e
      else if k = ''capitalized_charges'' then capitalized exact p e * e_fx e
      else if k = ''expensed_fees'' then (e_fee e + e_commission e - capitalized exact p e) * e_fx e
      else 0)"
  unfolding charge_rows value_sum_append optional_row capitalized_def exact_simps
  by (simp add: algebra_simps)

text \<open>The totals of an entry's postings are what the ledger adds for the entry.\<close>

definition posted :: "(string \<Rightarrow> rat) \<Rightarrow> ledger \<Rightarrow> ledger \<Rightarrow> bool" where
  "posted f s s' \<longleftrightarrow>
     lg_external_flows s' = lg_external_flows s + f ''external_flows'' \<and>
     lg_income s' = lg_income s + f ''income'' \<and> lg_fees s' = lg_fees s + f ''fees_paid'' \<and>
     lg_taxes s' = lg_taxes s + f ''taxes'' \<and>
     lg_capitalized_charges s' = lg_capitalized_charges s + f ''capitalized_charges'' \<and>
     f ''expensed_fees'' = f ''fees_paid'' - f ''capitalized_charges'' \<and> lg_policy s' = lg_policy s"

lemma expense_posted:
  assumes "expense exact s e = Inr s'" "e_kind e \<in> {COMMISSION, FEE, TAX}"
    "transaction_postings exact e p = Inr ps"
  shows "posted (\<lambda>k. value_sum k ps) s s'"
proof -
  let ?a = "if gross exact e \<noteq> 0 then gross exact e else charges exact e"
  have ps: "ps = [transaction_posting e FEE_POSTING (kind_value (e_kind e)) ?a 0]"
    using assms(2,3) by (auto simp: transaction_postings_def Let_def bindE_Inr_iff)
  obtain t where t: "move_cash exact s (e_currency e) (- ?a) (e_fx e) e (kind_value (e_kind e)) = Inr t"
    and s': "s' = (if has_instrument e then modify_position (instrument_or_empty e)
        (\<lambda>p. p\<lparr>ps_charges := ps_charges p + ?a * e_fx e\<rparr>)
        (if e_kind e = TAX then t\<lparr>lg_taxes := lg_taxes t + ?a * e_fx e\<rparr>
         else t\<lparr>lg_fees := lg_fees t + ?a * e_fx e\<rparr>)
      else (if e_kind e = TAX then t\<lparr>lg_taxes := lg_taxes t + ?a * e_fx e\<rparr>
         else t\<lparr>lg_fees := lg_fees t + ?a * e_fx e\<rparr>))"
    using assms(1) unfolding expense_def Let_def exact_simps by (auto simp: bindE_Inr_iff)
  have "flow_totals t = flow_totals s \<and> lg_policy t = lg_policy s" using move_cash_flow [OF t] .
  then show ?thesis using assms(2)
    unfolding s' ps by (auto simp: posted_def value_sum_posting flow_totals_def)
qed

lemma charges_posted:
  assumes "apply_charges exact s e = Inr s'"
  shows "posted (\<lambda>k. value_sum k (charge_postings e (lg_policy s))) s s'"
proof -
  obtain t where t: "move_cash exact s (e_currency e) (- charges exact e) (e_fx e) e ''CHARGES'' = Inr t"
    and f: "flow_totals s' = (lg_external_flows t, lg_income t, lg_fees t + (e_fee e + e_commission e) * e_fx e,
        lg_taxes t + e_tax e * e_fx e, lg_capitalized_charges t + capitalized exact (lg_policy t) e * e_fx e)"
      "lg_policy s' = lg_policy t"
    using assms unfolding apply_charges_def Let_def
    by (auto simp: bindE_Inr_iff flow_totals_def)
  then show ?thesis using move_cash_flow [OF t]
    by (simp add: posted_def charge_value_sum flow_totals_def algebra_simps)
qed

lemma entry_posted:
  assumes "apply_entry exact u s e = Inr s'" "transaction_postings exact e (lg_policy s) = Inr ps"
  shows "posted (\<lambda>k. value_sum k ps) s s'"
proof (cases "e_kind e \<in> {COMMISSION, FEE, TAX}")
  case True
  then obtain t where t: "expense exact s e = Inr t" and s': "s' = t\<lparr>lg_last_date := Some (e_day e)\<rparr>"
    using assms(1) by (auto simp: apply_entry_def bindE_Inr_iff)
  show ?thesis using expense_posted [OF t True assms(2)] by (simp add: posted_def s')
next
  case False
  then obtain t w where t: "apply_kind exact u s e = Inr t" and w: "apply_charges exact t e = Inr w"
    and s': "s' = w\<lparr>lg_last_date := Some (e_day e)\<rparr>"
    using assms(1) by (auto simp: apply_entry_def bindE_Inr_iff)
  define sg :: rat where "sg = (if e_kind e \<in> {DEPOSIT, TRANSFER_IN} then 1 else dneg exact 1)"
  have ps: "ps =
      (if e_kind e \<in> {DEPOSIT, WITHDRAWAL, TRANSFER_IN, TRANSFER_OUT}
       then [transaction_posting e CAPITAL (kind_value (e_kind e)) (dmul exact sg (gross exact e)) 0] else []) @
      (if e_kind e \<in> {DIVIDEND, INTEREST}
       then [transaction_posting e INCOME (kind_value (e_kind e)) (gross exact e) 0] else []) @
      charge_postings e (lg_policy s)"
    using assms(2) False unfolding transaction_postings_def Let_def sg_def
    by (simp only: bindE_Inr_iff if_False) simp
  have f: "flow_step s e t" by (rule apply_kind_flow [OF t])
  then have c: "posted (\<lambda>k. value_sum k (charge_postings e (lg_policy s))) t w"
    using charges_posted [OF w] by (simp add: flow_step_def)
  have "value_sum k ps = (if k = ''external_flows'' then external_delta e else 0) +
      (if k = ''income'' then income_delta e else 0) + value_sum k (charge_postings e (lg_policy s))" for k
    unfolding ps value_sum_append
    by (auto simp: value_sum_posting external_delta_def income_delta_def sg_def)
  then show ?thesis using f c by (simp add: posted_def flow_step_def s')
qed

lemma posted_trans:
  "posted f s t \<Longrightarrow> posted g t w \<Longrightarrow> posted (\<lambda>k. f k + g k) s w"
  by (simp add: posted_def)

lemma transaction_postings_defined: "valid_entry c e \<Longrightarrow> \<exists>ps. transaction_postings c e p = Inr ps"
  by (simp add: transaction_postings_def bindE_Inr_iff validate_iff Let_def)

lemma replay_posted:
  "replay exact u s es = Inr s' \<Longrightarrow>
     \<exists>rss. mapE (\<lambda>e. transaction_postings exact e (lg_policy s)) es = Inr rss \<and>
       posted (\<lambda>k. value_sum k (concat rss)) s s'"
proof (induction es arbitrary: s)
  case Nil
  then show ?case by (simp add: replay_def posted_def)
next
  case (Cons e es)
  then obtain t where t: "apply_entry exact u s e = Inr t" "replay exact u t es = Inr s'"
    by (auto simp: replay_def bindE_Inr_iff)
  have "valid_entry exact e"
    using apply_entry_validate [OF t(1)] ledger_validate_valid by blast
  then obtain ps where ps: "transaction_postings exact e (lg_policy s) = Inr ps"
    using transaction_postings_defined by blast
  have p: "posted (\<lambda>k. value_sum k ps) s t" by (rule entry_posted [OF t(1) ps])
  then have pol: "lg_policy t = lg_policy s" by (simp add: posted_def)
  obtain rss where r: "mapE (\<lambda>e. transaction_postings exact e (lg_policy s)) es = Inr rss"
    and q: "posted (\<lambda>k. value_sum k (concat rss)) t s'"
    using Cons.IH [OF t(2)] unfolding pol by blast
  show ?case using posted_trans [OF p q] by (simp add: ps r)
qed

lemma charge_row:
  "r \<in> set (charge_postings e p) \<Longrightarrow> \<exists>kind a cap. r = transaction_posting e FEE_POSTING kind a cap"
  by (auto simp: charge_rows split: if_splits)

lemma transaction_posting_fields [simp]:
  "po_fx_rate (transaction_posting e cat kind a cap) = Some (e_fx e)"
  "po_category (transaction_posting e cat kind a cap) = cat"
  by (simp_all add: transaction_posting_def)

lemma transaction_rows:
  assumes "transaction_postings c e p = Inr ps" "r \<in> set ps"
  shows "po_fx_rate r = Some (e_fx e) \<and> po_category r \<in> {CAPITAL, INCOME, FEE_POSTING}"
proof -
  define xs where "xs = (if e_kind e \<in> {DEPOSIT, WITHDRAWAL, TRANSFER_IN, TRANSFER_OUT}
    then [transaction_posting e CAPITAL (kind_value (e_kind e))
      (dmul c (if e_kind e \<in> {DEPOSIT, TRANSFER_IN} then 1 else dneg c 1) (gross c e)) 0] else [])"
  define ys where "ys = (if e_kind e \<in> {DIVIDEND, INTEREST}
    then [transaction_posting e INCOME (kind_value (e_kind e)) (gross c e) 0] else [])"
  define zs where "zs = (if e_kind e \<in> {COMMISSION, FEE, TAX}
    then [transaction_posting e FEE_POSTING (kind_value (e_kind e))
      (if gross c e \<noteq> 0 then gross c e else charges c e) 0] else charge_postings e p)"
  have "ps = xs @ ys @ zs"
    using assms(1) unfolding transaction_postings_def Let_def xs_def [symmetric] ys_def [symmetric]
    by (cases "e_kind e \<in> {COMMISSION, FEE, TAX}")
      (simp_all only: bindE_Inr_iff sum.inject if_True if_False zs_def, auto)
  then have "r \<in> set xs \<or> r \<in> set ys \<or> r \<in> set zs" using assms(2) by auto
  then show ?thesis
    by (elim disjE) (auto simp: xs_def ys_def zs_def split: if_splits dest!: charge_row)
qed

lemma row_values_known:
  assumes "\<forall>r \<in> set ps. po_fx_rate r \<noteq> None"
  shows "None \<notin> set (row_values c k ps)"
proof -
  have "None \<notin> set (map snd (row_entries c r))" if "r \<in> set ps" for r
    using that assms
    by (auto simp: row_entries_def base_amount_def capitalized_base_def split: category.splits)
  then show ?thesis by (fastforce simp: row_values_def)
qed

lemma mapE_set: "mapE f xs = Inr ys \<Longrightarrow> y \<in> set ys \<Longrightarrow> \<exists>x \<in> set xs. f x = Inr y"
  by (induction xs arbitrary: ys) (auto simp: bindE_Inr_iff)

section \<open>Properties\<close>

text \<open>C7: the audit trail reconciles with the ledger. In ideal arithmetic, for every accepted
  replay the postings of its entries exist and can be summarised, and the summary's external
  flows, income, fees paid, taxes, capitalised charges and expensed fees are exactly the ledger's
  running totals.\<close>

theorem postings_reconcile:
  assumes "replay exact u (new_ledger p) es = Inr s"
  shows "\<exists>rss t. mapE (\<lambda>e. transaction_postings exact e p) es = Inr rss \<and>
    summarize_postings exact (concat rss) = Inr t \<and>
    map_of t ''external_flows'' = Some (Some (lg_external_flows s)) \<and>
    map_of t ''income'' = Some (Some (lg_income s)) \<and>
    map_of t ''fees_paid'' = Some (Some (lg_fees s)) \<and>
    map_of t ''taxes'' = Some (Some (lg_taxes s)) \<and>
    map_of t ''capitalized_charges'' = Some (Some (lg_capitalized_charges s)) \<and>
    map_of t ''expensed_fees'' = Some (Some (expensed_fees exact s))"
proof -
  have n: "lg_policy (new_ledger p) = p" by (simp add: new_ledger_def)
  obtain rss where r: "mapE (\<lambda>e. transaction_postings exact e p) es = Inr rss"
    and q: "posted (\<lambda>k. value_sum k (concat rss)) (new_ledger p) s"
    using replay_posted [OF assms] unfolding n by blast
  have k: "\<forall>x \<in> set (concat rss). po_fx_rate x \<noteq> None \<and> po_category x \<in> {CAPITAL, INCOME, FEE_POSTING}"
    using mapE_set [OF r] transaction_rows by fastforce
  have "\<forall>r \<in> set (concat rss). po_category r \<in> {ACCRUAL, LIABILITY} \<longrightarrow> po_kind r \<in> set BALANCE_BUCKETS"
    using k by fastforce
  then obtain t where t: "summarize_postings exact (concat rss) = Inr t"
    using summarize_defined by blast
  have "map_of t key = Some (Some (value_sum key (concat rss)))"
    if "key \<in> set (map fst zero_posting_totals)" for key
    using summarize_total [OF t that] row_values_known [of "concat rss" exact key] k
    by (simp add: value_sum_def)
  then show ?thesis using r t q
    by (intro exI [of _ rss] exI [of _ t])
      (simp add: zero_posting_totals_def posted_def new_ledger_def expensed_fees_def)
qed

text \<open>A deposit and a purchase.\<close>

theorem postings_reconcile_witness:
  "\<exists>rss t. mapE (\<lambda>e. transaction_postings exact e default_policy) sample_book = Inr rss \<and>
    summarize_postings exact (concat rss) = Inr t \<and> map_of t ''external_flows'' = Some (Some 1000)"
proof -
  have "case replay exact (\<lambda>t. t) (new_ledger default_policy) sample_book of
      Inl _ \<Rightarrow> False | Inr s \<Rightarrow> lg_external_flows s = 1000" by code_simp
  then obtain s where s: "replay exact (\<lambda>t. t) (new_ledger default_policy) sample_book = Inr s"
      "lg_external_flows s = 1000" by (auto split: sum.splits)
  show ?thesis using postings_reconcile [OF s(1)] s(2) by auto
qed

text \<open>A missing mark is never filled with zero. In the default context, the summary's
  total of a balance bucket is unavailable exactly when one of the bucket's postings has no
  exchange rate, and otherwise it is the sum of their marked amounts.\<close>

theorem missing_marks_not_zero:
  assumes "summarize_postings (prec 28) ps = Inr t" "k \<in> set BALANCE_BUCKETS"
  shows "let own = filter (\<lambda>r. po_category r \<in> {ACCRUAL, LIABILITY} \<and> po_kind r = k) ps in
    map_of t k = Some (if \<exists>r \<in> set own. po_fx_rate r = None then None
      else Some (dsum (prec 28) (map (\<lambda>r. the (base_amount (prec 28) r)) own)))"
proof -
  have "k \<notin> {''external_flows'', ''income'', ''fees_paid'', ''taxes'', ''capitalized_charges'',
      ''expensed_fees''}" using assms(2) by (auto simp: BALANCE_BUCKETS_def)
  then have "row_values (prec 28) k ps = map (base_amount (prec 28))
      (filter (\<lambda>r. po_category r \<in> {ACCRUAL, LIABILITY} \<and> po_kind r = k) ps)"
    by (induction ps) (auto simp: row_entries_def split: category.split)
  moreover have "k \<in> set (map fst zero_posting_totals)"
    using assms(2) by (auto simp: zero_posting_totals_def)
  ultimately show ?thesis
    using summarize_total [OF assms(1)]
    by (auto simp: Let_def comp_def base_amount_def image_iff)
qed

text \<open>An unmarked receivable next to a marked one.\<close>

theorem missing_marks_not_zero_witness:
  "let m = \<lparr>mv_transaction_id = ''t'', mv_currency = ''EUR'', mv_amount = 10, mv_fx = 1,
        mv_trade_date = 1, mv_settlement_date = 5, mv_account_id = None, mv_description = ''INCOME''\<rparr>
   in case summarize_postings (prec 28)
        (outstanding_postings (prec 28) [m, m\<lparr>mv_currency := ''USD''\<rparr>] [] 3
          [(''USD'', \<lparr>mk_rate = Some 1, mk_provenance = []\<rparr>)]) of
        Inl _ \<Rightarrow> False | Inr t \<Rightarrow> map_of t ''receivables'' = Some None"
proof -
  let ?m = "\<lparr>mv_transaction_id = ''t'', mv_currency = ''EUR'', mv_amount = 10, mv_fx = 1,
      mv_trade_date = 1, mv_settlement_date = 5, mv_account_id = None, mv_description = ''INCOME''\<rparr>"
  let ?ps = "outstanding_postings (prec 28) [?m, ?m\<lparr>mv_currency := ''USD''\<rparr>] [] 3
      [(''USD'', \<lparr>mk_rate = Some 1, mk_provenance = []\<rparr>)]"
  obtain t where t: "summarize_postings (prec 28) ?ps = Inr t"
    using summarize_defined [of ?ps "prec 28"]
    by (auto simp: outstanding_postings_def movement_posting_def Let_def BALANCE_BUCKETS_def)
  have "\<exists>r \<in> set (filter (\<lambda>r. po_category r \<in> {ACCRUAL, LIABILITY} \<and> po_kind r = ''receivables'') ?ps).
      po_fx_rate r = None"
    by (simp add: outstanding_postings_def movement_posting_def Let_def dict_get_def missing_mark_def)
  then have "map_of t ''receivables'' = Some None"
    using missing_marks_not_zero [OF t, of "''receivables''"] unfolding Let_def
    by (simp add: BALANCE_BUCKETS_def)
  then show ?thesis unfolding Let_def t sum.case .
qed

end
