(* ===== verification/Position_Pnl.thy ===== *)
theory Position_Pnl
  imports Ledger
begin

text \<open>
  \<open>portfolio_domain/position_pnl.py\<close>: the attribution session of one valuation interval. The
  session keeps, per instrument, the units, a reference value that follows corporate actions, the
  internal transfers and the external security flows; \<open>finish\<close> turns them with the closing
  marks and the recorded cash into a P&L per instrument. An unavailable mark is \<open>None\<close>. The
  text rendering \<open>payload\<close> is not modelled.
\<close>

section \<open>State\<close>

record pnl_session =
  pn_quantities :: "rat dict"
  pn_opening :: "rat option dict"
  pn_reference :: "rat option dict"
  pn_transfers :: "rat option dict"
  pn_external :: "rat dict"
  pn_entries :: "entry dict"
  pn_warnings :: "string list dict"

record period_pnl =
  pp_instrument_id :: string
  pp_opening_value :: "rat option"
  pp_closing_value :: "rat option"
  pp_economic_cash :: rat
  pp_external_security_flow :: rat
  pp_internal_transfer :: "rat option"
  pp_pnl :: "rat option"
  pp_warnings :: "string list"

definition new_session :: "rat dict \<Rightarrow> rat option dict \<Rightarrow> pnl_session" where
  "new_session opening_quantities opening_values =
     (let opening = map (\<lambda>(k, q). (k, dict_get opening_values k None))
            (filter (\<lambda>(k, q). q \<noteq> 0) opening_quantities)
      in \<lparr>pn_quantities = opening_quantities, pn_opening = opening, pn_reference = opening,
          pn_transfers = [], pn_external = [], pn_entries = [], pn_warnings = []\<rparr>)"

section \<open>Recording an entry\<close>

text \<open>\<open>old + amount\<close> when both are known.\<close>

definition known_add :: "ctx \<Rightarrow> rat option \<Rightarrow> rat option \<Rightarrow> rat option" where
  "known_add c old amount = (case (old, amount) of (Some x, Some y) \<Rightarrow> Some (dadd c x y) | _ \<Rightarrow> None)"

definition add_reference :: "ctx \<Rightarrow> string \<Rightarrow> rat option \<Rightarrow> pnl_session \<Rightarrow> pnl_session" where
  "add_reference c key amount s =
     s\<lparr>pn_reference :=
         AList.update key (known_add c (dict_get (pn_reference s) key (Some 0)) amount) (pn_reference s)\<rparr>"

definition transfer_leg ::
  "ctx \<Rightarrow> rat option \<Rightarrow> pnl_session \<Rightarrow> string \<times> rat \<Rightarrow> pnl_session" where
  "transfer_leg c transferred s leg =
     (let (key, sign) = leg;
          delta = map_option (\<lambda>x. dmul c x sign) transferred;
          s = s\<lparr>pn_transfers := AList.update key
                  (known_add c (dict_get (pn_transfers s) key (Some 0)) delta) (pn_transfers s)\<rparr>;
          s = add_reference c key delta s
      in if transferred = None
         then s\<lparr>pn_warnings := AList.update key (dict_get (pn_warnings s) key [] @
                  [''Corporate transfer reference value is unavailable'']) (pn_warnings s)\<rparr>
         else s)"

definition transfer :: "ctx \<Rightarrow> string \<Rightarrow> string \<Rightarrow> rat \<Rightarrow> pnl_session \<Rightarrow> pnl_session result" where
  "transfer c parent child fraction s =
     bindE (decimal_of c fraction ''reference allocation'' False True) (\<lambda>_.
     bindE (ensure (\<not> (1 < fraction \<or> parent = child))
        (ValueError
          ''Corporate allocation requires distinct instruments and a fraction at most one'')) (\<lambda>_.
     let transferred =
           map_option (\<lambda>x. dmul c x fraction) (dict_get (pn_reference s) parent (Some 0))
     in Inr (foldl (transfer_leg c transferred) s [(parent, dneg c 1), (child, 1)])))"

definition remove_units :: "ctx \<Rightarrow> string \<Rightarrow> rat \<Rightarrow> pnl_session \<Rightarrow> pnl_session result" where
  "remove_units c key amount s =
     (let old = dict_get (pn_quantities s) key 0 in
      if old = 0 \<or> dabs c old < amount
      then Inl (ValueError ''Attribution closing units exceed the recorded position'')
      else
        let remaining = dsub c (dabs c old) amount;
            ref = map_option (\<lambda>x. ddiv c (dmul c x remaining) (dabs c old))
                    (dict_get (pn_reference s) key (Some 0))
        in Inr (s\<lparr>pn_reference :=
                    AList.update key (if remaining = 0 then Some 0 else ref) (pn_reference s),
                  pn_quantities :=
                    AList.update key (if 0 < old then remaining else dneg c remaining)
                      (pn_quantities s)\<rparr>))"

definition set_units :: "string \<Rightarrow> rat \<Rightarrow> pnl_session \<Rightarrow> pnl_session" where
  "set_units key q s = s\<lparr>pn_quantities := AList.update key q (pn_quantities s)\<rparr>"

definition record_action :: "ctx \<Rightarrow> entry \<Rightarrow> string \<Rightarrow> pnl_session \<Rightarrow> pnl_session result" where
  "record_action c e key s =
     (let quantity = dict_get (pn_quantities s) key 0 in
      case meta_get (e_metadata e) ''child_instrument_id'' of
        VStr child \<Rightarrow>
          if child = []
          then Inl (ValueError ''Corporate attribution requires a successor instrument'')
          else if e_kind e = SPINOFF
          then
            bindE (meta_decimal c e ''cost_allocation'' 0 ''cost allocation'' False True) (\<lambda>fraction.
            bindE (transfer c key child fraction s) (\<lambda>s.
            Inr (set_units child (dadd c (dict_get (pn_quantities s) child 0) (e_quantity e)) s)))
          else
            bindE (meta_decimal c e ''cash_cost_allocation'' 0 ''cash cost allocation'' False True)
            (\<lambda>cash_fraction.
            bindE (transfer c key child (dsub c 1 cash_fraction) s) (\<lambda>s.
            bindE (meta_decimal c e ''exchange_ratio'' 0 ''exchange ratio'' True False) (\<lambda>ratio.
            let s = set_units child
                  (dadd c (dict_get (pn_quantities s) child 0) (dmul c quantity ratio)) s;
                s = set_units key 0 s
            in Inr (s\<lparr>pn_reference := AList.update key (Some 0) (pn_reference s)\<rparr>))))
      | _ \<Rightarrow> Inl (ValueError ''Corporate attribution requires a successor instrument''))"

definition record_units :: "ctx \<Rightarrow> entry \<Rightarrow> string \<Rightarrow> pnl_session \<Rightarrow> pnl_session result" where
  "record_units c e key s =
     (let k = e_kind e; quantity = dict_get (pn_quantities s) key 0 in
      if k \<in> {BUY, SHORT, TRANSFER_IN} then
        let sign = (if k = SHORT then dneg c 1 else 1);
            s = set_units key (dadd c quantity (dmul c sign (e_quantity e))) s
        in Inr (add_reference c key (Some (dmul c (dmul c sign (gross c e)) (e_fx e))) s)
      else if k \<in> {SELL, COVER, TRANSFER_OUT} then remove_units c key (e_quantity e) s
      else if k \<in> {SPLIT, REVERSE_SPLIT} then
        bindE (meta_decimal c e ''ratio'' (e_quantity e) ''split ratio'' True False) (\<lambda>ratio.
        Inr (set_units key (dmul c quantity ratio) s))
      else if k \<in> {SPINOFF, MERGER} then record_action c e key s
      else Inr s)"

definition record_entry :: "ctx \<Rightarrow> pnl_session \<Rightarrow> entry \<Rightarrow> pnl_session result" where
  "record_entry c s e =
     bindE (validate c e) (\<lambda>_.
     bindE (ensure (map_of (pn_entries s) (e_id e) = None)
        (ValueError ''Attribution interval contains a duplicate transaction'')) (\<lambda>_.
     let s = s\<lparr>pn_entries := AList.update (e_id e) e (pn_entries s)\<rparr> in
     case e_instrument_id e of
       None \<Rightarrow> Inr s
     | Some key \<Rightarrow>
         bindE (record_units c e key s) (\<lambda>s.
         Inr (if e_kind e \<in> {TRANSFER_IN, TRANSFER_OUT}
              then let sign = (if e_kind e = TRANSFER_IN then 1 else dneg c 1)
                   in s\<lparr>pn_external := AList.update key
                          (dadd c (dict_get (pn_external s) key 0)
                             (dmul c (dmul c sign (gross c e)) (e_fx e))) (pn_external s)\<rparr>
              else s))))"

section \<open>Finishing the interval\<close>

definition cash_kind :: "txn_kind \<Rightarrow> bool" where
  "cash_kind k \<longleftrightarrow>
     k \<in> {BUY, SELL, SHORT, COVER, DIVIDEND, INTEREST, COMMISSION, FEE, TAX, TRANSFER_IN,
          TRANSFER_OUT, SPLIT, REVERSE_SPLIT, SPINOFF, MERGER}"

text \<open>The instrument a movement's cash is attributed to.\<close>

definition cash_key :: "entry dict \<Rightarrow> cash_movement \<Rightarrow> string option" where
  "cash_key entries m =
     (case map_of entries (mv_transaction_id m) of
        None \<Rightarrow> None
      | Some e \<Rightarrow> if has_instrument e \<and> cash_kind (e_kind e) then e_instrument_id e else None)"

definition add_cash :: "ctx \<Rightarrow> entry dict \<Rightarrow> rat dict \<Rightarrow> cash_movement \<Rightarrow> rat dict" where
  "add_cash c entries d m =
     (case cash_key entries m of
        None \<Rightarrow> d
      | Some key \<Rightarrow>
          AList.update key (dadd c (dict_get d key 0) (dmul c (mv_amount m) (mv_fx m))) d)"

definition interval_cash :: "ctx \<Rightarrow> pnl_session \<Rightarrow> cash_service \<Rightarrow> rat dict" where
  "interval_cash c s ms = foldl (add_cash c (pn_entries s)) [] ms"

text \<open>\<open>tuple(dict.fromkeys(warnings))\<close>: the first occurrence of each.\<close>

definition first_occurrences :: "'a list \<Rightarrow> 'a list" where
  "first_occurrences xs = rev (remdups (rev xs))"

definition period_row ::
  "ctx \<Rightarrow> pnl_session \<Rightarrow> rat dict \<Rightarrow> rat option dict \<Rightarrow> string \<Rightarrow> period_pnl" where
  "period_row c s cash closing_values key =
     (let opening = dict_get (pn_opening s) key (Some 0);
          closing = (if dict_get (pn_quantities s) key 0 \<noteq> 0
                     then dict_get closing_values key None else Some 0);
          transferred = dict_get (pn_transfers s) key (Some 0);
          warnings = dict_get (pn_warnings s) key [] @
            (if opening = None then [''Opening position mark is unavailable''] else []) @
            (if closing = None then [''Closing position mark is unavailable''] else []);
          received = dict_get cash key 0;
          flow = dict_get (pn_external s) key 0
      in \<lparr>pp_instrument_id = key, pp_opening_value = opening, pp_closing_value = closing,
          pp_economic_cash = received, pp_external_security_flow = flow,
          pp_internal_transfer = transferred,
          pp_pnl = (case (opening, closing, transferred) of
              (Some op, Some cl, Some tr) \<Rightarrow>
                Some (dsub c (dsub c (dadd c (dsub c cl op) received) flow) tr)
            | _ \<Rightarrow> None),
          pp_warnings = first_occurrences warnings\<rparr>)"

definition period_keys :: "pnl_session \<Rightarrow> rat dict \<Rightarrow> rat option dict \<Rightarrow> string list" where
  "period_keys s cash closing_values =
     sorted_keys (map fst (pn_opening s) @ map fst closing_values @ map fst cash @
       map fst (pn_external s) @ map fst (pn_transfers s) @
       List.map_filter (\<lambda>(i, e). if has_instrument e then e_instrument_id e else None) (pn_entries s))"

definition finish ::
  "ctx \<Rightarrow> pnl_session \<Rightarrow> rat option dict \<Rightarrow> cash_service \<Rightarrow> (string \<times> period_pnl) list" where
  "finish c s closing_values ms =
     (let cash = interval_cash c s ms
      in map (\<lambda>key. (key, period_row c s cash closing_values key))
           (period_keys s cash closing_values))"

section \<open>Internal transfers cancel\<close>

text \<open>Either some transfer is unknown, or the known ones add up to nothing.\<close>

definition balanced :: "rat option dict \<Rightarrow> bool" where
  "balanced d \<longleftrightarrow> distinct (map fst d) \<and>
     ((\<exists>k. map_of d k = Some None) \<or> sum_list (map (\<lambda>kv. the (snd kv)) d) = 0)"

definition moved_by :: "rat option dict \<Rightarrow> rat \<Rightarrow> rat option dict \<Rightarrow> bool" where
  "moved_by d x d' \<longleftrightarrow> distinct (map fst d') \<and>
     ((\<exists>k. map_of d' k = Some None) \<or>
      (\<forall>k. map_of d k \<noteq> Some None) \<and>
      sum_list (map (\<lambda>kv. the (snd kv)) d') = sum_list (map (\<lambda>kv. the (snd kv)) d) + x)"

lemma known_add_exact:
  "known_add exact old (Some y) = map_option (\<lambda>x. x + y) old" "known_add c old None = None"
  by (auto simp: known_add_def split: option.splits)

lemma sum_update_option:
  assumes "distinct (map fst d)"
  shows "sum_list (map (\<lambda>kv. the (snd kv)) (AList.update k (Some y) d)) =
    sum_list (map (\<lambda>kv. the (snd kv)) d) - the (dict_get d k (Some 0)) + (y :: rat)"
  using sum_update [OF assms, of the "Some 0" k "Some y"] by simp

lemma update_known:
  assumes "distinct (map fst d)"
  shows "moved_by d x (AList.update k (known_add exact (dict_get d k (Some 0)) (Some x)) d)"
proof (cases "dict_get d k (Some 0)")
  case None
  then show ?thesis using assms by (auto simp: moved_by_def known_add_exact distinct_update_keys)
next
  case (Some y)
  have dist: "distinct (map fst (AList.update k (Some (y + x)) d))"
    by (rule distinct_update_keys [OF assms])
  show ?thesis
  proof (cases "\<exists>j. map_of d j = Some None")
    case True
    then obtain j where j: "map_of d j = Some None" by blast
    then have "j \<noteq> k" using Some by (auto simp: dict_get_def)
    then have "map_of (AList.update k (Some (y + x)) d) j = Some None" using j by simp
    then show ?thesis using dist Some by (auto simp: moved_by_def known_add_exact simp del: map_of_update)
  next
    case False
    then show ?thesis using dist Some sum_update_option [OF assms, of k "y + x"]
      by (simp add: moved_by_def known_add_exact)
  qed
qed

lemma transfer_balanced:
  assumes "balanced (pn_transfers s)" "transfer exact parent child fraction s = Inr s'"
  shows "balanced (pn_transfers s')"
proof -
  let ?d = "pn_transfers s"
  have ne: "parent \<noteq> child" and s': "s' = foldl (transfer_leg exact
      (map_option (\<lambda>x. x * fraction) (dict_get (pn_reference s) parent (Some 0)))) s
      [(parent, - 1), (child, 1)]"
    using assms(2) by (auto simp: transfer_def Let_def bindE_Inr_iff ensure_Inr_iff)
  have dist: "distinct (map fst ?d)" using assms(1) by (simp add: balanced_def)
  show ?thesis
  proof (cases "dict_get (pn_reference s) parent (Some 0)")
    case None
    have "pn_transfers s' = AList.update child None (AList.update parent None ?d)"
      using ne by (simp add: s' None transfer_leg_def Let_def add_reference_def known_add_exact)
    then show ?thesis using dist by (auto simp: balanced_def distinct_update_keys)
  next
    case (Some v)
    let ?x = "v * fraction"
    let ?d1 = "AList.update parent (known_add exact (dict_get ?d parent (Some 0)) (Some (- ?x))) ?d"
    have p: "pn_transfers s' =
        AList.update child (known_add exact (dict_get ?d1 child (Some 0)) (Some ?x)) ?d1"
      by (simp add: s' Some transfer_leg_def Let_def add_reference_def)
    have m: "moved_by ?d (- ?x) ?d1" by (rule update_known [OF dist])
    then have "moved_by ?d1 ?x (pn_transfers s')"
      unfolding p by (intro update_known) (simp add: moved_by_def)
    then show ?thesis using m assms(1) unfolding moved_by_def balanced_def by auto
  qed
qed

lemma record_entry_balanced:
  assumes "balanced (pn_transfers s)" "record_entry exact s e = Inr s'"
  shows "balanced (pn_transfers s')"
proof -
  have units: "balanced (pn_transfers t')"
    if "record_units exact e key t = Inr t'" "balanced (pn_transfers t)" for key t t'
    using that
    by (auto simp: record_units_def record_action_def remove_units_def set_units_def add_reference_def
        Let_def bindE_Inr_iff split: if_splits pyval.splits intro: transfer_balanced)
  show ?thesis using assms(2)
    by (auto simp: record_entry_def Let_def bindE_Inr_iff assms(1) split: option.splits if_splits
        dest!: units)
qed

lemma records_balanced:
  "foldE (record_entry exact) s es = Inr s' \<Longrightarrow> balanced (pn_transfers s) \<Longrightarrow> balanced (pn_transfers s')"
  by (erule foldE_invariant [where P = "\<lambda>s. balanced (pn_transfers s)"])
    (auto intro: record_entry_balanced)

lemma sum_over_keys:
  assumes "distinct ks" "distinct (map fst d)" "set (map fst d) \<subseteq> set ks" "f v = (0::rat)"
  shows "sum_list (map (\<lambda>k. f (dict_get d k v)) ks) = sum_list (map (\<lambda>kv. f (snd kv)) d)"
proof -
  have "sum_list (map (\<lambda>k. f (dict_get d k v)) ks) = (\<Sum>k \<in> set ks. f (dict_get d k v))"
    using assms(1) by (simp add: sum_list_distinct_conv_sum_set)
  also have "\<dots> = (\<Sum>k \<in> set (map fst d). f (dict_get d k v))"
    using assms(3,4) by (intro sum.mono_neutral_right)
      (auto simp: dict_get_def split: option.splits dest!: map_of_SomeD intro: rev_image_eqI)
  also have "\<dots> = sum_list (map (\<lambda>k. f (dict_get d k v)) (map fst d))"
    using assms(2) by (simp only: sum_list_distinct_conv_sum_set)
  also have "\<dots> = sum_list (map (\<lambda>kv. f (snd kv)) d)"
    unfolding map_map comp_def using assms(2)
    by (intro arg_cong [where f = sum_list] map_cong refl) (auto simp: dict_get_def)
  finally show ?thesis .
qed

section \<open>Properties\<close>

text \<open>C6: attribution is complete. Over an interval whose marks are all available, in ideal
  arithmetic, the internal corporate-action transfers add up to zero over the instruments, so
  the P&L of all instruments together is closing value less opening value plus the attributed
  cash less the external security flows.\<close>

theorem pnl_adds_up:
  assumes "foldE (record_entry exact) (new_session quantities values) es = Inr s"
    and "\<forall>(k, r) \<in> set (finish exact s closing ms). pp_pnl r \<noteq> None"
  defines "rows \<equiv> map snd (finish exact s closing ms)"
  shows "sum_list (map (\<lambda>r. the (pp_internal_transfer r)) rows) = 0 \<and>
    sum_list (map (\<lambda>r. the (pp_pnl r)) rows) =
      sum_list (map (\<lambda>r. the (pp_closing_value r)) rows) - sum_list (map (\<lambda>r. the (pp_opening_value r)) rows)
      + sum_list (map pp_economic_cash rows) - sum_list (map pp_external_security_flow rows)"
proof -
  let ?cash = "interval_cash exact s ms"
  let ?ks = "period_keys s ?cash closing" and ?row = "period_row exact s ?cash closing"
  have rows: "rows = map ?row ?ks" by (simp add: rows_def finish_def Let_def comp_def)
  have av: "pp_pnl (?row k) \<noteq> None" if "k \<in> set ?ks" for k
    using assms(2) that by (auto simp: finish_def Let_def)
  have each: "\<exists>x. dict_get (pn_transfers s) k (Some 0) = Some x \<and> pp_internal_transfer (?row k) = Some x \<and>
      the (pp_pnl (?row k)) = the (pp_closing_value (?row k)) - the (pp_opening_value (?row k))
        + pp_economic_cash (?row k) - pp_external_security_flow (?row k) - x"
    if "k \<in> set ?ks" for k
    using av [OF that] by (auto simp: period_row_def Let_def split: option.splits if_splits)
  have b: "balanced (pn_transfers s)"
    by (rule records_balanced [OF assms(1)]) (simp add: new_session_def balanced_def Let_def)
  have sub: "set (map fst (pn_transfers s)) \<subseteq> set ?ks" by (auto simp: period_keys_def)
  have "map_of (pn_transfers s) k \<noteq> Some None" for k
  proof
    assume k: "map_of (pn_transfers s) k = Some None"
    then have "k \<in> set ?ks" using sub by (force dest: map_of_SomeD)
    then show False using each [of k] k by (simp add: dict_get_def)
  qed
  then have "sum_list (map (\<lambda>kv. the (snd kv)) (pn_transfers s)) = 0"
    using b by (simp add: balanced_def)
  then have z: "sum_list (map (\<lambda>k. the (dict_get (pn_transfers s) k (Some 0))) ?ks) = 0"
    using sum_over_keys [of ?ks "pn_transfers s" the "Some 0"] b sub
    by (simp add: balanced_def period_keys_def)
  have "sum_list (map (\<lambda>r. the (pp_internal_transfer r)) rows) =
      sum_list (map (\<lambda>k. the (dict_get (pn_transfers s) k (Some 0))) ?ks)"
    unfolding rows map_map
    by (intro arg_cong [where f = sum_list] map_cong refl) (use each in fastforce)
  then have t: "sum_list (map (\<lambda>r. the (pp_internal_transfer r)) rows) = 0" using z by simp
  have "sum_list (map (\<lambda>r. the (pp_pnl r)) rows) =
      sum_list (map (\<lambda>r. the (pp_closing_value r) - the (pp_opening_value r) + pp_economic_cash r
        - pp_external_security_flow r - the (pp_internal_transfer r)) rows)"
    unfolding rows map_map
    by (intro arg_cong [where f = sum_list] map_cong refl) (use each in fastforce)
  then show ?thesis using t by (simp add: sum_list_subtractf sum_list_addf)
qed

definition spin_entry :: entry where
  "spin_entry = (new_entry ''S'' 3 SPINOFF ''USD'')
     \<lparr>e_quantity := 2, e_instrument_id := Some ''X'',
      e_metadata := [(''child_instrument_id'', VStr ''Y''), (''cost_allocation'', VNum ''0.25'')]\<rparr>"

text \<open>A spinoff moves a quarter of the reference value of 100 from X to Y.\<close>

theorem pnl_adds_up_witness:
  "case foldE (record_entry exact) (new_session [(''X'', 4)] [(''X'', Some 100)]) [spin_entry] of
     Inl _ \<Rightarrow> False
   | Inr s \<Rightarrow> sum_list (map (\<lambda>r. the (pp_internal_transfer r))
       (map snd (finish exact s [(''X'', Some 80), (''Y'', Some 30)] []))) = 0"
proof -
  let ?r = "foldE (record_entry exact) (new_session [(''X'', 4)] [(''X'', Some 100)]) [spin_entry]"
  have "case ?r of Inl _ \<Rightarrow> False
    | Inr s \<Rightarrow> list_all (\<lambda>(k, r). pp_pnl r \<noteq> None) (finish exact s [(''X'', Some 80), (''Y'', Some 30)] [])"
    by code_simp
  then obtain s where s: "?r = Inr s"
    "\<forall>(k, r) \<in> set (finish exact s [(''X'', Some 80), (''Y'', Some 30)] []). pp_pnl r \<noteq> None"
    by (auto simp: list_all_iff split: sum.splits)
  show ?thesis using pnl_adds_up [OF s] unfolding s(1) sum.case by blast
qed

end
