(* ===== verification/Pnl_Tracking.thy ===== *)
theory Pnl_Tracking
  imports Ledger_Exact Position_Pnl
begin

text \<open>
  The attribution session of \<open>position_pnl.py\<close> against the ledger it is fed from: its units
  follow the signed quantity of the ledger's open lots through every accepted entry.
\<close>

section \<open>Signed quantity of the open lots\<close>

definition qty :: "cost_basis \<Rightarrow> string \<Rightarrow> rat" where
  "qty cb i = sum_list (map (\<lambda>l. signed exact (ol_direction l) (ol_quantity l)) (lots_for cb i))"

lemma qty_stored:
  assumes "clean cb"
  shows "qty cb i = stored_total (\<lambda>l. signed exact (ol_direction l) (ol_quantity l)) cb i"
  unfolding qty_def lots_for_sum stored_total_def using assms
  by (intro sum_list_filter_zero) (auto simp: clean_def clean_lot_def signed_def)

lemma qty_directed:
  assumes "\<forall>l \<in> set (lots_for cb i). ol_direction l = d" "clean cb"
  shows "qty cb i = sign_of exact d * stored_total ol_quantity cb i"
proof -
  have "qty cb i = sum_list (map (\<lambda>l. sign_of exact d * ol_quantity l) (lots_for cb i))"
    unfolding qty_def using assms(1)
    by (intro arg_cong [where f = sum_list] map_cong) (auto simp: signed_def sign_of_def)
  also have "\<dots> = sign_of exact d * sum_list (map ol_quantity (lots_for cb i))"
    by (simp add: sum_list_const_mult)
  also have "sum_list (map ol_quantity (lots_for cb i)) = stored_total ol_quantity cb i"
    unfolding lots_for_sum stored_total_def using assms(2)
    by (intro sum_list_filter_zero) (auto simp: clean_def clean_lot_def)
  finally show ?thesis .
qed

lemma qty_cong: "stored_lots cb' k = stored_lots cb k \<Longrightarrow> qty cb' k = qty cb k"
  by (simp add: qty_def lots_for_def)

lemma open_qty:
  assumes "clean cb" "open_position exact u cb e d = Inr (l, cb')"
  shows "qty cb' k = qty cb k + (if k = instrument_or_empty e then signed exact d (e_quantity e) else 0)"
proof (cases "k = instrument_or_empty e")
  case True
  have "stored_lots cb' k = stored_lots cb k @ [l]" "ol_direction l = d" "ol_quantity l = e_quantity e"
    using assms(2) by (auto simp: open_position_Inr result_simps instrument_or_empty_def True
        opened_lot_def Let_def)
  then show ?thesis using True
    by (simp add: qty_stored open_position_clean [OF assms] assms(1) stored_total_def)
next
  case False
  then show ?thesis using qty_cong [OF open_position_frame(2) [OF assms(2) False]] by simp
qed

lemma close_qty:
  assumes "clean cb" "close_position exact cb e d = Inr (ms, cb')"
  obtains T where "qty cb (instrument_or_empty e) = sign_of exact d * T"
    "qty cb' (instrument_or_empty e) = sign_of exact d * (T - e_quantity e)"
    "0 < e_quantity e" "e_quantity e \<le> T"
    "\<And>k. k \<noteq> instrument_or_empty e \<Longrightarrow> qty cb' k = qty cb k"
proof -
  obtain i where i: "e_instrument_id e = Some i"
    and tot: "stored_total ol_quantity cb' i = stored_total ol_quantity cb i - e_quantity e"
    using close_conserves_aux [OF assms(2)] by metis
  have ii: "instrument_or_empty e = i" by (simp add: i instrument_or_empty_def)
  have d: "\<forall>l \<in> set (lots_for cb i). ol_direction l = d" and q: "0 < e_quantity e"
    and le: "e_quantity e \<le> sum_list (map ol_quantity (lots_for cb i))"
    using assms(2) by (auto simp: close_position_Inr result_simps i)
  have d': "\<forall>l \<in> set (lots_for cb' i). ol_direction l = d"
    using close_position_directions [OF assms(2)] i by simp
  have "sum_list (map ol_quantity (lots_for cb i)) = stored_total ol_quantity cb i"
    unfolding lots_for_sum stored_total_def using assms(1)
    by (intro sum_list_filter_zero) (auto simp: clean_def clean_lot_def)
  then show thesis
    using that [of "stored_total ol_quantity cb i"] q le
      qty_directed [OF d assms(1)] qty_directed [OF d' close_position_clean [OF assms]] tot
      close_position_frame(2) [OF assms(2)] qty_cong unfolding ii by metis
qed

lemma split_qty:
  assumes "clean cb" "split_lots exact cb i r = Inr cb'"
  shows "qty cb' i = qty cb i * r" "k \<noteq> i \<Longrightarrow> qty cb' k = qty cb k"
proof -
  let ?f = "\<lambda>l. signed exact (ol_direction l) (ol_quantity l)"
  let ?ys = "map (\<lambda>l. l\<lparr>ol_quantity := ol_quantity l * r\<rparr>) (lots_for cb i)"
  have f: "?f (l\<lparr>ol_quantity := ol_quantity l * r\<rparr>) = ?f l * r" for l by (simp add: signed_def)
  have "cb' = update_lots i ?ys cb" using assms(2) by (simp add: split_lots_Inr)
  then have "stored_total ?f cb' i = stored_total ?f cb i - sum_list (map ?f (lots_for cb i)) +
      sum_list (map (\<lambda>l. ?f l * r) (lots_for cb i))"
    using update_lots_total [of ?ys cb i ?f] by (simp only: length_map map_map comp_def f)
  moreover have "stored_total ?f cb i = sum_list (map ?f (lots_for cb i))"
    using qty_stored [OF assms(1)] by (simp add: qty_def)
  ultimately show "qty cb' i = qty cb i * r"
    using split_lots_clean [OF assms] by (simp add: qty_stored assms(1) sum_list_mult_const)
  show "k \<noteq> i \<Longrightarrow> qty cb' k = qty cb k" by (rule qty_cong [OF split_lots_frame(2) [OF assms(2)]])
qed

lemma spinoff_qty:
  assumes "clean cb" "spinoff exact u cb e ch a = Inr cb'"
  shows "qty cb' k = qty cb k + (if k = ch then e_quantity e else 0)" "ch \<noteq> instrument_or_empty e"
    "0 \<le> a" "a < 1"
proof -
  let ?f = "\<lambda>l. signed exact (ol_direction l) (ol_quantity l)" and ?i = "instrument_or_empty e"
  show ne: "ch \<noteq> ?i" and "0 \<le> a" "a < 1" by (rule spinoff_Inr [OF assms(2)], simp)+
  obtain qs where al: "allocate exact (e_quantity e) (map ol_quantity (lots_for cb ?i)) = Inr qs"
    and q: "length qs = length (lots_for cb ?i)"
    and ti: "\<And>f. stored_total f cb' ?i = stored_total f cb ?i - sum_list (map f (lots_for cb ?i)) +
       sum_list (map (\<lambda>l. f (spinoff_parent exact a l)) (lots_for cb ?i))"
    and tc: "\<And>f. stored_total f cb' ch = stored_total f cb ch +
       sum_list (map f (map2 (spinoff_child exact u e ch a) (lots_for cb ?i) qs))"
    by (rule spinoff_totals [OF assms(2)], rule that) (assumption | simp only:)+
  have "sum_list (map ?f (map2 (spinoff_child exact u e ch a) (lots_for cb ?i) qs)) = sum_list qs"
    by (rule sum_map2_right [OF q]) (simp add: spinoff_child_def signed_def)
  then have c: "qty cb' ch = qty cb ch + e_quantity e"
    using tc [of ?f] allocate_exact_total [OF al]
    by (simp add: qty_stored spinoff_clean [OF assms] assms(1))
  have "?f (spinoff_parent exact a l) = ?f l" for l by (simp add: spinoff_parent_def)
  then have i: "qty cb' ?i = qty cb ?i"
    using ti [of ?f] by (simp add: qty_stored spinoff_clean [OF assms] assms(1))
  show "qty cb' k = qty cb k + (if k = ch then e_quantity e else 0)"
    using c i qty_cong [OF spinoff_frame [OF assms(2)], of k] by (cases "k = ch"; cases "k = ?i") auto
qed

lemma merger_qty:
  assumes "clean cb" "merger exact u cb e ch r cps cca = Inr (res, cb')"
  shows "qty cb' k = (if k = instrument_or_empty e then 0
      else qty cb k + (if k = ch then qty cb (instrument_or_empty e) * r else 0))"
    "ch \<noteq> instrument_or_empty e" "0 \<le> cca" "cca \<le> 1"
proof -
  let ?f = "\<lambda>l. signed exact (ol_direction l) (ol_quantity l)" and ?i = "instrument_or_empty e"
  note m = merger_Inr [OF assms(2)] and t = merger_totals [OF assms(2)]
  show ne: "ch \<noteq> ?i" by (rule m(1))
  show "0 \<le> cca" "cca \<le> 1"
    using assms(2) unfolding merger_def Let_def by (auto simp: bindE_Inr_iff ensure_Inr_iff)
  have l: "sum_list (map ?f (lots_for cb ?i)) = sum_list (map ol_quantity (lots_for cb ?i))"
    using t(3) by (intro arg_cong [where f = sum_list] map_cong) (auto simp: signed_def)
  have s: "stored_total ?f cb ?i = sum_list (map ?f (lots_for cb ?i))"
    using qty_stored [OF assms(1), of ?i] by (simp add: qty_def)
  have "qty cb' ?i = 0"
    using t(1) [of ?f] by (simp add: qty_stored merger_clean [OF assms] s emptied_def)
  moreover have "sum_list (map (\<lambda>l. ?f (merger_successor exact u e ch r cca l)) (lots_for cb ?i)) =
      qty cb ?i * r"
    unfolding qty_def l by (simp add: merger_successor_def signed_def sum_list_mult_const)
  then have "qty cb' ch = qty cb ch + qty cb ?i * r"
    using t(2) [of ?f] by (simp add: qty_stored [of cb'] qty_stored [of cb ch] merger_clean [OF assms] assms(1))
  moreover have "k \<noteq> ?i \<Longrightarrow> k \<noteq> ch \<Longrightarrow> qty cb' k = qty cb k"
    by (rule qty_cong) (use m(6) in simp)
  ultimately show "qty cb' k = (if k = ?i then 0 else qty cb k + (if k = ch then qty cb ?i * r else 0))"
    using ne by auto
qed

section \<open>The session follows\<close>

definition tracks :: "pnl_session \<Rightarrow> cost_basis \<Rightarrow> bool" where
  "tracks p cb \<longleftrightarrow> (\<forall>i. dict_get (pn_quantities p) i 0 = qty cb i)"

lemma set_units_quantity [simp]:
  "dict_get (pn_quantities (set_units k q p)) i 0 = (if i = k then q else dict_get (pn_quantities p) i 0)"
  by (simp add: set_units_def)

lemma add_reference_quantity [simp]: "pn_quantities (add_reference c k a p) = pn_quantities p"
  by (simp add: add_reference_def)

lemma transfer_quantity:
  "transfer c p ch f s = Inr s' \<Longrightarrow> pn_quantities s' = pn_quantities s"
  by (auto simp: transfer_def transfer_leg_def Let_def bindE_Inr_iff)

lemma transfer_defined:
  assumes "0 \<le> f" "f \<le> 1" "p \<noteq> ch"
  shows "\<exists>s'. transfer exact p ch f s = Inr s'"
proof -
  have "decimal_of exact f n False True = Inr f" for n
    using assms(1,2) by (auto simp: decimal_of_Inr MAX_AMOUNT_def)
  then show ?thesis using assms by (simp add: transfer_def Let_def ensure_def)
qed

lemma sign_simps [simp]: "sign_of exact LONG = 1" "sign_of exact SHORT_SIDE = - 1"
  by (simp_all add: sign_of_def)

lemma trade_tracked:
  assumes "clean cb" "tracks p cb" "e_instrument_id e = Some key" "lg_cost_basis s = cb"
    "movement_cost exact u s e = Inr (cb', r)" "e_kind e \<in> set SECURITY_MOVEMENTS"
  shows "\<exists>p'. record_units exact e key p = Inr p' \<and> tracks p' cb'"
proof -
  have key: "instrument_or_empty e = key" by (simp add: assms(3) instrument_or_empty_def)
  have q: "dict_get (pn_quantities p) i 0 = qty cb i" for i using assms(2) by (simp add: tracks_def)
  show ?thesis
  proof (cases "e_kind e \<in> {BUY, TRANSFER_IN, SHORT}")
    case True
    then obtain l where o: "open_position exact u cb e (if e_kind e = SHORT then SHORT_SIDE else LONG) = Inr (l, cb')"
      using assms(4,5) by (auto simp: movement_cost_def Let_def bindE_Inr_iff)
    show ?thesis using True open_qty [OF assms(1) o] q
      by (auto simp: record_units_def Let_def tracks_def key signed_def)
  next
    case False
    then obtain ms where o: "close_position exact cb e (if e_kind e = COVER then SHORT_SIDE else LONG) = Inr (ms, cb')"
      using assms(4,5) by (auto simp: movement_cost_def Let_def bindE_Inr_iff)
    obtain T where t: "qty cb key = sign_of exact (if e_kind e = COVER then SHORT_SIDE else LONG) * T"
      "qty cb' key = sign_of exact (if e_kind e = COVER then SHORT_SIDE else LONG) * (T - e_quantity e)"
      "0 < e_quantity e" "e_quantity e \<le> T" "\<And>k. k \<noteq> key \<Longrightarrow> qty cb' k = qty cb k"
      using close_qty [OF assms(1) o] unfolding key by metis
    have "record_units exact e key p = remove_units exact key (e_quantity e) p"
      using False assms(6) by (auto simp: record_units_def Let_def SECURITY_MOVEMENTS_def)
    then show ?thesis using t q
      by (cases "e_kind e = COVER") (auto simp: remove_units_def Let_def tracks_def)
  qed
qed

lemma action_tracked:
  assumes "clean cb" "tracks p cb" "e_instrument_id e = Some key" "action_basis exact u cb e cb'"
    "e_kind e \<in> {SPLIT, REVERSE_SPLIT, SPINOFF, MERGER}"
  shows "\<exists>p'. record_units exact e key p = Inr p' \<and> tracks p' cb'"
proof -
  have key: "instrument_or_empty e = key" by (simp add: assms(3) instrument_or_empty_def)
  have q: "dict_get (pn_quantities p) i 0 = qty cb i" for i using assms(2) by (simp add: tracks_def)
  consider (split) "e_kind e \<in> {SPLIT, REVERSE_SPLIT}" | (spin) "e_kind e = SPINOFF" | (merge) "e_kind e = MERGER"
    using assms(5) by auto
  then show ?thesis
  proof cases
    case split
    then obtain r where "meta_decimal exact e ''ratio'' (e_quantity e) ''split ratio'' True False = Inr r"
      "split_lots exact cb key r = Inr cb'"
      using assms(4) by (auto simp: action_basis_def key)
    then show ?thesis using split split_qty [OF assms(1)] q
      by (auto simp: record_units_def Let_def tracks_def)
  next
    case spin
    then obtain ch a where m: "meta_get (e_metadata e) ''child_instrument_id'' = VStr ch" "ch \<noteq> []"
      "meta_decimal exact e ''cost_allocation'' 0 ''cost allocation'' False True = Inr a"
      "spinoff exact u cb e ch a = Inr cb'"
      using assms(4) by (auto simp: action_basis_def)
    note sq = spinoff_qty [OF assms(1) m(4), unfolded key]
    obtain p' where t: "transfer exact key ch a p = Inr p'"
      using transfer_defined [of a key ch p] sq(2-4) by auto
    then show ?thesis using spin m sq transfer_quantity [OF t] q
      by (auto simp: record_units_def record_action_def Let_def tracks_def)
  next
    case merge
    then obtain ch r x a res where m: "meta_get (e_metadata e) ''child_instrument_id'' = VStr ch" "ch \<noteq> []"
      "meta_decimal exact e ''exchange_ratio'' 0 ''exchange ratio'' True False = Inr r"
      "meta_decimal exact e ''cash_cost_allocation'' 0 ''cash cost allocation'' False True = Inr a"
      "merger exact u cb e ch r x a = Inr (res, cb')"
      using assms(4) by (auto simp: action_basis_def)
    note sq = merger_qty [OF assms(1) m(5), unfolded key]
    obtain p' where t: "transfer exact key ch (1 - a) p = Inr p'"
      using transfer_defined [of "1 - a" key ch p] sq(2-4) by auto
    then show ?thesis using merge m sq transfer_quantity [OF t] q
      by (auto simp: record_units_def record_action_def Let_def tracks_def)
  qed
qed

lemma transfer_entries: "transfer c p ch f s = Inr s' \<Longrightarrow> pn_entries s' = pn_entries s"
  by (auto simp: transfer_def transfer_leg_def add_reference_def Let_def bindE_Inr_iff)

lemma record_units_entries: "record_units c e key s = Inr s' \<Longrightarrow> pn_entries s' = pn_entries s"
  by (auto simp: record_units_def record_action_def remove_units_def set_units_def add_reference_def
      Let_def bindE_Inr_iff split: if_splits pyval.splits dest!: transfer_entries)

text \<open>A corporate action needs an open position, which no entry without instrument can have.\<close>

lemma corporate_needs_instrument:
  "e_instrument_id e = None \<Longrightarrow> lots_for cb [] = [] \<Longrightarrow> action_basis c u cb e cb' \<Longrightarrow> False"
  by (auto simp: action_basis_def instrument_or_empty_def split_lots_Inr spinoff_def merger_def Let_def
      bindE_Inr_iff ensure_Inr_iff split: if_splits)

lemma entry_tracked:
  assumes "exact_inv s" "tracks p (lg_cost_basis s)" "apply_entry exact u s e = Inr s'"
    "lots_for (lg_cost_basis s) [] = []" "map_of (pn_entries p) (e_id e) = None" "e_instrument_id e \<noteq> Some []"
  shows "\<exists>p'. record_entry exact p e = Inr p' \<and> tracks p' (lg_cost_basis s') \<and>
    (\<forall>i. map_of (pn_entries p') i \<noteq> None \<longrightarrow> i = e_id e \<or> map_of (pn_entries p) i \<noteq> None)"
proof -
  have v: "validate exact e = Inr ()"
    using apply_entry_validate [OF assms(3)] ledger_validate_valid by (simp add: validate_iff)
  have cl: "clean (lg_cost_basis s)" using assms(1) by (simp add: exact_inv_def)
  note b = apply_entry_basis [OF assms(3)]
  let ?p = "p\<lparr>pn_entries := AList.update (e_id e) e (pn_entries p)\<rparr>"
  have tr: "tracks ?p (lg_cost_basis s)" using assms(2) by (simp add: tracks_def)
  have none: "e_instrument_id e = None \<Longrightarrow> lg_cost_basis s' = lg_cost_basis s"
    using b corporate_needs_instrument [OF _ assms(4)]
    by (auto simp: has_instrument_def split: if_splits)
  show ?thesis
  proof (cases "e_instrument_id e")
    case None
    then show ?thesis using none tr assms(5) v
      by (simp add: record_entry_def ensure_def Let_def)
  next
    case (Some key)
    have hi: "has_instrument e" using Some assms(6) by (auto simp: has_instrument_def)
    have "\<exists>p'. record_units exact e key ?p = Inr p' \<and> tracks p' (lg_cost_basis s')"
    proof (cases "e_kind e \<in> set SECURITY_MOVEMENTS")
      case True
      then obtain r where "movement_cost exact u s e = Inr (lg_cost_basis s', r)" using b hi by auto
      then show ?thesis using trade_tracked [OF cl tr Some refl _ True] by blast
    next
      case False
      show ?thesis
      proof (cases "e_kind e \<in> {SPLIT, REVERSE_SPLIT, SPINOFF, MERGER}")
        case True
        then show ?thesis using b False action_tracked [OF cl tr Some _ True] by auto
      next
        case other: False
        then have "record_units exact e key ?p = Inr ?p" using False
          by (auto simp: record_units_def Let_def SECURITY_MOVEMENTS_def)
        then show ?thesis using tr b False other by auto
      qed
    qed
    then obtain p' where p': "record_units exact e key ?p = Inr p'" "tracks p' (lg_cost_basis s')" by blast
    have ent: "pn_entries p' = pn_entries ?p" by (rule record_units_entries [OF p'(1)])
    show ?thesis using p' v assms(5) Some
      by (auto simp: record_entry_def ensure_def Let_def ent tracks_def split: if_splits)
  qed
qed

lemma no_anonymous_lots:
  assumes "apply_entry exact u s e = Inr s'" "lots_for (lg_cost_basis s) [] = []"
  shows "lots_for (lg_cost_basis s') [] = []"
proof -
  have same: "stored_lots cb' [] = stored_lots (lg_cost_basis s) [] \<Longrightarrow> lots_for cb' [] = []" for cb'
    using assms(2) by (simp add: lots_for_def)
  note b = apply_entry_basis [OF assms(1)]
  show ?thesis
  proof (cases "e_kind e \<in> set SECURITY_MOVEMENTS \<and> has_instrument e")
    case True
    then obtain r where r: "movement_cost exact u s e = Inr (lg_cost_basis s', r)" using b by auto
    have "[] \<noteq> instrument_or_empty e"
      using True by (auto simp: has_instrument_def instrument_or_empty_def split: option.splits)
    then show ?thesis by (intro same movement_cost_frame(3) [OF r])
  next
    case False
    show ?thesis
    proof (cases "e_kind e \<in> {SPLIT, REVERSE_SPLIT, SPINOFF, MERGER}")
      case other: False
      then show ?thesis using b False assms(2) by (simp only: if_False)
    next
      case True
      then have a: "action_basis exact u (lg_cost_basis s) e (lg_cost_basis s')"
        using b False by (simp only: if_False if_True)
      have ne: "instrument_or_empty e \<noteq> []"
      proof
        assume "instrument_or_empty e = []"
        then show False using a assms(2)
          by (auto simp: action_basis_def split_lots_Inr spinoff_def merger_def Let_def
              bindE_Inr_iff ensure_Inr_iff split: if_splits)
      qed
      show ?thesis
      proof (rule same)
        show "stored_lots (lg_cost_basis s') [] = stored_lots (lg_cost_basis s) []"
          using a ne
          by (auto simp: action_basis_def split: if_splits
              intro: split_lots_frame(2) spinoff_frame dest: merger_Inr(6))
      qed
    qed
  qed
qed

lemma entries_tracked:
  "exact_inv s \<Longrightarrow> tracks p (lg_cost_basis s) \<Longrightarrow> lots_for (lg_cost_basis s) [] = [] \<Longrightarrow>
   replay exact u s es = Inr s' \<Longrightarrow> distinct (map e_id es) \<Longrightarrow>
   (\<forall>e \<in> set es. map_of (pn_entries p) (e_id e) = None \<and> e_instrument_id e \<noteq> Some []) \<Longrightarrow>
   \<exists>p'. foldE (record_entry exact) p es = Inr p' \<and> tracks p' (lg_cost_basis s')"
proof (induction es arbitrary: s p)
  case Nil
  then show ?case by (simp add: replay_def)
next
  case (Cons e es)
  obtain t where t: "apply_entry exact u s e = Inr t" "replay exact u t es = Inr s'"
    using Cons.prems(4) by (auto simp: replay_def bindE_Inr_iff)
  obtain q where q: "record_entry exact p e = Inr q" "tracks q (lg_cost_basis t)"
    "\<forall>i. map_of (pn_entries q) i \<noteq> None \<longrightarrow> i = e_id e \<or> map_of (pn_entries p) i \<noteq> None"
    using entry_tracked [OF Cons.prems(1,2) t(1) Cons.prems(3)] Cons.prems(6) by auto
  have new: "map_of (pn_entries q) (e_id f) = None \<and> e_instrument_id f \<noteq> Some []" if "f \<in> set es" for f
  proof -
    have "e_id f \<noteq> e_id e" using that Cons.prems(5) by (auto simp: image_iff)
    moreover have "map_of (pn_entries p) (e_id f) = None" "e_instrument_id f \<noteq> Some []"
      using that Cons.prems(6) by auto
    ultimately show ?thesis using q(3) by blast
  qed
  have "\<exists>p'. foldE (record_entry exact) q es = Inr p' \<and> tracks p' (lg_cost_basis s')"
    using apply_entry_exact [OF Cons.prems(1) t(1)] no_anonymous_lots [OF t(1) Cons.prems(3)]
      Cons.prems(5) new by (intro Cons.IH [OF _ q(2) _ t(2)]) auto
  then show ?case using q(1) by simp
qed

definition trade_entry :: entry where
  "trade_entry = (new_entry ''T'' 5 SELL ''USD'')
     \<lparr>e_quantity := 2, e_price := 110, e_instrument_id := Some ''X''\<rparr>"

section \<open>Properties\<close>

text \<open>C5: the attribution session follows the ledger. Opened on the positions of any ledger
  reached by a replay, in ideal arithmetic, it accepts every further entry sequence the ledger
  accepts, provided that the entries have distinct identifiers and none names the empty string as
  its instrument (a transfer that does is a transfer of cash to the ledger and one of securities to
  the session). Afterwards its units of every instrument are the ledger's position quantity: through
  trades, transfers, splits, spinoffs and mergers.\<close>

theorem session_follows_ledger:
  assumes "replay exact u (new_ledger p) es = Inr s" "replay exact u s later = Inr s'"
    and "distinct (map e_id later)" "\<forall>e \<in> set later. e_instrument_id e \<noteq> Some []"
  shows "\<exists>q. foldE (record_entry exact)
      (new_session (map (\<lambda>(i, l). (i, ps_quantity l)) (lg_lots s)) values) later = Inr q \<and>
    (\<forall>i. dict_get (pn_quantities q) i 0 = ps_quantity (get_position s' i))"
proof -
  have ps: "ps_quantity (get_position w i) = qty (lg_cost_basis w) i" if "exact_inv w" for w i
    using that by (simp add: exact_inv_def lots_inv_def rolled_def position_rolled_def qty_def)
  have inv: "exact_inv s" using replay_exact [OF assms(1)] by simp
  have inv': "exact_inv s'"
    using assms(2) inv unfolding replay_def
    by (rule foldE_invariant [where P = exact_inv]) (use apply_entry_exact in auto)
  have an: "lots_for (lg_cost_basis s) [] = []"
    using assms(1) unfolding replay_def
    by (rule foldE_invariant [where P = "\<lambda>s. lots_for (lg_cost_basis s) [] = []"])
      (use no_anonymous_lots in \<open>auto simp: new_ledger_def new_cost_basis_def lots_for_def
        stored_lots_def lot_order_def\<close>)
  have "dict_get (map (\<lambda>(i, l). (i, ps_quantity l)) d) i 0 = ps_quantity (dict_get d i new_position)"
    for d :: "position dict" and i
    by (induction d) (auto simp: dict_get_def new_position_def)
  then have "tracks (new_session (map (\<lambda>(i, l). (i, ps_quantity l)) (lg_lots s)) values) (lg_cost_basis s)"
    using ps [OF inv] by (simp add: tracks_def new_session_def Let_def get_position_def)
  moreover have "pn_entries (new_session qs values) = []" for qs by (simp add: new_session_def Let_def)
  ultimately obtain q where "foldE (record_entry exact)
      (new_session (map (\<lambda>(i, l). (i, ps_quantity l)) (lg_lots s)) values) later = Inr q"
      "tracks q (lg_cost_basis s')"
    using entries_tracked [OF inv _ an assms(2,3)] assms(4) by fastforce
  then show ?thesis using ps [OF inv'] by (auto simp: tracks_def)
qed

text \<open>Selling two of four shares after the sample book.\<close>

theorem session_follows_ledger_witness:
  "case replay exact (\<lambda>t. t) (new_ledger default_policy) sample_book of
     Inl _ \<Rightarrow> False
   | Inr s \<Rightarrow> \<exists>q. foldE (record_entry exact)
       (new_session (map (\<lambda>(i, l). (i, ps_quantity l)) (lg_lots s)) [])
       [trade_entry] = Inr q \<and> dict_get (pn_quantities q) ''X'' 0 = 2"
proof -
  have "case replay exact (\<lambda>t. t) (new_ledger default_policy) sample_book of
      Inl _ \<Rightarrow> False
    | Inr s \<Rightarrow> (case replay exact (\<lambda>t. t) s [trade_entry] of
        Inl _ \<Rightarrow> False | Inr s' \<Rightarrow> ps_quantity (get_position s' ''X'') = 2)"
    by code_simp
  then obtain s s' where s: "replay exact (\<lambda>t. t) (new_ledger default_policy) sample_book = Inr s"
      "replay exact (\<lambda>t. t) s [trade_entry] = Inr s'" "ps_quantity (get_position s' ''X'') = 2"
    by (auto split: sum.splits)
  have d: "distinct (map e_id [trade_entry])" "\<forall>e \<in> set [trade_entry]. e_instrument_id e \<noteq> Some []"
    by (simp_all add: trade_entry_def)
  obtain q where "foldE (record_entry exact)
      (new_session (map (\<lambda>(i, l). (i, ps_quantity l)) (lg_lots s)) []) [trade_entry] = Inr q"
      "\<forall>i. dict_get (pn_quantities q) i 0 = ps_quantity (get_position s' i)"
    using session_follows_ledger [OF s(1,2) d] by blast
  then show ?thesis using s(3) unfolding s(1) sum.case by auto
qed

end
