(* ===== verification/Position_Metrics.thy ===== *)
theory Position_Metrics
  imports Ledger_Facts
begin

text \<open>
  \<open>portfolio_domain/position_metrics.py\<close>: the valuation of a position at a price and an
  exchange rate, with the split of unrealised P&L into a price and a currency part, and the NAV
  weights of positions. All numeric inputs are finite decimals; the checks for non-finite values
  have no case here.
\<close>

section \<open>measure\<close>

record measurement =
  pm_quantity :: rat
  pm_multiplier :: rat
  pm_price :: "rat option"
  pm_fx :: "rat option"
  pm_cost_native :: rat
  pm_cost_base :: rat
  pm_realised_base :: rat
  pm_income_base :: rat
  pm_charges_base :: rat
  pm_capitalized_base :: rat
  pm_native_value :: "rat option"
  pm_base_value :: "rat option"
  pm_unrealised_native :: "rat option"
  pm_unrealised_base :: "rat option"
  pm_price_pnl_base :: "rat option"
  pm_fx_pnl_base :: "rat option"
  pm_warnings :: "string list"

text \<open>\<open>f x y\<close> when both are known.\<close>

definition both :: "(rat \<Rightarrow> rat \<Rightarrow> rat) \<Rightarrow> rat option \<Rightarrow> rat option \<Rightarrow> rat option" where
  "both f a b = (case (a, b) of (Some x, Some y) \<Rightarrow> Some (f x y) | _ \<Rightarrow> None)"

definition measured :: "ctx \<Rightarrow> position \<Rightarrow> rat option \<Rightarrow> rat option \<Rightarrow> measurement" where
  "measured c lot price fx =
     (let q = ps_quantity lot;
          warnings = (if price = None \<and> q \<noteq> 0 then [''Position price is unavailable''] else []) @
            (if fx = None \<and> q \<noteq> 0 then [''Position FX is unavailable''] else []);
          native = map_option (\<lambda>p. dmul c (dmul c q (ps_multiplier lot)) p) price;
          native = (if q = 0 then Some 0 else native);
          base = both (dmul c) native fx;
          base = (if q = 0 then Some 0 else base);
          unrealised_native = map_option (\<lambda>n. dsub c n (ps_cost_native lot)) native;
          unrealised_base = map_option (\<lambda>b. dsub c b (ps_cost_base lot)) base;
          price_pnl = both (dmul c) unrealised_native fx;
          fx_pnl = map_option (\<lambda>x. dsub c (dmul c (ps_cost_native lot) x) (ps_cost_base lot)) fx;
          closed = (q = 0 \<and> ps_cost_native lot = 0 \<and> ps_cost_base lot = 0)
      in \<lparr>pm_quantity = q, pm_multiplier = ps_multiplier lot, pm_price = price, pm_fx = fx,
          pm_cost_native = ps_cost_native lot, pm_cost_base = ps_cost_base lot,
          pm_realised_base = ps_realised lot, pm_income_base = ps_income lot,
          pm_charges_base = ps_charges lot, pm_capitalized_base = ps_capitalized_charges lot,
          pm_native_value = native, pm_base_value = base,
          pm_unrealised_native = unrealised_native, pm_unrealised_base = unrealised_base,
          pm_price_pnl_base = (if closed then Some 0 else price_pnl),
          pm_fx_pnl_base = (if closed then Some 0 else fx_pnl), pm_warnings = warnings\<rparr>)"

definition measure_position ::
  "ctx \<Rightarrow> position \<Rightarrow> rat option \<Rightarrow> rat option \<Rightarrow> measurement result" where
  "measure_position c lot price fx =
     bindE (ensure (0 < ps_multiplier lot)
        (ValueError ''Position contract multiplier must be positive'')) (\<lambda>_.
     bindE (ensure (\<not> (ps_quantity lot = 0 \<and> (ps_cost_native lot \<noteq> 0 \<or> ps_cost_base lot \<noteq> 0)))
        (ValueError ''A closed position cannot retain an open cost basis'')) (\<lambda>_.
     bindE (ensure (case price of Some p \<Rightarrow> 0 \<le> p | None \<Rightarrow> True)
        (ValueError ''Marked price must be finite and non-negative'')) (\<lambda>_.
     bindE (ensure (case fx of Some x \<Rightarrow> 0 < x | None \<Rightarrow> True)
        (ValueError ''Marked FX must be finite and positive'')) (\<lambda>_.
     Inr (measured c lot price fx)))))"

section \<open>Derived figures and the payload\<close>

definition direction_name :: "measurement \<Rightarrow> string" where
  "direction_name m =
     (if 0 < pm_quantity m then ''LONG'' else if pm_quantity m < 0 then ''SHORT'' else ''CLOSED'')"

definition measured_expensed :: "ctx \<Rightarrow> measurement \<Rightarrow> rat" where
  "measured_expensed c m = dsub c (pm_charges_base m) (pm_capitalized_base m)"

definition total_pnl :: "ctx \<Rightarrow> measurement \<Rightarrow> rat option" where
  "total_pnl c m =
     map_option
       (\<lambda>x. dsub c (dadd c (dadd c x (pm_realised_base m)) (pm_income_base m)) (measured_expensed c m))
       (pm_unrealised_base m)"

record position_payload =
  pl_direction :: string
  pl_quantity :: rat
  pl_contract_multiplier :: rat
  pl_average_cost :: "rat option"
  pl_cost_basis_native :: rat
  pl_cost_basis_base :: rat
  pl_market_price :: "rat option"
  pl_market_value_native :: "rat option"
  pl_market_value_base_exact :: "rat option"
  pl_market_value :: "rat option"
  pl_unrealised_pnl_native :: "rat option"
  pl_unrealised_pnl :: "rat option"
  pl_unrealised_price_pnl_base :: "rat option"
  pl_unrealised_fx_pnl_base :: "rat option"
  pl_realised_pnl :: rat
  pl_income :: rat
  pl_fees :: rat
  pl_capitalized_charges :: rat
  pl_expensed_charges :: rat
  pl_total_pnl :: "rat option"
  pl_return :: "rat option"
  pl_valuation_state :: string
  pl_valuation_warnings :: "string list"

definition position_payload_of :: "ctx \<Rightarrow> measurement \<Rightarrow> position_payload" where
  "position_payload_of c m =
     \<lparr>pl_direction = direction_name m, pl_quantity = pm_quantity m,
      pl_contract_multiplier = pm_multiplier m,
      pl_average_cost = (if pm_quantity m \<noteq> 0
        then Some (ddiv c (ddiv c (pm_cost_native m) (pm_quantity m)) (pm_multiplier m)) else None),
      pl_cost_basis_native = pm_cost_native m, pl_cost_basis_base = pm_cost_base m,
      pl_market_price = pm_price m, pl_market_value_native = pm_native_value m,
      pl_market_value_base_exact = pm_base_value m,
      pl_market_value = map_option cents (pm_base_value m),
      pl_unrealised_pnl_native = pm_unrealised_native m,
      pl_unrealised_pnl = map_option cents (pm_unrealised_base m),
      pl_unrealised_price_pnl_base = pm_price_pnl_base m,
      pl_unrealised_fx_pnl_base = pm_fx_pnl_base m,
      pl_realised_pnl = cents (pm_realised_base m), pl_income = cents (pm_income_base m),
      pl_fees = cents (pm_charges_base m),
      pl_capitalized_charges = cents (pm_capitalized_base m),
      pl_expensed_charges = cents (measured_expensed c m),
      pl_total_pnl = map_option cents (total_pnl c m),
      pl_return = (case pm_unrealised_base m of
          Some x \<Rightarrow> if pm_cost_base m \<noteq> 0 then Some (ddiv c x (dabs c (pm_cost_base m))) else None
        | None \<Rightarrow> None),
      pl_valuation_state = (if pm_base_value m \<noteq> None then ''AVAILABLE'' else ''UNAVAILABLE''),
      pl_valuation_warnings = pm_warnings m\<rparr>"

section \<open>position\_exposures\<close>

record exposure_position =
  xp_instrument_id :: string
  xp_sector :: string
  xp_base_value :: "rat option"
  xp_beta :: "rat option"

record position_exposure =
  xe_nav_weight :: "rat option"
  xe_sector_weight :: "rat option"
  xe_beta_contribution :: "rat option"

definition sector_value :: "ctx \<Rightarrow> exposure_position list \<Rightarrow> string \<Rightarrow> rat" where
  "sector_value c rows sector =
     dsum c (List.map_filter xp_base_value (filter (\<lambda>r. xp_sector r = sector) rows))"

definition exposure_of ::
  "ctx \<Rightarrow> exposure_position list \<Rightarrow> rat option \<Rightarrow> exposure_position \<Rightarrow> position_exposure" where
  "exposure_of c rows nav r =
     (let usable = (case nav of Some n \<Rightarrow> n \<noteq> 0 | None \<Rightarrow> False);
          weight = (if usable then both (ddiv c) (xp_base_value r) nav else None);
          unknown = list_ex (\<lambda>x. xp_sector x = xp_sector r \<and> xp_base_value x = None) rows
      in \<lparr>xe_nav_weight = weight,
          xe_sector_weight =
            (if usable \<and> \<not> unknown
             then map_option (\<lambda>n. ddiv c (sector_value c rows (xp_sector r)) n) nav else None),
          xe_beta_contribution = both (dmul c) weight (xp_beta r)\<rparr>)"

definition position_exposures ::
  "ctx \<Rightarrow> exposure_position list \<Rightarrow> rat option \<Rightarrow> (string \<times> position_exposure) list result" where
  "position_exposures c rows nav =
     bindE (ensure (distinct (map xp_instrument_id rows))
        (ValueError ''Exposure positions must have unique instrument IDs'')) (\<lambda>_.
     Inr (map (\<lambda>r. (xp_instrument_id r, exposure_of c rows nav r)) rows))"

section \<open>Lemmas\<close>

lemma measure_Inr:
  "measure_position c lot price fx = Inr m \<longleftrightarrow>
     0 < ps_multiplier lot \<and>
     (ps_quantity lot = 0 \<longrightarrow> ps_cost_native lot = 0 \<and> ps_cost_base lot = 0) \<and>
     (\<forall>p. price = Some p \<longrightarrow> 0 \<le> p) \<and> (\<forall>x. fx = Some x \<longrightarrow> 0 < x) \<and> m = measured c lot price fx"
  by (auto simp: measure_position_def bindE_Inr_iff ensure_Inr_iff split: option.splits)

lemma both_None [simp]: "both f a b = None \<longleftrightarrow> a = None \<or> b = None"
  by (auto simp: both_def split: option.splits)

lemma measured_base_None:
  "pm_base_value (measured c lot price fx) = None \<longleftrightarrow>
     ps_quantity lot \<noteq> 0 \<and> (price = None \<or> fx = None)"
  "pm_unrealised_base (measured c lot price fx) = None \<longleftrightarrow>
     ps_quantity lot \<noteq> 0 \<and> (price = None \<or> fx = None)"
  "pm_warnings (measured c lot price fx) = [] \<longleftrightarrow>
     \<not> (ps_quantity lot \<noteq> 0 \<and> (price = None \<or> fx = None))"
  by (auto simp: measured_def Let_def both_def split: option.splits)

subsection \<open>Replayed positions can be measured\<close>

definition lots_mult :: "cost_basis \<Rightarrow> bool" where
  "lots_mult cb \<longleftrightarrow> (\<forall>i. \<forall>l \<in> set (stored_lots cb i). 0 < ol_multiplier l)"

lemma lots_mult_store:
  "lots_mult cb \<Longrightarrow> \<forall>l \<in> set new. 0 < ol_multiplier l \<Longrightarrow>
   lots_mult (store_lots i (stored_lots cb i @ new) cb)"
  by (auto simp: lots_mult_def lot_store.get_put)

lemma lots_mult_update:
  assumes "lots_mult cb" "length ys = length (lots_for cb i)" "\<forall>y \<in> set ys. 0 < ol_multiplier y"
  shows "lots_mult (update_lots i ys cb)"
  unfolding lots_mult_def
proof
  fix k
  show "\<forall>l \<in> set (stored_lots (update_lots i ys cb) k). 0 < ol_multiplier l"
    using assms update_lots_set [OF assms(2)]
    by (cases "k = i") (auto simp: lots_mult_def stored_update_lots)
qed

lemma lots_mult_more [simp]: "lots_mult (cb\<lparr>cb_matches := ms\<rparr>) = lots_mult cb"
  by (simp add: lots_mult_def)

lemma lots_multD: "lots_mult cb \<Longrightarrow> l \<in> set (lots_for cb i) \<Longrightarrow> 0 < ol_multiplier l"
  by (auto simp: lots_mult_def lots_for_set)

lemma open_mult: "lots_mult cb \<Longrightarrow> open_position c u cb e d = Inr (l, cb') \<Longrightarrow> lots_mult cb'"
  by (auto simp: open_position_Inr opened_lot_def Let_def result_simps
      intro!: lots_mult_store dest: valid_entryD)

lemma close_mult:
  assumes "lots_mult cb" "close_position c cb e d = Inr (ms, cb')"
  shows "lots_mult cb'"
proof -
  obtain i am ns bs where
    m: "matched_quantities c (cb_policy cb) (lots_for cb i) (e_quantity e) = Inr am"
      "allocate c (closing_proceeds c cb e d) am = Inr ns"
      "allocate c (dmul c (closing_proceeds c cb e d) (e_fx e)) am = Inr bs"
      "cb' = (update_lots i (map fst (closing_steps c cb e d i am ns bs)) cb)
             \<lparr>cb_matches := cb_matches cb @ ms\<rparr>"
    using assms(2) unfolding close_position_Inr by blast
  have "0 < ol_multiplier y" if "y \<in> set (map fst (closing_steps c cb e d i am ns bs))" for y
    using closing_steps_frame [OF that] lots_multD [OF assms(1)] by force
  then show ?thesis unfolding m(4) lots_mult_more
    using closing_steps_length [OF matched_length [OF m(1)] m(2,3)]
    by (intro lots_mult_update [OF assms(1)]) auto
qed

lemma split_mult: "lots_mult cb \<Longrightarrow> split_lots c cb i r = Inr cb' \<Longrightarrow> lots_mult cb'"
  by (auto simp: split_lots_Inr lots_multD intro!: lots_mult_update)

lemma lots_multI:
  assumes "lots_mult cb" "\<And>k. k \<notin> {i, j} \<Longrightarrow> stored_lots cb' k = stored_lots cb k"
    "\<And>l. l \<in> set (stored_lots cb' i) \<union> set (stored_lots cb' j) \<Longrightarrow> 0 < ol_multiplier l"
  shows "lots_mult cb'"
  using assms unfolding lots_mult_def by (metis UnI1 UnI2 insert_iff singletonD)

lemma spinoff_mult:
  assumes "lots_mult cb" "spinoff c u cb e ch a = Inr cb'"
  shows "lots_mult cb'"
proof -
  let ?i = "instrument_or_empty e"
  let ?s1 = "update_lots ?i (map (spinoff_parent c a) (lots_for cb ?i)) cb"
  have s1: "lots_mult ?s1"
    by (rule lots_mult_update [OF assms(1)]) (auto simp: spinoff_parent_def lots_multD [OF assms(1)])
  obtain qs where q: "stored_lots cb' ?i = stored_lots ?s1 ?i"
    "stored_lots cb' ch = stored_lots cb ch @ map2 (spinoff_child c u e ch a) (lots_for cb ?i) qs"
    "\<forall>k. k \<notin> {?i, ch} \<longrightarrow> stored_lots cb' k = stored_lots cb k"
    by (rule spinoff_Inr [OF assms(2)])
  show ?thesis
    by (rule lots_multI [OF assms(1), of ?i ch])
      (use s1 assms(1) q in \<open>auto simp: lots_mult_def spinoff_child_def in_set_zip\<close>)
qed

lemma merger_mult:
  assumes "lots_mult cb" "merger c u cb e ch r x a = Inr (res, cb')"
  shows "lots_mult cb'"
proof -
  let ?i = "instrument_or_empty e"
  let ?s1 = "update_lots ?i (map emptied (lots_for cb ?i)) cb"
  have s1: "lots_mult ?s1"
    by (rule lots_mult_update [OF assms(1)]) (auto simp: emptied_def lots_multD [OF assms(1)])
  note m = merger_Inr [OF assms(2)]
  show ?thesis
    by (rule lots_multI [OF assms(1), of ?i ch])
      (use s1 assms(1) m(4-6) in \<open>auto simp: lots_mult_def merger_successor_def\<close>)
qed

lemma movement_mult:
  "lots_mult (lg_cost_basis s) \<Longrightarrow> movement_cost c u s e = Inr (cb, r) \<Longrightarrow> lots_mult cb"
  by (auto simp: movement_cost_def Let_def bindE_Inr_iff split: if_splits
      dest: open_mult close_mult)

definition mult_ok :: "ledger \<Rightarrow> bool" where
  "mult_ok s \<longleftrightarrow> lots_mult (lg_cost_basis s) \<and> (\<forall>i. 0 < ps_multiplier (get_position s i))"

lemma rollup_mult: "lots_mult cb \<Longrightarrow> 0 < ps_multiplier p \<Longrightarrow> 0 < ps_multiplier (rollup c cb i p)"
  using lots_multD [of cb _ i] by (auto simp: rollup_def Let_def split: list.splits)

lemma mult_ok_roll: "mult_ok s \<Longrightarrow> mult_ok (roll_position c i s)"
  by (auto simp: mult_ok_def roll_position_def intro: rollup_mult)

lemma mult_ok_modify:
  "mult_ok s \<Longrightarrow> (\<And>p. ps_multiplier (f p) = ps_multiplier p) \<Longrightarrow> mult_ok (modify_position i f s)"
  by (auto simp: mult_ok_def)

lemma mult_ok_simps [simp]:
  "mult_ok (s\<lparr>lg_income := x\<rparr>) = mult_ok s" "mult_ok (s\<lparr>lg_fees := x\<rparr>) = mult_ok s"
  "mult_ok (s\<lparr>lg_taxes := x\<rparr>) = mult_ok s" "mult_ok (s\<lparr>lg_adjustments := x\<rparr>) = mult_ok s"
  "mult_ok (s\<lparr>lg_capitalized_charges := x\<rparr>) = mult_ok s"
  "mult_ok (s\<lparr>lg_last_date := l\<rparr>) = mult_ok s"
  "mult_ok (external c s e a) = mult_ok s" "mult_ok (moved c s cur a fx e d) = mult_ok s"
  by (simp_all add: mult_ok_def)

lemma mult_ok_basis: "mult_ok s \<Longrightarrow> lots_mult cb \<Longrightarrow> mult_ok (s\<lparr>lg_cost_basis := cb\<rparr>)"
  by (simp add: mult_ok_def)

lemma mult_ok_cash: "move_cash c s cur a fx e d = Inr t \<Longrightarrow> mult_ok s \<Longrightarrow> mult_ok t"
  by (auto simp: move_cash_Inr split: if_splits)

lemma security_movement_mult:
  assumes "mult_ok s" "security_movement c u s e = Inr s'"
  shows "mult_ok s'"
proof -
  let ?i = "instrument_or_empty e"
  obtain cb r where cb: "movement_cost c u s e = Inr (cb, r)"
    and cash: "movement_cash c (modify_position ?i (\<lambda>p. p\<lparr>ps_realised := dadd c (ps_realised p) r\<rparr>)
        (roll_position c ?i (s\<lparr>lg_cost_basis := cb\<rparr>))) e = Inr s'" (is "movement_cash c ?t e = _")
    using assms(2) by (auto simp: security_movement_def Let_def bindE_Inr_iff)
  have "mult_ok ?t"
    using assms(1) movement_mult [OF _ cb]
    by (auto simp: mult_ok_def [of s] intro!: mult_ok_modify mult_ok_roll mult_ok_basis [OF assms(1)])
  then show ?thesis using cash
    by (auto simp: movement_cash_def Let_def split: if_splits dest: mult_ok_cash)
qed

lemma corporate_action_mult:
  assumes "mult_ok s" "corporate_action c u s e = Inr s'"
  shows "mult_ok s'"
proof -
  have lm: "lots_mult (lg_cost_basis s)" using assms(1) by (simp add: mult_ok_def)
  have sp: "mult_ok t" if "split_action c s e = Inr t" for t
    using that split_mult [OF lm] by (auto simp: split_action_def bindE_Inr_iff intro: mult_ok_basis [OF assms(1)])
  have sf: "mult_ok t" if "spinoff_action c u s e ch = Inr t" for t ch
    using that spinoff_mult [OF lm]
    by (auto simp: spinoff_action_def bindE_Inr_iff intro: mult_ok_basis [OF assms(1)])
  have mg: "mult_ok t" if "merger_action c u s e ch = Inr t" for t ch
    using that merger_mult [OF lm]
    by (auto simp: merger_action_def bindE_Inr_iff intro!: mult_ok_modify
        dest!: mult_ok_cash intro: mult_ok_basis [OF assms(1)])
  show ?thesis using assms(2)
    by (auto simp: corporate_action_def Let_def bindE_Inr_iff split: if_splits pyval.splits
        intro!: mult_ok_roll dest: sp sf mg)
qed

lemma apply_kind_mult:
  assumes "mult_ok s" "apply_kind c u s e = Inr s'"
  shows "mult_ok s'"
  using assms(2)
proof (cases rule: apply_kind_cases)
  case trade
  then show ?thesis using security_movement_mult [OF assms(1)] by blast
next
  case action
  then show ?thesis using corporate_action_mult [OF assms(1)] by blast
qed (auto simp: assms(1) intro!: mult_ok_modify dest!: mult_ok_cash)

lemma apply_entry_mult:
  assumes "mult_ok s" "apply_entry c u s e = Inr s'"
  shows "mult_ok s'"
proof (cases "e_kind e \<in> {COMMISSION, FEE, TAX}")
  case True
  then show ?thesis using assms
    by (auto simp: apply_entry_def expense_def Let_def bindE_Inr_iff intro!: mult_ok_modify
        dest!: mult_ok_cash)
next
  case False
  then obtain t w where "apply_kind c u s e = Inr t" "apply_charges c t e = Inr w"
      "s' = w\<lparr>lg_last_date := Some (e_day e)\<rparr>"
    using assms(2) by (auto simp: apply_entry_def bindE_Inr_iff)
  then show ?thesis using apply_kind_mult [OF assms(1)]
    by (auto simp: apply_charges_def Let_def bindE_Inr_iff intro!: mult_ok_modify dest!: mult_ok_cash)
qed

lemma new_ledger_mult: "mult_ok (new_ledger p)"
  by (simp add: mult_ok_def lots_mult_def new_ledger_def new_cost_basis_def stored_lots_def
      get_position_def new_position_def)

lemma replay_mult: "replay c u (new_ledger p) es = Inr s \<Longrightarrow> mult_ok s"
  unfolding replay_def
  by (erule foldE_invariant [where P = mult_ok]) (auto simp: new_ledger_mult intro: apply_entry_mult)

lemma sum28_pos:
  assumes "xs \<noteq> []" "\<forall>x \<in> set xs. 0 < x"
  shows "0 < dsum (prec 28) xs"
proof -
  obtain ys y where xs: "xs = ys @ [y]" using assms(1) by (cases xs rule: rev_cases) auto
  have "0 \<le> dsum (prec 28) ys" using assms(2) by (intro d28.sum_nonneg) (auto simp: xs less_imp_le)
  moreover have "0 < y" using assms(2) by (simp add: xs)
  ultimately show ?thesis by (auto simp: xs d28.sum_snoc dadd_def intro!: prec_pos)
qed

lemma sum28_minus: "dsum (prec 28) (map uminus xs) = - dsum (prec 28) xs"
proof (induction xs rule: rev_induct)
  case (snoc x xs)
  have "dadd (prec 28) (- a) (- b) = - dadd (prec 28) a b" for a b
    using d28.odd [of "a + b"] by (simp add: dadd_def add.commute)
  then show ?case using snoc by (simp add: d28.sum_snoc)
qed simp

lemma open_quantity_nonzero:
  assumes "lots \<noteq> []" "\<forall>l \<in> set lots. ol_direction l = d \<and> 0 < ol_quantity l"
  shows "dsum (prec 28) (map (\<lambda>l. signed (prec 28) (ol_direction l) (ol_quantity l)) lots) \<noteq> 0"
proof (cases d)
  case LONG
  then have "0 < dsum (prec 28) (map (\<lambda>l. signed (prec 28) (ol_direction l) (ol_quantity l)) lots)"
    using assms by (intro sum28_pos) (auto simp: signed_def)
  then show ?thesis by simp
next
  case SHORT_SIDE
  have "map (\<lambda>l. signed (prec 28) (ol_direction l) (ol_quantity l)) lots =
      map uminus (map (\<lambda>l. prec 28 (ol_quantity l)) lots)"
    using assms(2) SHORT_SIDE by (auto simp: signed_def dneg_def d28.odd)
  moreover have "0 < dsum (prec 28) (map (\<lambda>l. prec 28 (ol_quantity l)) lots)"
    using assms by (intro sum28_pos) (auto intro: prec_pos)
  ultimately show ?thesis using sum28_minus [of "map (\<lambda>l. prec 28 (ol_quantity l)) lots"]
    by (simp only: neg_equal_0_iff_equal less_irrefl)
qed

section \<open>Properties\<close>

text \<open>Every position of a ledger replayed in the default context can be valued: with a
  non-negative price and a positive exchange rate, or with either of them missing, the
  measurement never raises. Closed positions keep no cost and multipliers stay positive.\<close>

theorem replayed_positions_measurable:
  assumes "replay (prec 28) u (new_ledger p) es = Inr s"
    and "\<forall>x. price = Some x \<longrightarrow> 0 \<le> x" "\<forall>x. fx = Some x \<longrightarrow> 0 < x"
  shows "\<exists>m. measure_position (prec 28) (get_position s i) price fx = Inr m \<and>
    pm_quantity m = ps_quantity (get_position s i)"
proof -
  let ?p = "get_position s i" and ?lots = "lots_for (lg_cost_basis s) i"
  have inv: "lots_inv (prec 28) s" by (rule replay_lots [OF new_ledger_lots assms(1)])
  then obtain d where d: "\<forall>l \<in> set ?lots. ol_direction l = d"
    unfolding lots_inv_def homogeneous_def by blast
  have r: "position_rolled (prec 28) (lg_cost_basis s) i ?p"
    using inv by (simp add: lots_inv_def rolled_def)
  have "ps_quantity ?p = 0 \<longrightarrow> ?lots = []"
    using open_quantity_nonzero [of ?lots d] r d lots_for_pos [of _ "lg_cost_basis s" i]
    by (auto simp: position_rolled_def)
  then have "ps_quantity ?p = 0 \<longrightarrow> ps_cost_native ?p = 0 \<and> ps_cost_base ?p = 0"
    using r by (auto simp: position_rolled_def)
  moreover have "0 < ps_multiplier ?p" using replay_mult [OF assms(1)] by (simp add: mult_ok_def)
  ultimately show ?thesis using assms(2,3)
    by (intro exI [of _ "measured (prec 28) ?p price fx"]) (auto simp: measure_Inr measured_def Let_def)
qed

text \<open>The purchased position of the sample book at a price of 120 without an exchange rate.\<close>

theorem replayed_positions_measurable_witness:
  "case replay (prec 28) (\<lambda>t. t) (new_ledger default_policy) sample_book of
     Inl _ \<Rightarrow> False
   | Inr s \<Rightarrow> \<exists>m. measure_position (prec 28) (get_position s ''X'') (Some 120) None = Inr m"
proof -
  have "\<not> isl (replay (prec 28) (\<lambda>t. t) (new_ledger default_policy) sample_book)" by code_simp
  then obtain s where s: "replay (prec 28) (\<lambda>t. t) (new_ledger default_policy) sample_book = Inr s"
    by (cases "replay (prec 28) (\<lambda>t. t) (new_ledger default_policy) sample_book") auto
  show ?thesis unfolding s sum.case
    using replayed_positions_measurable [OF s, of "Some 120" None "''X''"] by auto
qed

text \<open>In ideal arithmetic, whenever a position is valued with both marks, its unrealised
  P&L is exactly the sum of the reported price and currency components, and it is the marked
  value of the signed quantity less the recorded base cost.\<close>

theorem unrealised_decomposes:
  assumes "measure_position exact lot (Some p) (Some x) = Inr m"
  shows "\<exists>a b. pm_price_pnl_base m = Some a \<and> pm_fx_pnl_base m = Some b \<and>
    pm_unrealised_base m = Some (a + b) \<and>
    a + b = ps_quantity lot * ps_multiplier lot * p * x - ps_cost_base lot"
  using assms
  by (intro exI [of _ "the (pm_price_pnl_base m)"] exI [of _ "the (pm_fx_pnl_base m)"])
    (auto simp: measure_Inr measured_def Let_def both_def algebra_simps)

text \<open>Four shares bought at 100, marked at 120.\<close>

theorem unrealised_decomposes_witness:
  "let lot = new_position\<lparr>ps_quantity := 4, ps_cost_native := 400, ps_cost_base := 440\<rparr>
   in case measure_position exact lot (Some 120) (Some 2) of
        Inl _ \<Rightarrow> False | Inr m \<Rightarrow> pm_unrealised_base m = Some 520"
proof -
  let ?lot = "new_position\<lparr>ps_quantity := 4, ps_cost_native := 400, ps_cost_base := 440\<rparr>"
  have "\<not> isl (measure_position exact ?lot (Some 120) (Some 2))" by code_simp
  then obtain m where m: "measure_position exact ?lot (Some 120) (Some 2) = Inr m"
    by (cases "measure_position exact ?lot (Some 120) (Some 2)") auto
  show ?thesis unfolding Let_def m sum.case
    using unrealised_decomposes [OF m] by (auto simp: new_position_def)
qed

text \<open>A missing mark is reported, not guessed: in the default context a valuation lacks a
  base value (and unrealised and total P&L) exactly when the position is open and its price or
  its exchange rate is missing, and exactly then it carries a warning.\<close>

theorem missing_mark_reported:
  assumes "measure_position (prec 28) lot price fx = Inr m"
  shows "(pm_base_value m = None \<longleftrightarrow> ps_quantity lot \<noteq> 0 \<and> (price = None \<or> fx = None)) \<and>
    (total_pnl (prec 28) m = None \<longleftrightarrow> pm_base_value m = None) \<and>
    (pl_valuation_state (position_payload_of (prec 28) m) = ''UNAVAILABLE'' \<longleftrightarrow> pm_base_value m = None) \<and>
    (pm_warnings m \<noteq> [] \<longleftrightarrow> pm_base_value m = None)"
  using assms measured_base_None [of "prec 28" lot price fx]
  by (auto simp: measure_Inr total_pnl_def position_payload_of_def)

text \<open>An open position without a price.\<close>

theorem missing_mark_reported_witness:
  "case measure_position (prec 28) (new_position\<lparr>ps_quantity := 4\<rparr>) None (Some 1) of
     Inl _ \<Rightarrow> False | Inr m \<Rightarrow> total_pnl (prec 28) m = None"
proof -
  have "\<not> isl (measure_position (prec 28) (new_position\<lparr>ps_quantity := 4\<rparr>) None (Some 1))" by code_simp
  then obtain m where m: "measure_position (prec 28) (new_position\<lparr>ps_quantity := 4\<rparr>) None (Some 1) = Inr m"
    by (cases "measure_position (prec 28) (new_position\<lparr>ps_quantity := 4\<rparr>) None (Some 1)") auto
  show ?thesis unfolding m sum.case using missing_mark_reported [OF m] by simp
qed

end
