(* ===== verification/Exposure.thy ===== *)
theory Exposure
  imports Money "HOL-Library.Product_Lexorder" "HOL-Library.Multiset"
begin

text \<open>
  \<open>portfolio_domain/exposure.py\<close>: marked exposures grouped along five dimensions. Values are
  finite decimals or unavailable. The percentages of \<open>freshness\<close> that the code computes in
  floating point are kept as exact quotients.
\<close>

section \<open>Items\<close>

datatype exposure_kind = POSITION | CASH | BALANCE

datatype dimension = Sector | Country | Currency | Asset_Class | Industry

definition DIMENSIONS :: "dimension list" where
  "DIMENSIONS = [Sector, Country, Currency, Asset_Class, Industry]"

record exposure_item =
  xi_identifier :: string
  xi_kind :: exposure_kind
  xi_currency :: string
  xi_value :: "rat option"
  xi_asset_class :: string
  xi_sector :: "string option"
  xi_country :: "string option"
  xi_stale :: bool
  xi_price_available :: bool
  xi_fx_available :: bool
  xi_industry :: "string option"

definition check_item :: "exposure_item \<Rightarrow> exposure_item result" where
  "check_item x =
     bindE (ensure (xi_identifier x \<noteq> [])
        (ValueError ''Exposure requires an identifier and supported component kind'')) (\<lambda>_.
     bindE (ensure (length (xi_currency x) = 3)
        (ValueError ''Exposure requires a three-letter currency'')) (\<lambda>_. Inr x))"

fun label :: "dimension \<Rightarrow> exposure_item \<Rightarrow> string option" where
  "label Sector x = xi_sector x"
| "label Country x = xi_country x"
| "label Currency x = Some (xi_currency x)"
| "label Asset_Class x = Some (xi_asset_class x)"
| "label Industry x = xi_industry x"

definition group_name :: "dimension \<Rightarrow> exposure_item \<Rightarrow> string option" where
  "group_name d x =
     (if xi_kind x \<noteq> POSITION \<and> d \<in> {Sector, Country, Industry} then None
      else Some (case label d x of
          Some l \<Rightarrow> if str_strip l \<noteq> [] then str_strip l else ''Unclassified''
        | None \<Rightarrow> ''Unclassified''))"

section \<open>Groups\<close>

record exposure_group =
  xg_name :: string
  xg_items :: "exposure_item list"
  xg_nav :: "rat option"

definition missing_count :: "exposure_item list \<Rightarrow> nat" where
  "missing_count xs = length (filter (\<lambda>x. xi_value x = None) xs)"

definition known_values :: "exposure_item list \<Rightarrow> rat list" where
  "known_values xs = List.map_filter xi_value xs"

definition known_value :: "ctx \<Rightarrow> exposure_item list \<Rightarrow> rat" where
  "known_value c xs = dsum c (known_values xs)"

definition net_value :: "ctx \<Rightarrow> exposure_item list \<Rightarrow> rat option" where
  "net_value c xs = (if missing_count xs \<noteq> 0 then None else Some (known_value c xs))"

definition gross_value :: "ctx \<Rightarrow> exposure_item list \<Rightarrow> rat option" where
  "gross_value c xs =
     (if missing_count xs \<noteq> 0 then None else Some (dsum c (map (dabs c) (known_values xs))))"

text \<open>\<open>sign\<close> is \<open>None\<close>, \<open>1\<close> (non-negative values) or \<open>-1\<close>.\<close>

definition component :: "ctx \<Rightarrow> exposure_item list \<Rightarrow> exposure_kind \<Rightarrow> int option \<Rightarrow> rat option" where
  "component c xs kind sign =
     (let rows = filter (\<lambda>x. xi_kind x = kind) xs in
      if list_ex (\<lambda>x. xi_value x = None) rows then None
      else Some (dsum c (filter (\<lambda>v. case sign of None \<Rightarrow> True
          | Some sg \<Rightarrow> if sg = 1 then 0 \<le> v else v < 0) (known_values rows))))"

record group_payload =
  gp_name :: string
  gp_value :: "rat option"
  gp_net_value :: "rat option"
  gp_gross_value :: "rat option"
  gp_known_value :: rat
  gp_long_value :: "rat option"
  gp_short_value :: "rat option"
  gp_cash_value :: "rat option"
  gp_balance_value :: "rat option"
  gp_weight :: "rat option"
  gp_gross_weight :: "rat option"
  gp_state :: string
  gp_item_count :: nat
  gp_position_count :: nat
  gp_missing_count :: nat
  gp_stale_count :: nat

text \<open>\<open>x / nav\<close> when the numerator is known and NAV is known and not zero.\<close>

definition weight_of :: "ctx \<Rightarrow> rat option \<Rightarrow> rat option \<Rightarrow> rat option" where
  "weight_of c x nav =
     (case (x, nav) of (Some v, Some n) \<Rightarrow> if n \<noteq> 0 then Some (ddiv c v n) else None | _ \<Rightarrow> None)"

definition group_payload_of :: "ctx \<Rightarrow> exposure_group \<Rightarrow> group_payload" where
  "group_payload_of c g =
     (let xs = xg_items g; net = net_value c xs; gross = gross_value c xs in
      \<lparr>gp_name = xg_name g, gp_value = map_option cents net, gp_net_value = net,
       gp_gross_value = gross, gp_known_value = known_value c xs,
       gp_long_value = component c xs POSITION (Some 1),
       gp_short_value = component c xs POSITION (Some (- 1)),
       gp_cash_value = component c xs CASH None, gp_balance_value = component c xs BALANCE None,
       gp_weight = weight_of c net (xg_nav g),
       gp_gross_weight = weight_of c gross (map_option (dabs c) (xg_nav g)),
       gp_state = (if missing_count xs \<noteq> 0 then ''INCOMPLETE'' else ''AVAILABLE''),
       gp_item_count = length xs,
       gp_position_count = length (filter (\<lambda>x. xi_kind x = POSITION) xs),
       gp_missing_count = missing_count xs,
       gp_stale_count = length (filter xi_stale xs)\<rparr>)"

section \<open>The service\<close>

definition check_items :: "exposure_item list \<Rightarrow> exposure_item list result" where
  "check_items xs =
     bindE (ensure (distinct (map (\<lambda>x. (xi_kind x, xi_identifier x)) xs))
        (ValueError ''Exposure components must not be duplicated'')) (\<lambda>_. Inr xs)"

text \<open>\<open>grouped[name].append(item)\<close>: groups in order of first appearance.\<close>

definition add_item ::
  "dimension \<Rightarrow> exposure_item list dict \<Rightarrow> exposure_item \<Rightarrow> exposure_item list dict" where
  "add_item d groups x =
     (case group_name d x of
        None \<Rightarrow> groups
      | Some name \<Rightarrow> AList.update name (dict_get groups name [] @ [x]) groups)"

definition grouped :: "dimension \<Rightarrow> exposure_item list \<Rightarrow> exposure_item list dict" where
  "grouped d xs = foldl (add_item d) [] xs"

definition sort_rank :: "ctx \<Rightarrow> exposure_group \<Rightarrow> rat \<times> string" where
  "sort_rank c g = (dneg c (dabs c (known_value c (xg_items g))), xg_name g)"

definition groups_of :: "ctx \<Rightarrow> exposure_item list \<Rightarrow> rat option \<Rightarrow> dimension \<Rightarrow> exposure_group list" where
  "groups_of c xs nav d =
     sort_key (sort_rank c)
       (map (\<lambda>(name, items). \<lparr>xg_name = name, xg_items = items, xg_nav = nav\<rparr>) (grouped d xs))"

definition exposure_groups ::
  "ctx \<Rightarrow> exposure_item list \<Rightarrow> rat option \<Rightarrow> (dimension \<times> group_payload list) list" where
  "exposure_groups c xs nav = map (\<lambda>d. (d, map (group_payload_of c) (groups_of c xs nav d))) DIMENSIONS"

record freshness =
  fr_stale_market_value :: rat
  fr_stale_cash_value :: rat
  fr_stale_balance_value :: rat
  fr_stale_total_value :: rat
  fr_stale_nav_pct :: "rat option"
  fr_known_marked_value :: rat
  fr_state :: string
  fr_unavailable_items :: nat
  fr_stale_items :: nat
  fr_item_count :: nat
  fr_price_coverage_pct :: rat
  fr_cash_fx_coverage_pct :: rat

definition stale_value :: "ctx \<Rightarrow> exposure_item list \<Rightarrow> exposure_kind \<Rightarrow> rat" where
  "stale_value c xs kind =
     dsum c (map (dabs c) (known_values (filter (\<lambda>x. xi_kind x = kind \<and> xi_stale x) xs)))"

definition coverage :: "(exposure_item \<Rightarrow> bool) \<Rightarrow> exposure_item list \<Rightarrow> rat" where
  "coverage P xs =
     (if xs = [] then 100 else of_nat (length (filter P xs)) / of_nat (length xs) * 100)"

definition freshness_of :: "ctx \<Rightarrow> exposure_item list \<Rightarrow> rat option \<Rightarrow> freshness" where
  "freshness_of c xs nav =
     (let stale_total = dsum c (map (stale_value c xs) [POSITION, CASH, BALANCE]);
          missing = missing_count xs
      in \<lparr>fr_stale_market_value = cents (stale_value c xs POSITION),
          fr_stale_cash_value = cents (stale_value c xs CASH),
          fr_stale_balance_value = cents (stale_value c xs BALANCE),
          fr_stale_total_value = stale_total,
          fr_stale_nav_pct =
            (if missing = 0 then weight_of c (Some stale_total) (map_option (dabs c) nav) else None),
          fr_known_marked_value = dsum c (map (dabs c) (known_values xs)),
          fr_state = (if missing \<noteq> 0 then ''INCOMPLETE'' else ''AVAILABLE''),
          fr_unavailable_items = missing, fr_stale_items = length (filter xi_stale xs),
          fr_item_count = length xs,
          fr_price_coverage_pct =
            coverage (\<lambda>x. xi_price_available x \<and> xi_fx_available x)
              (filter (\<lambda>x. xi_kind x = POSITION) xs),
          fr_cash_fx_coverage_pct =
            coverage xi_fx_available (filter (\<lambda>x. xi_kind x = CASH) xs)\<rparr>)"

section \<open>Lemmas\<close>

interpretation group_store: keyed_store "\<lambda>g name. dict_get g name []" AList.update
  by unfold_locales simp

lemma grouped_get:
  "dict_get (foldl (add_item d) g xs) name [] =
     dict_get g name [] @ filter (\<lambda>x. group_name d x = Some name) xs"
  by (induction xs arbitrary: g) (auto simp: add_item_def split: option.splits)

lemma grouped_keys:
  "set (map fst (foldl (add_item d) g xs)) =
     set (map fst g) \<union> {name. \<exists>x \<in> set xs. group_name d x = Some name}"
  by (induction xs arbitrary: g) (auto simp: add_item_def dom_update split: option.splits)

lemma grouped_distinct: "distinct (map fst g) \<Longrightarrow> distinct (map fst (foldl (add_item d) g xs))"
  by (induction xs arbitrary: g)
    (auto simp: add_item_def distinct_update_keys simp del: map_update split: option.splits)

lemma grouped_entry:
  assumes "(name, items) \<in> set (grouped d xs)"
  shows "items = filter (\<lambda>x. group_name d x = Some name) xs" "items \<noteq> []"
proof -
  have dist: "distinct (map fst (grouped d xs))" unfolding grouped_def by (rule grouped_distinct) simp
  have "dict_get (grouped d xs) name [] = items"
    using assms dist by (simp add: dict_get_def)
  then show i: "items = filter (\<lambda>x. group_name d x = Some name) xs"
    using grouped_get [of d "[]" xs name] by (simp add: grouped_def)
  have "name \<in> set (map fst (grouped d xs))" using assms by force
  then show "items \<noteq> []"
    unfolding grouped_def grouped_keys i by (auto simp: filter_empty_conv)
qed

lemma groups_of_set:
  "set (groups_of c xs nav d) =
     (\<lambda>(name, items). \<lparr>xg_name = name, xg_items = items, xg_nav = nav\<rparr>) ` set (grouped d xs)"
  by (simp add: groups_of_def)

lemma groups_of_sum:
  "sum_list (map f (groups_of c xs nav d)) =
     (sum_list (map (\<lambda>(name, items). f \<lparr>xg_name = name, xg_items = items, xg_nav = nav\<rparr>) (grouped d xs))
      :: 'a::comm_monoid_add)"
  unfolding sum_mset_sum_list [symmetric] mset_map groups_of_def
  by (simp add: image_mset.compositionality comp_def case_prod_unfold)

definition classified :: "dimension \<Rightarrow> exposure_item list \<Rightarrow> exposure_item list" where
  "classified d xs = filter (\<lambda>x. group_name d x \<noteq> None) xs"

lemma grouped_sum:
  "sum_list (map (\<lambda>(name, items). sum_list (map h items)) (grouped d xs)) =
     (sum_list (map h (classified d xs)) :: 'a::comm_monoid_add)"
proof -
  let ?ids = "map fst (grouped d xs)"
  have "sum_list (map (\<lambda>(name, items). sum_list (map h items)) (grouped d xs)) =
      sum_list (map (\<lambda>i. sum_list (map h (filter (\<lambda>x. the (group_name d x) = i) (classified d xs)))) ?ids)"
    unfolding map_map comp_def
  proof (intro arg_cong [where f = sum_list] map_cong refl)
    fix g
    assume "g \<in> set (grouped d xs)"
    then have "snd g = filter (\<lambda>x. group_name d x = Some (fst g)) xs"
      using grouped_entry(1) [of "fst g" "snd g" d xs] by simp
    also have "\<dots> = filter (\<lambda>x. the (group_name d x) = fst g) (classified d xs)"
      by (auto simp: classified_def intro: filter_cong)
    finally show "(case g of (name, items) \<Rightarrow> sum_list (map h items)) =
        sum_list (map h (filter (\<lambda>x. the (group_name d x) = fst g) (classified d xs)))"
      by (simp add: case_prod_unfold)
  qed
  also have "\<dots> = sum_list (map h (classified d xs))"
  proof (rule sum_by_key)
    show "distinct ?ids" unfolding grouped_def by (rule grouped_distinct) simp
    show "\<forall>m \<in> set (classified d xs). the (group_name d m) \<in> set ?ids"
      unfolding grouped_def grouped_keys by (auto simp: classified_def)
  qed
  finally show ?thesis .
qed

lemma groups_item_sum:
  "sum_list (map (\<lambda>g. sum_list (map h (xg_items g))) (groups_of c xs nav d)) =
     (sum_list (map h (classified d xs)) :: 'a::comm_monoid_add)"
  using grouped_sum [of h d xs] by (simp add: groups_of_sum case_prod_unfold)

definition value_or_zero :: "exposure_item \<Rightarrow> rat" where
  "value_or_zero x = (case xi_value x of Some v \<Rightarrow> v | None \<Rightarrow> 0)"

lemma known_value_exact: "known_value exact xs = sum_list (map value_or_zero xs)"
  by (induction xs) (auto simp: known_value_def known_values_def value_or_zero_def
      List.map_filter_simps split: option.splits)

lemma missing_count_sum: "missing_count xs = sum_list (map (\<lambda>x. if xi_value x = None then 1 else 0) xs)"
  by (induction xs) (auto simp: missing_count_def)

lemma length_sum: "length xs = sum_list (map (\<lambda>x. 1) xs)"
  by (induction xs) auto

lemma group_payload_simps [simp]:
  "gp_known_value (group_payload_of c g) = known_value c (xg_items g)"
  "gp_missing_count (group_payload_of c g) = missing_count (xg_items g)"
  "gp_item_count (group_payload_of c g) = length (xg_items g)"
  "gp_name (group_payload_of c g) = xg_name g"
  "gp_net_value (group_payload_of c g) = net_value c (xg_items g)"
  by (simp_all add: group_payload_of_def Let_def)

section \<open>Properties\<close>

text \<open>Along every dimension the groups partition the classified items. In the default
  context, group names are distinct, a group holds exactly the items of its label in their
  original order and is never empty, every labelled item has its group, and the groups are
  sorted by descending absolute known value and then by name.\<close>

theorem groups_partition:
  "let gs = groups_of (prec 28) xs nav d in
     distinct (map xg_name gs) \<and>
     (\<forall>g \<in> set gs. xg_items g = filter (\<lambda>x. group_name d x = Some (xg_name g)) xs \<and> xg_items g \<noteq> []) \<and>
     set (map xg_name gs) = {n. \<exists>x \<in> set xs. group_name d x = Some n} \<and>
     sorted (map (sort_rank (prec 28)) gs)"
proof -
  let ?gs = "groups_of (prec 28) xs nav d"
  have "mset (map xg_name ?gs) = mset (map fst (grouped d xs))"
    unfolding groups_of_def mset_map by (simp add: image_mset.compositionality comp_def case_prod_unfold)
  moreover have "distinct (map fst (grouped d xs))" unfolding grouped_def by (rule grouped_distinct) simp
  ultimately have "distinct (map xg_name ?gs)" "set (map xg_name ?gs) = set (map fst (grouped d xs))"
    by (metis mset_eq_imp_distinct_iff, metis mset_eq_setD)
  moreover have "set (map fst (grouped d xs)) = {n. \<exists>x \<in> set xs. group_name d x = Some n}"
    unfolding grouped_def grouped_keys by simp
  moreover have "\<forall>g \<in> set ?gs. xg_items g = filter (\<lambda>x. group_name d x = Some (xg_name g)) xs \<and> xg_items g \<noteq> []"
    using grouped_entry [of _ _ d xs] by (auto simp: groups_of_set)
  moreover have "sorted (map (sort_rank (prec 28)) ?gs)" by (simp add: groups_of_def)
  ultimately show ?thesis unfolding Let_def by blast
qed

definition sample_item :: "string \<Rightarrow> exposure_kind \<Rightarrow> rat option \<Rightarrow> string option \<Rightarrow> exposure_item" where
  "sample_item i k v sector =
     \<lparr>xi_identifier = i, xi_kind = k, xi_currency = ''USD'', xi_value = v, xi_asset_class = ''EQUITY'',
      xi_sector = sector, xi_country = None, xi_stale = False, xi_price_available = True,
      xi_fx_available = True, xi_industry = None\<rparr>"

definition sample_items :: "exposure_item list" where
  "sample_items =
     [sample_item ''a'' POSITION (Some 10) (Some ''Tech''), sample_item ''b'' POSITION None None,
      sample_item ''c'' POSITION (Some (-30)) (Some ''Energy''), sample_item ''d'' CASH (Some 5) None]"

text \<open>Three positions in three sectors; cash has no sector.\<close>

theorem groups_partition_witness:
  "list_all (\<lambda>g. xg_items g \<noteq> []) (groups_of (prec 28) sample_items None Sector)"
  using groups_partition [of sample_items None Sector] unfolding Let_def list_all_iff by blast

text \<open>The group figures add up. In ideal arithmetic, over the groups of a dimension, the
  known values, the item counts and the missing counts add up to those of the classified items,
  so no exposure is counted twice or dropped.\<close>

theorem group_totals:
  "let rows = map (group_payload_of exact) (groups_of exact xs nav d) in
     sum_list (map gp_known_value rows) = known_value exact (classified d xs) \<and>
     sum_list (map gp_item_count rows) = length (classified d xs) \<and>
     sum_list (map gp_missing_count rows) = missing_count (classified d xs)"
  unfolding Let_def map_map comp_def group_payload_simps known_value_exact missing_count_sum
    length_sum groups_item_sum by simp

text \<open>A group with an unmarked item never reports a net or gross value or a weight; with
  all marks present the net value is reported, long and short components add up to the
  positions, and positions, cash and balances add up to the net value (in ideal arithmetic).\<close>

theorem group_components:
  "let r = group_payload_of exact g in
     (gp_missing_count r \<noteq> 0 \<longrightarrow> gp_net_value r = None \<and> gp_gross_value r = None \<and> gp_value r = None \<and>
        gp_weight r = None \<and> gp_gross_weight r = None \<and> gp_state r = ''INCOMPLETE'') \<and>
     (gp_missing_count r = 0 \<longrightarrow> (\<exists>n l s k b. gp_net_value r = Some n \<and> gp_long_value r = Some l \<and>
        gp_short_value r = Some s \<and> gp_cash_value r = Some k \<and> gp_balance_value r = Some b \<and>
        n = l + s + k + b \<and> gp_gross_value r \<noteq> None \<and> 0 \<le> l \<and> s \<le> 0))"
proof -
  let ?xs = "xg_items g"
  have parts: "known_value exact ys =
      sum_list (filter (\<lambda>v. 0 \<le> v) (known_values (filter (\<lambda>x. xi_kind x = POSITION) ys))) +
      sum_list (filter (\<lambda>v. v < 0) (known_values (filter (\<lambda>x. xi_kind x = POSITION) ys))) +
      sum_list (known_values (filter (\<lambda>x. xi_kind x = CASH) ys)) +
      sum_list (known_values (filter (\<lambda>x. xi_kind x = BALANCE) ys))" for ys
  proof (induction ys)
    case (Cons y ys)
    then show ?case
      by (cases "xi_kind y"; cases "xi_value y")
        (auto simp: known_value_def known_values_def List.map_filter_simps)
  qed (simp add: known_value_def known_values_def)
  have known: "\<not> list_ex (\<lambda>x. xi_value x = None) (filter P ?xs)" if "missing_count ?xs = 0" for P
    using that by (auto simp: missing_count_def list_ex_iff filter_empty_conv)
  have "0 \<le> sum_list (filter (\<lambda>v. 0 \<le> v) ys)" "sum_list (filter (\<lambda>v. v < 0) ys) \<le> 0" for ys :: "rat list"
    by (induction ys) auto
  then show ?thesis using known parts [of ?xs]
    by (auto simp: Let_def group_payload_of_def net_value_def gross_value_def component_def weight_of_def)
qed

text \<open>The Tech group of the sample is complete, a group of the unmarked item is not.\<close>

theorem group_components_witness:
  "gp_net_value (group_payload_of exact
     \<lparr>xg_name = ''Unclassified'', xg_items = [sample_item ''b'' POSITION None None], xg_nav = Some 5\<rparr>) = None"
  using group_components [of "\<lparr>xg_name = ''Unclassified'',
      xg_items = [sample_item ''b'' POSITION None None], xg_nav = Some 5\<rparr>"]
  by (simp add: Let_def missing_count_def sample_item_def)

end
