(* ===== verification/Performance.thy ===== *)
theory Performance
  imports Decimal_Context
begin

text \<open>
  \<open>performance_domain/contracts.py\<close> and \<open>performance_domain/series.py\<close>: the return of one
  observation on the net or the gross basis, geometric linking in a 40-digit context, the
  grouping of observations into periods and the index series. What pandas provides (the
  grouping by calendar rule, the boundary of a period, the business days of a range) is a
  parameter, the record \<open>calendar\<close>; a date is its ordinal, so a weekday is a remainder.
\<close>

section \<open>Contracts\<close>

datatype frequency = DAILY | WEEKLY | MONTHLY

datatype fee_basis = NET | GROSS

record performance_settings =
  pf_start :: "date option"
  pf_end :: "date option"
  pf_frequency :: frequency
  pf_fee_basis :: fee_basis
  pf_risk_free_rate :: rat
  pf_trading_days :: int
  pf_minimum_observations :: int
  pf_rolling_window :: int

text \<open>The field bounds and the validator of \<open>PerformanceSettings\<close>.\<close>

definition check_settings :: "performance_settings \<Rightarrow> performance_settings result" where
  "check_settings s =
     bindE (ensure
        (- 1 < pf_risk_free_rate s \<and> pf_risk_free_rate s \<le> 1 \<and>
         200 \<le> pf_trading_days s \<and> pf_trading_days s \<le> 366 \<and>
         2 \<le> pf_minimum_observations s \<and> pf_minimum_observations s \<le> 1000 \<and>
         2 \<le> pf_rolling_window s \<and> pf_rolling_window s \<le> 1260)
        (ValueError ''field out of bounds'')) (\<lambda>_.
     bindE (ensure (case (pf_start s, pf_end s) of (Some a, Some b) \<Rightarrow> a \<le> b | _ \<Rightarrow> True)
        (ValueError ''Performance start must not follow end'')) (\<lambda>_. Inr s))"

definition periods_per_year :: "performance_settings \<Rightarrow> int" where
  "periods_per_year s =
     (case pf_frequency s of DAILY \<Rightarrow> pf_trading_days s | WEEKLY \<Rightarrow> 52 | MONTHLY \<Rightarrow> 12)"

record return_observation =
  ro_day :: date
  ro_net_return :: "rat option"
  ro_opening_nav :: "rat option"
  ro_closing_nav :: "rat option"
  ro_external_flow :: "rat option"
  ro_daily_pnl :: "rat option"
  ro_fee_expense :: "rat option"
  ro_benchmark_return :: "rat option"
  ro_quality :: string

text \<open>A return, or no return and the reason.\<close>

definition selected_return ::
  "ctx \<Rightarrow> return_observation \<Rightarrow> fee_basis \<Rightarrow> rat option \<times> string option" where
  "selected_return c r basis =
     (case ro_net_return r of
        None \<Rightarrow> (None, Some ''Missing or invalid NAV return'')
      | Some net \<Rightarrow>
          if net < - 1 then (None, Some ''Return below -100% cannot be geometrically linked'')
          else if basis = NET then (Some net, None)
          else
            (case ro_fee_expense r of
               None \<Rightarrow> (None, Some ''Fee expense was not recorded for this observation'')
             | Some fee \<Rightarrow>
                 (case (ro_opening_nav r, ro_external_flow r) of
                    (Some opening, Some flow) \<Rightarrow>
                      let capital = dadd c opening flow in
                      if capital \<le> 0
                      then (None, Some ''Beginning-of-period invested capital is not positive'')
                      else
                        let gross = dadd c net (ddiv c fee capital) in
                        if gross < - 1
                        then (None, Some ''Gross return below -100% cannot be geometrically linked'')
                        else (Some gross, None)
                  | _ \<Rightarrow> (None, Some ''Opening capital or external flow is unavailable''))))"

record return_period =
  rp_start :: date
  rp_end :: date
  rp_value :: "rat option"
  rp_benchmark :: "rat option"
  rp_observations :: nat
  rp_missing :: nat
  rp_reason :: "string option"
  rp_statistical_ready :: bool

section \<open>Linking\<close>

definition growth :: "ctx \<Rightarrow> rat list \<Rightarrow> rat" where
  "growth c vs = foldl (\<lambda>index v. dmul c index (dadd c 1 v)) 1 vs"

text \<open>\<open>linked\<close>: every operation in the 40-digit context the function enters.\<close>

definition linked :: "ctx \<Rightarrow> rat option list \<Rightarrow> rat option" where
  "linked c values =
     (if values = [] \<or> list_ex (\<lambda>v. case v of None \<Rightarrow> True | Some x \<Rightarrow> x < - 1) values then None
      else Some (dsub c (growth c (map the values)) 1))"

section \<open>Selecting and grouping observations\<close>

definition select_observations ::
  "return_observation list \<Rightarrow> date option \<Rightarrow> date option \<Rightarrow> return_observation list result" where
  "select_observations rows start last_day =
     (let days = map ro_day rows in
      bindE (ensure (days = sorted_keys days)
         (ValueError ''Performance observations must have unique ascending dates'')) (\<lambda>_.
      bindE (ensure (case (start, last_day) of (Some a, Some b) \<Rightarrow> a \<le> b | _ \<Rightarrow> True)
         (ValueError ''Performance start must not follow end'')) (\<lambda>_.
      Inr (filter (\<lambda>r. (case start of None \<Rightarrow> True | Some a \<Rightarrow> a \<le> ro_day r) \<and>
                       (case last_day of None \<Rightarrow> True | Some b \<Rightarrow> ro_day r \<le> b)) rows))))"

text \<open>\<open>date.weekday()\<close> of an ordinal: 0 is Monday.\<close>

definition weekday :: "date \<Rightarrow> int" where
  "weekday d = (d - 1) mod 7"

record calendar =
  cal_groups :: "frequency \<Rightarrow> return_observation list \<Rightarrow> return_observation list list"
  cal_boundary :: "frequency \<Rightarrow> date \<Rightarrow> date \<times> date"
  cal_business :: "date \<Rightarrow> date \<Rightarrow> date list"

text \<open>\<open>list(dict.fromkeys(reasons))\<close> joined with \<open>"; "\<close>.\<close>

fun joined :: "string \<Rightarrow> string list \<Rightarrow> string" where
  "joined sep [] = []"
| "joined sep [s] = s"
| "joined sep (s # t # ts) = s @ sep @ joined sep (t # ts)"

definition distinct_reasons :: "string option list \<Rightarrow> string list" where
  "distinct_reasons rs = rev (remdups (rev (List.map_filter (\<lambda>r. r) rs)))"

definition expected_days :: "calendar \<Rightarrow> frequency \<Rightarrow> return_observation list \<Rightarrow> date list" where
  "expected_days cal freq grp =
     (if freq = DAILY then cal_business cal (ro_day (hd grp)) (ro_day (last grp))
      else let (a, b) = cal_boundary cal freq (ro_day (last grp)) in cal_business cal a b)"

definition complete_group :: "ctx \<Rightarrow> calendar \<Rightarrow> frequency \<Rightarrow> fee_basis \<Rightarrow> return_observation list \<Rightarrow> bool" where
  "complete_group c cal freq basis grp =
     (let expected = expected_days cal freq grp;
          observed = filter (\<lambda>d. weekday d < 5) (map ro_day grp)
      in set observed = set expected \<and> expected \<noteq> [] \<and>
         \<not> list_ex (\<lambda>r. 5 \<le> weekday (ro_day r) \<and> fst (selected_return c r basis) \<noteq> Some 0) grp)"

definition period_of ::
  "ctx \<Rightarrow> ctx \<Rightarrow> calendar \<Rightarrow> frequency \<Rightarrow> fee_basis \<Rightarrow> return_observation list \<Rightarrow> return_period" where
  "period_of c c40 cal freq basis grp =
     (let chosen = map (\<lambda>r. selected_return c r basis) grp;
          reasons = distinct_reasons (map snd chosen)
      in \<lparr>rp_start = ro_day (hd grp), rp_end = ro_day (last grp),
          rp_value = linked c40 (map fst chosen),
          rp_benchmark = linked c40 (map ro_benchmark_return grp),
          rp_observations = length grp,
          rp_missing = length (filter (\<lambda>v. fst v = None) chosen),
          rp_reason = (if reasons = [] then None else Some (joined ''; '' reasons)),
          rp_statistical_ready = complete_group c cal freq basis grp\<rparr>)"

definition periods ::
  "ctx \<Rightarrow> ctx \<Rightarrow> calendar \<Rightarrow> return_observation list \<Rightarrow> frequency \<Rightarrow> fee_basis \<Rightarrow>
   return_period list result" where
  "periods c c40 cal observations freq basis =
     bindE (select_observations observations None None) (\<lambda>selected.
     Inr (if selected = [] then []
          else
            let groups = (if freq = DAILY then map (\<lambda>r. [r]) selected
                          else filter (\<lambda>g. g \<noteq> []) (cal_groups cal freq selected))
            in map (period_of c c40 cal freq basis) groups))"

section \<open>The index series\<close>

record series_row =
  sr_period :: return_period
  sr_state :: string
  sr_return_index :: "rat option"
  sr_benchmark_index :: "rat option"

definition grow :: "ctx \<Rightarrow> rat option \<Rightarrow> rat option \<Rightarrow> rat option" where
  "grow c index v =
     (case (index, v) of (Some i, Some x) \<Rightarrow> Some (dmul c i (dadd c 1 x)) | _ \<Rightarrow> None)"

fun series_rows ::
  "ctx \<Rightarrow> rat option \<Rightarrow> rat option \<Rightarrow> return_period list \<Rightarrow> series_row list" where
  "series_rows c index benchmark [] = []"
| "series_rows c index benchmark (r # rs) =
     (let index = grow c index (rp_value r); benchmark = grow c benchmark (rp_benchmark r)
      in \<lparr>sr_period = r,
          sr_state = (if rp_value r \<noteq> None
                      then if rp_statistical_ready r then ''AVAILABLE'' else ''PARTIAL_PERIOD''
                      else ''INCOMPLETE''),
          sr_return_index = index, sr_benchmark_index = benchmark\<rparr> #
         series_rows c index benchmark rs)"

definition series_payload :: "ctx \<Rightarrow> return_period list \<Rightarrow> series_row list" where
  "series_payload c rows = series_rows c (Some 1) (Some 1) rows"

text \<open>\<open>inclusive="right"\<close> leaves out the first day of the range.\<close>

definition regular_daily_dates :: "calendar \<Rightarrow> return_observation list \<Rightarrow> bool" where
  "regular_daily_dates cal rows =
     list_all (\<lambda>(p, q). length (filter (\<lambda>d. d \<noteq> ro_day p) (cal_business cal (ro_day p) (ro_day q))) \<le> 1)
       (zip rows (tl rows))"

section \<open>Lemmas\<close>

lemma growth_snoc [simp]: "growth c (vs @ [v]) = dmul c (growth c vs) (dadd c 1 v)"
  by (simp add: growth_def)

lemma growth_exact: "growth exact vs = prod_list (map (\<lambda>v. 1 + v) vs)"
proof -
  have "foldl (\<lambda>i v. dmul exact i (dadd exact 1 v)) a vs = a * prod_list (map (\<lambda>v. 1 + v) vs)" for a
    by (induction vs arbitrary: a) auto
  then show ?thesis by (simp add: growth_def)
qed

lemma unlinkable:
  "(case v of None \<Rightarrow> True | Some x \<Rightarrow> x < - 1) \<longleftrightarrow> \<not> (\<exists>y. v = Some y \<and> - 1 \<le> (y :: rat))"
  by (cases v) (auto simp: not_le)

lemma linked_Some:
  "linked c values = Some x \<longleftrightarrow>
     values \<noteq> [] \<and> (\<forall>v \<in> set values. \<exists>y. v = Some y \<and> - 1 \<le> y) \<and>
     x = dsub c (growth c (map the values)) 1"
  by (auto simp: linked_def list_ex_iff unlinkable)

lemma series_length [simp]: "length (series_rows c i b rs) = length rs"
  by (induction rs arbitrary: i b) (auto simp: Let_def)

lemma foldl_grow_None: "foldl (grow c) None vs = None"
  by (induction vs) (auto simp: grow_def)

lemma series_index:
  "k < length rs \<Longrightarrow>
   sr_return_index (series_rows c i b rs ! k) = foldl (grow c) i (map rp_value (take (Suc k) rs)) \<and>
   sr_benchmark_index (series_rows c i b rs ! k) = foldl (grow c) b (map rp_benchmark (take (Suc k) rs)) \<and>
   sr_period (series_rows c i b rs ! k) = rs ! k"
proof (induction rs arbitrary: k i b)
  case (Cons r rs)
  then show ?case by (cases k) (auto simp: Let_def)
qed simp

lemma foldl_grow:
  "foldl (grow c) (Some i) vs =
     (if None \<in> set vs then None else Some (foldl (\<lambda>i v. dmul c i (dadd c 1 v)) i (map the vs)))"
proof (induction vs arbitrary: i)
  case (Cons v vs)
  have "grow c (Some i) v = map_option (\<lambda>x. dmul c i (dadd c 1 x)) v"
    by (cases v) (auto simp: grow_def)
  then show ?case using Cons by (cases v) (auto simp: foldl_grow_None)
qed simp

context decimal_ctx
begin

lemma growth_nonneg: "(\<forall>v \<in> set vs. - 1 \<le> v) \<Longrightarrow> 0 \<le> growth c vs"
  by (induction vs rule: rev_induct)
    (auto simp: growth_def dadd_def intro!: mul_nonneg nonneg)

end

section \<open>Properties\<close>

text \<open>A linked return exists exactly when there are observations, none is missing and none is
  below minus one hundred per cent; it is never below minus one hundred per cent, in the
  40-digit context the code links in.\<close>

theorem linked_defined:
  "(linked (prec 40) values \<noteq> None \<longleftrightarrow>
      values \<noteq> [] \<and> (\<forall>v \<in> set values. \<exists>y. v = Some y \<and> - 1 \<le> y)) \<and>
   (\<forall>x. linked (prec 40) values = Some x \<longrightarrow> - 1 \<le> x)"
proof -
  have "- 1 \<le> dsub (prec 40) g 1" if "0 \<le> g" for g
    using d40.mono [of "- 1" "g - 1"] d40.odd [of 1] d40.one that by (simp add: dsub_def)
  moreover have "0 \<le> growth (prec 40) (map the values)"
    if "\<forall>v \<in> set values. \<exists>y. v = Some y \<and> - 1 \<le> y"
    using that by (intro d40.growth_nonneg) auto
  moreover have "linked (prec 40) values \<noteq> None \<longleftrightarrow> (\<exists>x. linked (prec 40) values = Some x)" by auto
  ultimately show ?thesis by (auto simp: linked_Some)
qed

text \<open>A gain and a total loss.\<close>

theorem linked_defined_witness: "- 1 \<le> the (linked (prec 40) [Some 1, Some (- 1)])"
proof -
  obtain x where x: "linked (prec 40) [Some 1, Some (- 1)] = Some x"
    using linked_defined [of "[Some 1, Some (- 1)]"] by auto
  then have "- 1 \<le> x" using linked_defined [of "[Some 1, Some (- 1)]"] by blast
  with x show ?thesis by simp
qed

text \<open>Linking is time-consistent. In ideal arithmetic the linked return of two adjoining
  ranges is the product of their growth factors less one, so a period return does not depend on
  how its days are grouped.\<close>

theorem linked_append:
  assumes "linked exact xs = Some a" "linked exact ys = Some b"
  shows "linked exact (xs @ ys) = Some ((1 + a) * (1 + b) - 1)"
  using assms by (auto simp: linked_Some growth_exact)

text \<open>Two gains of ten and fifty per cent.\<close>

theorem linked_append_witness: "linked exact ([Some (1 / 10)] @ [Some (1 / 2)]) = Some (13 / 20)"
proof -
  have "linked exact [Some (1 / 10)] = Some (1 / 10)" "linked exact [Some (1 / 2)] = Some (1 / 2)"
    by code_simp+
  from linked_append [OF this] show ?thesis by simp
qed

text \<open>The published index series agrees with the linked return. For every prefix of the
  periods, in the 40-digit context, the return index is unavailable exactly when some period so
  far has no return, and otherwise the linked return of those periods (when each is at least
  minus one hundred per cent) is the index less one.\<close>

theorem series_matches_linked:
  assumes "k < length rows"
    and "\<forall>r \<in> set (take (Suc k) rows). \<forall>v. rp_value r = Some v \<longrightarrow> - 1 \<le> v"
  shows "linked (prec 40) (map rp_value (take (Suc k) rows)) =
      map_option (\<lambda>i. dsub (prec 40) i 1) (sr_return_index (series_payload (prec 40) rows ! k)) \<and>
    (sr_return_index (series_payload (prec 40) rows ! k) = None \<longleftrightarrow>
      (\<exists>r \<in> set (take (Suc k) rows). rp_value r = None))"
proof -
  let ?vs = "map rp_value (take (Suc k) rows)"
  have i: "sr_return_index (series_payload (prec 40) rows ! k) =
      (if None \<in> set ?vs then None else Some (growth (prec 40) (map the ?vs)))"
    using series_index [OF assms(1)] by (simp add: series_payload_def foldl_grow growth_def del: map_map)
  have ne: "?vs \<noteq> []" using assms(1) by (cases rows) auto
  have "linked (prec 40) ?vs =
      (if None \<in> set ?vs then None else Some (dsub (prec 40) (growth (prec 40) (map the ?vs)) 1))"
  proof (cases "None \<in> set ?vs")
    case True
    have "linked (prec 40) ?vs = None"
    proof (cases "linked (prec 40) ?vs")
      case (Some x)
      then have "\<forall>v \<in> set ?vs. \<exists>y. v = Some y \<and> - 1 \<le> y" unfolding linked_Some by blast
      then show ?thesis using True by blast
    qed simp
    then show ?thesis using True by simp
  next
    case False
    have "\<exists>y. v = Some y \<and> - 1 \<le> y" if "v \<in> set ?vs" for v
    proof -
      from that have "v \<in> rp_value ` set (take (Suc k) rows)" by (simp only: set_map)
      then obtain r where r: "v = rp_value r" "r \<in> set (take (Suc k) rows)" ..
      from that False have "v \<noteq> None" by metis
      then obtain y where y: "v = Some y" by blast
      with r have "- 1 \<le> y" using assms(2) by (metis r(2))
      with y show ?thesis by blast
    qed
    then have "\<forall>v \<in> set ?vs. \<exists>y. v = Some y \<and> - 1 \<le> y" by blast
    then show ?thesis using False ne linked_Some [of "prec 40" ?vs] by simp
  qed
  moreover have "None \<in> set ?vs \<longleftrightarrow> (\<exists>r \<in> set (take (Suc k) rows). rp_value r = None)"
    unfolding set_map image_iff by metis
  ultimately show ?thesis unfolding i by (cases "None \<in> set ?vs")
      (simp_all only: if_True if_False option.map option.distinct simp_thms)
qed

text \<open>Two complete periods.\<close>

theorem series_matches_linked_witness:
  "let row = (\<lambda>v. \<lparr>rp_start = 1, rp_end = 2, rp_value = Some v, rp_benchmark = None,
        rp_observations = 1, rp_missing = 0, rp_reason = None, rp_statistical_ready = True\<rparr>)
   in sr_return_index (series_payload (prec 40) [row 1, row 2] ! 1) \<noteq> None"
  unfolding Let_def
  by (subst series_matches_linked [THEN conjunct2]) (auto simp: nth_Cons')

end
