(* ===== verification/Drawdowns.thy ===== *)
theory Drawdowns
  imports Performance
begin

text \<open>
  \<open>performance_domain/drawdowns.py\<close>: the running index and peak of a complete return history, the
  drawdown at every period end, and the episodes from a peak through a trough to the recovery.
  The loop mutates the active episode in place and appends it when the index is back at the
  peak; the model keeps it as a value in the loop state. Dates are ordinals, so the day counts
  are differences.
\<close>

section \<open>Episodes\<close>

datatype episode_state = ONGOING | RECOVERED

record episode =
  ep_peak_date :: date
  ep_trough_date :: date
  ep_recovery_date :: "date option"
  ep_depth :: rat
  ep_decline_days :: int
  ep_recovery_days :: "int option"
  ep_underwater_days :: int
  ep_state :: episode_state

text \<open>The four assignments when the index is back at the peak.\<close>

definition recovered :: "return_period \<Rightarrow> episode \<Rightarrow> episode" where
  "recovered r e =
     e\<lparr>ep_recovery_date := Some (rp_end r), ep_recovery_days := Some (rp_end r - ep_trough_date e),
       ep_underwater_days := rp_end r - ep_peak_date e, ep_state := RECOVERED\<rparr>"

definition opened_episode :: "date \<Rightarrow> return_period \<Rightarrow> rat \<Rightarrow> episode" where
  "opened_episode peak_day r depth =
     \<lparr>ep_peak_date = peak_day, ep_trough_date = rp_end r, ep_recovery_date = None, ep_depth = depth,
      ep_decline_days = rp_end r - peak_day, ep_recovery_days = None,
      ep_underwater_days = rp_end r - peak_day, ep_state = ONGOING\<rparr>"

text \<open>A period under water: a new episode, or a possibly deeper trough of the active one.\<close>

definition deepened :: "date \<Rightarrow> return_period \<Rightarrow> rat \<Rightarrow> episode option \<Rightarrow> episode" where
  "deepened peak_day r depth active =
     (let e = (case active of None \<Rightarrow> opened_episode peak_day r depth | Some e \<Rightarrow> e);
          e = (if depth < ep_depth e
               then e\<lparr>ep_depth := depth, ep_trough_date := rp_end r,
                      ep_decline_days := rp_end r - ep_peak_date e\<rparr>
               else e)
      in e\<lparr>ep_underwater_days := rp_end r - ep_peak_date e\<rparr>)"

section \<open>The loop\<close>

record drawdown_point =
  dp_date :: date
  dp_return_index :: rat
  dp_peak_index :: rat
  dp_drawdown :: rat
  dp_underwater_days :: int

record drawdown_state =
  ds_index :: rat
  ds_peak :: rat
  ds_peak_day :: date
  ds_active :: "episode option"
  ds_episodes :: "episode list"
  ds_series :: "drawdown_point list"

definition drawdown_start :: "date \<Rightarrow> drawdown_state" where
  "drawdown_start day =
     \<lparr>ds_index = 1, ds_peak = 1, ds_peak_day = day, ds_active = None, ds_episodes = [], ds_series = []\<rparr>"

definition drawdown_depth :: "ctx \<Rightarrow> rat \<Rightarrow> rat \<Rightarrow> rat" where
  "drawdown_depth c index peak = (if peak \<noteq> 0 then dsub c (ddiv c index peak) 1 else 0)"

text \<open>Back at the peak: the active episode is closed and the peak moves.\<close>

definition return_to_peak :: "return_period \<Rightarrow> drawdown_state \<Rightarrow> drawdown_state" where
  "return_to_peak r s =
     (if ds_peak s \<le> ds_index s
      then s\<lparr>ds_episodes := ds_episodes s @
               (case ds_active s of Some e \<Rightarrow> [recovered r e] | None \<Rightarrow> []),
             ds_active := None, ds_peak := ds_index s, ds_peak_day := rp_end r\<rparr>
      else s)"

text \<open>Below the peak the active episode is opened or deepened; the point is recorded either way.\<close>

definition record_point :: "return_period \<Rightarrow> rat \<Rightarrow> drawdown_state \<Rightarrow> drawdown_state" where
  "record_point r depth s =
     (let active = (if depth < 0 then Some (deepened (ds_peak_day s) r depth (ds_active s))
                    else ds_active s)
      in s\<lparr>ds_active := active,
           ds_series := ds_series s @
             [\<lparr>dp_date = rp_end r, dp_return_index = ds_index s, dp_peak_index = ds_peak s,
               dp_drawdown = depth,
               dp_underwater_days = (case active of Some e \<Rightarrow> ep_underwater_days e | None \<Rightarrow> 0)\<rparr>]\<rparr>)"

definition drawdown_step :: "ctx \<Rightarrow> drawdown_state \<Rightarrow> return_period \<times> rat \<Rightarrow> drawdown_state" where
  "drawdown_step c s rv =
     (let r = fst rv;
          s = return_to_peak r (s\<lparr>ds_index := dmul c (ds_index s) (dadd c 1 (snd rv))\<rparr>)
      in record_point r (drawdown_depth c (ds_index s) (ds_peak s)) s)"

record drawdown_report =
  dr_state :: string
  dr_reason :: "string option"
  dr_series :: "drawdown_point list"
  dr_episodes :: "episode list"
  dr_maximum :: "rat option"
  dr_current :: "rat option"
  dr_longest :: "int option"

definition insufficient_history :: drawdown_report where
  "insufficient_history =
     \<lparr>dr_state = ''INSUFFICIENT_DATA'', dr_reason = Some ''Complete return history is required'',
      dr_series = [], dr_episodes = [], dr_maximum = None, dr_current = None, dr_longest = None\<rparr>"

text \<open>The rows with their values, if none is missing.\<close>

definition valued_rows :: "return_period list \<Rightarrow> (return_period \<times> rat) list option" where
  "valued_rows rows = those (map (\<lambda>r. map_option (Pair r) (rp_value r)) rows)"

definition drawdowns :: "ctx \<Rightarrow> return_period list \<Rightarrow> drawdown_report" where
  "drawdowns c rows =
     (case (rows, valued_rows rows) of
        (first # _, Some rvs) \<Rightarrow>
          let s = foldl (drawdown_step c) (drawdown_start (rp_start first)) rvs;
              episodes = ds_episodes s @ (case ds_active s of Some e \<Rightarrow> [e] | None \<Rightarrow> [])
          in \<lparr>dr_state = ''AVAILABLE'', dr_reason = None, dr_series = ds_series s,
              dr_episodes = episodes,
              dr_maximum = Some (Min (set (map dp_drawdown (ds_series s)))),
              dr_current = Some (dp_drawdown (last (ds_series s))),
              dr_longest = Some (if episodes = [] then 0
                                 else Max (set (map ep_underwater_days episodes)))\<rparr>
      | _ \<Rightarrow> insufficient_history)"

section \<open>Lemmas\<close>

lemma valued_rows_Some:
  "valued_rows rows = Some rvs \<longleftrightarrow> rows = map fst rvs \<and> map rp_value rows = map (Some \<circ> snd) rvs"
  unfolding valued_rows_def
  by (induction rows arbitrary: rvs) (auto simp: Cons_eq_map_conv split: option.splits)

lemma drawdowns_Cons:
  assumes "valued_rows rows = Some rvs" "rows \<noteq> []"
  shows "drawdowns c rows =
     (let s = foldl (drawdown_step c) (drawdown_start (rp_start (hd rows))) rvs;
          episodes = ds_episodes s @ (case ds_active s of Some e \<Rightarrow> [e] | None \<Rightarrow> [])
      in \<lparr>dr_state = ''AVAILABLE'', dr_reason = None, dr_series = ds_series s,
          dr_episodes = episodes,
          dr_maximum = Some (Min (set (map dp_drawdown (ds_series s)))),
          dr_current = Some (dp_drawdown (last (ds_series s))),
          dr_longest = Some (if episodes = [] then 0
                             else Max (set (map ep_underwater_days episodes)))\<rparr>)"
  using assms by (cases rows) (simp_all add: drawdowns_def)

text \<open>The reference: the index is the growth of the values so far and the peak its running
  maximum, starting from one.\<close>

fun peak_of :: "ctx \<Rightarrow> rat list \<Rightarrow> rat" where
  "peak_of c vs = Max (insert 1 ((\<lambda>k. growth c (take (Suc k) vs)) ` {..<length vs}))"

lemma peak_of_snoc: "peak_of c (vs @ [v]) = max (peak_of c vs) (growth c (vs @ [v]))"
proof -
  have "(\<lambda>k. growth c (take (Suc k) (vs @ [v]))) ` {..<length (vs @ [v])} =
      insert (growth c (vs @ [v])) ((\<lambda>k. growth c (take (Suc k) vs)) ` {..<length vs})"
    by (auto simp: lessThan_Suc image_iff)
  then have "peak_of c (vs @ [v]) =
      Max (insert (growth c (vs @ [v])) (insert 1 ((\<lambda>k. growth c (take (Suc k) vs)) ` {..<length vs})))"
    unfolding peak_of.simps by (simp only: insert_commute [of 1])
  also have "\<dots> = max (growth c (vs @ [v])) (peak_of c vs)"
    unfolding peak_of.simps by (rule Max_insert) auto
  finally show ?thesis by (simp only: max.commute)
qed

declare peak_of.simps [simp del]

lemma peak_of_Nil [simp]: "peak_of c [] = 1"
  by (simp add: peak_of.simps)

lemma drawdown_run:
  "let s = foldl (drawdown_step c) (drawdown_start d) rvs in
     ds_index s = growth c (map snd rvs) \<and> ds_peak s = peak_of c (map snd rvs) \<and>
     length (ds_series s) = length rvs"
  by (induction rvs rule: rev_induct)
    (auto simp: drawdown_start_def drawdown_step_def return_to_peak_def record_point_def Let_def
      peak_of_snoc growth_def max_def)

lemma step_series:
  "ds_series (drawdown_step c s rv) = ds_series s @ [last (ds_series (drawdown_step c s rv))]"
  by (simp add: drawdown_step_def record_point_def return_to_peak_def Let_def)

lemma drawdown_run_series:
  "k < length rvs \<Longrightarrow>
   ds_series (foldl (drawdown_step c) (drawdown_start d) rvs) ! k =
   last (ds_series (foldl (drawdown_step c) (drawdown_start d) (take (Suc k) rvs)))"
proof (induction rvs rule: rev_induct)
  case (snoc rv rvs)
  have n: "length (ds_series (foldl (drawdown_step c) (drawdown_start d) rvs)) = length rvs"
    using drawdown_run [of c d rvs] by (simp add: Let_def)
  show ?case
  proof (cases "k < length rvs")
    case True
    with snoc n show ?thesis by (simp, subst step_series) (simp add: nth_append)
  next
    case False
    with snoc.prems have "k = length rvs" by simp
    with n show ?thesis by (simp, subst step_series) (simp add: nth_append)
  qed
qed simp

lemma step_point:
  "last (ds_series (drawdown_step c s rv)) =
     \<lparr>dp_date = rp_end (fst rv), dp_return_index = ds_index (drawdown_step c s rv),
      dp_peak_index = ds_peak (drawdown_step c s rv),
      dp_drawdown = drawdown_depth c (ds_index (drawdown_step c s rv)) (ds_peak (drawdown_step c s rv)),
      dp_underwater_days = (case ds_active (drawdown_step c s rv) of
         Some e \<Rightarrow> ep_underwater_days e | None \<Rightarrow> 0)\<rparr>"
  by (simp add: drawdown_step_def record_point_def Let_def)

lemma peak_of_ge: "1 \<le> peak_of c vs" "vs \<noteq> [] \<Longrightarrow> growth c vs \<le> peak_of c vs"
proof -
  show "1 \<le> peak_of c vs" by (induction vs rule: rev_induct) (auto simp: peak_of_snoc le_max_iff_disj)
  show "vs \<noteq> [] \<Longrightarrow> growth c vs \<le> peak_of c vs"
    by (cases vs rule: rev_cases) (auto simp: peak_of_snoc simp del: growth_snoc)
qed

context decimal_ctx
begin

lemma depth_nonpos: "index \<le> peak \<Longrightarrow> 1 \<le> peak \<Longrightarrow> drawdown_depth c index peak \<le> 0"
  using mono [of "index / peak" 1] one by (simp add: drawdown_depth_def dec_defs nonpos)

lemma depth_ge: "0 \<le> index \<Longrightarrow> 1 \<le> peak \<Longrightarrow> - 1 \<le> drawdown_depth c index peak"
  using mono [of "- 1" "c (index / peak) - 1"] odd [of 1] one nonneg [of "index / peak"]
  by (simp add: drawdown_depth_def dec_defs)

lemma depth_at_peak: "peak \<noteq> 0 \<Longrightarrow> drawdown_depth c peak peak = 0"
  by (simp add: drawdown_depth_def dec_defs one)

end

text \<open>
  The invariant of the loop after a period ending on day \<open>d\<close>: closed episodes have recovered,
  one after the other and before the current peak; the active one started at the current peak;
  and the drawdowns of the series have the same lower bounds as the depths of the episodes.
\<close>

definition episode_ok :: "episode \<Rightarrow> bool" where
  "episode_ok e \<longleftrightarrow> ep_depth e < 0 \<and> ep_peak_date e \<le> ep_trough_date e \<and>
     ep_decline_days e = ep_trough_date e - ep_peak_date e"

definition closed_ok :: "episode \<Rightarrow> bool" where
  "closed_ok e \<longleftrightarrow> episode_ok e \<and> ep_state e = RECOVERED \<and>
     (\<exists>d. ep_recovery_date e = Some d \<and> ep_trough_date e \<le> d \<and>
        ep_recovery_days e = Some (d - ep_trough_date e) \<and>
        ep_underwater_days e = d - ep_peak_date e)"

definition apart :: "episode list \<Rightarrow> bool" where
  "apart = sorted_wrt (\<lambda>a b. the (ep_recovery_date a) \<le> ep_peak_date b)"

definition all_episodes :: "drawdown_state \<Rightarrow> episode list" where
  "all_episodes s = ds_episodes s @ (case ds_active s of Some e \<Rightarrow> [e] | None \<Rightarrow> [])"

definition drawdown_inv :: "date \<Rightarrow> drawdown_state \<Rightarrow> bool" where
  "drawdown_inv d s \<longleftrightarrow>
     1 \<le> ds_peak s \<and> ds_peak_day s \<le> d \<and>
     (\<forall>e \<in> set (ds_episodes s). closed_ok e \<and> the (ep_recovery_date e) \<le> ds_peak_day s) \<and>
     (\<forall>e. ds_active s = Some e \<longrightarrow> episode_ok e \<and> ep_state e = ONGOING \<and>
        ep_recovery_date e = None \<and> ep_peak_date e = ds_peak_day s \<and> ep_trough_date e \<le> d) \<and>
     apart (ds_episodes s) \<and>
     (\<forall>p \<in> set (ds_series s). dp_drawdown p \<le> 0) \<and>
     (\<forall>x. x \<le> 0 \<longrightarrow> ((\<forall>p \<in> set (ds_series s). x \<le> dp_drawdown p) \<longleftrightarrow>
        (\<forall>e \<in> set (all_episodes s). x \<le> ep_depth e)))"

lemma recovered_closed:
  "episode_ok e \<Longrightarrow> ep_trough_date e \<le> rp_end r \<Longrightarrow> closed_ok (recovered r e)"
  by (auto simp: closed_ok_def episode_ok_def recovered_def)

lemma deepened_None:
  "deepened peak_day r depth None = opened_episode peak_day r depth"
  by (simp add: deepened_def opened_episode_def)

lemma deepened_Some:
  "deepened peak_day r depth (Some e) =
     (if depth < ep_depth e
      then e\<lparr>ep_depth := depth, ep_trough_date := rp_end r,
             ep_decline_days := rp_end r - ep_peak_date e,
             ep_underwater_days := rp_end r - ep_peak_date e\<rparr>
      else e\<lparr>ep_underwater_days := rp_end r - ep_peak_date e\<rparr>)"
  by (simp add: deepened_def)

lemma deepened_ok:
  assumes "depth < 0" "peak_day \<le> rp_end r"
    and "\<And>e. active = Some e \<Longrightarrow> episode_ok e \<and> ep_state e = ONGOING \<and> ep_recovery_date e = None \<and>
      ep_peak_date e = peak_day \<and> ep_trough_date e \<le> rp_end r"
  shows "episode_ok (deepened peak_day r depth active) \<and>
    ep_state (deepened peak_day r depth active) = ONGOING \<and>
    ep_recovery_date (deepened peak_day r depth active) = None \<and>
    ep_peak_date (deepened peak_day r depth active) = peak_day \<and>
    ep_trough_date (deepened peak_day r depth active) \<le> rp_end r"
proof (cases active)
  case None
  with assms(1,2) show ?thesis by (simp add: deepened_None opened_episode_def episode_ok_def)
next
  case (Some e)
  from assms(3) [OF Some] assms(1,2) show ?thesis
    unfolding Some deepened_Some by (cases "depth < ep_depth e") (auto simp: episode_ok_def)
qed

lemma deepened_depth:
  "ep_depth (deepened peak_day r depth active) =
     (case active of None \<Rightarrow> depth | Some e \<Rightarrow> min depth (ep_depth e))"
  by (cases active) (simp_all add: deepened_None deepened_Some opened_episode_def min_def)

lemma recovered_simps [simp]:
  "ep_recovery_date (recovered r e) = Some (rp_end r)" "ep_depth (recovered r e) = ep_depth e"
  "ep_peak_date (recovered r e) = ep_peak_date e"
  by (simp_all add: recovered_def)

lemma drawdown_invD:
  assumes "drawdown_inv d s"
  shows "1 \<le> ds_peak s" "ds_peak_day s \<le> d"
    "\<And>e. e \<in> set (ds_episodes s) \<Longrightarrow> closed_ok e"
    "\<And>e. e \<in> set (ds_episodes s) \<Longrightarrow> the (ep_recovery_date e) \<le> ds_peak_day s"
    "\<And>e. ds_active s = Some e \<Longrightarrow> episode_ok e \<and> ep_state e = ONGOING \<and>
        ep_recovery_date e = None \<and> ep_peak_date e = ds_peak_day s \<and> ep_trough_date e \<le> d"
    "apart (ds_episodes s)" "\<And>p. p \<in> set (ds_series s) \<Longrightarrow> dp_drawdown p \<le> 0"
    "\<And>x. x \<le> 0 \<Longrightarrow> (\<forall>p \<in> set (ds_series s). x \<le> dp_drawdown p) \<longleftrightarrow>
        (\<forall>e \<in> set (all_episodes s). x \<le> ep_depth e)"
  using assms unfolding drawdown_inv_def by blast+

lemma apart_snoc:
  "apart (es @ [e]) \<longleftrightarrow> apart es \<and> (\<forall>x \<in> set es. the (ep_recovery_date x) \<le> ep_peak_date e)"
  by (auto simp: apart_def sorted_wrt_append)

lemma all_episodes_return: "ep_depth ` set (all_episodes (return_to_peak r s)) = ep_depth ` set (all_episodes s)"
  by (cases "ds_active s") (auto simp: return_to_peak_def all_episodes_def)

lemma return_to_peak_simps [simp]:
  "ds_index (return_to_peak r s) = ds_index s" "ds_series (return_to_peak r s) = ds_series s"
  by (auto simp: return_to_peak_def)

lemma inv_return_to_peak:
  assumes inv: "drawdown_inv d s" and d: "d \<le> rp_end r"
  shows "drawdown_inv (rp_end r) (return_to_peak r s)"
proof (cases "ds_peak s \<le> ds_index s")
  case False
  then have "return_to_peak r s = s" by (simp add: return_to_peak_def)
  with inv d show ?thesis unfolding drawdown_inv_def by fastforce
next
  case True
  note D = drawdown_invD [OF inv]
  let ?new = "case ds_active s of Some e \<Rightarrow> [recovered r e] | None \<Rightarrow> []"
  have s': "ds_peak (return_to_peak r s) = ds_index s" "ds_peak_day (return_to_peak r s) = rp_end r"
    "ds_active (return_to_peak r s) = None"
    "ds_episodes (return_to_peak r s) = ds_episodes s @ ?new"
    using True by (simp_all add: return_to_peak_def)
  have closed: "closed_ok e \<and> the (ep_recovery_date e) \<le> rp_end r" if "e \<in> set (ds_episodes s @ ?new)" for e
  proof (cases "e \<in> set (ds_episodes s)")
    case True
    with D(2) D(3) D(4) [OF True] d show ?thesis by simp
  next
    case False
    with that obtain e' where "ds_active s = Some e'" "e = recovered r e'"
      by (cases "ds_active s") auto
    with D(5) [of e'] d show ?thesis by (auto intro!: recovered_closed)
  qed
  have "apart (ds_episodes s @ ?new)"
    using D(4,5,6) by (auto simp: apart_snoc split: option.splits)
  moreover have "(\<forall>e \<in> set (all_episodes (return_to_peak r s)). x \<le> ep_depth e) \<longleftrightarrow>
      (\<forall>e \<in> set (all_episodes s). x \<le> ep_depth e)" for x
    using all_episodes_return [of r s] by (metis (no_types, lifting) imageE image_eqI)
  ultimately show ?thesis
    unfolding drawdown_inv_def using closed D(1,7,8) True by (simp add: s')
qed

lemma record_point_simps [simp]:
  "ds_index (record_point r depth s) = ds_index s" "ds_peak (record_point r depth s) = ds_peak s"
  "ds_peak_day (record_point r depth s) = ds_peak_day s"
  "ds_episodes (record_point r depth s) = ds_episodes s"
  "ds_active (record_point r depth s) =
     (if depth < 0 then Some (deepened (ds_peak_day s) r depth (ds_active s)) else ds_active s)"
  "dp_drawdown ` set (ds_series (record_point r depth s)) = insert depth (dp_drawdown ` set (ds_series s))"
  by (simp_all add: record_point_def Let_def)

lemma inv_record_point:
  assumes inv: "drawdown_inv (rp_end r) s" and depth: "depth \<le> 0"
  shows "drawdown_inv (rp_end r) (record_point r depth s)"
proof -
  note D = drawdown_invD [OF inv]
  have active: "episode_ok e \<and> ep_state e = ONGOING \<and> ep_recovery_date e = None \<and>
      ep_peak_date e = ds_peak_day s \<and> ep_trough_date e \<le> rp_end r"
    if "ds_active (record_point r depth s) = Some e" for e
    using that D(5) deepened_ok [of depth "ds_peak_day s" r "ds_active s"] D(2)
    by (cases "depth < 0") auto
  have series: "(\<forall>p \<in> set (ds_series (record_point r depth s)). P (dp_drawdown p)) \<longleftrightarrow>
      P depth \<and> (\<forall>p \<in> set (ds_series s). P (dp_drawdown p))" for P
    by (auto simp: record_point_def Let_def)
  have depths: "(\<forall>e \<in> set (all_episodes (record_point r depth s)). x \<le> ep_depth e) \<longleftrightarrow>
      x \<le> depth \<and> (\<forall>e \<in> set (all_episodes s). x \<le> ep_depth e)" if "x \<le> 0" for x
    using that depth D(5) deepened_depth [of "ds_peak_day s" r depth "ds_active s"] D(2)
    by (cases "depth < 0"; cases "ds_active s") (auto simp: all_episodes_def)
  show ?thesis
    unfolding drawdown_inv_def
  proof (intro conjI ballI allI impI)
    fix p assume "p \<in> set (ds_series (record_point r depth s))"
    then show "dp_drawdown p \<le> 0" using series [of "\<lambda>x. x \<le> 0"] depth D(7) by auto
  next
    fix x :: rat assume "x \<le> 0"
    then show "(\<forall>p \<in> set (ds_series (record_point r depth s)). x \<le> dp_drawdown p) \<longleftrightarrow>
        (\<forall>e \<in> set (all_episodes (record_point r depth s)). x \<le> ep_depth e)"
      using series [of "\<lambda>y. x \<le> y"] depths D(8) by simp
  qed (use D active in auto)
qed

context decimal_ctx
begin

lemma drawdown_inv_step:
  assumes "drawdown_inv d s" and d: "d \<le> rp_end (fst rv)"
  shows "drawdown_inv (rp_end (fst rv)) (drawdown_step c s rv)"
proof -
  let ?s = "s\<lparr>ds_index := dmul c (ds_index s) (dadd c 1 (snd rv))\<rparr>"
  have "drawdown_inv d ?s" using assms(1) by (simp add: drawdown_inv_def all_episodes_def)
  note top = inv_return_to_peak [OF this d]
  moreover have "ds_index (return_to_peak (fst rv) ?s) \<le> ds_peak (return_to_peak (fst rv) ?s)"
    by (simp add: return_to_peak_def)
  ultimately show ?thesis
    unfolding drawdown_step_def Let_def
    using drawdown_invD(1) [OF top] by (intro inv_record_point depth_nonpos) simp_all
qed

lemma drawdown_inv_run:
  "sorted (map (rp_end \<circ> fst) rvs) \<Longrightarrow> \<forall>rv \<in> set rvs. d \<le> rp_end (fst rv) \<Longrightarrow>
   drawdown_inv (if rvs = [] then d else rp_end (fst (last rvs)))
     (foldl (drawdown_step c) (drawdown_start d) rvs)"
proof (induction rvs rule: rev_induct)
  case Nil
  show ?case by (simp add: drawdown_inv_def drawdown_start_def all_episodes_def apart_def)
next
  case (snoc rv rvs)
  then have "(if rvs = [] then d else rp_end (fst (last rvs))) \<le> rp_end (fst rv)"
    by (auto simp: sorted_append)
  with snoc show ?case using drawdown_inv_step [of _ _ rv] by (auto simp: sorted_append)
qed

end

section \<open>Properties\<close>

text \<open>The drawdown series is the reference one. For a complete history with no return below
  minus one hundred per cent, in the 40-digit context, the index after \<open>k + 1\<close> periods is the
  compounded growth of their returns, the peak is the running maximum of the index (starting at
  one), and the drawdown lies between minus one hundred per cent and zero.\<close>

theorem drawdown_series_reference:
  assumes rows: "map rp_value rows = map Some vs" and k: "k < length rows"
    and v: "\<forall>v \<in> set vs. - 1 \<le> v"
  shows "let p = dr_series (drawdowns (prec 40) rows) ! k in
    dp_date p = rp_end (rows ! k) \<and>
    dp_return_index p = growth (prec 40) (take (Suc k) vs) \<and>
    dp_peak_index p = peak_of (prec 40) (take (Suc k) vs) \<and>
    dp_drawdown p = drawdown_depth (prec 40) (dp_return_index p) (dp_peak_index p) \<and>
    - 1 \<le> dp_drawdown p \<and> dp_drawdown p \<le> 0"
proof -
  let ?c = "prec 40" and ?rvs = "zip rows vs" and ?d = "rp_start (hd rows)"
  have len: "length vs = length rows" using arg_cong [OF rows, of length] by simp
  have "valued_rows rows = Some ?rvs"
    unfolding valued_rows_Some map_map [symmetric] using rows len by simp
  moreover have "rows \<noteq> []" using k by auto
  ultimately have series: "dr_series (drawdowns ?c rows) =
      ds_series (foldl (drawdown_step ?c) (drawdown_start ?d) ?rvs)"
    by (simp add: drawdowns_Cons Let_def)
  define s where "s = foldl (drawdown_step ?c) (drawdown_start ?d) (take (Suc k) ?rvs)"
  have snoc: "take (Suc k) ?rvs = take k ?rvs @ [(rows ! k, vs ! k)]"
    using k len by (simp add: take_Suc_conv_app_nth)
  have s: "ds_index s = growth ?c (take (Suc k) vs)" "ds_peak s = peak_of ?c (take (Suc k) vs)"
    using drawdown_run [of ?c ?d "take (Suc k) ?rvs"] len
    by (simp_all add: s_def Let_def take_zip del: foldl_Cons foldl_append)
  have p: "dr_series (drawdowns ?c rows) ! k = \<lparr>dp_date = rp_end (rows ! k),
      dp_return_index = ds_index s, dp_peak_index = ds_peak s,
      dp_drawdown = drawdown_depth ?c (ds_index s) (ds_peak s),
      dp_underwater_days = (case ds_active s of Some e \<Rightarrow> ep_underwater_days e | None \<Rightarrow> 0)\<rparr>"
    unfolding series s_def using drawdown_run_series [of k ?rvs ?c ?d] k len
    by (simp add: snoc step_point)
  have "\<forall>v \<in> set (take (Suc k) vs). - 1 \<le> v" using v by (auto dest: in_set_takeD)
  then have "0 \<le> ds_index s" unfolding s by (rule d40.growth_nonneg)
  moreover have "take (Suc k) vs \<noteq> []" using k len by auto
  ultimately show ?thesis
    unfolding p Let_def using s peak_of_ge(1) [of ?c "take (Suc k) vs"] peak_of_ge(2) [of "take (Suc k) vs" ?c]
    by (auto intro!: d40.depth_nonpos d40.depth_ge)
qed

definition sample_period :: "date \<Rightarrow> date \<Rightarrow> rat \<Rightarrow> return_period" where
  "sample_period a b v =
     \<lparr>rp_start = a, rp_end = b, rp_value = Some v, rp_benchmark = None, rp_observations = 1,
      rp_missing = 0, rp_reason = None, rp_statistical_ready = True\<rparr>"

definition sample_history :: "return_period list" where
  "sample_history = [sample_period 1 1 1, sample_period 2 2 (- 1 / 2), sample_period 3 4 1]"

text \<open>The second point of a doubling, a halving and a doubling.\<close>

theorem drawdown_series_reference_witness:
  "dp_drawdown (dr_series (drawdowns (prec 40) sample_history) ! 1) \<le> 0"
proof -
  have "map rp_value sample_history = map Some [1, - 1 / 2, 1]"
    by (simp add: sample_history_def sample_period_def)
  moreover have "1 < length sample_history" by (simp add: sample_history_def)
  moreover have "\<forall>v \<in> set [1, - 1 / 2, 1 :: rat]. - 1 \<le> v" by simp
  ultimately show ?thesis using drawdown_series_reference unfolding Let_def by blast
qed

text \<open>C9: the episodes account for the whole underwater history. For a complete history with period
  ends in order, in the 40-digit context: the maximum drawdown is the depth of the deepest
  episode (zero without episodes); every episode but possibly the last has recovered, with peak,
  trough and recovery in order and the reported day counts between them; and an episode starts
  only after the one before has recovered.\<close>

theorem drawdown_episodes_sound:
  assumes rows: "map rp_value rows = map Some vs" "rows \<noteq> []"
    and order: "sorted (map rp_end rows)" "rp_start (hd rows) \<le> rp_end (hd rows)"
  shows "let r = drawdowns (prec 40) rows; es = dr_episodes r in
    dr_maximum r = Some (Min (insert 0 (ep_depth ` set es))) \<and>
    (\<forall>e \<in> set es. episode_ok e) \<and>
    (\<forall>e \<in> set (butlast es). closed_ok e) \<and>
    (es \<noteq> [] \<longrightarrow> closed_ok (last es) \<or>
       ep_state (last es) = ONGOING \<and> ep_recovery_date (last es) = None) \<and>
    apart es"
proof -
  let ?c = "prec 40" and ?rvs = "zip rows vs" and ?d = "rp_start (hd rows)"
  have len: "length vs = length rows" using arg_cong [OF rows(1), of length] by simp
  have v: "valued_rows rows = Some ?rvs"
    unfolding valued_rows_Some map_map [symmetric] using rows len by simp
  define s where "s = foldl (drawdown_step ?c) (drawdown_start ?d) ?rvs"
  have r: "dr_episodes (drawdowns ?c rows) = all_episodes s"
    "dr_maximum (drawdowns ?c rows) = Some (Min (set (map dp_drawdown (ds_series s))))"
    using drawdowns_Cons [OF v rows(2)] by (simp_all add: s_def all_episodes_def Let_def)
  have ends: "\<forall>rv \<in> set ?rvs. ?d \<le> rp_end (fst rv)"
  proof
    fix rv assume "rv \<in> set ?rvs"
    then have "fst rv \<in> set rows" by (metis prod.collapse set_zip_leftD)
    with order rows(2) show "?d \<le> rp_end (fst rv)" by (cases rows) (auto intro: order_trans)
  qed
  have "map (rp_end \<circ> fst) ?rvs = map rp_end rows" using len by (simp add: map_map [symmetric])
  with order ends obtain d where inv: "drawdown_inv d s"
    unfolding s_def using d40.drawdown_inv_run [of ?rvs ?d] by auto
  note D = drawdown_invD [OF inv]
  have ne: "ds_series s \<noteq> []"
    using drawdown_run [of ?c ?d ?rvs] rows(2) len unfolding s_def Let_def by (cases rows) auto
  have "Min (set (map dp_drawdown (ds_series s))) = Min (insert 0 (ep_depth ` set (all_episodes s)))"
  proof (rule antisym)
    have "Min (set (map dp_drawdown (ds_series s))) \<le> dp_drawdown (hd (ds_series s))"
      using ne by (intro Min_le) auto
    also have "\<dots> \<le> 0" using ne by (intro D(7)) simp
    finally have "Min (set (map dp_drawdown (ds_series s))) \<le> 0" .
    then show "Min (set (map dp_drawdown (ds_series s))) \<le> Min (insert 0 (ep_depth ` set (all_episodes s)))"
      using D(8) [of "Min (set (map dp_drawdown (ds_series s)))"] by auto
    show "Min (insert 0 (ep_depth ` set (all_episodes s))) \<le> Min (set (map dp_drawdown (ds_series s)))"
      using D(8) [of "Min (insert 0 (ep_depth ` set (all_episodes s)))"] ne by auto
  qed
  moreover have "\<forall>e \<in> set (all_episodes s). episode_ok e" "apart (all_episodes s)"
    "\<forall>e \<in> set (butlast (all_episodes s)). closed_ok e"
    "all_episodes s \<noteq> [] \<longrightarrow> closed_ok (last (all_episodes s)) \<or>
       ep_state (last (all_episodes s)) = ONGOING \<and> ep_recovery_date (last (all_episodes s)) = None"
    using D(3,4,5,6)
    by (auto simp: all_episodes_def apart_snoc closed_ok_def dest: in_set_butlastD split: option.splits)
  ultimately show ?thesis unfolding Let_def r by simp
qed

text \<open>A doubling, a halving and a doubling: one recovered episode.\<close>

theorem drawdown_episodes_sound_witness:
  "apart (dr_episodes (drawdowns (prec 40) sample_history))"
proof -
  have "map rp_value sample_history = map Some [1, - 1 / 2, 1]"
    by (simp add: sample_history_def sample_period_def)
  from drawdown_episodes_sound [OF this] show ?thesis
    by (simp add: sample_history_def sample_period_def Let_def)
qed

end
