(* ===== verification/Money_Weighted.thy ===== *)
theory Money_Weighted
  imports Performance
begin

text \<open>
  \<open>performance_domain/money_weighted.py\<close> with \<open>MetricResult\<close> of \<open>contracts.py\<close> and \<open>measured\<close> of
  \<open>metrics.py\<close>: the dated investor cash flows, in the default 28-digit context, and the reasons
  why no money-weighted return is reported. Floating point is a type parameter \<open>'f\<close>; the record
  \<open>irr_solver\<close> collects what pyxirr and the floating-point library provide.
\<close>

section \<open>Metric results\<close>

datatype 'f metric_number = Exactly rat | Approximately 'f

record 'f metric_result =
  mt_value :: "'f metric_number option"
  mt_state :: string
  mt_observations :: nat
  mt_reason :: "string option"
  mt_unit :: string

definition unavailable :: "nat \<Rightarrow> string \<Rightarrow> string \<Rightarrow> 'f metric_result" where
  "unavailable n reason unit =
     \<lparr>mt_value = None, mt_state = ''INSUFFICIENT_DATA'', mt_observations = n,
      mt_reason = Some reason, mt_unit = unit\<rparr>"

text \<open>What the solver library provides: conversion to floating point, finiteness and sign, the
  convention test, the root, and the scaling of an annual rate to the elapsed days.\<close>

record 'f irr_solver =
  ir_float :: "rat \<Rightarrow> 'f"
  ir_finite :: "'f \<Rightarrow> bool"
  ir_negative :: "'f \<Rightarrow> bool"
  ir_positive :: "'f \<Rightarrow> bool"
  ir_conventional :: "'f list \<Rightarrow> bool"
  ir_xirr :: "(date \<times> 'f) list \<Rightarrow> 'f option"
  ir_above_minus_one :: "'f \<Rightarrow> bool"
  ir_scale :: "'f \<Rightarrow> int \<Rightarrow> 'f option"

definition measured_number ::
  "('f \<Rightarrow> bool) \<Rightarrow> (rat \<Rightarrow> 'f) \<Rightarrow> 'f metric_number option \<Rightarrow> nat \<Rightarrow> string \<Rightarrow> 'f metric_result" where
  "measured_number fin float x n unit =
     (case x of
        None \<Rightarrow> unavailable n ''Calculation has no finite result'' unit
      | Some v \<Rightarrow>
          if \<not> fin (case v of Exactly q \<Rightarrow> float q | Approximately f \<Rightarrow> f)
          then unavailable n ''Calculation has no finite result'' unit
          else \<lparr>mt_value = Some v, mt_state = ''AVAILABLE'', mt_observations = n,
                mt_reason = None, mt_unit = unit\<rparr>)"

section \<open>Dated flows\<close>

definition add_flow :: "ctx \<Rightarrow> date \<Rightarrow> rat \<Rightarrow> (date \<times> rat) list \<Rightarrow> (date \<times> rat) list" where
  "add_flow c day amount fs = AList.update day (dadd c (dict_get fs day 0) amount) fs"

definition sub_flow :: "ctx \<Rightarrow> date \<Rightarrow> rat \<Rightarrow> (date \<times> rat) list \<Rightarrow> (date \<times> rat) list" where
  "sub_flow c day amount fs = AList.update day (dsub c (dict_get fs day 0) amount) fs"

definition or_zero :: "rat option \<Rightarrow> rat" where
  "or_zero x = (case x of None \<Rightarrow> 0 | Some v \<Rightarrow> v)"

definition observation_flows ::
  "ctx \<Rightarrow> fee_basis \<Rightarrow> (date \<times> rat) list \<Rightarrow> return_observation \<Rightarrow> (date \<times> rat) list" where
  "observation_flows c basis fs r =
     (let fs = sub_flow c (ro_day r) (or_zero (ro_external_flow r)) fs
      in if basis = GROSS then add_flow c (ro_day r) (or_zero (ro_fee_expense r)) fs else fs)"

definition dated_flows ::
  "ctx \<Rightarrow> return_observation list \<Rightarrow> date \<Rightarrow> fee_basis \<Rightarrow> (date \<times> rat) list" where
  "dated_flows c rows start basis =
     (let fs = sub_flow c start (or_zero (ro_opening_nav (hd rows))) [];
          fs = foldl (observation_flows c basis) fs rows
      in add_flow c (ro_day (last rows)) (or_zero (ro_closing_nav (last rows))) fs)"

text \<open>The reasons that need no solver.\<close>

definition missing_inputs :: "return_observation list \<Rightarrow> fee_basis \<Rightarrow> string option" where
  "missing_inputs rows basis =
     (if rows = [] then Some ''No observations in requested range''
      else if list_ex (\<lambda>r. ro_external_flow r = None \<or> ro_closing_nav r = None) rows
      then Some ''Cash flows and valuations must be complete''
      else if ro_opening_nav (hd rows) = None then Some ''Opening NAV is unavailable''
      else if basis = GROSS \<and> list_ex (\<lambda>r. ro_fee_expense r = None) rows
      then Some ''Recorded fee expenses are required for gross money-weighted returns''
      else None)"

definition payments_of :: "'f irr_solver \<Rightarrow> (date \<times> rat) list \<Rightarrow> (date \<times> 'f) list" where
  "payments_of solver fs =
     map (\<lambda>(d, x). (d, ir_float solver x)) (filter (\<lambda>(d, x). x \<noteq> 0) (sort_key fst fs))"

definition unsolvable :: "'f irr_solver \<Rightarrow> 'f list \<Rightarrow> string option" where
  "unsolvable solver amounts =
     (if \<not> list_all (ir_finite solver) amounts
      then Some ''Cash flows exceed solver numerical bounds''
      else if \<not> list_ex (ir_negative solver) amounts \<or> \<not> list_ex (ir_positive solver) amounts
      then Some ''Solver needs both investor contributions and distributions''
      else if \<not> ir_conventional solver amounts
      then Some ''Non-conventional cash flows may have multiple roots; no unique IRR is reported''
      else None)"

text \<open>The two results, \<open>mwr\<close> and \<open>xirr\<close>.\<close>

type_synonym 'f money_weighted_result = "'f metric_result \<times> 'f metric_result"

definition both_unavailable :: "nat \<Rightarrow> string \<Rightarrow> 'f money_weighted_result" where
  "both_unavailable n reason = (unavailable n reason ''RETURN'', unavailable n reason ''RETURN'')"

definition solved :: "'f irr_solver \<Rightarrow> (date \<times> 'f) list \<Rightarrow> nat \<Rightarrow> int \<Rightarrow> 'f money_weighted_result" where
  "solved solver payments n days =
     (case ir_xirr solver payments of
        Some annual \<Rightarrow>
          if ir_finite solver annual \<and> ir_above_minus_one solver annual \<and>
             ir_scale solver annual days \<noteq> None
          then
            (measured_number (ir_finite solver) (ir_float solver)
               (map_option Approximately (ir_scale solver annual days)) n ''RETURN'',
             if 365 \<le> days
             then measured_number (ir_finite solver) (ir_float solver)
               (Some (Approximately annual)) n ''RETURN''
             else unavailable n
               ''Annual XIRR requires one year; MWR describes the actual period'' ''RETURN'')
          else both_unavailable n ''No finite IRR solution for the dated cash flows''
      | None \<Rightarrow> both_unavailable n ''No finite IRR solution for the dated cash flows'')"

definition money_weighted ::
  "ctx \<Rightarrow> 'f irr_solver \<Rightarrow> return_observation list \<Rightarrow> date option \<Rightarrow> fee_basis \<Rightarrow>
   'f money_weighted_result result" where
  "money_weighted c solver rows opening_date basis =
     (let n = length rows in
      case missing_inputs rows basis of
        Some reason \<Rightarrow> Inr (both_unavailable n reason)
      | None \<Rightarrow>
          let start = (case opening_date of Some d \<Rightarrow> d | None \<Rightarrow> ro_day (hd rows));
              days = ro_day (last rows) - start
          in bindE (ensure (start \<le> ro_day (hd rows))
               (ValueError ''Opening valuation date must not follow the first return date'')) (\<lambda>_.
             if days \<le> 0
             then Inr (both_unavailable n ''Dated flows need a positive elapsed period'')
             else
               let payments = payments_of solver (dated_flows c rows start basis) in
               (case unsolvable solver (map snd payments) of
                  Some reason \<Rightarrow> Inr (both_unavailable n reason)
                | None \<Rightarrow> Inr (solved solver payments n days))))"

section \<open>Lemmas\<close>

definition flow_sum :: "(date \<times> rat) list \<Rightarrow> rat" where
  "flow_sum fs = sum_list (map snd fs)"

lemma flow_sum_update:
  "distinct (map fst fs) \<Longrightarrow>
   flow_sum (AList.update d x fs) = flow_sum fs - dict_get fs d 0 + x"
  using sum_update [of fs "\<lambda>x. x" 0 d x] by (simp add: flow_sum_def)

lemma flow_sums [simp]:
  assumes "distinct (map fst fs)"
  shows "flow_sum (add_flow exact d x fs) = flow_sum fs + x"
    "flow_sum (sub_flow exact d x fs) = flow_sum fs - x"
    "distinct (map fst (add_flow exact d x fs))" "distinct (map fst (sub_flow exact d x fs))"
  using assms by (simp_all add: add_flow_def sub_flow_def flow_sum_update distinct_update_keys)

lemma flow_sum_rows:
  "distinct (map fst fs) \<Longrightarrow>
   flow_sum (foldl (observation_flows exact basis) fs rows) =
     flow_sum fs - sum_list (map (or_zero \<circ> ro_external_flow) rows) +
       (if basis = GROSS then sum_list (map (or_zero \<circ> ro_fee_expense) rows) else 0) \<and>
   distinct (map fst (foldl (observation_flows exact basis) fs rows))"
  by (induction rows arbitrary: fs) (simp_all add: observation_flows_def Let_def)

text \<open>The dated flows balance the books. In ideal arithmetic the flows handed to the solver
  add up to the profit of the range: closing NAV less opening NAV less external flows, plus the
  fees on the gross basis.\<close>

theorem dated_flows_sum:
  "sum_list (map snd (dated_flows exact rows start basis)) =
     or_zero (ro_closing_nav (last rows)) - or_zero (ro_opening_nav (hd rows))
     - sum_list (map (or_zero \<circ> ro_external_flow) rows)
     + (if basis = GROSS then sum_list (map (or_zero \<circ> ro_fee_expense) rows) else 0)"
proof -
  have d: "distinct (map fst (sub_flow exact start x []))" "flow_sum (sub_flow exact start x []) = - x" for x
    by (simp_all add: sub_flow_def flow_sum_def)
  show ?thesis
    using flow_sum_rows [OF d(1) [of "or_zero (ro_opening_nav (hd rows))"], of basis rows]
    by (simp add: dated_flows_def Let_def flow_sum_def [symmetric] d(2))
qed

end
