(* ===== verification/Transaction_Context.thy ===== *)
theory Transaction_Context
  imports Prelude
begin

text \<open>
  \<open>transaction_context.py\<close>: the provenance a caller may record with a trade, its validation, its
  storage in the transaction metadata and the view read back from it. A timestamp is an integer
  number of microseconds in UTC. pydantic's reading of an aware timestamp and the text it stores
  are the two functions of the record \<open>timestamps\<close>.
\<close>

record timestamps =
  ts_read :: "pyval \<Rightarrow> int option"
  ts_dump :: "int \<Rightarrow> string"

text \<open>Midnight UTC is the first microsecond of a day; day zero of the count is ordinal \<open>epoch_day\<close>.\<close>

definition epoch_day :: date where
  "epoch_day = 719163"

definition timestamp_day :: "int \<Rightarrow> date" where
  "timestamp_day t = epoch_day + t div 86400000000"

record transaction_context =
  tc_trade_timestamp :: "int option"
  tc_external_reference :: "string option"
  tc_broker_execution_id :: "string option"
  tc_strategy_id :: "string option"
  tc_thesis_id :: "string option"

definition REFERENCE_FIELDS :: "(string \<times> nat) list" where
  "REFERENCE_FIELDS = [(''external_reference'', 160), (''broker_execution_id'', 160),
     (''strategy_id'', 36), (''thesis_id'', 36)]"

definition str_isprintable :: "string \<Rightarrow> bool" where
  "str_isprintable s = list_all (\<lambda>ch. 32 \<le> (of_char ch :: nat) \<and> (of_char ch :: nat) \<le> 126) s"

section \<open>Validation\<close>

definition timestamp_in_utc :: "timestamps \<Rightarrow> int \<Rightarrow> pyval \<Rightarrow> int option result" where
  "timestamp_in_utc ts now v =
     (if v = VNone then Inr None
      else
        (case ts_read ts v of
           None \<Rightarrow> Inl (ValueError ''Input should be a valid datetime'')
         | Some t \<Rightarrow>
             if now < t then Inl (ValueError ''Trade timestamp cannot be in the future'')
             else Inr (Some t)))"

text \<open>The field's type and length are checked on the raw text, before it is stripped.\<close>

definition optional_identifier :: "nat \<Rightarrow> pyval \<Rightarrow> string option result" where
  "optional_identifier limit v =
     (case v of
        VNone \<Rightarrow> Inr None
      | VStr s \<Rightarrow>
          if limit < length s then Inl (ValueError ''String is too long'')
          else
            let normalized = str_strip s in
            if \<not> str_isprintable normalized \<and> normalized \<noteq> []
            then Inl (ValueError ''Reference identifiers cannot contain control characters'')
            else Inr (if normalized = [] then None else Some normalized)
      | _ \<Rightarrow> Inl (ValueError ''Input should be a valid string''))"

definition check_context ::
  "timestamps \<Rightarrow> int \<Rightarrow> (string \<Rightarrow> pyval) \<Rightarrow> transaction_context result" where
  "check_context ts now field =
     bindE (timestamp_in_utc ts now (field ''trade_timestamp'')) (\<lambda>t.
     bindE (optional_identifier 160 (field ''external_reference'')) (\<lambda>er.
     bindE (optional_identifier 160 (field ''broker_execution_id'')) (\<lambda>be.
     bindE (optional_identifier 36 (field ''strategy_id'')) (\<lambda>si.
     bindE (optional_identifier 36 (field ''thesis_id'')) (\<lambda>ti.
     Inr \<lparr>tc_trade_timestamp = t, tc_external_reference = er, tc_broker_execution_id = be,
          tc_strategy_id = si, tc_thesis_id = ti\<rparr>)))))"

section \<open>Recording\<close>

text \<open>The value of a context field: the payload's, else the metadata's, else for the execution
  identifier the broker import's.\<close>

definition context_field :: "pyval dict \<Rightarrow> pyval dict \<Rightarrow> string \<Rightarrow> pyval" where
  "context_field payload metadata name =
     (let v = meta_get payload name;
          v = (if v = VNone then meta_get metadata name else v)
      in if v = VNone \<and> name = ''broker_execution_id'' then meta_get metadata ''execution_id'' else v)"

definition text_or_none :: "string option \<Rightarrow> pyval" where
  "text_or_none x = (case x of None \<Rightarrow> VNone | Some s \<Rightarrow> VStr s)"

lemma text_or_none_VNone [simp]: "text_or_none x = VNone \<longleftrightarrow> x = None"
  by (cases x) (simp_all add: text_or_none_def)

definition dumped_context :: "timestamps \<Rightarrow> transaction_context \<Rightarrow> (string \<times> pyval) list" where
  "dumped_context ts k =
     [(''trade_timestamp'', text_or_none (map_option (ts_dump ts) (tc_trade_timestamp k))),
      (''external_reference'', text_or_none (tc_external_reference k)),
      (''broker_execution_id'', text_or_none (tc_broker_execution_id k)),
      (''strategy_id'', text_or_none (tc_strategy_id k)),
      (''thesis_id'', text_or_none (tc_thesis_id k))]"

definition set_all :: "pyval dict \<Rightarrow> (string \<times> pyval) list \<Rightarrow> pyval dict" where
  "set_all d kvs = foldl (\<lambda>d (k, v). AList.update k v d) d kvs"

text \<open>\<open>record_context\<close> returns the context and the updated metadata.\<close>

definition record_context ::
  "timestamps \<Rightarrow> int \<Rightarrow> pyval dict \<Rightarrow> pyval dict \<Rightarrow> date \<Rightarrow> (transaction_context \<times> pyval dict) result" where
  "record_context ts now payload metadata trade_date =
     bindE (check_context ts now (context_field payload metadata)) (\<lambda>k.
     bindE (ensure
        (case tc_trade_timestamp k of None \<Rightarrow> True | Some t \<Rightarrow> \<bar>timestamp_day t - trade_date\<bar> \<le> 1)
        (ValueError ''Trade timestamp is inconsistent with the supplied trade date'')) (\<lambda>_.
     let m = set_all metadata (dumped_context ts k);
         m = AList.update ''execution_id'' (text_or_none (tc_broker_execution_id k)) m
     in Inr (k, AList.delete ''actor_user_id'' (AList.delete ''created_by'' m))))"

section \<open>Reading\<close>

record context_view =
  cv_trade_timestamp :: "int option"
  cv_references :: "(string \<times> string option) list"
  cv_created_by :: "string option"
  cv_warnings :: "string list"

definition timestamp_state :: "context_view \<Rightarrow> string" where
  "timestamp_state v = (if cv_trade_timestamp v \<noteq> None then ''RECORDED'' else ''NOT_RECORDED'')"

definition creator_state :: "context_view \<Rightarrow> string" where
  "creator_state v = (if cv_created_by v \<noteq> None \<and> cv_created_by v \<noteq> Some []
     then ''AUDIT_LOG'' else ''NOT_RECORDED'')"

text \<open>One reference and its warning, if it does not validate.\<close>

definition read_reference :: "pyval dict \<Rightarrow> string \<times> nat \<Rightarrow> string option \<times> string list" where
  "read_reference metadata nl =
     (let raw = meta_get metadata (fst nl);
          raw = (if fst nl = ''broker_execution_id'' \<and> raw = VNone
                 then meta_get metadata ''execution_id'' else raw)
      in case optional_identifier (snd nl) raw of
           Inr x \<Rightarrow> (x, [])
         | Inl _ \<Rightarrow> (None,
             [''Legacy '' @ fst nl @ '' is unvalidated; original metadata retained'']))"

definition read_timestamp :: "timestamps \<Rightarrow> int \<Rightarrow> pyval dict \<Rightarrow> int option \<times> string list" where
  "read_timestamp ts now metadata =
     (case timestamp_in_utc ts now (meta_get metadata ''trade_timestamp'') of
        Inr t \<Rightarrow> (t, [])
      | Inl _ \<Rightarrow> (None,
          [''Legacy trade timestamp is unvalidated; original metadata retained'']))"

definition context_payload :: "timestamps \<Rightarrow> int \<Rightarrow> pyval dict \<Rightarrow> string option \<Rightarrow> context_view" where
  "context_payload ts now metadata creator =
     (let t = read_timestamp ts now metadata;
          refs = map (\<lambda>nl. (fst nl, read_reference metadata nl)) REFERENCE_FIELDS
      in \<lparr>cv_trade_timestamp = fst t, cv_references = map (\<lambda>(n, r). (n, fst r)) refs,
          cv_created_by = creator, cv_warnings = snd t @ concat (map (\<lambda>(n, r). snd r) refs)\<rparr>)"

section \<open>Lemmas\<close>

lemma strip_idem [simp]: "str_strip (str_strip s) = str_strip s"
proof -
  have drop: "dropWhile P (rev (dropWhile P (rev xs))) = rev (dropWhile P (rev xs))"
    if "dropWhile P xs = xs" for P :: "char \<Rightarrow> bool" and xs
  proof (cases xs)
    case (Cons y ys)
    with that have "\<not> P y" by (metis dropWhile.simps(2) dropWhile_eq_self_iff list.sel(1) list.simps(3))
    then have "rev (dropWhile P (rev xs)) \<noteq> []" "hd (rev (dropWhile P (rev xs))) = y"
      unfolding Cons by (auto simp: dropWhile_append)
    with \<open>\<not> P y\<close> show ?thesis by (simp add: dropWhile_eq_self_iff)
  qed simp
  define t where "t = dropWhile is_space s"
  have "dropWhile is_space t = t" by (simp add: t_def dropWhile_idem)
  from drop [OF this] show ?thesis
    by (simp add: str_strip_def t_def [symmetric] dropWhile_idem)
qed

lemma strip_length: "length (str_strip s) \<le> length s"
  using length_dropWhile_le [of is_space "rev (dropWhile is_space s)"] length_dropWhile_le [of is_space s]
  by (simp add: str_strip_def)

lemma identifier_stable:
  assumes "optional_identifier n v = Inr x"
  shows "optional_identifier n (text_or_none x) = Inr x"
proof (cases v)
  case (VStr s)
  with assms strip_length [of s] show ?thesis
    by (auto simp: optional_identifier_def text_or_none_def Let_def split: if_splits)
qed (use assms in \<open>auto simp: optional_identifier_def text_or_none_def\<close>)

lemma identifier_None [simp]: "optional_identifier n VNone = Inr None"
  by (simp add: optional_identifier_def)

lemma meta_get_update [simp]: "meta_get (AList.update k v d) k' = (if k' = k then v else meta_get d k')"
  by (simp add: meta_get_def)

lemma meta_get_delete [simp]: "k' \<noteq> k \<Longrightarrow> meta_get (AList.delete k d) k' = meta_get d k'"
  by (simp add: meta_get_def dict_get_def delete_conv')

lemma set_all_get:
  "distinct (map fst kvs) \<Longrightarrow>
   meta_get (set_all d kvs) k = (case map_of kvs k of Some v \<Rightarrow> v | None \<Rightarrow> meta_get d k)"
proof (induction kvs arbitrary: d)
  case (Cons kv kvs)
  have "map_of kvs (fst kv) = None" using Cons.prems by (simp add: map_of_eq_None_iff)
  with Cons show ?case by (cases kv) (auto simp: set_all_def split: option.splits)
qed (simp add: set_all_def)

lemma recorded_field:
  assumes "record_context ts now payload metadata day = Inr (k, m)"
  shows "n \<in> set (map fst (dumped_context ts k)) \<Longrightarrow> meta_get m n = the (map_of (dumped_context ts k) n)"
    "meta_get m ''execution_id'' = text_or_none (tc_broker_execution_id k)"
proof -
  from assms(1) have m: "m = AList.delete ''actor_user_id'' (AList.delete ''created_by''
      (AList.update ''execution_id'' (text_or_none (tc_broker_execution_id k))
        (set_all metadata (dumped_context ts k))))"
    by (auto simp: record_context_def Let_def result_simps)
  have d: "distinct (map fst (dumped_context ts k))" by (simp add: dumped_context_def)
  show "meta_get m n = the (map_of (dumped_context ts k) n)" if "n \<in> set (map fst (dumped_context ts k))"
    using that unfolding m by (auto simp: dumped_context_def set_all_get [OF d, unfolded dumped_context_def])
  show "meta_get m ''execution_id'' = text_or_none (tc_broker_execution_id k)"
    unfolding m by simp
qed

lemma check_context_fields:
  assumes "check_context ts now field = Inr k"
  shows "timestamp_in_utc ts now (field ''trade_timestamp'') = Inr (tc_trade_timestamp k)"
    "optional_identifier 160 (field ''external_reference'') = Inr (tc_external_reference k)"
    "optional_identifier 160 (field ''broker_execution_id'') = Inr (tc_broker_execution_id k)"
    "optional_identifier 36 (field ''strategy_id'') = Inr (tc_strategy_id k)"
    "optional_identifier 36 (field ''thesis_id'') = Inr (tc_thesis_id k)"
  using assms by (auto simp: check_context_def result_simps)

text \<open>C10: recorded provenance reads back unchanged. When \<open>record_context\<close> accepts a payload, the view
  later read from the metadata it stored shows exactly the recorded timestamp and references and
  no warning, provided the stored text of a timestamp reads as that timestamp.\<close>

theorem context_roundtrip:
  assumes recorded: "record_context ts now payload metadata day = Inr (k, m)"
    and reads: "\<And>t. ts_read ts (VStr (ts_dump ts t)) = Some t"
    and later: "now \<le> now'"
  shows "context_payload ts now' m creator =
     \<lparr>cv_trade_timestamp = tc_trade_timestamp k,
      cv_references = [(''external_reference'', tc_external_reference k),
        (''broker_execution_id'', tc_broker_execution_id k),
        (''strategy_id'', tc_strategy_id k), (''thesis_id'', tc_thesis_id k)],
      cv_created_by = creator, cv_warnings = []\<rparr>"
proof -
  from recorded have checked: "check_context ts now (context_field payload metadata) = Inr k"
    by (auto simp: record_context_def Let_def result_simps)
  note F = check_context_fields [OF checked]
  note G = recorded_field [OF recorded]
  have get: "meta_get m ''trade_timestamp'' = text_or_none (map_option (ts_dump ts) (tc_trade_timestamp k))"
    "meta_get m ''external_reference'' = text_or_none (tc_external_reference k)"
    "meta_get m ''broker_execution_id'' = text_or_none (tc_broker_execution_id k)"
    "meta_get m ''strategy_id'' = text_or_none (tc_strategy_id k)"
    "meta_get m ''thesis_id'' = text_or_none (tc_thesis_id k)"
    "meta_get m ''execution_id'' = text_or_none (tc_broker_execution_id k)"
    by (simp_all add: G dumped_context_def)
  have t: "timestamp_in_utc ts now' (text_or_none (map_option (ts_dump ts) (tc_trade_timestamp k))) =
      Inr (tc_trade_timestamp k)"
    using F(1) reads later
    by (cases "tc_trade_timestamp k")
      (auto simp: timestamp_in_utc_def text_or_none_def split: option.splits if_splits)
  note R = F(2-5) [THEN identifier_stable]
  show ?thesis
    using t R
    by (auto simp add: context_payload_def read_timestamp_def read_reference_def REFERENCE_FIELDS_def get Let_def)
qed

text \<open>A reference with surrounding blanks and a timestamp, with timestamps stored in unary.\<close>

definition unary_timestamps :: timestamps where
  "unary_timestamps = \<lparr>ts_read = (\<lambda>v. case v of
       VStr s \<Rightarrow> Some (if s \<noteq> [] \<and> hd s = CHR ''-'' then 1 - int (length s) else int (length s))
     | _ \<Rightarrow> None),
     ts_dump = (\<lambda>t. if t < 0 then CHR ''-'' # replicate (nat (- t)) CHR ''1''
                   else replicate (nat t) CHR ''1'')\<rparr>"

theorem context_roundtrip_witness:
  "cv_references (context_payload unary_timestamps 9
     (snd (projr (record_context unary_timestamps 8
       [(''trade_timestamp'', VStr ''111''), (''thesis_id'', VStr '' t-1 '')] [] 719163))) None) =
   [(''external_reference'', None), (''broker_execution_id'', None), (''strategy_id'', None),
    (''thesis_id'', Some ''t-1'')]"
proof -
  let ?p = "[(''trade_timestamp'', VStr ''111''), (''thesis_id'', VStr '' t-1 '')]"
  obtain k m where r: "record_context unary_timestamps 8 ?p [] 719163 = Inr (k, m)"
    and k: "tc_external_reference k = None" "tc_broker_execution_id k = None"
      "tc_strategy_id k = None" "tc_thesis_id k = Some ''t-1''"
    by (rule that [of "fst (projr (record_context unary_timestamps 8 ?p [] 719163))"
          "snd (projr (record_context unary_timestamps 8 ?p [] 719163))"]) code_simp+
  have "ts_read unary_timestamps (VStr (ts_dump unary_timestamps t)) = Some t" for t
    by (cases "nat t") (auto simp: unary_timestamps_def)
  from context_roundtrip [OF r this, of 9 None] show ?thesis by (simp add: r k)
qed

end
