(* ===== verification/Ledger_Store.thy ===== *)
theory Ledger_Store
  imports Ledger Transaction_Context "HOL-Library.Product_Lexorder"
begin

text \<open>
  The recorded ledger: the tables of \<open>models.py\<close> and \<open>ledger_models.py\<close> that hold it, and
  \<open>load_entries\<close> of \<open>portfolio_valuation.py\<close>, which turns the rows of a portfolio into replay
  entries and the payloads shown beside them. A row is a record with the columns the code reads
  or writes; a table is the list of its rows. Timestamps are integers. Amounts stay numbers where
  the payload holds their text.
\<close>

section \<open>Tables\<close>

record portfolio_row =
  po_id :: string
  po_name :: string
  po_base_currency :: string
  po_reference_capital :: rat
  po_is_default :: bool

record profile_row =
  pr_portfolio_id :: string
  pr_code :: string
  pr_is_demo :: bool
  pr_configuration :: "pyval dict"

record transaction_row =
  tr_id :: string
  tr_created_at :: int
  tr_updated_at :: int
  tr_portfolio_id :: string
  tr_account_id :: "string option"
  tr_instrument_id :: "string option"
  tr_kind :: string
  tr_trade_date :: date
  tr_settle_date :: "date option"
  tr_quantity :: rat
  tr_price :: rat
  tr_currency :: string
  tr_fx :: rat
  tr_fee :: rat
  tr_source :: string
  tr_quality :: string
  tr_notes :: "string option"

record detail_row =
  td_transaction_id :: string
  td_gross_amount :: rat
  td_commission :: rat
  td_tax :: rat
  td_multiplier :: rat
  td_base_value :: rat
  td_external_key :: "string option"
  td_source_file_id :: "string option"
  td_reconciliation_state :: string
  td_metadata :: "pyval dict"

datatype revision_action = AMEND | VOID

text \<open>A snapshot is the JSON of an entry with its notes; a void has no state afterwards.\<close>

record snapshot =
  sn_entry :: entry
  sn_notes :: "string option"

record revision_row =
  rv_id :: string
  rv_created_at :: int
  rv_portfolio_id :: string
  rv_transaction_id :: string
  rv_version :: int
  rv_action :: revision_action
  rv_reason :: string
  rv_actor :: "string option"
  rv_before :: snapshot
  rv_after :: "snapshot option"

record audit_row =
  au_id :: string
  au_created_at :: int
  au_action :: string
  au_resource_type :: string
  au_resource_id :: string
  au_actor :: "string option"

record ledger_db =
  db_portfolios :: "portfolio_row list"
  db_profiles :: "profile_row list"
  db_transactions :: "transaction_row list"
  db_details :: "detail_row list"
  db_revisions :: "revision_row list"
  db_audit :: "audit_row list"
  db_symbols :: "(string \<times> string) list"

section \<open>Entries and payloads of the rows\<close>

datatype ledger_state = ACTIVE | VOIDED

record tx_payload =
  tx_id :: string
  tx_portfolio_id :: string
  tx_account_id :: "string option"
  tx_type :: string
  tx_symbol :: "string option"
  tx_instrument_id :: "string option"
  tx_trade_date :: date
  tx_settle_date :: "date option"
  tx_quantity :: rat
  tx_price :: rat
  tx_gross_amount :: rat
  tx_currency :: string
  tx_fx :: rat
  tx_base_value :: rat
  tx_fee :: rat
  tx_commission :: rat
  tx_tax :: rat
  tx_source :: string
  tx_quality :: string
  tx_notes :: "string option"
  tx_created_at :: int
  tx_updated_at :: int
  tx_source_file_id :: "string option"
  tx_external_key :: "string option"
  tx_context :: context_view
  tx_reconciliation_state :: string
  tx_metadata :: "pyval dict"
  tx_audit_version :: int
  tx_ledger_state :: ledger_state
  tx_revision_id :: "string option"
  tx_revision_reason :: "string option"

definition detail_of :: "ledger_db \<Rightarrow> string \<Rightarrow> detail_row option" where
  "detail_of db i = find (\<lambda>d. td_transaction_id d = i) (db_details db)"

text \<open>The rows of a portfolio in replay order, each with its detail.\<close>

definition ledger_rows :: "ledger_db \<Rightarrow> string \<Rightarrow> (transaction_row \<times> detail_row option) list" where
  "ledger_rows db portfolio_id =
     map (\<lambda>t. (t, detail_of db (tr_id t)))
       (sort_key (\<lambda>t. (tr_trade_date t, tr_created_at t, tr_id t))
         (filter (\<lambda>t. tr_portfolio_id t = portfolio_id) (db_transactions db)))"

text \<open>The first recorded creator of a transaction.\<close>

definition creator_of :: "ledger_db \<Rightarrow> string \<Rightarrow> string option" where
  "creator_of db i =
     (case filter (\<lambda>a. au_resource_id a = i \<and> au_resource_type a = ''portfolio_transaction'' \<and>
               au_action a = ''LEDGER_TRANSACTION_CREATED'')
             (sort_key (\<lambda>a. (au_created_at a, au_id a)) (db_audit db)) of
        [] \<Rightarrow> None | a # _ \<Rightarrow> au_actor a)"

definition kind_of :: "string \<Rightarrow> txn_kind result" where
  "kind_of s =
     (case find (\<lambda>k. kind_value k = s)
         [DEPOSIT, WITHDRAWAL, BUY, SELL, SHORT, COVER, DIVIDEND, INTEREST, COMMISSION, FEE, TAX,
          FX_CONVERSION, SPLIT, REVERSE_SPLIT, SPINOFF, MERGER, TRANSFER_IN, TRANSFER_OUT,
          OTHER_ADJUSTMENT] of
        Some k \<Rightarrow> Inr k
      | None \<Rightarrow> Inl (ValueError ''Entry requires an ID and supported transaction type''))"

definition row_amount :: "ctx \<Rightarrow> transaction_row \<times> detail_row option \<Rightarrow> rat" where
  "row_amount c r =
     (case snd r of Some d \<Rightarrow> td_gross_amount d | None \<Rightarrow> dmul c (tr_quantity (fst r)) (tr_price (fst r)))"

definition row_entry :: "ctx \<Rightarrow> transaction_row \<times> detail_row option \<Rightarrow> entry result" where
  "row_entry c r =
     (let t = fst r; amount = row_amount c r in
      bindE (ensure (\<not> (snd r = None \<and> tr_kind t = ''DEPOSIT'' \<and> amount = 0))
         (ValueError ''Legacy implicit contribution requires explicit ledger migration'')) (\<lambda>_.
      bindE (kind_of (tr_kind t)) (\<lambda>k.
      Inr \<lparr>e_id = tr_id t, e_day = tr_trade_date t, e_kind = k, e_currency = tr_currency t,
           e_quantity = tr_quantity t, e_price = tr_price t, e_fx = tr_fx t, e_amount = amount,
           e_fee = tr_fee t,
           e_commission = (case snd r of Some d \<Rightarrow> td_commission d | None \<Rightarrow> 0),
           e_tax = (case snd r of Some d \<Rightarrow> td_tax d | None \<Rightarrow> 0),
           e_instrument_id = tr_instrument_id t,
           e_multiplier = (case snd r of Some d \<Rightarrow> td_multiplier d | None \<Rightarrow> 1),
           e_metadata = (case snd r of Some d \<Rightarrow> td_metadata d | None \<Rightarrow> []),
           e_settle_date = tr_settle_date t, e_account_id = tr_account_id t\<rparr>)))"

definition row_payload ::
  "ctx \<Rightarrow> timestamps \<Rightarrow> int \<Rightarrow> ledger_db \<Rightarrow> transaction_row \<times> detail_row option \<Rightarrow> tx_payload" where
  "row_payload c ts now db r =
     (let t = fst r; amount = row_amount c r;
          metadata = (case snd r of Some d \<Rightarrow> td_metadata d | None \<Rightarrow> []) in
      \<lparr>tx_id = tr_id t, tx_portfolio_id = tr_portfolio_id t, tx_account_id = tr_account_id t,
       tx_type = tr_kind t,
       tx_symbol = (case tr_instrument_id t of Some i \<Rightarrow> map_of (db_symbols db) i | None \<Rightarrow> None),
       tx_instrument_id = tr_instrument_id t, tx_trade_date = tr_trade_date t,
       tx_settle_date = tr_settle_date t, tx_quantity = tr_quantity t, tx_price = tr_price t,
       tx_gross_amount = amount, tx_currency = tr_currency t, tx_fx = tr_fx t,
       tx_base_value = dmul c amount (tr_fx t), tx_fee = tr_fee t,
       tx_commission = (case snd r of Some d \<Rightarrow> td_commission d | None \<Rightarrow> 0),
       tx_tax = (case snd r of Some d \<Rightarrow> td_tax d | None \<Rightarrow> 0),
       tx_source = tr_source t, tx_quality = tr_quality t, tx_notes = tr_notes t,
       tx_created_at = tr_created_at t, tx_updated_at = tr_updated_at t,
       tx_source_file_id = (case snd r of Some d \<Rightarrow> td_source_file_id d | None \<Rightarrow> None),
       tx_external_key = (case snd r of Some d \<Rightarrow> td_external_key d | None \<Rightarrow> None),
       tx_context = context_payload ts now metadata (creator_of db (tr_id t)),
       tx_reconciliation_state =
         (case snd r of Some d \<Rightarrow> td_reconciliation_state d | None \<Rightarrow> ''INTERNAL_ONLY''),
       tx_metadata = metadata, tx_audit_version = 1, tx_ledger_state = ACTIVE,
       tx_revision_id = None, tx_revision_reason = None\<rparr>)"

section \<open>Revisions\<close>

definition revisions_of :: "ledger_db \<Rightarrow> string \<Rightarrow> revision_row list" where
  "revisions_of db portfolio_id =
     sort_key rv_version (filter (\<lambda>r. rv_portfolio_id r = portfolio_id) (db_revisions db))"

text \<open>The dictionary comprehension keeps the last revision of a transaction.\<close>

definition latest_revision :: "revision_row list \<Rightarrow> string \<Rightarrow> revision_row option" where
  "latest_revision rows i =
     (case filter (\<lambda>r. rv_transaction_id r = i) rows of [] \<Rightarrow> None | rs \<Rightarrow> Some (last rs))"

definition entry_payload :: "ctx \<Rightarrow> entry \<Rightarrow> tx_payload \<Rightarrow> tx_payload" where
  "entry_payload c e p =
     p\<lparr>tx_trade_date := e_day e, tx_settle_date := Some (settlement e), tx_quantity := e_quantity e,
       tx_price := e_price e, tx_gross_amount := gross c e, tx_fee := e_fee e,
       tx_commission := e_commission e, tx_tax := e_tax e, tx_fx := e_fx e,
       tx_base_value := dmul c (gross c e) (e_fx e)\<rparr>"

text \<open>What is in force after a revision: the state before a void, the state after an amendment.\<close>

definition in_force :: "revision_row \<Rightarrow> snapshot result" where
  "in_force r =
     (case rv_action r of
        VOID \<Rightarrow> Inr (rv_before r)
      | AMEND \<Rightarrow> (case rv_after r of Some s \<Rightarrow> Inr s | None \<Rightarrow> Inl (KeyError ''entry'')))"

definition revised ::
  "ctx \<Rightarrow> revision_row \<Rightarrow> entry \<times> tx_payload \<Rightarrow> (entry \<times> tx_payload) result" where
  "revised c r ep =
     bindE (in_force r) (\<lambda>s.
     bindE (validate c (sn_entry s)) (\<lambda>_.
     let e = sn_entry s;
         p = (snd ep)\<lparr>tx_audit_version := rv_version r,
               tx_ledger_state := (if rv_action r = VOID then VOIDED else ACTIVE),
               tx_revision_id := Some (rv_id r), tx_revision_reason := Some (rv_reason r),
               tx_updated_at := rv_created_at r\<rparr>
     in Inr (e, (entry_payload c e p)\<lparr>tx_metadata := e_metadata e, tx_notes := sn_notes s\<rparr>)))"

definition apply_revision ::
  "ctx \<Rightarrow> revision_row list \<Rightarrow> entry \<times> tx_payload \<Rightarrow> (entry \<times> tx_payload) result" where
  "apply_revision c rows ep =
     (case latest_revision rows (e_id (fst ep)) of
        None \<Rightarrow> Inr (fst ep, (snd ep)\<lparr>tx_audit_version := 1, tx_ledger_state := ACTIVE\<rparr>)
      | Some r \<Rightarrow> revised c r ep)"

definition apply_revisions ::
  "ctx \<Rightarrow> ledger_db \<Rightarrow> string \<Rightarrow> entry list \<Rightarrow> tx_payload list \<Rightarrow>
   (entry list \<times> tx_payload list) result" where
  "apply_revisions c db portfolio_id entries payloads =
     bindE (mapE (apply_revision c (revisions_of db portfolio_id)) (zip entries payloads)) (\<lambda>eps.
     Inr (sort_key e_day (map fst (filter (\<lambda>ep. tx_ledger_state (snd ep) = ACTIVE) eps)),
          map snd eps))"

definition load_entries ::
  "ctx \<Rightarrow> timestamps \<Rightarrow> int \<Rightarrow> ledger_db \<Rightarrow> string \<Rightarrow> (entry list \<times> tx_payload list) result" where
  "load_entries c ts now db portfolio_id =
     (let rows = ledger_rows db portfolio_id in
      bindE (mapE (row_entry c) rows) (\<lambda>entries.
      apply_revisions c db portfolio_id entries (map (row_payload c ts now db) rows)))"

end
