(* ===== verification/Revisions.thy ===== *)
theory Revisions
  imports Ledger_Store
begin

text \<open>
  \<open>ledger_revisions.py\<close> with the request contracts of \<open>ledger_contracts.py\<close> and the storage checks
  of \<open>ledger_storage.py\<close>: an amendment or a void of a recorded transaction, checked against the
  version the caller saw, validated by a replay of the whole ledger and appended to the revision
  history. What the process takes from outside (the clock, fresh identifiers, what the database
  driver can store, the text of a decimal) is the record \<open>revision_env\<close>.
\<close>

record revision_env =
  en_now :: int
  en_timestamps :: timestamps
  en_today :: date
  en_revision_id :: string
  en_audit_id :: string
  en_storable :: "rat \<Rightarrow> bool"
  en_decimal_text :: "rat \<Rightarrow> string"
  en_lot_id :: "string \<Rightarrow> string"

section \<open>Requests\<close>

text \<open>A field of a change request is unset, set to null or set to a value.\<close>

record changes =
  ch_trade_date :: "date option option"
  ch_settle_date :: "date option option"
  ch_quantity :: "rat option option"
  ch_price :: "rat option option"
  ch_amount :: "rat option option"
  ch_fee :: "rat option option"
  ch_commission :: "rat option option"
  ch_tax :: "rat option option"
  ch_fx :: "rat option option"
  ch_notes :: "string option option"

definition no_changes :: changes where
  "no_changes =
     \<lparr>ch_trade_date = None, ch_settle_date = None, ch_quantity = None, ch_price = None,
      ch_amount = None, ch_fee = None, ch_commission = None, ch_tax = None, ch_fx = None,
      ch_notes = None\<rparr>"

definition check_change :: "ctx \<Rightarrow> bool \<Rightarrow> rat option option \<Rightarrow> unit result" where
  "check_change c positive v =
     (case v of
        Some (Some x) \<Rightarrow>
          bindE (ensure (if positive then 0 < x else 0 \<le> x) (ValueError ''Input out of range'')) (\<lambda>_.
          bindE (stored_decimal_of c x ''corrected accounting value'' False False) (\<lambda>_. Inr ()))
      | _ \<Rightarrow> Inr ())"

definition check_changes :: "ctx \<Rightarrow> changes \<Rightarrow> unit result" where
  "check_changes c ch =
     bindE (mapE (check_change c False)
        [ch_quantity ch, ch_price ch, ch_amount ch, ch_fee ch, ch_commission ch, ch_tax ch]) (\<lambda>_.
     bindE (check_change c True (ch_fx ch)) (\<lambda>_.
     ensure (case ch_notes ch of Some (Some s) \<Rightarrow> length s \<le> 10000 | _ \<Rightarrow> True)
       (ValueError ''String is too long'')))"

text \<open>An \<open>AmendmentRequest\<close> carries changes, a plain \<open>RevisionRequest\<close> is a void.\<close>

record revision_request =
  rq_expected_version :: int
  rq_reason :: string
  rq_changes :: "changes option"

definition meaningful_reason :: "string \<Rightarrow> string result" where
  "meaningful_reason s =
     (if length (str_strip s) < 5
      then Inl (ValueError ''A meaningful correction reason is required'')
      else Inr (str_strip s))"

definition check_request :: "ctx \<Rightarrow> revision_request \<Rightarrow> revision_request result" where
  "check_request c rq =
     bindE (ensure (1 \<le> rq_expected_version rq) (ValueError ''Input out of range'')) (\<lambda>_.
     bindE (ensure (5 \<le> length (rq_reason rq) \<and> length (rq_reason rq) \<le> 2000)
        (ValueError ''String length out of range'')) (\<lambda>_.
     bindE (meaningful_reason (rq_reason rq)) (\<lambda>reason.
     bindE (case rq_changes rq of Some ch \<Rightarrow> check_changes c ch | None \<Rightarrow> Inr ()) (\<lambda>_.
     Inr (rq\<lparr>rq_reason := reason\<rparr>)))))"

section \<open>Storage checks\<close>

definition validate_storage :: "(rat \<Rightarrow> bool) \<Rightarrow> (string \<times> rat) list \<Rightarrow> unit result" where
  "validate_storage storable values =
     foldE (\<lambda>_ (name, v). ensure (storable v)
       (ValueError (name @ '' cannot round-trip through local SQLite storage at eight decimal places'')))
       () values"

definition validate_corrected_storage :: "ctx \<Rightarrow> (rat \<Rightarrow> bool) \<Rightarrow> entry \<Rightarrow> unit result" where
  "validate_corrected_storage c storable e =
     bindE (stored_decimal_of c (quantized 8 (dmul c (gross c e) (e_fx e)))
        ''corrected stored base value'' False True) (\<lambda>projected_base.
     validate_storage storable
       [(''corrected quantity'', e_quantity e), (''corrected price'', e_price e),
        (''corrected fee'', e_fee e), (''corrected commission'', e_commission e),
        (''corrected tax'', e_tax e), (''corrected multiplier'', e_multiplier e),
        (''corrected gross amount'', gross c e), (''corrected transaction FX'', e_fx e),
        (''corrected stored base value'', projected_base)])"

section \<open>Amending an entry\<close>

definition unset :: "changes \<Rightarrow> bool" where
  "unset ch \<longleftrightarrow> ch = no_changes"

definition clears_field :: "changes \<Rightarrow> bool" where
  "clears_field ch \<longleftrightarrow> ch_trade_date ch = Some None \<or> ch_settle_date ch = Some None \<or>
     ch_quantity ch = Some None \<or> ch_price ch = Some None \<or> ch_amount ch = Some None \<or>
     ch_fee ch = Some None \<or> ch_commission ch = Some None \<or> ch_tax ch = Some None \<or>
     ch_fx ch = Some None"

definition changed :: "'a option option \<Rightarrow> 'a \<Rightarrow> 'a" where
  "changed v old = (case v of Some (Some x) \<Rightarrow> x | _ \<Rightarrow> old)"

definition replaced :: "changes \<Rightarrow> entry \<Rightarrow> entry" where
  "replaced ch e =
     e\<lparr>e_day := changed (ch_trade_date ch) (e_day e),
       e_settle_date := (case ch_settle_date ch of Some (Some d) \<Rightarrow> Some d | _ \<Rightarrow> e_settle_date e),
       e_quantity := changed (ch_quantity ch) (e_quantity e),
       e_price := changed (ch_price ch) (e_price e),
       e_amount := changed (ch_amount ch) (e_amount e),
       e_fee := changed (ch_fee ch) (e_fee e),
       e_commission := changed (ch_commission ch) (e_commission e),
       e_tax := changed (ch_tax ch) (e_tax e), e_fx := changed (ch_fx ch) (e_fx e)\<rparr>"

text \<open>The metadata of an entry whose recorded exchange rate is corrected.\<close>

definition corrected_fx_metadata ::
  "(rat \<Rightarrow> string) \<Rightarrow> string \<Rightarrow> entry \<Rightarrow> entry \<Rightarrow> pyval dict" where
  "corrected_fx_metadata text reason old new =
     AList.update ''fx_correction''
       (VDict [(''previous_rate'', VStr (text (e_fx old))), (''recorded_rate'', VStr (text (e_fx new))),
               (''reason'', VStr reason)])
       (AList.update ''fx_source'' (VStr ''AUDITED MANUAL CORRECTION'')
         (AList.delete ''fx_recording'' (e_metadata new)))"

text \<open>A trade whose amount was not corrected takes the amount of its quantity and price.\<close>

definition with_amount :: "ctx \<Rightarrow> changes \<Rightarrow> entry \<Rightarrow> entry" where
  "with_amount c ch e =
     (if e_kind e \<in> set SECURITY_MOVEMENTS \<and> has_instrument e \<and> ch_amount ch = None
      then e\<lparr>e_amount := notional c e\<rparr> else e)"

definition check_amended :: "ctx \<Rightarrow> entry \<Rightarrow> unit result" where
  "check_amended c e =
     bindE (stored_decimal_of c (gross c e) ''corrected gross amount'' False True) (\<lambda>_. validate c e)"

definition with_fx_evidence :: "revision_env \<Rightarrow> string \<Rightarrow> entry \<Rightarrow> entry \<Rightarrow> entry" where
  "with_fx_evidence env reason old new =
     (if e_fx new \<noteq> e_fx old
      then new\<lparr>e_metadata := corrected_fx_metadata (en_decimal_text env) reason old new\<rparr> else new)"

definition amend ::
  "ctx \<Rightarrow> revision_env \<Rightarrow> entry \<Rightarrow> string \<Rightarrow> changes \<Rightarrow> string option \<Rightarrow>
   (entry \<times> string option) result" where
  "amend c env e reason ch notes =
     bindE (ensure (\<not> unset ch) (ValueError ''Correction requires at least one changed field'')) (\<lambda>_.
     bindE (ensure (\<not> clears_field ch) (ValueError ''Accounting fields cannot be cleared'')) (\<lambda>_.
     bindE (ensure (e_day (replaced ch e) \<le> en_today env)
        (ValueError ''Future-dated corrections are not accepted'')) (\<lambda>_.
     bindE (check_amended c (with_amount c ch (replaced ch e))) (\<lambda>_.
     Inr (with_fx_evidence env reason e (with_amount c ch (replaced ch e)),
          case ch_notes ch of Some n \<Rightarrow> n | None \<Rightarrow> notes)))))"

section \<open>Revising a transaction\<close>

record revision_receipt =
  rr_transaction_id :: string
  rr_revision_id :: string
  rr_audit_version :: int
  rr_ledger_state :: ledger_state

text \<open>What a revision would make of the ledger: the entries to replay and the state afterwards.\<close>

definition amended_ledger ::
  "ctx \<Rightarrow> revision_env \<Rightarrow> ledger_db \<Rightarrow> string \<Rightarrow> entry list \<Rightarrow> entry \<Rightarrow> string \<Rightarrow> changes \<Rightarrow>
   string option \<Rightarrow> (entry list \<times> snapshot option) result" where
  "amended_ledger c env db portfolio_id entries e reason ch notes =
     bindE (amend c env e reason ch notes) (\<lambda>(updated, notes').
     bindE (validate_corrected_storage c (en_storable env) updated) (\<lambda>_.
     bindE (ensure
        (case find (\<lambda>p. po_id p = portfolio_id) (db_portfolios db) of
           Some p \<Rightarrow> \<not> (e_currency updated = po_base_currency p \<and> e_fx updated \<noteq> 1)
         | None \<Rightarrow> True)
        (ValueError ''Base-currency transaction FX must equal one'')) (\<lambda>_.
     bindE (ensure (\<not> (updated = e \<and> notes' = notes))
        (ValueError ''Correction contains no effective change'')) (\<lambda>_.
     Inr (map (\<lambda>x. if e_id x = e_id e then updated else x) entries,
          Some \<lparr>sn_entry = updated, sn_notes = notes'\<rparr>)))))"

definition voided_ledger :: "entry list \<Rightarrow> string \<Rightarrow> (entry list \<times> snapshot option) result" where
  "voided_ledger entries transaction_id =
     (let candidate = filter (\<lambda>x. e_id x \<noteq> transaction_id) entries in
      if candidate = []
      then Inl (ValueError ''Cannot void the only ledger entry; archive the portfolio instead'')
      else Inr (candidate, None))"

definition revision_for ::
  "revision_env \<Rightarrow> string \<Rightarrow> string \<Rightarrow> revision_request \<Rightarrow> string option \<Rightarrow> snapshot \<Rightarrow>
   snapshot option \<Rightarrow> revision_row" where
  "revision_for env portfolio_id transaction_id rq actor prior after =
     \<lparr>rv_id = en_revision_id env, rv_created_at = en_now env, rv_portfolio_id = portfolio_id,
      rv_transaction_id = transaction_id, rv_version = rq_expected_version rq + 1,
      rv_action = (if rq_changes rq \<noteq> None then AMEND else VOID), rv_reason = rq_reason rq,
      rv_actor = actor, rv_before = prior, rv_after = after\<rparr>"

definition revision_audit ::
  "revision_env \<Rightarrow> string \<Rightarrow> revision_request \<Rightarrow> string option \<Rightarrow> audit_row" where
  "revision_audit env transaction_id rq actor =
     \<lparr>au_id = en_audit_id env, au_created_at = en_now env,
      au_action = ''LEDGER_TRANSACTION_'' @ (if rq_changes rq \<noteq> None then ''AMEND'' else ''VOID''),
      au_resource_type = ''portfolio_transaction'', au_resource_id = transaction_id,
      au_actor = actor\<rparr>"

definition found :: "py_error \<Rightarrow> 'a option \<Rightarrow> 'a result" where
  "found e x = (case x of None \<Rightarrow> Inl e | Some v \<Rightarrow> Inr v)"

text \<open>The replay every candidate ledger must pass.\<close>

definition accepts ::
  "ctx \<Rightarrow> revision_env \<Rightarrow> profile_row \<Rightarrow> entry list \<Rightarrow> unit result" where
  "accepts c env profile candidate =
     bindE (from_config (pr_configuration profile)) (\<lambda>policy.
     bindE (replay c (en_lot_id env) (new_ledger policy) (sort_key e_day candidate)) (\<lambda>_. Inr ()))"

definition revise ::
  "ctx \<Rightarrow> revision_env \<Rightarrow> ledger_db \<Rightarrow> string \<Rightarrow> string \<Rightarrow> revision_request \<Rightarrow> string option \<Rightarrow>
   (revision_receipt \<times> ledger_db) result" where
  "revise c env db portfolio_id transaction_id rq actor =
     bindE (ensure (\<exists>t \<in> set (db_transactions db). tr_id t = transaction_id \<and> tr_portfolio_id t = portfolio_id)
        (ValueError ''Transaction does not belong to portfolio'')) (\<lambda>_.
     bindE (found (ValueError ''Portfolio is not enabled for audited accounting'')
        (find (\<lambda>p. pr_portfolio_id p = portfolio_id) (db_profiles db))) (\<lambda>profile.
     bindE (load_entries c (en_timestamps env) (en_now env) db portfolio_id) (\<lambda>(entries, payloads).
     bindE (found StopIteration (find (\<lambda>p. tx_id p = transaction_id) payloads)) (\<lambda>payload.
     bindE (ensure (tx_audit_version payload = rq_expected_version rq)
        (RevisionConflict ''Transaction changed; reload its current audit version'')) (\<lambda>_.
     bindE (ensure (tx_ledger_state payload \<noteq> VOIDED)
        (RevisionConflict ''Voided transactions cannot be revised; record a new transaction'')) (\<lambda>_.
     bindE (found StopIteration (find (\<lambda>e. e_id e = transaction_id) entries)) (\<lambda>e.
     bindE (case rq_changes rq of
          Some ch \<Rightarrow> amended_ledger c env db portfolio_id entries e (rq_reason rq) ch (tx_notes payload)
        | None \<Rightarrow> voided_ledger entries transaction_id) (\<lambda>(candidate, after).
     bindE (accepts c env profile candidate) (\<lambda>_.
     let r = revision_for env portfolio_id transaction_id rq actor
               \<lparr>sn_entry = e, sn_notes = tx_notes payload\<rparr> after
     in Inr (\<lparr>rr_transaction_id = transaction_id, rr_revision_id = rv_id r,
              rr_audit_version = rv_version r,
              rr_ledger_state = (if rv_action r = VOID then VOIDED else ACTIVE)\<rparr>,
             db\<lparr>db_revisions := db_revisions db @ [r],
                db_audit := db_audit db @ [revision_audit env transaction_id rq actor]\<rparr>))))))))))"

definition history :: "ledger_db \<Rightarrow> string \<Rightarrow> string \<Rightarrow> revision_row list" where
  "history db portfolio_id transaction_id =
     filter (\<lambda>r. rv_transaction_id r = transaction_id) (revisions_of db portfolio_id)"

end
