(* ===== verification/Revision_Order.thy ===== *)
theory Revision_Order
  imports Revisions
begin

text \<open>
  The order in which a revision is validated and the order in which the ledger is then replayed.
  \<open>revise\<close> replaces the entry inside the entries in force, which are sorted by their current
  dates, and sorts again; \<open>load_entries\<close> starts from the original recording order and sorts by the
  current dates. Entries of one day can therefore be validated in one order and replayed in the
  other. The example is a ledger of four transactions and three accepted revisions; its replay fails
  from the corrected day on, and goes through up to any earlier day.
\<close>

definition order_row :: "string \<Rightarrow> string \<Rightarrow> date \<Rightarrow> rat \<Rightarrow> rat \<Rightarrow> string option \<Rightarrow> transaction_row" where
  "order_row i k d q p instrument =
     \<lparr>tr_id = i, tr_created_at = d, tr_updated_at = d, tr_portfolio_id = ''P'', tr_account_id = None,
      tr_instrument_id = instrument, tr_kind = k, tr_trade_date = d, tr_settle_date = None,
      tr_quantity = q, tr_price = p, tr_currency = ''USD'', tr_fx = 1, tr_fee = 0,
      tr_source = ''MANUAL'', tr_quality = ''INTERNAL LEDGER'', tr_notes = None\<rparr>"

text \<open>A deposit, a purchase, a split of the purchased shares two for one, and a second purchase.\<close>

definition order_db :: "revision_row list \<Rightarrow> audit_row list \<Rightarrow> ledger_db" where
  "order_db revisions audit =
     \<lparr>db_portfolios = [\<lparr>po_id = ''P'', po_name = ''P'', po_base_currency = ''USD'',
        po_reference_capital = 1000, po_is_default = True\<rparr>],
      db_profiles = [\<lparr>pr_portfolio_id = ''P'', pr_code = ''P'', pr_is_demo = False,
        pr_configuration = []\<rparr>],
      db_transactions =
        [order_row ''cash'' ''DEPOSIT'' 1 1 1000 None, order_row ''first'' ''BUY'' 2 10 10 (Some ''X''),
         order_row ''split'' ''SPLIT'' 3 2 0 (Some ''X''), order_row ''second'' ''BUY'' 4 10 10 (Some ''X'')],
      db_details =
        [\<lparr>td_transaction_id = ''cash'', td_gross_amount = 1000, td_commission = 0, td_tax = 0,
          td_multiplier = 1, td_base_value = 1000, td_external_key = None, td_source_file_id = None,
          td_reconciliation_state = ''INTERNAL_ONLY'', td_metadata = []\<rparr>],
      db_revisions = revisions, db_audit = audit, db_symbols = []\<rparr>"

definition order_env :: "string \<Rightarrow> revision_env" where
  "order_env i = \<lparr>en_now = 9, en_timestamps = unary_timestamps, en_today = 9, en_revision_id = i,
     en_audit_id = i, en_storable = (\<lambda>_. True), en_decimal_text = (\<lambda>_. []), en_lot_id = (\<lambda>s. s)\<rparr>"

definition redate :: "date \<Rightarrow> revision_request" where
  "redate d = \<lparr>rq_expected_version = 1, rq_reason = ''wrong trade date'',
     rq_changes = Some (no_changes\<lparr>ch_trade_date := Some (Some d)\<rparr>)\<rparr>"

definition void_request :: revision_request where
  "void_request = \<lparr>rq_expected_version = 1, rq_reason = ''recorded twice'', rq_changes = None\<rparr>"

definition order_entry :: "string \<Rightarrow> date \<Rightarrow> txn_kind \<Rightarrow> entry" where
  "order_entry i d k =
     (if k = SPLIT then (new_entry i d k ''USD'')\<lparr>e_quantity := 2, e_instrument_id := Some ''X''\<rparr>
      else (new_entry i d k ''USD'')\<lparr>e_quantity := 10, e_price := 10, e_amount := 100,
        e_instrument_id := Some ''X''\<rparr>)"

definition order_audit :: "string \<Rightarrow> revision_request \<Rightarrow> audit_row" where
  "order_audit i rq = revision_audit (order_env i) i rq None"

text \<open>The split moves to day five, the first purchase is voided, the second moves to day five.\<close>

definition split_moved :: revision_row where
  "split_moved = revision_for (order_env ''split'') ''P'' ''split'' (redate 5) None
     \<lparr>sn_entry = order_entry ''split'' 3 SPLIT, sn_notes = None\<rparr>
     (Some \<lparr>sn_entry = order_entry ''split'' 5 SPLIT, sn_notes = None\<rparr>)"

definition first_voided :: revision_row where
  "first_voided = revision_for (order_env ''first'') ''P'' ''first'' void_request None
     \<lparr>sn_entry = order_entry ''first'' 2 BUY, sn_notes = None\<rparr> None"

definition second_moved :: revision_row where
  "second_moved = revision_for (order_env ''second'') ''P'' ''second'' (redate 5) None
     \<lparr>sn_entry = order_entry ''second'' 4 BUY, sn_notes = None\<rparr>
     (Some \<lparr>sn_entry = order_entry ''second'' 5 BUY, sn_notes = None\<rparr>)"

abbreviation revised_db :: "(revision_row \<times> string \<times> revision_request) list \<Rightarrow> ledger_db" where
  "revised_db rs \<equiv> order_db (map fst rs) (map (\<lambda>(_, i, rq). order_audit i rq) rs)"

section \<open>The three revisions are accepted\<close>

lemma load_split:
  "load_entries c ts now db pf = Inr (es, ps) \<longleftrightarrow>
     map_sum id fst (load_entries c ts now db pf) = Inr es \<and>
     map_sum id snd (load_entries c ts now db pf) = Inr ps"
  by (cases "load_entries c ts now db pf") auto

lemma reviseI:
  assumes "\<exists>t \<in> set (db_transactions db). tr_id t = i \<and> tr_portfolio_id t = pf"
    and "find (\<lambda>p. pr_portfolio_id p = pf) (db_profiles db) = Some profile"
    and "load_entries c (en_timestamps env) (en_now env) db pf = Inr (es, ps)"
    and "map_option (\<lambda>p. (tx_audit_version p, tx_ledger_state p, tx_notes p))
           (find (\<lambda>p. tx_id p = i) ps) = Some (rq_expected_version rq, ACTIVE, notes)"
    and "find (\<lambda>e. e_id e = i) es = Some e"
    and "(case rq_changes rq of
            Some ch \<Rightarrow> amended_ledger c env db pf es e (rq_reason rq) ch notes
          | None \<Rightarrow> voided_ledger es i) = Inr (candidate, after)"
    and "accepts c env profile candidate = Inr ()"
  shows "map_sum id snd (revise c env db pf i rq actor) =
    Inr (db\<lparr>db_revisions := db_revisions db @
               [revision_for env pf i rq actor \<lparr>sn_entry = e, sn_notes = notes\<rparr> after],
            db_audit := db_audit db @ [revision_audit env i rq actor]\<rparr>)"
  using assms(1,2,3,5,6,7) assms(4)
  by (auto simp: revise_def found_def revision_for_def Let_def)

definition order_cash :: entry where
  "order_cash = (new_entry ''cash'' 1 DEPOSIT ''USD'')\<lparr>e_quantity := 1, e_price := 1000, e_amount := 1000\<rparr>"

definition order_loaded :: "(revision_row \<times> string \<times> revision_request) list \<Rightarrow> (entry list \<times> tx_payload list) result" where
  "order_loaded rs = load_entries (prec 28) unary_timestamps 9 (revised_db rs) ''P''"

definition order_payload ::
  "(revision_row \<times> string \<times> revision_request) list \<Rightarrow> string \<Rightarrow> (int \<times> ledger_state \<times> string option) option" where
  "order_payload rs i =
     map_option (\<lambda>p. (tx_audit_version p, tx_ledger_state p, tx_notes p))
       (find (\<lambda>p. tx_id p = i) (snd (projr (order_loaded rs))))"

definition order_profile :: profile_row where
  "order_profile = \<lparr>pr_portfolio_id = ''P'', pr_code = ''P'', pr_is_demo = False, pr_configuration = []\<rparr>"

lemma order_revision:
  assumes "map_sum id fst (order_loaded rs) = Inr es"
    and "order_payload rs i = Some (rq_expected_version rq, ACTIVE, None)"
    and "find (\<lambda>e. e_id e = i) es = Some e" "i \<in> {''cash'', ''first'', ''split'', ''second''}"
    and "(case rq_changes rq of
            Some ch \<Rightarrow> amended_ledger (prec 28) (order_env i) (revised_db rs) ''P'' es e (rq_reason rq) ch None
          | None \<Rightarrow> voided_ledger es i) = Inr (candidate, after)"
    and "accepts (prec 28) (order_env i) order_profile candidate = Inr ()"
  shows "map_sum id snd (revise (prec 28) (order_env i) (revised_db rs) ''P'' i rq None) =
    Inr (revised_db (rs @ [(revision_for (order_env i) ''P'' i rq None \<lparr>sn_entry = e, sn_notes = None\<rparr> after, i, rq)]))"
proof -
  obtain ps where l: "load_entries (prec 28) unary_timestamps 9 (revised_db rs) ''P'' = Inr (es, ps)"
    using assms(1) unfolding order_loaded_def
    by (cases "load_entries (prec 28) unary_timestamps 9 (revised_db rs) ''P''") auto
  have "map_sum id snd (revise (prec 28) (order_env i) (revised_db rs) ''P'' i rq None) =
    Inr ((revised_db rs)\<lparr>db_revisions := db_revisions (revised_db rs) @
        [revision_for (order_env i) ''P'' i rq None \<lparr>sn_entry = e, sn_notes = None\<rparr> after],
      db_audit := db_audit (revised_db rs) @ [revision_audit (order_env i) i rq None]\<rparr>)"
  proof (rule reviseI [OF _ _ _ _ assms(3,5,6)])
    show "\<exists>t \<in> set (db_transactions (revised_db rs)). tr_id t = i \<and> tr_portfolio_id t = ''P''"
      using assms(4) by (auto simp: order_db_def order_row_def)
    show "find (\<lambda>p. pr_portfolio_id p = ''P'') (db_profiles (revised_db rs)) = Some order_profile"
      by (simp add: order_db_def order_profile_def)
    show "load_entries (prec 28) (en_timestamps (order_env i)) (en_now (order_env i)) (revised_db rs) ''P'' = Inr (es, ps)"
      using l by (simp add: order_env_def)
    show "map_option (\<lambda>p. (tx_audit_version p, tx_ledger_state p, tx_notes p))
        (find (\<lambda>p. tx_id p = i) ps) = Some (rq_expected_version rq, ACTIVE, None)"
      using assms(2) l by (simp add: order_payload_def order_loaded_def)
  qed
  then show ?thesis by (simp add: order_db_def order_audit_def)
qed

lemma loaded_1:
  "map_sum id fst (order_loaded []) = Inr [order_cash, order_entry ''first'' 2 BUY,
     order_entry ''split'' 3 SPLIT, order_entry ''second'' 4 BUY]"
  by code_simp

lemma payload_1: "order_payload [] ''split'' = Some (1, ACTIVE, None)"
  by code_simp

lemma loaded_2:
  "map_sum id fst (order_loaded [(split_moved, ''split'', redate 5)]) = Inr [order_cash,
     order_entry ''first'' 2 BUY, order_entry ''second'' 4 BUY, order_entry ''split'' 5 SPLIT]"
  by code_simp

lemma payload_2: "order_payload [(split_moved, ''split'', redate 5)] ''first'' = Some (1, ACTIVE, None)"
  by code_simp

abbreviation two_revisions :: "(revision_row \<times> string \<times> revision_request) list" where
  "two_revisions \<equiv> [(split_moved, ''split'', redate 5), (first_voided, ''first'', void_request)]"

abbreviation three_revisions :: "(revision_row \<times> string \<times> revision_request) list" where
  "three_revisions \<equiv> two_revisions @ [(second_moved, ''second'', redate 5)]"

lemma loaded_3:
  "map_sum id fst (order_loaded two_revisions) = Inr [order_cash, order_entry ''second'' 4 BUY,
     order_entry ''split'' 5 SPLIT]"
  by code_simp

lemma payload_3: "order_payload two_revisions ''second'' = Some (1, ACTIVE, None)"
  by code_simp

lemma loaded_4:
  "map_sum id fst (order_loaded three_revisions) = Inr [order_cash, order_entry ''split'' 5 SPLIT,
     order_entry ''second'' 5 BUY]"
  by code_simp

lemma order_amended:
  assumes "amend (prec 28) (order_env i) e ''wrong trade date'' (no_changes\<lparr>ch_trade_date := Some (Some 5)\<rparr>) None = Inr (e', None)"
    and "validate_corrected_storage (prec 28) (\<lambda>_. True) e' = Inr ()"
    and "e_fx e' = 1" "e' \<noteq> e"
  shows "(case rq_changes (redate 5) of
      Some ch \<Rightarrow> amended_ledger (prec 28) (order_env i) (revised_db rs) ''P'' es e (rq_reason (redate 5)) ch None
    | None \<Rightarrow> voided_ledger es i) =
    Inr (map (\<lambda>x. if e_id x = e_id e then e' else x) es, Some \<lparr>sn_entry = e', sn_notes = None\<rparr>)"
  using assms by (simp add: redate_def amended_ledger_def order_db_def order_env_def)

lemma split_amended:
  "amend (prec 28) (order_env ''split'') (order_entry ''split'' 3 SPLIT) ''wrong trade date''
     (no_changes\<lparr>ch_trade_date := Some (Some 5)\<rparr>) None = Inr (order_entry ''split'' 5 SPLIT, None)"
  by code_simp

lemma second_amended:
  "amend (prec 28) (order_env ''second'') (order_entry ''second'' 4 BUY) ''wrong trade date''
     (no_changes\<lparr>ch_trade_date := Some (Some 5)\<rparr>) None = Inr (order_entry ''second'' 5 BUY, None)"
  by code_simp

lemma storable_order_entry:
  "validate_corrected_storage (prec 28) (\<lambda>_. True) (order_entry ''split'' 5 SPLIT) = Inr ()"
  "validate_corrected_storage (prec 28) (\<lambda>_. True) (order_entry ''second'' 5 BUY) = Inr ()"
  by code_simp+

definition order_replay :: "entry list \<Rightarrow> unit result" where
  "order_replay es = map_sum id (\<lambda>_. ()) (replay (prec 28) (\<lambda>s. s) (new_ledger default_policy) es)"

lemma order_accepts: "accepts (prec 28) (order_env i) order_profile es = order_replay (sort_key e_day es)"
proof -
  have "from_config (pr_configuration order_profile) = Inr default_policy" by code_simp
  then show ?thesis
    by (cases "replay (prec 28) (\<lambda>s. s) (new_ledger default_policy) (sort_key e_day es)")
      (simp_all add: accepts_def order_env_def order_replay_def)
qed

lemma replayed_1: "order_replay (sort_key e_day
    [order_cash, order_entry ''first'' 2 BUY, order_entry ''split'' 5 SPLIT, order_entry ''second'' 4 BUY]) = Inr ()"
  by code_simp

lemma replayed_2: "order_replay (sort_key e_day
    [order_cash, order_entry ''second'' 4 BUY, order_entry ''split'' 5 SPLIT]) = Inr ()"
  by code_simp

lemma replayed_3: "order_replay (sort_key e_day
    [order_cash, order_entry ''second'' 5 BUY, order_entry ''split'' 5 SPLIT]) = Inr ()"
  by code_simp

lemma replayed_4: "order_replay [order_cash, order_entry ''split'' 5 SPLIT, order_entry ''second'' 5 BUY] =
    Inl (ValueError ''A split requires an existing position and positive ratio'')"
  by code_simp

lemma first_revision:
  "map_sum id snd (revise (prec 28) (order_env ''split'') (revised_db []) ''P'' ''split'' (redate 5) None) =
   Inr (revised_db [(split_moved, ''split'', redate 5)])"
proof -
  have "e_fx (order_entry ''split'' 5 SPLIT) = 1" "order_entry ''split'' 5 SPLIT \<noteq> order_entry ''split'' 3 SPLIT"
    by (simp_all add: order_entry_def new_entry_def)
  note a = order_amended [OF split_amended storable_order_entry(1) this, where rs = "[]" and
      es = "[order_cash, order_entry ''first'' 2 BUY, order_entry ''split'' 3 SPLIT, order_entry ''second'' 4 BUY]"]
  have find: "find (\<lambda>e. e_id e = ''split'') [order_cash, order_entry ''first'' 2 BUY,
      order_entry ''split'' 3 SPLIT, order_entry ''second'' 4 BUY] = Some (order_entry ''split'' 3 SPLIT)"
    and ids: "map (\<lambda>x. if e_id x = e_id (order_entry ''split'' 3 SPLIT) then order_entry ''split'' 5 SPLIT else x)
      [order_cash, order_entry ''first'' 2 BUY, order_entry ''split'' 3 SPLIT, order_entry ''second'' 4 BUY] =
      [order_cash, order_entry ''first'' 2 BUY, order_entry ''split'' 5 SPLIT, order_entry ''second'' 4 BUY]"
    by (simp_all add: order_cash_def order_entry_def new_entry_def)
  have "order_payload [] ''split'' = Some (rq_expected_version (redate 5), ACTIVE, None)"
    using payload_1 by (simp add: redate_def)
  from order_revision [OF loaded_1 this find _ a] replayed_1 show ?thesis
    unfolding ids order_accepts by (simp add: split_moved_def)
qed

lemma second_revision:
  "map_sum id snd (revise (prec 28) (order_env ''first'') (revised_db [(split_moved, ''split'', redate 5)])
     ''P'' ''first'' void_request None) = Inr (revised_db two_revisions)"
proof -
  let ?es = "[order_cash, order_entry ''first'' 2 BUY, order_entry ''second'' 4 BUY, order_entry ''split'' 5 SPLIT]"
  have find: "find (\<lambda>e. e_id e = ''first'') ?es = Some (order_entry ''first'' 2 BUY)"
    and v: "(case rq_changes void_request of
        Some ch \<Rightarrow> amended_ledger (prec 28) (order_env ''first'') (revised_db [(split_moved, ''split'', redate 5)]) ''P''
          ?es (order_entry ''first'' 2 BUY) (rq_reason void_request) ch None
      | None \<Rightarrow> voided_ledger ?es ''first'') =
      Inr ([order_cash, order_entry ''second'' 4 BUY, order_entry ''split'' 5 SPLIT], None)"
    by (simp_all add: order_cash_def order_entry_def new_entry_def void_request_def voided_ledger_def)
  have "order_payload [(split_moved, ''split'', redate 5)] ''first'' =
      Some (rq_expected_version void_request, ACTIVE, None)"
    using payload_2 by (simp add: void_request_def)
  from order_revision [OF loaded_2 this find _ v] replayed_2 show ?thesis
    unfolding order_accepts by (simp add: first_voided_def)
qed

lemma third_revision:
  "map_sum id snd (revise (prec 28) (order_env ''second'') (revised_db two_revisions) ''P'' ''second'' (redate 5) None) =
   Inr (revised_db three_revisions)"
proof -
  let ?es = "[order_cash, order_entry ''second'' 4 BUY, order_entry ''split'' 5 SPLIT]"
  have "e_fx (order_entry ''second'' 5 BUY) = 1" "order_entry ''second'' 5 BUY \<noteq> order_entry ''second'' 4 BUY"
    by (simp_all add: order_entry_def new_entry_def)
  note a = order_amended [OF second_amended storable_order_entry(2) this, where rs = two_revisions and es = ?es]
  have find: "find (\<lambda>e. e_id e = ''second'') ?es = Some (order_entry ''second'' 4 BUY)"
    and ids: "map (\<lambda>x. if e_id x = e_id (order_entry ''second'' 4 BUY) then order_entry ''second'' 5 BUY else x)
      ?es = [order_cash, order_entry ''second'' 5 BUY, order_entry ''split'' 5 SPLIT]"
    by (simp_all add: order_cash_def order_entry_def new_entry_def)
  have "order_payload two_revisions ''second'' = Some (rq_expected_version (redate 5), ACTIVE, None)"
    using payload_3 by (simp add: redate_def)
  from order_revision [OF loaded_3 this find _ a] replayed_3 show ?thesis
    unfolding ids order_accepts by (simp add: second_moved_def)
qed

section \<open>The ledger they leave\<close>

lemma replayed_until_4: "order_replay [order_cash] = Inr ()" by code_simp

text \<open>The entries up to a day, which a valuation to that day replays.\<close>

definition order_entries_to :: "date \<Rightarrow> entry list" where
  "order_entries_to final =
     filter (\<lambda>e. e_day e \<le> final) [order_cash, order_entry ''split'' 5 SPLIT, order_entry ''second'' 5 BUY]"

lemma order_days [simp]:
  "e_day order_cash = 1" "e_day (order_entry ''split'' 5 SPLIT) = 5" "e_day (order_entry ''second'' 5 BUY) = 5"
  by (simp_all add: order_cash_def order_entry_def new_entry_def)

lemma order_replayed_to:
  "order_replay (order_entries_to final) =
     (if final < 5 then Inr () else Inl (ValueError ''A split requires an existing position and positive ratio''))"
proof -
  have "order_replay [] = Inr ()" by (simp add: order_replay_def replay_def)
  moreover have "order_entries_to final = (if final < 1 then [] else if final < 5 then [order_cash]
      else [order_cash, order_entry ''split'' 5 SPLIT, order_entry ''second'' 5 BUY])"
    by (simp add: order_entries_to_def)
  ultimately show ?thesis by (simp add: replayed_until_4 replayed_4)
qed

text \<open>C23: an accepted correction can leave a ledger that no longer replays. Three revisions, each
  validated by a full replay, are accepted one after the other. The entries in force afterwards
  are then loaded in an order in which the split precedes the only purchase left. Replaying those
  dated up to any given day succeeds for every day before the revised date of the two, and is
  refused for that day and every later one.\<close>

theorem accepted_revision_breaks_replay:
  "bindE (map_sum id snd (revise (prec 28) (order_env ''split'') (revised_db []) ''P'' ''split'' (redate 5) None)) (\<lambda>db.
   bindE (map_sum id snd (revise (prec 28) (order_env ''first'') db ''P'' ''first'' void_request None)) (\<lambda>db.
   bindE (map_sum id snd (revise (prec 28) (order_env ''second'') db ''P'' ''second'' (redate 5) None)) Inr)) =
   Inr (revised_db three_revisions) \<and>
   bindE (map_sum id fst (load_entries (prec 28) unary_timestamps 9 (revised_db three_revisions) ''P'')) (\<lambda>es.
     map_sum id (\<lambda>_. ())
       (replay (prec 28) (\<lambda>s. s) (new_ledger default_policy) (filter (\<lambda>e. e_day e \<le> final) es))) =
   (if final < 5 then Inr () else Inl (ValueError ''A split requires an existing position and positive ratio''))"
  using loaded_4 order_replayed_to [of final]
  by (simp add: first_revision second_revision third_revision order_loaded_def order_replay_def order_entries_to_def
      del: map_map list.map filter.simps)

end
