(* ===== verification/Revision_Facts.thy ===== *)
theory Revision_Facts
  imports Revision_Order
begin

text \<open>
  The revision history as a state machine: a step is an accepted \<open>revise\<close> of any transaction by
  any caller at any time. The invariant is that the revisions of a transaction are numbered
  without gaps from two, form a chain of snapshots and end with the first void.
\<close>

inductive revision_step :: "ctx \<Rightarrow> ledger_db \<Rightarrow> ledger_db \<Rightarrow> bool" for c where
  revise: "revise c env db portfolio_id transaction_id rq actor = Inr (receipt, db') \<Longrightarrow>
    revision_step c db db'"

inductive_cases revision_stepE: "revision_step c db db'"

section \<open>Lists and loading\<close>

lemma mapE_Inr_iff: "mapE f xs = Inr ys \<longleftrightarrow> list_all2 (\<lambda>x y. f x = Inr y) xs ys"
  by (induction xs arbitrary: ys) (auto simp: result_simps list_all2_Cons1)

lemma sort_key_sorted: "sorted (map f xs) \<Longrightarrow> sort_key f xs = xs"
  by (induction xs) (auto simp: insort_is_Cons)

definition numbered :: "revision_row list \<Rightarrow> bool" where
  "numbered h \<longleftrightarrow> map rv_version h = map (\<lambda>k. int k + 2) [0..<length h]"

lemma numbered_snoc: "numbered (h @ [r]) \<longleftrightarrow> numbered h \<and> rv_version r = int (length h) + 2"
  by (auto simp: numbered_def)

lemma numbered_sorted: "numbered h \<Longrightarrow> sort_key rv_version h = h"
  by (rule sort_key_sorted) (simp add: numbered_def sorted_map sorted_wrt_map strict_sorted_imp_sorted
      sorted_wrt_mono_rel [OF _ sorted_wrt_upt])

lemma numbered_last: "numbered h \<Longrightarrow> h \<noteq> [] \<Longrightarrow> rv_version (last h) = int (length h) + 1"
  by (cases h rule: rev_cases) (auto simp: numbered_snoc)

definition chained :: "revision_row list \<Rightarrow> bool" where
  "chained h \<longleftrightarrow> (\<forall>r \<in> set (butlast h). rv_action r = AMEND) \<and>
     (\<forall>k. Suc k < length h \<longrightarrow> rv_after (h ! k) = Some (rv_before (h ! Suc k)))"

lemma chained_snoc:
  assumes "chained h" "h \<noteq> [] \<longrightarrow> rv_action (last h) = AMEND \<and> rv_after (last h) = Some (rv_before r)"
  shows "chained (h @ [r])"
proof -
  have "rv_after ((h @ [r]) ! k) = Some (rv_before ((h @ [r]) ! Suc k))" if "Suc k < length (h @ [r])" for k
  proof (cases "Suc k < length h")
    case True
    with assms(1) show ?thesis by (simp add: chained_def nth_append)
  next
    case False
    with that have k: "Suc k = length h" by simp
    then have "h \<noteq> []" "h ! k = last h" by (cases h rule: rev_cases; auto simp: nth_append)+
    with assms(2) k show ?thesis by (simp add: nth_append)
  qed
  moreover have "rv_action x = AMEND" if "x \<in> set h" for x
    using that assms by (cases h rule: rev_cases) (auto simp: chained_def)
  ultimately show ?thesis by (simp add: chained_def)
qed

text \<open>The revisions of a transaction, in the order they were appended.\<close>

definition appended :: "ledger_db \<Rightarrow> string \<Rightarrow> revision_row list" where
  "appended db i = filter (\<lambda>r. rv_transaction_id r = i) (db_revisions db)"

definition revision_ok :: "ledger_db \<Rightarrow> revision_row \<Rightarrow> bool" where
  "revision_ok db r \<longleftrightarrow>
     e_id (sn_entry (rv_before r)) = rv_transaction_id r \<and>
     (rv_action r = AMEND \<longleftrightarrow> rv_after r \<noteq> None) \<and>
     (\<forall>s. rv_after r = Some s \<longrightarrow> e_id (sn_entry s) = rv_transaction_id r) \<and>
     (\<forall>t \<in> set (db_transactions db).
        tr_id t = rv_transaction_id r \<longrightarrow> tr_portfolio_id t = rv_portfolio_id r)"

definition history_inv :: "ledger_db \<Rightarrow> bool" where
  "history_inv db \<longleftrightarrow>
     distinct (map tr_id (db_transactions db)) \<and>
     (\<forall>r \<in> set (db_revisions db). revision_ok db r) \<and>
     (\<forall>i. numbered (appended db i) \<and> chained (appended db i))"

lemma filter_portfolio:
  assumes "history_inv db" "t \<in> set (db_transactions db)"
  shows "filter (\<lambda>r. rv_portfolio_id r = tr_portfolio_id t) (appended db (tr_id t)) = appended db (tr_id t)"
proof -
  have "rv_portfolio_id r = tr_portfolio_id t" if "r \<in> set (appended db (tr_id t))" for r
    using assms that by (auto simp: history_inv_def revision_ok_def appended_def)
  then show ?thesis by (simp add: filter_id_conv)
qed

lemma history_appended:
  assumes "history_inv db" "t \<in> set (db_transactions db)"
  shows "history db (tr_portfolio_id t) (tr_id t) = appended db (tr_id t)"
proof -
  have "history db (tr_portfolio_id t) (tr_id t) = sort_key rv_version
      (filter (\<lambda>r. rv_portfolio_id r = tr_portfolio_id t) (appended db (tr_id t)))"
    by (simp add: history_def revisions_of_def appended_def filter_sort conj_commute)
  also have "\<dots> = appended db (tr_id t)"
    using assms filter_portfolio [OF assms] numbered_sorted by (simp add: history_inv_def)
  finally show ?thesis .
qed

lemma latest_history:
  "latest_revision (revisions_of db pf) i =
     (if history db pf i = [] then None else Some (last (history db pf i)))"
  by (auto simp: latest_revision_def history_def split: list.splits)

section \<open>What a load shows of one transaction\<close>

lemma entry_payload_keeps [simp]:
  "tx_id (entry_payload c e p) = tx_id p" "tx_audit_version (entry_payload c e p) = tx_audit_version p"
  "tx_ledger_state (entry_payload c e p) = tx_ledger_state p"
  by (simp_all add: entry_payload_def)

lemma apply_revision_shows:
  assumes "apply_revision c rows (e0, p0) = Inr (e, p)"
  shows "tx_id p = tx_id p0"
    "latest_revision rows (e_id e0) = None \<Longrightarrow> e = e0 \<and> tx_audit_version p = 1 \<and> tx_ledger_state p = ACTIVE"
    "latest_revision rows (e_id e0) = Some r \<Longrightarrow>
       in_force r = Inr \<lparr>sn_entry = e, sn_notes = tx_notes p\<rparr> \<and> tx_audit_version p = rv_version r \<and>
       (tx_ledger_state p = ACTIVE \<longleftrightarrow> rv_action r = AMEND)"
proof -
  show "tx_id p = tx_id p0"
    using assms by (auto simp: apply_revision_def revised_def result_simps Let_def split: option.splits)
  show "latest_revision rows (e_id e0) = None \<Longrightarrow> e = e0 \<and> tx_audit_version p = 1 \<and> tx_ledger_state p = ACTIVE"
    using assms by (auto simp: apply_revision_def)
  show "latest_revision rows (e_id e0) = Some r \<Longrightarrow>
       in_force r = Inr \<lparr>sn_entry = e, sn_notes = tx_notes p\<rparr> \<and> tx_audit_version p = rv_version r \<and>
       (tx_ledger_state p = ACTIVE \<longleftrightarrow> rv_action r = AMEND)"
    using assms by (cases "rv_action r") (auto simp: apply_revision_def revised_def result_simps Let_def)
qed

lemma row_entry_id: "row_entry c r = Inr e \<Longrightarrow> e_id e = tr_id (fst r)"
  by (auto simp: row_entry_def result_simps Let_def)

lemma find_Some_in: "find P xs = Some x \<Longrightarrow> x \<in> set xs \<and> P x"
  by (induction xs) (auto split: if_splits)

text \<open>A load pairs every row with the entry and the payload it became.\<close>

lemma loaded_pairs:
  assumes "load_entries c ts now db pf = Inr (es, ps)"
  obtains eps where "ps = map snd eps"
    "set es = fst ` {ep \<in> set eps. tx_ledger_state (snd ep) = ACTIVE}"
    "map (tx_id \<circ> snd) eps = map (tr_id \<circ> fst) (ledger_rows db pf)"
    "\<forall>ep \<in> set eps. \<exists>e0 p0. e_id e0 = tx_id p0 \<and> apply_revision c (revisions_of db pf) (e0, p0) = Inr ep"
proof -
  let ?rows = "ledger_rows db pf"
  from assms obtain es0 eps where es0: "mapE (row_entry c) ?rows = Inr es0"
    and eps: "mapE (apply_revision c (revisions_of db pf)) (zip es0 (map (row_payload c ts now db) ?rows)) = Inr eps"
    and out: "es = sort_key e_day (map fst (filter (\<lambda>ep. tx_ledger_state (snd ep) = ACTIVE) eps))" "ps = map snd eps"
    by (auto simp: load_entries_def apply_revisions_def result_simps Let_def)
  have es0: "list_all2 (\<lambda>r e. row_entry c r = Inr e) ?rows es0" using es0 by (simp add: mapE_Inr_iff)
  have len: "length es0 = length ?rows" "length eps = length ?rows"
    using es0 mapE_Inr_length [OF eps] by (auto dest: list_all2_lengthD)
  have nth: "e_id (es0 ! k) = tr_id (fst (?rows ! k))" if "k < length ?rows" for k
    using es0 that row_entry_id [of c "?rows ! k" "es0 ! k"] by (simp add: list_all2_conv_all_nth)
  have rev: "apply_revision c (revisions_of db pf) (es0 ! k, row_payload c ts now db (?rows ! k)) = Inr (eps ! k)"
    if "k < length ?rows" for k
    using eps that len by (auto simp: mapE_Inr_iff list_all2_conv_all_nth)
  have pid: "tx_id (row_payload c ts now db r) = tr_id (fst r)" for r
    by (simp add: row_payload_def Let_def)
  have src: "\<exists>e0 p0. e_id e0 = tx_id p0 \<and> apply_revision c (revisions_of db pf) (e0, p0) = Inr ep"
    if "ep \<in> set eps" for ep
  proof -
    from that len obtain k where k: "k < length ?rows" "ep = eps ! k" by (metis in_set_conv_nth)
    show ?thesis
      by (rule exI [of _ "es0 ! k"], rule exI [of _ "row_payload c ts now db (?rows ! k)"])
        (use nth [OF k(1)] rev [OF k(1)] k(2) pid in simp)
  qed
  have ids: "map (tx_id \<circ> snd) eps = map (tr_id \<circ> fst) ?rows"
  proof (rule nth_equalityI)
    fix k assume "k < length (map (tx_id \<circ> snd) eps)"
    then have k: "k < length ?rows" using len by simp
    with rev [OF k] len show "map (tx_id \<circ> snd) eps ! k = map (tr_id \<circ> fst) ?rows ! k"
      using apply_revision_shows(1) pid by (cases "eps ! k") auto
  qed (use len in simp)
  show thesis
  proof (rule that [OF out(2) _ ids])
    show "set es = fst ` {ep \<in> set eps. tx_ledger_state (snd ep) = ACTIVE}" by (simp add: out(1))
  qed (use src in blast)
qed

lemma ledger_rows_ids:
  "distinct (map tr_id (db_transactions db)) \<Longrightarrow> distinct (map (tr_id \<circ> fst) (ledger_rows db pf))"
proof -
  assume "distinct (map tr_id (db_transactions db))"
  then have "distinct (map tr_id (filter (\<lambda>t. tr_portfolio_id t = pf) (db_transactions db)))"
    by (rule distinct_map_filter)
  then show ?thesis by (simp add: ledger_rows_def comp_def distinct_map)
qed

lemma in_force_id:
  "revision_ok db r \<Longrightarrow> in_force r = Inr s \<Longrightarrow> e_id (sn_entry s) = rv_transaction_id r"
  by (cases "rv_action r") (auto simp: in_force_def revision_ok_def split: option.splits)

lemma latest_revision_in:
  "latest_revision rows i = Some r \<Longrightarrow> r \<in> set rows \<and> rv_transaction_id r = i"
proof -
  assume "latest_revision rows i = Some r"
  then have "filter (\<lambda>r. rv_transaction_id r = i) rows \<noteq> []"
    "r = last (filter (\<lambda>r. rv_transaction_id r = i) rows)"
    by (auto simp: latest_revision_def split: list.splits)
  then have "r \<in> set (filter (\<lambda>r. rv_transaction_id r = i) rows)" by (metis last_in_set)
  then show ?thesis by simp
qed

lemma load_shows:
  assumes inv: "history_inv db"
    and load: "load_entries c ts now db pf = Inr (es, ps)"
    and p: "find (\<lambda>p. tx_id p = i) ps = Some p" and e: "find (\<lambda>e. e_id e = i) es = Some e"
  shows "history db pf i = [] \<Longrightarrow> tx_audit_version p = 1"
    "history db pf i \<noteq> [] \<Longrightarrow> tx_audit_version p = rv_version (last (history db pf i)) \<and>
       rv_action (last (history db pf i)) = AMEND \<and>
       rv_after (last (history db pf i)) = Some \<lparr>sn_entry = e, sn_notes = tx_notes p\<rparr>"
proof -
  obtain eps where eps: "ps = map snd eps"
    "set es = fst ` {ep \<in> set eps. tx_ledger_state (snd ep) = ACTIVE}"
    "map (tx_id \<circ> snd) eps = map (tr_id \<circ> fst) (ledger_rows db pf)"
    "\<forall>ep \<in> set eps. \<exists>e0 p0. e_id e0 = tx_id p0 \<and> apply_revision c (revisions_of db pf) (e0, p0) = Inr ep"
    using loaded_pairs [OF load] by blast
  have same: "e_id (fst ep) = tx_id (snd ep)" if ep: "ep \<in> set eps" for ep
  proof -
    obtain e0 p0 where s: "e_id e0 = tx_id p0" "apply_revision c (revisions_of db pf) (e0, p0) = Inr (fst ep, snd ep)"
      using bspec [OF eps(4) ep] by auto
    note S = apply_revision_shows [OF s(2)]
    show ?thesis
    proof (cases "latest_revision (revisions_of db pf) (e_id e0)")
      case None
      with S s(1) show ?thesis by simp
    next
      case (Some r)
      then have "r \<in> set (db_revisions db)" "rv_transaction_id r = e_id e0"
        using latest_revision_in [OF Some] by (auto simp: revisions_of_def)
      with inv in_force_id S(1) S(3) [OF Some] s(1) show ?thesis by (fastforce simp: history_inv_def)
    qed
  qed
  from find_Some_in [OF p] eps(1) obtain e1 where 1: "(e1, p) \<in> set eps" "tx_id p = i" by auto
  from find_Some_in [OF e] eps(2) obtain p1 where 2: "(e, p1) \<in> set eps" "e_id e = i"
    "tx_ledger_state p1 = ACTIVE" by auto
  have "distinct (map (tx_id \<circ> snd) eps)"
    unfolding eps(3) using inv by (intro ledger_rows_ids) (simp add: history_inv_def)
  moreover have "(tx_id \<circ> snd) (e1, p) = (tx_id \<circ> snd) (e, p1)" using 1 2 same [of "(e, p1)"] by simp
  ultimately have "(e1, p) = (e, p1)" using 1 2 by (metis distinct_map inj_onD)
  with 1 2 have ep: "(e, p) \<in> set eps" "tx_ledger_state p = ACTIVE" by simp_all
  then obtain e0 p0 where s: "e_id e0 = tx_id p0" "apply_revision c (revisions_of db pf) (e0, p0) = Inr (e, p)"
    using eps(4) by blast
  note S = apply_revision_shows [OF s(2)]
  have "e_id e0 = i" using s(1) S(1) 1(2) by simp
  then show "history db pf i = [] \<Longrightarrow> tx_audit_version p = 1"
    using S(2) by (simp add: latest_history)
  show "history db pf i \<noteq> [] \<Longrightarrow> tx_audit_version p = rv_version (last (history db pf i)) \<and>
       rv_action (last (history db pf i)) = AMEND \<and>
       rv_after (last (history db pf i)) = Some \<lparr>sn_entry = e, sn_notes = tx_notes p\<rparr>"
    using S(3) [of "last (history db pf i)"] ep(2) \<open>e_id e0 = i\<close>
    by (auto simp: latest_history in_force_def split: option.splits)
qed

section \<open>The invariant\<close>

lemma amend_keeps_id: "amend c env e reason ch notes = Inr (e', notes') \<Longrightarrow> e_id e' = e_id e"
  by (auto simp: amend_def result_simps with_fx_evidence_def with_amount_def replaced_def)

lemma candidate_after:
  assumes "(case rq_changes rq of
      Some ch \<Rightarrow> amended_ledger c env db pf es e (rq_reason rq) ch notes
    | None \<Rightarrow> voided_ledger es i) = Inr (candidate, after)"
  shows "rq_changes rq \<noteq> None \<longleftrightarrow> after \<noteq> None" "\<And>s. after = Some s \<Longrightarrow> e_id (sn_entry s) = e_id e"
proof -
  have some: "amended_ledger c env db pf es e (rq_reason rq) ch notes = Inr (candidate, after)"
    if "rq_changes rq = Some ch" for ch
    using assms that by simp
  have none: "voided_ledger es i = Inr (candidate, after)" if "rq_changes rq = None"
    using assms that by simp
  show "rq_changes rq \<noteq> None \<longleftrightarrow> after \<noteq> None"
  proof (cases "rq_changes rq")
    case None
    from none [OF None] None show ?thesis by (simp add: voided_ledger_def Let_def split: if_splits)
  next
    case (Some ch)
    from some [OF Some] Some show ?thesis by (auto simp: amended_ledger_def result_simps)
  qed
  show "e_id (sn_entry s) = e_id e" if "after = Some s" for s
  proof (cases "rq_changes rq")
    case None
    from none [OF None] that show ?thesis by (simp add: voided_ledger_def Let_def split: if_splits)
  next
    case (Some ch)
    from some [OF Some] that show ?thesis
      using amend_keeps_id by (auto simp: amended_ledger_def result_simps)
  qed
qed

lemma found_Inr: "found err x = Inr v \<longleftrightarrow> x = Some v"
  by (simp add: found_def split: option.split)

text \<open>Inversion: what an accepted revision appended, and on what grounds.\<close>

lemma revise_cases:
  assumes "revise c env db pf i rq actor = Inr (receipt, db')"
  obtains t es ps p e after where
    "t \<in> set (db_transactions db)" "tr_id t = i" "tr_portfolio_id t = pf"
    "load_entries c (en_timestamps env) (en_now env) db pf = Inr (es, ps)"
    "find (\<lambda>p. tx_id p = i) ps = Some p" "find (\<lambda>e. e_id e = i) es = Some e"
    "tx_audit_version p = rq_expected_version rq"
    "rq_changes rq \<noteq> None \<longleftrightarrow> after \<noteq> None" "\<forall>s. after = Some s \<longrightarrow> e_id (sn_entry s) = i"
    "db_transactions db' = db_transactions db"
    "db_revisions db' = db_revisions db @
       [revision_for env pf i rq actor \<lparr>sn_entry = e, sn_notes = tx_notes p\<rparr> after]"
proof -
  from assms obtain t profile es ps p e candidate after where
    t: "t \<in> set (db_transactions db)" "tr_id t = i" "tr_portfolio_id t = pf"
    and load: "load_entries c (en_timestamps env) (en_now env) db pf = Inr (es, ps)"
    and p: "find (\<lambda>p. tx_id p = i) ps = Some p" and e: "find (\<lambda>e. e_id e = i) es = Some e"
    and v: "tx_audit_version p = rq_expected_version rq"
    and cand: "(case rq_changes rq of
          Some ch \<Rightarrow> amended_ledger c env db pf es e (rq_reason rq) ch (tx_notes p)
        | None \<Rightarrow> voided_ledger es i) = Inr (candidate, after)"
    and db': "db' = db\<lparr>db_revisions := db_revisions db @
         [revision_for env pf i rq actor \<lparr>sn_entry = e, sn_notes = tx_notes p\<rparr> after],
       db_audit := db_audit db @ [revision_audit env i rq actor]\<rparr>"
    by (fastforce simp: revise_def found_Inr result_simps Let_def)
  have "e_id e = i" using find_Some_in [OF e] by simp
  with candidate_after [OF cand] show thesis
    by (intro that [OF t load p e v]) (simp_all add: db')
qed

lemma history_inv_step:
  assumes "revision_step c db db'" "history_inv db"
  shows "history_inv db'"
  using assms
proof cases
  case (revise env pf i rq actor receipt)
  note inv = assms(2)
  from revise obtain t es ps p e after where
    t: "t \<in> set (db_transactions db)" "tr_id t = i" "tr_portfolio_id t = pf"
    and load: "load_entries c (en_timestamps env) (en_now env) db pf = Inr (es, ps)"
    and p: "find (\<lambda>p. tx_id p = i) ps = Some p" and e: "find (\<lambda>e. e_id e = i) es = Some e"
    and v: "tx_audit_version p = rq_expected_version rq"
    and after: "rq_changes rq \<noteq> None \<longleftrightarrow> after \<noteq> None" "\<forall>s. after = Some s \<longrightarrow> e_id (sn_entry s) = i"
    and db': "db_transactions db' = db_transactions db" "db_revisions db' = db_revisions db @
       [revision_for env pf i rq actor \<lparr>sn_entry = e, sn_notes = tx_notes p\<rparr> after]"
    by (elim revise_cases)
  define r where "r = revision_for env pf i rq actor \<lparr>sn_entry = e, sn_notes = tx_notes p\<rparr> after"
  have r: "rv_transaction_id r = i" "rv_portfolio_id r = pf" "rv_version r = rq_expected_version rq + 1"
    "rv_before r = \<lparr>sn_entry = e, sn_notes = tx_notes p\<rparr>" "rv_after r = after"
    "rv_action r = AMEND \<longleftrightarrow> after \<noteq> None"
    using after(1) by (auto simp: r_def revision_for_def)
  have d: "distinct (map tr_id (db_transactions db))" using inv by (simp add: history_inv_def)
  have hist: "history db pf i = appended db i" using history_appended [OF inv t(1)] t by simp
  have own: "tr_portfolio_id u = pf" if "u \<in> set (db_transactions db)" "tr_id u = i" for u
    using that t d by (metis distinct_map inj_onD)
  have ok: "revision_ok db' x" if "x \<in> set (db_revisions db')" for x
  proof (cases "x = r")
    case True
    with r after(2) find_Some_in [OF e] own show ?thesis by (auto simp: revision_ok_def db'(1))
  next
    case False
    with that inv show ?thesis by (auto simp: db'(2) r_def [symmetric] history_inv_def revision_ok_def db'(1))
  qed
  note shown = load_shows [OF inv load p e, unfolded hist]
  have old: "numbered (appended db i)" "chained (appended db i)" using inv by (simp_all add: history_inv_def)
  have version: "rv_version r = int (length (appended db i)) + 2"
    using shown numbered_last [OF old(1)] v r(3) by (cases "appended db i = []") auto
  have link: "appended db i \<noteq> [] \<longrightarrow> rv_action (last (appended db i)) = AMEND \<and>
      rv_after (last (appended db i)) = Some (rv_before r)"
    using shown(2) r(4) by simp
  have "numbered (appended db' j) \<and> chained (appended db' j)" for j
  proof (cases "j = i")
    case True
    have "appended db' i = appended db i @ [r]" by (simp add: appended_def db'(2) r_def [symmetric] r(1))
    with True old version chained_snoc [OF old(2) link] show ?thesis by (simp add: numbered_snoc)
  next
    case False
    then have "appended db' j = appended db j" by (simp add: appended_def db'(2) r_def [symmetric] r(1))
    with inv show ?thesis by (simp add: history_inv_def)
  qed
  with ok d show ?thesis by (simp add: history_inv_def db'(1))
qed

lemma history_inv_reachable:
  "(revision_step c)\<^sup>*\<^sup>* db db' \<Longrightarrow> history_inv db \<Longrightarrow> history_inv db'"
  by (induction rule: rtranclp_induct) (auto intro: history_inv_step)


lemma transactions_kept:
  "(revision_step c)\<^sup>*\<^sup>* db db' \<Longrightarrow> db_transactions db' = db_transactions db"
  by (induction rule: rtranclp_induct) (auto elim!: revision_stepE revise_cases)

lemma history_inv_initial:
  "distinct (map tr_id (db_transactions db)) \<Longrightarrow> db_revisions db = [] \<Longrightarrow> history_inv db"
  by (simp add: history_inv_def appended_def numbered_def chained_def)

text \<open>A step appends to the history of its own transaction and leaves the others alone.\<close>

lemma appended_step:
  assumes "revise c env db pf i rq actor = Inr (receipt, db')"
  shows "\<exists>r. appended db' i = appended db i @ [r] \<and> rv_version r = rq_expected_version rq + 1"
    "j \<noteq> i \<Longrightarrow> appended db' j = appended db j"
  using assms by (auto elim!: revise_cases simp: appended_def revision_for_def)

lemma appended_grows:
  "(revision_step c)\<^sup>*\<^sup>* db db' \<Longrightarrow> length (appended db i) \<le> length (appended db' i)"
proof (induction rule: rtranclp_induct)
  case (step db' db'')
  from step.hyps(2) have "length (appended db' i) \<le> length (appended db'' i)"
  proof cases
    case (revise env pf j rq actor receipt)
    then show ?thesis using appended_step [OF revise] by (cases "i = j") auto
  qed
  with step.IH show ?case by simp
qed simp

text \<open>The version a request must name is one more than the revisions so far.\<close>

lemma accepted_version:
  assumes "history_inv db" "revise c env db pf i rq actor = Inr (receipt, db')"
  shows "rq_expected_version rq = int (length (appended db i)) + 1"
proof -
  have "revision_step c db db'" using assms(2) by (rule revision_step.revise)
  with assms(1) have "numbered (appended db' i)" using history_inv_step by (auto simp: history_inv_def)
  with appended_step(1) [OF assms(2)] show ?thesis by (auto simp: numbered_snoc)
qed

section \<open>Properties\<close>

text \<open>C22: From a ledger without revisions, whatever sequence of amendments and voids is accepted, the
  history of every transaction is a chain: its versions are 2, 3, ... without a gap, only the last
  revision may be a void, and each revision starts from the snapshot the one before it left.\<close>

theorem revision_history_chain:
  assumes "(revision_step c)\<^sup>*\<^sup>* db db'" "distinct (map tr_id (db_transactions db))" "db_revisions db = []"
    and "t \<in> set (db_transactions db)" "h = history db' (tr_portfolio_id t) (tr_id t)"
  shows "map rv_version h = map (\<lambda>k. int k + 2) [0..<length h] \<and>
    (\<forall>r \<in> set (butlast h). rv_action r = AMEND) \<and>
    (\<forall>k. Suc k < length h \<longrightarrow> rv_after (h ! k) = Some (rv_before (h ! Suc k)))"
proof -
  have inv: "history_inv db'"
    using assms(1) history_inv_initial [OF assms(2,3)] by (rule history_inv_reachable)
  have "t \<in> set (db_transactions db')" using transactions_kept [OF assms(1)] assms(4) by simp
  from history_appended [OF inv this] assms(5) inv show ?thesis
    by (simp add: history_inv_def numbered_def chained_def)
qed

text \<open>The ledger of the three corrections: its split has been amended once.\<close>

lemma order_step:
  "map_sum id snd (revise c env db pf i rq actor) = Inr db' \<Longrightarrow> revision_step c db db'"
  by (cases "revise c env db pf i rq actor") (auto intro: revision_step.revise)

lemma order_steps: "(revision_step (prec 28))\<^sup>*\<^sup>* (revised_db []) (revised_db three_revisions)"
  using order_step [OF first_revision] order_step [OF second_revision] order_step [OF third_revision]
  by (meson rtranclp.intros)

lemma order_db_start:
  "distinct (map tr_id (db_transactions (revised_db [])))" "db_revisions (revised_db []) = []"
  by (simp_all add: order_db_def order_row_def)

lemma revision_history_chain_witness:
  "let h = history (revised_db three_revisions) ''P'' ''split''
   in map rv_version h = [2] \<and> h = [split_moved]"
proof -
  let ?h = "history (revised_db three_revisions) ''P'' ''split''"
  let ?t = "order_row ''split'' ''SPLIT'' 3 2 0 (Some ''X'')"
  have t: "?t \<in> set (db_transactions (revised_db []))" "?h = history (revised_db three_revisions) (tr_portfolio_id ?t) (tr_id ?t)"
    by (simp_all add: order_db_def order_row_def)
  have h: "?h = [split_moved]"
    by (simp add: history_def revisions_of_def order_db_def split_moved_def first_voided_def
        second_moved_def revision_for_def redate_def void_request_def)
  from revision_history_chain [OF order_steps order_db_start t] h show ?thesis
    by (simp add: upt_rec)
qed

text \<open>Optimistic concurrency. Once a revision naming a version of a transaction has been
  accepted, no later request naming the same version is ever accepted for that transaction, whatever
  happened in between: no update is lost.\<close>

theorem version_accepted_once:
  assumes "distinct (map tr_id (db_transactions db0))" "db_revisions db0 = []"
    and "(revision_step c)\<^sup>*\<^sup>* db0 db"
    and "revise c env db pf i rq actor = Inr (receipt, db1)" "(revision_step c)\<^sup>*\<^sup>* db1 db2"
    and "rq_expected_version rq' = rq_expected_version rq"
  shows "\<exists>e. revise c env' db2 pf' i rq' actor' = Inl e"
proof (cases "revise c env' db2 pf' i rq' actor'")
  case (Inr out)
  obtain receipt' db3 where out: "out = (receipt', db3)" by (cases out)
  have inv: "history_inv db"
    using assms(3) history_inv_initial [OF assms(1,2)] by (rule history_inv_reachable)
  moreover have "revision_step c db db1" using assms(4) by (rule revision_step.revise)
  ultimately have inv2: "history_inv db2"
    using history_inv_step history_inv_reachable [OF assms(5)] by blast
  have "length (appended db1 i) = Suc (length (appended db i))"
    using appended_step(1) [OF assms(4)] by auto
  with appended_grows [OF assms(5), of i] accepted_version [OF inv assms(4)]
    accepted_version [OF inv2 Inr [unfolded out]] assms(6)
  show ?thesis by simp
qed blast

lemma version_accepted_once_witness:
  "\<exists>e. revise (prec 28) (order_env ''again'') (revised_db three_revisions) ''P'' ''split'' (redate 4) (Some ''other'') = Inl e"
proof -
  obtain receipt where r: "revise (prec 28) (order_env ''split'') (revised_db []) ''P'' ''split'' (redate 5) None =
      Inr (receipt, revised_db [(split_moved, ''split'', redate 5)])"
    using first_revision
    by (cases "revise (prec 28) (order_env ''split'') (revised_db []) ''P'' ''split'' (redate 5) None") auto
  have "(revision_step (prec 28))\<^sup>*\<^sup>* (revised_db [(split_moved, ''split'', redate 5)]) (revised_db three_revisions)"
    using order_step [OF second_revision] order_step [OF third_revision] by (meson rtranclp.intros)
  from version_accepted_once [OF order_db_start rtranclp.rtrancl_refl r this, of "redate 4"]
  show ?thesis by (simp add: redate_def)
qed

end
