(* ===== verification/Price_Sources.thy ===== *)
theory Price_Sources
  imports Money Transaction_Context "HOL-Library.Product_Lexorder"
begin

text \<open>
  \<open>price_sources.py\<close>: the observations of prices and exchange rates, grouped by category and
  source, and their resolution at an instant. An instant is an integer number of microseconds in
  UTC, so \<open>utc\<close> is the identity. Conversion of a decimal to the nearest double and back to the
  rational it denotes is the parameter \<open>fl\<close>, the text of a decimal the parameter \<open>text\<close>; the age
  of an observation is kept exact (the code rounds it to two places for display).
\<close>

definition PRIORITY :: "string list" where
  "PRIORITY = [''BROKER'', ''PROVIDER'', ''FILE'', ''DEMO'']"

definition start_of_day :: "date \<Rightarrow> int" where
  "start_of_day day = (day - epoch_day) * 86400000000"

definition close_of_day :: "date \<Rightarrow> int" where
  "close_of_day day = start_of_day day + 86399999999"

section \<open>Tables\<close>

record instrument_row =
  in_id :: string
  in_symbol :: string
  in_name :: string
  in_country :: string
  in_currency :: string
  in_asset_class :: string
  in_sector :: "string option"
  in_industry :: "string option"

record market_row =
  mo_id :: string
  mo_created_at :: int
  mo_instrument_id :: string
  mo_timestamp :: int
  mo_price :: rat
  mo_currency :: string
  mo_source :: string
  mo_source_category :: string
  mo_data_state :: string
  mo_adjustment_state :: string
  mo_dataset_version_id :: "string option"
  mo_source_file_id :: "string option"
  mo_fields :: "pyval dict"

record bar_row =
  pb_id :: string
  pb_created_at :: int
  pb_instrument_id :: string
  pb_timestamp :: int
  pb_interval :: string
  pb_open :: rat
  pb_high :: rat
  pb_low :: rat
  pb_close :: rat
  pb_volume :: "rat option"
  pb_currency :: string
  pb_provider :: string
  pb_quality :: string

record fx_observation_row =
  fo_id :: string
  fo_created_at :: int
  fo_base_currency :: string
  fo_quote_currency :: string
  fo_timestamp :: int
  fo_rate :: rat
  fo_source :: string
  fo_source_category :: string
  fo_data_state :: string
  fo_source_file_id :: "string option"

record fx_rate_row =
  fr_id :: string
  fr_created_at :: int
  fr_base_currency :: string
  fr_quote_currency :: string
  fr_date :: date
  fr_rate :: rat
  fr_provider :: string
  fr_quality :: string

record precedence_rule =
  ru_instrument_id :: string
  ru_priority :: "string list"
  ru_preferred_source :: "string option"
  ru_stale_after_hours :: int

record price_tables =
  pt_instruments :: "instrument_row list"
  pt_rules :: "precedence_rule list"
  pt_market :: "market_row list"
  pt_bars :: "bar_row list"
  pt_fx_observations :: "fx_observation_row list"
  pt_fx_rates :: "fx_rate_row list"

section \<open>Observations\<close>

record observation =
  ob_value :: rat
  ob_timestamp :: int
  ob_ingested_at :: int
  ob_source :: string
  ob_category :: string
  ob_state :: string
  ob_currency :: string
  ob_id :: string
  ob_file_id :: "string option"
  ob_version_id :: "string option"
  ob_adjustment :: string
  ob_fields :: "pyval dict option"

text \<open>Keys a provenance may lack are options; an alternative extends the record, as in the code.\<close>

record provenance =
  pv_source :: string
  pv_data_state :: string
  pv_stale :: bool
  pv_as_of :: "int option"
  pv_source_category :: "string option"
  pv_source_file_id :: "string option"
  pv_dataset_version_id :: "string option"
  pv_observation_id :: "string option"
  pv_ingested_at :: "int option"
  pv_currency :: "string option"
  pv_adjustment_state :: "string option"
  pv_original_data_state :: "string option"
  pv_age_hours :: "rat option"
  pv_value :: "rat option"
  pv_source_file :: "string option"
  pv_inverse :: "bool option"
  pv_pair :: "string option"

record price_alternative = provenance +
  pa_difference_pct :: "rat option"

record price_description = provenance +
  pd_alternatives :: "price_alternative list option"
  pd_conflict :: "bool option"

definition bare_provenance :: "string \<Rightarrow> string \<Rightarrow> int option \<Rightarrow> provenance" where
  "bare_provenance source state as_of =
     \<lparr>pv_source = source, pv_data_state = state, pv_stale = False, pv_as_of = as_of,
      pv_source_category = None, pv_source_file_id = None, pv_dataset_version_id = None,
      pv_observation_id = None, pv_ingested_at = None, pv_currency = None,
      pv_adjustment_state = None, pv_original_data_state = None, pv_age_hours = None,
      pv_value = None, pv_source_file = None, pv_inverse = None, pv_pair = None\<rparr>"

definition age_hours :: "observation \<Rightarrow> int \<Rightarrow> rat" where
  "age_hours ob t = max 0 (of_int (t - ob_timestamp ob) / 3600000000)"

definition file_name :: "observation \<Rightarrow> string option" where
  "file_name ob =
     (case ob_fields ob of
        Some fs \<Rightarrow> (case meta_get fs ''filename'' of VStr s \<Rightarrow> Some s | _ \<Rightarrow> None)
      | None \<Rightarrow> None)"

definition provenance_of :: "observation \<Rightarrow> int \<Rightarrow> rat \<Rightarrow> provenance" where
  "provenance_of ob t tolerance =
     (let stale = tolerance < age_hours ob t in
      \<lparr>pv_source = ob_source ob,
       pv_data_state = (if stale then ''STALE''
         else if ob_category ob = ''DEMO'' then ''DEMO DATA'' else ob_state ob),
       pv_stale = stale, pv_as_of = Some (ob_timestamp ob),
       pv_source_category = Some (ob_category ob), pv_source_file_id = ob_file_id ob,
       pv_dataset_version_id = ob_version_id ob, pv_observation_id = Some (ob_id ob),
       pv_ingested_at = Some (ob_ingested_at ob), pv_currency = Some (ob_currency ob),
       pv_adjustment_state = Some (ob_adjustment ob), pv_original_data_state = Some (ob_state ob),
       pv_age_hours = Some (age_hours ob t), pv_value = Some (ob_value ob),
       pv_source_file = file_name ob, pv_inverse = None, pv_pair = None\<rparr>)"

definition market_observation :: "market_row \<Rightarrow> observation" where
  "market_observation r =
     \<lparr>ob_value = mo_price r, ob_timestamp = mo_timestamp r, ob_ingested_at = mo_created_at r,
      ob_source = mo_source r, ob_category = mo_source_category r, ob_state = mo_data_state r,
      ob_currency = mo_currency r, ob_id = mo_id r, ob_file_id = mo_source_file_id r,
      ob_version_id = mo_dataset_version_id r, ob_adjustment = mo_adjustment_state r,
      ob_fields = Some (mo_fields r)\<rparr>"

definition bar_category :: "string \<Rightarrow> string" where
  "bar_category quality = (if quality = ''DEMO DATA'' then ''DEMO'' else ''PROVIDER'')"

definition bar_observation :: "(rat \<Rightarrow> string) \<Rightarrow> bar_row \<Rightarrow> observation" where
  "bar_observation text r =
     \<lparr>ob_value = pb_close r, ob_timestamp = pb_timestamp r, ob_ingested_at = pb_created_at r,
      ob_source = pb_provider r, ob_category = bar_category (pb_quality r),
      ob_state = (if bar_category (pb_quality r) = ''DEMO'' then ''DEMO'' else ''EOD''),
      ob_currency = pb_currency r, ob_id = pb_id r, ob_file_id = None, ob_version_id = None,
      ob_adjustment = ''UNADJUSTED'',
      ob_fields = Some
        [(''open'', VStr (text (pb_open r))), (''high'', VStr (text (pb_high r))),
         (''low'', VStr (text (pb_low r))), (''close'', VStr (text (pb_close r))),
         (''volume'', (case pb_volume r of Some v \<Rightarrow> VStr (text v) | None \<Rightarrow> VNone))]\<rparr>"

definition fx_observation :: "fx_observation_row \<Rightarrow> observation" where
  "fx_observation r =
     \<lparr>ob_value = fo_rate r, ob_timestamp = fo_timestamp r, ob_ingested_at = fo_created_at r,
      ob_source = fo_source r, ob_category = fo_source_category r, ob_state = fo_data_state r,
      ob_currency = fo_quote_currency r, ob_id = fo_id r, ob_file_id = fo_source_file_id r,
      ob_version_id = None, ob_adjustment = ''UNADJUSTED'', ob_fields = None\<rparr>"

definition rate_observation :: "fx_rate_row \<Rightarrow> observation" where
  "rate_observation r =
     \<lparr>ob_value = fr_rate r, ob_timestamp = start_of_day (fr_date r), ob_ingested_at = fr_created_at r,
      ob_source = fr_provider r, ob_category = bar_category (fr_quality r),
      ob_state = (if bar_category (fr_quality r) = ''DEMO'' then ''DEMO'' else ''EOD''),
      ob_currency = fr_quote_currency r, ob_id = fr_id r, ob_file_id = None, ob_version_id = None,
      ob_adjustment = ''UNADJUSTED'', ob_fields = None\<rparr>"

section \<open>Grouping\<close>

type_synonym groups = "((string \<times> string) \<times> observation list) list"

definition group_key :: "observation \<Rightarrow> string \<times> string" where
  "group_key ob = (ob_category ob, ob_source ob)"

definition observation_key :: "observation \<Rightarrow> int \<times> int \<times> string" where
  "observation_key ob = (ob_timestamp ob, ob_ingested_at ob, ob_id ob)"

text \<open>Append a value under a key of a \<open>defaultdict(list)\<close>.\<close>

definition append_at :: "('k \<times> 'v list) list \<Rightarrow> 'k \<times> 'v \<Rightarrow> ('k \<times> 'v list) list" where
  "append_at d kv = AList.update (fst kv) (dict_get d (fst kv) [] @ [snd kv]) d"

definition collect :: "('k \<times> 'v) list \<Rightarrow> ('k \<times> 'v list) list" where
  "collect kvs = foldl append_at [] kvs"

definition grouped_observations :: "observation list \<Rightarrow> groups" where
  "grouped_observations values =
     map (\<lambda>(g, obs). (g, sort_key observation_key obs)) (collect (map (\<lambda>ob. (group_key ob, ob)) values))"

record market_resolver =
  mr_rules :: "(string \<times> precedence_rule) list"
  mr_series :: "(string \<times> observation list) list"
  mr_grouped :: "(string \<times> groups) list"

definition recent_bar :: "date option \<Rightarrow> bar_row \<Rightarrow> bool" where
  "recent_bar start r =
     (case start of Some d \<Rightarrow> start_of_day (d - 400) \<le> pb_timestamp r | None \<Rightarrow> True)"

text \<open>Both stores of prices of the given instruments, in the order the code reads them.\<close>

definition price_series ::
  "(rat \<Rightarrow> string) \<Rightarrow> price_tables \<Rightarrow> string list \<Rightarrow> date option \<Rightarrow> (string \<times> observation) list" where
  "price_series text db ids start =
     map (\<lambda>r. (mo_instrument_id r, market_observation r))
       (filter (\<lambda>r. mo_instrument_id r \<in> set ids) (pt_market db)) @
     map (\<lambda>r. (pb_instrument_id r, bar_observation text r))
       (filter (\<lambda>r. pb_instrument_id r \<in> set ids \<and> pb_interval r = ''1d'' \<and> recent_bar start r)
         (pt_bars db))"

definition market_resolver_of ::
  "(rat \<Rightarrow> string) \<Rightarrow> price_tables \<Rightarrow> string list \<Rightarrow> date option \<Rightarrow> market_resolver" where
  "market_resolver_of text db ids start =
     (let series = collect (price_series text db ids start) in
      \<lparr>mr_rules = foldl (\<lambda>d r. AList.update (ru_instrument_id r) r d) [] (pt_rules db),
       mr_series = series,
       mr_grouped = map (\<lambda>(i, values). (i, grouped_observations values)) series\<rparr>)"

section \<open>Resolution\<close>

text \<open>\<open>bisect.bisect_right\<close> of the standard library: binary search for the insertion point.\<close>

function bisect_loop :: "int list \<Rightarrow> int \<Rightarrow> nat \<Rightarrow> nat \<Rightarrow> nat" where
  "bisect_loop a x lo hi =
     (if lo < hi then
        if x < a ! ((lo + hi) div 2) then bisect_loop a x lo ((lo + hi) div 2)
        else bisect_loop a x (Suc ((lo + hi) div 2)) hi
      else lo)"
  by pat_completeness auto
termination
  by (relation "measure (\<lambda>(a, x, lo, hi). hi - lo)") auto

declare bisect_loop.simps [simp del]

definition bisect_right :: "int list \<Rightarrow> int \<Rightarrow> nat" where
  "bisect_right a x = bisect_loop a x 0 (length a)"

text \<open>The latest observation of a group at an instant, if there is one.\<close>

definition as_of :: "int \<Rightarrow> observation list \<Rightarrow> observation option" where
  "as_of t rows =
     (let index = bisect_right (map ob_timestamp rows) t
      in if 0 < index then Some (rows ! (index - 1)) else None)"

definition group_candidates :: "groups \<Rightarrow> int \<Rightarrow> observation list" where
  "group_candidates groups t = List.map_filter (\<lambda>(_, rows). as_of t rows) groups"

definition candidates :: "market_resolver \<Rightarrow> string \<Rightarrow> int \<Rightarrow> observation list" where
  "candidates r i t = group_candidates (dict_get (mr_grouped r) i []) t"

text \<open>\<open>max(xs, key=key)\<close>: the first of the greatest.\<close>

definition max_by :: "('a \<Rightarrow> 'k::linorder) \<Rightarrow> 'a list \<Rightarrow> 'a option" where
  "max_by key xs =
     (case xs of [] \<Rightarrow> None
      | y # ys \<Rightarrow> Some (foldl (\<lambda>m x. if key m < key x then x else m) y ys))"

fun first_category ::
  "('a \<Rightarrow> 'k::linorder) \<Rightarrow> ('a \<Rightarrow> string) \<Rightarrow> string list \<Rightarrow> 'a list \<Rightarrow> 'a option" where
  "first_category key cat [] cs = None"
| "first_category key cat (p # ps) cs =
     (if filter (\<lambda>x. cat x = p) cs \<noteq> [] then max_by key (filter (\<lambda>x. cat x = p) cs)
      else first_category key cat ps cs)"

definition preferred :: "precedence_rule option \<Rightarrow> observation \<Rightarrow> bool" where
  "preferred rule ob =
     (case rule of
        Some r \<Rightarrow> (case ru_preferred_source r of
            Some s \<Rightarrow> s = [] \<or> ob_source ob = s | None \<Rightarrow> True)
      | None \<Rightarrow> True)"

definition rule_priority :: "precedence_rule option \<Rightarrow> string list" where
  "rule_priority rule = (case rule of Some r \<Rightarrow> ru_priority r | None \<Rightarrow> PRIORITY)"

definition resolve_price :: "market_resolver \<Rightarrow> string \<Rightarrow> int \<Rightarrow> observation option" where
  "resolve_price r i t =
     (let rule = map_of (mr_rules r) i in
      first_category observation_key ob_category (rule_priority rule)
        (filter (preferred rule) (candidates r i t)))"

definition difference_pct :: "ctx \<Rightarrow> (rat \<Rightarrow> rat) \<Rightarrow> observation \<Rightarrow> observation \<Rightarrow> rat option" where
  "difference_pct c fl chosen item =
     (if ob_value chosen \<noteq> 0
      then Some (fl (dabs c (dsub c (ddiv c (ob_value item) (ob_value chosen)) 1))) else None)"

definition alternative :: "ctx \<Rightarrow> (rat \<Rightarrow> rat) \<Rightarrow> observation \<Rightarrow> int \<Rightarrow> observation \<Rightarrow> price_alternative" where
  "alternative c fl chosen t item =
     provenance.extend (provenance_of item t 72) (price_alternative.fields (difference_pct c fl chosen item))"

definition conflicting :: "(rat \<Rightarrow> rat) \<Rightarrow> price_alternative \<Rightarrow> bool" where
  "conflicting fl a \<longleftrightarrow>
     fl (1 / 100) < (case pa_difference_pct a of Some d \<Rightarrow> d | None \<Rightarrow> 0)"

definition describe ::
  "ctx \<Rightarrow> (rat \<Rightarrow> rat) \<Rightarrow> market_resolver \<Rightarrow> string \<Rightarrow> int \<Rightarrow> price_description" where
  "describe c fl r i t =
     (case resolve_price r i t of
        None \<Rightarrow> provenance.extend (bare_provenance ''UNAVAILABLE'' ''UNAVAILABLE'' None)
          (price_description.fields None None)
      | Some chosen \<Rightarrow>
          let tolerance = (case map_of (mr_rules r) i of
                Some rule \<Rightarrow> of_int (ru_stale_after_hours rule) | None \<Rightarrow> 72);
              alternatives = map (alternative c fl chosen t)
                (filter (\<lambda>item. ob_id item \<noteq> ob_id chosen \<and>
                   timestamp_day (ob_timestamp item) = timestamp_day (ob_timestamp chosen))
                 (candidates r i t))
          in provenance.extend (provenance_of chosen t tolerance)
               (price_description.fields (Some alternatives) (Some (list_ex (conflicting fl) alternatives))))"

section \<open>Price history\<close>

record historical_price = provenance +
  hp_date :: date
  hp_close :: rat
  hp_open :: "rat option"
  hp_high :: "rat option"
  hp_low :: "rat option"
  hp_volume :: "rat option"

definition numeric_field :: "ctx \<Rightarrow> (rat \<Rightarrow> rat) \<Rightarrow> pyval \<Rightarrow> rat option result" where
  "numeric_field c fl v =
     (if v = VNone \<or> v = VStr [] then Inr None
      else bindE (decimal c v ''OHLCV field'' False False) (\<lambda>x. Inr (Some (fl x))))"

definition history_row ::
  "ctx \<Rightarrow> (rat \<Rightarrow> rat) \<Rightarrow> date \<Rightarrow> observation \<Rightarrow> historical_price result" where
  "history_row c fl day ob =
     (let field = (\<lambda>k. numeric_field c fl (meta_get (case ob_fields ob of Some f \<Rightarrow> f | None \<Rightarrow> []) k)) in
      bindE (field ''open'') (\<lambda>op.
      bindE (field ''high'') (\<lambda>hi.
      bindE (field ''low'') (\<lambda>lo.
      bindE (field ''volume'') (\<lambda>vo.
      Inr (provenance.extend (provenance_of ob (close_of_day day) 72)
        (historical_price.fields day (fl (ob_value ob)) op hi lo vo)))))))"

definition price_history ::
  "ctx \<Rightarrow> (rat \<Rightarrow> rat) \<Rightarrow> market_resolver \<Rightarrow> string \<Rightarrow> date \<Rightarrow> date \<Rightarrow> historical_price list result" where
  "price_history c fl r i start end_day =
     (let days = sorted_keys (filter (\<lambda>d. start \<le> d \<and> d \<le> end_day)
                   (map (\<lambda>ob. timestamp_day (ob_timestamp ob)) (dict_get (mr_series r) i [])))
      in mapE (\<lambda>(day, ob). history_row c fl day ob)
           (List.map_filter (\<lambda>day. map_option (Pair day) (resolve_price r i (close_of_day day))) days))"

section \<open>Exchange rates\<close>

type_synonym pair = "string \<times> string"

type_synonym fx_resolver = "(pair \<times> groups) list"

definition fx_series :: "price_tables \<Rightarrow> (pair \<times> observation) list" where
  "fx_series db =
     map (\<lambda>r. ((fo_base_currency r, fo_quote_currency r), fx_observation r)) (pt_fx_observations db) @
     map (\<lambda>r. ((fr_base_currency r, fr_quote_currency r), rate_observation r))
       (sort_key fr_date (pt_fx_rates db))"

definition fx_resolver_of :: "price_tables \<Rightarrow> fx_resolver" where
  "fx_resolver_of db = map (\<lambda>(p, values). (p, grouped_observations values)) (collect (fx_series db))"

definition fx_candidates :: "fx_resolver \<Rightarrow> string \<Rightarrow> string \<Rightarrow> int \<Rightarrow> (observation \<times> bool) list" where
  "fx_candidates r currency base t =
     map (\<lambda>ob. (ob, False)) (group_candidates (dict_get r (currency, base) []) t) @
     map (\<lambda>ob. (ob, True)) (group_candidates (dict_get r (base, currency) []) t)"

definition fx_key :: "observation \<times> bool \<Rightarrow> int \<times> int \<times> bool \<times> string" where
  "fx_key item =
     (ob_timestamp (fst item), ob_ingested_at (fst item), \<not> snd item, ob_id (fst item))"

definition fx_chosen :: "fx_resolver \<Rightarrow> string \<Rightarrow> string \<Rightarrow> int \<Rightarrow> (observation \<times> bool) option" where
  "fx_chosen r currency base t =
     first_category fx_key (\<lambda>item. ob_category (fst item)) PRIORITY (fx_candidates r currency base t)"

definition resolve_fx ::
  "ctx \<Rightarrow> fx_resolver \<Rightarrow> string \<Rightarrow> string \<Rightarrow> int \<Rightarrow> rat option \<times> provenance" where
  "resolve_fx c r currency base t =
     (if currency = base
      then (Some 1, (bare_provenance ''IDENTITY'' ''CALCULATED'' (Some t))\<lparr>pv_value := Some 1\<rparr>)
      else
        (case fx_chosen r currency base t of
           Some (row, flipped) \<Rightarrow>
             if ob_value row \<le> 0
             then (None, (provenance_of row t 72)\<lparr>pv_data_state := ''INVALID'', pv_inverse := Some flipped\<rparr>)
             else
               let value = (if flipped then ddiv c 1 (ob_value row) else ob_value row)
               in (Some value, (provenance_of row t 72)\<lparr>pv_value := Some value, pv_inverse := Some flipped\<rparr>)
         | None \<Rightarrow>
             (None, (bare_provenance ''UNAVAILABLE'' ''UNAVAILABLE'' None)
                \<lparr>pv_pair := Some (currency @ ''/'' @ base)\<rparr>)))"

end
