(* ===== verification/Price_Resolution.thy ===== *)
theory Price_Resolution
  imports Price_Sources
begin

text \<open>
  What \<open>price_sources.py\<close> resolves: the reference is a choice among all eligible observations,
  without groups or binary search, and only observations dated at or before the instant count.
  Eligible are all market observations and the daily bars of the 400 days before the start, and an
  example shows what this cut-off does to a stale bar.
\<close>

section \<open>Binary search\<close>

lemma bisect_loop_bounds:
  assumes "sorted a" "lo \<le> hi" "hi \<le> length a" "\<And>i. i < lo \<Longrightarrow> a ! i \<le> x"
    "\<And>i. hi \<le> i \<Longrightarrow> i < length a \<Longrightarrow> x < a ! i"
  shows "bisect_loop a x lo hi \<le> length a \<and> (\<forall>i < bisect_loop a x lo hi. a ! i \<le> x) \<and>
    (\<forall>i. bisect_loop a x lo hi \<le> i \<longrightarrow> i < length a \<longrightarrow> x < a ! i)"
  using assms
proof (induction a x lo hi rule: bisect_loop.induct)
  case (1 a x lo hi)
  let ?mid = "(lo + hi) div 2"
  show ?case
  proof (cases "lo < hi")
    case False
    with "1.prems" show ?thesis by (subst (1 2 3) bisect_loop.simps) auto
  next
    case True
    then have mid: "lo \<le> ?mid" "?mid < hi" by auto
    show ?thesis
    proof (cases "x < a ! ?mid")
      case lt: True
      have "x < a ! i" if "?mid \<le> i" "i < length a" for i
        using lt that sorted_nth_mono [OF "1.prems"(1) that] by linarith
      from "1.IH"(1) [OF True lt "1.prems"(1)] mid "1.prems"(3,4) this True lt show ?thesis
        by (subst (1 2 3) bisect_loop.simps) auto
    next
      case ge: False
      have "a ! i \<le> x" if "i < Suc ?mid" for i
      proof -
        have "a ! i \<le> a ! ?mid" using "1.prems"(1,3) that mid by (intro sorted_nth_mono) auto
        with ge show ?thesis by simp
      qed
      from "1.IH"(2) [OF True ge "1.prems"(1)] mid "1.prems"(3,5) this True ge show ?thesis
        by (subst (1 2 3) bisect_loop.simps) auto
    qed
  qed
qed

lemma bisect_right_bounds:
  assumes "sorted a"
  shows "bisect_right a x \<le> length a" "i < bisect_right a x \<Longrightarrow> a ! i \<le> x"
    "bisect_right a x \<le> i \<Longrightarrow> i < length a \<Longrightarrow> x < a ! i"
  using bisect_loop_bounds [of a 0 "length a" x] assms by (auto simp: bisect_right_def)

text \<open>The binary search terminates and, on the sorted timestamps of a group, returns the number of
  observations dated at or before the instant.\<close>

lemma bisect_right_counts:
  assumes "sorted a"
  shows "bisect_right a x = length (filter (\<lambda>d. d \<le> x) a)"
proof -
  let ?k = "bisect_right a x"
  have "filter (\<lambda>d. d \<le> x) (take ?k a) = take ?k a"
    using bisect_right_bounds(1,2) [OF assms] by (auto simp: filter_id_conv in_set_conv_nth)
  moreover have "filter (\<lambda>d. d \<le> x) (drop ?k a) = []"
    using bisect_right_bounds(3) [OF assms, where x = x] bisect_right_bounds(1) [OF assms, of x]
    by (fastforce simp: filter_empty_conv in_set_conv_nth not_le)
  ultimately have "filter (\<lambda>d. d \<le> x) a = take ?k a"
    by (metis append_Nil2 append_take_drop_id filter_append)
  with bisect_right_bounds(1) [OF assms, of x] show ?thesis by simp
qed

section \<open>Groups\<close>

lemma observation_key_time: "observation_key x \<le> observation_key y \<Longrightarrow> ob_timestamp x \<le> ob_timestamp y"
  by (auto simp: observation_key_def less_eq_prod_def)

lemma as_of_props:
  assumes "sorted (map observation_key rows)"
  shows "as_of t rows = Some ob \<Longrightarrow> ob \<in> set rows \<and> ob_timestamp ob \<le> t \<and>
      (\<forall>x \<in> set rows. ob_timestamp x \<le> t \<longrightarrow> observation_key x \<le> observation_key ob)"
    "as_of t rows = None \<Longrightarrow> \<forall>x \<in> set rows. t < ob_timestamp x"
proof -
  let ?k = "bisect_right (map ob_timestamp rows) t"
  have "sorted (map ob_timestamp rows)"
    using assms by (auto simp: sorted_iff_nth_mono intro!: observation_key_time)
  note b = bisect_right_bounds [OF this, where x = t]
  show "as_of t rows = Some ob \<Longrightarrow> ob \<in> set rows \<and> ob_timestamp ob \<le> t \<and>
      (\<forall>x \<in> set rows. ob_timestamp x \<le> t \<longrightarrow> observation_key x \<le> observation_key ob)"
  proof -
    assume "as_of t rows = Some ob"
    then have k: "0 < ?k" "ob = rows ! (?k - 1)" by (auto simp: as_of_def Let_def split: if_splits)
    with b(1) have i: "?k - 1 < length rows" by simp
    have "observation_key x \<le> observation_key ob" if x: "x \<in> set rows" "ob_timestamp x \<le> t" for x
    proof -
      obtain j where j: "j < length rows" "x = rows ! j" using x(1) by (auto simp: in_set_conv_nth)
      with b(3) [of j] x(2) have "j < ?k" by fastforce
      then have "j \<le> ?k - 1" by simp
      then have "map observation_key rows ! j \<le> map observation_key rows ! (?k - 1)"
        using i by (intro sorted_nth_mono [OF assms]) auto
      with j k i show ?thesis by simp
    qed
    with b(2) [of "?k - 1"] k i show ?thesis by auto
  qed
  show "as_of t rows = None \<Longrightarrow> \<forall>x \<in> set rows. t < ob_timestamp x"
    using b(3) by (fastforce simp: as_of_def Let_def in_set_conv_nth split: if_splits)
qed

lemma dict_get_append_at:
  "dict_get (append_at d kv) k [] = (if k = fst kv then dict_get d k [] @ [snd kv] else dict_get d k [])"
  by (simp add: append_at_def)

lemma dict_get_collect: "dict_get (collect kvs) k [] = map snd (filter (\<lambda>kv. fst kv = k) kvs)"
  by (induction kvs rule: rev_induct) (auto simp: collect_def dict_get_append_at)

lemma keys_collect: "distinct (map fst (collect kvs))" "set (map fst (collect kvs)) = fst ` set kvs"
proof -
  show "distinct (map fst (collect kvs))"
    by (induction kvs rule: rev_induct) (simp_all add: collect_def append_at_def distinct_update)
  show "set (map fst (collect kvs)) = fst ` set kvs"
  proof (induction kvs rule: rev_induct)
    case (snoc kv kvs)
    have "set (map fst (collect (kvs @ [kv]))) = insert (fst kv) (set (map fst (collect kvs)))"
      by (simp add: collect_def append_at_def update_keys del: set_map) auto
    with snoc show ?case by simp
  qed (simp add: collect_def)
qed

lemma in_collect:
  "(k, vs) \<in> set (collect kvs) \<longleftrightarrow> k \<in> fst ` set kvs \<and> vs = map snd (filter (\<lambda>kv. fst kv = k) kvs)"
proof -
  have "(k, vs) \<in> set (collect kvs) \<longleftrightarrow> map_of (collect kvs) k = Some vs"
    using keys_collect(1) [of kvs] by simp
  also have "\<dots> \<longleftrightarrow> k \<in> set (map fst (collect kvs)) \<and> vs = dict_get (collect kvs) k []"
    by (auto simp: dict_get_def map_of_eq_None_iff split: option.splits dest: map_of_SomeD
        intro: rev_image_eqI)
  finally show ?thesis by (simp add: dict_get_collect keys_collect del: set_map)
qed

lemma set_map_filter: "set (List.map_filter f xs) = {y. \<exists>x \<in> set xs. f x = Some y}"
  by (force simp: map_filter_def)

lemma keyed_filter: "map snd (filter (\<lambda>kv. fst kv = k) (map (\<lambda>x. (f x, x)) xs)) = filter (\<lambda>x. f x = k) xs"
  by (induction xs) auto

lemma in_grouped:
  "(k, rows) \<in> set (grouped_observations obs) \<longleftrightarrow> k \<in> group_key ` set obs \<and>
     rows = sort_key observation_key (filter (\<lambda>x. group_key x = k) obs)"
proof -
  have "(k, rows) \<in> set (grouped_observations obs) \<longleftrightarrow>
      (\<exists>vs. (k, vs) \<in> set (collect (map (\<lambda>ob. (group_key ob, ob)) obs)) \<and> rows = sort_key observation_key vs)"
    unfolding grouped_observations_def set_map image_iff by (cases k) (auto simp: Bex_def)
  then show ?thesis unfolding in_collect keyed_filter by (auto simp: image_image)
qed

lemma group_candidates_props:
  shows "ob \<in> set (group_candidates (grouped_observations obs) t) \<Longrightarrow> ob \<in> set obs \<and> ob_timestamp ob \<le> t"
    "x \<in> set obs \<Longrightarrow> ob_timestamp x \<le> t \<Longrightarrow>
       \<exists>ob \<in> set (group_candidates (grouped_observations obs) t).
         group_key ob = group_key x \<and> observation_key x \<le> observation_key ob"
proof -
  let ?rows = "\<lambda>k. sort_key observation_key (filter (\<lambda>x. group_key x = k) obs)"
  have sorted: "sorted (map observation_key (?rows k))" for k by simp
  have some: "y \<in> set obs \<and> group_key y = k \<and> ob_timestamp y \<le> t \<and>
      (\<forall>x \<in> set obs. group_key x = k \<longrightarrow> ob_timestamp x \<le> t \<longrightarrow> observation_key x \<le> observation_key y)"
    if "as_of t (?rows k) = Some y" for k y
    using as_of_props(1) [OF sorted that] by simp
  have mem: "y \<in> set (group_candidates (grouped_observations obs) t) \<longleftrightarrow>
      (\<exists>k \<in> group_key ` set obs. as_of t (?rows k) = Some y)" for y
  proof -
    have "y \<in> set (group_candidates (grouped_observations obs) t) \<longleftrightarrow>
        (\<exists>k rows. (k, rows) \<in> set (grouped_observations obs) \<and> as_of t rows = Some y)"
      unfolding group_candidates_def set_map_filter by (force split: prod.splits)
    then show ?thesis by (simp add: in_grouped)
  qed
  show "ob \<in> set (group_candidates (grouped_observations obs) t) \<Longrightarrow> ob \<in> set obs \<and> ob_timestamp ob \<le> t"
    unfolding mem using some by blast
  show "x \<in> set obs \<Longrightarrow> ob_timestamp x \<le> t \<Longrightarrow>
       \<exists>ob \<in> set (group_candidates (grouped_observations obs) t).
         group_key ob = group_key x \<and> observation_key x \<le> observation_key ob"
  proof -
    assume x: "x \<in> set obs" "ob_timestamp x \<le> t"
    have "x \<in> set (?rows (group_key x))" using x(1) by simp
    then obtain y where y: "as_of t (?rows (group_key x)) = Some y"
      using as_of_props(2) [OF sorted, of t "group_key x"] x(2)
      by (cases "as_of t (?rows (group_key x))") (fastforce, blast)
    from some [OF y] x have "group_key y = group_key x \<and> observation_key x \<le> observation_key y" by blast
    moreover have "y \<in> set (group_candidates (grouped_observations obs) t)"
      unfolding mem using x(1) y by blast
    ultimately show ?thesis by blast
  qed
qed

section \<open>Choice by category\<close>

lemma max_by_props:
  assumes "max_by key xs = Some m"
  shows "m \<in> set xs" "x \<in> set xs \<Longrightarrow> key x \<le> key m"
proof -
  have fold: "foldl (\<lambda>m x. if key m < key x then x else m) y ys \<in> set (y # ys) \<and>
      (\<forall>x \<in> set (y # ys). key x \<le> key (foldl (\<lambda>m x. if key m < key x then x else m) y ys))" for y ys
    by (induction ys rule: rev_induct) (auto simp: not_less intro: order_trans less_imp_le dest: le_less_trans)
  from assms obtain y ys where xs: "xs = y # ys" by (auto simp: max_by_def split: list.splits)
  show "m \<in> set xs" "x \<in> set xs \<Longrightarrow> key x \<le> key m"
    using assms fold [of y ys] by (auto simp: xs max_by_def)
qed

lemma max_by_None [simp]: "max_by key xs = None \<longleftrightarrow> xs = []"
  by (simp add: max_by_def split: list.split)

text \<open>The declarative choice: the first category of the priority that has an item, and its item of
  greatest key.\<close>

definition first_choice ::
  "('a \<Rightarrow> 'k::linorder) \<Rightarrow> ('a \<Rightarrow> string) \<Rightarrow> string list \<Rightarrow> 'a set \<Rightarrow> 'a \<Rightarrow> bool" where
  "first_choice key cat priority xs m \<longleftrightarrow>
     m \<in> xs \<and> (\<exists>higher lower. priority = higher @ cat m # lower \<and> (\<forall>x \<in> xs. cat x \<notin> set higher)) \<and>
     (\<forall>x \<in> xs. cat x = cat m \<longrightarrow> key x \<le> key m)"

lemma first_category_sound:
  "first_category key cat ps cs = Some m \<Longrightarrow> first_choice key cat ps (set cs) m"
proof (induction ps)
  case (Cons p ps)
  let ?ms = "filter (\<lambda>x. cat x = p) cs"
  show ?case
  proof (cases "?ms = []")
    case True
    then have p: "\<forall>x \<in> set cs. cat x \<noteq> p" by (simp add: filter_empty_conv)
    from Cons True have "first_choice key cat ps (set cs) m" by simp
    then obtain h l where h: "ps = h @ cat m # l" "\<forall>x \<in> set cs. cat x \<notin> set h"
      and m: "m \<in> set cs" "\<forall>x \<in> set cs. cat x = cat m \<longrightarrow> key x \<le> key m"
      by (auto simp: first_choice_def)
    have "p # ps = (p # h) @ cat m # l" "\<forall>x \<in> set cs. cat x \<notin> set (p # h)" using h p by auto
    with m show ?thesis unfolding first_choice_def by blast
  next
    case False
    with Cons.prems have "max_by key ?ms = Some m" by simp
    note m = max_by_props [OF this]
    then have "p # ps = [] @ cat m # ps" by simp
    with m show ?thesis unfolding first_choice_def by fastforce
  qed
qed simp

lemma first_category_None:
  "first_category key cat ps cs = None \<longleftrightarrow> (\<forall>x \<in> set cs. cat x \<notin> set ps)"
  by (induction ps) (auto simp: filter_empty_conv)

lemma first_choice_unique:
  assumes "first_choice key cat ps xs m" "first_choice key cat ps xs m'" "inj_on key xs"
  shows "m = m'"
proof -
  from assms(1) obtain h l where h: "ps = h @ cat m # l" "\<forall>x \<in> xs. cat x \<notin> set h" "m \<in> xs"
    and max: "\<forall>x \<in> xs. cat x = cat m \<longrightarrow> key x \<le> key m" by (auto simp: first_choice_def)
  from assms(2) obtain h' l' where h': "ps = h' @ cat m' # l'" "\<forall>x \<in> xs. cat x \<notin> set h'" "m' \<in> xs"
    and max': "\<forall>x \<in> xs. cat x = cat m' \<longrightarrow> key x \<le> key m'" by (auto simp: first_choice_def)
  have "cat m = cat m'"
  proof (rule ccontr)
    assume "cat m \<noteq> cat m'"
    from h(1) h'(1) have "h @ cat m # l = h' @ cat m' # l'" by simp
    then have "cat m \<in> set h' \<or> cat m' \<in> set h"
      using \<open>cat m \<noteq> cat m'\<close> by (auto simp: append_eq_append_conv2 Cons_eq_append_conv append_eq_Cons_conv)
    with h h' show False by blast
  qed
  with max max' h(3) h'(3) have "key m = key m'" by (metis order_antisym)
  with assms(3) h(3) h'(3) show ?thesis by (auto dest: inj_onD)
qed

text \<open>Choosing among the best of each group is choosing among all.\<close>

lemma first_choice_cover:
  assumes choice: "first_choice key cat ps cs m" and sub: "cs \<subseteq> es"
    and cover: "\<And>x. x \<in> es \<Longrightarrow> \<exists>y \<in> cs. cat y = cat x \<and> key x \<le> key y"
  shows "first_choice key cat ps es m"
proof -
  from choice obtain h l where h: "ps = h @ cat m # l" "\<forall>x \<in> cs. cat x \<notin> set h" "m \<in> cs"
    and max: "\<forall>x \<in> cs. cat x = cat m \<longrightarrow> key x \<le> key m" by (auto simp: first_choice_def)
  have "cat x \<notin> set h" if "x \<in> es" for x using cover [OF that] h(2) by metis
  moreover have "key x \<le> key m" if x: "x \<in> es" "cat x = cat m" for x
    using cover [OF x(1)] x(2) max by (metis order_trans)
  ultimately show ?thesis using h sub by (auto simp: first_choice_def)
qed

lemma first_category_cover:
  assumes "set cs \<subseteq> es" "\<And>x. x \<in> es \<Longrightarrow> \<exists>y \<in> set cs. cat y = cat x \<and> key x \<le> key y"
    "inj_on key es"
  shows "first_category key cat ps cs = Some m \<longleftrightarrow> first_choice key cat ps es m"
proof
  assume "first_category key cat ps cs = Some m"
  then show "first_choice key cat ps es m"
    using first_choice_cover [OF first_category_sound assms(1)] assms(2) by blast
next
  assume m: "first_choice key cat ps es m"
  then have "m \<in> es" "cat m \<in> set ps" by (auto simp: first_choice_def)
  obtain y where "y \<in> set cs" "cat y = cat m" using assms(2) [OF \<open>m \<in> es\<close>] by blast
  with \<open>cat m \<in> set ps\<close> have "first_category key cat ps cs \<noteq> None"
    unfolding first_category_None by (auto intro!: bexI [of _ y])
  then obtain m' where m': "first_category key cat ps cs = Some m'" by blast
  with first_choice_cover [OF first_category_sound assms(1)] assms(2)
  have "first_choice key cat ps es m'" by blast
  from first_choice_unique [OF this m assms(3)] m' show "first_category key cat ps cs = Some m" by simp
qed

section \<open>A sample history\<close>

text \<open>A demo price, a provider bar a day later, and what \<open>later\<close> records; a quote of one dollar in
  euros, which is the inverse of the pair the portfolio asks for.\<close>

definition sample_bar :: "string \<Rightarrow> int \<Rightarrow> rat \<Rightarrow> string \<Rightarrow> bar_row" where
  "sample_bar i t p quality =
     \<lparr>pb_id = i, pb_created_at = t, pb_instrument_id = ''X'', pb_timestamp = t, pb_interval = ''1d'',
      pb_open = p, pb_high = p, pb_low = p, pb_close = p, pb_volume = None, pb_currency = ''USD'',
      pb_provider = ''vendor'', pb_quality = quality\<rparr>"

definition sample_tables :: "bar_row list \<Rightarrow> price_tables" where
  "sample_tables later =
     \<lparr>pt_instruments = [], pt_rules = [], pt_market = [],
      pt_bars = [sample_bar ''demo'' 20 9 ''DEMO DATA'', sample_bar ''first'' 10 7 ''EOD''] @ later,
      pt_fx_observations = [\<lparr>fo_id = ''q'', fo_created_at = 5, fo_base_currency = ''USD'',
        fo_quote_currency = ''EUR'', fo_timestamp = 5, fo_rate = 2, fo_source = ''bank'',
        fo_source_category = ''BROKER'', fo_data_state = ''EOD'', fo_source_file_id = None\<rparr>],
      pt_fx_rates = []\<rparr>"

abbreviation sample_text :: "rat \<Rightarrow> string" where "sample_text \<equiv> \<lambda>_. []"

section \<open>Prices\<close>

text \<open>The observations of an instrument a resolver was built from, and those of a pair.\<close>

definition price_observations ::
  "(rat \<Rightarrow> string) \<Rightarrow> price_tables \<Rightarrow> string list \<Rightarrow> date option \<Rightarrow> string \<Rightarrow> observation list" where
  "price_observations text db ids start i =
     map snd (filter (\<lambda>kv. fst kv = i) (price_series text db ids start))"

definition fx_observations :: "price_tables \<Rightarrow> pair \<Rightarrow> observation list" where
  "fx_observations db p = map snd (filter (\<lambda>kv. fst kv = p) (fx_series db))"

definition known_at :: "int \<Rightarrow> observation list \<Rightarrow> observation set" where
  "known_at t obs = {ob \<in> set obs. ob_timestamp ob \<le> t}"

lemma dict_get_map: "dict_get (map (\<lambda>(k, v). (k, f v)) d) k (f e) = f (dict_get d k e)"
  by (simp add: dict_get_def map_of_map split: option.split)

lemma grouped_Nil: "grouped_observations [] = []"
  by (simp add: grouped_observations_def collect_def)

lemma candidates_of:
  "candidates (market_resolver_of text db ids start) i t =
     group_candidates (grouped_observations (price_observations text db ids start i)) t"
  using dict_get_map [of grouped_observations "collect (price_series text db ids start)" i "[]"]
  by (simp add: candidates_def market_resolver_of_def Let_def grouped_Nil dict_get_collect price_observations_def)

lemma inj_on_key: "distinct (map ob_id obs) \<Longrightarrow> inj_on observation_key (set obs)"
  by (auto simp: inj_on_def observation_key_def distinct_map)

lemma resolve_price_choice:
  assumes "distinct (map ob_id (price_observations text db ids start i))"
    and "R = market_resolver_of text db ids start" "rule = map_of (mr_rules R) i"
  shows "resolve_price R i t = Some ob \<longleftrightarrow>
    first_choice observation_key ob_category (rule_priority rule)
      {x \<in> known_at t (price_observations text db ids start i). preferred rule x} ob"
proof -
  let ?obs = "price_observations text db ids start i"
  let ?cs = "group_candidates (grouped_observations ?obs) t"
  let ?es = "{x \<in> known_at t ?obs. preferred rule x}"
  have sub: "set (filter (preferred rule) ?cs) \<subseteq> ?es"
    using group_candidates_props(1) by (fastforce simp: known_at_def)
  have cover: "\<exists>y \<in> set (filter (preferred rule) ?cs). ob_category y = ob_category x \<and>
      observation_key x \<le> observation_key y" if x: "x \<in> ?es" for x
  proof -
    from x obtain y where y: "y \<in> set ?cs" "group_key y = group_key x" "observation_key x \<le> observation_key y"
      using group_candidates_props(2) [of x ?obs t] by (auto simp: known_at_def)
    moreover have "preferred rule y"
      using x y(2) by (auto simp: preferred_def group_key_def split: option.splits)
    ultimately show ?thesis by (intro bexI [of _ y]) (auto simp: group_key_def)
  qed
  have inj: "inj_on observation_key ?es"
    using inj_on_key [OF assms(1)] by (rule inj_on_subset) (auto simp: known_at_def)
  show ?thesis
    unfolding resolve_price_def Let_def assms(3) assms(2) candidates_of
    by (rule first_category_cover [OF sub cover inj, unfolded assms(3) assms(2)])
qed

text \<open>What a resolver reads of an instrument, row by row: every market observation, and every
  daily bar, those older than four hundred days before its start left out if it has a start.\<close>

definition eligible_prices ::
  "(rat \<Rightarrow> string) \<Rightarrow> price_tables \<Rightarrow> date option \<Rightarrow> string \<Rightarrow> observation set" where
  "eligible_prices text db start i =
     {market_observation r | r. r \<in> set (pt_market db) \<and> mo_instrument_id r = i} \<union>
     {bar_observation text r | r. r \<in> set (pt_bars db) \<and> pb_instrument_id r = i \<and> pb_interval r = ''1d'' \<and>
        (\<forall>d. start = Some d \<longrightarrow> start_of_day (d - 400) \<le> pb_timestamp r)}"

lemma eligible_observations:
  assumes "i \<in> set ids"
  shows "set (price_observations text db ids start i) = eligible_prices text db start i"
proof -
  have "recent_bar start r \<longleftrightarrow> (\<forall>d. start = Some d \<longrightarrow> start_of_day (d - 400) \<le> pb_timestamp r)" for r
    by (simp add: recent_bar_def split: option.split)
  then have "set (price_observations text db ids start i) =
      market_observation ` {r \<in> set (pt_market db). mo_instrument_id r = i} \<union>
      bar_observation text ` {r \<in> set (pt_bars db). pb_instrument_id r = i \<and> pb_interval r = ''1d'' \<and>
        (\<forall>d. start = Some d \<longrightarrow> start_of_day (d - 400) \<le> pb_timestamp r)}"
    using assms
    by (auto simp: price_observations_def price_series_def filter_map comp_def image_Un
        intro!: arg_cong2 [where f = "(\<union>)"] image_cong)
  then show ?thesis by (auto simp: eligible_prices_def)
qed

lemma distinct_observations:
  assumes "distinct (map mo_id (pt_market db) @ map pb_id (pt_bars db))"
  shows "distinct (map ob_id (price_observations text db ids start i))"
proof -
  have "map ob_id (price_observations text db ids start i) =
      map mo_id (filter (\<lambda>r. mo_instrument_id r \<in> set ids \<and> mo_instrument_id r = i) (pt_market db)) @
      map pb_id (filter (\<lambda>r. (pb_instrument_id r \<in> set ids \<and> pb_interval r = ''1d'' \<and> recent_bar start r) \<and>
        pb_instrument_id r = i) (pt_bars db))"
    by (simp add: price_observations_def price_series_def filter_map comp_def market_observation_def
        bar_observation_def conj_commute)
  with assms show ?thesis by (auto intro: distinct_map_filter)
qed

text \<open>C24: A price is resolved to an observation exactly when that observation is the right one. The
  resolver of a valuation with a start day reads all market observations of the instrument and its
  daily bars, but no bar older than four hundred days before that day; without a start it reads all
  daily bars. Among those dated at or before the instant, and of the preferred source if the
  instrument has one, the observation is of the first category of the precedence list that has any,
  and the latest of that category. The binary searches in sorted groups thus choose as a search
  through all the rows would.\<close>

theorem resolve_price_reference:
  assumes "distinct (map mo_id (pt_market db) @ map pb_id (pt_bars db))" "i \<in> set ids"
    and "R = market_resolver_of text db ids start" "rule = map_of (mr_rules R) i"
  shows "resolve_price R i t = Some ob \<longleftrightarrow>
    first_choice observation_key ob_category (rule_priority rule)
      {x \<in> eligible_prices text db start i. ob_timestamp x \<le> t \<and> preferred rule x} ob"
proof -
  have "{x \<in> eligible_prices text db start i. ob_timestamp x \<le> t \<and> preferred rule x} =
      {x \<in> known_at t (price_observations text db ids start i). preferred rule x}"
    using eligible_observations [OF assms(2)] by (auto simp: known_at_def)
  with resolve_price_choice [OF distinct_observations [OF assms(1)] assms(3,4)] show ?thesis by simp
qed

theorem resolve_price_reference_witness:
  "first_choice observation_key ob_category PRIORITY
     {x \<in> eligible_prices sample_text (sample_tables []) None ''X''. ob_timestamp x \<le> 30 \<and> preferred None x}
     (bar_observation sample_text (sample_bar ''first'' 10 7 ''EOD''))"
proof -
  let ?R = "market_resolver_of sample_text (sample_tables []) [''X''] None"
  have "distinct (map mo_id (pt_market (sample_tables [])) @ map pb_id (pt_bars (sample_tables [])))" by code_simp
  moreover have "map_of (mr_rules ?R) ''X'' = None" by code_simp
  moreover have "resolve_price ?R ''X'' 30 = Some (bar_observation sample_text (sample_bar ''first'' 10 7 ''EOD''))"
    by code_simp
  ultimately show ?thesis
    using resolve_price_reference [of "sample_tables []" "''X''" "[''X'']" ?R sample_text None None 30]
    by (simp add: rule_priority_def)
qed

text \<open>The cut-off replaces a price that precedence would select. A provider's bar of day 100 is the
  price at noon of day 600 for a resolver without a start; for one that starts on day 600 the bar
  is out of reach and a demonstration bar of day 590 is selected in its place.\<close>

definition stale_tables :: price_tables where
  "stale_tables = (sample_tables [])\<lparr>pt_bars :=
     [sample_bar ''provider'' (start_of_day 100) 7 ''EOD'', sample_bar ''demo'' (start_of_day 590) 9 ''DEMO DATA'']\<rparr>"

lemma stale_bar_replaced:
  "map_option ob_category (resolve_price (market_resolver_of sample_text stale_tables [''X''] None) ''X''
     (start_of_day 600 + 43200)) = Some ''PROVIDER''"
  "map_option ob_category (resolve_price (market_resolver_of sample_text stale_tables [''X''] (Some 600)) ''X''
     (start_of_day 600 + 43200)) = Some ''DEMO''"
  by code_simp+

section \<open>Exchange rates\<close>

lemma fx_candidates_of:
  "fx_candidates (fx_resolver_of db) cur base t =
     map (\<lambda>ob. (ob, False)) (group_candidates (grouped_observations (fx_observations db (cur, base))) t) @
     map (\<lambda>ob. (ob, True)) (group_candidates (grouped_observations (fx_observations db (base, cur))) t)"
proof -
  have "dict_get (fx_resolver_of db) p [] = grouped_observations (fx_observations db p)" for p
    using dict_get_map [of grouped_observations "collect (fx_series db)" p "[]"]
    by (simp add: fx_resolver_of_def grouped_Nil dict_get_collect fx_observations_def)
  then show ?thesis by (simp add: fx_candidates_def)
qed

text \<open>Direct and inverse quotes known at an instant.\<close>

definition quotes_at :: "price_tables \<Rightarrow> string \<Rightarrow> string \<Rightarrow> int \<Rightarrow> (observation \<times> bool) set" where
  "quotes_at db cur base t =
     (\<lambda>ob. (ob, False)) ` known_at t (fx_observations db (cur, base)) \<union>
     (\<lambda>ob. (ob, True)) ` known_at t (fx_observations db (base, cur))"

lemma fx_chosen_reference:
  assumes "distinct (map ob_id (fx_observations db (cur, base)))" "distinct (map ob_id (fx_observations db (base, cur)))"
  shows "fx_chosen (fx_resolver_of db) cur base t = Some q \<longleftrightarrow>
    first_choice fx_key (\<lambda>item. ob_category (fst item)) PRIORITY (quotes_at db cur base t) q"
proof -
  let ?cs = "fx_candidates (fx_resolver_of db) cur base t"
  have sub: "set ?cs \<subseteq> quotes_at db cur base t"
    using group_candidates_props(1) by (fastforce simp: fx_candidates_of quotes_at_def known_at_def)
  have mono: "fx_key (x, b) \<le> fx_key (y, b)" if "observation_key x \<le> observation_key y" for x y b
    using that by (auto simp: fx_key_def observation_key_def less_eq_prod_def less_prod_def)
  have cover: "\<exists>y \<in> set ?cs. ob_category (fst y) = ob_category (fst x) \<and> fx_key x \<le> fx_key y"
    if x: "x \<in> quotes_at db cur base t" for x
  proof -
    obtain ob b where xb: "x = (ob, b)" by (cases x)
    let ?p = "if b then (base, cur) else (cur, base)"
    have "ob \<in> set (fx_observations db ?p)" "ob_timestamp ob \<le> t"
      using x by (auto simp: xb quotes_at_def known_at_def)
    from group_candidates_props(2) [OF this] obtain y where
      y: "y \<in> set (group_candidates (grouped_observations (fx_observations db ?p)) t)"
        "group_key y = group_key ob" "observation_key ob \<le> observation_key y" by blast
    have "(y, b) \<in> set ?cs" using y(1) by (cases b) (auto simp: fx_candidates_of)
    with y(2) mono [OF y(3), of b] show ?thesis by (intro bexI [of _ "(y, b)"]) (auto simp: xb group_key_def)
  qed
  have inj: "inj_on fx_key (quotes_at db cur base t)"
    using inj_on_key [OF assms(1)] inj_on_key [OF assms(2)]
    by (fastforce simp: inj_on_def fx_key_def quotes_at_def known_at_def observation_key_def)
  show ?thesis unfolding fx_chosen_def by (rule first_category_cover [OF sub cover inj])
qed

text \<open>An exchange rate is positive and backed by evidence: it is one for the base currency itself,
  else the value of a direct quote or the reciprocal of an inverse quote dated at or before the
  instant, taken in the first category of the precedence that has a quote in either direction, the
  latest of that category, whose recorded value is positive.\<close>

theorem fx_rate_sound:
  assumes "resolve_fx (prec 28) (fx_resolver_of db) cur base t = (Some v, pv)"
    and "distinct (map ob_id (fx_observations db (cur, base)))" "distinct (map ob_id (fx_observations db (base, cur)))"
  shows "0 < v \<and> (cur = base \<and> v = 1 \<or> (\<exists>ob flipped.
    first_choice fx_key (\<lambda>item. ob_category (fst item)) PRIORITY (quotes_at db cur base t) (ob, flipped) \<and>
    0 < ob_value ob \<and> v = (if flipped then prec 28 (1 / ob_value ob) else ob_value ob)))"
proof (cases "cur = base")
  case True
  with assms(1) show ?thesis by (simp add: resolve_fx_def)
next
  case False
  with assms(1) obtain ob flipped where q: "fx_chosen (fx_resolver_of db) cur base t = Some (ob, flipped)"
    and v: "0 < ob_value ob" "v = (if flipped then ddiv (prec 28) 1 (ob_value ob) else ob_value ob)"
    by (auto simp: resolve_fx_def Let_def split: option.splits if_splits)
  then have "first_choice fx_key (\<lambda>item. ob_category (fst item)) PRIORITY (quotes_at db cur base t) (ob, flipped)"
    using fx_chosen_reference [OF assms(2,3)] by simp
  moreover have "0 < v" using v by (auto simp: ddiv_def intro!: prec_pos)
  moreover have "v = (if flipped then prec 28 (1 / ob_value ob) else ob_value ob)"
    using v(2) by (simp add: ddiv_def)
  ultimately show ?thesis using v(1) by blast
qed

theorem fx_rate_sound_witness:
  "\<exists>ob flipped.
    first_choice fx_key (\<lambda>item. ob_category (fst item)) PRIORITY
      (quotes_at (sample_tables []) ''EUR'' ''USD'' 30) (ob, flipped) \<and>
    0 < ob_value ob \<and> 1 / 2 = (if flipped then prec 28 (1 / ob_value ob) else ob_value ob)"
proof -
  let ?r = "resolve_fx (prec 28) (fx_resolver_of (sample_tables [])) ''EUR'' ''USD'' 30"
  have "fst ?r = Some (1 / 2)" by code_simp
  then have "?r = (Some (1 / 2), snd ?r)" by (metis prod.collapse)
  moreover have "distinct (map ob_id (fx_observations (sample_tables []) (''EUR'', ''USD'')))"
    "distinct (map ob_id (fx_observations (sample_tables []) (''USD'', ''EUR'')))" by code_simp+
  ultimately show ?thesis using fx_rate_sound [of "sample_tables []" "''EUR''" "''USD''" 30 "1 / 2" "snd ?r"] by simp
qed

section \<open>No look-ahead\<close>

text \<open>C25: No look-ahead. Two sets of tables with the same precedence rules and the same observations
  dated at or before an instant, whatever they record afterwards and in whatever order, resolve
  every price and every exchange rate at that instant alike.\<close>

theorem resolution_no_lookahead:
  assumes "known_at t (price_observations text db ids start i) = known_at t (price_observations text db' ids start i)"
    and "\<forall>p \<in> {(cur, base), (base, cur)}. known_at t (fx_observations db p) = known_at t (fx_observations db' p)"
    and "pt_rules db' = pt_rules db"
    and "\<forall>d \<in> {db, db'}. distinct (map ob_id (price_observations text d ids start i)) \<and>
      distinct (map ob_id (fx_observations d (cur, base))) \<and> distinct (map ob_id (fx_observations d (base, cur)))"
  shows "resolve_price (market_resolver_of text db' ids start) i t =
      resolve_price (market_resolver_of text db ids start) i t \<and>
    resolve_fx c (fx_resolver_of db') cur base t = resolve_fx c (fx_resolver_of db) cur base t"
proof -
  have rules: "mr_rules (market_resolver_of text db' ids start) = mr_rules (market_resolver_of text db ids start)"
    by (simp add: market_resolver_of_def Let_def assms(3))
  have "resolve_price (market_resolver_of text db' ids start) i t = Some ob \<longleftrightarrow>
      resolve_price (market_resolver_of text db ids start) i t = Some ob" for ob
    using resolve_price_choice [of "text" db ids start i _ _ t ob, OF _ refl refl]
      resolve_price_choice [of "text" db' ids start i _ _ t ob, OF _ refl refl] assms(1,4) rules by simp
  then have price: "resolve_price (market_resolver_of text db' ids start) i t =
      resolve_price (market_resolver_of text db ids start) i t"
    by (metis not_Some_eq)
  have "quotes_at db' cur base t = quotes_at db cur base t" using assms(2) by (simp add: quotes_at_def)
  then have "fx_chosen (fx_resolver_of db') cur base t = Some q \<longleftrightarrow>
      fx_chosen (fx_resolver_of db) cur base t = Some q" for q
    using fx_chosen_reference [of db cur base t q] fx_chosen_reference [of db' cur base t q] assms(4) by simp
  then have "fx_chosen (fx_resolver_of db') cur base t = fx_chosen (fx_resolver_of db) cur base t"
    by (metis not_Some_eq)
  with price show ?thesis by (simp add: resolve_fx_def)
qed

lemma sample_observations:
  "price_observations sample_text (sample_tables bars) [''X''] None ''X'' =
     map (bar_observation sample_text) ([sample_bar ''demo'' 20 9 ''DEMO DATA'', sample_bar ''first'' 10 7 ''EOD''] @
       filter (\<lambda>b. pb_instrument_id b = ''X'' \<and> pb_interval b = ''1d'') bars)"
  "map ob_id (fx_observations (sample_tables bars) (''EUR'', ''USD'')) = []"
  "map ob_id (fx_observations (sample_tables bars) (''USD'', ''EUR'')) = [''q'']"
  by (auto simp: price_observations_def price_series_def sample_tables_def sample_bar_def
      recent_bar_def fx_observations_def fx_series_def fx_observation_def
      filter_map comp_def intro!: arg_cong [where f = "map (bar_observation sample_text)"] filter_cong)

lemma known_at_simps [simp]:
  "known_at t [] = {}"
  "known_at t (x # xs) = (if ob_timestamp x \<le> t then insert x (known_at t xs) else known_at t xs)"
  by (auto simp: known_at_def)

lemma sample_bar_simps [simp]:
  "pb_instrument_id (sample_bar i t p q) = ''X''" "pb_interval (sample_bar i t p q) = ''1d''"
  "ob_timestamp (bar_observation tx (sample_bar i t p q)) = t" "ob_id (bar_observation tx (sample_bar i t p q)) = i"
  by (simp_all add: sample_bar_def bar_observation_def)

theorem resolution_no_lookahead_witness:
  "resolve_price (market_resolver_of sample_text (sample_tables [sample_bar ''next'' 40 8 ''EOD'']) [''X''] None) ''X'' 30 =
     resolve_price (market_resolver_of sample_text (sample_tables []) [''X''] None) ''X'' 30 \<and>
   resolve_fx (prec 28) (fx_resolver_of (sample_tables [sample_bar ''next'' 40 8 ''EOD''])) ''EUR'' ''USD'' 30 =
     resolve_fx (prec 28) (fx_resolver_of (sample_tables [])) ''EUR'' ''USD'' 30"
proof (rule resolution_no_lookahead)
  let ?later = "sample_tables [sample_bar ''next'' 40 8 ''EOD'']"
  show "known_at 30 (price_observations sample_text (sample_tables []) [''X''] None ''X'') =
      known_at 30 (price_observations sample_text ?later [''X''] None ''X'')"
    by (simp add: sample_observations)
  show "\<forall>p \<in> {(''EUR'', ''USD''), (''USD'', ''EUR'')}.
      known_at 30 (fx_observations (sample_tables []) p) = known_at 30 (fx_observations ?later p)"
    by (simp add: fx_observations_def fx_series_def sample_tables_def)
  show "pt_rules ?later = pt_rules (sample_tables [])" by (simp add: sample_tables_def)
  show "\<forall>d \<in> {sample_tables [], ?later}. distinct (map ob_id (price_observations sample_text d [''X''] None ''X'')) \<and>
      distinct (map ob_id (fx_observations d (''EUR'', ''USD''))) \<and> distinct (map ob_id (fx_observations d (''USD'', ''EUR'')))"
    by (simp add: sample_observations)
qed

end
