(* ===== verification/Portfolio_Balances.thy ===== *)
theory Portfolio_Balances
  imports Revisions
begin

text \<open>
  \<open>portfolio_balances.py\<close>: dated adjustments of the accruals and liabilities of a portfolio. An
  adjustment is appended only if no bucket of any currency would be negative on any day. The
  portfolio lookup is that of \<open>portfolio_valuation.py\<close> and \<open>portfolio_seed.py\<close> for a given key.
\<close>

record adjustment_row =
  ba_id :: string
  ba_created_at :: int
  ba_portfolio_id :: string
  ba_effective_date :: date
  ba_bucket :: string
  ba_currency :: string
  ba_amount :: rat
  ba_reason :: string

record portfolio_db = ledger_db +
  db_adjustments :: "adjustment_row list"

record adjustment_request =
  aq_effective_date :: date
  aq_bucket :: string
  aq_currency :: string
  aq_amount :: rat
  aq_reason :: string

record balance_env =
  be_now :: int
  be_today :: date
  be_row_id :: string
  be_audit_id :: string
  be_storable :: "rat \<Rightarrow> bool"

definition CURRENCIES :: "string list" where
  "CURRENCIES = [''SGD'', ''USD'', ''EUR'', ''GBP'', ''JPY'', ''HKD'', ''AUD'', ''CAD'', ''CHF'',
     ''CNH'', ''CNY'', ''NZD'']"

definition BUCKETS :: "string list" where
  "BUCKETS = [''accrued_income'', ''receivables'', ''payables'', ''accrued_fees'', ''other_liabilities'']"

section \<open>Requests\<close>

definition currency_code :: "string \<Rightarrow> bool" where
  "currency_code s \<longleftrightarrow> length s = 3 \<and> list_all is_upper s"

definition representable_amount :: "ctx \<Rightarrow> rat \<Rightarrow> rat result" where
  "representable_amount c x =
     bindE (stored_decimal_of c x ''adjustment amount'' False False) (\<lambda>v.
     bindE (ensure (v \<noteq> 0) (ValueError ''Balance adjustment must be nonzero'')) (\<lambda>_. Inr v))"

definition check_adjustment_request :: "ctx \<Rightarrow> adjustment_request \<Rightarrow> adjustment_request result" where
  "check_adjustment_request c rq =
     bindE (ensure (aq_bucket rq \<in> set BUCKETS) (ValueError ''Input should be a balance bucket'')) (\<lambda>_.
     bindE (ensure (currency_code (aq_currency rq)) (ValueError ''String should match pattern'')) (\<lambda>_.
     bindE (representable_amount c (aq_amount rq)) (\<lambda>amount.
     bindE (ensure (5 \<le> length (aq_reason rq) \<and> length (aq_reason rq) \<le> 1000)
        (ValueError ''String length out of range'')) (\<lambda>_.
     bindE (meaningful_reason (aq_reason rq)) (\<lambda>reason.
     Inr (rq\<lparr>aq_amount := amount, aq_reason := reason\<rparr>))))))"

section \<open>The portfolio of a key\<close>

definition profile_for :: "profile_row list \<Rightarrow> string \<Rightarrow> profile_row option" where
  "profile_for profiles key =
     find (\<lambda>p. if key \<noteq> [] then pr_portfolio_id p = key \<or> pr_code p = key else pr_code p = ''KNK_MAIN'')
       profiles"

definition portfolio_of :: "'a ledger_db_scheme \<Rightarrow> string \<Rightarrow> (portfolio_row \<times> profile_row) result" where
  "portfolio_of db key =
     bindE (found (ValueError ''Portfolio is not enabled for the audited ledger'')
        (profile_for (db_profiles db) key)) (\<lambda>profile.
     bindE (found (ValueError ''Portfolio record is unavailable'')
        (find (\<lambda>p. po_id p = pr_portfolio_id profile) (db_portfolios db))) (\<lambda>portfolio.
     Inr (portfolio, profile)))"

section \<open>Adding an adjustment\<close>

definition opening_date :: "'a ledger_db_scheme \<Rightarrow> string \<Rightarrow> date option" where
  "opening_date db portfolio_id =
     (case sort (map tr_trade_date (filter (\<lambda>t. tr_portfolio_id t = portfolio_id) (db_transactions db))) of
        [] \<Rightarrow> None | d # _ \<Rightarrow> Some d)"

definition balance_records :: "portfolio_db \<Rightarrow> string \<Rightarrow> string \<Rightarrow> string \<Rightarrow> adjustment_row list" where
  "balance_records db portfolio_id bucket currency =
     filter (\<lambda>r. ba_portfolio_id r = portfolio_id \<and> ba_bucket r = bucket \<and> ba_currency r = currency)
       (db_adjustments db)"

definition add_change :: "ctx \<Rightarrow> (date \<times> rat) list \<Rightarrow> date \<times> rat \<Rightarrow> (date \<times> rat) list" where
  "add_change c d change =
     AList.update (fst change) (dadd c (dict_get d (fst change) 0) (snd change)) d"

definition dated_changes :: "ctx \<Rightarrow> adjustment_row list \<Rightarrow> adjustment_request \<Rightarrow> (date \<times> rat) list" where
  "dated_changes c records rq =
     foldl (add_change c) []
       (map (\<lambda>r. (ba_effective_date r, ba_amount r)) records @ [(aq_effective_date rq, aq_amount rq)])"

definition roll_forward :: "ctx \<Rightarrow> (date \<times> rat) list \<Rightarrow> py_error \<Rightarrow> rat result" where
  "roll_forward c changes err =
     foldE (\<lambda>running day.
        bindE (ensure (0 \<le> dadd c running (dict_get changes day 0)) err) (\<lambda>_.
        Inr (dadd c running (dict_get changes day 0)))) 0 (sort (map fst changes))"

definition adjustment_of :: "balance_env \<Rightarrow> string \<Rightarrow> adjustment_request \<Rightarrow> adjustment_row" where
  "adjustment_of env portfolio_id rq =
     \<lparr>ba_id = be_row_id env, ba_created_at = be_now env, ba_portfolio_id = portfolio_id,
      ba_effective_date = aq_effective_date rq, ba_bucket = aq_bucket rq,
      ba_currency = aq_currency rq, ba_amount = aq_amount rq, ba_reason = aq_reason rq\<rparr>"

definition balance_audit :: "balance_env \<Rightarrow> string option \<Rightarrow> audit_row" where
  "balance_audit env actor =
     \<lparr>au_id = be_audit_id env, au_created_at = be_now env, au_action = ''NAV_BALANCE_ADJUSTED'',
      au_resource_type = ''portfolio_balance'', au_resource_id = be_row_id env, au_actor = actor\<rparr>"

definition add_adjustment ::
  "ctx \<Rightarrow> balance_env \<Rightarrow> portfolio_db \<Rightarrow> string \<Rightarrow> adjustment_request \<Rightarrow> string option \<Rightarrow>
   (adjustment_row \<times> portfolio_db) result" where
  "add_adjustment c env db key rq actor =
     bindE (portfolio_of db key) (\<lambda>(portfolio, profile).
     bindE (ensure (aq_effective_date rq \<le> be_today env)
        (ValueError ''Future balance adjustments are not accepted'')) (\<lambda>_.
     bindE (ensure (aq_currency rq \<in> set CURRENCIES)
        (ValueError ''Balance currency is not configured'')) (\<lambda>_.
     bindE (validate_storage (be_storable env) [(''adjustment amount'', aq_amount rq)]) (\<lambda>_.
     bindE (ensure
        (case opening_date db (po_id portfolio) of Some d \<Rightarrow> d \<le> aq_effective_date rq | None \<Rightarrow> False)
        (ValueError ''Balance adjustment cannot precede the portfolio ledger'')) (\<lambda>_.
     bindE (roll_forward c
          (dated_changes c (balance_records db (po_id portfolio) (aq_bucket rq) (aq_currency rq)) rq)
          (ValueError (''Adjustment makes '' @ aq_bucket rq @ '' in '' @ aq_currency rq @ '' negative''))) (\<lambda>_.
     Inr (adjustment_of env (po_id portfolio) rq,
          db\<lparr>db_adjustments := db_adjustments db @ [adjustment_of env (po_id portfolio) rq],
             db_audit := db_audit db @ [balance_audit env actor]\<rparr>)))))))"

text \<open>The listing of a portfolio, by date and identifier.\<close>

definition list_adjustments :: "portfolio_db \<Rightarrow> string \<Rightarrow> adjustment_row list" where
  "list_adjustments db portfolio_id =
     sort_key (\<lambda>r. (ba_effective_date r, ba_id r))
       (filter (\<lambda>r. ba_portfolio_id r = portfolio_id) (db_adjustments db))"

section \<open>Sums of adjustments\<close>

text \<open>What the valuation reads: the amounts effective on or before a day.\<close>

definition bucket_balance :: "portfolio_db \<Rightarrow> string \<Rightarrow> string \<Rightarrow> string \<Rightarrow> date \<Rightarrow> rat" where
  "bucket_balance db portfolio_id bucket currency day =
     sum_list (map ba_amount (filter (\<lambda>r. ba_effective_date r \<le> day)
       (balance_records db portfolio_id bucket currency)))"

definition total_amount :: "('a \<Rightarrow> rat) \<Rightarrow> 'a list \<Rightarrow> rat" where
  "total_amount f xs = sum_list (map (\<lambda>x. \<bar>f x\<bar>) xs)"

lemma total_amount_simps [simp]:
  "total_amount f [] = 0" "total_amount f (x # xs) = \<bar>f x\<bar> + total_amount f xs"
  "total_amount f (xs @ ys) = total_amount f xs + total_amount f ys" "total_amount f (map g zs) = total_amount (f \<circ> g) zs"
  by (simp_all add: total_amount_def comp_def)

lemma total_amount_nonneg [simp]: "0 \<le> total_amount f xs"
  by (induction xs) auto

lemma total_amount_filter: "total_amount f (filter P xs) \<le> total_amount f xs"
  by (induction xs) auto

lemma abs_sum_le_total: "\<bar>sum_list (map f xs)\<bar> \<le> total_amount f xs"
  by (induction xs) (auto intro: order_trans [OF abs_triangle_ineq])

lemma stored_unit_sum: "(\<And>x. x \<in> set xs \<Longrightarrow> stored_unit (f x)) \<Longrightarrow> stored_unit (sum_list (map f xs))"
  by (induction xs) auto

abbreviation on_day :: "(date \<times> rat) list \<Rightarrow> date \<Rightarrow> rat" where
  "on_day cs d \<equiv> sum_list (map snd (filter (\<lambda>c. fst c = d) cs))"

lemma add_change_simps:
  "dict_get (add_change c d ch) k 0 =
     (if k = fst ch then dadd c (dict_get d (fst ch) 0) (snd ch) else dict_get d k 0)"
  "set (map fst (add_change c d ch)) = insert (fst ch) (set (map fst d))"
  "distinct (map fst d) \<Longrightarrow> distinct (map fst (add_change c d ch))"
  by (auto simp: add_change_def keys_update distinct_update simp del: set_map)

text \<open>The dated changes are the exact sums of each day.\<close>

lemma changes_exact:
  assumes "\<And>x. x \<in> set cs \<Longrightarrow> stored_unit (snd x)" "total_amount snd cs < 10 ^ 20"
  shows "dict_get (foldl (add_change (prec 28)) [] cs) d 0 = on_day cs d"
    "set (map fst (foldl (add_change (prec 28)) [] cs)) = fst ` set cs"
    "distinct (map fst (foldl (add_change (prec 28)) [] cs))"
proof -
  have "(\<forall>d. dict_get (foldl (add_change (prec 28)) [] cs) d 0 = on_day cs d) \<and>
      set (map fst (foldl (add_change (prec 28)) [] cs)) = fst ` set cs \<and>
      distinct (map fst (foldl (add_change (prec 28)) [] cs))"
    using assms
  proof (induction cs rule: rev_induct)
    case (snoc c cs)
    let ?d = "foldl (add_change (prec 28)) [] cs"
    have le: "\<bar>on_day cs (fst c)\<bar> + \<bar>snd c\<bar> < 10 ^ 20"
      using abs_sum_le_total [of snd "filter (\<lambda>x. fst x = fst c) cs"]
        total_amount_filter [of snd "\<lambda>x. fst x = fst c" cs] snoc.prems(2) by simp
    have IH: "\<forall>d. dict_get ?d d 0 = on_day cs d" "set (map fst ?d) = fst ` set cs" "distinct (map fst ?d)"
      using snoc.IH snoc.prems total_amount_nonneg [of snd "[c]"] by (auto simp del: set_map)
    have "dadd (prec 28) (on_day cs (fst c)) (snd c) = on_day cs (fst c) + snd c"
      using snoc.prems(1) le by (intro dadd_stored_unit stored_unit_sum) (auto intro: le_less_trans [OF abs_triangle_ineq])
    with IH show ?case
      by (simp add: add_change_simps del: set_map)
  qed simp
  then show "dict_get (foldl (add_change (prec 28)) [] cs) d 0 = on_day cs d"
    "set (map fst (foldl (add_change (prec 28)) [] cs)) = fst ` set cs"
    "distinct (map fst (foldl (add_change (prec 28)) [] cs))" by blast+
qed

text \<open>An accepted roll-forward is nowhere negative.\<close>

lemma roll_loop:
  assumes "foldE (\<lambda>running day. bindE (ensure (0 \<le> dadd (prec 28) running (g day)) err) (\<lambda>_.
      Inr (dadd (prec 28) running (g day)))) r ds = Inr out"
    and "sorted ds" "\<And>d. d \<in> set ds \<Longrightarrow> stored_unit (g d)" "stored_unit r" "0 \<le> r"
    and "\<bar>r\<bar> + total_amount g ds < 10 ^ 20"
  shows "0 \<le> r + sum_list (map g (filter (\<lambda>d. d \<le> day) ds))"
  using assms
proof (induction ds arbitrary: r)
  case (Cons d ds)
  have "\<bar>r + g d\<bar> \<le> \<bar>r\<bar> + \<bar>g d\<bar>" by (rule abs_triangle_ineq)
  moreover have "\<bar>r\<bar> + (\<bar>g d\<bar> + total_amount g ds) < 10 ^ 20" using Cons.prems(6) by simp
  ultimately have small: "\<bar>r + g d\<bar> + total_amount g ds < 10 ^ 20" "\<bar>r + g d\<bar> < 10 ^ 20"
    using total_amount_nonneg [of g ds] by linarith+
  then have sum: "dadd (prec 28) r (g d) = r + g d" using Cons.prems(3,4) by (intro dadd_stored_unit) auto
  from Cons.prems(1) have pos: "0 \<le> r + g d" and rest: "foldE (\<lambda>running day.
      bindE (ensure (0 \<le> dadd (prec 28) running (g day)) err) (\<lambda>_.
      Inr (dadd (prec 28) running (g day)))) (r + g d) ds = Inr out"
    by (auto simp: sum result_simps)
  show ?case
  proof (cases "d \<le> day")
    case True
    from Cons.IH [OF rest _ _ _ pos small(1)] Cons.prems(2,3,4) True show ?thesis by (simp add: add.assoc)
  next
    case False
    with Cons.prems(2) have "filter (\<lambda>d. d \<le> day) (d # ds) = []" by (auto simp: filter_empty_conv)
    with Cons.prems(5) show ?thesis by simp
  qed
qed simp

lemma total_by_day:
  assumes "distinct ds" "fst ` set cs \<subseteq> set ds"
  shows "total_amount (on_day cs) ds \<le> total_amount snd cs"
proof -
  have "total_amount (on_day cs) ds \<le> sum_list (map (\<lambda>d. total_amount snd (filter (\<lambda>c. fst c = d) cs)) ds)"
    unfolding total_amount_def [of "on_day cs"] by (intro sum_list_mono abs_sum_le_total)
  also have "\<dots> = total_amount snd cs"
    unfolding total_amount_def using assms by (intro sum_by_key) auto
  finally show ?thesis .
qed

lemma roll_forward_nonneg:
  assumes "roll_forward (prec 28) (foldl (add_change (prec 28)) [] cs) err = Inr out"
    and "\<And>x. x \<in> set cs \<Longrightarrow> stored_unit (snd x)" "total_amount snd cs < 10 ^ 20"
  shows "0 \<le> sum_list (map snd (filter (\<lambda>c. fst c \<le> day) cs))"
proof -
  let ?d = "foldl (add_change (prec 28)) [] cs" and ?ds = "sort (map fst (foldl (add_change (prec 28)) [] cs))"
  note exact = changes_exact [OF assms(2,3)]
  have g: "dict_get ?d d 0 = on_day cs d" for d by (rule exact(1))
  have ds: "distinct ?ds" "set ?ds = fst ` set cs" using exact(2,3) by (simp_all del: set_map)
  have "0 \<le> 0 + sum_list (map (on_day cs) (filter (\<lambda>d. d \<le> day) ?ds))"
  proof (rule roll_loop)
    show "foldE (\<lambda>running day. bindE (ensure (0 \<le> dadd (prec 28) running (on_day cs day)) err) (\<lambda>_.
        Inr (dadd (prec 28) running (on_day cs day)))) 0 ?ds = Inr out"
      using assms(1) by (simp add: roll_forward_def g)
    show "stored_unit (on_day cs d)" for d using assms(2) by (intro stored_unit_sum) auto
    show "\<bar>0\<bar> + total_amount (on_day cs) ?ds < 10 ^ 20"
      using total_by_day [OF ds(1), of cs] ds(2) assms(3) by simp
  qed simp_all
  moreover have "map (on_day cs) (filter (\<lambda>d. d \<le> day) ?ds) =
      map (\<lambda>d. sum_list (map snd (filter (\<lambda>c. fst c = d) (filter (\<lambda>c. fst c \<le> day) cs))))
        (filter (\<lambda>d. d \<le> day) ?ds)"
    by (intro map_cong refl arg_cong [where f = sum_list] arg_cong [where f = "map snd"]) (auto intro: filter_cong)
  moreover have "sum_list (map (\<lambda>d. sum_list (map snd (filter (\<lambda>c. fst c = d) (filter (\<lambda>c. fst c \<le> day) cs))))
      (filter (\<lambda>d. d \<le> day) ?ds)) = sum_list (map snd (filter (\<lambda>c. fst c \<le> day) cs))"
    by (rule sum_by_key) (use ds in auto)
  ultimately show ?thesis by simp
qed

section \<open>The adjustments as a state machine\<close>

inductive adjustment_step :: "portfolio_db \<Rightarrow> portfolio_db \<Rightarrow> bool" where
  adjustment_step_adjust: "check_adjustment_request (prec 28) rq = Inr rq' \<Longrightarrow>
    add_adjustment (prec 28) env db key rq' actor = Inr (row, db') \<Longrightarrow> adjustment_step db db'"

inductive_cases adjustment_stepE: "adjustment_step db db'"

definition balances_ok :: "portfolio_db \<Rightarrow> bool" where
  "balances_ok db \<longleftrightarrow> (\<forall>r \<in> set (db_adjustments db). stored_unit (ba_amount r)) \<and>
     (\<forall>pf bucket currency day. 0 \<le> bucket_balance db pf bucket currency day)"

lemma add_adjustment_Inr:
  assumes "add_adjustment c env db key rq actor = Inr (row, db')"
  shows "\<exists>pf err out. roll_forward c (dated_changes c (balance_records db pf (aq_bucket rq)
      (aq_currency rq)) rq) err = Inr out \<and>
    db_adjustments db' = db_adjustments db @ [adjustment_of env pf rq]"
  using assms by (auto simp: add_adjustment_def result_simps simp del: append.simps) blast

lemma check_adjustment_unit:
  "check_adjustment_request (prec 28) rq = Inr rq' \<Longrightarrow> stored_unit (aq_amount rq')"
  by (auto simp: check_adjustment_request_def representable_amount_def result_simps intro: stored_unit_decimal)

lemma adjustment_step_total:
  "adjustment_step db db' \<Longrightarrow> total_amount ba_amount (db_adjustments db) \<le> total_amount ba_amount (db_adjustments db')"
proof (elim adjustment_stepE)
  fix rq rq' env key actor row
  assume "add_adjustment (prec 28) env db key rq' actor = Inr (row, db')"
  from add_adjustment_Inr [OF this] obtain r where "db_adjustments db' = db_adjustments db @ [r]" by blast
  then show "total_amount ba_amount (db_adjustments db) \<le> total_amount ba_amount (db_adjustments db')"
    unfolding \<open>db_adjustments db' = _\<close> by simp
qed

lemma balances_ok_step:
  assumes "adjustment_step db db'" "balances_ok db" "total_amount ba_amount (db_adjustments db') < 10 ^ 20"
  shows "balances_ok db'"
  using assms(1)
proof cases
  case (adjustment_step_adjust rq rq' env key actor row)
  let ?u = "stored_unit \<circ> ba_amount"
  from add_adjustment_Inr [OF adjustment_step_adjust(2)] obtain pf' err out where
    roll: "roll_forward (prec 28) (dated_changes (prec 28) (balance_records db pf' (aq_bucket rq')
        (aq_currency rq')) rq') err = Inr out"
    and db': "db_adjustments db' = db_adjustments db @ [adjustment_of env pf' rq']" by blast
  let ?row = "adjustment_of env pf' rq'"
  have unit: "\<forall>r \<in> set (db_adjustments db'). stored_unit (ba_amount r)"
    using assms(2) check_adjustment_unit [OF adjustment_step_adjust(1)] by (auto simp: db' balances_ok_def adjustment_of_def)
  have "0 \<le> bucket_balance db' pf bucket currency day" for pf bucket currency day
  proof (cases "pf = pf' \<and> bucket = aq_bucket rq' \<and> currency = aq_currency rq'")
    case False
    then have "balance_records db' pf bucket currency = balance_records db pf bucket currency"
      by (auto simp: balance_records_def db' adjustment_of_def)
    with assms(2) show ?thesis by (simp add: bucket_balance_def balances_ok_def)
  next
    case True
    let ?rs = "balance_records db' pf bucket currency"
    let ?cs = "map (\<lambda>r. (ba_effective_date r, ba_amount r)) ?rs"
    have rs: "?rs = balance_records db pf bucket currency @ [?row]"
      using True by (simp add: balance_records_def db' adjustment_of_def)
    have "roll_forward (prec 28) (foldl (add_change (prec 28)) [] ?cs) err = Inr out"
      unfolding rs using roll True by (simp add: dated_changes_def adjustment_of_def)
    moreover have "stored_unit (snd x)" if "x \<in> set ?cs" for x
      using that unit by (auto simp: balance_records_def)
    moreover have "total_amount snd ?cs \<le> total_amount ba_amount (db_adjustments db')"
      by (simp add: comp_def balance_records_def total_amount_filter)
    ultimately have "0 \<le> sum_list (map snd (filter (\<lambda>c. fst c \<le> day) ?cs))"
      using assms(3) roll_forward_nonneg [of ?cs] by (meson le_less_trans)
    then show ?thesis by (simp add: bucket_balance_def filter_map comp_def)
  qed
  with unit show ?thesis by (simp add: balances_ok_def)
qed

text \<open>C26: However balance adjustments are added, no bucket of any currency of any portfolio is negative
  on any day, in the 28-digit context of the code, as long as the recorded amounts stay below
  \<open>10 ^ 20\<close> in total.\<close>

theorem balances_never_negative:
  assumes "adjustment_step\<^sup>*\<^sup>* db0 db" "db_adjustments db0 = []"
    and "total_amount ba_amount (db_adjustments db) < 10 ^ 20"
  shows "0 \<le> bucket_balance db portfolio_id bucket currency day"
proof -
  have "balances_ok db" using assms
  proof (induction rule: rtranclp_induct)
    case base
    then show ?case by (simp add: balances_ok_def bucket_balance_def balance_records_def)
  next
    case (step db db')
    have "total_amount ba_amount (db_adjustments db) < 10 ^ 20"
      using adjustment_step_total [OF step.hyps(2)] step.prems(2) by (rule le_less_trans)
    from step.IH [OF step.prems(1) this] show ?case
      by (rule balances_ok_step [OF step.hyps(2) _ step.prems(2)])
  qed
  then show ?thesis by (simp add: balances_ok_def)
qed

text \<open>A portfolio opened on day one accrues income on day three.\<close>

definition accrual_db :: "adjustment_row list \<Rightarrow> audit_row list \<Rightarrow> portfolio_db" where
  "accrual_db adjustments audit =
     \<lparr>db_portfolios = [\<lparr>po_id = ''P'', po_name = ''P'', po_base_currency = ''USD'',
        po_reference_capital = 1000, po_is_default = True\<rparr>],
      db_profiles = [\<lparr>pr_portfolio_id = ''P'', pr_code = ''MAIN'', pr_is_demo = False, pr_configuration = []\<rparr>],
      db_transactions = [\<lparr>tr_id = ''cash'', tr_created_at = 1, tr_updated_at = 1, tr_portfolio_id = ''P'',
        tr_account_id = None, tr_instrument_id = None, tr_kind = ''DEPOSIT'', tr_trade_date = 1,
        tr_settle_date = None, tr_quantity = 1, tr_price = 1000, tr_currency = ''USD'', tr_fx = 1,
        tr_fee = 0, tr_source = ''MANUAL'', tr_quality = ''INTERNAL LEDGER'', tr_notes = None\<rparr>],
      db_details = [], db_revisions = [], db_audit = audit, db_symbols = [], db_adjustments = adjustments\<rparr>"

definition accrual :: adjustment_request where
  "accrual = \<lparr>aq_effective_date = 3, aq_bucket = ''accrued_income'', aq_currency = ''USD'',
     aq_amount = 25, aq_reason = ''coupon''\<rparr>"

definition accrual_env :: balance_env where
  "accrual_env = \<lparr>be_now = 9, be_today = 9, be_row_id = ''a'', be_audit_id = ''l'', be_storable = (\<lambda>_. True)\<rparr>"

lemma accrual_added:
  "map_sum id snd (add_adjustment (prec 28) accrual_env (accrual_db [] []) ''MAIN'' accrual None) =
   Inr (accrual_db [adjustment_of accrual_env ''P'' accrual] [balance_audit accrual_env None])"
  by code_simp

theorem balances_never_negative_witness:
  "0 \<le> bucket_balance (accrual_db [adjustment_of accrual_env ''P'' accrual] [balance_audit accrual_env None])
     ''P'' ''accrued_income'' ''USD'' 4"
proof (rule balances_never_negative)
  have "check_adjustment_request (prec 28) accrual = Inr accrual" by code_simp
  moreover obtain row where "add_adjustment (prec 28) accrual_env (accrual_db [] []) ''MAIN'' accrual None =
      Inr (row, accrual_db [adjustment_of accrual_env ''P'' accrual] [balance_audit accrual_env None])"
    using accrual_added
    by (cases "add_adjustment (prec 28) accrual_env (accrual_db [] []) ''MAIN'' accrual None") auto
  ultimately show "adjustment_step\<^sup>*\<^sup>* (accrual_db [] [])
      (accrual_db [adjustment_of accrual_env ''P'' accrual] [balance_audit accrual_env None])"
    by (intro r_into_rtranclp adjustment_step.intros)
qed (simp_all add: accrual_db_def adjustment_of_def accrual_def)

end
