(* ===== verification/Daily_Valuation.thy ===== *)
theory Daily_Valuation
  imports Price_Sources Portfolio_Balances Nav Position_Metrics Position_Pnl
begin

text \<open>
  The daily loop of \<open>calculate\<close> in \<open>portfolio_valuation.py\<close>: every day of the calendar replays
  the entries of the day, marks cash, positions and balance adjustments at the prices and rates
  known at the close, and derives NAV, daily performance and the running return index. \<open>fl\<close> is
  the conversion to the nearest double (\<open>number\<close>), kept as the rational it denotes.
\<close>

record valuation_env =
  vn_now :: int
  vn_today :: date
  vn_fl :: "rat \<Rightarrow> rat"
  vn_lot_id :: "string \<Rightarrow> string"

text \<open>What the loop asks of the price and rate sources.\<close>

record market =
  mk_price :: "string \<Rightarrow> int \<Rightarrow> observation option"
  mk_describe :: "string \<Rightarrow> int \<Rightarrow> price_description"
  mk_fx :: "string \<Rightarrow> string \<Rightarrow> int \<Rightarrow> rat option \<times> provenance"

section \<open>Inputs\<close>

definition demo_groups :: "groups \<Rightarrow> groups" where
  "demo_groups g = filter (\<lambda>((category, source), obs). category = ''DEMO'') g"

definition demo_prices :: "market_resolver \<Rightarrow> market_resolver" where
  "demo_prices r = r\<lparr>mr_rules := [], mr_grouped := map (\<lambda>(i, g). (i, demo_groups g)) (mr_grouped r)\<rparr>"

definition demo_fx :: "fx_resolver \<Rightarrow> fx_resolver" where
  "demo_fx r = map (\<lambda>(p, g). (p, demo_groups g)) r"

definition market_of ::
  "ctx \<Rightarrow> (rat \<Rightarrow> rat) \<Rightarrow> (rat \<Rightarrow> string) \<Rightarrow> price_tables \<Rightarrow> string list \<Rightarrow> date \<Rightarrow> bool \<Rightarrow> market" where
  "market_of c fl text db ids start demo_only =
     (let prices = market_resolver_of text db ids (Some start);
          prices = (if demo_only then demo_prices prices else prices);
          fx = (if demo_only then demo_fx (fx_resolver_of db) else fx_resolver_of db)
      in \<lparr>mk_price = resolve_price prices, mk_describe = describe c fl prices,
          mk_fx = resolve_fx c fx\<rparr>)"

definition child_instruments :: "entry list \<Rightarrow> string list" where
  "child_instruments entries =
     List.map_filter (\<lambda>e. case meta_get (e_metadata e) ''child_instrument_id'' of
        VStr s \<Rightarrow> if s \<noteq> [] then Some s else None | _ \<Rightarrow> None) entries"

definition valuation_ids :: "entry list \<Rightarrow> string option \<Rightarrow> string list" where
  "valuation_ids entries benchmark =
     remdups (List.map_filter (\<lambda>e. if has_instrument e then e_instrument_id e else None) entries @
       child_instruments entries @ (case benchmark of Some i \<Rightarrow> [i] | None \<Rightarrow> []))"

definition valuation_days ::
  "entry list \<Rightarrow> adjustment_row list \<Rightarrow> market_resolver \<Rightarrow> date \<Rightarrow> date \<Rightarrow> date list" where
  "valuation_days entries adjustments prices start end_day =
     sorted_keys (filter (\<lambda>d. start \<le> d \<and> d \<le> end_day)
       (map e_day entries @ map settlement entries @ [end_day] @ map ba_effective_date adjustments @
        concat (map (\<lambda>(i, obs). map (\<lambda>ob. timestamp_day (ob_timestamp ob)) obs) (mr_series prices))))"

definition valuation_instant :: "valuation_env \<Rightarrow> date \<Rightarrow> int" where
  "valuation_instant env day =
     (if day = vn_today env then min (close_of_day day) (vn_now env) else close_of_day day)"

section \<open>Cash\<close>

record cash_row =
  cr_currency :: string
  cr_amount :: rat
  cr_settled :: rat
  cr_receivable :: rat
  cr_payable :: rat
  cr_available :: rat
  cr_base_value :: "rat option"
  cr_base_value_exact :: "rat option"
  cr_fx_rate :: "rat option"
  cr_fx_provenance :: provenance

record cash_marks =
  cm_rows :: "cash_row list"
  cm_missing :: "string list"
  cm_total :: rat
  cm_settled :: rat
  cm_components :: "rat list"
  cm_available :: rat
  cm_receivables :: rat
  cm_payables :: rat
  cm_sources :: "provenance list"

definition no_cash :: cash_marks where
  "no_cash = \<lparr>cm_rows = [], cm_missing = [], cm_total = 0, cm_settled = 0, cm_components = [],
     cm_available = 0, cm_receivables = 0, cm_payables = 0, cm_sources = []\<rparr>"

definition cash_row_of :: "ctx \<Rightarrow> string \<Rightarrow> currency_cash \<Rightarrow> rat option \<times> provenance \<Rightarrow> cash_row" where
  "cash_row_of c currency b quote =
     (let exact = map_option (dmul c (cc_economic b)) (fst quote)
      in \<lparr>cr_currency = currency, cr_amount = cc_economic b, cr_settled = cc_settled b,
          cr_receivable = cc_receivable b, cr_payable = cc_payable b, cr_available = cc_available b,
          cr_base_value = map_option cents exact, cr_base_value_exact = exact,
          cr_fx_rate = fst quote, cr_fx_provenance = snd quote\<rparr>)"

definition empty_cash :: "currency_cash \<Rightarrow> bool" where
  "empty_cash b \<longleftrightarrow> cc_economic b = 0 \<and> cc_settled b = 0 \<and> cc_receivable b = 0 \<and> cc_payable b = 0"

definition add_marked_cash :: "ctx \<Rightarrow> rat \<Rightarrow> currency_cash \<Rightarrow> cash_marks \<Rightarrow> cash_marks" where
  "add_marked_cash c rate b k =
     k\<lparr>cm_total := dadd c (cm_total k) (dmul c (cc_economic b) rate),
       cm_settled := dadd c (cm_settled k) (dmul c (cc_settled b) rate),
       cm_components := cm_components k @ [dmul c (cc_settled b) rate],
       cm_available := dadd c (cm_available k) (dmul c (cc_available b) rate),
       cm_receivables := dadd c (cm_receivables k) (dmul c (cc_receivable b) rate),
       cm_payables := dadd c (cm_payables k) (dmul c (cc_payable b) rate)\<rparr>"

definition mark_cash_step ::
  "ctx \<Rightarrow> (string \<Rightarrow> rat option \<times> provenance) \<Rightarrow> string \<Rightarrow> cash_marks \<Rightarrow> string \<times> currency_cash \<Rightarrow> cash_marks" where
  "mark_cash_step c quote base k cb =
     (let (currency, b) = cb in
      if empty_cash b then k
      else
        let k = k\<lparr>cm_rows := cm_rows k @ [cash_row_of c currency b (quote currency)],
                  cm_sources := cm_sources k @ [snd (quote currency)]\<rparr>
        in case fst (quote currency) of
             None \<Rightarrow> k\<lparr>cm_missing := cm_missing k @ [''Missing FX '' @ currency @ ''/'' @ base]\<rparr>
           | Some rate \<Rightarrow> add_marked_cash c rate b k)"

definition mark_cash ::
  "ctx \<Rightarrow> (string \<Rightarrow> rat option \<times> provenance) \<Rightarrow> string \<Rightarrow> (string \<times> currency_cash) list \<Rightarrow> cash_marks" where
  "mark_cash c quote base bs = foldl (mark_cash_step c quote base) no_cash bs"

section \<open>Positions\<close>

record position_row =
  vp_instrument :: instrument_row
  vp_amounts :: position_payload
  vp_price_provenance :: price_description
  vp_fx_provenance :: provenance
  vp_fx_rate :: "rat option"
  vp_sector :: string
  vp_industry :: string
  vp_weight :: rat
  vp_daily_pnl :: "rat option"
  vp_daily_details :: "period_pnl option"

record position_marks =
  pk_rows :: "position_row list"
  pk_missing :: "string list"
  pk_values :: "rat dict"
  pk_stale :: "bool list"

definition no_positions :: position_marks where
  "no_positions = \<lparr>pk_rows = [], pk_missing = [], pk_values = [], pk_stale = []\<rparr>"

definition or_unclassified :: "string option \<Rightarrow> string" where
  "or_unclassified x = (case x of Some s \<Rightarrow> if s \<noteq> [] then s else ''Unclassified'' | None \<Rightarrow> ''Unclassified'')"

definition position_row_of ::
  "ctx \<Rightarrow> instrument_row \<Rightarrow> measurement \<Rightarrow> price_description \<Rightarrow> rat option \<times> provenance \<Rightarrow> position_row" where
  "position_row_of c item m provenance quote =
     \<lparr>vp_instrument = item, vp_amounts = position_payload_of c m, vp_price_provenance = provenance,
      vp_fx_provenance = snd quote, vp_fx_rate = fst quote,
      vp_sector = or_unclassified (in_sector item), vp_industry = or_unclassified (in_industry item),
      vp_weight = 0, vp_daily_pnl = None, vp_daily_details = None\<rparr>"

text \<open>\<open>instruments[key]\<close>.\<close>

definition instrument_of :: "instrument_row list \<Rightarrow> string \<Rightarrow> instrument_row result" where
  "instrument_of instruments i = found (KeyError i) (find (\<lambda>r. in_id r = i) instruments)"

definition mark_position_step ::
  "ctx \<Rightarrow> market \<Rightarrow> instrument_row list \<Rightarrow> string \<Rightarrow> int \<Rightarrow> position_marks \<Rightarrow> string \<times> position \<Rightarrow>
   position_marks result" where
  "mark_position_step c mk instruments base t k ip =
     (let (i, lot) = ip in
      if ps_quantity lot = 0 then Inr k
      else
        bindE (instrument_of instruments i) (\<lambda>item.
        let price = mk_price mk i t; quote = mk_fx mk (in_currency item) base t in
        bindE (measure_position c lot (map_option ob_value price) (fst quote)) (\<lambda>m.
        let k = k\<lparr>pk_rows := pk_rows k @ [position_row_of c item m (mk_describe mk i t) quote],
                  pk_stale := pk_stale k @ [pv_stale (mk_describe mk i t), pv_stale (snd quote)]\<rparr>
        in case pm_base_value m of
             None \<Rightarrow> Inr (k\<lparr>pk_missing := pk_missing k @
               [in_symbol item @ '': missing '' @ (if price = None then ''price'' else ''FX'')]\<rparr>)
           | Some v \<Rightarrow> Inr (k\<lparr>pk_values := AList.update i v (pk_values k)\<rparr>))))"

definition mark_positions ::
  "ctx \<Rightarrow> market \<Rightarrow> instrument_row list \<Rightarrow> string \<Rightarrow> int \<Rightarrow> position dict \<Rightarrow> position_marks result" where
  "mark_positions c mk instruments base t lots =
     foldE (mark_position_step c mk instruments base t) no_positions lots"

section \<open>Balance adjustments\<close>

record balance_exposure =
  bx_bucket :: string
  bx_currency :: string
  bx_amount :: rat
  bx_base_value :: "rat option"
  bx_fx_rate :: "rat option"
  bx_fx_provenance :: provenance

record balance_marks =
  bm_rows :: "balance_exposure list"
  bm_missing :: "string list"
  bm_balances :: "rat dict"
  bm_stale :: "bool list"

definition no_balances :: balance_marks where
  "no_balances = \<lparr>bm_rows = [], bm_missing = [], bm_balances = [], bm_stale = []\<rparr>"

definition add_native :: "ctx \<Rightarrow> ((string \<times> string) \<times> rat) list \<Rightarrow> adjustment_row \<Rightarrow> ((string \<times> string) \<times> rat) list" where
  "add_native c d r =
     (let k = (ba_bucket r, ba_currency r) in AList.update k (dadd c (dict_get d k 0) (ba_amount r)) d)"

definition native_balances :: "ctx \<Rightarrow> adjustment_row list \<Rightarrow> date \<Rightarrow> ((string \<times> string) \<times> rat) list" where
  "native_balances c adjustments day =
     foldl (add_native c) [] (filter (\<lambda>r. ba_effective_date r \<le> day) adjustments)"

definition bucket_sign :: "string \<Rightarrow> rat" where
  "bucket_sign bucket = (if bucket \<in> {''accrued_income'', ''receivables''} then 1 else - 1)"

definition add_bucket :: "ctx \<Rightarrow> string \<Rightarrow> rat \<Rightarrow> rat dict \<Rightarrow> rat dict" where
  "add_bucket c bucket x d = AList.update bucket (dadd c (dict_get d bucket 0) x) d"

definition mark_balance_step ::
  "ctx \<Rightarrow> (string \<Rightarrow> rat option \<times> provenance) \<Rightarrow> balance_marks \<Rightarrow> (string \<times> string) \<times> rat \<Rightarrow> balance_marks" where
  "mark_balance_step c quote k ba =
     (let ((bucket, currency), amount) = ba; rate = fst (quote currency);
          base_value = map_option (dmul c amount) rate;
          k = k\<lparr>bm_rows := bm_rows k @
                [\<lparr>bx_bucket = bucket, bx_currency = currency, bx_amount = amount,
                  bx_base_value = map_option (\<lambda>v. dmul c v (bucket_sign bucket)) base_value,
                  bx_fx_rate = rate, bx_fx_provenance = snd (quote currency)\<rparr>],
                bm_stale := bm_stale k @ [pv_stale (snd (quote currency))]\<rparr>
      in case base_value of
           None \<Rightarrow> k\<lparr>bm_missing := bm_missing k @ [''Missing adjustment FX '' @ currency]\<rparr>
         | Some v \<Rightarrow> k\<lparr>bm_balances := add_bucket c bucket v (bm_balances k)\<rparr>)"

definition mark_balances ::
  "ctx \<Rightarrow> (string \<Rightarrow> rat option \<times> provenance) \<Rightarrow> adjustment_row list \<Rightarrow> date \<Rightarrow> balance_marks" where
  "mark_balances c quote adjustments day =
     foldl (mark_balance_step c quote) no_balances
       (filter (\<lambda>kv. snd kv \<noteq> 0) (sort_key fst (native_balances c adjustments day)))"

section \<open>One day\<close>

record valuation_day =
  vd_date :: date
  vd_equity :: "rat option"
  vd_opening_nav :: "rat option"
  vd_daily_pnl :: "rat option"
  vd_external_flow :: rat
  vd_return :: "rat option"
  vd_nav_exact :: "rat option"
  vd_opening_nav_exact :: "rat option"
  vd_pnl_exact :: "rat option"
  vd_external_flow_exact :: rat
  vd_net_return_exact :: "rat option"
  vd_fee_expense_exact :: "rat option"
  vd_benchmark :: "rat option"
  vd_benchmark_return :: "rat option"
  vd_benchmark_return_exact :: "rat option"
  vd_drawdown :: "rat option"
  vd_return_index :: "rat option"
  vd_quality :: string

record valuation_state =
  vs_ledger :: ledger
  vs_entries :: "entry list"
  vs_previous_nav :: "rat option"
  vs_return_index :: "rat option"
  vs_peak :: rat
  vs_previous_benchmark :: "rat option"
  vs_benchmark_equity :: "rat option"
  vs_previous_accrued_fees :: rat
  vs_curve :: "valuation_day list"
  vs_histories :: "(string \<times> date \<times> rat) list"
  vs_positions :: "position_row list"
  vs_cash :: "cash_row list"
  vs_contributions :: "rat option dict"
  vs_position_values :: "rat option dict"
  vs_warnings :: "string list"
  vs_totals :: "nav_result option"
  vs_balance_rows :: "balance_exposure list"

definition initial_valuation :: "policy \<Rightarrow> entry list \<Rightarrow> valuation_state" where
  "initial_valuation policy entries =
     \<lparr>vs_ledger = new_ledger policy, vs_entries = entries, vs_previous_nav = Some 0,
      vs_return_index = Some 1, vs_peak = 1, vs_previous_benchmark = None,
      vs_benchmark_equity = Some 0, vs_previous_accrued_fees = 0, vs_curve = [], vs_histories = [],
      vs_positions = [], vs_cash = [], vs_contributions = [], vs_position_values = [],
      vs_warnings = [], vs_totals = None, vs_balance_rows = []\<rparr>"

text \<open>The entries of the day, applied to the ledger and recorded for the attribution.\<close>

definition apply_day ::
  "ctx \<Rightarrow> (string \<Rightarrow> string) \<Rightarrow> ledger \<times> pnl_session \<Rightarrow> entry \<Rightarrow> (ledger \<times> pnl_session) result" where
  "apply_day c u sp e =
     bindE (apply_entry c u (fst sp) e) (\<lambda>s.
     bindE (record_entry c (snd sp) e) (\<lambda>pn. Inr (s, pn)))"

text \<open>Everything marked at the close of a day.\<close>

record day_marks =
  dm_cash :: cash_marks
  dm_positions :: position_marks
  dm_balances :: balance_marks
  dm_buckets :: "rat dict"
  dm_totals :: nav_result

definition missing_marks :: "day_marks \<Rightarrow> string list" where
  "missing_marks m = cm_missing (dm_cash m) @ pk_missing (dm_positions m) @ bm_missing (dm_balances m)"

definition stale_marks :: "day_marks \<Rightarrow> bool" where
  "stale_marks m \<longleftrightarrow> list_ex pv_stale (cm_sources (dm_cash m)) \<or>
     list_ex (\<lambda>b. b) (pk_stale (dm_positions m)) \<or> list_ex (\<lambda>b. b) (bm_stale (dm_balances m))"

definition nav_buckets :: "ctx \<Rightarrow> cash_marks \<Rightarrow> balance_marks \<Rightarrow> rat dict" where
  "nav_buckets c cash bals =
     add_bucket c ''payables'' (cm_payables cash)
       (add_bucket c ''receivables'' (cm_receivables cash) (bm_balances bals))"

definition with_totals ::
  "ctx \<Rightarrow> cash_marks \<Rightarrow> balance_marks \<Rightarrow> rat dict \<Rightarrow> position_marks \<Rightarrow> day_marks result" where
  "with_totals c cash bals buckets positions =
     bindE (nav_total c (cm_settled cash) (map snd (pk_values positions)) buckets
       (Some (cm_components cash))) (\<lambda>totals.
     Inr \<lparr>dm_cash = cash, dm_positions = positions, dm_balances = bals, dm_buckets = buckets,
          dm_totals = totals\<rparr>)"

definition totalled ::
  "ctx \<Rightarrow> position_marks result \<Rightarrow> cash_marks \<Rightarrow> balance_marks \<Rightarrow> day_marks result" where
  "totalled c positions cash bals = bindE positions (with_totals c cash bals (nav_buckets c cash bals))"

definition mark_day ::
  "ctx \<Rightarrow> market \<Rightarrow> instrument_row list \<Rightarrow> string \<Rightarrow> adjustment_row list \<Rightarrow> int \<Rightarrow> date \<Rightarrow> ledger \<Rightarrow>
   day_marks result" where
  "mark_day c mk instruments base adjustments t day s =
     totalled c (mark_positions c mk instruments base t (lg_lots s))
       (mark_cash c (\<lambda>currency. mk_fx mk currency base t) base (balances c (lg_movements s) day None))
       (mark_balances c (\<lambda>currency. mk_fx mk currency base t) adjustments day)"

definition nav_of :: "day_marks \<Rightarrow> rat option" where
  "nav_of m = (if missing_marks m = [] then Some (nv_nav (dm_totals m)) else None)"

text \<open>P\&L and return of the day; unknown as soon as a NAV is.\<close>

definition day_performance ::
  "ctx \<Rightarrow> rat option \<Rightarrow> rat option \<Rightarrow> rat \<Rightarrow> (rat option \<times> rat option) result" where
  "day_performance c previous nav flows =
     (case (previous, nav) of
        (Some p, Some n) \<Rightarrow> bindE (daily_performance c p n flows) (\<lambda>(pnl, r). Inr (Some pnl, r))
      | _ \<Rightarrow> Inr (None, None))"

definition next_index :: "ctx \<Rightarrow> rat option \<Rightarrow> rat option \<Rightarrow> rat option" where
  "next_index c index r =
     (case (index, r) of (Some x, Some y) \<Rightarrow> Some (dmul c x (dadd c 1 y)) | _ \<Rightarrow> None)"

definition index_drawdown :: "ctx \<Rightarrow> rat option \<Rightarrow> rat \<Rightarrow> rat option" where
  "index_drawdown c index peak =
     (case index of Some x \<Rightarrow> if peak \<noteq> 0 then Some (dsub c (ddiv c x peak) 1) else None | None \<Rightarrow> None)"

definition benchmark_value :: "ctx \<Rightarrow> market \<Rightarrow> string \<Rightarrow> instrument_row option \<Rightarrow> int \<Rightarrow> rat option" where
  "benchmark_value c mk base benchmark t =
     (case benchmark of
        None \<Rightarrow> None
      | Some b \<Rightarrow>
          (case (mk_price mk (in_id b) t, fst (mk_fx mk (in_currency b) base t)) of
             (Some p, Some rate) \<Rightarrow> if rate \<noteq> 0 then Some (dmul c (ob_value p) rate) else None
           | _ \<Rightarrow> None))"

definition benchmark_change :: "ctx \<Rightarrow> rat option \<Rightarrow> rat option \<Rightarrow> bool \<Rightarrow> rat option" where
  "benchmark_change c previous value first_day =
     (case value of
        None \<Rightarrow> None
      | Some v \<Rightarrow>
          if v = 0 then None
          else
            (case previous of
               Some p \<Rightarrow> if p \<noteq> 0 then Some (dsub c (ddiv c v p) 1) else if first_day then Some 0 else None
             | None \<Rightarrow> if first_day then Some 0 else None))"

definition next_benchmark :: "ctx \<Rightarrow> rat option \<Rightarrow> rat \<Rightarrow> rat option \<Rightarrow> rat option" where
  "next_benchmark c equity flows r =
     (case (equity, r) of
        (Some e, Some x) \<Rightarrow> Some (dmul c (dadd c e flows) (dadd c 1 x)) | _ \<Rightarrow> None)"

definition marked_values :: "rat dict \<Rightarrow> position dict \<Rightarrow> rat option dict" where
  "marked_values values lots =
     map (\<lambda>(i, lot). (i, map_of values i)) (filter (\<lambda>(i, lot). ps_quantity lot \<noteq> 0) lots)"

definition finished_row ::
  "ctx \<Rightarrow> (rat \<Rightarrow> rat) \<Rightarrow> rat dict \<Rightarrow> rat option \<Rightarrow> rat option \<Rightarrow> (string \<times> period_pnl) list \<Rightarrow> position_row \<Rightarrow>
   position_row result" where
  "finished_row c fl values nav previous details row =
     (let i = in_id (vp_instrument row) in
      bindE (found (KeyError i) (map_of details i)) (\<lambda>detail.
      Inr (row\<lparr>vp_weight :=
             (case (nav, pl_market_value (vp_amounts row)) of
                (Some n, Some _) \<Rightarrow> if n \<noteq> 0 then ddiv c (dict_get values i 0) n else 0
              | _ \<Rightarrow> 0),
           vp_daily_pnl :=
             (if nav \<noteq> None \<and> previous \<noteq> None then map_option fl (pp_pnl detail) else None),
           vp_daily_details := Some detail,
           vp_amounts := (vp_amounts row)\<lparr>pl_return := map_option fl (pl_return (vp_amounts row))\<rparr>\<rparr>)))"

definition day_history ::
  "ctx \<Rightarrow> (rat \<Rightarrow> rat) \<Rightarrow> market \<Rightarrow> instrument_row list \<Rightarrow> string \<Rightarrow> int \<Rightarrow> date \<Rightarrow> string list \<Rightarrow>
   (string \<times> date \<times> rat) list result" where
  "day_history c fl mk instruments base t day ids =
     bindE (mapE (\<lambda>i. bindE (instrument_of instruments i) (\<lambda>item.
       Inr (case (mk_price mk i t, fst (mk_fx mk (in_currency item) base t)) of
              (Some p, Some rate) \<Rightarrow> [(i, day, fl (dmul c (ob_value p) rate))]
            | _ \<Rightarrow> []))) ids) (\<lambda>rows. Inr (concat rows))"

definition fee_expense :: "ctx \<Rightarrow> rat \<Rightarrow> rat \<Rightarrow> rat \<Rightarrow> rat \<Rightarrow> rat" where
  "fee_expense c fees_after fees_before accrued previous_accrued =
     dsub c (dadd c (dsub c fees_after fees_before) accrued) previous_accrued"

definition day_row ::
  "ctx \<Rightarrow> (rat \<Rightarrow> rat) \<Rightarrow> date \<Rightarrow> rat option \<Rightarrow> rat option \<Rightarrow> rat \<Rightarrow> rat option \<times> rat option \<Rightarrow> rat option \<Rightarrow>
   rat option \<Rightarrow> rat option \<Rightarrow> rat option \<Rightarrow> rat option \<Rightarrow> string \<Rightarrow> valuation_day" where
  "day_row c fl day previous nav flows perf fee equity bench index drawdown quality =
     (let shown = map_option (\<lambda>x. fl (cents x)) in
      \<lparr>vd_date = day, vd_equity = shown nav, vd_opening_nav = shown previous,
       vd_daily_pnl = shown (fst perf), vd_external_flow = fl (cents flows),
       vd_return = map_option fl (snd perf), vd_nav_exact = nav, vd_opening_nav_exact = previous,
       vd_pnl_exact = fst perf, vd_external_flow_exact = flows, vd_net_return_exact = snd perf,
       vd_fee_expense_exact = fee, vd_benchmark = shown equity,
       vd_benchmark_return = map_option fl bench, vd_benchmark_return_exact = bench,
       vd_drawdown = map_option fl drawdown, vd_return_index = map_option fl index,
       vd_quality = quality\<rparr>)"

definition day_quality :: "day_marks \<Rightarrow> string" where
  "day_quality m =
     (if missing_marks m \<noteq> [] then ''UNAVAILABLE'' else if stale_marks m then ''STALE'' else ''CALCULATED'')"

record valuation_inputs =
  vi_market :: market
  vi_instruments :: "instrument_row list"
  vi_base :: string
  vi_adjustments :: "adjustment_row list"
  vi_benchmark :: "instrument_row option"
  vi_ids :: "string list"
  vi_end :: date

text \<open>The state after a day whose entries are applied and whose marks are made.\<close>

definition closed_state ::
  "ctx \<Rightarrow> valuation_env \<Rightarrow> valuation_inputs \<Rightarrow> date \<Rightarrow> valuation_state \<Rightarrow> ledger \<Rightarrow> day_marks \<Rightarrow>
   rat option \<times> rat option \<Rightarrow> position_row list \<Rightarrow> (string \<times> period_pnl) list \<Rightarrow>
   (string \<times> date \<times> rat) list \<Rightarrow> rat \<Rightarrow> rat option \<Rightarrow> rat \<Rightarrow> rat option \<Rightarrow> rat option \<Rightarrow> rat \<Rightarrow>
   valuation_state" where
  "closed_state c env vi day st s m perf rows details points flows index peak bench_value bench accrued =
     (let fee = (if missing_marks m = []
                 then Some (fee_expense c (lg_fees s) (lg_fees (vs_ledger st)) accrued (vs_previous_accrued_fees st))
                 else None);
          equity = next_benchmark c (vs_benchmark_equity st) flows bench;
          row = day_row c (vn_fl env) day (vs_previous_nav st) (nav_of m) flows perf fee equity bench index
                  (index_drawdown c index peak) (day_quality m)
      in \<lparr>vs_ledger = s, vs_entries = dropWhile (\<lambda>e. e_day e \<le> day) (vs_entries st),
          vs_previous_nav = nav_of m, vs_return_index = index, vs_peak = peak,
          vs_previous_benchmark = bench_value, vs_benchmark_equity = equity,
          vs_previous_accrued_fees = accrued, vs_curve = vs_curve st @ [row],
          vs_histories = vs_histories st @ points, vs_positions = rows, vs_cash = cm_rows (dm_cash m),
          vs_contributions = map (\<lambda>(i, d). (i, pp_pnl d)) details,
          vs_position_values = marked_values (pk_values (dm_positions m)) (lg_lots s),
          vs_warnings = vs_warnings st @ (if day = vi_end vi then missing_marks m else []),
          vs_totals = (if day = vi_end vi then Some (dm_totals m) else vs_totals st),
          vs_balance_rows = (if day = vi_end vi then bm_rows (dm_balances m) else vs_balance_rows st)\<rparr>)"

definition next_peak :: "rat \<Rightarrow> rat option \<Rightarrow> rat" where
  "next_peak peak index = (case index of Some x \<Rightarrow> max peak x | None \<Rightarrow> peak)"

definition close_day ::
  "ctx \<Rightarrow> valuation_env \<Rightarrow> valuation_inputs \<Rightarrow> date \<Rightarrow> valuation_state \<Rightarrow> ledger \<Rightarrow> day_marks \<Rightarrow>
   rat option \<times> rat option \<Rightarrow> position_row list \<Rightarrow> (string \<times> period_pnl) list \<Rightarrow>
   (string \<times> date \<times> rat) list \<Rightarrow> rat \<Rightarrow> rat option \<Rightarrow> rat option \<Rightarrow> valuation_state" where
  "close_day c env vi day st s m perf rows details points flows index bench_value =
     closed_state c env vi day st s m perf rows details points flows index (next_peak (vs_peak st) index)
       bench_value (benchmark_change c (vs_previous_benchmark st) bench_value (vs_curve st = []))
       (dict_get (dm_buckets m) ''accrued_fees'' 0)"

definition finish_day ::
  "ctx \<Rightarrow> valuation_env \<Rightarrow> valuation_inputs \<Rightarrow> valuation_state \<Rightarrow> date \<Rightarrow> ledger \<Rightarrow> rat \<Rightarrow> day_marks \<Rightarrow>
   (string \<times> period_pnl) list \<Rightarrow> rat option \<times> rat option \<Rightarrow> valuation_state result" where
  "finish_day c env vi st day s flows m details perf =
     bindE (mapE (finished_row c (vn_fl env) (pk_values (dm_positions m)) (nav_of m) (vs_previous_nav st) details)
       (pk_rows (dm_positions m))) (\<lambda>rows.
     bindE (day_history c (vn_fl env) (vi_market vi) (vi_instruments vi) (vi_base vi)
       (valuation_instant env day) day (vi_ids vi)) (\<lambda>points.
     Inr (close_day c env vi day st s m perf rows details points flows
       (next_index c (vs_return_index st) (snd perf))
       (benchmark_value c (vi_market vi) (vi_base vi) (vi_benchmark vi) (valuation_instant env day)))))"

definition perform_day ::
  "ctx \<Rightarrow> valuation_env \<Rightarrow> valuation_inputs \<Rightarrow> valuation_state \<Rightarrow> date \<Rightarrow> pnl_session \<Rightarrow> ledger \<Rightarrow> rat \<Rightarrow>
   day_marks \<Rightarrow> valuation_state result" where
  "perform_day c env vi st day pn s flows m =
     bindE (day_performance c (vs_previous_nav st) (nav_of m) flows)
       (finish_day c env vi st day s flows m
         (finish c pn (marked_values (pk_values (dm_positions m)) (lg_lots s))
           (drop (length (lg_movements (vs_ledger st))) (lg_movements s))))"

definition mark_and_perform ::
  "ctx \<Rightarrow> valuation_env \<Rightarrow> valuation_inputs \<Rightarrow> valuation_state \<Rightarrow> date \<Rightarrow> pnl_session \<Rightarrow> ledger \<Rightarrow>
   valuation_state result" where
  "mark_and_perform c env vi st day pn s =
     bindE (mark_day c (vi_market vi) (vi_instruments vi) (vi_base vi) (vi_adjustments vi)
       (valuation_instant env day) day s)
       (perform_day c env vi st day pn s
         (dsub c (lg_external_flows s) (lg_external_flows (vs_ledger st))))"

definition open_session :: "valuation_state \<Rightarrow> pnl_session" where
  "open_session st =
     new_session (map (\<lambda>(i, lot). (i, ps_quantity lot)) (lg_lots (vs_ledger st))) (vs_position_values st)"

definition value_day ::
  "ctx \<Rightarrow> valuation_env \<Rightarrow> valuation_inputs \<Rightarrow> valuation_state \<Rightarrow> date \<Rightarrow> valuation_state result" where
  "value_day c env vi st day =
     bindE (foldE (apply_day c (vn_lot_id env)) (vs_ledger st, open_session st)
       (takeWhile (\<lambda>e. e_day e \<le> day) (vs_entries st))) (\<lambda>sp.
     bindE (advance (fst sp) day) (mark_and_perform c env vi st day (snd sp)))"

definition value_days ::
  "ctx \<Rightarrow> valuation_env \<Rightarrow> valuation_inputs \<Rightarrow> valuation_state \<Rightarrow> date list \<Rightarrow> valuation_state result" where
  "value_days c env vi st days = foldE (value_day c env vi) st days"

section \<open>The calculation\<close>

definition benchmark_of :: "instrument_row list \<Rightarrow> pyval dict \<Rightarrow> instrument_row option" where
  "benchmark_of instruments configuration =
     find (\<lambda>r. VStr (in_symbol r) = dict_get configuration ''benchmark'' (VStr ''SPY'')) instruments"

definition calculate ::
  "ctx \<Rightarrow> valuation_env \<Rightarrow> (rat \<Rightarrow> string) \<Rightarrow> timestamps \<Rightarrow> portfolio_db \<Rightarrow> price_tables \<Rightarrow> string \<Rightarrow> date \<Rightarrow>
   valuation_state result" where
  "calculate c env text ts db tables key end_day =
     bindE (portfolio_of db key) (\<lambda>(portfolio, profile).
     bindE (load_entries c ts (vn_now env) (ledger_db.truncate db) (po_id portfolio)) (\<lambda>(entries, payloads).
     let entries = filter (\<lambda>e. e_day e \<le> end_day) entries;
         start = Min (set (map e_day entries));
         benchmark = benchmark_of (pt_instruments tables) (pr_configuration profile);
         ids = valuation_ids entries (map_option in_id benchmark);
         demo = (dict_get (pr_configuration profile) ''price_mode'' VNone = VStr ''DEMO_ONLY'');
         adjustments = filter (\<lambda>r. ba_portfolio_id r = po_id portfolio) (db_adjustments db);
         days = valuation_days entries adjustments (market_resolver_of text tables ids (Some start)) start end_day;
         vi = \<lparr>vi_market = market_of c (vn_fl env) text tables ids start demo,
               vi_instruments = pt_instruments tables, vi_base = po_base_currency portfolio,
               vi_adjustments = adjustments, vi_benchmark = benchmark, vi_ids = ids, vi_end = end_day\<rparr>
     in bindE (ensure (entries \<noteq> []) (ValueError ''Portfolio has no transactions at this date'')) (\<lambda>_.
        bindE (from_config (pr_configuration profile)) (\<lambda>policy.
        value_days c env vi (initial_valuation policy entries) days))))"

end
