(* ===== verification/Valuation_Facts.thy ===== *)
theory Valuation_Facts
  imports Daily_Valuation "HOL-Library.Multiset"
begin

text \<open>
  The daily valuation: the chain of its curve, what makes a NAV unknown, and the NAV of a day as
  the marked book, whatever has settled.
\<close>

section \<open>The curve\<close>

definition day_follows :: "ctx \<Rightarrow> valuation_state \<Rightarrow> valuation_day \<Rightarrow> valuation_state \<Rightarrow> bool" where
  "day_follows c st row st' \<longleftrightarrow>
     vs_curve st' = vs_curve st @ [row] \<and> vd_opening_nav_exact row = vs_previous_nav st \<and>
     vd_nav_exact row = vs_previous_nav st' \<and>
     day_performance c (vd_opening_nav_exact row) (vd_nav_exact row) (vd_external_flow_exact row) =
       Inr (vd_pnl_exact row, vd_net_return_exact row) \<and>
     vd_external_flow_exact row =
       dsub c (lg_external_flows (vs_ledger st')) (lg_external_flows (vs_ledger st)) \<and>
     vs_return_index st' = next_index c (vs_return_index st) (vd_net_return_exact row)"

lemma closed_state_simps:
  "vs_curve (closed_state c env vi day st s m perf rows details points flows index peak bv bench accrued) =
     vs_curve st @ [day_row c (vn_fl env) day (vs_previous_nav st) (nav_of m) flows perf
       (if missing_marks m = []
        then Some (fee_expense c (lg_fees s) (lg_fees (vs_ledger st)) accrued (vs_previous_accrued_fees st)) else None)
       (next_benchmark c (vs_benchmark_equity st) flows bench) bench index (index_drawdown c index peak) (day_quality m)]"
  "vs_previous_nav (closed_state c env vi day st s m perf rows details points flows index peak bv bench accrued) = nav_of m"
  "vs_return_index (closed_state c env vi day st s m perf rows details points flows index peak bv bench accrued) = index"
  "vs_ledger (closed_state c env vi day st s m perf rows details points flows index peak bv bench accrued) = s"
  by (simp_all add: closed_state_def Let_def)

lemma day_row_simps:
  "vd_date (day_row c fl day p nav flows perf fee eq be index dd q) = day"
  "vd_opening_nav_exact (day_row c fl day p nav flows perf fee eq be index dd q) = p"
  "vd_nav_exact (day_row c fl day p nav flows perf fee eq be index dd q) = nav"
  "vd_external_flow_exact (day_row c fl day p nav flows perf fee eq be index dd q) = flows"
  "vd_pnl_exact (day_row c fl day p nav flows perf fee eq be index dd q) = fst perf"
  "vd_net_return_exact (day_row c fl day p nav flows perf fee eq be index dd q) = snd perf"
  "vd_return_index (day_row c fl day p nav flows perf fee eq be index dd q) = map_option fl index"
  by (simp_all add: day_row_def Let_def)

lemmas value_day_unfold = value_day_def mark_and_perform_def perform_day_def finish_day_def close_day_def

lemma value_day_follows:
  assumes "value_day c env vi st day = Inr st'"
  shows "\<exists>row. day_follows c st row st' \<and> vd_date row = day \<and>
    vd_return_index row = map_option (vn_fl env) (vs_return_index st')"
proof -
  from assms obtain s m perf rows details points flows index peak bv bench accrued where
    st': "st' = closed_state c env vi day st s m perf rows details points flows index peak bv bench accrued"
    and flows: "flows = dsub c (lg_external_flows s) (lg_external_flows (vs_ledger st))"
    and index: "index = next_index c (vs_return_index st) (snd perf)"
    and perf: "day_performance c (vs_previous_nav st) (nav_of m) flows = Inr perf"
    unfolding value_day_unfold bindE_Inr_iff by blast
  show ?thesis
    unfolding day_follows_def st' closed_state_simps
    by (intro exI conjI, rule refl) (use perf in \<open>simp_all add: flows index day_row_simps\<close>)
qed

lemma value_days_snoc:
  "value_days c env vi st (days @ [d]) = bindE (value_days c env vi st days) (\<lambda>st. value_day c env vi st d)"
  by (simp add: value_days_def foldE_append)

definition curve_ok :: "ctx \<Rightarrow> valuation_env \<Rightarrow> date list \<Rightarrow> valuation_state \<Rightarrow> bool" where
  "curve_ok c env days st \<longleftrightarrow>
     map vd_date (vs_curve st) = days \<and>
     map vd_opening_nav_exact (vs_curve st) @ [vs_previous_nav st] = Some 0 # map vd_nav_exact (vs_curve st) \<and>
     (\<forall>r \<in> set (vs_curve st).
        day_performance c (vd_opening_nav_exact r) (vd_nav_exact r) (vd_external_flow_exact r) =
          Inr (vd_pnl_exact r, vd_net_return_exact r)) \<and>
     vs_return_index st = foldl (next_index c) (Some 1) (map vd_net_return_exact (vs_curve st)) \<and>
     (\<forall>k < length days. vd_return_index (vs_curve st ! k) =
        map_option (vn_fl env) (foldl (next_index c) (Some 1) (map vd_net_return_exact (take (Suc k) (vs_curve st)))))"

lemma curve_ok_step:
  assumes "curve_ok c env days st" "value_day c env vi st day = Inr st'"
  shows "curve_ok c env (days @ [day]) st'"
proof -
  from value_day_follows [OF assms(2)] obtain row where row: "day_follows c st row st'" "vd_date row = day"
    "vd_return_index row = map_option (vn_fl env) (vs_return_index st')" by blast
  have len: "length (vs_curve st) = length days" using assms(1) by (metis curve_ok_def length_map)
  have index: "vs_return_index st' = foldl (next_index c) (Some 1) (map vd_net_return_exact (vs_curve st'))"
    using assms(1) row(1) by (simp add: curve_ok_def day_follows_def)
  have "vd_return_index (vs_curve st' ! k) =
      map_option (vn_fl env) (foldl (next_index c) (Some 1) (map vd_net_return_exact (take (Suc k) (vs_curve st'))))"
    if "k < length (days @ [day])" for k
  proof (cases "k < length days")
    case True
    with assms(1) row(1) len show ?thesis by (simp add: curve_ok_def day_follows_def nth_append)
  next
    case False
    with that have "k = length days" by simp
    with row(1,3) index len show ?thesis by (simp add: day_follows_def nth_append)
  qed
  with assms(1) row(1,2) index show ?thesis by (auto simp: curve_ok_def day_follows_def)
qed

lemma curve_ok_days:
  "value_days c env vi (initial_valuation policy es) days = Inr st \<Longrightarrow> curve_ok c env days st"
proof (induction days arbitrary: st rule: rev_induct)
  case Nil
  then show ?case by (auto simp: value_days_def initial_valuation_def curve_ok_def)
next
  case (snoc d days)
  then show ?case by (auto simp: value_days_snoc result_simps intro: curve_ok_step)
qed

lemma day_performance_value:
  assumes "day_performance c before after flows = Inr out"
  shows "out = (case (before, after) of
      (Some x, Some y) \<Rightarrow> (Some (dsub c (dsub c y x) flows),
        if 0 < dadd c x flows then Some (ddiv c (dsub c (dsub c y x) flows) (dadd c x flows)) else None)
    | _ \<Rightarrow> (None, None))"
  using assms by (cases before; cases after)
    (auto simp: day_performance_def daily_performance_def result_simps Let_def)

text \<open>C27: The curve of a valuation is a chain: it has one row per day in order; each day opens with the
  NAV the day before closed with (zero before the first), its P\&L and return are those of the two
  NAVs and the day's external flows; and the return index of a day links all returns up to that
  day, unknown from the first day whose return is unknown.\<close>

theorem curve_chain:
  assumes "value_days c env vi (initial_valuation policy entries) days = Inr st" "k < length days"
    and "r = vs_curve st ! k"
  shows "vd_date r = days ! k \<and>
    vd_opening_nav_exact r = (if k = 0 then Some 0 else vd_nav_exact (vs_curve st ! (k - 1))) \<and>
    (vd_pnl_exact r, vd_net_return_exact r) =
      (case (vd_opening_nav_exact r, vd_nav_exact r) of
         (Some x, Some y) \<Rightarrow>
           (Some (dsub c (dsub c y x) (vd_external_flow_exact r)),
            if 0 < dadd c x (vd_external_flow_exact r)
            then Some (ddiv c (dsub c (dsub c y x) (vd_external_flow_exact r)) (dadd c x (vd_external_flow_exact r)))
            else None)
       | _ \<Rightarrow> (None, None)) \<and>
    vd_return_index r = map_option (vn_fl env)
      (foldl (\<lambda>i d. case (i, d) of (Some x, Some y) \<Rightarrow> Some (dmul c x (dadd c 1 y)) | _ \<Rightarrow> None) (Some 1)
         (map vd_net_return_exact (take (Suc k) (vs_curve st))))"
proof -
  have ok: "curve_ok c env days st" using assms(1) by (rule curve_ok_days)
  then have dates: "map vd_date (vs_curve st) = days" by (simp add: curve_ok_def)
  then have k: "k < length (vs_curve st)" using assms(2) by (metis length_map)
  have "vd_date r = days ! k" using dates k assms(3) by (metis nth_map)
  moreover have "vd_opening_nav_exact r = (if k = 0 then Some 0 else vd_nav_exact (vs_curve st ! (k - 1)))"
  proof -
    have "map vd_opening_nav_exact (vs_curve st) @ [vs_previous_nav st] = Some 0 # map vd_nav_exact (vs_curve st)"
      using ok by (simp add: curve_ok_def)
    then have "(map vd_opening_nav_exact (vs_curve st) @ [vs_previous_nav st]) ! k =
        (Some 0 # map vd_nav_exact (vs_curve st)) ! k" by simp
    with k assms(3) show ?thesis by (simp add: nth_append nth_Cons')
  qed
  moreover have "day_performance c (vd_opening_nav_exact r) (vd_nav_exact r) (vd_external_flow_exact r) =
      Inr (vd_pnl_exact r, vd_net_return_exact r)"
    using ok nth_mem [OF k] assms(3) unfolding curve_ok_def by blast
  note day = day_performance_value [OF this]
  moreover have "vd_return_index r = map_option (vn_fl env)
      (foldl (next_index c) (Some 1) (map vd_net_return_exact (take (Suc k) (vs_curve st))))"
    using ok assms(2,3) unfolding curve_ok_def by blast
  moreover have "next_index c = (\<lambda>i d. case (i, d) of (Some x, Some y) \<Rightarrow> Some (dmul c x (dadd c 1 y)) | _ \<Rightarrow> None)"
    by (simp add: fun_eq_iff next_index_def)
  ultimately show ?thesis using day by simp
qed

text \<open>A deposit valued on two days, with no market but the base currency.\<close>

definition idle_market :: market where
  "idle_market = \<lparr>mk_price = (\<lambda>_ _. None),
     mk_describe = (\<lambda>_ _. provenance.extend (bare_provenance [] [] None) (price_description.fields None None)),
     mk_fx = (\<lambda>cur base t. (if cur = base then Some 1 else None, bare_provenance [] [] None))\<rparr>"

definition idle_inputs :: valuation_inputs where
  "idle_inputs = \<lparr>vi_market = idle_market, vi_instruments = [], vi_base = ''USD'', vi_adjustments = [],
     vi_benchmark = None, vi_ids = [], vi_end = 2\<rparr>"

definition idle_env :: valuation_env where
  "idle_env = \<lparr>vn_now = 0, vn_today = 9, vn_fl = (\<lambda>x. x), vn_lot_id = (\<lambda>s. s)\<rparr>"

definition idle_entry :: entry where
  "idle_entry = (new_entry ''D'' 1 DEPOSIT ''USD'')\<lparr>e_quantity := 1, e_price := 1000, e_amount := 1000\<rparr>"

lemma idle_valued:
  "map_sum id (\<lambda>st. map vd_nav_exact (vs_curve st))
     (value_days exact idle_env idle_inputs (initial_valuation default_policy [idle_entry]) [1, 2]) =
   Inr [Some 1000, Some 1000]"
  by code_simp

lemma map_sum_Inr: "map_sum id f r = Inr y \<Longrightarrow> \<exists>x. r = Inr x \<and> f x = y"
  by (cases r) auto

theorem curve_chain_witness:
  "map_sum id (\<lambda>st. vd_opening_nav_exact (vs_curve st ! 1))
     (value_days exact idle_env idle_inputs (initial_valuation default_policy [idle_entry]) [1, 2]) =
   Inr (Some 1000)"
proof -
  obtain st where st: "value_days exact idle_env idle_inputs
      (initial_valuation default_policy [idle_entry]) [1, 2] = Inr st"
    and nav: "map vd_nav_exact (vs_curve st) = [Some 1000, Some 1000]"
    by (rule exE [OF map_sum_Inr [OF idle_valued]], elim conjE) (rule that)
  have "length (vs_curve st) = 2" using arg_cong [OF nav, of length] by simp
  then have "vd_nav_exact (vs_curve st ! 0) = map vd_nav_exact (vs_curve st) ! 0" by simp
  also have "\<dots> = Some 1000" by (simp add: nav)
  finally have first: "vd_nav_exact (vs_curve st ! 0) = Some 1000" .
  have "vd_opening_nav_exact (vs_curve st ! 1) = (if 1 = (0::nat) then Some 0 else vd_nav_exact (vs_curve st ! (1 - 1)))"
    using curve_chain [OF st _ refl, of 1] by simp
  with first show ?thesis unfolding st by simp
qed

section \<open>Unknown figures\<close>

lemma mark_cash_missing:
  "cm_missing (mark_cash c quote base bs) = [] \<longleftrightarrow>
     (\<forall>cb \<in> set bs. empty_cash (snd cb) \<or> fst (quote (fst cb)) \<noteq> None)"
proof (induction bs rule: rev_induct)
  case (snoc cb bs)
  then show ?case
    by (cases cb) (auto simp: mark_cash_def mark_cash_step_def add_marked_cash_def Let_def split: option.splits)
qed (simp add: mark_cash_def no_cash_def)

text \<open>An instrument is marked at an instant when it has a price and its currency a rate.\<close>

definition has_mark :: "market \<Rightarrow> instrument_row list \<Rightarrow> string \<Rightarrow> int \<Rightarrow> string \<Rightarrow> bool" where
  "has_mark mk instruments base t i \<longleftrightarrow> mk_price mk i t \<noteq> None \<and>
     (\<forall>item. find (\<lambda>r. in_id r = i) instruments = Some item \<longrightarrow> fst (mk_fx mk (in_currency item) base t) \<noteq> None)"

lemma instrument_of_Inr [result_simps]:
  "instrument_of instruments i = Inr item \<longleftrightarrow> find (\<lambda>r. in_id r = i) instruments = Some item"
  by (simp add: instrument_of_def found_def split: option.split)

lemma mark_position_step_Inr:
  assumes "mark_position_step c mk instruments base t k (i, lot) = Inr k'" "ps_quantity lot \<noteq> 0"
  shows "\<exists>item. find (\<lambda>r. in_id r = i) instruments = Some item \<and>
      (case pm_base_value (measured c lot (map_option ob_value (mk_price mk i t))
          (fst (mk_fx mk (in_currency item) base t))) of
         None \<Rightarrow> \<exists>w. pk_missing k' = pk_missing k @ [w] \<and> pk_values k' = pk_values k
       | Some v \<Rightarrow> pk_missing k' = pk_missing k \<and> pk_values k' = AList.update i v (pk_values k))"
proof -
  from assms obtain item where item: "find (\<lambda>r. in_id r = i) instruments = Some item"
    by (auto simp: mark_position_step_def result_simps Let_def)
  let ?m = "measured c lot (map_option ob_value (mk_price mk i t)) (fst (mk_fx mk (in_currency item) base t))"
  have "(case pm_base_value ?m of
         None \<Rightarrow> \<exists>w. pk_missing k' = pk_missing k @ [w] \<and> pk_values k' = pk_values k
       | Some v \<Rightarrow> pk_missing k' = pk_missing k \<and> pk_values k' = AList.update i v (pk_values k))"
    using assms item
    by (cases "pm_base_value ?m") (auto simp: mark_position_step_def result_simps Let_def measure_Inr)
  with item show ?thesis by blast
qed

lemma mark_position_step_closed:
  "ps_quantity lot = 0 \<Longrightarrow> mark_position_step c mk instruments base t k (i, lot) = Inr k' \<longleftrightarrow> k' = k"
  by (auto simp: mark_position_step_def)

lemma mark_positions_missing:
  assumes "foldE (mark_position_step c mk instruments base t) k lots = Inr k'"
  shows "pk_missing k' = [] \<longleftrightarrow> pk_missing k = [] \<and>
    (\<forall>il \<in> set lots. ps_quantity (snd il) = 0 \<or> has_mark mk instruments base t (fst il))"
  using assms
proof (induction lots arbitrary: k)
  case (Cons il lots)
  obtain i lot where il: "il = (i, lot)" by (cases il)
  from Cons.prems obtain k1 where k1: "mark_position_step c mk instruments base t k (i, lot) = Inr k1"
    and rest: "foldE (mark_position_step c mk instruments base t) k1 lots = Inr k'"
    by (auto simp: il result_simps)
  have "pk_missing k1 = [] \<longleftrightarrow> pk_missing k = [] \<and> (ps_quantity lot = 0 \<or> has_mark mk instruments base t i)"
  proof (cases "ps_quantity lot = 0")
    case True
    with k1 show ?thesis by (simp add: mark_position_step_closed)
  next
    case False
    from mark_position_step_Inr [OF k1 False] obtain item where
      item: "find (\<lambda>r. in_id r = i) instruments = Some item"
      and step: "case pm_base_value (measured c lot (map_option ob_value (mk_price mk i t))
          (fst (mk_fx mk (in_currency item) base t))) of
         None \<Rightarrow> \<exists>w. pk_missing k1 = pk_missing k @ [w] \<and> pk_values k1 = pk_values k
       | Some v \<Rightarrow> pk_missing k1 = pk_missing k \<and> pk_values k1 = AList.update i v (pk_values k)" by blast
    show ?thesis
      using step False measured_base_None(1) [of c lot "map_option ob_value (mk_price mk i t)"
          "fst (mk_fx mk (in_currency item) base t)"]
      by (auto simp: has_mark_def item split: option.splits)
  qed
  with Cons.IH [OF rest] show ?case by (auto simp: il)
qed simp

lemma mark_balances_missing:
  "bm_missing (mark_balances c quote adjustments day) = [] \<longleftrightarrow>
     (\<forall>kv \<in> set (native_balances c adjustments day). snd kv = 0 \<or> fst (quote (snd (fst kv))) \<noteq> None)"
proof -
  have "bm_missing (foldl (mark_balance_step c quote) k kvs) = [] \<longleftrightarrow>
      bm_missing k = [] \<and> (\<forall>kv \<in> set kvs. fst (quote (snd (fst kv))) \<noteq> None)" for k kvs
    by (induction kvs arbitrary: k)
      (auto simp: mark_balance_step_def Let_def split: prod.splits option.splits)
  then have "bm_missing (mark_balances c quote adjustments day) = [] \<longleftrightarrow>
      (\<forall>kv \<in> set (filter (\<lambda>kv. snd kv \<noteq> 0) (sort_key fst (native_balances c adjustments day))).
         fst (quote (snd (fst kv))) \<noteq> None)"
    by (simp add: mark_balances_def no_balances_def)
  then show ?thesis by (simp only: set_filter set_sort) blast
qed

lemma mark_day_Inr:
  "mark_day c mk instruments base adjustments t day s = Inr m \<Longrightarrow>
     dm_cash m = mark_cash c (\<lambda>currency. mk_fx mk currency base t) base (balances c (lg_movements s) day None) \<and>
     dm_balances m = mark_balances c (\<lambda>currency. mk_fx mk currency base t) adjustments day \<and>
     dm_buckets m = nav_buckets c (dm_cash m) (dm_balances m) \<and>
     mark_positions c mk instruments base t (lg_lots s) = Inr (dm_positions m) \<and>
     nav_total c (cm_settled (dm_cash m)) (map snd (pk_values (dm_positions m))) (dm_buckets m)
       (Some (cm_components (dm_cash m))) = Inr (dm_totals m)"
  by (auto simp: mark_day_def totalled_def with_totals_def result_simps)

text \<open>The NAV of a day is unknown exactly when something it needs is: the exchange rate of a
  currency with a cash balance, the price or the rate of an open position, or the rate of a non-zero
  balance adjustment. Nothing that is missing is valued as zero.\<close>

theorem nav_unknown:
  assumes "mark_day c mk instruments base adjustments t day s = Inr m"
  shows "nav_of m = None \<longleftrightarrow>
    (\<exists>(currency, b) \<in> set (balances c (lg_movements s) day None).
       \<not> empty_cash b \<and> fst (mk_fx mk currency base t) = None) \<or>
    (\<exists>(i, lot) \<in> set (lg_lots s). ps_quantity lot \<noteq> 0 \<and> \<not> has_mark mk instruments base t i) \<or>
    (\<exists>((bucket, currency), amount) \<in> set (native_balances c adjustments day).
       amount \<noteq> 0 \<and> fst (mk_fx mk currency base t) = None)"
proof -
  note m = mark_day_Inr [OF assms]
  have "pk_missing (dm_positions m) = [] \<longleftrightarrow>
      (\<forall>il \<in> set (lg_lots s). ps_quantity (snd il) = 0 \<or> has_mark mk instruments base t (fst il))"
    using m mark_positions_missing [of c mk instruments base t no_positions "lg_lots s" "dm_positions m"]
    by (simp add: mark_positions_def no_positions_def)
  then show ?thesis
    using m mark_cash_missing [of c "\<lambda>currency. mk_fx mk currency base t" base "balances c (lg_movements s) day None"]
      mark_balances_missing [of c "\<lambda>currency. mk_fx mk currency base t" adjustments day]
    by (fastforce simp: nav_of_def missing_marks_def)
qed

section \<open>The marked book\<close>

abbreviation rate_of :: "market \<Rightarrow> string \<Rightarrow> int \<Rightarrow> string \<Rightarrow> rat" where
  "rate_of mk base t currency \<equiv> (case fst (mk_fx mk currency base t) of Some r \<Rightarrow> r | None \<Rightarrow> 0)"

lemma mark_cash_sums:
  fixes quote :: "string \<Rightarrow> rat option \<times> provenance"
  defines "rate \<equiv> \<lambda>cur. case fst (quote cur) of Some r \<Rightarrow> r | None \<Rightarrow> 0"
  shows "cm_settled (mark_cash exact quote base bs) = sum_list (map (\<lambda>cb. cc_settled (snd cb) * rate (fst cb)) bs) \<and>
    cm_receivables (mark_cash exact quote base bs) = sum_list (map (\<lambda>cb. cc_receivable (snd cb) * rate (fst cb)) bs) \<and>
    cm_payables (mark_cash exact quote base bs) = sum_list (map (\<lambda>cb. cc_payable (snd cb) * rate (fst cb)) bs)"
proof (induction bs rule: rev_induct)
  case (snoc cb bs)
  then show ?case
    by (cases cb)
      (auto simp: mark_cash_def mark_cash_step_def add_marked_cash_def empty_cash_def rate_def Let_def split: option.split)
qed (simp add: mark_cash_def no_cash_def)

lemma balance_economic_exact:
  "cc_economic (balance exact ms cur d account) =
     cc_settled (balance exact ms cur d account) + cc_receivable (balance exact ms cur d account) -
     cc_payable (balance exact ms cur d account)"
  using foldl_decompose_exact [of zero_totals d "filter (counted cur d account) ms"]
  by (simp add: balance_def Let_def balance_totals_filter)

lemma mark_cash_economic:
  fixes quote :: "string \<Rightarrow> rat option \<times> provenance"
  defines "rate \<equiv> \<lambda>cur. case fst (quote cur) of Some r \<Rightarrow> r | None \<Rightarrow> 0"
  assumes K: "K = mark_cash exact quote base (balances exact ms day None)"
  shows "cm_settled K + cm_receivables K - cm_payables K =
    sum_list (map (\<lambda>(cur, b). cc_economic b * rate cur) (balances exact ms day None))"
proof -
  let ?bs = "balances exact ms day None"
  have "sum_list (map (\<lambda>(cur, b). cc_economic b * rate cur) ?bs) =
      sum_list (map (\<lambda>cb. cc_settled (snd cb) * rate (fst cb) + cc_receivable (snd cb) * rate (fst cb) -
        cc_payable (snd cb) * rate (fst cb)) ?bs)"
    by (intro arg_cong [where f = sum_list] map_cong)
      (auto simp: balances_def balance_economic_exact ring_distribs)
  then show ?thesis
    using mark_cash_sums [of quote base ?bs] unfolding K rate_def
    by (simp add: sum_list_addf sum_list_subtractf)
qed

text \<open>The value of a position at its mark.\<close>

definition marked_value :: "market \<Rightarrow> instrument_row list \<Rightarrow> string \<Rightarrow> int \<Rightarrow> string \<times> position \<Rightarrow> rat" where
  "marked_value mk instruments base t il =
     (case (mk_price mk (fst il) t, find (\<lambda>r. in_id r = fst il) instruments) of
        (Some p, Some item) \<Rightarrow>
          ps_quantity (snd il) * ps_multiplier (snd il) * ob_value p * rate_of mk base t (in_currency item)
      | _ \<Rightarrow> 0)"

lemma measured_base_exact:
  "pm_base_value (measured exact lot price fx) = Some v \<Longrightarrow> ps_quantity lot \<noteq> 0 \<Longrightarrow>
     \<exists>p x. price = Some p \<and> fx = Some x \<and> v = ps_quantity lot * ps_multiplier lot * p * x"
  by (auto simp: measured_def Let_def both_def split: option.splits)

lemma sum_values_update:
  "i \<notin> fst ` set d \<Longrightarrow> sum_list (map snd (AList.update i (v :: rat) d)) = sum_list (map snd d) + v"
  by (induction d) auto

lemma mark_positions_sum:
  assumes "foldE (mark_position_step exact mk instruments base t) k lots = Inr k'" "distinct (map fst lots)"
    and "pk_missing k' = []" "fst ` set (pk_values k) \<inter> fst ` set lots = {}"
  shows "sum_list (map snd (pk_values k')) =
    sum_list (map snd (pk_values k)) + sum_list (map (marked_value mk instruments base t) lots)"
  using assms
proof (induction lots arbitrary: k)
  case (Cons il lots)
  obtain i lot where il: "il = (i, lot)" by (cases il)
  from Cons.prems(1) obtain k1 where k1: "mark_position_step exact mk instruments base t k (i, lot) = Inr k1"
    and rest: "foldE (mark_position_step exact mk instruments base t) k1 lots = Inr k'"
    by (auto simp: il result_simps)
  have none: "pk_missing k1 = []" using mark_positions_missing [OF rest] Cons.prems(3) by simp
  have new: "i \<notin> fst ` set (pk_values k)" using Cons.prems(4) by (auto simp: il)
  have step: "sum_list (map snd (pk_values k1)) = sum_list (map snd (pk_values k)) + marked_value mk instruments base t (i, lot)
      \<and> fst ` set (pk_values k1) \<subseteq> insert i (fst ` set (pk_values k))"
  proof (cases "ps_quantity lot = 0")
    case True
    with k1 show ?thesis by (auto simp: mark_position_step_closed marked_value_def split: option.split)
  next
    case False
    from mark_position_step_Inr [OF k1 False] obtain item where
      item: "find (\<lambda>r. in_id r = i) instruments = Some item"
      and step: "case pm_base_value (measured exact lot (map_option ob_value (mk_price mk i t))
          (fst (mk_fx mk (in_currency item) base t))) of
         None \<Rightarrow> \<exists>w. pk_missing k1 = pk_missing k @ [w] \<and> pk_values k1 = pk_values k
       | Some v \<Rightarrow> pk_missing k1 = pk_missing k \<and> pk_values k1 = AList.update i v (pk_values k)" by blast
    from step none obtain v where v: "pm_base_value (measured exact lot (map_option ob_value (mk_price mk i t))
          (fst (mk_fx mk (in_currency item) base t))) = Some v" "pk_values k1 = AList.update i v (pk_values k)"
      by (auto split: option.splits)
    from measured_base_exact [OF v(1) False] have "v = marked_value mk instruments base t (i, lot)"
      by (auto simp: marked_value_def item)
    with v(2) new show ?thesis by (auto simp: sum_values_update dom_update)
  qed
  have "insert i (fst ` set (pk_values k)) \<inter> fst ` set lots = {}"
    using Cons.prems(2,4) by (simp add: il)
  with step have "fst ` set (pk_values k1) \<inter> fst ` set lots = {}" by blast
  from Cons.IH [OF rest _ Cons.prems(3) this] Cons.prems(2) step show ?case by (simp add: il)
qed simp

text \<open>Sums of a dictionary weighted by its keys.\<close>

lemma dict_get_fresh: "k \<notin> fst ` set d \<Longrightarrow> dict_get d k v = v"
  by (auto simp: dict_get_def split: option.split dest: map_of_SomeD intro: rev_image_eqI)

lemma dict_get_Cons: "dict_get (kv # d) k v = (if fst kv = k then snd kv else dict_get d k v)"
  by (cases kv) (simp add: dict_get_def)

lemma dict_get_sum: "distinct (map fst d) \<Longrightarrow> dict_get d k 0 = (sum_list (map snd (filter (\<lambda>kv. fst kv = k) d)) :: rat)"
proof (induction d)
  case (Cons kv d)
  have "filter (\<lambda>x. fst x = fst kv) d = []" using Cons.prems by (auto simp: filter_empty_conv intro: rev_image_eqI)
  with Cons show ?case by (auto simp: dict_get_Cons)
qed simp

lemma weighted_update:
  assumes "distinct (map fst d)"
  shows "sum_list (map (\<lambda>(k, v). w k * v) (AList.update key (dict_get d key 0 + x) d)) =
    sum_list (map (\<lambda>(k, v). w k * v) d) + w key * (x :: rat)"
  using assms
proof (induction d)
  case (Cons kv d)
  then show ?case by (cases kv) (auto simp: dict_get_Cons dict_get_fresh algebra_simps)
qed simp

lemma weighted_buckets:
  assumes "distinct (map fst d)" "fst ` set d \<subseteq> set ks" "distinct ks"
  shows "sum_list (map (\<lambda>k. w k * dict_get d k 0) ks) = sum_list (map (\<lambda>(k, v). w k * v) d :: rat list)"
proof -
  note dict_get_sum [OF assms(1)]
  then have "sum_list (map (\<lambda>k. w k * dict_get d k 0) ks) =
      sum_list (map (\<lambda>k. sum_list (map (\<lambda>(k, v). w k * v) (filter (\<lambda>kv. fst kv = k) d))) ks)"
    by (intro arg_cong [where f = sum_list] map_cong)
      (auto simp: sum_list_const_mult [symmetric] intro!: arg_cong [where f = sum_list])
  also have "\<dots> = sum_list (map (\<lambda>(k, v). w k * v) d)"
    using assms(2,3) by (intro sum_by_key) auto
  finally show ?thesis .
qed

definition signed_total :: "rat dict \<Rightarrow> rat" where
  "signed_total d = sum_list (map (\<lambda>(k, v). bucket_sign k * v) d)"

lemma add_bucket_signed:
  assumes "distinct (map fst d)"
  shows "signed_total (add_bucket exact b x d) = signed_total d + bucket_sign b * x"
    "distinct (map fst (add_bucket exact b x d))"
  using assms weighted_update [of d bucket_sign b x]
  by (simp_all add: signed_total_def add_bucket_def distinct_update_keys del: set_map)

lemma add_native_step:
  assumes "distinct (map fst d)"
  shows "distinct (map fst (add_native exact d r))"
    "sum_list (map (\<lambda>(k, v). h k * v) (add_native exact d r)) =
     sum_list (map (\<lambda>(k, v). h k * v) d) + h (ba_bucket r, ba_currency r) * ba_amount r"
  using assms weighted_update [of d h "(ba_bucket r, ba_currency r)" "ba_amount r"]
  by (simp_all add: add_native_def Let_def distinct_update_keys del: set_map)

lemma native_balances_sum:
  "distinct (map fst (native_balances exact adjustments day)) \<and>
   sum_list (map (\<lambda>(k, v). h k * v) (native_balances exact adjustments day)) =
   sum_list (map (\<lambda>r. h (ba_bucket r, ba_currency r) * ba_amount r) (filter (\<lambda>r. ba_effective_date r \<le> day) adjustments))"
proof -
  have "distinct (map fst (foldl (add_native exact) [] rs)) \<and>
      sum_list (map (\<lambda>(k, v). h k * v) (foldl (add_native exact) [] rs)) =
      sum_list (map (\<lambda>r. h (ba_bucket r, ba_currency r) * ba_amount r) rs)" for rs
    by (induction rs rule: rev_induct) (simp_all add: add_native_step)
  then show ?thesis by (simp add: native_balances_def)
qed

lemma mark_balance_step_signed:
  assumes "distinct (map fst (bm_balances k))"
  shows "distinct (map fst (bm_balances (mark_balance_step exact quote k kv)))"
    "signed_total (bm_balances (mark_balance_step exact quote k kv)) = signed_total (bm_balances k) +
       bucket_sign (fst (fst kv)) * (case fst (quote (snd (fst kv))) of Some r \<Rightarrow> r | None \<Rightarrow> 0) * snd kv"
proof -
  obtain b cur x where kv: "kv = ((b, cur), x)" by (metis surj_pair)
  show "distinct (map fst (bm_balances (mark_balance_step exact quote k kv)))"
    "signed_total (bm_balances (mark_balance_step exact quote k kv)) = signed_total (bm_balances k) +
       bucket_sign (fst (fst kv)) * (case fst (quote (snd (fst kv))) of Some r \<Rightarrow> r | None \<Rightarrow> 0) * snd kv"
    using assms add_bucket_signed [OF assms, of b]
    by (cases "fst (quote cur)"; simp add: kv mark_balance_step_def Let_def)+
qed

lemma mark_balances_sum:
  fixes quote :: "string \<Rightarrow> rat option \<times> provenance"
  defines "rate \<equiv> \<lambda>cur. case fst (quote cur) of Some r \<Rightarrow> r | None \<Rightarrow> 0"
  shows "distinct (map fst (bm_balances (mark_balances exact quote adjustments day))) \<and>
    signed_total (bm_balances (mark_balances exact quote adjustments day)) =
    sum_list (map (\<lambda>r. bucket_sign (ba_bucket r) * ba_amount r * rate (ba_currency r))
      (filter (\<lambda>r. ba_effective_date r \<le> day) adjustments))"
proof -
  let ?h = "\<lambda>k. bucket_sign (fst k) * rate (snd k)" and ?nat = "native_balances exact adjustments day"
  have fold: "distinct (map fst (bm_balances (foldl (mark_balance_step exact quote) k kvs))) \<and>
      signed_total (bm_balances (foldl (mark_balance_step exact quote) k kvs)) =
      signed_total (bm_balances k) + sum_list (map (\<lambda>kv. ?h (fst kv) * snd kv) kvs)"
    if "distinct (map fst (bm_balances k))" for k kvs
    by (induction kvs rule: rev_induct) (simp_all add: that mark_balance_step_signed rate_def)
  have perm: "sum_list (map f (filter (\<lambda>kv. snd kv \<noteq> 0) (sort_key fst kvs))) = sum_list (map f kvs)"
    if "\<And>kv. snd kv = 0 \<Longrightarrow> f kv = (0 :: rat)" for f and kvs :: "((string \<times> string) \<times> rat) list"
  proof -
    have "sum_list (map f (filter (\<lambda>kv. snd kv \<noteq> 0) (sort_key fst kvs))) = sum_list (map f (sort_key fst kvs))"
      using that by (intro sum_list_filter_zero) auto
    also have "\<dots> = sum_list (map f kvs)"
      by (metis mset_map mset_sort sum_mset_sum_list)
    finally show ?thesis .
  qed
  have "distinct (map fst (bm_balances no_balances))" "signed_total (bm_balances no_balances) = 0"
    by (simp_all add: no_balances_def signed_total_def)
  note F = fold [OF this(1), of "filter (\<lambda>kv. snd kv \<noteq> 0) (sort_key fst ?nat)"] this(2)
  have "sum_list (map (\<lambda>kv. ?h (fst kv) * snd kv) (filter (\<lambda>kv. snd kv \<noteq> 0) (sort_key fst ?nat))) =
      sum_list (map (\<lambda>kv. ?h (fst kv) * snd kv) ?nat)" by (rule perm) simp
  also have "\<dots> = sum_list (map (\<lambda>r. ?h (ba_bucket r, ba_currency r) * ba_amount r)
      (filter (\<lambda>r. ba_effective_date r \<le> day) adjustments))"
    using native_balances_sum [of adjustments day ?h] by (simp add: case_prod_unfold)
  also have "\<dots> = sum_list (map (\<lambda>r. bucket_sign (ba_bucket r) * ba_amount r * rate (ba_currency r))
      (filter (\<lambda>r. ba_effective_date r \<le> day) adjustments))"
    by (intro arg_cong [where f = sum_list] map_cong) auto
  finally show ?thesis using F by (simp add: mark_balances_def)
qed

lemma nav_values_signed:
  assumes "distinct (map fst buckets)" "fst ` set buckets \<subseteq> set ASSET_BUCKETS \<union> set LIABILITY_BUCKETS"
  shows "nv_nav (nav_values exact cash components positions buckets) = cash + sum_list positions + signed_total buckets"
proof -
  let ?ks = "ASSET_BUCKETS @ LIABILITY_BUCKETS"
  have "distinct ?ks" by (simp add: ASSET_BUCKETS_def LIABILITY_BUCKETS_def)
  then have "signed_total buckets = sum_list (map (\<lambda>k. bucket_sign k * dict_get buckets k 0) ?ks)"
    unfolding signed_total_def using assms by (intro weighted_buckets [symmetric]) auto
  also have "\<dots> = sum_list (map (\<lambda>k. dict_get buckets k 0) ASSET_BUCKETS) - sum_list (map (\<lambda>k. dict_get buckets k 0) LIABILITY_BUCKETS)"
    by (simp add: ASSET_BUCKETS_def LIABILITY_BUCKETS_def bucket_sign_def)
  finally show ?thesis by (simp add: nav_values_def Let_def)
qed

text \<open>C28: In ideal arithmetic the NAV of a day is the marked book: every currency's economic cash at its
  rate, every position at its price and rate, every balance adjustment in effect with its sign at its
  rate. How much of the cash has settled by that day does not matter, since what has not is carried
  as a receivable or a payable.\<close>

theorem nav_is_marked_book:
  assumes "mark_day exact mk instruments base adjustments t day s = Inr m" "nav_of m = Some nav"
    and "distinct (map fst (lg_lots s))"
  shows "nav =
    sum_list (map (\<lambda>(currency, b). cc_economic b * rate_of mk base t currency) (balances exact (lg_movements s) day None)) +
    sum_list (map (marked_value mk instruments base t) (lg_lots s)) +
    sum_list (map (\<lambda>r. bucket_sign (ba_bucket r) * ba_amount r * rate_of mk base t (ba_currency r))
      (filter (\<lambda>r. ba_effective_date r \<le> day) adjustments))"
proof -
  note m = mark_day_Inr [OF assms(1)]
  have missing: "pk_missing (dm_positions m) = []" and nav: "nav = nv_nav (dm_totals m)"
    using assms(2) by (auto simp: nav_of_def missing_marks_def split: if_splits)
  let ?K = "dm_cash m" and ?B = "bm_balances (dm_balances m)"
  have B: "distinct (map fst ?B)" "signed_total ?B =
      sum_list (map (\<lambda>r. bucket_sign (ba_bucket r) * ba_amount r * rate_of mk base t (ba_currency r))
        (filter (\<lambda>r. ba_effective_date r \<le> day) adjustments))"
    using m mark_balances_sum [of "\<lambda>currency. mk_fx mk currency base t" adjustments day] by simp_all
  have buckets: "distinct (map fst (dm_buckets m))"
    "signed_total (dm_buckets m) = signed_total ?B + cm_receivables ?K - cm_payables ?K"
    using m add_bucket_signed [OF B(1)] add_bucket_signed [OF add_bucket_signed(2) [OF B(1)]]
    by (simp_all add: nav_buckets_def bucket_sign_def del: set_map)
  have totals: "fst ` set (dm_buckets m) \<subseteq> set ASSET_BUCKETS \<union> set LIABILITY_BUCKETS"
    "dm_totals m = nav_values exact (cm_settled ?K) (cm_components ?K) (map snd (pk_values (dm_positions m))) (dm_buckets m)"
  proof -
    have "nav_total exact (cm_settled ?K) (map snd (pk_values (dm_positions m))) (dm_buckets m)
        (Some (cm_components ?K)) = Inr (dm_totals m)" using m by blast
    then show "fst ` set (dm_buckets m) \<subseteq> set ASSET_BUCKETS \<union> set LIABILITY_BUCKETS"
      "dm_totals m = nav_values exact (cm_settled ?K) (cm_components ?K) (map snd (pk_values (dm_positions m))) (dm_buckets m)"
      unfolding nav_total_Inr Let_def by simp_all
  qed
  have positions: "sum_list (map snd (pk_values (dm_positions m))) = sum_list (map (marked_value mk instruments base t) (lg_lots s))"
    using m mark_positions_sum [OF _ assms(3) missing, of mk instruments base t no_positions]
    by (simp add: mark_positions_def no_positions_def)
  have cash: "cm_settled ?K + cm_receivables ?K - cm_payables ?K =
      sum_list (map (\<lambda>(currency, b). cc_economic b * rate_of mk base t currency) (balances exact (lg_movements s) day None))"
    using m mark_cash_economic [of ?K "\<lambda>currency. mk_fx mk currency base t" base "lg_movements s" day] by simp
  show ?thesis
    using nav_values_signed [OF buckets(1) totals(1), of "cm_settled ?K" "cm_components ?K" "map snd (pk_values (dm_positions m))"]
      nav totals(2) buckets(2) positions cash B(2) by simp
qed

text \<open>A book with two shares, cash that settles later and an accrued fee.\<close>

definition book_observation :: observation where
  "book_observation = \<lparr>ob_value = 10, ob_timestamp = 1, ob_ingested_at = 1, ob_source = ''vendor'',
     ob_category = ''PROVIDER'', ob_state = ''EOD'', ob_currency = ''USD'', ob_id = ''o'', ob_file_id = None,
     ob_version_id = None, ob_adjustment = ''UNADJUSTED'', ob_fields = None\<rparr>"

definition book_market :: market where
  "book_market = idle_market\<lparr>mk_price := (\<lambda>i t. if i = ''X'' then Some book_observation else None)\<rparr>"

definition book_instruments :: "instrument_row list" where
  "book_instruments = [\<lparr>in_id = ''X'', in_symbol = ''X'', in_name = ''X'', in_country = ''US'', in_currency = ''USD'',
     in_asset_class = ''EQUITY'', in_sector = None, in_industry = None\<rparr>]"

definition book_ledger :: "string \<Rightarrow> ledger" where
  "book_ledger cash_currency = (new_ledger default_policy)\<lparr>
     lg_movements := [\<lparr>mv_transaction_id = ''D'', mv_currency = cash_currency, mv_amount = 1000, mv_fx = 1,
       mv_trade_date = 1, mv_settlement_date = 5, mv_account_id = None, mv_description = []\<rparr>],
     lg_lots := [(''X'', new_position\<lparr>ps_quantity := 2, ps_cost_native := 15, ps_cost_base := 15\<rparr>)]\<rparr>"

definition book_fee :: adjustment_row where
  "book_fee = \<lparr>ba_id = ''f'', ba_created_at = 1, ba_portfolio_id = ''P'', ba_effective_date = 1,
     ba_bucket = ''accrued_fees'', ba_currency = ''USD'', ba_amount = 7, ba_reason = ''audit''\<rparr>"

lemma book_valued:
  "map_sum id nav_of (mark_day exact book_market book_instruments ''USD'' [book_fee] 9 1 (book_ledger ''USD'')) =
   Inr (Some 1013)"
  by code_simp

theorem nav_is_marked_book_witness:
  "1013 =
    sum_list (map (\<lambda>(currency, b). cc_economic b * rate_of book_market ''USD'' 9 currency)
      (balances exact (lg_movements (book_ledger ''USD'')) 1 None)) +
    sum_list (map (marked_value book_market book_instruments ''USD'' 9) (lg_lots (book_ledger ''USD''))) +
    sum_list (map (\<lambda>r. bucket_sign (ba_bucket r) * ba_amount r * rate_of book_market ''USD'' 9 (ba_currency r))
      (filter (\<lambda>r. ba_effective_date r \<le> 1) [book_fee]))"
proof -
  obtain m where m: "mark_day exact book_market book_instruments ''USD'' [book_fee] 9 1 (book_ledger ''USD'') = Inr m"
    "nav_of m = Some 1013"
    by (rule exE [OF map_sum_Inr [OF book_valued]], elim conjE) (rule that)
  show ?thesis by (rule nav_is_marked_book [OF m]) (simp add: book_ledger_def)
qed

lemma book_unvalued:
  "map_sum id nav_of (mark_day exact book_market book_instruments ''USD'' [book_fee] 9 1 (book_ledger ''EUR'')) =
   Inr None"
  by code_simp

theorem nav_unknown_witness:
  "(\<exists>(currency, b) \<in> set (balances exact (lg_movements (book_ledger ''EUR'')) 1 None).
      \<not> empty_cash b \<and> fst (mk_fx book_market currency ''USD'' 9) = None) \<or>
   (\<exists>(i, lot) \<in> set (lg_lots (book_ledger ''EUR'')). ps_quantity lot \<noteq> 0 \<and>
      \<not> has_mark book_market book_instruments ''USD'' 9 i) \<or>
   (\<exists>((bucket, currency), amount) \<in> set (native_balances exact [book_fee] 1).
      amount \<noteq> 0 \<and> fst (mk_fx book_market currency ''USD'' 9) = None)"
proof -
  obtain m where m: "mark_day exact book_market book_instruments ''USD'' [book_fee] 9 1 (book_ledger ''EUR'') = Inr m"
    "nav_of m = None"
    by (rule exE [OF map_sum_Inr [OF book_unvalued]], elim conjE) (rule that)
  from nav_unknown [OF m(1)] m(2) show ?thesis by (rule iffD1)
qed

end
