(* ===== verification/Risk_Limits.thy ===== *)
theory Risk_Limits
  imports Portfolio_Balances
begin

text \<open>
  \<open>risk_limits.py\<close> with the contracts of \<open>risk_contracts.py\<close>: configuration of a portfolio's risk
  limits and their evaluation against a valuation, with one durable breach per limit, an alert while
  it is open and an audit record of every transition. Fresh identifiers, the name-based identifier
  of a breach, the text of a decimal and what a \<open>NUMERIC(24, 8)\<close> column keeps of a value are
  parameters.
\<close>

section \<open>Tables\<close>

record risk_policy_row =
  rp_id :: string
  rp_portfolio_id :: string
  rp_name :: string
  rp_enabled :: bool

record risk_limit_row =
  rl_id :: string
  rl_policy_id :: string
  rl_metric :: string
  rl_threshold :: rat
  rl_direction :: string

datatype breach_state = OPEN | UNDETERMINED | RESOLVED

record risk_breach_row =
  rb_id :: string
  rb_created_at :: int
  rb_updated_at :: int
  rb_portfolio_id :: string
  rb_limit_id :: "string option"
  rb_metric :: string
  rb_observed_value :: rat
  rb_threshold :: rat
  rb_state :: breach_state

datatype alert_state = ALERT_OPEN | ALERT_ACKNOWLEDGED | ALERT_RESOLVED

record alert_row =
  al_id :: string
  al_created_at :: int
  al_severity :: string
  al_title :: string
  al_message :: string
  al_state :: alert_state

text \<open>The metadata of the audit records of this component.\<close>

datatype risk_event =
    StateChanged "breach_state option" breach_state "rat option" rat
  | Observation "rat option" "rat option"
  | Configured "(string \<times> rat \<times> string) option" string rat string

record risk_audit_row = audit_row +
  ra_event :: risk_event

record risk_db = ledger_db +
  rk_policies :: "risk_policy_row list"
  rk_limits :: "risk_limit_row list"
  rk_breaches :: "risk_breach_row list"
  rk_alerts :: "alert_row list"
  rk_audit :: "risk_audit_row list"

record risk_env =
  re_now :: int
  re_new_id :: "string \<Rightarrow> string"
  re_breach_id :: "string \<Rightarrow> string \<Rightarrow> string"
  re_text :: "rat \<Rightarrow> string"
  re_stored :: "rat \<Rightarrow> rat"

section \<open>Requests and snapshots\<close>

definition METRICS :: "string list" where
  "METRICS = [''max_position_weight'', ''top_five_concentration'', ''max_sector_weight'',
     ''max_country_weight'', ''max_currency_weight'', ''max_industry_weight'', ''gross_exposure'',
     ''net_exposure'', ''beta'', ''volatility'', ''var_loss_95'', ''cvar_loss_95'', ''drawdown_loss'',
     ''cash_weight'', ''leverage'', ''stale_exposure'']"

record limit_request =
  lq_metric :: string
  lq_threshold :: rat
  lq_direction :: string
  lq_enabled :: bool
  lq_reason :: string

text \<open>\<open>max_digits=18, decimal_places=8\<close> leaves ten integer digits.\<close>

definition check_limit_request :: "limit_request \<Rightarrow> unit result" where
  "check_limit_request rq =
     bindE (ensure (lq_metric rq \<in> set METRICS) (ValueError ''Unsupported risk limit metric'')) (\<lambda>_.
     bindE (ensure (quantized 8 (lq_threshold rq) = lq_threshold rq \<and> \<bar>lq_threshold rq\<bar> < 10 ^ 10)
        (ValueError ''Decimal input should have no more than 18 digits'')) (\<lambda>_.
     bindE (ensure (lq_direction rq \<in> {''MIN'', ''MAX''}) (ValueError ''Input should be MIN or MAX'')) (\<lambda>_.
     ensure (10 \<le> length (lq_reason rq) \<and> length (lq_reason rq) \<le> 2000)
       (ValueError ''String length out of range''))))"

record risk_snapshot =
  rs_portfolio_id :: "string option"
  rs_nav :: "pynum option"
  rs_risk :: "(string \<times> pynum option) list"
  rs_valuation_run_id :: "string option"

text \<open>The ids a portfolio's configuration disables: a list of strings, strictly.\<close>

fun string_list :: "pyval list \<Rightarrow> string list option" where
  "string_list [] = Some []"
| "string_list (VStr s # vs) = map_option ((#) s) (string_list vs)"
| "string_list (_ # vs) = None"

definition disabled_limit_ids :: "pyval dict \<Rightarrow> string list result" where
  "disabled_limit_ids configuration =
     (case dict_get configuration ''disabled_risk_limit_ids'' (VList []) of
        VList vs \<Rightarrow> found (ValueError ''Input should be a valid string'') (string_list vs)
      | _ \<Rightarrow> Inl (ValueError ''Input should be a valid list''))"

definition metric_source :: "string \<Rightarrow> string" where
  "metric_source metric =
     dict_get [(''var_loss_95'', ''var_95''), (''cvar_loss_95'', ''cvar_95''),
       (''drawdown_loss'', ''current_drawdown'')] metric metric"

definition metric_value :: "ctx \<Rightarrow> risk_snapshot \<Rightarrow> string \<Rightarrow> rat option" where
  "metric_value c data metric =
     (case rs_nav data of
        Some (Fin nav) \<Rightarrow>
          if nav \<le> 0 then None
          else
            (case dict_get (rs_risk data) (metric_source metric) None of
               Some (Fin value) \<Rightarrow> Some (if metric_source metric \<noteq> metric then dabs c value else value)
             | _ \<Rightarrow> None)
      | _ \<Rightarrow> None)"

definition limit_rows :: "risk_db \<Rightarrow> string \<Rightarrow> risk_limit_row list" where
  "limit_rows db portfolio_id =
     sort_key rl_metric (filter (\<lambda>l. \<exists>p \<in> set (rk_policies db).
       rp_id p = rl_policy_id l \<and> rp_portfolio_id p = portfolio_id \<and> rp_enabled p) (rk_limits db))"

section \<open>Configuration\<close>

definition upsert :: "('a \<Rightarrow> string) \<Rightarrow> 'a \<Rightarrow> 'a list \<Rightarrow> 'a list" where
  "upsert key x xs =
     (if key x \<in> key ` set xs then map (\<lambda>y. if key y = key x then x else y) xs else xs @ [x])"

definition enabled_policy :: "risk_db \<Rightarrow> string \<Rightarrow> risk_policy_row option" where
  "enabled_policy db portfolio_id =
     find (\<lambda>p. rp_portfolio_id p = portfolio_id \<and> rp_enabled p) (rk_policies db)"

definition policy_for :: "risk_env \<Rightarrow> risk_db \<Rightarrow> string \<Rightarrow> risk_policy_row" where
  "policy_for env db portfolio_id =
     (case enabled_policy db portfolio_id of
        Some p \<Rightarrow> p
      | None \<Rightarrow> \<lparr>rp_id = re_new_id env ''policy'', rp_portfolio_id = portfolio_id,
                 rp_name = ''Internal risk review'', rp_enabled = True\<rparr>)"

definition configured_row ::
  "risk_env \<Rightarrow> risk_db \<Rightarrow> string \<Rightarrow> risk_limit_row option \<Rightarrow> limit_request \<Rightarrow> risk_limit_row" where
  "configured_row env db portfolio_id row rq =
     \<lparr>rl_id = (case row of Some r \<Rightarrow> rl_id r | None \<Rightarrow> re_new_id env ''limit''),
      rl_policy_id = (case row of Some r \<Rightarrow> rl_policy_id r | None \<Rightarrow> rp_id (policy_for env db portfolio_id)),
      rl_metric = lq_metric rq, rl_threshold = lq_threshold rq, rl_direction = lq_direction rq\<rparr>"

definition set_disabled :: "string list \<Rightarrow> string \<Rightarrow> bool \<Rightarrow> string list" where
  "set_disabled disabled i enabled =
     sorted_keys (if enabled then filter (\<lambda>d. d \<noteq> i) disabled else i # disabled)"

definition with_disabled :: "string list \<Rightarrow> profile_row \<Rightarrow> profile_row" where
  "with_disabled disabled p =
     p\<lparr>pr_configuration := AList.update ''disabled_risk_limit_ids'' (VList (map VStr disabled)) (pr_configuration p)\<rparr>"

definition risk_audit ::
  "risk_env \<Rightarrow> string \<Rightarrow> string \<Rightarrow> string \<Rightarrow> string option \<Rightarrow> risk_event \<Rightarrow> risk_audit_row" where
  "risk_audit env action resource_type i actor event =
     \<lparr>au_id = re_new_id env (''audit'' @ i), au_created_at = re_now env, au_action = action,
      au_resource_type = resource_type, au_resource_id = i, au_actor = actor, ra_event = event\<rparr>"

record configured_limit =
  cl_id :: string
  cl_metric :: string
  cl_threshold :: rat
  cl_direction :: string
  cl_enabled :: bool
  cl_reason :: string

definition stored_limit ::
  "risk_env \<Rightarrow> risk_db \<Rightarrow> portfolio_row \<Rightarrow> profile_row \<Rightarrow> string list \<Rightarrow> risk_limit_row option \<Rightarrow>
   limit_request \<Rightarrow> string option \<Rightarrow> configured_limit \<times> risk_db" where
  "stored_limit env db portfolio profile disabled row rq actor =
     (let new = configured_row env db (po_id portfolio) row rq;
          ids = set_disabled disabled (rl_id new) (lq_enabled rq)
      in (\<lparr>cl_id = rl_id new, cl_metric = lq_metric rq, cl_threshold = lq_threshold rq,
           cl_direction = lq_direction rq, cl_enabled = lq_enabled rq, cl_reason = lq_reason rq\<rparr>,
          db\<lparr>rk_policies := (if row = None then upsert rp_id (policy_for env db (po_id portfolio)) (rk_policies db)
               else rk_policies db),
             rk_limits := upsert rl_id new (rk_limits db),
             db_profiles := map (\<lambda>p. if pr_portfolio_id p = pr_portfolio_id profile
               then with_disabled ids p else p) (db_profiles db),
             rk_audit := rk_audit db @
               [risk_audit env ''RISK_LIMIT_CONFIGURED'' ''risk_limit'' (rl_id new) actor
                  (Configured (map_option (\<lambda>r. (rl_metric r, rl_threshold r, rl_direction r)) row)
                     (lq_metric rq) (lq_threshold rq) (lq_direction rq))]\<rparr>))"

definition configure ::
  "risk_env \<Rightarrow> risk_db \<Rightarrow> string \<Rightarrow> limit_request \<Rightarrow> string option \<Rightarrow> string option \<Rightarrow>
   (configured_limit \<times> risk_db) result" where
  "configure env db key rq actor limit_id =
     bindE (portfolio_of db key) (\<lambda>(portfolio, profile).
     bindE (disabled_limit_ids (pr_configuration profile)) (\<lambda>disabled.
     bindE (case limit_id of
          Some i \<Rightarrow> if i \<noteq> []
            then bindE (found (ValueError ''Risk limit does not belong to the selected portfolio'')
              (find (\<lambda>l. rl_id l = i) (limit_rows db (po_id portfolio)))) (\<lambda>l. Inr (Some l))
            else Inr None
        | None \<Rightarrow> Inr None) (\<lambda>row.
     Inr (stored_limit env db portfolio profile disabled row rq actor))))"

section \<open>Evaluation\<close>

datatype limit_state = DISABLED | NOT_EVALUATED | BREACH | OK

definition breaches :: "risk_limit_row \<Rightarrow> rat \<Rightarrow> bool" where
  "breaches limit value \<longleftrightarrow>
     (if rl_direction limit = ''MAX'' then rl_threshold limit < value else value < rl_threshold limit)"

definition limit_state_of :: "string list \<Rightarrow> risk_limit_row \<Rightarrow> rat option \<Rightarrow> limit_state" where
  "limit_state_of disabled limit value =
     (if rl_id limit \<in> set disabled then DISABLED
      else
        (case value of
           None \<Rightarrow> NOT_EVALUATED
         | Some v \<Rightarrow> if breaches limit v then BREACH else OK))"

definition alert_title :: "risk_limit_row \<Rightarrow> string" where
  "alert_title limit = ''Risk limit ['' @ rl_id limit @ '']''"

definition alert_message :: "risk_env \<Rightarrow> string \<Rightarrow> risk_limit_row \<Rightarrow> rat \<Rightarrow> string" where
  "alert_message env code limit value =
     code @ '': '' @ rl_metric limit @ '' '' @ re_text env value @ '' breaches '' @ rl_direction limit @
     '' '' @ re_text env (rl_threshold limit) @ ''. Manual review required; no broker action.''"

text \<open>The most recent alert of a title.\<close>

definition latest_alert :: "risk_db \<Rightarrow> string \<Rightarrow> alert_row option" where
  "latest_alert db title =
     (case rev (sort_key al_created_at (filter (\<lambda>a. al_title a = title) (rk_alerts db))) of
        [] \<Rightarrow> None | a # _ \<Rightarrow> Some a)"

definition opened_breach ::
  "risk_env \<Rightarrow> string \<Rightarrow> risk_limit_row \<Rightarrow> rat \<Rightarrow> risk_breach_row option \<Rightarrow> risk_breach_row" where
  "opened_breach env portfolio_id limit value breach =
     \<lparr>rb_id = re_breach_id env portfolio_id (rl_id limit),
      rb_created_at = (case breach of Some b \<Rightarrow> rb_created_at b | None \<Rightarrow> re_now env),
      rb_updated_at = re_now env,
      rb_portfolio_id = (case breach of Some b \<Rightarrow> rb_portfolio_id b | None \<Rightarrow> portfolio_id),
      rb_limit_id = (case breach of Some b \<Rightarrow> rb_limit_id b | None \<Rightarrow> Some (rl_id limit)),
      rb_metric = rl_metric limit, rb_observed_value = re_stored env value, rb_threshold = rl_threshold limit,
      rb_state = OPEN\<rparr>"

definition breach_after ::
  "risk_env \<Rightarrow> string \<Rightarrow> risk_limit_row \<Rightarrow> rat option \<Rightarrow> limit_state \<Rightarrow> risk_breach_row option \<Rightarrow>
   risk_breach_row option" where
  "breach_after env portfolio_id limit value state breach =
     (case (state, value) of
        (BREACH, Some v) \<Rightarrow> Some (opened_breach env portfolio_id limit v breach)
      | _ \<Rightarrow> map_option (\<lambda>b. b\<lparr>rb_state := (if state = NOT_EVALUATED then UNDETERMINED else RESOLVED),
                rb_updated_at := re_now env\<rparr>) breach)"

definition alert_after ::
  "risk_env \<Rightarrow> string \<Rightarrow> risk_limit_row \<Rightarrow> rat option \<Rightarrow> limit_state \<Rightarrow> risk_breach_row option \<Rightarrow>
   alert_row option \<Rightarrow> alert_row option" where
  "alert_after env code limit value state breach alert =
     (case (state, value) of
        (BREACH, Some v) \<Rightarrow>
          (case alert of
             Some a \<Rightarrow> if al_state a \<noteq> ALERT_RESOLVED
               then Some (a\<lparr>al_message := alert_message env code limit v\<rparr>)
               else Some \<lparr>al_id = re_new_id env (alert_title limit), al_created_at = re_now env,
                 al_severity = ''WARN'', al_title = alert_title limit,
                 al_message = alert_message env code limit v, al_state = ALERT_OPEN\<rparr>
           | None \<Rightarrow> Some \<lparr>al_id = re_new_id env (alert_title limit), al_created_at = re_now env,
                 al_severity = ''WARN'', al_title = alert_title limit,
                 al_message = alert_message env code limit v, al_state = ALERT_OPEN\<rparr>)
      | _ \<Rightarrow>
          if breach \<noteq> None \<and> state \<noteq> NOT_EVALUATED
          then map_option (\<lambda>a. a\<lparr>al_state := ALERT_RESOLVED\<rparr>) alert else alert)"

definition breach_events ::
  "risk_env \<Rightarrow> string option \<Rightarrow> rat option \<Rightarrow> risk_limit_row \<Rightarrow> risk_breach_row option \<Rightarrow>
   risk_breach_row option \<Rightarrow> risk_audit_row list" where
  "breach_events env actor value limit old new =
     (case new of
        None \<Rightarrow> []
      | Some b \<Rightarrow>
          if map_option rb_state old \<noteq> Some (rb_state b)
          then [risk_audit env ''RISK_BREACH_STATE_CHANGED'' ''risk_breach'' (rb_id b) actor
                  (StateChanged (map_option rb_state old) (rb_state b) value (rl_threshold limit))]
          else if value \<noteq> None \<and> value \<noteq> map_option rb_observed_value old
          then [risk_audit env ''RISK_BREACH_OBSERVATION'' ''risk_breach'' (rb_id b) actor
                  (Observation (map_option rb_observed_value old) value)]
          else [])"

record limit_evaluation =
  le_id :: string
  le_metric :: string
  le_value :: "rat option"
  le_threshold :: rat
  le_direction :: string
  le_enabled :: bool
  le_state :: limit_state
  le_usage :: "rat option"
  le_severity :: string
  le_first_breach :: "int option"
  le_last_checked :: int
  le_breach_id :: "string option"
  le_alert_id :: "string option"

definition severity_of :: "limit_state \<Rightarrow> string" where
  "severity_of state =
     (if state = BREACH then ''WARN'' else if state = NOT_EVALUATED then ''UNKNOWN'' else ''INFO'')"

definition evaluation_row ::
  "ctx \<Rightarrow> risk_env \<Rightarrow> string list \<Rightarrow> risk_limit_row \<Rightarrow> rat option \<Rightarrow> limit_state \<Rightarrow> risk_breach_row option \<Rightarrow>
   alert_row option \<Rightarrow> limit_evaluation" where
  "evaluation_row c env disabled limit value state breach alert =
     \<lparr>le_id = rl_id limit, le_metric = rl_metric limit, le_value = value,
      le_threshold = rl_threshold limit, le_direction = rl_direction limit,
      le_enabled = (rl_id limit \<notin> set disabled), le_state = state,
      le_usage = (case value of
          Some v \<Rightarrow> if rl_threshold limit \<noteq> 0 then Some (ddiv c v (rl_threshold limit)) else None
        | None \<Rightarrow> None),
      le_severity = severity_of state, le_first_breach = map_option rb_created_at breach,
      le_last_checked = re_now env, le_breach_id = map_option rb_id breach,
      le_alert_id = map_option al_id alert\<rparr>"

definition put_row :: "('a \<Rightarrow> string) \<Rightarrow> 'a option \<Rightarrow> 'a list \<Rightarrow> 'a list" where
  "put_row key row xs = (case row of Some x \<Rightarrow> upsert key x xs | None \<Rightarrow> xs)"

definition settle_limit ::
  "ctx \<Rightarrow> risk_env \<Rightarrow> string option \<Rightarrow> string \<Rightarrow> string \<Rightarrow> string list \<Rightarrow> risk_limit_row \<Rightarrow> rat option \<Rightarrow>
   limit_state \<Rightarrow> risk_breach_row option \<Rightarrow> alert_row option \<Rightarrow> risk_db \<Rightarrow> risk_db \<times> limit_evaluation" where
  "settle_limit c env actor portfolio_id code disabled limit value state breach alert db =
     (let breach' = breach_after env portfolio_id limit value state breach;
          alert' = alert_after env code limit value state breach alert
      in (db\<lparr>rk_breaches := put_row rb_id breach' (rk_breaches db),
             rk_alerts := put_row al_id alert' (rk_alerts db),
             rk_audit := rk_audit db @ breach_events env actor value limit breach breach'\<rparr>,
          evaluation_row c env disabled limit value state breach' alert'))"

definition breach_of :: "risk_db \<Rightarrow> string \<Rightarrow> risk_breach_row option" where
  "breach_of db i = find (\<lambda>b. rb_id b = i) (rk_breaches db)"

definition evaluate_limit ::
  "ctx \<Rightarrow> risk_env \<Rightarrow> string option \<Rightarrow> string \<Rightarrow> string \<Rightarrow> string list \<Rightarrow> risk_snapshot \<Rightarrow>
   risk_db \<times> limit_evaluation list \<Rightarrow> risk_limit_row \<Rightarrow> risk_db \<times> limit_evaluation list" where
  "evaluate_limit c env actor portfolio_id code disabled data acc limit =
     (let value = metric_value c data (rl_metric limit);
          step = settle_limit c env actor portfolio_id code disabled limit value
            (limit_state_of disabled limit value)
            (breach_of (fst acc) (re_breach_id env portfolio_id (rl_id limit)))
            (latest_alert (fst acc) (alert_title limit)) (fst acc)
      in (fst step, snd acc @ [snd step]))"

definition evaluate ::
  "ctx \<Rightarrow> risk_env \<Rightarrow> risk_db \<Rightarrow> risk_snapshot \<Rightarrow> string option \<Rightarrow> (limit_evaluation list \<times> risk_db) result" where
  "evaluate c env db data actor =
     bindE (ensure (rs_portfolio_id data \<noteq> None \<and> rs_portfolio_id data \<noteq> Some [])
        (ValueError ''Risk evaluation requires a portfolio identifier'')) (\<lambda>_.
     let portfolio_id = the (rs_portfolio_id data) in
     bindE (found (KeyError portfolio_id)
        (find (\<lambda>p. pr_portfolio_id p = portfolio_id) (db_profiles db))) (\<lambda>profile.
     bindE (disabled_limit_ids (pr_configuration profile)) (\<lambda>disabled.
     let out = foldl (evaluate_limit c env actor portfolio_id (pr_code profile) disabled data) (db, [])
                 (limit_rows db portfolio_id)
     in Inr (snd out, fst out))))"

text \<open>The timeline \<open>monitor\<close> shows: the last hundred records of the given breaches, newest first.\<close>

definition timeline :: "risk_db \<Rightarrow> limit_evaluation list \<Rightarrow> risk_audit_row list" where
  "timeline db limits =
     (let ids = List.map_filter le_breach_id limits
      in take 100 (rev (sort_key au_created_at (filter (\<lambda>a. au_resource_type a = ''risk_breach'' \<and>
           au_resource_id a \<in> set ids) (rk_audit db)))))"

end
