(* ===== verification/Risk_Facts.thy ===== *)
theory Risk_Facts
  imports Risk_Limits
begin

text \<open>
  The breach lifecycle as a state machine whose steps are the evaluations and the configurations of
  any portfolio. The audit log rebuilds the state of every breach, one evaluation leaves breach and
  alert as the state of the limit asks, and a resolved breach is logged again and again.
\<close>

section \<open>Tables by key\<close>

lemma find_replaced:
  "find (\<lambda>y. key y = k) (map (\<lambda>y. if key y = key x then x else y) xs) =
     (if key x = k then (if k \<in> key ` set xs then Some x else None) else find (\<lambda>y. key y = k) xs)"
  by (induction xs) auto

lemma find_upsert:
  "find (\<lambda>y. key y = k) (upsert key x xs) = (if key x = k then Some x else find (\<lambda>y. key y = k) xs)"
proof (cases "key x \<in> key ` set xs")
  case True
  then show ?thesis by (auto simp: upsert_def find_replaced)
next
  case False
  then have "find (\<lambda>y. key y = key x) xs = None"
    by (auto simp: find_None_iff image_iff)
  moreover have "find P (xs @ [x]) = (case find P xs of None \<Rightarrow> find P [x] | Some y \<Rightarrow> Some y)" for P
    by (induction xs) auto
  ultimately show ?thesis using False by (auto simp: upsert_def split: option.splits)
qed

lemma breach_of_put:
  "find (\<lambda>y. rb_id y = k) (put_row rb_id row xs) =
     (case row of Some b \<Rightarrow> if rb_id b = k then Some b else find (\<lambda>y. rb_id y = k) xs
      | None \<Rightarrow> find (\<lambda>y. rb_id y = k) xs)"
  by (auto simp: put_row_def find_upsert split: option.splits)

lemma breach_of_id: "breach_of db i = Some b \<Longrightarrow> rb_id b = i"
  by (auto simp: breach_of_def find_Some_iff)

section \<open>The transitions of a breach\<close>

fun transition :: "risk_event \<Rightarrow> (breach_state option \<times> breach_state) option" where
  "transition (StateChanged before after _ _) = Some (before, after)"
| "transition _ = None"

definition events_of :: "risk_db \<Rightarrow> string \<Rightarrow> risk_event list" where
  "events_of db i = map ra_event (filter (\<lambda>a. au_resource_type a = ''risk_breach'' \<and> au_resource_id a = i)
     (rk_audit db))"

text \<open>The state a log of transitions leads to: every record starts where the one before it ended, and
  moves.\<close>

fun follow :: "breach_state option \<Rightarrow> (breach_state option \<times> breach_state) list \<Rightarrow> breach_state option option" where
  "follow s [] = Some s"
| "follow s ((before, after) # es) =
     (if before = s \<and> before \<noteq> Some after then follow (Some after) es else None)"

definition logged_state :: "risk_db \<Rightarrow> string \<Rightarrow> breach_state option option" where
  "logged_state db i = follow None (List.map_filter transition (events_of db i))"

lemma follow_snoc:
  "follow s (es @ [(before, after)]) =
     (if follow s es = Some before \<and> before \<noteq> Some after then Some (Some after) else None)"
  by (induction s es rule: follow.induct) auto

lemma risk_audit_simps [simp]:
  "au_resource_type (risk_audit env action type i actor e) = type"
  "au_resource_id (risk_audit env action type i actor e) = i"
  "ra_event (risk_audit env action type i actor e) = e"
  by (simp_all add: risk_audit_def)

lemma breach_after_id:
  assumes "breach_after env pf limit v st old = Some b" "\<forall>x. old = Some x \<longrightarrow> rb_id x = re_breach_id env pf (rl_id limit)"
  shows "rb_id b = re_breach_id env pf (rl_id limit)"
  using assms by (auto simp: breach_after_def opened_breach_def split: limit_state.splits option.splits)

lemma breach_after_None: "breach_after env pf limit v st old = None \<Longrightarrow> old = None"
  by (auto simp: breach_after_def split: limit_state.splits option.splits)

text \<open>The log of a breach grows by what the evaluation of its own limit adds.\<close>

abbreviation bid :: "risk_env \<Rightarrow> string \<Rightarrow> risk_limit_row \<Rightarrow> string" where
  "bid env pf limit \<equiv> re_breach_id env pf (rl_id limit)"

lemma settle_breach:
  assumes "settle_limit c env actor pf code disabled limit v st (breach_of db (bid env pf limit)) alert db = (db', le)"
  shows "breach_of db' i = (if i = bid env pf limit
      then breach_after env pf limit v st (breach_of db i) else breach_of db i)"
    "events_of db' i = events_of db i @ (if i = bid env pf limit
      then map ra_event (breach_events env actor v limit (breach_of db i) (breach_of db' i)) else [])"
proof -
  let ?k = "bid env pf limit"
  let ?new = "breach_after env pf limit v st (breach_of db ?k)"
  have key: "rb_id b = ?k" if "?new = Some b" for b
    using breach_after_id [OF that] breach_of_id by blast
  have db': "db' = db\<lparr>rk_breaches := put_row rb_id ?new (rk_breaches db),
      rk_alerts := put_row al_id (alert_after env code limit v st (breach_of db ?k) alert) (rk_alerts db),
      rk_audit := rk_audit db @ breach_events env actor v limit (breach_of db ?k) ?new\<rparr>"
    using assms by (simp add: settle_limit_def Let_def)
  have breach: "breach_of db' i = (if i = ?k then ?new else breach_of db i)" for i
  proof (cases ?new)
    case None
    with breach_after_None [OF None] show ?thesis by (simp add: db' breach_of_def put_row_def)
  next
    case (Some b)
    with key show ?thesis by (auto simp: db' breach_of_def breach_of_put)
  qed
  then show "breach_of db' i = (if i = ?k
      then breach_after env pf limit v st (breach_of db i) else breach_of db i)"
    by auto
  show "events_of db' i = events_of db i @ (if i = ?k
      then map ra_event (breach_events env actor v limit (breach_of db i) (breach_of db' i)) else [])"
    using key unfolding breach by (auto simp: db' events_of_def breach_events_def split: option.splits)
qed

lemma settle_logged:
  assumes "settle_limit c env actor pf code disabled limit v st (breach_of db (bid env pf limit)) alert db = (db', le)"
    "logged_state db i = Some (map_option rb_state (breach_of db i))"
  shows "logged_state db' i = Some (map_option rb_state (breach_of db' i))"
proof (cases "i = bid env pf limit")
  case True
  have "breach_of db' i = None \<Longrightarrow> breach_of db i = None"
    using settle_breach(1) [OF assms(1), of i] True
    by (metis breach_after_None)
  then show ?thesis
    using assms(2) settle_breach(2) [OF assms(1), of i] True
    by (auto simp: logged_state_def breach_events_def follow_snoc List.map_filter_def
        split: option.splits if_splits)
next
  case False
  with assms settle_breach [OF assms(1), of i] show ?thesis by (simp add: logged_state_def)
qed

section \<open>Alerts\<close>

lemma sort_key_snoc: "\<forall>y \<in> set xs. f y \<le> f x \<Longrightarrow> sort_key f (xs @ [x]) = sort_key f xs @ [x]"
proof (induction xs)
  case (Cons y xs)
  have "insort_key f y (zs @ [x]) = insort_key f y zs @ [x]" if "f y \<le> f x" for zs
    using that by (induction zs) auto
  with Cons show ?case by simp
qed simp

lemma sort_key_map_same: "(\<And>x. f (g x) = f x) \<Longrightarrow> sort_key f (map g xs) = map g (sort_key f xs)"
proof (induction xs)
  case (Cons x xs)
  have "insort_key f (g x) (map g zs) = map g (insort_key f x zs)" for zs
    using Cons.prems by (induction zs) auto
  with Cons show ?case by simp
qed simp

definition last_of :: "'a list \<Rightarrow> 'a option" where
  "last_of xs = (if xs = [] then None else Some (last xs))"

lemma latest_alert_last:
  "latest_alert db title = last_of (sort_key al_created_at (filter (\<lambda>a. al_title a = title) (rk_alerts db)))"
  by (auto simp: latest_alert_def last_of_def hd_rev [symmetric] split: list.splits)

lemma latest_alert_in:
  "latest_alert db title = Some a \<Longrightarrow> a \<in> set (rk_alerts db) \<and> al_title a = title"
proof -
  assume "latest_alert db title = Some a"
  then have "a \<in> set (sort_key al_created_at (filter (\<lambda>a. al_title a = title) (rk_alerts db)))"
    by (metis last_in_set last_of_def latest_alert_last option.distinct(1) option.inject)
  then show ?thesis by simp
qed

text \<open>What an evaluation relies on: alerts have their own ids, the ids it makes are new and its clock
  is not behind the alerts it finds.\<close>

definition alerts_ok :: "risk_env \<Rightarrow> string list \<Rightarrow> risk_db \<Rightarrow> bool" where
  "alerts_ok env titles db \<longleftrightarrow>
     distinct (map al_id (rk_alerts db)) \<and>
     (\<forall>a \<in> set (rk_alerts db). al_created_at a \<le> re_now env) \<and>
     (\<forall>t \<in> set titles. re_new_id env t \<notin> al_id ` set (rk_alerts db)) \<and>
     distinct (map (re_new_id env) titles)"

lemma upsert_replaces:
  assumes "distinct (map key xs)" "x \<in> set xs" "key y = key x"
  shows "upsert key y xs = map (\<lambda>z. if z = x then y else z) xs"
proof -
  have "key z = key y \<longleftrightarrow> z = x" if "z \<in> set xs" for z
    using assms that by (auto simp: distinct_map inj_on_def)
  then have "map (\<lambda>z. if key z = key y then y else z) xs = map (\<lambda>z. if z = x then y else z) xs"
    by auto
  with assms(2,3) show ?thesis by (auto simp: upsert_def)
qed

lemma latest_replaced:
  assumes "distinct (map al_id (rk_alerts db))" "latest_alert db t = Some a"
    "al_id y = al_id a" "al_title y = t" "al_created_at y = al_created_at a"
  shows "latest_alert (db\<lparr>rk_alerts := upsert al_id y (rk_alerts db)\<rparr>) u =
    (if u = t then Some y else latest_alert db u)"
proof -
  let ?g = "\<lambda>z. if z = a then y else z"
  have a: "a \<in> set (rk_alerts db)" "al_title a = t"
    using latest_alert_in [OF assms(2)] by auto
  have "filter (\<lambda>z. al_title z = u) (map ?g xs) = map ?g (filter (\<lambda>z. al_title z = u) xs)" for xs
    using a(2) assms(4) by (induction xs) auto
  then have sorted: "sort_key al_created_at (filter (\<lambda>z. al_title z = u) (map ?g (rk_alerts db))) =
      map ?g (sort_key al_created_at (filter (\<lambda>z. al_title z = u) (rk_alerts db)))"
    using assms(5) by (simp add: sort_key_map_same)
  have "a \<notin> set (sort_key al_created_at (filter (\<lambda>z. al_title z = u) (rk_alerts db)))" if "u \<noteq> t"
    using that a(2) by auto
  then have other: "map ?g (sort_key al_created_at (filter (\<lambda>z. al_title z = u) (rk_alerts db))) =
      sort_key al_created_at (filter (\<lambda>z. al_title z = u) (rk_alerts db))" if "u \<noteq> t"
    using that by (intro map_idI) auto
  show ?thesis
    using assms(2) other
    by (auto simp: upsert_replaces [OF assms(1) a(1) assms(3)] latest_alert_last sorted last_of_def last_map
        split: if_splits)
qed

lemma latest_added:
  assumes "al_id y \<notin> al_id ` set (rk_alerts db)" "\<forall>a \<in> set (rk_alerts db). al_created_at a \<le> al_created_at y"
  shows "latest_alert (db\<lparr>rk_alerts := upsert al_id y (rk_alerts db)\<rparr>) u =
    (if u = al_title y then Some y else latest_alert db u)"
  using assms by (auto simp: upsert_def latest_alert_last last_of_def sort_key_snoc)

lemma latest_alert_cong: "rk_alerts db = rk_alerts db' \<Longrightarrow> latest_alert db u = latest_alert db' u"
  by (simp add: latest_alert_def)

text \<open>The alert of a limit after its evaluation is the alert before, or the same alert with another
  message or state, or a new one.\<close>

lemma alert_after_cases:
  assumes "alert_after env code limit v st breach alert = out"
    "\<forall>a. alert = Some a \<longrightarrow> al_title a = alert_title limit"
  shows "out = alert \<or>
    (\<exists>a y. alert = Some a \<and> out = Some y \<and> al_id y = al_id a \<and> al_title y = alert_title limit \<and>
       al_created_at y = al_created_at a) \<or>
    (\<exists>y. out = Some y \<and> al_id y = re_new_id env (alert_title limit) \<and> al_title y = alert_title limit \<and>
       al_created_at y = re_now env)"
  using assms by (auto simp: alert_after_def split: limit_state.splits option.splits if_splits)

lemma map_id_upsert: "map key (upsert key x xs) = map key xs @ (if key x \<in> key ` set xs then [] else [key x])"
  by (auto simp: upsert_def)

lemma settle_alert:
  assumes "settle_limit c env actor pf code disabled limit v st breach
      (latest_alert db (alert_title limit)) db = (db', le)"
    "alerts_ok env (alert_title limit # ts) db"
  shows "latest_alert db' u = (if u = alert_title limit
      then alert_after env code limit v st breach (latest_alert db u) else latest_alert db u)"
    "alerts_ok env ts db'"
proof -
  let ?t = "alert_title limit"
  let ?old = "latest_alert db ?t"
  let ?new = "alert_after env code limit v st breach ?old"
  have alerts: "rk_alerts db' = put_row al_id ?new (rk_alerts db)"
    using assms(1) by (auto simp: settle_limit_def Let_def)
  have ok: "distinct (map al_id (rk_alerts db))" "\<forall>a \<in> set (rk_alerts db). al_created_at a \<le> re_now env"
    "re_new_id env ?t \<notin> al_id ` set (rk_alerts db)"
    using assms(2) by (auto simp: alerts_ok_def)
  have "?new = ?old \<or>
    (\<exists>a y. ?old = Some a \<and> ?new = Some y \<and> al_id y = al_id a \<and> al_title y = ?t \<and>
       al_created_at y = al_created_at a) \<or>
    (\<exists>y. ?new = Some y \<and> al_id y = re_new_id env ?t \<and> al_title y = ?t \<and> al_created_at y = re_now env)"
    by (rule alert_after_cases) (use latest_alert_in in auto)
  then consider (none) "?new = None" "?old = None"
    | (same) a y where "?old = Some a" "?new = Some y" "al_id y = al_id a" "al_title y = ?t"
        "al_created_at y = al_created_at a"
    | (new) y where "?new = Some y" "al_id y = re_new_id env ?t" "al_title y = ?t" "al_created_at y = re_now env"
    using latest_alert_in by (cases ?old) auto
  then have "latest_alert db' u = (if u = ?t then ?new else latest_alert db u) \<and> alerts_ok env ts db'"
  proof cases
    case none
    then have "rk_alerts db' = rk_alerts db" by (simp add: alerts put_row_def)
    then show ?thesis using none assms(2) by (auto simp: alerts_ok_def latest_alert_def)
  next
    case same
    then have db': "rk_alerts db' = upsert al_id y (rk_alerts db)" by (simp add: alerts put_row_def)
    have a: "a \<in> set (rk_alerts db)" using latest_alert_in [OF same(1)] by simp
    have ids: "map al_id (rk_alerts db') = map al_id (rk_alerts db)"
      using a same(3) by (simp add: db' map_id_upsert image_iff) metis
    have "al_created_at z \<le> re_now env" if "z \<in> set (rk_alerts db')" for z
      using that ok(2) a same(5) unfolding db' upsert_replaces [OF ok(1) a same(3)] by auto
    moreover have "al_id ` set (rk_alerts db') = al_id ` set (rk_alerts db)"
      using ids by (metis set_map)
    ultimately have "alerts_ok env ts db'"
      using assms(2) ids by (auto simp: alerts_ok_def)
    moreover have "latest_alert db' u = latest_alert (db\<lparr>rk_alerts := upsert al_id y (rk_alerts db)\<rparr>) u"
      by (rule latest_alert_cong) (simp add: db')
    ultimately show ?thesis
      using latest_replaced [OF ok(1) same(1,3,4,5)] same(1,2) by simp
  next
    case new
    then have db': "rk_alerts db' = upsert al_id y (rk_alerts db)" by (simp add: alerts put_row_def)
    have fresh: "al_id y \<notin> al_id ` set (rk_alerts db)" using new ok(3) by simp
    then have "rk_alerts db' = rk_alerts db @ [y]" by (simp add: db' upsert_def)
    then have "alerts_ok env ts db'"
      using assms(2) new by (auto simp: alerts_ok_def image_iff)
    moreover have "latest_alert db' u = latest_alert (db\<lparr>rk_alerts := upsert al_id y (rk_alerts db)\<rparr>) u"
      by (rule latest_alert_cong) (simp add: db')
    ultimately show ?thesis
      using latest_added [OF fresh] ok(2) new by simp
  qed
  then show "latest_alert db' u = (if u = ?t then alert_after env code limit v st breach (latest_alert db u)
      else latest_alert db u)" "alerts_ok env ts db'"
    by auto
qed

section \<open>One evaluation of all limits\<close>

text \<open>What one evaluation makes of a limit, from the tables before to the tables after.\<close>

definition limit_settled ::
  "ctx \<Rightarrow> risk_env \<Rightarrow> string option \<Rightarrow> string \<Rightarrow> string \<Rightarrow> string list \<Rightarrow> risk_snapshot \<Rightarrow> risk_db \<Rightarrow> risk_db \<Rightarrow>
   risk_limit_row \<Rightarrow> limit_evaluation \<Rightarrow> bool" where
  "limit_settled c env actor pf code disabled data db db' limit le \<longleftrightarrow>
     (let value = metric_value c data (rl_metric limit); st = limit_state_of disabled limit value;
          i = bid env pf limit; t = alert_title limit
      in breach_of db' i = breach_after env pf limit value st (breach_of db i) \<and>
         latest_alert db' t = alert_after env code limit value st (breach_of db i) (latest_alert db t) \<and>
         events_of db' i = events_of db i @ map ra_event (breach_events env actor value limit (breach_of db i)
           (breach_of db' i)) \<and>
         le = evaluation_row c env disabled limit value st (breach_of db' i) (latest_alert db' t))"

lemma evaluate_limit_step:
  assumes "settle_limit c env actor pf code disabled l (metric_value c data (rl_metric l))
      (limit_state_of disabled l (metric_value c data (rl_metric l)))
      (breach_of db (bid env pf l)) (latest_alert db (alert_title l)) db = (db1, le)"
  shows "evaluate_limit c env actor pf code disabled data (db, les) l = (db1, les @ [le])"
  using assms by (simp add: evaluate_limit_def Let_def)

lemma loop_frame:
  assumes "foldl (evaluate_limit c env actor pf code disabled data) (db, les) ls = (db', les')"
    "alerts_ok env (map alert_title ls) db"
  shows "(\<forall>i. i \<notin> bid env pf ` set ls \<longrightarrow> breach_of db' i = breach_of db i \<and> events_of db' i = events_of db i) \<and>
    (\<forall>t. t \<notin> alert_title ` set ls \<longrightarrow> latest_alert db' t = latest_alert db t)"
  using assms
proof (induction ls arbitrary: db les)
  case (Cons l ls)
  let ?v = "metric_value c data (rl_metric l)"
  obtain db1 le where step: "settle_limit c env actor pf code disabled l ?v (limit_state_of disabled l ?v)
      (breach_of db (bid env pf l)) (latest_alert db (alert_title l)) db = (db1, le)"
    by fastforce
  then have rest: "foldl (evaluate_limit c env actor pf code disabled data) (db1, les @ [le]) ls = (db', les')"
    using Cons.prems(1) by (simp add: evaluate_limit_step [OF step])
  have ok: "alerts_ok env (alert_title l # map alert_title ls) db" using Cons.prems(2) by simp
  show ?case
    using Cons.IH [OF rest settle_alert(2) [OF step ok]] settle_breach [OF step] settle_alert(1) [OF step ok]
    by auto
qed auto

lemma loop_settled:
  assumes "foldl (evaluate_limit c env actor pf code disabled data) (db, les) ls = (db', les')"
    "alerts_ok env (map alert_title ls) db" "distinct (map (bid env pf) ls)"
  shows "\<exists>rows. les' = les @ rows \<and>
    list_all2 (limit_settled c env actor pf code disabled data db db') ls rows"
  using assms
proof (induction ls arbitrary: db les)
  case (Cons l ls)
  let ?v = "metric_value c data (rl_metric l)"
  obtain db1 le where step: "settle_limit c env actor pf code disabled l ?v (limit_state_of disabled l ?v)
      (breach_of db (bid env pf l)) (latest_alert db (alert_title l)) db = (db1, le)"
    by fastforce
  then have rest: "foldl (evaluate_limit c env actor pf code disabled data) (db1, les @ [le]) ls = (db', les')"
    using Cons.prems(1) by (simp add: evaluate_limit_step [OF step])
  have ok: "alerts_ok env (alert_title l # map alert_title ls) db" using Cons.prems(2) by simp
  note ok1 = settle_alert(2) [OF step ok]
  obtain rows where rows: "les' = (les @ [le]) @ rows"
    "list_all2 (limit_settled c env actor pf code disabled data db1 db') ls rows"
    using Cons.IH [OF rest ok1] Cons.prems(3) by auto
  have new: "bid env pf l \<notin> bid env pf ` set ls" "alert_title l \<notin> alert_title ` set ls"
    using Cons.prems(3) by (auto simp: alert_title_def image_iff)
  have same: "breach_of db1 (bid env pf m) = breach_of db (bid env pf m)"
    "events_of db1 (bid env pf m) = events_of db (bid env pf m)"
    "latest_alert db1 (alert_title m) = latest_alert db (alert_title m)" if "m \<in> set ls" for m
    using that new settle_breach [OF step] settle_alert(1) [OF step ok] by (auto simp: image_iff)
  have "list_all2 (limit_settled c env actor pf code disabled data db db') ls rows"
    using rows(2) by (rule list.rel_mono_strong) (simp add: limit_settled_def Let_def same)
  moreover have "limit_settled c env actor pf code disabled data db db' l le"
    using new loop_frame [OF rest ok1] settle_breach [OF step, of "bid env pf l"] settle_alert(1) [OF step ok]
      step by (simp add: limit_settled_def settle_limit_def Let_def)
  ultimately show ?case using rows(1) by (intro exI [of _ "le # rows"]) simp
qed simp

lemma loop_logged:
  assumes "foldl (evaluate_limit c env actor pf code disabled data) (db, les) ls = (db', les')"
    "logged_state db i = Some (map_option rb_state (breach_of db i))"
  shows "logged_state db' i = Some (map_option rb_state (breach_of db' i))"
  using assms
proof (induction ls arbitrary: db les)
  case (Cons l ls)
  let ?v = "metric_value c data (rl_metric l)"
  obtain db1 le where step: "settle_limit c env actor pf code disabled l ?v (limit_state_of disabled l ?v)
      (breach_of db (bid env pf l)) (latest_alert db (alert_title l)) db = (db1, le)"
    by fastforce
  then have "foldl (evaluate_limit c env actor pf code disabled data) (db1, les @ [le]) ls = (db', les')"
    using Cons.prems(1) by (simp add: evaluate_limit_step [OF step])
  then show ?case using Cons.IH settle_logged [OF step Cons.prems(2)] by blast
qed simp

lemma evaluateE:
  assumes "evaluate c env db data actor = Inr (les, db')"
  obtains pf profile disabled where "rs_portfolio_id data = Some pf" "pf \<noteq> []"
    "find (\<lambda>p. pr_portfolio_id p = pf) (db_profiles db) = Some profile"
    "disabled_limit_ids (pr_configuration profile) = Inr disabled"
    "foldl (evaluate_limit c env actor pf (pr_code profile) disabled data) (db, []) (limit_rows db pf) = (db', les)"
  using assms by (auto simp: evaluate_def result_simps found_def Let_def split: option.splits)

lemma list_all2_member: "list_all2 P xs ys \<Longrightarrow> x \<in> set xs \<Longrightarrow> \<exists>y \<in> set ys. P x y"
  by (induction rule: list_all2_induct) auto

lemma evaluate_settled:
  assumes "evaluate c env db data actor = Inr (les, db')" "rs_portfolio_id data = Some pf"
    "distinct (map (bid env pf) (limit_rows db pf))"
    "alerts_ok env (map alert_title (limit_rows db pf)) db"
    "limit \<in> set (limit_rows db pf)"
  shows "\<exists>code disabled. \<exists>le \<in> set les. limit_settled c env actor pf code disabled data db db' limit le"
proof -
  from assms(1,2) obtain code disabled where
    loop: "foldl (evaluate_limit c env actor pf code disabled data) (db, []) (limit_rows db pf) = (db', les)"
    by (elim evaluateE) auto
  show ?thesis
    using loop_settled [OF loop assms(4,3)] list_all2_member assms(5) by fastforce
qed

section \<open>The properties\<close>

inductive risk_step :: "ctx \<Rightarrow> risk_db \<Rightarrow> risk_db \<Rightarrow> bool" for c where
  evaluated: "evaluate c env db data actor = Inr (les, db') \<Longrightarrow> risk_step c db db'"
| configured: "configure env db key rq actor limit_id = Inr (out, db') \<Longrightarrow> risk_step c db db'"

inductive_cases risk_stepE: "risk_step c db db'"

lemma configureE:
  assumes "configure env db key rq actor limit_id = Inr out"
  obtains portfolio profile disabled row where "out = stored_limit env db portfolio profile disabled row rq actor"
  using assms by (auto simp: configure_def bindE_Inr_iff)

lemma configure_keeps:
  assumes "configure env db key rq actor limit_id = Inr out"
  shows "breach_of (snd out) i = breach_of db i \<and> events_of (snd out) i = events_of db i"
  using assms by (elim configureE) (simp add: stored_limit_def Let_def events_of_def breach_of_def)

lemma risk_step_logged:
  assumes "risk_step c db db'" "logged_state db i = Some (map_option rb_state (breach_of db i))"
  shows "logged_state db' i = Some (map_option rb_state (breach_of db' i))"
  using assms(1)
proof (rule risk_stepE)
  fix env data actor les
  assume "evaluate c env db data actor = Inr (les, db')"
  then show ?thesis by (elim evaluateE) (rule loop_logged [OF _ assms(2)])
next
  fix env key rq actor limit_id out
  assume "configure env db key rq actor limit_id = Inr (out, db')"
  from configure_keeps [OF this, of i] show ?thesis
    using assms(2) by (simp add: logged_state_def)
qed

text \<open>C29: The audit log holds the complete history of every breach: after any sequence of evaluations of
  snapshots and configurations of limits, of any portfolios, by any callers and at any times, the
  \<open>RISK_BREACH_STATE_CHANGED\<close> records of a breach start at no breach, each starts in the state the one
  before it ended in and changes it, and the last one ends in the state the breach has now.\<close>

theorem breaches_follow_their_log:
  assumes "(risk_step c)\<^sup>*\<^sup>* db db'" "rk_breaches db = []" "rk_audit db = []"
  shows "logged_state db' i = Some (map_option rb_state (breach_of db' i))"
  using assms(1)
proof (induction rule: rtranclp_induct)
  case base
  show ?case
    using assms(2,3) by (simp add: logged_state_def events_of_def breach_of_def List.map_filter_def)
next
  case (step y z)
  then show ?case by (rule_tac risk_step_logged)
qed

text \<open>One evaluation leaves every limit, its breach and its alert in agreement. A limit in \<open>BREACH\<close> has
  an open breach with the observed value and the limit's threshold, and its latest alert is not
  resolved; a limit that holds or is disabled leaves no unresolved breach and no unresolved latest
  alert of a breach; a limit that cannot be evaluated leaves a breach undetermined, never resolved,
  and its alert as it was. The hypotheses are that the breach identifiers of the limits differ, that
  alerts have distinct ids no later than now and that the new ids are new.\<close>

theorem evaluation_settles_breach:
  assumes "evaluate c env db data actor = Inr (les, db')" "rs_portfolio_id data = Some pf"
    "distinct (map (bid env pf) (limit_rows db pf))"
    "alerts_ok env (map alert_title (limit_rows db pf)) db"
    "limit \<in> set (limit_rows db pf)"
  shows "\<exists>le \<in> set les. le_id le = rl_id limit \<and> le_value le = metric_value c data (rl_metric limit) \<and>
    (case le_state le of
       BREACH \<Rightarrow> (\<exists>b a v. breach_of db' (bid env pf limit) = Some b \<and> rb_state b = OPEN \<and>
         le_value le = Some v \<and> rb_observed_value b = re_stored env v \<and> rb_threshold b = rl_threshold limit \<and>
         latest_alert db' (alert_title limit) = Some a \<and> al_state a \<noteq> ALERT_RESOLVED \<and>
         le_breach_id le = Some (rb_id b) \<and> le_alert_id le = Some (al_id a))
     | NOT_EVALUATED \<Rightarrow> map_option rb_state (breach_of db' (bid env pf limit)) \<in> {None, Some UNDETERMINED} \<and>
         latest_alert db' (alert_title limit) = latest_alert db (alert_title limit)
     | _ \<Rightarrow> breach_of db' (bid env pf limit) = None \<or>
         map_option rb_state (breach_of db' (bid env pf limit)) = Some RESOLVED \<and>
         pred_option (\<lambda>a. al_state a = ALERT_RESOLVED) (latest_alert db' (alert_title limit)))"
proof -
  from evaluate_settled [OF assms(1-5)] obtain code disabled le where
    le: "le \<in> set les" "limit_settled c env actor pf code disabled data db db' limit le"
    by blast
  let ?v = "metric_value c data (rl_metric limit)"
  have shown: "le_value le = ?v" "le_id le = rl_id limit" "le_state le = limit_state_of disabled limit ?v"
    using le(2) by (auto simp: limit_settled_def evaluation_row_def Let_def)
  show ?thesis
    by (rule bexI [OF _ le(1)])
      (use le(2) shown in \<open>auto simp: limit_settled_def evaluation_row_def Let_def limit_state_of_def
        breach_after_def alert_after_def opened_breach_def option.pred_map comp_def option.pred_True split: limit_state.splits option.splits if_splits\<close>)
qed

text \<open>A resolved breach is logged again by every evaluation: its observed value is no longer written,
  so an evaluation that finds the limit satisfied or disabled with another value keeps the breach
  resolved with the old value and appends one more \<open>RISK_BREACH_OBSERVATION\<close> record, from the old
  value to the new, however often the same snapshot has been evaluated and logged before.\<close>

theorem resolved_breach_observed_again:
  assumes "evaluate c env db data actor = Inr (les, db')" "rs_portfolio_id data = Some pf"
    "distinct (map (bid env pf) (limit_rows db pf))"
    "alerts_ok env (map alert_title (limit_rows db pf)) db"
    "limit \<in> set (limit_rows db pf)"
    "\<forall>le \<in> set les. le_id le = rl_id limit \<longrightarrow> le_state le \<in> {OK, DISABLED}"
    "breach_of db (bid env pf limit) = Some b" "rb_state b = RESOLVED"
    "metric_value c data (rl_metric limit) = Some v" "v \<noteq> rb_observed_value b"
  shows "breach_of db' (bid env pf limit) = Some (b\<lparr>rb_updated_at := re_now env\<rparr>) \<and>
    events_of db' (bid env pf limit) =
      events_of db (bid env pf limit) @ [Observation (Some (rb_observed_value b)) (Some v)]"
proof -
  from evaluate_settled [OF assms(1-5)] obtain code disabled le where
    le: "le \<in> set les" "limit_settled c env actor pf code disabled data db db' limit le"
    by blast
  have "le_id le = rl_id limit" "le_state le = limit_state_of disabled limit (Some v)"
    using le(2) assms(9) by (auto simp: limit_settled_def evaluation_row_def Let_def)
  then have "limit_state_of disabled limit (Some v) \<in> {OK, DISABLED}"
    using assms(6) le(1) by auto
  then show ?thesis
    using le(2) assms(7-10)
    by (auto simp: limit_settled_def Let_def breach_after_def breach_events_def)
qed

section \<open>An example\<close>

text \<open>A portfolio with a ten per cent limit on the largest position, and snapshots of it.\<close>

definition example_env :: "int \<Rightarrow> risk_env" where
  "example_env now = \<lparr>re_now = now, re_new_id = (\<lambda>s. replicate (nat now) CHR ''x'' @ s), re_breach_id = (\<lambda>p l. p @ l),
     re_text = (\<lambda>v. ''value''), re_stored = quantized 8\<rparr>"

definition example_db :: risk_db where
  "example_db = \<lparr>db_portfolios = [],
     db_profiles = [\<lparr>pr_portfolio_id = ''pf'', pr_code = ''MAIN'', pr_is_demo = False, pr_configuration = []\<rparr>],
     db_transactions = [], db_details = [], db_revisions = [], db_audit = [], db_symbols = [],
     rk_policies = [\<lparr>rp_id = ''po'', rp_portfolio_id = ''pf'', rp_name = ''p'', rp_enabled = True\<rparr>],
     rk_limits = [\<lparr>rl_id = ''l'', rl_policy_id = ''po'', rl_metric = ''max_position_weight'',
       rl_threshold = 1/10, rl_direction = ''MAX''\<rparr>],
     rk_breaches = [], rk_alerts = [], rk_audit = []\<rparr>"

definition example_data :: "rat \<Rightarrow> risk_snapshot" where
  "example_data weight = \<lparr>rs_portfolio_id = Some ''pf'', rs_nav = Some (Fin 100),
     rs_risk = [(''max_position_weight'', Some (Fin weight))], rs_valuation_run_id = None\<rparr>"

definition example_run :: "int \<Rightarrow> rat \<Rightarrow> risk_db \<Rightarrow> risk_db" where
  "example_run now weight db =
     (case evaluate exact (example_env now) db (example_data weight) None of
        Inr (les, db') \<Rightarrow> db' | Inl e \<Rightarrow> db)"

text \<open>A breach, its resolution, and two further evaluations of the snapshot that resolved it.\<close>

theorem breaches_follow_their_log_witness:
  "logged_state (example_run 3 (1/20) (example_run 2 (1/20) (example_run 1 (1/4) example_db))) ''pfl'' =
     Some (Some RESOLVED)"
proof -
  have steps: "risk_step exact db (example_run now w db)"
    if "\<not> isl (evaluate exact (example_env now) db (example_data w) None)" for now w db
    using that by (auto simp: example_run_def intro: risk_step.evaluated split: sum.splits)
  have "risk_step exact example_db (example_run 1 (1/4) example_db)"
    "risk_step exact (example_run 1 (1/4) example_db) (example_run 2 (1/20) (example_run 1 (1/4) example_db))"
    "risk_step exact (example_run 2 (1/20) (example_run 1 (1/4) example_db))
       (example_run 3 (1/20) (example_run 2 (1/20) (example_run 1 (1/4) example_db)))"
    by (rule steps; code_simp)+
  then have "(risk_step exact)\<^sup>*\<^sup>* example_db
      (example_run 3 (1/20) (example_run 2 (1/20) (example_run 1 (1/4) example_db)))"
    by (meson converse_rtranclp_into_rtranclp r_into_rtranclp)
  moreover have "rk_breaches example_db = []" "rk_audit example_db = []"
    by (simp_all add: example_db_def)
  ultimately have "logged_state (example_run 3 (1/20) (example_run 2 (1/20) (example_run 1 (1/4) example_db))) ''pfl'' =
      Some (map_option rb_state (breach_of
        (example_run 3 (1/20) (example_run 2 (1/20) (example_run 1 (1/4) example_db))) ''pfl''))"
    by (rule breaches_follow_their_log)
  also have "\<dots> = Some (Some RESOLVED)"
    by code_simp
  finally show ?thesis .
qed

text \<open>The run of the example as an evaluation, and the hypotheses of the lifecycle on it.\<close>

lemma example_run_evaluates:
  assumes "\<not> isl (evaluate exact (example_env now) db (example_data w) None)"
  shows "evaluate exact (example_env now) db (example_data w) None =
    Inr (fst (projr (evaluate exact (example_env now) db (example_data w) None)), example_run now w db)"
  using assms by (auto simp: example_run_def split: sum.splits)

theorem evaluation_settles_breach_witness:
  "map_option rb_state (breach_of (example_run 1 (1/4) example_db) ''pfl'') = Some OPEN"
proof -
  have ev: "\<not> isl (evaluate exact (example_env 1) example_db (example_data (1/4)) None)" by code_simp
  note run = evaluation_settles_breach [OF example_run_evaluates [OF ev], of "''pf''" "hd (rk_limits example_db)"]
  have "rs_portfolio_id (example_data (1/4)) = Some ''pf''" by code_simp
  moreover have "distinct (map (bid (example_env 1) ''pf'') (limit_rows example_db ''pf''))" by code_simp
  moreover have "alerts_ok (example_env 1) (map alert_title (limit_rows example_db ''pf'')) example_db"
    by (simp add: alerts_ok_def) code_simp
  moreover have "hd (rk_limits example_db) \<in> set (limit_rows example_db ''pf'')" by code_simp
  moreover have "map le_state (fst (projr (evaluate exact (example_env 1) example_db (example_data (1/4)) None))) = [BREACH]"
    by code_simp
  moreover have "bid (example_env 1) ''pf'' (hd (rk_limits example_db)) = ''pfl''" by code_simp
  ultimately show ?thesis using run by (auto split: limit_state.splits)
qed

theorem resolved_breach_observed_again_witness:
  "events_of (example_run 3 (1/20) (example_run 2 (1/20) (example_run 1 (1/4) example_db))) ''pfl'' =
     events_of (example_run 2 (1/20) (example_run 1 (1/4) example_db)) ''pfl'' @
       [Observation (Some (1/4)) (Some (1/20))]"
proof -
  let ?db = "example_run 2 (1/20) (example_run 1 (1/4) example_db)"
  have ev: "\<not> isl (evaluate exact (example_env 3) ?db (example_data (1/20)) None)" by code_simp
  note run = resolved_breach_observed_again [OF example_run_evaluates [OF ev], of "''pf''" "hd (rk_limits example_db)"
      "the (breach_of ?db ''pfl'')" "1/20"]
  have "rs_portfolio_id (example_data (1/20)) = Some ''pf''" by code_simp
  moreover have "distinct (map (bid (example_env 3) ''pf'') (limit_rows ?db ''pf''))" by code_simp
  moreover have "alerts_ok (example_env 3) (map alert_title (limit_rows ?db ''pf'')) ?db"
    by code_simp
  moreover have "hd (rk_limits example_db) \<in> set (limit_rows ?db ''pf'')" by code_simp
  moreover have "\<forall>le \<in> set (fst (projr (evaluate exact (example_env 3) ?db (example_data (1/20)) None))).
      le_id le = rl_id (hd (rk_limits example_db)) \<longrightarrow> le_state le \<in> {OK, DISABLED}" by code_simp
  moreover have "breach_of ?db (bid (example_env 3) ''pf'' (hd (rk_limits example_db))) = Some (the (breach_of ?db ''pfl''))"
    "rb_state (the (breach_of ?db ''pfl'')) = RESOLVED" "1/20 \<noteq> rb_observed_value (the (breach_of ?db ''pfl''))"
    "metric_value exact (example_data (1/20)) (rl_metric (hd (rk_limits example_db))) = Some (1/20)"
    "bid (example_env 3) ''pf'' (hd (rk_limits example_db)) = ''pfl''" "rb_observed_value (the (breach_of ?db ''pfl'')) = 1/4"
    by code_simp+
  ultimately show ?thesis using run by simp
qed

end
