(* ===== verification/Report_Jobs.thy ===== *)
theory Report_Jobs
  imports Ledger_Store
begin

text \<open>
  \<open>report_jobs.py\<close>, the endpoints of \<open>report_api.py\<close> and the write-once storage of
  \<open>object_storage.py\<close>: private reports are queued, claimed by one worker, rendered, stored and
  published. Every function here is one database transaction of the code or a composition of
  them, so that the interleavings of several workers can be stated. Rendering, hashing, the
  canonical JSON text and storage outages are parameters; a byte string is a \<open>string\<close>.
\<close>

section \<open>The table and the storage\<close>

datatype job_status = QUEUED | RUNNING | SUCCEEDED | FAILED

record report_job =
  rj_id :: string
  rj_created_at :: int
  rj_user_id :: string
  rj_kind :: string
  rj_format :: string
  rj_status :: job_status
  rj_progress :: rat
  rj_snapshot :: "pyval dict"
  rj_snapshot_hash :: string
  rj_worker_id :: "string option"
  rj_started_at :: "int option"
  rj_finished_at :: "int option"
  rj_expires_at :: int
  rj_error_category :: "string option"
  rj_error_message :: "string option"
  rj_object_key :: "string option"
  rj_content_hash :: "string option"
  rj_size_bytes :: "nat option"

datatype report_event =
    ReportQueued string string string
  | ReportSucceeded string nat
  | ReportFailed string
  | ReportDownloaded "string option"

record report_audit_row = audit_row +
  rp_event :: report_event

type_synonym object_store = "(string \<times> string) list"

record report_db =
  rq_jobs :: "report_job list"
  rq_objects :: object_store
  rq_audit :: "report_audit_row list"

text \<open>\<open>je_render\<close> validates and renders a snapshot in a format, \<open>je_outage\<close> is a failure of the storage
  for a key; both give the name of the exception otherwise.\<close>

record job_env =
  je_now :: int
  je_new_id :: "string \<Rightarrow> string"
  je_canonical :: "pyval dict \<Rightarrow> string"
  je_sha256 :: "string \<Rightarrow> string"
  je_render :: "pyval dict \<Rightarrow> string \<Rightarrow> string + string"
  je_outage :: "string \<Rightarrow> string option"

definition digest :: "job_env \<Rightarrow> pyval dict \<Rightarrow> string" where
  "digest env value = je_sha256 env (je_canonical env value)"

definition job_of :: "report_db \<Rightarrow> string \<Rightarrow> report_job option" where
  "job_of db i = find (\<lambda>j. rj_id j = i) (rq_jobs db)"

definition update_job :: "string \<Rightarrow> (report_job \<Rightarrow> report_job) \<Rightarrow> report_db \<Rightarrow> report_db" where
  "update_job i f db = db\<lparr>rq_jobs := map (\<lambda>j. if rj_id j = i then f j else j) (rq_jobs db)\<rparr>"

definition job_audit :: "job_env \<Rightarrow> string \<Rightarrow> string \<Rightarrow> string \<Rightarrow> report_event \<Rightarrow> report_db \<Rightarrow> report_db" where
  "job_audit env action i actor event db = db\<lparr>rq_audit := rq_audit db @
     [\<lparr>au_id = je_new_id env (''audit'' @ i), au_created_at = je_now env, au_action = action,
       au_resource_type = ''report_job'', au_resource_id = i, au_actor = Some actor, rp_event = event\<rparr>]\<rparr>"

fun segments :: "string \<Rightarrow> string \<Rightarrow> string list" where
  "segments word [] = [word]"
| "segments word (ch # rest) =
     (if ch = CHR ''/'' \<or> ch = CHR 92 then word # segments [] rest else segments (word @ [ch]) rest)"

definition valid_key :: "string \<Rightarrow> bool" where
  "valid_key key \<longleftrightarrow> take 1 key \<noteq> ''/'' \<and> ''..'' \<notin> set (segments [] key)"

text \<open>Conditional creation never replaces an object.\<close>

definition put_new_bytes :: "job_env \<Rightarrow> object_store \<Rightarrow> string \<Rightarrow> string \<Rightarrow> string + object_store" where
  "put_new_bytes env objects key content =
     (if \<not> valid_key key then Inl ''ValueError''
      else case je_outage env key of
          Some e \<Rightarrow> Inl e
        | None \<Rightarrow> if key \<in> fst ` set objects then Inl ''FileExistsError''
            else Inr (AList.update key content objects))"

definition get_bytes :: "job_env \<Rightarrow> object_store \<Rightarrow> string \<Rightarrow> string + string" where
  "get_bytes env objects key =
     (if \<not> valid_key key then Inl ''ValueError''
      else case je_outage env key of
          Some e \<Rightarrow> Inl e
        | None \<Rightarrow> (case map_of objects key of None \<Rightarrow> Inl ''FileNotFoundError'' | Some content \<Rightarrow> Inr content))"

section \<open>Submission\<close>

definition new_job :: "job_env \<Rightarrow> string \<Rightarrow> string \<Rightarrow> pyval dict \<Rightarrow> string \<Rightarrow> report_job" where
  "new_job env user_id kind payload format =
     \<lparr>rj_id = je_new_id env ''job'', rj_created_at = je_now env, rj_user_id = user_id, rj_kind = kind,
      rj_format = format, rj_status = QUEUED, rj_progress = 0, rj_snapshot = payload,
      rj_snapshot_hash = digest env payload, rj_worker_id = None, rj_started_at = None,
      rj_finished_at = None, rj_expires_at = je_now env + 30 * 86400, rj_error_category = None,
      rj_error_message = None, rj_object_key = None, rj_content_hash = None, rj_size_bytes = None\<rparr>"

definition enqueue ::
  "job_env \<Rightarrow> report_db \<Rightarrow> string \<Rightarrow> string \<Rightarrow> pyval dict \<Rightarrow> string \<Rightarrow> (report_job \<times> report_db) result" where
  "enqueue env db user_id kind payload format =
     bindE (ensure (int (length (je_canonical env payload)) \<le> 10000000)
       (ValueError ''Report source exceeds the 10 MB job limit'')) (\<lambda>_.
     let job = new_job env user_id kind payload format
     in Inr (job, job_audit env ''REPORT_QUEUED'' (rj_id job) user_id
          (ReportQueued (rj_snapshot_hash job) kind format) (db\<lparr>rq_jobs := rq_jobs db @ [job]\<rparr>)))"

definition active_jobs :: "report_db \<Rightarrow> string \<Rightarrow> report_job list" where
  "active_jobs db user_id =
     filter (\<lambda>j. rj_user_id j = user_id \<and> rj_status j \<in> {QUEUED, RUNNING}) (rq_jobs db)"

text \<open>\<open>captured\<close> is the snapshot the request reads, or its refusal.\<close>

definition create_report ::
  "job_env \<Rightarrow> report_db \<Rightarrow> string \<Rightarrow> string \<Rightarrow> (pyval dict) result \<Rightarrow> string \<Rightarrow> (report_job \<times> report_db) result" where
  "create_report env db user_id kind captured format =
     bindE (ensure (length (active_jobs db user_id) < 4)
       (HTTPError 429 ''Four active reports already queued; wait for completion'')) (\<lambda>_.
     case bindE captured (\<lambda>payload. enqueue env db user_id kind payload format) of
       Inl (ValueError detail) \<Rightarrow> Inl (HTTPError 422 detail)
     | out \<Rightarrow> out)"

section \<open>One worker\<close>

definition select_expired :: "job_env \<Rightarrow> report_db \<Rightarrow> string list" where
  "select_expired env db =
     map rj_id (filter (\<lambda>j. rj_status j = RUNNING \<and>
       (case rj_started_at j of None \<Rightarrow> False | Some t \<Rightarrow> t < je_now env - 15 * 60)) (rq_jobs db))"

definition expired_job :: "job_env \<Rightarrow> report_job \<Rightarrow> report_job" where
  "expired_job env j = j\<lparr>rj_status := FAILED, rj_error_category := Some ''WorkerLeaseExpired'',
     rj_error_message := Some ''Worker stopped before completion; submit a new report'',
     rj_finished_at := Some (je_now env)\<rparr>"

definition owner_of :: "report_db \<Rightarrow> string \<Rightarrow> string" where
  "owner_of db i = (case job_of db i of None \<Rightarrow> [] | Some j \<Rightarrow> rj_user_id j)"

definition expire_job :: "job_env \<Rightarrow> report_db \<Rightarrow> string \<Rightarrow> report_db" where
  "expire_job env db i =
     job_audit env ''REPORT_FAILED'' i (owner_of db i) (ReportFailed ''WorkerLeaseExpired'')
       (update_job i (expired_job env) db)"

definition expire_jobs :: "job_env \<Rightarrow> string list \<Rightarrow> report_db \<Rightarrow> report_db" where
  "expire_jobs env ids db = foldl (expire_job env) db ids"

definition next_queued :: "report_db \<Rightarrow> string option" where
  "next_queued db =
     (case sort_key rj_created_at (filter (\<lambda>j. rj_status j = QUEUED) (rq_jobs db)) of
        [] \<Rightarrow> None | j # _ \<Rightarrow> Some (rj_id j))"

definition claim :: "job_env \<Rightarrow> string \<Rightarrow> string \<Rightarrow> report_db \<Rightarrow> report_db option" where
  "claim env worker i db =
     (if \<exists>j \<in> set (rq_jobs db). rj_id j = i \<and> rj_status j = QUEUED
      then Some (update_job i (\<lambda>j. if rj_status j = QUEUED
        then j\<lparr>rj_status := RUNNING, rj_progress := 1 / 10, rj_started_at := Some (je_now env),
               rj_worker_id := Some worker\<rparr> else j) db)
      else None)"

definition object_key :: "report_job \<Rightarrow> string" where
  "object_key job =
     ''private-reports/'' @ rj_user_id job @ ''/'' @ rj_id job @ ''/report.'' @ rj_format job"

text \<open>The work between claiming and publishing: what it leaves in the storage, and the key and content or
  the name of the exception.\<close>

definition rendered :: "job_env \<Rightarrow> report_job \<Rightarrow> string + string" where
  "rendered env job =
     (if digest env (rj_snapshot job) \<noteq> rj_snapshot_hash job then Inl ''ValueError''
      else case je_render env (rj_snapshot job) (rj_format job) of
          Inl e \<Rightarrow> Inl e
        | Inr content \<Rightarrow> if content = [] \<or> int (length content) > 50000000 then Inl ''ValueError'' else Inr content)"

definition stored_content :: "job_env \<Rightarrow> object_store \<Rightarrow> string \<Rightarrow> string \<Rightarrow> string + string" where
  "stored_content env objects key content =
     (case get_bytes env objects key of
        Inl e \<Rightarrow> Inl e
      | Inr found \<Rightarrow> if je_sha256 env found \<noteq> je_sha256 env content then Inl ''ValueError'' else Inr content)"

definition produce :: "job_env \<Rightarrow> report_job \<Rightarrow> object_store \<Rightarrow> object_store \<times> (string + string)" where
  "produce env job objects =
     (case rendered env job of
        Inl e \<Rightarrow> (objects, Inl e)
      | Inr content \<Rightarrow>
          (case put_new_bytes env objects (object_key job) content of
             Inl e \<Rightarrow> (objects, Inl e)
           | Inr objects' \<Rightarrow> (objects', stored_content env objects' (object_key job) content)))"

definition held_by :: "string \<Rightarrow> report_job \<Rightarrow> bool" where
  "held_by worker j \<longleftrightarrow> rj_status j = RUNNING \<and> rj_worker_id j = Some worker"

definition published_job :: "job_env \<Rightarrow> string \<Rightarrow> report_job \<Rightarrow> report_job" where
  "published_job env content j =
     j\<lparr>rj_object_key := Some (object_key j), rj_content_hash := Some (je_sha256 env content),
       rj_size_bytes := Some (length content), rj_status := SUCCEEDED, rj_progress := 1,
       rj_finished_at := Some (je_now env)\<rparr>"

definition publish :: "job_env \<Rightarrow> string \<Rightarrow> string \<Rightarrow> string \<Rightarrow> report_db \<Rightarrow> report_db option" where
  "publish env worker i content db =
     (case find (\<lambda>j. rj_id j = i \<and> held_by worker j) (rq_jobs db) of
        None \<Rightarrow> None
      | Some job \<Rightarrow> Some (job_audit env ''REPORT_SUCCEEDED'' i (rj_user_id job)
          (ReportSucceeded (je_sha256 env content) (length content))
          (update_job i (published_job env content) db)))"

definition still_held :: "string \<Rightarrow> string \<Rightarrow> report_db \<Rightarrow> bool" where
  "still_held worker i db \<longleftrightarrow> (\<exists>j \<in> set (rq_jobs db). rj_id j = i \<and> held_by worker j)"

definition failed_job :: "job_env \<Rightarrow> string \<Rightarrow> report_job \<Rightarrow> report_job" where
  "failed_job env category j = j\<lparr>rj_status := FAILED, rj_error_category := Some category,
     rj_error_message := Some ''Report generation failed; source, renderer or storage validation did not pass'',
     rj_finished_at := Some (je_now env)\<rparr>"

definition mark_failed :: "job_env \<Rightarrow> string \<Rightarrow> string \<Rightarrow> report_db \<Rightarrow> report_db" where
  "mark_failed env i category db =
     job_audit env ''REPORT_FAILED'' i (owner_of db i) (ReportFailed category)
       (update_job i (failed_job env category) db)"

section \<open>A pass without interruption\<close>

definition finish_work ::
  "job_env \<Rightarrow> string \<Rightarrow> string \<Rightarrow> report_db \<Rightarrow> object_store \<times> (string + string) \<Rightarrow> bool \<times> report_db" where
  "finish_work env worker i db out =
     (case snd out of
        Inr content \<Rightarrow>
          (case publish env worker i content (db\<lparr>rq_objects := fst out\<rparr>) of
             None \<Rightarrow> (False, db\<lparr>rq_objects := fst out\<rparr>)
           | Some db' \<Rightarrow> (True, db'))
      | Inl category \<Rightarrow>
          if still_held worker i db then (True, mark_failed env i category (db\<lparr>rq_objects := fst out\<rparr>))
          else (False, db\<lparr>rq_objects := fst out\<rparr>))"

definition execute :: "job_env \<Rightarrow> string \<Rightarrow> string \<Rightarrow> report_db \<Rightarrow> bool \<times> report_db" where
  "execute env worker i db =
     (case claim env worker i db of
        None \<Rightarrow> (False, db)
      | Some db1 \<Rightarrow>
          (case job_of db1 i of
             None \<Rightarrow> (False, db1)
           | Some job \<Rightarrow> finish_work env worker i db1 (produce env job (rq_objects db1))))"

definition run_once :: "job_env \<Rightarrow> string \<Rightarrow> report_db \<Rightarrow> report_db" where
  "run_once env worker db =
     (let db1 = expire_jobs env (select_expired env db) db
      in case next_queued db1 of None \<Rightarrow> db1 | Some i \<Rightarrow> snd (execute env worker i db1))"

section \<open>Several workers\<close>

text \<open>A process is between two transactions: nothing held, the expired jobs it has read, the queue to
  poll, a job it has chosen, one it has claimed, one whose content it has stored, and one that
  failed, before and after it read that the job is still its own.\<close>

datatype process =
    Idle
  | Expiring "string list"
  | Polling
  | Chosen string
  | Claimed string
  | Stored string string
  | Raised string string
  | Failing string string

fun process_step :: "job_env \<Rightarrow> string \<Rightarrow> process \<Rightarrow> report_db \<Rightarrow> process \<times> report_db" where
  "process_step env worker Idle db = (Expiring (select_expired env db), db)"
| "process_step env worker (Expiring ids) db = (Polling, expire_jobs env ids db)"
| "process_step env worker Polling db =
     (case next_queued db of None \<Rightarrow> (Idle, db) | Some i \<Rightarrow> (Chosen i, db))"
| "process_step env worker (Chosen i) db =
     (case claim env worker i db of None \<Rightarrow> (Idle, db) | Some db' \<Rightarrow> (Claimed i, db'))"
| "process_step env worker (Claimed i) db =
     (case job_of db i of
        None \<Rightarrow> (Idle, db)
      | Some job \<Rightarrow>
          (case produce env job (rq_objects db) of
             (objects, Inr content) \<Rightarrow> (Stored i content, db\<lparr>rq_objects := objects\<rparr>)
           | (objects, Inl category) \<Rightarrow> (Raised i category, db\<lparr>rq_objects := objects\<rparr>)))"
| "process_step env worker (Stored i content) db =
     (case publish env worker i content db of None \<Rightarrow> (Idle, db) | Some db' \<Rightarrow> (Idle, db'))"
| "process_step env worker (Raised i category) db =
     (if still_held worker i db then (Failing i category, db) else (Idle, db))"
| "process_step env worker (Failing i category) db = (Idle, mark_failed env i category db)"

section \<open>Reading a report\<close>

definition owned :: "report_db \<Rightarrow> string \<Rightarrow> string \<Rightarrow> report_job result" where
  "owned db user_id i =
     (case find (\<lambda>j. rj_id j = i \<and> rj_user_id j = user_id) (rq_jobs db) of
        None \<Rightarrow> Inl (HTTPError 404 ''Report not found'') | Some j \<Rightarrow> Inr j)"

definition listing :: "report_db \<Rightarrow> string \<Rightarrow> report_job list" where
  "listing db user_id =
     take 100 (rev (sort_key rj_created_at (filter (\<lambda>j. rj_user_id j = user_id) (rq_jobs db))))"

definition source :: "job_env \<Rightarrow> report_db \<Rightarrow> string \<Rightarrow> string \<Rightarrow> string result" where
  "source env db user_id i =
     bindE (owned db user_id i) (\<lambda>job.
     bindE (ensure (digest env (rj_snapshot job) = rj_snapshot_hash job)
       (HTTPError 409 ''Report source integrity check failed'')) (\<lambda>_.
     Inr (je_canonical env (rj_snapshot job))))"

definition download :: "job_env \<Rightarrow> report_db \<Rightarrow> string \<Rightarrow> string \<Rightarrow> (string \<times> report_db) result" where
  "download env db user_id i =
     bindE (owned db user_id i) (\<lambda>job.
     bindE (ensure (je_now env < rj_expires_at job) (HTTPError 410 ''Report retention period expired'')) (\<lambda>_.
     bindE (ensure (rj_status job = SUCCEEDED \<and> rj_object_key job \<noteq> None \<and> rj_object_key job \<noteq> Some [])
       (HTTPError 409 ''Report is not ready'')) (\<lambda>_.
     bindE (case get_bytes env (rq_objects db) (the (rj_object_key job)) of
         Inl e \<Rightarrow> Inl (HTTPError 503 ''Report storage is unavailable'') | Inr content \<Rightarrow> Inr content) (\<lambda>content.
     bindE (ensure (Some (je_sha256 env content) = rj_content_hash job \<and> Some (length content) = rj_size_bytes job)
       (HTTPError 409 ''Report integrity check failed'')) (\<lambda>_.
     Inr (content, job_audit env ''REPORT_DOWNLOADED'' i (rj_user_id job)
       (ReportDownloaded (rj_content_hash job)) db))))))"

definition downloadable :: "job_env \<Rightarrow> report_job \<Rightarrow> bool" where
  "downloadable env job \<longleftrightarrow> rj_status job = SUCCEEDED \<and> je_now env < rj_expires_at job"

definition download_url :: "job_env \<Rightarrow> report_job \<Rightarrow> string option" where
  "download_url env job =
     (if downloadable env job then Some (''/api/v1/report-jobs/'' @ rj_id job @ ''/download'') else None)"

end
