(* ===== verification/Report_Facts.thy ===== *)
theory Report_Facts
  imports Report_Jobs
begin

text \<open>
  Report jobs under every interleaving of submissions, downloads, crashes and the transactions of
  any number of workers: a job is held by one worker and published once, a published report can be
  read back, a user never has more than four active jobs. A worker alone drains the queue. The
  expiry of leases is not protected against a publication that commits meanwhile.
\<close>

section \<open>Jobs by id\<close>

lemma find_member: "find P xs = Some x \<Longrightarrow> x \<in> set xs \<and> P x"
  by (induction xs) (auto split: if_splits)

lemma update_job_simps [simp]:
  "rq_objects (update_job i f db) = rq_objects db" "rq_audit (update_job i f db) = rq_audit db"
  "rq_jobs (update_job i f db) = map (\<lambda>j. if rj_id j = i then f j else j) (rq_jobs db)"
  by (simp_all add: update_job_def)

lemma job_audit_simps [simp]:
  "rq_jobs (job_audit env action i actor e db) = rq_jobs db"
  "rq_objects (job_audit env action i actor e db) = rq_objects db"
  by (simp_all add: job_audit_def)

text \<open>A change of a job keeps its identity and its owner, and nothing is put back into the queue.\<close>

definition same_job :: "report_job \<Rightarrow> report_job \<Rightarrow> bool" where
  "same_job j j' \<longleftrightarrow> rj_id j' = rj_id j \<and> rj_user_id j' = rj_user_id j \<and> rj_format j' = rj_format j \<and>
     (rj_status j' = QUEUED \<longrightarrow> j' = j) \<and>
     (rj_status j' = RUNNING \<longrightarrow> rj_status j \<in> {QUEUED, RUNNING}) \<and>
     (rj_status j \<noteq> QUEUED \<longrightarrow> rj_worker_id j' = rj_worker_id j)"

lemma same_job_refl [simp]: "same_job j j"
  by (simp add: same_job_def)

lemma same_job_trans: "same_job a b \<Longrightarrow> same_job b c \<Longrightarrow> same_job a c"
  by (auto simp: same_job_def)

lemma same_job_changes [simp]:
  "same_job j (expired_job env j)" "same_job j (failed_job env category j)"
  "same_job j (published_job env content j)"
  by (simp_all add: same_job_def expired_job_def failed_job_def published_job_def)

abbreviation evolved :: "report_db \<Rightarrow> report_db \<Rightarrow> bool" where
  "evolved db db' \<equiv> list_all2 same_job (rq_jobs db) (rq_jobs db')"

lemma evolved_refl [simp]: "evolved db db"
  by (simp add: list.rel_refl)

lemma evolved_trans: "evolved a b \<Longrightarrow> evolved b c \<Longrightarrow> evolved a c"
  by (rule list_all2_trans [OF same_job_trans])

lemma evolved_update: "(\<And>j. same_job j (f j)) \<Longrightarrow> evolved db (update_job i f db)"
  by (simp add: list_all2_map2 list.rel_refl_strong)

lemma evolved_ids: "evolved db db' \<Longrightarrow> map rj_id (rq_jobs db') = map rj_id (rq_jobs db)"
  by (induction rule: list_all2_induct) (auto simp: same_job_def)

lemma evolved_active: "evolved db db' \<Longrightarrow> length (active_jobs db' u) \<le> length (active_jobs db u)"
  unfolding active_jobs_def by (induction rule: list_all2_induct) (auto simp: same_job_def)

lemma evolved_member:
  assumes "evolved db db'" "j \<in> set (rq_jobs db)"
  shows "\<exists>j' \<in> set (rq_jobs db'). same_job j j'"
  using assms by (metis in_set_conv_nth list_all2_conv_all_nth)

lemma evolved_expire_jobs: "evolved db (expire_jobs env ids db)"
proof (induction ids arbitrary: db)
  case (Cons i ids)
  have "evolved db (expire_job env db i)"
    using evolved_update [of "expired_job env" db i] by (simp add: expire_job_def)
  with Cons show ?case by (auto simp: expire_jobs_def intro: evolved_trans)
qed (simp add: expire_jobs_def)

lemma evolved_claim: "claim env w i db = Some db' \<Longrightarrow> evolved db db'"
  by (auto simp: claim_def same_job_def list_all2_map2 list.rel_refl_strong split: if_splits)

lemma evolved_publish: "publish env w i content db = Some db' \<Longrightarrow> evolved db db'"
  using evolved_update [of "published_job env content" db i]
  by (auto simp: publish_def split: option.splits)

lemma evolved_mark_failed: "evolved db (mark_failed env i category db)"
  using evolved_update [of "failed_job env category" db i] by (simp add: mark_failed_def)

lemma evolved_step: "process_step env w p db = (p', db') \<Longrightarrow> evolved db db'"
  by (cases p) (auto simp: evolved_expire_jobs evolved_claim evolved_publish evolved_mark_failed
      split: option.splits prod.splits sum.splits if_splits)

section \<open>The storage\<close>

definition stored_in :: "object_store \<Rightarrow> string \<Rightarrow> string \<Rightarrow> bool" where
  "stored_in objects key content \<longleftrightarrow> valid_key key \<and> map_of objects key = Some content"

lemma put_new_bytes_keeps:
  "put_new_bytes env objects key content = Inr objects' \<Longrightarrow> stored_in objects k v \<Longrightarrow> stored_in objects' k v"
  by (auto simp: put_new_bytes_def stored_in_def dest: map_of_SomeD
      split: if_splits option.splits) (metis fst_conv imageI map_of_SomeD)

lemma produce_keeps:
  "produce env job objects = (objects', out) \<Longrightarrow> stored_in objects k v \<Longrightarrow> stored_in objects' k v"
  by (auto simp: produce_def dest: put_new_bytes_keeps split: sum.splits)

lemma produce_stores:
  "produce env job objects = (objects', Inr content) \<Longrightarrow> stored_in objects' (object_key job) content"
  by (auto simp: produce_def put_new_bytes_def stored_content_def stored_in_def
      split: sum.splits if_splits option.splits)

lemma get_bytes_stored:
  "stored_in objects key content \<Longrightarrow> je_outage env key = None \<Longrightarrow> get_bytes env objects key = Inr content"
  by (simp add: get_bytes_def stored_in_def)

section \<open>What a worker holds\<close>

fun holds :: "process \<Rightarrow> string \<Rightarrow> bool" where
  "holds (Claimed i) k = (i = k)"
| "holds (Stored i content) k = (i = k)"
| "holds (Raised i category) k = (i = k)"
| "holds (Failing i category) k = (i = k)"
| "holds _ k = False"

definition claimed_by :: "report_db \<Rightarrow> string \<Rightarrow> string \<Rightarrow> bool" where
  "claimed_by db w i \<longleftrightarrow> (\<exists>j \<in> set (rq_jobs db). rj_id j = i \<and> rj_worker_id j = Some w \<and> rj_status j \<noteq> QUEUED)"

lemma claimed_by_evolved: "evolved db db' \<Longrightarrow> claimed_by db w i \<Longrightarrow> claimed_by db' w i"
  by (fastforce simp: claimed_by_def same_job_def dest: evolved_member)

lemma claimed_by_unique:
  "distinct (map rj_id (rq_jobs db)) \<Longrightarrow> claimed_by db w i \<Longrightarrow> claimed_by db v i \<Longrightarrow> w = v"
  by (auto simp: claimed_by_def distinct_map inj_on_def)

lemma claim_claims:
  assumes "claim env w i db = Some db'"
  shows "claimed_by db' w i"
proof -
  let ?f = "\<lambda>j. if rj_status j = QUEUED
    then j\<lparr>rj_status := RUNNING, rj_progress := 1 / 10, rj_started_at := Some (je_now env), rj_worker_id := Some w\<rparr>
    else j"
  from assms obtain j where j: "j \<in> set (rq_jobs db)" "rj_id j = i" "rj_status j = QUEUED"
    and db': "db' = update_job i ?f db"
    by (auto simp: claim_def split: if_splits)
  have member: "?f j \<in> set (rq_jobs db')"
    using j(1,2) unfolding db' by (simp only: update_job_simps set_map) (rule image_eqI [of _ _ j]; simp)
  show ?thesis unfolding claimed_by_def by (rule bexI [OF _ member]) (use j in simp)
qed

lemma step_holds:
  assumes "process_step env w p db = (p', db')" "\<forall>i. holds p i \<longrightarrow> claimed_by db w i" "holds p' i"
  shows "claimed_by db' w i"
proof -
  have "claimed_by db' w i" if "claim env w i db = Some db'" for db'
    using that claim_claims by blast
  with assms show ?thesis
    by (cases p) (auto simp: claimed_by_def split: option.splits prod.splits sum.splits if_splits)
qed

text \<open>The content a worker is about to publish is in the storage.\<close>

definition content_ready :: "report_db \<Rightarrow> process \<Rightarrow> bool" where
  "content_ready db p \<longleftrightarrow> (\<forall>i content. p = Stored i content \<longrightarrow>
     (\<exists>j \<in> set (rq_jobs db). rj_id j = i \<and> stored_in (rq_objects db) (object_key j) content))"

definition objects_kept :: "report_db \<Rightarrow> report_db \<Rightarrow> bool" where
  "objects_kept db db' \<longleftrightarrow> (\<forall>k v. stored_in (rq_objects db) k v \<longrightarrow> stored_in (rq_objects db') k v)"

lemma same_job_key: "same_job j j' \<Longrightarrow> object_key j' = object_key j"
  by (simp add: same_job_def object_key_def)

lemma content_ready_kept:
  assumes "evolved db db'" "objects_kept db db'" "content_ready db p"
  shows "content_ready db' p"
  unfolding content_ready_def
proof (intro allI impI)
  fix i content assume "p = Stored i content"
  with assms(3) obtain j where j: "j \<in> set (rq_jobs db)" "rj_id j = i" "stored_in (rq_objects db) (object_key j) content"
    by (auto simp: content_ready_def)
  from evolved_member [OF assms(1) j(1)] obtain j' where "j' \<in> set (rq_jobs db')" "same_job j j'" by blast
  with j assms(2) show "\<exists>j \<in> set (rq_jobs db'). rj_id j = i \<and> stored_in (rq_objects db') (object_key j) content"
    by (metis objects_kept_def same_job_def same_job_key)
qed

lemma expire_jobs_objects [simp]: "rq_objects (expire_jobs env ids db) = rq_objects db"
  by (induction ids arbitrary: db) (auto simp: expire_jobs_def expire_job_def)

lemma step_kept: "process_step env w p db = (p', db') \<Longrightarrow> objects_kept db db'"
  by (cases p) (auto simp: objects_kept_def claim_def publish_def mark_failed_def dest: produce_keeps
      split: option.splits prod.splits sum.splits if_splits)

lemma job_of_Some: "job_of db i = Some j \<Longrightarrow> j \<in> set (rq_jobs db) \<and> rj_id j = i"
  by (auto simp: job_of_def find_Some_iff)

lemma step_ready:
  assumes "process_step env w p db = (p', db')"
  shows "content_ready db' p'"
proof (cases p)
  case (Claimed i)
  show ?thesis
    unfolding content_ready_def
  proof (intro allI impI)
    fix k content assume "p' = Stored k content"
    with assms Claimed obtain job objects where "job_of db i = Some job" "k = i"
      "produce env job (rq_objects db) = (objects, Inr content)" "db' = db\<lparr>rq_objects := objects\<rparr>"
      by (auto split: option.splits prod.splits sum.splits)
    then show "\<exists>j \<in> set (rq_jobs db'). rj_id j = k \<and> stored_in (rq_objects db') (object_key j) content"
      using job_of_Some produce_stores by fastforce
  qed
qed (use assms in \<open>auto simp: content_ready_def split: option.splits if_splits\<close>)

section \<open>Publication\<close>

definition published_ok :: "(string \<Rightarrow> string) \<Rightarrow> object_store \<Rightarrow> report_job \<Rightarrow> bool" where
  "published_ok sha objects j \<longleftrightarrow> (\<exists>content. stored_in objects (object_key j) content \<and>
     rj_object_key j = Some (object_key j) \<and> rj_content_hash j = Some (sha content) \<and>
     rj_size_bytes j = Some (length content))"

definition published_all :: "(string \<Rightarrow> string) \<Rightarrow> report_db \<Rightarrow> bool" where
  "published_all sha db \<longleftrightarrow>
     (\<forall>j \<in> set (rq_jobs db). rj_status j = SUCCEEDED \<longrightarrow> published_ok sha (rq_objects db) j)"

definition unpublishing :: "report_db \<Rightarrow> report_db \<Rightarrow> bool" where
  "unpublishing db db' \<longleftrightarrow> (\<forall>j \<in> set (rq_jobs db'). rj_status j = SUCCEEDED \<longrightarrow> j \<in> set (rq_jobs db))"

lemma published_all_kept:
  "unpublishing db db' \<Longrightarrow> objects_kept db db' \<Longrightarrow> published_all sha db \<Longrightarrow> published_all sha db'"
  unfolding published_all_def unpublishing_def published_ok_def objects_kept_def by meson

lemma unpublishing_refl [simp]: "unpublishing db db"
  by (simp add: unpublishing_def)

lemma unpublishing_expire_jobs: "unpublishing db (expire_jobs env ids db)"
proof (induction ids arbitrary: db)
  case (Cons i ids)
  have "unpublishing db (expire_job env db i)"
    by (auto simp: unpublishing_def expire_job_def expired_job_def)
  with Cons [of "expire_job env db i"] show ?case
    by (auto simp: expire_jobs_def unpublishing_def)
qed (simp add: expire_jobs_def)

lemma unpublishing_claim: "claim env w i db = Some db' \<Longrightarrow> unpublishing db db'"
  by (auto simp: unpublishing_def claim_def split: if_splits)

lemma unpublishing_mark_failed: "unpublishing db (mark_failed env i category db)"
  by (auto simp: unpublishing_def mark_failed_def failed_job_def)

lemma unpublishing_objects: "unpublishing db (db\<lparr>rq_objects := objects\<rparr>)"
  by (simp add: unpublishing_def)

lemma unpublishing_step:
  "process_step env w p db = (p', db') \<Longrightarrow> \<forall>i content. p \<noteq> Stored i content \<Longrightarrow> unpublishing db db'"
  using unpublishing_expire_jobs [of db env]
  by (cases p) (auto simp: unpublishing_claim unpublishing_mark_failed unpublishing_objects
      split: option.splits prod.splits sum.splits if_splits)

lemma object_key_published [simp]: "object_key (published_job env content j) = object_key j"
  by (simp add: object_key_def published_job_def)

lemma published_fields:
  "rj_object_key (published_job env content j) = Some (object_key j)"
  "rj_content_hash (published_job env content j) = Some (je_sha256 env content)"
  "rj_size_bytes (published_job env content j) = Some (length content)"
  "rj_status (published_job env content j) = SUCCEEDED" "rj_id (published_job env content j) = rj_id j"
  by (simp_all add: published_job_def)

lemma published_all_publish:
  assumes "publish env w i content db = Some db'" "content_ready db (Stored i content)"
    "distinct (map rj_id (rq_jobs db))" "published_all (je_sha256 env) db"
  shows "published_all (je_sha256 env) db'"
proof -
  have db': "rq_jobs db' = map (\<lambda>j. if rj_id j = i then published_job env content j else j) (rq_jobs db)"
    "rq_objects db' = rq_objects db"
    using assms(1) by (auto simp: publish_def split: option.splits)
  have "stored_in (rq_objects db) (object_key j) content" if "j \<in> set (rq_jobs db)" "rj_id j = i" for j
    using assms(2,3) that by (auto simp: content_ready_def distinct_map inj_on_def)
  with assms(4) show ?thesis
    by (fastforce simp: published_all_def published_ok_def db' published_fields)
qed

lemma step_published:
  assumes "process_step env w p db = (p', db')" "content_ready db p"
    "distinct (map rj_id (rq_jobs db))" "published_all (je_sha256 env) db"
  shows "published_all (je_sha256 env) db'"
proof (cases "\<exists>i content. p = Stored i content")
  case True
  with assms show ?thesis by (auto dest: published_all_publish split: option.splits)
next
  case False
  with unpublishing_step [OF assms(1)] step_kept [OF assms(1)] assms(4) show ?thesis
    by (blast intro: published_all_kept)
qed

section \<open>Publications in the audit log\<close>

fun is_success :: "report_event \<Rightarrow> bool" where
  "is_success (ReportSucceeded h n) = True"
| "is_success _ = False"

definition successes :: "report_db \<Rightarrow> string \<Rightarrow> report_audit_row list" where
  "successes db i = filter (\<lambda>a. au_resource_id a = i \<and> is_success (rp_event a)) (rq_audit db)"

definition published_once :: "report_db \<Rightarrow> bool" where
  "published_once db \<longleftrightarrow> (\<forall>i. length (successes db i) \<le> 1 \<and>
     (successes db i \<noteq> [] \<longrightarrow> (\<exists>j \<in> set (rq_jobs db). rj_id j = i \<and> rj_status j \<notin> {QUEUED, RUNNING})))"

lemma successes_audit [simp]:
  "successes (job_audit env action k actor e db) i =
     successes db i @ (if k = i \<and> is_success e then [last (rq_audit (job_audit env action k actor e db))] else [])"
  by (auto simp: successes_def job_audit_def)

lemma successes_update [simp]: "successes (update_job k f db) i = successes db i"
  by (simp add: successes_def)

lemma successes_objects [simp]: "successes (db\<lparr>rq_objects := objects\<rparr>) i = successes db i"
  by (simp add: successes_def)

lemma successes_expire_jobs [simp]: "successes (expire_jobs env ids db) i = successes db i"
  by (induction ids arbitrary: db) (auto simp: expire_jobs_def expire_job_def)

lemma published_once_evolved:
  assumes "evolved db db'" "\<And>i. successes db' i = successes db i" "published_once db"
  shows "published_once db'"
proof -
  have "\<exists>j \<in> set (rq_jobs db'). rj_id j = i \<and> rj_status j \<notin> {QUEUED, RUNNING}"
    if "\<exists>j \<in> set (rq_jobs db). rj_id j = i \<and> rj_status j \<notin> {QUEUED, RUNNING}" for i
    using that by (fastforce simp: same_job_def dest: evolved_member [OF assms(1)])
  with assms(2,3) show ?thesis by (simp add: published_once_def)
qed

lemma published_once_publish:
  assumes "publish env w i content db = Some db'" "distinct (map rj_id (rq_jobs db))" "published_once db"
  shows "published_once db'"
proof -
  from assms(1) obtain job where job: "job \<in> set (rq_jobs db)" "rj_id job = i" "held_by w job"
    and db': "db' = job_audit env ''REPORT_SUCCEEDED'' i (rj_user_id job)
      (ReportSucceeded (je_sha256 env content) (length content)) (update_job i (published_job env content) db)"
    by (auto simp: publish_def dest!: find_member split: option.splits)
  have "successes db i = []"
    using assms(2,3) job by (auto simp: published_once_def held_by_def distinct_map inj_on_def)
  moreover have "\<exists>j \<in> set (rq_jobs db'). rj_id j = k \<and> rj_status j \<notin> {QUEUED, RUNNING}"
    if "k = i \<or> successes db k \<noteq> []" for k
  proof (cases "k = i")
    case True
    have "published_job env content job \<in> set (rq_jobs db')"
      using job(1,2) by (auto simp: db')
    with True job(2) show ?thesis by (intro bexI) (auto simp: published_fields)
  next
    case False
    with that assms(3) obtain j where "j \<in> set (rq_jobs db)" "rj_id j = k" "rj_status j \<notin> {QUEUED, RUNNING}"
      by (auto simp: published_once_def)
    with False have "j \<in> set (rq_jobs db')" by (auto simp: db')
    with \<open>rj_id j = k\<close> \<open>rj_status j \<notin> {QUEUED, RUNNING}\<close> show ?thesis by blast
  qed
  ultimately show ?thesis
    using assms(3) by (auto simp: published_once_def db')
qed

lemma step_once:
  assumes "process_step env w p db = (p', db')" "distinct (map rj_id (rq_jobs db))" "published_once db"
  shows "published_once db'"
proof (cases "\<exists>i content. p = Stored i content")
  case True
  with assms show ?thesis by (auto dest: published_once_publish split: option.splits)
next
  case False
  then have "successes db' i = successes db i" for i
    using assms(1) by (cases p) (auto simp: claim_def mark_failed_def
      split: option.splits prod.splits sum.splits if_splits)
  then show ?thesis
    using published_once_evolved [OF evolved_step [OF assms(1)]] assms(3) by blast
qed

section \<open>The machine\<close>

type_synonym report_machine = "(string \<Rightarrow> process) \<times> report_db"

text \<open>Any worker may take its next transaction, or stop and start again, at any time; users submit and
  download in between. Hashing is the same for all, and a new job has a new id.\<close>

inductive report_step :: "(string \<Rightarrow> string) \<Rightarrow> report_machine \<Rightarrow> report_machine \<Rightarrow> bool" for sha where
  worked: "process_step env w (procs w) db = (p, db') \<Longrightarrow> je_sha256 env = sha \<Longrightarrow>
    report_step sha (procs, db) (procs(w := p), db')"
| stopped: "report_step sha (procs, db) (procs(w := Idle), db)"
| submitted: "create_report env db user_id kind captured format = Inr (job, db') \<Longrightarrow>
    rj_id job \<notin> rj_id ` set (rq_jobs db) \<Longrightarrow> report_step sha (procs, db) (procs, db')"
| downloaded: "download env db user_id i = Inr (content, db') \<Longrightarrow> report_step sha (procs, db) (procs, db')"

inductive_cases report_stepE: "report_step sha (procs, db) m"

definition machine_inv :: "(string \<Rightarrow> string) \<Rightarrow> report_machine \<Rightarrow> bool" where
  "machine_inv sha m \<longleftrightarrow>
     distinct (map rj_id (rq_jobs (snd m))) \<and>
     (\<forall>w i. holds (fst m w) i \<longrightarrow> claimed_by (snd m) w i) \<and>
     (\<forall>w. content_ready (snd m) (fst m w)) \<and>
     published_all sha (snd m) \<and> published_once (snd m) \<and>
     (\<forall>u. length (active_jobs (snd m) u) \<le> 4)"

definition start :: report_machine where
  "start = ((\<lambda>w. Idle), \<lparr>rq_jobs = [], rq_objects = [], rq_audit = []\<rparr>)"

lemma start_inv: "machine_inv sha start"
  by (simp add: machine_inv_def start_def content_ready_def published_all_def published_once_def
      successes_def active_jobs_def)

lemma worked_inv:
  assumes "process_step env w (procs w) db = (p, db')" "machine_inv (je_sha256 env) (procs, db)"
  shows "machine_inv (je_sha256 env) (procs(w := p), db')"
proof -
  note ev = evolved_step [OF assms(1)]
  have inv: "distinct (map rj_id (rq_jobs db))" "\<And>v i. holds (procs v) i \<Longrightarrow> claimed_by db v i"
    "\<And>v. content_ready db (procs v)" "published_all (je_sha256 env) db" "published_once db"
    "\<And>u. length (active_jobs db u) \<le> 4"
    using assms(2) by (simp_all add: machine_inv_def)
  have "holds ((procs(w := p)) v) i \<Longrightarrow> claimed_by db' v i" for v i
    using step_holds [OF assms(1), of i] claimed_by_evolved [OF ev] inv(2) by (cases "v = w") auto
  moreover have "content_ready db' ((procs(w := p)) v)" for v
    using step_ready [OF assms(1)] content_ready_kept [OF ev step_kept [OF assms(1)] inv(3)] by simp
  moreover have "length (active_jobs db' u) \<le> 4" for u
    using evolved_active [OF ev, of u] inv(6) [of u] by linarith
  ultimately show ?thesis
    using step_published [OF assms(1) inv(3,1,4)] step_once [OF assms(1) inv(1,5)] inv(1) evolved_ids [OF ev]
    by (simp add: machine_inv_def del: fun_upd_apply)
qed

text \<open>A submission appends a queued job to a user with room for it.\<close>

lemma create_reportE:
  assumes "create_report env db u kind captured fmt = Inr (job, db')"
  obtains "rq_jobs db' = rq_jobs db @ [job]" "rq_objects db' = rq_objects db"
    "\<And>i. successes db' i = successes db i" "rj_status job = QUEUED" "rj_user_id job = u"
    "length (active_jobs db u) < 4"
proof -
  from assms obtain payload where "length (active_jobs db u) < 4" "enqueue env db u kind payload fmt = Inr (job, db')"
    by (auto simp: create_report_def result_simps split: sum.splits py_error.splits)
  then show ?thesis
    by (intro that) (auto simp: enqueue_def result_simps Let_def new_job_def successes_def job_audit_def)
qed

lemma submitted_inv:
  assumes "create_report env db u kind captured fmt = Inr (job, db')" "rj_id job \<notin> rj_id ` set (rq_jobs db)"
    "machine_inv sha (procs, db)"
  shows "machine_inv sha (procs, db')"
  using assms(1)
proof (rule create_reportE)
  assume new: "rq_jobs db' = rq_jobs db @ [job]" "rq_objects db' = rq_objects db"
    "\<And>i. successes db' i = successes db i" "rj_status job = QUEUED" "rj_user_id job = u"
    "length (active_jobs db u) < 4"
  have "length (active_jobs db' v) \<le> 4" for v
    using new assms(3) by (auto simp: active_jobs_def machine_inv_def)
  moreover have "published_once db'"
    using new assms(3) by (fastforce simp: machine_inv_def published_once_def)
  ultimately show ?thesis
    using new assms(2,3)
    by (auto simp: machine_inv_def claimed_by_def content_ready_def published_all_def)
qed

lemma downloaded_same:
  assumes "download env db u i = Inr (content, db')"
  shows "rq_jobs db' = rq_jobs db \<and> rq_objects db' = rq_objects db \<and> (\<forall>k. successes db' k = successes db k)"
  using assms by (auto simp: download_def result_simps)

lemma same_inv:
  "rq_jobs db' = rq_jobs db \<and> rq_objects db' = rq_objects db \<and> (\<forall>k. successes db' k = successes db k) \<Longrightarrow>
   machine_inv sha (procs, db) \<Longrightarrow> machine_inv sha (procs, db')"
  by (simp add: machine_inv_def claimed_by_def content_ready_def published_all_def published_once_def active_jobs_def)

lemma report_step_inv: "report_step sha m m' \<Longrightarrow> machine_inv sha m \<Longrightarrow> machine_inv sha m'"
proof (induction rule: report_step.induct)
  case (worked env w procs db p db')
  then show ?case using worked_inv by blast
next
  case (stopped procs db w)
  then show ?case by (auto simp: machine_inv_def content_ready_def)
next
  case (submitted env db user_id kind captured format job db' procs)
  then show ?case using submitted_inv by blast
next
  case (downloaded env db user_id i content db' procs)
  then show ?case using downloaded_same same_inv by blast
qed

lemma reachable_inv: "(report_step sha)\<^sup>*\<^sup>* start m \<Longrightarrow> machine_inv sha m"
  by (induction rule: rtranclp_induct) (auto intro: start_inv report_step_inv)

section \<open>A worker alone\<close>

lemma expire_jobs_jobs:
  "rq_jobs (expire_jobs env ids db) = map (\<lambda>j. if rj_id j \<in> set ids then expired_job env j else j) (rq_jobs db)"
  by (induction ids arbitrary: db) (auto simp: expire_jobs_def expire_job_def expired_job_def)

definition lease_over :: "job_env \<Rightarrow> report_job \<Rightarrow> bool" where
  "lease_over env j \<longleftrightarrow> (\<exists>t. rj_started_at j = Some t \<and> t < je_now env - 900)"

definition in_status :: "job_status \<Rightarrow> report_db \<Rightarrow> report_job list" where
  "in_status st db = filter (\<lambda>j. rj_status j = st) (rq_jobs db)"

lemma expiry_clears:
  assumes "distinct (map rj_id (rq_jobs db))" "\<forall>j \<in> set (in_status RUNNING db). lease_over env j"
  shows "in_status RUNNING (expire_jobs env (select_expired env db) db) = []"
    "in_status QUEUED (expire_jobs env (select_expired env db) db) = in_status QUEUED db"
proof -
  have "rj_id j \<in> set (select_expired env db) \<longleftrightarrow> rj_status j = RUNNING" if "j \<in> set (rq_jobs db)" for j
    using that assms by (auto simp: select_expired_def in_status_def lease_over_def distinct_map inj_on_def)
  then have jobs: "rq_jobs (expire_jobs env (select_expired env db) db) =
      map (\<lambda>j. if rj_status j = RUNNING then expired_job env j else j) (rq_jobs db)"
    by (simp add: expire_jobs_jobs)
  have "filter (\<lambda>j. rj_status j = QUEUED) (map (\<lambda>j. if rj_status j = RUNNING then expired_job env j else j) js) =
      filter (\<lambda>j. rj_status j = QUEUED) js" for js
    by (induction js) (auto simp: expired_job_def)
  then show "in_status RUNNING (expire_jobs env (select_expired env db) db) = []"
    "in_status QUEUED (expire_jobs env (select_expired env db) db) = in_status QUEUED db"
    by (auto simp: in_status_def jobs filter_empty_conv expired_job_def)
qed

text \<open>An execution of a queued job ends in success or failure and touches no other job.\<close>

lemma execute_settles:
  assumes "j \<in> set (rq_jobs db)" "rj_id j = i" "rj_status j = QUEUED" "distinct (map rj_id (rq_jobs db))"
  shows "\<exists>h. rq_jobs (snd (execute env w i db)) = map (\<lambda>k. if rj_id k = i then h k else k) (rq_jobs db) \<and>
    (\<forall>k. rj_status (h k) \<in> {SUCCEEDED, FAILED} \<and> rj_id (h k) = rj_id k)"
proof -
  let ?g = "\<lambda>j. if rj_status j = QUEUED
    then j\<lparr>rj_status := RUNNING, rj_progress := 1 / 10, rj_started_at := Some (je_now env), rj_worker_id := Some w\<rparr>
    else j"
  let ?db1 = "update_job i ?g db"
  have claim: "claim env w i db = Some ?db1" using assms(1-3) by (auto simp: claim_def)
  have held: "held_by w (?g j)" using assms(3) by (simp add: held_by_def)
  have member: "?g j \<in> set (rq_jobs ?db1)"
    using assms(1,2) by (simp only: update_job_simps set_map) (rule image_eqI [of _ _ j]; simp)
  have id: "rj_id (?g j) = i" using assms(2) by simp
  have "find (\<lambda>k. rj_id k = i) (rq_jobs ?db1) \<noteq> None"
    using member id by (auto simp: find_None_iff)
  then obtain job where job: "job_of ?db1 i = Some job" by (auto simp: job_of_def)
  obtain objects out where out: "produce env job (rq_objects ?db1) = (objects, out)" by fastforce
  have pub: "publish env w i content (?db1\<lparr>rq_objects := objects\<rparr>) \<noteq> None" for content
    using member id held by (auto simp: publish_def find_None_iff split: option.splits)
  have jobs_pub: "rq_jobs db' = map (\<lambda>k. if rj_id k = i then published_job env content (?g k) else k) (rq_jobs db)"
    if "publish env w i content (?db1\<lparr>rq_objects := objects\<rparr>) = Some db'" for content db'
    using that by (auto simp: publish_def split: option.splits)
  have fail: "still_held w i ?db1" using member id held by (auto simp: still_held_def)
  have jobs_fail: "rq_jobs (mark_failed env i category (?db1\<lparr>rq_objects := objects\<rparr>)) =
      map (\<lambda>k. if rj_id k = i then failed_job env category (?g k) else k) (rq_jobs db)" for category
    by (auto simp: mark_failed_def)
  have run: "snd (execute env w i db) = snd (finish_work env w i ?db1 (objects, out))"
    by (simp only: execute_def claim option.simps job out)
  show ?thesis
  proof (cases out)
    case (Inl category)
    then have "rq_jobs (snd (execute env w i db)) =
        map (\<lambda>k. if rj_id k = i then failed_job env category (?g k) else k) (rq_jobs db)"
      by (simp only: run finish_work_def fst_conv snd_conv sum.simps fail if_True jobs_fail)
    then show ?thesis by (intro exI [of _ "\<lambda>k. failed_job env category (?g k)"]) (simp add: failed_job_def)
  next
    case (Inr content)
    obtain db' where db': "publish env w i content (?db1\<lparr>rq_objects := objects\<rparr>) = Some db'"
      using pub by blast
    then have "rq_jobs (snd (execute env w i db)) =
        map (\<lambda>k. if rj_id k = i then published_job env content (?g k) else k) (rq_jobs db)"
      by (simp only: run finish_work_def Inr fst_conv snd_conv sum.simps option.simps jobs_pub [OF db'])
    then show ?thesis
      by (intro exI [of _ "\<lambda>k. published_job env content (?g k)"]) (simp add: published_job_def)
  qed
qed

lemma next_queued_cases:
  obtains (none) "next_queued db = None" "in_status QUEUED db = []"
  | (some) j where "next_queued db = Some (rj_id j)" "j \<in> set (rq_jobs db)" "rj_status j = QUEUED"
proof (cases "sort_key rj_created_at (in_status QUEUED db)")
  case Nil
  then have "in_status QUEUED db = []" by (metis length_0_conv length_sort)
  with Nil show ?thesis by (intro none) (simp_all add: next_queued_def in_status_def)
next
  case (Cons j js)
  then have "j \<in> set (in_status QUEUED db)" by (metis list.set_intros(1) set_sort)
  with Cons show ?thesis by (intro some [of j]) (auto simp: next_queued_def in_status_def)
qed

lemma run_once_drains:
  assumes "distinct (map rj_id (rq_jobs db))" "\<forall>j \<in> set (in_status RUNNING db). lease_over env j"
  shows "map rj_id (rq_jobs (run_once env w db)) = map rj_id (rq_jobs db)"
    "in_status RUNNING (run_once env w db) = []"
    "length (in_status QUEUED (run_once env w db)) \<le> length (in_status QUEUED db) - 1"
proof -
  let ?db1 = "expire_jobs env (select_expired env db) db"
  note clear = expiry_clears [OF assms]
  have ids: "map rj_id (rq_jobs ?db1) = map rj_id (rq_jobs db)"
    by (rule evolved_ids [OF evolved_expire_jobs])
  have "map rj_id (rq_jobs (run_once env w db)) = map rj_id (rq_jobs db) \<and>
    in_status RUNNING (run_once env w db) = [] \<and>
    length (in_status QUEUED (run_once env w db)) \<le> length (in_status QUEUED db) - 1"
  proof (cases rule: next_queued_cases [of ?db1])
    case none
    with clear ids show ?thesis by (simp add: run_once_def Let_def)
  next
    case (some j)
    from execute_settles [OF some(2) refl some(3), of env w] ids assms(1) obtain h where
      h: "rq_jobs (snd (execute env w (rj_id j) ?db1)) = map (\<lambda>k. if rj_id k = rj_id j then h k else k) (rq_jobs ?db1)"
      "\<forall>k. rj_status (h k) \<in> {SUCCEEDED, FAILED} \<and> rj_id (h k) = rj_id k"
      by auto
    have st: "rj_status (h k) \<noteq> RUNNING" "rj_status (h k) \<noteq> QUEUED" for k
      using spec [OF h(2), of k] by auto
    have run: "run_once env w db = snd (execute env w (rj_id j) ?db1)"
      using some by (simp add: run_once_def Let_def)
    have "map rj_id (rq_jobs (run_once env w db)) = map rj_id (rq_jobs ?db1)"
      using h(2) by (simp add: run h(1) comp_def if_distrib cong: if_cong)
    moreover have "in_status RUNNING (run_once env w db) = []"
      using st clear(1) by (auto simp: in_status_def run h(1) filter_empty_conv)
    moreover have "length (in_status QUEUED (run_once env w db)) < length (in_status QUEUED ?db1)"
    proof -
      have le: "length (filter (\<lambda>k. rj_status k = QUEUED) (map (\<lambda>k. if rj_id k = rj_id j then h k else k) ks))
          \<le> length (filter (\<lambda>k. rj_status k = QUEUED) ks)" for ks
        using st by (induction ks) auto
      have "length (filter (\<lambda>k. rj_status k = QUEUED) (map (\<lambda>k. if rj_id k = rj_id j then h k else k) ks))
          < length (filter (\<lambda>k. rj_status k = QUEUED) ks)" if "j \<in> set ks" for ks
        using that
      proof (induction ks)
        case (Cons k ks)
        with le [of ks] some(3) st show ?case by (cases "k = j") auto
      qed simp
      with some(2) show ?thesis by (simp add: in_status_def run h(1))
    qed
    ultimately show ?thesis using clear ids by simp
  qed
  then show "map rj_id (rq_jobs (run_once env w db)) = map rj_id (rq_jobs db)"
    "in_status RUNNING (run_once env w db) = []"
    "length (in_status QUEUED (run_once env w db)) \<le> length (in_status QUEUED db) - 1"
    by blast+
qed

lemma passes_drain:
  assumes "distinct (map rj_id (rq_jobs db))" "in_status RUNNING db = []"
  shows "in_status RUNNING (foldl (\<lambda>db env. run_once env w db) db envs) = [] \<and>
    length (in_status QUEUED (foldl (\<lambda>db env. run_once env w db) db envs)) \<le> length (in_status QUEUED db) - length envs \<and>
    map rj_id (rq_jobs (foldl (\<lambda>db env. run_once env w db) db envs)) = map rj_id (rq_jobs db)"
  using assms
proof (induction envs arbitrary: db)
  case (Cons env envs)
  have "\<forall>j \<in> set (in_status RUNNING db). lease_over env j" using Cons.prems(2) by simp
  note step = run_once_drains [OF Cons.prems(1) this, of w]
  from Cons.IH [of "run_once env w db"] step Cons.prems(1) show ?case by auto
qed simp

section \<open>The properties\<close>

text \<open>C34: Under every interleaving of any number of workers that may stop at any moment, with submissions
  and downloads in between, a report job is held by at most one worker, is published at most once
  (its \<open>REPORT_SUCCEEDED\<close> records), and a job that has succeeded names a stored object of its own
  whose content has the recorded hash and size.\<close>

theorem reports_published_once:
  assumes "(report_step sha)\<^sup>*\<^sup>* start (procs, db)"
  shows "(\<forall>v w. holds (procs v) i \<and> holds (procs w) i \<longrightarrow> v = w) \<and>
    length (successes db i) \<le> 1 \<and>
    (\<forall>j \<in> set (rq_jobs db). rj_status j = SUCCEEDED \<longrightarrow> published_ok sha (rq_objects db) j)"
proof -
  have inv: "machine_inv sha (procs, db)" by (rule reachable_inv [OF assms])
  then have "v = w" if "holds (procs v) i" "holds (procs w) i" for v w
    using that claimed_by_unique [of db v i w] by (auto simp: machine_inv_def)
  with inv show ?thesis by (auto simp: machine_inv_def published_once_def published_all_def)
qed

text \<open>A succeeded report can be read: in every reachable state, until the report expires and unless the
  storage is down, its owner's download returns a content with the recorded hash and size and adds
  one audit record; it is never refused as not ready, missing or damaged.\<close>

theorem succeeded_reports_readable:
  assumes "(report_step sha)\<^sup>*\<^sup>* start (procs, db)" "j \<in> set (rq_jobs db)" "rj_status j = SUCCEEDED"
    "je_sha256 env = sha" "je_now env < rj_expires_at j" "je_outage env (object_key j) = None"
  shows "\<exists>content db'. download env db (rj_user_id j) (rj_id j) = Inr (content, db') \<and>
    rj_content_hash j = Some (sha content) \<and> rj_size_bytes j = Some (length content) \<and>
    rq_jobs db' = rq_jobs db \<and> length (rq_audit db') = Suc (length (rq_audit db))"
proof -
  have inv: "machine_inv sha (procs, db)" by (rule reachable_inv [OF assms(1)])
  then obtain content where content: "stored_in (rq_objects db) (object_key j) content"
      "rj_object_key j = Some (object_key j)" "rj_content_hash j = Some (sha content)"
      "rj_size_bytes j = Some (length content)"
    using assms(2,3) by (auto simp: machine_inv_def published_all_def published_ok_def)
  have "find (\<lambda>k. rj_id k = rj_id j \<and> rj_user_id k = rj_user_id j) (rq_jobs db) = Some j"
  proof (cases "find (\<lambda>k. rj_id k = rj_id j \<and> rj_user_id k = rj_user_id j) (rq_jobs db)")
    case None
    with assms(2) show ?thesis by (auto simp: find_None_iff)
  next
    case (Some k)
    with find_member [OF Some] assms(2) inv show ?thesis
      by (auto simp: machine_inv_def distinct_map inj_on_def)
  qed
  then have "owned db (rj_user_id j) (rj_id j) = Inr j" by (simp add: owned_def)
  moreover have "object_key j \<noteq> []" by (simp add: object_key_def)
  ultimately show ?thesis
    using assms(3-6) content get_bytes_stored [OF content(1) assms(6)]
    by (simp add: download_def job_audit_def)
qed

text \<open>A user never has more than four active (queued or running) reports, whatever the interleaving.\<close>

theorem active_reports_bounded:
  assumes "(report_step sha)\<^sup>*\<^sup>* start (procs, db)"
  shows "length (active_jobs db user_id) \<le> 4"
  using reachable_inv [OF assms] by (simp add: machine_inv_def)

text \<open>C35: A worker alone empties the queue. Once the leases of jobs left running are over, as many passes of
  \<open>run_once\<close> as there are queued jobs (and at least one) leave every job, and no new one, in
  \<open>SUCCEEDED\<close> or \<open>FAILED\<close>, whatever rendering and storage do.\<close>

theorem queue_drains:
  assumes "distinct (map rj_id (rq_jobs db))" "\<forall>j \<in> set (in_status RUNNING db). lease_over env j"
    "length (in_status QUEUED db) \<le> Suc (length envs)"
  shows "map rj_id (rq_jobs (foldl (\<lambda>db env. run_once env w db) db (env # envs))) = map rj_id (rq_jobs db) \<and>
    (\<forall>j \<in> set (rq_jobs (foldl (\<lambda>db env. run_once env w db) db (env # envs))). rj_status j \<in> {SUCCEEDED, FAILED})"
proof -
  note first = run_once_drains [OF assms(1,2), of w]
  let ?out = "foldl (\<lambda>db env. run_once env w db) (run_once env w db) envs"
  have "in_status RUNNING ?out = []" "map rj_id (rq_jobs ?out) = map rj_id (rq_jobs db)"
    "length (in_status QUEUED ?out) \<le> length (in_status QUEUED (run_once env w db)) - length envs"
    using passes_drain [of "run_once env w db" w envs] first assms(1) by simp_all
  moreover from this first(3) assms(3) have "in_status QUEUED ?out = []" by simp
  moreover have "rj_status j \<in> {SUCCEEDED, FAILED}" if "rj_status j \<noteq> RUNNING" "rj_status j \<noteq> QUEUED" for j
    using that by (cases "rj_status j") auto
  ultimately show ?thesis by (auto simp: in_status_def filter_empty_conv)
qed

section \<open>A late expiry\<close>

text \<open>One report and two workers, as functions from machine to machine.\<close>

definition turn :: "job_env \<Rightarrow> string \<Rightarrow> report_machine \<Rightarrow> report_machine" where
  "turn env w m = (case process_step env w (fst m w) (snd m) of (p, db) \<Rightarrow> ((fst m)(w := p), db))"

lemma turn_step: "report_step (je_sha256 env) m (turn env w m)"
  by (cases m) (auto simp: turn_def split: prod.splits intro: report_step.worked)

definition example_job_env :: "int \<Rightarrow> job_env" where
  "example_job_env now = \<lparr>je_now = now, je_new_id = (\<lambda>s. s), je_canonical = (\<lambda>v. ''{}''), je_sha256 = (\<lambda>s. s),
     je_render = (\<lambda>v f. Inr ''PDF''), je_outage = (\<lambda>k. None)\<rparr>"

definition submitted_report :: report_machine where
  "submitted_report = (\<lambda>w. Idle, snd (projr (create_report (example_job_env 0) (snd start) ''u'' ''risk'' (Inr []) ''pdf'')))"

definition work_on :: "string \<Rightarrow> int \<Rightarrow> nat \<Rightarrow> report_machine \<Rightarrow> report_machine" where
  "work_on w now n m = (turn (example_job_env now) w ^^ n) m"

lemma work_on_reaches: "(report_step (\<lambda>s. s))\<^sup>*\<^sup>* start m \<Longrightarrow> (report_step (\<lambda>s. s))\<^sup>*\<^sup>* start (work_on w now n m)"
proof (induction n)
  case (Suc n)
  have "report_step (\<lambda>s. s) k (turn (example_job_env now) w k)" for k
    using turn_step [of "example_job_env now" k w] by (simp add: example_job_env_def)
  with Suc show ?case by (simp add: work_on_def) (meson rtranclp.rtrancl_into_rtrancl)
qed (simp add: work_on_def)

lemma submitted_reaches: "(report_step (\<lambda>s. s))\<^sup>*\<^sup>* start submitted_report"
proof -
  have "\<not> isl (create_report (example_job_env 0) (snd start) ''u'' ''risk'' (Inr []) ''pdf'')" by code_simp
  then obtain job db where created: "create_report (example_job_env 0) (snd start) ''u'' ''risk'' (Inr []) ''pdf'' = Inr (job, db)"
    by (metis isl_def obj_sumE surj_pair)
  have "report_step (\<lambda>s. s) (fst start, snd start) (fst start, db)"
    by (rule report_step.submitted [OF created]) (simp add: start_def)
  then show ?thesis using created by (auto simp: submitted_report_def start_def)
qed

text \<open>C36: A published report can be lost. The lease expiry reads the expired jobs in one transaction and
  writes them in another without looking at their status again; when the claimant publishes in
  between, the job ends \<open>FAILED\<close> (and its download refused) although its content is stored, its
  hash recorded and its \<open>REPORT_SUCCEEDED\<close> record written.\<close>

theorem late_expiry_loses_report:
  "\<exists>m. (report_step (\<lambda>s. s))\<^sup>*\<^sup>* start m \<and>
     (\<exists>j \<in> set (rq_jobs (snd m)). rj_status j = FAILED \<and> rj_error_category j = Some ''WorkerLeaseExpired'' \<and>
        successes (snd m) (rj_id j) \<noteq> [] \<and> published_ok (\<lambda>s. s) (rq_objects (snd m)) j)"
proof -
  let ?m = "work_on ''b'' 1000 1 (work_on ''a'' 1000 1 (work_on ''b'' 1000 1 (work_on ''a'' 0 5 submitted_report)))"
  have "(report_step (\<lambda>s. s))\<^sup>*\<^sup>* start ?m"
    by (intro work_on_reaches submitted_reaches)
  moreover have "map rj_status (rq_jobs (snd ?m)) = [FAILED] \<and>
      map rj_error_category (rq_jobs (snd ?m)) = [Some ''WorkerLeaseExpired''] \<and>
      successes (snd ?m) (rj_id (hd (rq_jobs (snd ?m)))) \<noteq> [] \<and>
      valid_key (object_key (hd (rq_jobs (snd ?m)))) \<and>
      map_of (rq_objects (snd ?m)) (object_key (hd (rq_jobs (snd ?m)))) = Some ''PDF'' \<and>
      rj_object_key (hd (rq_jobs (snd ?m))) = Some (object_key (hd (rq_jobs (snd ?m)))) \<and>
      rj_content_hash (hd (rq_jobs (snd ?m))) = Some ''PDF'' \<and> rj_size_bytes (hd (rq_jobs (snd ?m))) = Some (length ''PDF'')"
    by code_simp
  then have "\<exists>j \<in> set (rq_jobs (snd ?m)). rj_status j = FAILED \<and> rj_error_category j = Some ''WorkerLeaseExpired'' \<and>
      successes (snd ?m) (rj_id j) \<noteq> [] \<and> published_ok (\<lambda>s. s) (rq_objects (snd ?m)) j"
    by (cases "rq_jobs (snd ?m)") (auto simp: published_ok_def stored_in_def)
  ultimately show ?thesis by blast
qed

section \<open>The properties on examples\<close>

lemma published_reaches: "(report_step (\<lambda>s. s))\<^sup>*\<^sup>* start (work_on ''a'' 0 6 submitted_report)"
  by (intro work_on_reaches submitted_reaches)

theorem reports_published_once_witness:
  "length (successes (snd (work_on ''a'' 0 6 submitted_report)) ''job'') \<le> 1"
  using reports_published_once [of "\<lambda>s. s" "fst (work_on ''a'' 0 6 submitted_report)"
      "snd (work_on ''a'' 0 6 submitted_report)" "''job''"] published_reaches by simp

theorem active_reports_bounded_witness:
  "length (active_jobs (snd submitted_report) ''u'') \<le> 4"
  using active_reports_bounded [of "\<lambda>s. s" "fst submitted_report" "snd submitted_report" "''u''"] submitted_reaches
  by simp

theorem succeeded_reports_readable_witness:
  "\<exists>content db'. download (example_job_env 10) (snd (work_on ''a'' 0 6 submitted_report)) ''u'' ''job'' = Inr (content, db')"
proof -
  let ?m = "work_on ''a'' 0 6 submitted_report"
  let ?j = "hd (rq_jobs (snd ?m))"
  have "?j \<in> set (rq_jobs (snd ?m))" "rj_status ?j = SUCCEEDED" "je_sha256 (example_job_env 10) = (\<lambda>s. s)"
    "je_now (example_job_env 10) < rj_expires_at ?j" "je_outage (example_job_env 10) (object_key ?j) = None"
    "rj_user_id ?j = ''u''" "rj_id ?j = ''job''"
    by ((simp add: example_job_env_def; fail) | code_simp)+
  then show ?thesis
    using succeeded_reports_readable [of "\<lambda>s. s" "fst ?m" "snd ?m" ?j "example_job_env 10"] published_reaches by auto
qed

theorem queue_drains_witness:
  "list_all (\<lambda>j. rj_status j \<in> {SUCCEEDED, FAILED})
     (rq_jobs (run_once (example_job_env 5) ''a'' (snd submitted_report)))"
proof -
  have "distinct (map rj_id (rq_jobs (snd submitted_report)))"
    "in_status RUNNING (snd submitted_report) = []" "length (in_status QUEUED (snd submitted_report)) \<le> Suc (length [])"
    by code_simp+
  then show ?thesis
    using queue_drains [of "snd submitted_report" "example_job_env 5" "[]" "''a''"] by (simp add: list_all_iff)
qed

end
