(* ===== verification/Analysis_Runs.thy ===== *)
theory Analysis_Runs
  imports Prelude "HOL-Library.Sublist"
begin

text \<open>
  \<open>analysis_lifecycle.py\<close> and its callers: \<open>terminal_worker.py\<close>, the queue of
  \<open>queue_worker.py\<close> and the start and cancel endpoints of \<open>terminal_api.py\<close>. A transition reads a
  run, then writes it on condition that its status is the one read; sessions interleave between
  the two. The history of a run is shown to be complete and every write to be the atomic transition.
\<close>

section \<open>Runs\<close>

datatype run_state = Queued | Running | Succeeded | Failed | Cancelled

record history_entry =
  he_state :: run_state
  he_at :: int
  he_message :: string
  he_actor :: "string option"

record analysis_run =
  an_id :: string
  an_created_at :: int
  an_kind :: string
  an_name :: string
  an_status :: run_state
  an_parameters :: "pyval dict"
  an_result :: "pyval dict option"
  an_history :: "history_entry list"
  an_error :: "string option"
  an_started_at :: "int option"
  an_finished_at :: "int option"

record run_db =
  ar_runs :: "analysis_run list"
  ar_audit :: "(string \<times> string) list"

definition predecessors :: "run_state \<Rightarrow> run_state list" where
  "predecessors state = (case state of
       Queued \<Rightarrow> [] | Running \<Rightarrow> [Queued] | Succeeded \<Rightarrow> [Running]
     | Failed \<Rightarrow> [Queued, Running] | Cancelled \<Rightarrow> [Queued, Running])"

definition message_of :: "run_state \<Rightarrow> string" where
  "message_of state = (case state of
       Queued \<Rightarrow> [] | Running \<Rightarrow> ''Validated template executing in isolated process''
     | Succeeded \<Rightarrow> ''Result persisted'' | Failed \<Rightarrow> ''Analysis failed''
     | Cancelled \<Rightarrow> ''Cancellation requested; worker result will be discarded'')"

definition run_of :: "run_db \<Rightarrow> string \<Rightarrow> analysis_run option" where
  "run_of db i = find (\<lambda>r. an_id r = i) (ar_runs db)"

section \<open>A transition\<close>

text \<open>The statement a session has prepared from what it read.\<close>

record run_change =
  ch_run_id :: string
  ch_observed :: run_state
  ch_state :: run_state
  ch_history :: "history_entry list"
  ch_result :: "pyval dict option"
  ch_error :: "string option"
  ch_at :: int

definition next_entry :: "int \<Rightarrow> run_state \<Rightarrow> string option \<Rightarrow> history_entry" where
  "next_entry now state error = \<lparr>he_state = state, he_at = now,
     he_message = (case error of Some e \<Rightarrow> if e \<noteq> [] then e else message_of state | None \<Rightarrow> message_of state),
     he_actor = None\<rparr>"

definition prepare ::
  "int \<Rightarrow> run_db \<Rightarrow> string \<Rightarrow> run_state \<Rightarrow> pyval dict option \<Rightarrow> string option \<Rightarrow> run_state option \<Rightarrow>
   run_change option" where
  "prepare now db i state result error expected =
     (case run_of db i of
        None \<Rightarrow> None
      | Some r \<Rightarrow>
          if an_status r \<notin> set (predecessors state) \<or> (expected \<noteq> None \<and> expected \<noteq> Some (an_status r)) then None
          else Some \<lparr>ch_run_id = i, ch_observed = an_status r, ch_state = state,
            ch_history = an_history r @ [next_entry now state error],
            ch_result = result, ch_error = error, ch_at = now\<rparr>)"

definition changed_run :: "run_change \<Rightarrow> analysis_run \<Rightarrow> analysis_run" where
  "changed_run ch r =
     (let r' = r\<lparr>an_status := ch_state ch, an_history := ch_history ch\<rparr>
      in if ch_state ch = Running then r'\<lparr>an_started_at := Some (ch_at ch)\<rparr>
         else r'\<lparr>an_finished_at := Some (ch_at ch),
            an_result := (if ch_state ch = Succeeded then ch_result ch else None),
            an_error := (if ch_state ch = Failed then ch_error ch else None)\<rparr>)"

definition matches :: "run_change \<Rightarrow> analysis_run \<Rightarrow> bool" where
  "matches ch r \<longleftrightarrow> an_id r = ch_run_id ch \<and> an_status r = ch_observed ch"

definition apply_change :: "run_change \<Rightarrow> run_db \<Rightarrow> bool \<times> run_db" where
  "apply_change ch db =
     (list_ex (matches ch) (ar_runs db),
      db\<lparr>ar_runs := map (\<lambda>r. if matches ch r then changed_run ch r else r) (ar_runs db)\<rparr>)"

definition transition_run ::
  "int \<Rightarrow> run_db \<Rightarrow> string \<Rightarrow> run_state \<Rightarrow> pyval dict option \<Rightarrow> string option \<Rightarrow> run_state option \<Rightarrow>
   bool \<times> run_db" where
  "transition_run now db i state result error expected =
     (case prepare now db i state result error expected of
        None \<Rightarrow> (False, db) | Some ch \<Rightarrow> apply_change ch db)"

section \<open>The worker\<close>

definition TEMPLATES :: "string list" where
  "TEMPLATES = [''stress'', ''backtest'', ''model'', ''monte_carlo'']"

text \<open>\<open>compute\<close> is the template of a kind on the parameters: a JSON value or the text of the exception.\<close>

definition computed :: "(string \<Rightarrow> pyval dict \<Rightarrow> string + pyval) \<Rightarrow> analysis_run \<Rightarrow> string + pyval dict" where
  "computed compute r =
     (if an_kind r \<notin> set TEMPLATES then Inl ''Unknown approved analytical template''
      else case compute (an_kind r) (an_parameters r) of
          Inl e \<Rightarrow> Inl e
        | Inr (VDict d) \<Rightarrow> Inr d
        | Inr v \<Rightarrow> Inl ''Analytical result must be a JSON object'')"

definition finish_run ::
  "int \<Rightarrow> (string \<Rightarrow> pyval dict \<Rightarrow> string + pyval) \<Rightarrow> run_db \<Rightarrow> string \<Rightarrow> run_db" where
  "finish_run now compute db i =
     (case run_of db i of
        None \<Rightarrow> db
      | Some r \<Rightarrow>
          if an_status r \<noteq> Running then db
          else case computed compute r of
              Inr d \<Rightarrow> snd (transition_run now db i Succeeded (Some d) None None)
            | Inl e \<Rightarrow> snd (transition_run now db i Failed None (Some e) (Some Running)))"

definition execute_run ::
  "int \<Rightarrow> (string \<Rightarrow> pyval dict \<Rightarrow> string + pyval) \<Rightarrow> run_db \<Rightarrow> string \<Rightarrow> run_db" where
  "execute_run now compute db i =
     (case transition_run now db i Running None None None of
        (claimed, db') \<Rightarrow> if claimed then finish_run now compute db' i else db')"

definition queued_run :: "run_db \<Rightarrow> string option" where
  "queued_run db =
     (case sort_key an_created_at (filter (\<lambda>r. an_status r = Queued) (ar_runs db)) of
        [] \<Rightarrow> None | r # _ \<Rightarrow> Some (an_id r))"

datatype queue_result = NO_QUEUED_JOBS | JOB_HANDLED string

definition queue_once ::
  "int \<Rightarrow> (string \<Rightarrow> pyval dict \<Rightarrow> string + pyval) \<Rightarrow> run_db \<Rightarrow> queue_result \<times> run_db" where
  "queue_once now compute db =
     (case queued_run db of None \<Rightarrow> (NO_QUEUED_JOBS, db)
      | Some i \<Rightarrow> (JOB_HANDLED i, execute_run now compute db i))"

section \<open>The endpoints\<close>

definition active_runs :: "run_db \<Rightarrow> analysis_run list" where
  "active_runs db = filter (\<lambda>r. an_status r \<in> {Queued, Running}) (ar_runs db)"

record run_request =
  rr_kind :: string
  rr_name :: string

definition admitted :: "run_db \<Rightarrow> run_request \<Rightarrow> unit result" where
  "admitted db rq =
     bindE (ensure (rr_kind rq \<in> set TEMPLATES) (HTTPError 422 ''Unknown analytical template'')) (\<lambda>_.
     ensure (length (active_runs db) < 4) (HTTPError 429 ''Four analytical jobs are already active''))"

definition queued_row :: "int \<Rightarrow> string \<Rightarrow> run_request \<Rightarrow> pyval dict \<Rightarrow> string option \<Rightarrow> analysis_run" where
  "queued_row now i rq params actor =
     \<lparr>an_id = i, an_created_at = now, an_kind = rr_kind rq, an_name = rr_name rq, an_status = Queued,
      an_parameters = params, an_result = None,
      an_history = [\<lparr>he_state = Queued, he_at = now, he_message = ''Immutable inputs stored'', he_actor = actor\<rparr>],
      an_error = None, an_started_at = None, an_finished_at = None\<rparr>"

definition insert_run :: "analysis_run \<Rightarrow> run_db \<Rightarrow> run_db" where
  "insert_run r db = db\<lparr>ar_runs := ar_runs db @ [r], ar_audit := ar_audit db @ [(''ANALYSIS_RUN_QUEUED'', an_id r)]\<rparr>"

text \<open>\<open>launched\<close> is the failure to start the worker's process, if any.\<close>

definition start_run ::
  "int \<Rightarrow> string \<Rightarrow> run_db \<Rightarrow> run_request \<Rightarrow> (pyval dict) result \<Rightarrow> string option \<Rightarrow> string option \<Rightarrow> run_db result" where
  "start_run now i db rq prepared actor launched =
     bindE (admitted db rq) (\<lambda>_.
     bindE prepared (\<lambda>params.
     let db' = insert_run (queued_row now i rq params actor) db
     in Inr (case launched of
          None \<Rightarrow> db'
        | Some e \<Rightarrow> snd (transition_run now db' i Failed None (Some (''Worker launch failed: '' @ e)) (Some Queued)))))"

definition cancel_run :: "int \<Rightarrow> run_db \<Rightarrow> string \<Rightarrow> run_db result" where
  "cancel_run now db i =
     (case transition_run now db i Cancelled None None None of
        (done, db') \<Rightarrow>
          if done then Inr (db'\<lparr>ar_audit := ar_audit db' @ [(''ANALYSIS_RUN_CANCELLED'', i)]\<rparr>)
          else Inl (HTTPError 409 ''Run is not active''))"

section \<open>Concurrent sessions\<close>

text \<open>A session holds nothing, a statement it has prepared, or a request it has admitted.\<close>

datatype run_session = Quiet | Pending run_change | Admitted run_request

type_synonym run_machine = "(string \<Rightarrow> run_session) \<times> run_db"

inductive run_step :: "run_machine \<Rightarrow> run_machine \<Rightarrow> bool" where
  read: "prepare now db i state result error expected = Some ch \<Longrightarrow>
    run_step (ss, db) (ss(s := Pending ch), db)"
| written: "ss s = Pending ch \<Longrightarrow> run_step (ss, db) (ss(s := Quiet), snd (apply_change ch db))"
| rolled_back: "run_step (ss, db) (ss(s := Quiet), db)"
| counted: "admitted db rq = Inr () \<Longrightarrow> run_step (ss, db) (ss(s := Admitted rq), db)"
| inserted: "ss s = Admitted rq \<Longrightarrow> i \<notin> an_id ` set (ar_runs db) \<Longrightarrow>
    run_step (ss, db) (ss(s := Quiet), insert_run (queued_row now i rq params actor) db)"

inductive_cases run_stepE: "run_step m m'"

definition no_runs :: run_machine where
  "no_runs = ((\<lambda>s. Quiet), \<lparr>ar_runs = [], ar_audit = []\<rparr>)"

text \<open>The calls of \<open>transition_run\<close> the program makes: the worker's claim, its result and its failure,
  the failure to launch it, and a cancellation. \<open>called_step\<close> is a step in which every statement is
  prepared by one of them.\<close>

inductive called :: "run_state \<Rightarrow> pyval dict option \<Rightarrow> string option \<Rightarrow> run_state option \<Rightarrow> bool" where
  "called Running None None None"
| "called Succeeded (Some d) None None"
| "called Failed None (Some e) (Some Running)"
| "called Failed None (Some e) (Some Queued)"
| "called Cancelled None None None"

inductive called_step :: "run_machine \<Rightarrow> run_machine \<Rightarrow> bool" where
  "prepare now db i state result error expected = Some ch \<Longrightarrow> called state result error expected \<Longrightarrow>
    called_step (ss, db) (ss(s := Pending ch), db)"
| "ss s = Pending ch \<Longrightarrow> called_step (ss, db) (ss(s := Quiet), snd (apply_change ch db))"
| "called_step (ss, db) (ss(s := Quiet), db)"
| "admitted db rq = Inr () \<Longrightarrow> called_step (ss, db) (ss(s := Admitted rq), db)"
| "ss s = Admitted rq \<Longrightarrow> i \<notin> an_id ` set (ar_runs db) \<Longrightarrow>
    called_step (ss, db) (ss(s := Quiet), insert_run (queued_row now i rq params actor) db)"

lemma called_run: "called_step m m' \<Longrightarrow> run_step m m'"
  by (auto elim!: called_step.cases intro: run_step.intros)

lemma called_runs: "called_step\<^sup>*\<^sup>* m m' \<Longrightarrow> run_step\<^sup>*\<^sup>* m m'"
  by (induction rule: rtranclp_induct) (auto intro: called_run rtranclp.rtrancl_into_rtrancl)

section \<open>The history of a run\<close>

text \<open>From queued, every state is a predecessor of the next.\<close>

definition lifecycle :: "run_state list \<Rightarrow> bool" where
  "lifecycle ss \<longleftrightarrow> ss \<noteq> [] \<and> hd ss = Queued \<and> successively (\<lambda>s t. s \<in> set (predecessors t)) ss"

definition rank :: "run_state \<Rightarrow> nat" where
  "rank s = (case s of Queued \<Rightarrow> 0 | Running \<Rightarrow> 1 | _ \<Rightarrow> 2)"

lemma predecessor_rank: "s \<in> set (predecessors t) \<Longrightarrow> rank s < rank t"
  by (auto simp: predecessors_def rank_def split: run_state.splits)

lemma lifecycle_ranks: "lifecycle ss \<Longrightarrow> sorted_wrt (\<lambda>s t. rank s < rank t) ss"
proof -
  assume "lifecycle ss"
  then have "successively (\<lambda>s t. rank s < rank t) ss"
    by (auto simp: lifecycle_def intro: successively_mono predecessor_rank)
  moreover have "transp (\<lambda>s t. rank s < rank t)" by (auto intro: transpI)
  ultimately show ?thesis by (simp add: successively_conv_sorted_wrt)
qed


lemma lifecycle_snoc:
  "lifecycle ss \<Longrightarrow> last ss \<in> set (predecessors t) \<Longrightarrow> lifecycle (ss @ [t])"
  by (auto simp: lifecycle_def successively_append_iff)

text \<open>A part of a history that ends in the current state is all of it.\<close>

lemma lifecycle_prefix_all:
  assumes "lifecycle (map he_state h)" "prefix old h" "old \<noteq> []" "he_state (last old) = he_state (last h)"
  shows "old = h"
proof -
  from assms(2) obtain rest where h: "h = old @ rest" by (auto simp: prefix_def)
  have "rest = []"
  proof (rule ccontr)
    assume "rest \<noteq> []"
    then have "rank (he_state (last old)) < rank (he_state (last h))"
      using lifecycle_ranks [OF assms(1)] assms(3) by (simp add: h sorted_wrt_append sorted_wrt_map)
    with assms(4) show False by simp
  qed
  with h show ?thesis by simp
qed

definition run_ok :: "analysis_run \<Rightarrow> bool" where
  "run_ok r \<longleftrightarrow> lifecycle (map he_state (an_history r)) \<and> he_state (last (an_history r)) = an_status r \<and>
     (an_result r \<noteq> None \<longrightarrow> an_status r = Succeeded) \<and> (an_error r \<noteq> None \<longrightarrow> an_status r = Failed) \<and>
     (an_started_at r \<noteq> None \<longleftrightarrow> Running \<in> he_state ` set (an_history r)) \<and>
     (an_finished_at r \<noteq> None \<longleftrightarrow> an_status r \<in> {Succeeded, Failed, Cancelled})"

definition pending_ok :: "run_db \<Rightarrow> run_change \<Rightarrow> bool" where
  "pending_ok db ch \<longleftrightarrow> (\<exists>r \<in> set (ar_runs db). an_id r = ch_run_id ch \<and>
     (\<exists>old. ch_history ch = old @ [next_entry (ch_at ch) (ch_state ch) (ch_error ch)] \<and> old \<noteq> [] \<and>
        he_state (last old) = ch_observed ch \<and> prefix old (an_history r) \<and>
        ch_observed ch \<in> set (predecessors (ch_state ch))))"

definition runs_inv :: "run_machine \<Rightarrow> bool" where
  "runs_inv m \<longleftrightarrow> distinct (map an_id (ar_runs (snd m))) \<and> (\<forall>r \<in> set (ar_runs (snd m)). run_ok r) \<and>
     (\<forall>s ch. fst m s = Pending ch \<longrightarrow> pending_ok (snd m) ch)"

lemma run_of_Some: "run_of db i = Some r \<Longrightarrow> r \<in> set (ar_runs db) \<and> an_id r = i"
  by (auto simp: run_of_def find_Some_iff)

lemma prepare_pending:
  assumes "prepare now db i state result error expected = Some ch" "\<forall>r \<in> set (ar_runs db). run_ok r"
  shows "pending_ok db ch"
proof -
  from assms(1) obtain r where r: "run_of db i = Some r" "an_status r \<in> set (predecessors state)"
    and ch: "ch = \<lparr>ch_run_id = i, ch_observed = an_status r, ch_state = state,
      ch_history = an_history r @ [next_entry now state error], ch_result = result, ch_error = error, ch_at = now\<rparr>"
    by (auto simp: prepare_def split: option.splits if_splits)
  have "r \<in> set (ar_runs db)" "an_id r = i" "run_ok r"
    using run_of_Some [OF r(1)] assms(2) by auto
  then show ?thesis
    unfolding pending_ok_def
    by (intro bexI [of _ r] conjI exI [of _ "an_history r"]) (auto simp: ch r(2) run_ok_def lifecycle_def)
qed

text \<open>The history a matching statement was prepared from is the current one.\<close>

lemma matching_history:
  assumes "runs_inv (ss, db)" "ss s = Pending ch" "r \<in> set (ar_runs db)" "matches ch r"
  shows "ch_history ch = an_history r @ [next_entry (ch_at ch) (ch_state ch) (ch_error ch)]"
    "an_status r \<in> set (predecessors (ch_state ch))"
proof -
  from assms(1,2) obtain q old where q: "q \<in> set (ar_runs db)" "an_id q = ch_run_id ch"
    "ch_history ch = old @ [next_entry (ch_at ch) (ch_state ch) (ch_error ch)]" "old \<noteq> []"
    "he_state (last old) = ch_observed ch" "prefix old (an_history q)" "ch_observed ch \<in> set (predecessors (ch_state ch))"
    by (fastforce simp: runs_inv_def pending_ok_def)
  have "q = r"
    using assms(1,3,4) q(1,2) by (auto simp: runs_inv_def matches_def distinct_map inj_on_def)
  moreover have "run_ok r" using assms(1,3) by (auto simp: runs_inv_def)
  ultimately have "old = an_history r"
    using q assms(4) by (intro lifecycle_prefix_all) (auto simp: run_ok_def matches_def)
  with q(3,7) assms(4) show "ch_history ch = an_history r @ [next_entry (ch_at ch) (ch_state ch) (ch_error ch)]"
    "an_status r \<in> set (predecessors (ch_state ch))"
    by (simp_all add: matches_def)
qed

lemma changed_ok:
  assumes "run_ok r" "an_status r \<in> set (predecessors (ch_state ch))"
    "ch_history ch = an_history r @ [next_entry now (ch_state ch) error]"
  shows "run_ok (changed_run ch r)"
proof -
  have "lifecycle (map he_state (an_history r @ [next_entry now (ch_state ch) error]))"
    using assms lifecycle_snoc [of "map he_state (an_history r)" "ch_state ch"]
    by (auto simp: run_ok_def next_entry_def last_map lifecycle_def)
  then show ?thesis
    using assms by (cases "ch_state ch")
      (auto simp: run_ok_def changed_run_def Let_def next_entry_def predecessors_def)
qed

lemma changed_run_simps [simp]:
  "an_id (changed_run ch r) = an_id r" "an_history (changed_run ch r) = ch_history ch"
  by (simp_all add: changed_run_def Let_def)

lemma written_inv:
  assumes "runs_inv (ss, db)" "ss s = Pending ch"
  shows "runs_inv (ss(s := Quiet), snd (apply_change ch db))"
proof -
  let ?db = "snd (apply_change ch db)"
  have runs: "ar_runs ?db = map (\<lambda>r. if matches ch r then changed_run ch r else r) (ar_runs db)"
    by (simp add: apply_change_def)
  have grown: "\<exists>r' \<in> set (ar_runs ?db). an_id r' = an_id r \<and> prefix (an_history r) (an_history r')"
    if "r \<in> set (ar_runs db)" for r
    using that matching_history(1) [OF assms that]
    by (intro bexI [of _ "if matches ch r then changed_run ch r else r"]) (auto simp: runs)
  have "pending_ok ?db c" if "ss t = Pending c" for t c
  proof -
    from assms(1) that obtain q old where q: "q \<in> set (ar_runs db)" "an_id q = ch_run_id c"
      "ch_history c = old @ [next_entry (ch_at c) (ch_state c) (ch_error c)]" "old \<noteq> []"
      "he_state (last old) = ch_observed c" "prefix old (an_history q)" "ch_observed c \<in> set (predecessors (ch_state c))"
      by (fastforce simp: runs_inv_def pending_ok_def)
    with grown [OF q(1)] show ?thesis
      unfolding pending_ok_def by (metis prefix_order.order_trans)
  qed
  moreover have "run_ok (if matches ch r then changed_run ch r else r)" if "r \<in> set (ar_runs db)" for r
    using matching_history [OF assms that] changed_ok assms(1) that by (auto simp: runs_inv_def)
  then have "\<forall>r \<in> set (ar_runs ?db). run_ok r" unfolding runs set_map by blast
  moreover have "map an_id (ar_runs ?db) = map an_id (ar_runs db)" by (simp add: runs)
  ultimately show ?thesis using assms(1) by (simp add: runs_inv_def)
qed

lemma inserted_inv:
  assumes "runs_inv (ss, db)" "i \<notin> an_id ` set (ar_runs db)"
  shows "runs_inv (ss(s := Quiet), insert_run (queued_row now i rq params actor) db)"
  using assms by (fastforce simp: runs_inv_def insert_run_def pending_ok_def run_ok_def lifecycle_def queued_row_def)

lemma run_step_inv: "run_step m m' \<Longrightarrow> runs_inv m \<Longrightarrow> runs_inv m'"
proof (induction rule: run_step.induct)
  case (read now db i state result error expected ch ss s)
  then show ?case using prepare_pending by (auto simp: runs_inv_def)
next
  case (written ss s ch db)
  then show ?case using written_inv by blast
next
  case (inserted ss s rq i db now params actor)
  then show ?case using inserted_inv by blast
qed (auto simp: runs_inv_def)

lemma runs_reachable_inv: "run_step\<^sup>*\<^sup>* no_runs m \<Longrightarrow> runs_inv m"
proof (induction rule: rtranclp_induct)
  case base
  show ?case by (simp add: runs_inv_def no_runs_def)
next
  case (step y z)
  then show ?case by (blast intro: run_step_inv)
qed

section \<open>What a call leaves behind\<close>

text \<open>The run a step finds is there after it, with a history that goes on from the one it had.\<close>

definition goes_on :: "analysis_run \<Rightarrow> run_db \<Rightarrow> bool" where
  "goes_on r db \<longleftrightarrow> (\<exists>r' \<in> set (ar_runs db). an_id r' = an_id r \<and> prefix (an_history r) (an_history r'))"

lemma written_goes_on:
  assumes "runs_inv (ss, db)" "ss s = Pending ch" "r \<in> set (ar_runs db)"
  shows "goes_on r (snd (apply_change ch db))"
  using matching_history(1) [OF assms] assms(3) unfolding goes_on_def
  by (intro bexI [of _ "if matches ch r then changed_run ch r else r"]) (auto simp: apply_change_def)

lemma step_goes_on: "run_step (ss, db) (ss', db') \<Longrightarrow> runs_inv (ss, db) \<Longrightarrow> r \<in> set (ar_runs db) \<Longrightarrow> goes_on r db'"
  by (erule run_stepE) (auto simp: goes_on_def insert_run_def dest: written_goes_on)

lemma goes_on:
  assumes "run_step\<^sup>*\<^sup>* m m'" "runs_inv m" "r \<in> set (ar_runs (snd m))"
  shows "goes_on r (snd m')"
  using assms
proof (induction rule: rtranclp_induct)
  case base
  then show ?case by (auto simp: goes_on_def)
next
  case (step y z)
  have "runs_inv y"
    using step.hyps(1) step.prems(1) by (induction rule: rtranclp_induct) (auto intro: run_step_inv)
  moreover obtain r' where "r' \<in> set (ar_runs (snd y))" "an_id r' = an_id r" "prefix (an_history r) (an_history r')"
    using step.IH [OF step.prems] by (auto simp: goes_on_def)
  ultimately show ?case
    using step.hyps(2) step_goes_on [of "fst y" "snd y" "fst z" "snd z" r']
    by (auto simp: goes_on_def intro: prefix_order.order_trans)
qed







section \<open>The properties\<close>


text \<open>C38: The read and the conditional write of a transition are one atomic transition at the instant of
  the write. In every reachable state, executing a prepared statement does what \<open>transition_run\<close>
  would do there and then if asked for the observed status: the whole update with the current history
  extended, or nothing.\<close>

theorem transition_is_atomic:
  assumes "run_step\<^sup>*\<^sup>* no_runs (ss, db)" "ss s = Pending ch"
  shows "apply_change ch db =
    transition_run (ch_at ch) db (ch_run_id ch) (ch_state ch) (ch_result ch) (ch_error ch) (Some (ch_observed ch))"
proof -
  have inv: "runs_inv (ss, db)" by (rule runs_reachable_inv [OF assms(1)])
  then obtain q where q: "q \<in> set (ar_runs db)" "an_id q = ch_run_id ch"
    using assms(2) by (fastforce simp: runs_inv_def pending_ok_def)
  have only: "r = q" if "r \<in> set (ar_runs db)" "an_id r = ch_run_id ch" for r
    using inv that q by (auto simp: runs_inv_def distinct_map inj_on_def)
  have found: "run_of db (ch_run_id ch) = Some q"
  proof (cases "run_of db (ch_run_id ch)")
    case None
    with q show ?thesis by (auto simp: run_of_def find_None_iff)
  next
    case (Some r)
    with run_of_Some [OF Some] only show ?thesis by simp
  qed
  show ?thesis
  proof (cases "matches ch q")
    case True
    have "prepare (ch_at ch) db (ch_run_id ch) (ch_state ch) (ch_result ch) (ch_error ch) (Some (ch_observed ch)) = Some ch"
      using matching_history [OF inv assms(2) q(1) True] True found by (simp add: prepare_def matches_def)
    then show ?thesis by (simp add: transition_run_def)
  next
    case False
    then have none: "\<not> matches ch r" if "r \<in> set (ar_runs db)" for r
      using that only by (auto simp: matches_def)
    then have "apply_change ch db = (False, db)"
      by (auto simp: apply_change_def list_ex_iff cong: map_cong)
    moreover have "prepare (ch_at ch) db (ch_run_id ch) (ch_state ch) (ch_result ch) (ch_error ch) (Some (ch_observed ch)) = None"
      using False found q(2) by (simp add: prepare_def matches_def)
    ultimately show ?thesis by (simp add: transition_run_def)
  qed
qed

section \<open>The limit on active runs\<close>

definition example_request :: run_request where
  "example_request = \<lparr>rr_kind = ''stress'', rr_name = ''run''\<rparr>"

abbreviation session_name :: "nat \<Rightarrow> string" where
  "session_name k \<equiv> replicate k CHR ''s''"

text \<open>The sessions from \<open>k\<close> to \<open>n\<close> have counted the runs and not yet inserted theirs.\<close>

definition waiting :: "nat \<Rightarrow> nat \<Rightarrow> string \<Rightarrow> run_session" where
  "waiting k n s = (if \<exists>j. k \<le> j \<and> j < n \<and> s = session_name j then Admitted example_request else Quiet)"

lemma waiting_more: "(waiting 0 n)(session_name n := Admitted example_request) = waiting 0 (Suc n)"
  by (auto simp: waiting_def fun_eq_iff less_Suc_eq)

lemma waiting_less: "(waiting k n)(session_name k := Quiet) = waiting (Suc k) n"
  by (auto simp: waiting_def fun_eq_iff Suc_le_eq order_le_less)

lemma waiting_reachable: "called_step\<^sup>*\<^sup>* no_runs (waiting 0 n, snd no_runs)"
proof (induction n)
  case 0
  have "waiting 0 0 = fst no_runs" by (simp add: waiting_def no_runs_def fun_eq_iff)
  then show ?case by simp
next
  case (Suc n)
  have "admitted (snd no_runs) example_request = Inr ()"
    by (simp add: admitted_def example_request_def TEMPLATES_def active_runs_def no_runs_def)
  then have "called_step (waiting 0 n, snd no_runs) (waiting 0 (Suc n), snd no_runs)"
    using called_step.intros(4) [of "snd no_runs" example_request "waiting 0 n" "session_name n"]
    by (simp add: waiting_more)
  with Suc show ?case by (rule rtranclp.rtrancl_into_rtrancl)
qed

lemma inserted_reachable:
  assumes "k \<le> n"
  shows "\<exists>db. called_step\<^sup>*\<^sup>* no_runs (waiting k n, db) \<and> length (ar_runs db) = k \<and>
    (\<forall>r \<in> set (ar_runs db). an_status r = Queued \<and> length (an_id r) < k)"
  using assms
proof (induction k)
  case 0
  then show ?case using waiting_reachable [of n] by (auto simp: no_runs_def)
next
  case (Suc k)
  then obtain db where db: "called_step\<^sup>*\<^sup>* no_runs (waiting k n, db)" "length (ar_runs db) = k"
    "\<forall>r \<in> set (ar_runs db). an_status r = Queued \<and> length (an_id r) < k" by auto
  let ?db = "insert_run (queued_row 0 (session_name k) example_request [] None) db"
  have "waiting k n (session_name k) = Admitted example_request"
    using Suc.prems by (auto simp: waiting_def)
  moreover have "session_name k \<notin> an_id ` set (ar_runs db)"
  proof
    assume "session_name k \<in> an_id ` set (ar_runs db)"
    then obtain r where "r \<in> set (ar_runs db)" "an_id r = session_name k" by auto
    with db(3) show False by fastforce
  qed
  ultimately have "called_step (waiting k n, db) (waiting (Suc k) n, ?db)"
    using called_step.intros(5) [of "waiting k n" "session_name k" example_request "session_name k" db 0 "[]" None]
    by (simp add: waiting_less)
  with db show ?case
    by (intro exI [of _ ?db]) (auto simp: insert_run_def queued_row_def less_Suc_eq)
qed

text \<open>The limit of four active runs is not kept. \<open>start_run\<close> counts the active runs without locking
  anything and inserts later, so sessions that count at the same time are all admitted: any number of
  runs can be active at once.\<close>

theorem active_runs_unbounded:
  "\<exists>ss db. called_step\<^sup>*\<^sup>* no_runs (ss, db) \<and> length (active_runs db) = n"
proof -
  obtain db where db: "called_step\<^sup>*\<^sup>* no_runs (waiting n n, db)" "length (ar_runs db) = n"
    "\<forall>r \<in> set (ar_runs db). an_status r = Queued \<and> length (an_id r) < n"
    using inserted_reachable [of n n] by auto
  then have "active_runs db = ar_runs db" by (simp add: active_runs_def filter_id_conv)
  with db show ?thesis by metis
qed

section \<open>The properties on an example\<close>

lemma example_machine:
  "\<exists>db r. called_step\<^sup>*\<^sup>* no_runs (waiting 1 1, db) \<and> ar_runs db = [r] \<and> an_status r = Queued"
  using inserted_reachable [of 1 1] by (auto simp: length_Suc_conv)


theorem transition_is_atomic_witness:
  "\<exists>ss db ch. run_step\<^sup>*\<^sup>* no_runs (ss, db) \<and> ss ''w'' = Pending ch \<and> fst (apply_change ch db) \<and>
     apply_change ch db = transition_run (ch_at ch) db (ch_run_id ch) (ch_state ch) (ch_result ch) (ch_error ch)
       (Some (ch_observed ch))"
proof -
  obtain db r where db: "called_step\<^sup>*\<^sup>* no_runs (waiting 1 1, db)" "ar_runs db = [r]" "an_status r = Queued"
    using example_machine by auto
  obtain ch where ch: "prepare 1 db (an_id r) Running None None None = Some ch"
    using db by (simp add: prepare_def run_of_def predecessors_def)
  then have "matches ch r" using db by (auto simp: prepare_def run_of_def predecessors_def matches_def)
  let ?ss = "(waiting 1 1)(''w'' := Pending ch)"
  have reach: "run_step\<^sup>*\<^sup>* no_runs (?ss, db)"
    by (rule rtranclp.rtrancl_into_rtrancl [OF called_runs [OF db(1)] run_step.read [OF ch]])
  have pending: "?ss ''w'' = Pending ch" by simp
  have "fst (apply_change ch db)" using \<open>matches ch r\<close> db(2) by (simp add: apply_change_def)
  with reach pending transition_is_atomic [OF reach pending] show ?thesis by blast
qed

end
