(* ===== verification/Reconciliation.thy ===== *)
theory Reconciliation
  imports Ledger_Store
begin

text \<open>
  \<open>PortfolioReconciliationService\<close> of \<open>portfolio_operations.py\<close> with \<open>reconciliation_contracts.py\<close>
  and the review endpoint of \<open>portfolio_api.py\<close>: the figures of the latest valuation against those
  of the last broker snapshot, and the table of breaks that follows the differences. The order in
  which Python walks a union of key sets is a parameter, as are fresh identifiers.
\<close>

section \<open>Inputs\<close>

text \<open>An amount that the mapping does not hold is \<open>None\<close>, one that is null is \<open>Some VNone\<close>.\<close>

type_synonym amount = "pyval option"

record cash_amount =
  ca_currency :: string
  ca_amount :: pyval

record position_amount =
  pa_symbol :: string
  pa_quantity :: amount
  pa_average_cost :: amount

record effective_transaction =
  ef_id :: string
  ef_quantity :: amount
  ef_price :: amount
  ef_commission :: amount
  ef_ledger_state :: "string option"

record reconciliation_book =
  bo_portfolio_id :: string
  bo_nav :: pyval
  bo_as_of :: string
  bo_cash :: "cash_amount list"
  bo_positions :: "position_amount list"
  bo_transactions :: "effective_transaction list"

record reconciliation_fill =
  fi_execution_id :: string
  fi_quantity :: pyval
  fi_price :: pyval
  fi_commission :: amount

record broker_payload =
  bp_fingerprint :: "string option"
  bp_cash :: "cash_amount list"
  bp_positions :: "position_amount list"
  bp_fills :: "reconciliation_fill list"

record broker_snapshot =
  bs_id :: string
  bs_portfolio_id :: string
  bs_as_of :: int
  bs_source :: string
  bs_nav :: rat
  bs_payload :: broker_payload

section \<open>Observations\<close>

datatype break_type = NAV_MISMATCH | CASH_MISMATCH | QUANTITY_MISMATCH | COST_BASIS_MISMATCH
  | UNMATCHED_BROKER_FILL | FILL_QUANTITY_MISMATCH | FILL_PRICE_MISMATCH | COMMISSION_MISMATCH

text \<open>One side of a comparison: a JSON amount, a decimal column, or an unmatched fill.\<close>

datatype side = Json pyval | Number rat | Fill reconciliation_fill

record reconciliation_item =
  ri_type :: break_type
  ri_key :: string
  ri_internal :: side
  ri_external :: side
  ri_difference :: "rat option"
  ri_snapshot_id :: "string option"

definition side_decimal :: "ctx \<Rightarrow> side \<Rightarrow> rat result" where
  "side_decimal c s = (case s of
       Json v \<Rightarrow> decimal c v ''amount'' False False
     | Number x \<Rightarrow> decimal_of c x ''amount'' False False
     | Fill f \<Rightarrow> Inl (ValueError ''amount must be numeric''))"

definition observed_side :: "ctx \<Rightarrow> side \<Rightarrow> rat option result" where
  "observed_side c s = (if s = Json VNone then Inr None else bindE (side_decimal c s) (\<lambda>x. Inr (Some x)))"

definition break_item :: "break_type \<Rightarrow> string \<Rightarrow> side \<Rightarrow> side \<Rightarrow> rat option \<Rightarrow> reconciliation_item" where
  "break_item kind key ours theirs difference =
     \<lparr>ri_type = kind, ri_key = key, ri_internal = ours, ri_external = theirs,
      ri_difference = difference, ri_snapshot_id = None\<rparr>"

text \<open>A difference keeps the text of its amounts.\<close>

definition side_text :: "side \<Rightarrow> side" where
  "side_text s = (case s of Json v \<Rightarrow> Json (VStr (py_str v)) | _ \<Rightarrow> s)"

definition compared ::
  "ctx \<Rightarrow> break_type \<Rightarrow> string \<Rightarrow> side \<Rightarrow> side \<Rightarrow> rat \<Rightarrow> rat option \<Rightarrow> rat option \<Rightarrow> reconciliation_item list" where
  "compared c kind key ours theirs tolerance left right =
     (case (left, right) of
        (Some x, Some y) \<Rightarrow>
          if dabs c (dsub c x y) > tolerance
          then [break_item kind key (side_text ours) (side_text theirs) (Some (dsub c x y))] else []
      | _ \<Rightarrow> [break_item kind key ours theirs None])"

definition compare_sides ::
  "ctx \<Rightarrow> break_type \<Rightarrow> string \<Rightarrow> side \<Rightarrow> side \<Rightarrow> rat \<Rightarrow> reconciliation_item list result" where
  "compare_sides c kind key ours theirs tolerance =
     bindE (observed_side c ours) (\<lambda>left.
     bindE (observed_side c theirs) (\<lambda>right.
     Inr (compared c kind key ours theirs tolerance left right)))"

definition CENT :: rat where "CENT = 1 / 100"

definition QUANTUM :: rat where "QUANTUM = 1 / 10 ^ 8"

definition get_amount :: "amount \<Rightarrow> pyval \<Rightarrow> side" where
  "get_amount a missing = Json (case a of Some v \<Rightarrow> v | None \<Rightarrow> missing)"

text \<open>The cash side: the last row of a currency stands for it, and a currency without one is zero.\<close>

definition cash_of :: "cash_amount list \<Rightarrow> pyval dict" where
  "cash_of rows = foldl (\<lambda>d r. AList.update (ca_currency r) (ca_amount r) d) [] rows"

definition compare_cash ::
  "ctx \<Rightarrow> pyval dict \<Rightarrow> pyval dict \<Rightarrow> string \<Rightarrow> reconciliation_item list result" where
  "compare_cash c ours theirs currency =
     compare_sides c CASH_MISMATCH currency (Json (dict_get ours currency (VStr ''0'')))
       (Json (dict_get theirs currency (VStr ''0''))) CENT"

definition positions_of :: "position_amount list \<Rightarrow> position_amount dict" where
  "positions_of rows = foldl (\<lambda>d r. AList.update (pa_symbol r) r d) [] rows"

definition no_position :: "string \<Rightarrow> position_amount" where
  "no_position symbol = \<lparr>pa_symbol = symbol, pa_quantity = None, pa_average_cost = None\<rparr>"

definition compare_position ::
  "ctx \<Rightarrow> position_amount dict \<Rightarrow> position_amount dict \<Rightarrow> string \<Rightarrow> reconciliation_item list result" where
  "compare_position c ours theirs symbol =
     (let left = dict_get ours symbol (no_position symbol);
          right = dict_get theirs symbol (no_position symbol)
      in bindE (compare_sides c QUANTITY_MISMATCH symbol (get_amount (pa_quantity left) (VStr ''0''))
           (get_amount (pa_quantity right) (VStr ''0'')) QUANTUM) (\<lambda>quantity.
         bindE (compare_sides c COST_BASIS_MISMATCH symbol (get_amount (pa_average_cost left) VNone)
           (get_amount (pa_average_cost right) VNone) CENT) (\<lambda>cost.
         Inr (quantity @ cost))))"

section \<open>Executions\<close>

definition effective_of :: "effective_transaction list \<Rightarrow> effective_transaction dict" where
  "effective_of rows = foldl (\<lambda>d t. AList.update (ef_id t) t d) []
     (filter (\<lambda>t. ef_ledger_state t \<noteq> Some ''VOID'') rows)"

text \<open>The effective transaction an execution was booked as, from the metadata of the details.\<close>

definition link_detail ::
  "effective_transaction dict \<Rightarrow> effective_transaction dict \<Rightarrow> detail_row \<Rightarrow> effective_transaction dict result" where
  "link_detail effective linked d =
     (let execution = dict_get (td_metadata d) ''execution_id'' VNone
      in if falsy execution then Inr linked
         else case map_of effective (td_transaction_id d) of
             None \<Rightarrow> Inr linked
           | Some t \<Rightarrow> (case execution of VStr i \<Rightarrow> Inr (AList.update i t linked)
               | _ \<Rightarrow> Inl (ValueError ''Recorded execution identity must be text'')))"

definition linked_of ::
  "effective_transaction dict \<Rightarrow> detail_row list \<Rightarrow> effective_transaction dict result" where
  "linked_of effective details = foldE (link_detail effective) [] details"

text \<open>The fills of all snapshots of the same account, the last report of an execution standing.\<close>

definition account_snapshots :: "string option \<Rightarrow> broker_snapshot list \<Rightarrow> broker_snapshot list" where
  "account_snapshots fingerprint snapshots =
     filter (\<lambda>s. bp_fingerprint (bs_payload s) = fingerprint) snapshots"

definition fills_of :: "broker_snapshot list \<Rightarrow> reconciliation_fill dict" where
  "fills_of snapshots =
     foldl (\<lambda>d f. AList.update (fi_execution_id f) f d) [] (concat (map (bp_fills \<circ> bs_payload) snapshots))"

definition unmatched_fill :: "string \<Rightarrow> reconciliation_fill \<Rightarrow> reconciliation_item" where
  "unmatched_fill snapshot_id f =
     \<lparr>ri_type = UNMATCHED_BROKER_FILL, ri_key = fi_execution_id f, ri_internal = Json VNone,
      ri_external = Fill f, ri_difference = None, ri_snapshot_id = Some snapshot_id\<rparr>"

definition compare_fill ::
  "ctx \<Rightarrow> string \<Rightarrow> effective_transaction dict \<Rightarrow> reconciliation_fill \<Rightarrow> reconciliation_item list result" where
  "compare_fill c snapshot_id linked f =
     (case map_of linked (fi_execution_id f) of
        None \<Rightarrow> Inr [unmatched_fill snapshot_id f]
      | Some pair \<Rightarrow>
          bindE (compare_sides c FILL_QUANTITY_MISMATCH (fi_execution_id f) (get_amount (ef_quantity pair) VNone)
            (Json (fi_quantity f)) QUANTUM) (\<lambda>quantity.
          bindE (compare_sides c FILL_PRICE_MISMATCH (fi_execution_id f) (get_amount (ef_price pair) VNone)
            (Json (fi_price f)) QUANTUM) (\<lambda>price.
          bindE (compare_sides c COMMISSION_MISMATCH (fi_execution_id f) (get_amount (ef_commission pair) VNone)
            (get_amount (fi_commission f) VNone) CENT) (\<lambda>commission.
          Inr (quantity @ price @ commission)))))"

text \<open>The amounts of every payload are validated when it is read.\<close>

definition recorded_amount :: "ctx \<Rightarrow> amount \<Rightarrow> unit result" where
  "recorded_amount c a =
     (if a = None \<or> a = Some VNone then Inr ()
      else bindE (decimal c (the a) ''amount'' False False) (\<lambda>_. Inr ()))"

definition payload_amounts :: "broker_payload \<Rightarrow> amount list" where
  "payload_amounts p = map (Some \<circ> ca_amount) (bp_cash p) @
     concat (map (\<lambda>r. [pa_quantity r, pa_average_cost r]) (bp_positions p)) @
     concat (map (\<lambda>f. [Some (fi_quantity f), Some (fi_price f), fi_commission f]) (bp_fills p))"

definition book_amounts :: "reconciliation_book \<Rightarrow> amount list" where
  "book_amounts b = map (Some \<circ> ca_amount) (bo_cash b) @
     concat (map (\<lambda>r. [pa_quantity r, pa_average_cost r]) (bo_positions b)) @
     concat (map (\<lambda>t. [ef_quantity t, ef_price t, ef_commission t]) (bo_transactions b))"

definition check_amounts :: "ctx \<Rightarrow> amount list \<Rightarrow> unit result" where
  "check_amounts c amounts = bindE (mapE (recorded_amount c) amounts) (\<lambda>_. Inr ())"

definition concatE :: "('a \<Rightarrow> 'b list result) \<Rightarrow> 'a list \<Rightarrow> 'b list result" where
  "concatE f xs = bindE (mapE f xs) (\<lambda>yss. Inr (concat yss))"

text \<open>\<open>walk\<close> is the order in which the keys of a set are visited.\<close>

definition observations ::
  "ctx \<Rightarrow> (string list \<Rightarrow> string list) \<Rightarrow> reconciliation_book \<Rightarrow> broker_snapshot \<Rightarrow> broker_snapshot list \<Rightarrow>
   detail_row list \<Rightarrow> reconciliation_item list result" where
  "observations c walk data broker snapshots details =
     (let payload = bs_payload broker;
          cash = cash_of (bo_cash data); broker_cash = cash_of (bp_cash payload);
          positions = positions_of (bo_positions data); broker_positions = positions_of (bp_positions payload)
      in bindE (compare_sides c NAV_MISMATCH ''NAV'' (Json (bo_nav data)) (Number (bs_nav broker)) CENT) (\<lambda>nav.
         bindE (concatE (compare_cash c cash broker_cash) (walk (map fst cash @ map fst broker_cash))) (\<lambda>currencies.
         bindE (concatE (compare_position c positions broker_positions)
           (walk (map fst positions @ map fst broker_positions))) (\<lambda>symbols.
         bindE (linked_of (effective_of (bo_transactions data)) details) (\<lambda>linked.
         bindE (check_amounts c (concat (map (payload_amounts \<circ> bs_payload)
           (account_snapshots (bp_fingerprint payload) snapshots)))) (\<lambda>_.
         bindE (concatE (compare_fill c (bs_id broker) linked)
           (map snd (fills_of (account_snapshots (bp_fingerprint payload) snapshots)))) (\<lambda>fills.
         Inr (nav @ currencies @ symbols @ fills))))))))"

section \<open>The table of breaks\<close>

datatype break_state = BREAK_OPEN | BREAK_RESOLVED | BREAK_ACCEPTED

record break_row =
  br_id :: string
  br_portfolio_id :: string
  br_snapshot_id :: string
  br_type :: break_type
  br_state :: break_state
  br_payload :: reconciliation_item
  br_resolution :: "string option"

datatype break_event =
    BreakCleared string
  | BreakUpdated reconciliation_item reconciliation_item
  | Reconciled string nat
  | BreakReviewed break_state string

record break_db =
  rc_breaks :: "break_row list"
  rc_audit :: "(string \<times> break_event) list"

definition item_key :: "reconciliation_item \<Rightarrow> break_type \<times> string" where
  "item_key x = (ri_type x, ri_key x)"

definition row_key :: "break_row \<Rightarrow> break_type \<times> string" where
  "row_key r = (br_type r, ri_key (br_payload r))"

definition open_breaks :: "string \<Rightarrow> break_row list \<Rightarrow> break_row list" where
  "open_breaks portfolio_id rows =
     filter (\<lambda>r. br_portfolio_id r = portfolio_id \<and> br_state r = BREAK_OPEN) rows"

text \<open>Open breaks that no longer occur are resolved.\<close>

definition gone :: "string \<Rightarrow> reconciliation_item list \<Rightarrow> break_row \<Rightarrow> bool" where
  "gone portfolio_id items r \<longleftrightarrow>
     br_portfolio_id r = portfolio_id \<and> br_state r = BREAK_OPEN \<and> row_key r \<notin> item_key ` set items"

definition clear_breaks ::
  "string \<Rightarrow> string \<Rightarrow> reconciliation_item list \<Rightarrow> break_db \<Rightarrow> break_db" where
  "clear_breaks portfolio_id snapshot_id items db =
     db\<lparr>rc_breaks := map (\<lambda>r. if gone portfolio_id items r then r\<lparr>br_state := BREAK_RESOLVED\<rparr> else r) (rc_breaks db),
        rc_audit := rc_audit db @ map (\<lambda>r. (br_id r, BreakCleared snapshot_id))
          (filter (gone portfolio_id items) (rc_breaks db))\<rparr>"

definition new_break :: "string \<Rightarrow> string \<Rightarrow> string \<Rightarrow> reconciliation_item \<Rightarrow> break_row" where
  "new_break i portfolio_id snapshot_id item =
     \<lparr>br_id = i, br_portfolio_id = portfolio_id, br_snapshot_id = snapshot_id, br_type = ri_type item,
      br_state = BREAK_OPEN, br_payload = item, br_resolution = None\<rparr>"

definition update_break :: "break_row \<Rightarrow> string \<Rightarrow> reconciliation_item \<Rightarrow> break_db \<Rightarrow> break_db" where
  "update_break row snapshot_id item db =
     db\<lparr>rc_breaks := map (\<lambda>r. if br_id r = br_id row
           then r\<lparr>br_payload := item, br_snapshot_id := snapshot_id\<rparr> else r) (rc_breaks db),
        rc_audit := rc_audit db @ [(br_id row, BreakUpdated (br_payload row) item)]\<rparr>"

text \<open>\<open>existing\<close> are the rows that were open when the reconciliation began; \<open>new_id\<close> gives the id of
  the break of an item.\<close>

definition record_item ::
  "(reconciliation_item \<Rightarrow> string) \<Rightarrow> string \<Rightarrow> string \<Rightarrow> break_row list \<Rightarrow> break_db \<times> string list \<Rightarrow>
   reconciliation_item \<Rightarrow> break_db \<times> string list" where
  "record_item new_id portfolio_id snapshot_id existing acc item =
     (case find (\<lambda>r. row_key r = item_key item) existing of
        None \<Rightarrow>
          ((fst acc)\<lparr>rc_breaks := rc_breaks (fst acc) @
             [new_break (new_id item) portfolio_id snapshot_id item]\<rparr>, snd acc @ [new_id item])
      | Some row \<Rightarrow>
          (if br_payload row \<noteq> item then update_break row snapshot_id item (fst acc) else fst acc,
           snd acc @ [br_id row]))"

definition record_items ::
  "(reconciliation_item \<Rightarrow> string) \<Rightarrow> string \<Rightarrow> string \<Rightarrow> reconciliation_item list \<Rightarrow> break_db \<Rightarrow> break_db \<times> string list" where
  "record_items new_id portfolio_id snapshot_id items db =
     foldl (record_item new_id portfolio_id snapshot_id (open_breaks portfolio_id (rc_breaks db)))
       (clear_breaks portfolio_id snapshot_id items db, []) items"

datatype reconciliation_state = BROKER_NOT_CONNECTED | BREAKS | MATCHED

record reconciliation_result =
  rr_state :: reconciliation_state
  rr_source :: string
  rr_items :: "(string \<times> reconciliation_item) list"
  rr_broker_as_of :: "int option"
  rr_internal_as_of :: string

definition settle_items ::
  "(reconciliation_item \<Rightarrow> string) \<Rightarrow> reconciliation_book \<Rightarrow> broker_snapshot \<Rightarrow> reconciliation_item list \<Rightarrow>
   break_db \<Rightarrow> reconciliation_result \<times> break_db" where
  "settle_items new_id data broker items db =
     (case record_items new_id (bo_portfolio_id data) (bs_id broker) items db of
        (db', ids) \<Rightarrow>
          (\<lparr>rr_state = (if items \<noteq> [] then BREAKS else MATCHED), rr_source = bs_source broker,
            rr_items = zip ids items, rr_broker_as_of = Some (bs_as_of broker), rr_internal_as_of = bo_as_of data\<rparr>,
           db'\<lparr>rc_audit := rc_audit db' @
             [(bo_portfolio_id data, Reconciled (bs_id broker) (length items))]\<rparr>))"

definition latest_snapshot :: "string \<Rightarrow> broker_snapshot list \<Rightarrow> broker_snapshot option" where
  "latest_snapshot portfolio_id snapshots =
     (case rev (sort_key bs_as_of (filter (\<lambda>s. bs_portfolio_id s = portfolio_id) snapshots)) of
        [] \<Rightarrow> None | s # _ \<Rightarrow> Some s)"

definition own_snapshots :: "string \<Rightarrow> broker_snapshot list \<Rightarrow> broker_snapshot list" where
  "own_snapshots portfolio_id snapshots =
     sort_key bs_as_of (filter (\<lambda>s. bs_portfolio_id s = portfolio_id) snapshots)"

definition not_connected :: "reconciliation_book \<Rightarrow> reconciliation_result" where
  "not_connected data = \<lparr>rr_state = BROKER_NOT_CONNECTED, rr_source = ''INTERNAL LEDGER'', rr_items = [],
     rr_broker_as_of = None, rr_internal_as_of = bo_as_of data\<rparr>"

definition reconcile ::
  "ctx \<Rightarrow> (string list \<Rightarrow> string list) \<Rightarrow> (reconciliation_item \<Rightarrow> string) \<Rightarrow> reconciliation_book \<Rightarrow>
   broker_snapshot list \<Rightarrow> detail_row list \<Rightarrow> break_db \<Rightarrow> (reconciliation_result \<times> break_db) result" where
  "reconcile c walk new_id data snapshots details db =
     (case latest_snapshot (bo_portfolio_id data) snapshots of
        None \<Rightarrow> Inr (not_connected data, db)
      | Some broker \<Rightarrow>
          bindE (check_amounts c (book_amounts data @ payload_amounts (bs_payload broker))) (\<lambda>_.
          bindE (observations c walk data broker (own_snapshots (bo_portfolio_id data) snapshots) details) (\<lambda>items.
          Inr (settle_items new_id data broker items db))))"

section \<open>Review\<close>

definition resolve_break :: "string \<Rightarrow> break_state \<Rightarrow> string \<Rightarrow> break_db \<Rightarrow> break_db result" where
  "resolve_break i state note db =
     bindE (ensure (i \<in> br_id ` set (rc_breaks db)) (HTTPError 404 ''Break not found'')) (\<lambda>_.
     Inr (db\<lparr>rc_breaks := map (\<lambda>r. if br_id r = i then r\<lparr>br_state := state, br_resolution := Some note\<rparr> else r)
            (rc_breaks db),
          rc_audit := rc_audit db @ [(i, BreakReviewed state note)]\<rparr>))"

end
