(* ===== verification/Reconciliation_Facts.thy ===== *)
theory Reconciliation_Facts
  imports Reconciliation "HOL-Library.Multiset"
begin

text \<open>
  A reconciliation makes the open breaks of a portfolio the differences it observed, one row for
  each, and doing it again changes no row; \<open>MATCHED\<close> means that every figure agrees. A break that a
  reviewer accepts is opened anew by the next reconciliation.
\<close>

section \<open>Keys of the observations\<close>

lemma compare_sides_cases:
  assumes "compare_sides c kind key l r tol = Inr items"
  shows "items = [] \<or> (\<exists>x. items = [x] \<and> item_key x = (kind, key))"
proof -
  from assms obtain left right where "items = compared c kind key l r tol left right"
    by (auto simp: compare_sides_def result_simps)
  then show ?thesis
    by (cases left; cases right) (auto simp: compared_def break_item_def item_key_def)
qed

definition keyed :: "break_type set \<Rightarrow> string set \<Rightarrow> reconciliation_item list \<Rightarrow> bool" where
  "keyed T K items \<longleftrightarrow> distinct (map item_key items) \<and> item_key ` set items \<subseteq> T \<times> K"

lemma keyed_compare: "compare_sides c kind key l r tol = Inr items \<Longrightarrow> keyed {kind} {key} items"
  by (auto simp: keyed_def dest: compare_sides_cases)

lemma keyed_mono: "keyed T K items \<Longrightarrow> T \<subseteq> U \<Longrightarrow> keyed U K items"
  by (auto simp: keyed_def)

lemma keyed_append:
  assumes "keyed T K xs" "keyed U L ys" "T \<inter> U = {} \<or> K \<inter> L = {}"
  shows "keyed (T \<union> U) (K \<union> L) (xs @ ys)"
proof -
  have "(T \<times> K) \<inter> (U \<times> L) = {}" using assms(3) by blast
  moreover have "item_key ` set xs \<subseteq> T \<times> K" "item_key ` set ys \<subseteq> U \<times> L"
    using assms(1,2) by (auto simp: keyed_def)
  ultimately have "item_key ` set xs \<inter> item_key ` set ys = {}" by blast
  with assms(1,2) show ?thesis by (auto simp: keyed_def)
qed

lemma concatE_Cons: "concatE f (x # xs) = bindE (f x) (\<lambda>ys. bindE (concatE f xs) (\<lambda>zs. Inr (ys @ zs)))"
  by (cases "f x"; cases "mapE f xs") (simp_all add: concatE_def)

lemma keyed_concatE:
  assumes "concatE f xs = Inr ys" "\<And>x ys. f x = Inr ys \<Longrightarrow> keyed T {g x} ys" "distinct (map g xs)"
  shows "keyed T (g ` set xs) ys"
  using assms(1,3)
proof (induction xs arbitrary: ys)
  case Nil
  then show ?case by (simp add: concatE_def keyed_def)
next
  case (Cons x xs)
  then obtain a b where ab: "f x = Inr a" "concatE f xs = Inr b" "ys = a @ b"
    by (auto simp: concatE_Cons result_simps)
  have "keyed (T \<union> T) ({g x} \<union> g ` set xs) (a @ b)"
    by (rule keyed_append [OF assms(2) [OF ab(1)] Cons.IH [OF ab(2)]]) (use Cons.prems(2) in auto)
  with ab(3) show ?case by simp
qed

lemma keyed_position:
  assumes "compare_position c l r symbol = Inr items"
  shows "keyed {QUANTITY_MISMATCH, COST_BASIS_MISMATCH} {symbol} items"
proof -
  from assms obtain q p where parts: "keyed {QUANTITY_MISMATCH} {symbol} q" "keyed {COST_BASIS_MISMATCH} {symbol} p"
    "items = q @ p"
    by (auto simp: compare_position_def Let_def result_simps dest!: keyed_compare)
  have "keyed ({QUANTITY_MISMATCH} \<union> {COST_BASIS_MISMATCH}) ({symbol} \<union> {symbol}) (q @ p)"
    by (rule keyed_append [OF parts(1,2)]) simp
  then show ?thesis by (auto simp: parts(3) intro: keyed_mono)
qed

definition fill_types :: "break_type set" where
  "fill_types = {UNMATCHED_BROKER_FILL, FILL_QUANTITY_MISMATCH, FILL_PRICE_MISMATCH, COMMISSION_MISMATCH}"

lemma keyed_fill: "compare_fill c sid linked f = Inr items \<Longrightarrow> keyed fill_types {fi_execution_id f} items"
proof (cases "map_of linked (fi_execution_id f)")
  case None
  assume "compare_fill c sid linked f = Inr items"
  with None show ?thesis
    by (auto simp: compare_fill_def unmatched_fill_def keyed_def item_key_def fill_types_def)
next
  case (Some pair)
  let ?i = "fi_execution_id f"
  assume "compare_fill c sid linked f = Inr items"
  with Some obtain q p m where parts: "keyed {FILL_QUANTITY_MISMATCH} {?i} q" "keyed {FILL_PRICE_MISMATCH} {?i} p"
    "keyed {COMMISSION_MISMATCH} {?i} m" "items = q @ p @ m"
    by (auto simp: compare_fill_def result_simps dest!: keyed_compare)
  have "keyed ({FILL_PRICE_MISMATCH} \<union> {COMMISSION_MISMATCH}) ({?i} \<union> {?i}) (p @ m)"
    by (rule keyed_append [OF parts(2,3)]) simp
  then have "keyed ({FILL_QUANTITY_MISMATCH} \<union> ({FILL_PRICE_MISMATCH} \<union> {COMMISSION_MISMATCH})) ({?i} \<union> ({?i} \<union> {?i})) items"
    unfolding parts(4) by (rule keyed_append [OF parts(1)]) simp
  then show ?thesis by (auto intro: keyed_mono simp: fill_types_def)
qed

lemma fills_of_ids:
  "map fi_execution_id (map snd (fills_of ss)) = map fst (fills_of ss) \<and> distinct (map fst (fills_of ss))"
proof -
  have step: "map fi_execution_id (map snd (AList.update (fi_execution_id f) f d)) = map fst (AList.update (fi_execution_id f) f d)"
    if "map fi_execution_id (map snd d) = map fst d" for f d
    using that by (induction d) auto
  have loop: "map fi_execution_id (map snd (foldl (\<lambda>d f. AList.update (fi_execution_id f) f d) d fs)) =
      map fst (foldl (\<lambda>d f. AList.update (fi_execution_id f) f d) d fs) \<and>
      distinct (map fst (foldl (\<lambda>d f. AList.update (fi_execution_id f) f d) d fs))"
    if "map fi_execution_id (map snd d) = map fst d" "distinct (map fst d)" for d fs
    using that
  proof (induction fs arbitrary: d)
    case (Cons f fs)
    show ?case
      using Cons.IH [OF step [OF Cons.prems(1)] distinct_update_keys [OF Cons.prems(2)]] by simp
  qed simp
  show ?thesis unfolding fills_of_def by (rule loop) simp_all
qed

text \<open>The walk over a set of keys visits each once.\<close>

definition walks :: "(string list \<Rightarrow> string list) \<Rightarrow> bool" where
  "walks walk \<longleftrightarrow> (\<forall>xs. distinct (walk xs) \<and> set (walk xs) = set xs)"

lemma observations_keyed:
  assumes "observations c walk data broker snapshots details = Inr items" "walks walk"
  shows "distinct (map item_key items)"
proof -
  from assms(1) obtain nav cash pos linked fills where items: "items = nav @ cash @ pos @ fills"
    and nav: "compare_sides c NAV_MISMATCH ''NAV'' (Json (bo_nav data)) (Number (bs_nav broker)) CENT = Inr nav"
    and cash: "concatE (compare_cash c (cash_of (bo_cash data)) (cash_of (bp_cash (bs_payload broker))))
      (walk (map fst (cash_of (bo_cash data)) @ map fst (cash_of (bp_cash (bs_payload broker))))) = Inr cash"
    and pos: "concatE (compare_position c (positions_of (bo_positions data)) (positions_of (bp_positions (bs_payload broker))))
      (walk (map fst (positions_of (bo_positions data)) @ map fst (positions_of (bp_positions (bs_payload broker))))) = Inr pos"
    and fills: "concatE (compare_fill c (bs_id broker) linked)
      (map snd (fills_of (account_snapshots (bp_fingerprint (bs_payload broker)) snapshots))) = Inr fills"
    by (auto simp: observations_def result_simps Let_def)
  have "keyed {CASH_MISMATCH} ((\<lambda>x. x) ` set (walk (map fst (cash_of (bo_cash data)) @ map fst (cash_of (bp_cash (bs_payload broker)))))) cash"
    by (rule keyed_concatE [OF cash]) (use assms(2) in \<open>auto simp: compare_cash_def walks_def dest: keyed_compare\<close>)
  moreover have "keyed {QUANTITY_MISMATCH, COST_BASIS_MISMATCH} ((\<lambda>x. x) ` set (walk (map fst (positions_of (bo_positions data))
      @ map fst (positions_of (bp_positions (bs_payload broker)))))) pos"
    by (rule keyed_concatE [OF pos]) (use assms(2) in \<open>auto simp: walks_def dest: keyed_position\<close>)
  moreover have "keyed fill_types (fi_execution_id ` set (map snd (fills_of (account_snapshots (bp_fingerprint (bs_payload broker)) snapshots)))) fills"
    by (rule keyed_concatE [OF fills]) (erule keyed_fill, metis fills_of_ids)
  ultimately show ?thesis
    using keyed_compare [OF nav] by (fastforce simp: items keyed_def fill_types_def)
qed

section \<open>Recording the observations\<close>

definition breaks_ok :: "string \<Rightarrow> break_row list \<Rightarrow> bool" where
  "breaks_ok pf rows \<longleftrightarrow> distinct (map br_id rows) \<and>
     (\<forall>r \<in> set (open_breaks pf rows). br_type r = ri_type (br_payload r)) \<and>
     distinct (map row_key (open_breaks pf rows))"

text \<open>The open breaks as pairs of id and observation, and the id an item will have.\<close>

definition shown :: "string \<Rightarrow> break_row list \<Rightarrow> (string \<times> reconciliation_item) set" where
  "shown pf rows = (\<lambda>r. (br_id r, br_payload r)) ` set (open_breaks pf rows)"

definition id_for :: "(reconciliation_item \<Rightarrow> string) \<Rightarrow> break_row list \<Rightarrow> reconciliation_item \<Rightarrow> string" where
  "id_for new_id existing item =
     (case find (\<lambda>r. row_key r = item_key item) existing of None \<Rightarrow> new_id item | Some r \<Rightarrow> br_id r)"

lemma in_shown: "(i, p) \<in> shown pf rows \<longleftrightarrow>
    (\<exists>r \<in> set rows. br_portfolio_id r = pf \<and> br_state r = BREAK_OPEN \<and> br_id r = i \<and> br_payload r = p)"
  by (auto simp: shown_def open_breaks_def)

definition elsewhere :: "string \<Rightarrow> break_row list \<Rightarrow> break_row list" where
  "elsewhere pf rows = filter (\<lambda>r. br_portfolio_id r \<noteq> pf) rows"

text \<open>The state of the loop: \<open>E\<close> are the rows that were open, \<open>done\<close> the items recorded, \<open>rest\<close> the others.\<close>

definition recording ::
  "(reconciliation_item \<Rightarrow> string) \<Rightarrow> string \<Rightarrow> break_row list \<Rightarrow> break_row list \<Rightarrow> reconciliation_item list \<Rightarrow>
   reconciliation_item list \<Rightarrow> break_db \<times> string list \<Rightarrow> bool" where
  "recording new_id pf start E done rest acc \<longleftrightarrow>
     distinct (map br_id (rc_breaks (fst acc))) \<and>
     br_id ` set (rc_breaks (fst acc)) \<subseteq> br_id ` set start \<union> new_id ` set done \<and>
     shown pf (rc_breaks (fst acc)) = (\<lambda>x. (id_for new_id E x, x)) ` set done \<union>
       {(br_id r, br_payload r) | r. r \<in> set E \<and> row_key r \<in> item_key ` set rest} \<and>
     (\<forall>r \<in> set (open_breaks pf (rc_breaks (fst acc))). br_type r = ri_type (br_payload r)) \<and>
     elsewhere pf (rc_breaks (fst acc)) = elsewhere pf start \<and>
     snd acc = map (id_for new_id E) done"

lemma recording_start:
  assumes "breaks_ok pf (rc_breaks db)" "distinct (map item_key items)"
  shows "recording new_id pf (rc_breaks db) (open_breaks pf (rc_breaks db)) [] items
    (clear_breaks pf sid items db, [])"
proof -
  let ?g = "\<lambda>r. if gone pf items r then r\<lparr>br_state := BREAK_RESOLVED\<rparr> else r"
  have rows: "rc_breaks (clear_breaks pf sid items db) = map ?g (rc_breaks db)"
    by (simp add: clear_breaks_def)
  have opened: "open_breaks pf (map ?g rs) = filter (\<lambda>r. row_key r \<in> item_key ` set items) (open_breaks pf rs)" for rs
    by (induction rs) (auto simp: open_breaks_def gone_def)
  have ids: "map br_id (map ?g rs) = map br_id rs" and same: "elsewhere pf (map ?g rs) = elsewhere pf rs" for rs
    by (induction rs) (auto simp: elsewhere_def gone_def)
  have "br_id ` set (map ?g (rc_breaks db)) = br_id ` set (rc_breaks db)"
    by (metis ids list.set_map)
  moreover have "shown pf (map ?g (rc_breaks db)) =
      {(br_id r, br_payload r) | r. r \<in> set (open_breaks pf (rc_breaks db)) \<and> row_key r \<in> item_key ` set items}"
    by (auto simp: shown_def opened)
  ultimately show ?thesis
    using assms(1) unfolding recording_def fst_conv snd_conv rows ids same
    by (simp add: breaks_ok_def opened)
qed

lemma id_for_other:
  assumes "recording new_id pf start E done (item # rest) acc" "x \<in> set done" "row \<in> set E"
    "row_key row = item_key item" "distinct (map item_key (done @ item # rest))" "distinct (map br_id E)"
    "new_id ` set (done @ item # rest) \<inter> br_id ` set E = {}"
  shows "id_for new_id E x \<noteq> br_id row"
proof (cases "find (\<lambda>r. row_key r = item_key x) E")
  case None
  then show ?thesis using assms(2,3,7) by (auto simp: id_for_def)
next
  case (Some r)
  then have r: "r \<in> set E" "row_key r = item_key x" by (auto simp: find_Some_iff)
  have "item_key item \<notin> item_key ` set done" using assms(5) by simp
  then have "item_key x \<noteq> item_key item" using assms(2) by (metis imageI)
  with r assms(3,4,6) Some show ?thesis by (auto simp: id_for_def distinct_map inj_on_def)
qed

lemma shown_appended: "shown pf (rows @ [new_break i pf sid item]) = insert (i, item) (shown pf rows)"
  by (auto simp: shown_def open_breaks_def new_break_def)

lemma shown_updated:
  assumes "distinct (map br_id rows)" "(br_id row, br_payload row) \<in> shown pf rows"
  shows "shown pf (map (\<lambda>r. if br_id r = br_id row then r\<lparr>br_payload := item, br_snapshot_id := sid\<rparr> else r) rows) =
    insert (br_id row, item) {(i, x) \<in> shown pf rows. i \<noteq> br_id row}"
proof -
  let ?u = "\<lambda>r. if br_id r = br_id row then r\<lparr>br_payload := item, br_snapshot_id := sid\<rparr> else r"
  obtain q where q: "q \<in> set rows" "br_portfolio_id q = pf" "br_state q = BREAK_OPEN" "br_id q = br_id row"
    using assms(2) by (auto simp: in_shown)
  have only: "r = q" if "r \<in> set rows" "br_id r = br_id row" for r
    using assms(1) that q(1,4) by (auto simp: distinct_map inj_on_def)
  show ?thesis
  proof (rule set_eqI, clarify)
    fix i x
    have "(i, x) \<in> shown pf (map ?u rows) \<longleftrightarrow> (\<exists>r \<in> set rows. br_portfolio_id (?u r) = pf \<and>
        br_state (?u r) = BREAK_OPEN \<and> br_id (?u r) = i \<and> br_payload (?u r) = x)"
      unfolding in_shown set_map by blast
    also have "\<dots> \<longleftrightarrow> (i = br_id row \<and> x = item) \<or> ((i, x) \<in> shown pf rows \<and> i \<noteq> br_id row)" (is "?L \<longleftrightarrow> ?R")
    proof
      assume ?L
      then obtain r where r: "r \<in> set rows" "br_portfolio_id (?u r) = pf" "br_state (?u r) = BREAK_OPEN"
        "br_id (?u r) = i" "br_payload (?u r) = x" by blast
      then show ?R by (cases "br_id r = br_id row") (auto simp: in_shown)
    next
      assume ?R
      then show ?L
      proof
        assume "i = br_id row \<and> x = item"
        with q show ?L by (intro bexI [of _ q]) auto
      next
        assume "(i, x) \<in> shown pf rows \<and> i \<noteq> br_id row"
        then show ?L by (auto simp: in_shown)
      qed
    qed
    finally show "(i, x) \<in> shown pf (map ?u rows) \<longleftrightarrow>
        (i, x) \<in> insert (br_id row, item) {(i, x) \<in> shown pf rows. i \<noteq> br_id row}"
      by auto
  qed
qed

lemma shown_unique:
  assumes "distinct (map br_id rows)" "(i, x) \<in> shown pf rows" "(i, y) \<in> shown pf rows"
  shows "x = y"
  using assms by (auto simp: in_shown distinct_map inj_on_def)

lemma filter_map_same:
  "\<forall>r \<in> set rs. P (u r) = P r \<and> (P r \<longrightarrow> u r = r) \<Longrightarrow> filter P (map u rs) = filter P rs"
  by (induction rs) auto

lemma elsewhere_updated:
  assumes "distinct (map br_id rows)" "(br_id row, x) \<in> shown pf rows"
  shows "elsewhere pf (map (\<lambda>r. if br_id r = br_id row then r\<lparr>br_payload := item, br_snapshot_id := sid\<rparr> else r) rows) =
    elsewhere pf rows"
  unfolding elsewhere_def
  by (rule filter_map_same) (use assms in \<open>auto simp: in_shown distinct_map inj_on_def\<close>)

lemma updated_open:
  "open_breaks pf (map (\<lambda>r. if br_id r = i then r\<lparr>br_payload := item, br_snapshot_id := sid\<rparr> else r) rows) =
    map (\<lambda>r. if br_id r = i then r\<lparr>br_payload := item, br_snapshot_id := sid\<rparr> else r) (open_breaks pf rows)"
  by (induction rows) (auto simp: open_breaks_def)

lemma recording_step:
  assumes "recording new_id pf start E done (item # rest) acc" "distinct (map item_key (done @ item # rest))"
    "distinct (map br_id E)" "distinct (map row_key E)" "\<forall>r \<in> set E. br_type r = ri_type (br_payload r)"
    "inj_on new_id (set (done @ item # rest))" "new_id ` set (done @ item # rest) \<inter> br_id ` set start = {}" "br_id ` set E \<subseteq> br_id ` set start"
  shows "recording new_id pf start E (done @ [item]) rest (record_item new_id pf sid E acc item)"
proof -
  obtain db ids where acc: "acc = (db, ids)" by (cases acc)
  have fresh: "new_id ` set (done @ item # rest) \<inter> br_id ` set E = {}"
    using assms(7,8) by blast
  have inv: "distinct (map br_id (rc_breaks db))" "br_id ` set (rc_breaks db) \<subseteq> br_id ` set start \<union> new_id ` set done"
    "shown pf (rc_breaks db) = (\<lambda>x. (id_for new_id E x, x)) ` set done \<union>
       {(br_id r, br_payload r) | r. r \<in> set E \<and> row_key r \<in> item_key ` set (item # rest)}"
    "\<forall>r \<in> set (open_breaks pf (rc_breaks db)). br_type r = ri_type (br_payload r)"
    "elsewhere pf (rc_breaks db) = elsewhere pf start" "ids = map (id_for new_id E) done"
    using assms(1) by (auto simp: recording_def acc)
  have new: "item_key item \<notin> item_key ` set rest" "item_key item \<notin> item_key ` set done"
    using assms(2) by auto
  show ?thesis
  proof (cases "find (\<lambda>r. row_key r = item_key item) E")
    case None
    then have none: "row_key r \<noteq> item_key item" if "r \<in> set E" for r
      using that by (auto simp: find_None_iff)
    have "item \<notin> set done" using new(2) by auto
    then have "new_id item \<notin> new_id ` set done" using inj_on_image_mem_iff [OF assms(6), of item "set done"] by auto
    moreover have "new_id item \<notin> br_id ` set start" using assms(7) by auto
    ultimately have "new_id item \<notin> br_id ` set start \<union> new_id ` set done" by simp
    then have "new_id item \<notin> br_id ` set (rc_breaks db)" by (rule contra_subsetD [OF inv(2)])
    moreover have "record_item new_id pf sid E acc item = (db\<lparr>rc_breaks := rc_breaks db @
        [new_break (new_id item) pf sid item]\<rparr>, ids @ [id_for new_id E item])"
      using None by (simp add: record_item_def id_for_def acc)
    moreover have "br_id (new_break (new_id item) pf sid item) = new_id item"
      "open_breaks pf [new_break (new_id item) pf sid item] = [new_break (new_id item) pf sid item]"
      "elsewhere pf [new_break (new_id item) pf sid item] = []"
      "br_type (new_break (new_id item) pf sid item) = ri_type (br_payload (new_break (new_id item) pf sid item))"
      by (simp_all add: new_break_def open_breaks_def elsewhere_def)
    moreover have "id_for new_id E item = new_id item" using None by (simp add: id_for_def)
    moreover have "{(br_id r, br_payload r) | r. r \<in> set E \<and> row_key r \<in> item_key ` set (item # rest)} =
        {(br_id r, br_payload r) | r. r \<in> set E \<and> row_key r \<in> item_key ` set rest}"
      using none by auto
    ultimately show ?thesis
      using inv unfolding recording_def
      by (auto simp: shown_appended open_breaks_def elsewhere_def)
  next
    case (Some row)
    then have row: "row \<in> set E" "row_key row = item_key item" by (auto simp: find_Some_iff)
    have id: "id_for new_id E item = br_id row" using Some by (simp add: id_for_def)
    have shown: "(br_id row, br_payload row) \<in> shown pf (rc_breaks db)"
      unfolding inv(3) using row by auto
    have other: "id_for new_id E x \<noteq> br_id row" if "x \<in> set done" for x
      by (rule id_for_other [OF assms(1) that row assms(2,3) fresh])
    have apart: "br_id r \<noteq> br_id row" if "r \<in> set E" "row_key r \<in> item_key ` set rest" for r
      using that row new(1) assms(3) by (auto simp: distinct_map inj_on_def)
    have only: "r = row" if "r \<in> set E" "row_key r = item_key item" for r
      using that row assms(4) by (auto simp: distinct_map inj_on_def)
    have target: "insert (br_id row, item) {(i, x) \<in> shown pf (rc_breaks db). i \<noteq> br_id row} =
        (\<lambda>x. (id_for new_id E x, x)) ` set (done @ [item]) \<union>
        {(br_id r, br_payload r) | r. r \<in> set E \<and> row_key r \<in> item_key ` set rest}"
      unfolding inv(3) using other apart only id by auto
    have sub: "br_id ` set (rc_breaks db) \<subseteq> br_id ` set start \<union> new_id ` set (done @ [item])"
      using inv(2) by auto
    let ?u = "\<lambda>r. if br_id r = br_id row then r\<lparr>br_payload := item, br_snapshot_id := sid\<rparr> else r"
    show ?thesis
    proof (cases "br_payload row = item")
      case True
      have "shown pf (rc_breaks db) = insert (br_id row, item) {(i, x) \<in> shown pf (rc_breaks db). i \<noteq> br_id row}"
        using shown True shown_unique [OF inv(1) shown] by auto
      then have "shown pf (rc_breaks db) = (\<lambda>x. (id_for new_id E x, x)) ` set (done @ [item]) \<union>
          {(br_id r, br_payload r) | r. r \<in> set E \<and> row_key r \<in> item_key ` set rest}"
        using target by (rule trans)
      with inv(1,4,5,6) sub Some True id show ?thesis
        by (simp add: recording_def record_item_def acc)
    next
      case False
      have "ri_type (br_payload row) = ri_type item"
        using row assms(5) by (simp add: row_key_def item_key_def)
      then have types: "\<forall>r \<in> set (open_breaks pf (map ?u (rc_breaks db))). br_type r = ri_type (br_payload r)"
        using inv(4) updated_open shown_unique [OF inv(1) shown] by (fastforce simp: open_breaks_def in_shown)
      have "map br_id (map ?u (rc_breaks db)) = map br_id (rc_breaks db)" by simp
      moreover have "elsewhere pf (map ?u (rc_breaks db)) = elsewhere pf (rc_breaks db)"
        by (rule elsewhere_updated [OF inv(1) shown])
      moreover have "br_id ` set (map ?u (rc_breaks db)) = br_id ` set (rc_breaks db)"
        by (metis calculation(1) list.set_map)
      moreover have "shown pf (map ?u (rc_breaks db)) = (\<lambda>x. (id_for new_id E x, x)) ` set (done @ [item]) \<union>
          {(br_id r, br_payload r) | r. r \<in> set E \<and> row_key r \<in> item_key ` set rest}"
        using target by (rule trans [OF shown_updated [OF inv(1) shown]])
      moreover have "record_item new_id pf sid E acc item =
          (update_break row sid item db, ids @ [id_for new_id E item])"
        using Some False id by (simp add: record_item_def acc)
      moreover have "rc_breaks (update_break row sid item db) = map ?u (rc_breaks db)"
        by (simp add: update_break_def)
      ultimately show ?thesis
        using inv(1,5,6) sub types unfolding recording_def by (simp only: fst_conv snd_conv map_append list.map)
    qed
  qed
qed

lemma recording_all:
  assumes "recording new_id pf start E early items acc" "distinct (map item_key (early @ items))"
    "distinct (map br_id E)" "distinct (map row_key E)" "\<forall>r \<in> set E. br_type r = ri_type (br_payload r)"
    "inj_on new_id (set (early @ items))" "new_id ` set (early @ items) \<inter> br_id ` set start = {}" "br_id ` set E \<subseteq> br_id ` set start"
  shows "recording new_id pf start E (early @ items) [] (foldl (record_item new_id pf sid E) acc items)"
  using assms(1,2,6,7)
proof (induction items arbitrary: early acc)
  case (Cons item items)
  from Cons.IH [OF recording_step [OF Cons.prems(1,2) assms(3-5) Cons.prems(3,4) assms(8)]] Cons.prems(2-4)
  show ?case by simp
qed simp

lemma breaks_ok_open:
  assumes "breaks_ok pf rows"
  shows "distinct (map br_id (open_breaks pf rows))" "br_id ` set (open_breaks pf rows) \<subseteq> br_id ` set rows"
  using assms by (auto simp: breaks_ok_def open_breaks_def distinct_map inj_on_def)

lemma record_items_recording:
  assumes "breaks_ok pf (rc_breaks db)" "distinct (map item_key items)" "inj_on new_id (set items)"
    "new_id ` set items \<inter> br_id ` set (rc_breaks db) = {}"
  shows "recording new_id pf (rc_breaks db) (open_breaks pf (rc_breaks db)) items []
    (record_items new_id pf sid items db)"
proof -
  have "recording new_id pf (rc_breaks db) (open_breaks pf (rc_breaks db)) ([] @ items) []
      (foldl (record_item new_id pf sid (open_breaks pf (rc_breaks db))) (clear_breaks pf sid items db, []) items)"
    by (rule recording_all [OF recording_start])
      (use assms breaks_ok_open [OF assms(1)] in \<open>auto simp: breaks_ok_def\<close>)
  then show ?thesis by (simp add: record_items_def)
qed

text \<open>A table whose open breaks are the items, each under its own id.\<close>

lemma recorded_ok:
  assumes "recording new_id pf start E items [] acc" "distinct (map item_key items)"
  shows "breaks_ok pf (rc_breaks (fst acc))"
    "mset (map (\<lambda>r. (br_id r, br_payload r)) (open_breaks pf (rc_breaks (fst acc)))) = mset (zip (snd acc) items)"
proof -
  let ?rows = "open_breaks pf (rc_breaks (fst acc))"
  have inv: "distinct (map br_id (rc_breaks (fst acc)))"
    "shown pf (rc_breaks (fst acc)) = (\<lambda>x. (id_for new_id E x, x)) ` set items"
    "\<forall>r \<in> set ?rows. br_type r = ri_type (br_payload r)" "snd acc = map (id_for new_id E) items"
    using assms(1) by (auto simp: recording_def)
  have ids: "distinct (map br_id ?rows)"
    using inv(1) by (auto simp: open_breaks_def distinct_map inj_on_def)
  have row: "br_payload r \<in> set items \<and> br_id r = id_for new_id E (br_payload r)" if "r \<in> set ?rows" for r
  proof -
    have "(br_id r, br_payload r) \<in> shown pf (rc_breaks (fst acc))" using that by (simp add: shown_def)
    then show ?thesis by (auto simp: inv(2))
  qed
  have "inj_on row_key (set ?rows)"
  proof (rule inj_onI)
    fix r q assume rq: "r \<in> set ?rows" "q \<in> set ?rows" "row_key r = row_key q"
    then have "item_key (br_payload r) = item_key (br_payload q)"
      using inv(3) by (simp add: row_key_def item_key_def)
    then have "br_payload r = br_payload q"
      using row [OF rq(1)] row [OF rq(2)] assms(2) by (auto simp: distinct_map inj_on_def)
    then have "br_id r = br_id q" using row [OF rq(1)] row [OF rq(2)] by simp
    with ids rq(1,2) show "r = q" by (auto simp: distinct_map inj_on_def)
  qed
  with ids have "distinct (map row_key ?rows)" by (simp add: distinct_map)
  with inv(1,3) show "breaks_ok pf (rc_breaks (fst acc))" by (simp add: breaks_ok_def)
  have "distinct (map (\<lambda>r. (br_id r, br_payload r)) ?rows)"
    using ids by (auto simp: distinct_map inj_on_def)
  moreover have zip: "zip (snd acc) items = map (\<lambda>x. (id_for new_id E x, x)) items"
    by (simp add: inv(4) zip_map1 map_zip_map zip_same_conv_map)
  moreover have "distinct (map (\<lambda>x. (id_for new_id E x, x)) items)"
    using assms(2) by (auto simp: distinct_map inj_on_def)
  moreover have "set (map (\<lambda>r. (br_id r, br_payload r)) ?rows) = set (map (\<lambda>x. (id_for new_id E x, x)) items)"
    using inv(2) by (simp add: shown_def)
  ultimately show "mset (map (\<lambda>r. (br_id r, br_payload r)) ?rows) = mset (zip (snd acc) items)"
    by (metis set_eq_iff_mset_eq_distinct)
qed

section \<open>The properties\<close>

lemma reconcileE:
  assumes "reconcile c walk new_id data snapshots details db = Inr (out, db')" "rr_state out \<noteq> BROKER_NOT_CONNECTED"
  obtains broker items where "latest_snapshot (bo_portfolio_id data) snapshots = Some broker"
    "observations c walk data broker (own_snapshots (bo_portfolio_id data) snapshots) details = Inr items"
    "(out, db') = settle_items new_id data broker items db"
  using assms by (auto simp: reconcile_def result_simps not_connected_def split: option.splits)

lemma settle_itemsE:
  assumes "(out, db') = settle_items new_id data broker items db"
  shows "rr_items out = zip (snd (record_items new_id (bo_portfolio_id data) (bs_id broker) items db)) items"
    "rr_state out = (if items \<noteq> [] then BREAKS else MATCHED)"
    "rc_breaks db' = rc_breaks (fst (record_items new_id (bo_portfolio_id data) (bs_id broker) items db))"
    "rc_audit db' = rc_audit (fst (record_items new_id (bo_portfolio_id data) (bs_id broker) items db)) @
       [(bo_portfolio_id data, Reconciled (bs_id broker) (length items))]"
  using assms by (auto simp: settle_items_def split: prod.splits)

lemma length_record_items: "length (snd (record_items new_id pf sid items db)) = length items"
proof -
  have "length (snd (foldl (record_item new_id pf sid E) acc xs)) = length (snd acc) + length xs" for E acc xs
    by (induction xs arbitrary: acc) (auto simp: record_item_def split: option.splits)
  then show ?thesis by (simp add: record_items_def)
qed

lemma settled_items:
  assumes "(out, db') = settle_items new_id data broker items db"
  shows "snd ` set (rr_items out) = set items"
proof -
  have "map snd (rr_items out) = items"
    by (simp add: settle_itemsE(1) [OF assms] length_record_items)
  then show ?thesis by (metis set_map)
qed

text \<open>C39: The table of breaks follows the comparison. After a reconciliation with a broker snapshot the open
  breaks of the portfolio are exactly the items it reports, each observation in one row under the
  reported id, with no two rows for one figure; a break that no longer occurs is no longer open, and
  the rows of other portfolios are untouched. The hypotheses are that this held of the table before,
  that new ids are new and that a set of keys is walked once.\<close>

theorem breaks_are_observations:
  assumes "reconcile c walk new_id data snapshots details db = Inr (out, db')" "rr_state out \<noteq> BROKER_NOT_CONNECTED"
    "walks walk" "breaks_ok (bo_portfolio_id data) (rc_breaks db)" "inj_on new_id (snd ` set (rr_items out))"
    "new_id ` snd ` set (rr_items out) \<inter> br_id ` set (rc_breaks db) = {}"
  shows "mset (map (\<lambda>r. (br_id r, br_payload r)) (open_breaks (bo_portfolio_id data) (rc_breaks db'))) =
      mset (rr_items out) \<and>
    breaks_ok (bo_portfolio_id data) (rc_breaks db') \<and>
    elsewhere (bo_portfolio_id data) (rc_breaks db') = elsewhere (bo_portfolio_id data) (rc_breaks db)"
  using assms(1,2)
proof (rule reconcileE)
  fix broker items
  assume obs: "observations c walk data broker (own_snapshots (bo_portfolio_id data) snapshots) details = Inr items"
    and out: "(out, db') = settle_items new_id data broker items db"
  have keys: "distinct (map item_key items)" by (rule observations_keyed [OF obs assms(3)])
  have "snd ` set (rr_items out) = set items" by (rule settled_items [OF out])
  with assms(5,6) have new: "inj_on new_id (set items)" "new_id ` set items \<inter> br_id ` set (rc_breaks db) = {}"
    by simp_all
  note rec = record_items_recording [OF assms(4) keys new, of "bs_id broker"]
  show ?thesis
    using recorded_ok [OF rec keys] rec by (simp add: settle_itemsE [OF out] recording_def)
qed

lemma record_item_kept:
  assumes "r \<in> set E" "br_id r = i" "br_payload r = item" "br_type r = ri_type item" "distinct (map row_key E)"
  shows "record_item new_id pf sid E acc item = (fst acc, snd acc @ [i])"
proof (cases "find (\<lambda>r. row_key r = item_key item) E")
  case None
  with assms show ?thesis by (auto simp: find_None_iff row_key_def item_key_def)
next
  case (Some q)
  then have "q \<in> set E" "row_key q = item_key item" by (auto simp: find_Some_iff)
  moreover have "row_key r = item_key item" using assms(3,4) by (simp add: row_key_def item_key_def)
  ultimately have "q = r" using assms(1,5) by (auto simp: distinct_map inj_on_def)
  with Some assms show ?thesis by (simp add: record_item_def)
qed

lemma record_items_kept:
  assumes "breaks_ok pf (rc_breaks db)"
    "mset (map (\<lambda>r. (br_id r, br_payload r)) (open_breaks pf (rc_breaks db))) = mset (zip ids items)"
    "length ids = length items"
  shows "record_items new_id pf sid items db = (db, ids)"
proof -
  let ?E = "open_breaks pf (rc_breaks db)"
  have set_eq: "set (map (\<lambda>r. (br_id r, br_payload r)) ?E) = set (zip ids items)"
    using assms(2) by (metis set_mset_mset)
  have payloads: "br_payload r \<in> set items" if "r \<in> set ?E" for r
  proof -
    have "(br_id r, br_payload r) \<in> set (zip ids items)" using that set_eq by auto
    then show ?thesis by (rule set_zip_rightD)
  qed
  have "\<not> gone pf items r" if "r \<in> set (rc_breaks db)" for r
    using that payloads assms(1) by (auto simp: gone_def breaks_ok_def open_breaks_def row_key_def item_key_def)
  then have none: "filter (gone pf items) (rc_breaks db) = []"
    "map (\<lambda>r. if gone pf items r then r\<lparr>br_state := BREAK_RESOLVED\<rparr> else r) (rc_breaks db) = rc_breaks db"
    by (auto simp: filter_empty_conv intro!: map_idI)
  then have clear: "clear_breaks pf sid items db = db" by (simp add: clear_breaks_def)
  have loop: "foldl (record_item new_id pf sid ?E) (db, before) xs = (db, before @ js)"
    if "length js = length xs" "set (zip js xs) \<subseteq> set (zip ids items)" for js xs before
    using that
  proof (induction js xs arbitrary: before rule: list_induct2)
    case (Cons i js x xs)
    then have "(i, x) \<in> set (zip ids items)" by simp
    then have "(i, x) \<in> set (map (\<lambda>r. (br_id r, br_payload r)) ?E)" by (simp only: set_eq)
    then obtain r where r: "r \<in> set ?E" "br_id r = i" "br_payload r = x" by auto
    have "record_item new_id pf sid ?E (db, before) x = (db, before @ [i])"
      using record_item_kept [OF r] r assms(1) by (auto simp: breaks_ok_def)
    with Cons show ?case by simp
  qed simp
  show ?thesis using loop [of ids items "[]"] assms(3) by (simp add: record_items_def clear)
qed

text \<open>Reconciling is idempotent: doing it again with the same valuation, snapshots and details reports the
  same items under the same ids, changes no row of the table and adds nothing to the audit log but
  its own \<open>PORTFOLIO_RECONCILED\<close> record.\<close>

theorem reconcile_again:
  assumes "reconcile c walk new_id data snapshots details db = Inr (out, db')" "rr_state out \<noteq> BROKER_NOT_CONNECTED"
    "walks walk" "breaks_ok (bo_portfolio_id data) (rc_breaks db)" "inj_on new_id (snd ` set (rr_items out))"
    "new_id ` snd ` set (rr_items out) \<inter> br_id ` set (rc_breaks db) = {}"
  shows "\<exists>db''. reconcile c walk other_id data snapshots details db' = Inr (out, db'') \<and>
    rc_breaks db'' = rc_breaks db' \<and> length (rc_audit db'') = Suc (length (rc_audit db'))"
  using assms(1,2)
proof (rule reconcileE)
  fix broker items
  assume latest: "latest_snapshot (bo_portfolio_id data) snapshots = Some broker"
    and obs: "observations c walk data broker (own_snapshots (bo_portfolio_id data) snapshots) details = Inr items"
    and out: "(out, db') = settle_items new_id data broker items db"
  let ?pf = "bo_portfolio_id data"
  have keys: "distinct (map item_key items)" by (rule observations_keyed [OF obs assms(3)])
  have "snd ` set (rr_items out) = set items" by (rule settled_items [OF out])
  with assms(5,6) have new: "inj_on new_id (set items)" "new_id ` set items \<inter> br_id ` set (rc_breaks db) = {}"
    by simp_all
  note rec = record_items_recording [OF assms(4) keys new, of "bs_id broker"]
  let ?ids = "snd (record_items new_id ?pf (bs_id broker) items db)"
  have "length ?ids = length items" using rec by (simp add: recording_def)
  then have again: "record_items other_id ?pf (bs_id broker) items db' = (db', ?ids)"
    using recorded_ok [OF rec keys] by (intro record_items_kept) (simp_all add: settle_itemsE(3) [OF out])
  obtain out2 db'' where second: "settle_items other_id data broker items db' = (out2, db'')" by fastforce
  have "out2 = out"
    using second out again by (auto simp: settle_items_def split: prod.splits)
  moreover have "reconcile c walk other_id data snapshots details db' = Inr (out2, db'')"
    using assms(1) latest obs by (auto simp: reconcile_def result_simps second)
  ultimately show ?thesis
    using settle_itemsE(3,4) [OF second [symmetric]] again by auto
qed

section \<open>Agreement\<close>

definition agrees :: "ctx \<Rightarrow> rat \<Rightarrow> side \<Rightarrow> side \<Rightarrow> bool" where
  "agrees c tol l r \<longleftrightarrow> (\<exists>x y. observed_side c l = Inr (Some x) \<and> observed_side c r = Inr (Some y) \<and>
     dabs c (dsub c x y) \<le> tol)"

lemma compare_agrees: "compare_sides c kind key l r tol = Inr items \<Longrightarrow> items = [] \<longleftrightarrow> agrees c tol l r"
proof -
  assume "compare_sides c kind key l r tol = Inr items"
  then obtain left right where "observed_side c l = Inr left" "observed_side c r = Inr right"
    "items = compared c kind key l r tol left right"
    by (auto simp: compare_sides_def result_simps)
  then show ?thesis by (cases left; cases right) (auto simp: compared_def agrees_def not_less)
qed

lemma concatE_Nil_iff:
  assumes "concatE f xs = Inr ys" "\<And>x zs. x \<in> set xs \<Longrightarrow> f x = Inr zs \<Longrightarrow> zs = [] \<longleftrightarrow> P x"
  shows "ys = [] \<longleftrightarrow> (\<forall>x \<in> set xs. P x)"
  using assms
proof (induction xs arbitrary: ys)
  case (Cons x xs)
  then obtain a b where ab: "f x = Inr a" "concatE f xs = Inr b" "ys = a @ b"
    by (auto simp: concatE_Cons result_simps)
  have "b = [] \<longleftrightarrow> (\<forall>x \<in> set xs. P x)" by (rule Cons.IH [OF ab(2)]) (use Cons.prems(2) in auto)
  moreover have "a = [] \<longleftrightarrow> P x" using Cons.prems(2) ab(1) by simp
  ultimately show ?case using ab(3) by simp
qed (simp add: concatE_def)

text \<open>Agreement of the two sides of a currency, of a symbol and of an execution.\<close>

definition cash_agrees :: "ctx \<Rightarrow> reconciliation_book \<Rightarrow> broker_payload \<Rightarrow> string \<Rightarrow> bool" where
  "cash_agrees c data payload currency \<longleftrightarrow>
     agrees c CENT (Json (dict_get (cash_of (bo_cash data)) currency (VStr ''0'')))
       (Json (dict_get (cash_of (bp_cash payload)) currency (VStr ''0'')))"

definition position_agrees :: "ctx \<Rightarrow> reconciliation_book \<Rightarrow> broker_payload \<Rightarrow> string \<Rightarrow> bool" where
  "position_agrees c data payload symbol \<longleftrightarrow>
     (let l = dict_get (positions_of (bo_positions data)) symbol (no_position symbol);
          r = dict_get (positions_of (bp_positions payload)) symbol (no_position symbol)
      in agrees c QUANTUM (get_amount (pa_quantity l) (VStr ''0'')) (get_amount (pa_quantity r) (VStr ''0'')) \<and>
         agrees c CENT (get_amount (pa_average_cost l) VNone) (get_amount (pa_average_cost r) VNone))"

definition fill_agrees :: "ctx \<Rightarrow> effective_transaction dict \<Rightarrow> reconciliation_fill \<Rightarrow> bool" where
  "fill_agrees c linked f \<longleftrightarrow>
     (\<exists>t. map_of linked (fi_execution_id f) = Some t \<and>
        agrees c QUANTUM (get_amount (ef_quantity t) VNone) (Json (fi_quantity f)) \<and>
        agrees c QUANTUM (get_amount (ef_price t) VNone) (Json (fi_price f)) \<and>
        agrees c CENT (get_amount (ef_commission t) VNone) (get_amount (fi_commission f) VNone))"

lemma fill_Nil_iff: "compare_fill c sid linked f = Inr items \<Longrightarrow> items = [] \<longleftrightarrow> fill_agrees c linked f"
  by (auto simp: compare_fill_def fill_agrees_def result_simps dest!: compare_agrees split: option.splits)

lemma position_Nil_iff:
  assumes "compare_position c (positions_of (bo_positions data)) (positions_of (bp_positions payload)) symbol = Inr items"
  shows "items = [] \<longleftrightarrow> position_agrees c data payload symbol"
  using assms by (auto simp: compare_position_def position_agrees_def Let_def result_simps dest!: compare_agrees)

lemma observations_Nil_iff:
  assumes "observations c walk data broker snapshots details = Inr items" "walks walk"
    "linked_of (effective_of (bo_transactions data)) details = Inr linked"
  shows "items = [] \<longleftrightarrow>
    agrees c CENT (Json (bo_nav data)) (Number (bs_nav broker)) \<and>
    (\<forall>currency \<in> fst ` set (cash_of (bo_cash data)) \<union> fst ` set (cash_of (bp_cash (bs_payload broker))).
       cash_agrees c data (bs_payload broker) currency) \<and>
    (\<forall>symbol \<in> fst ` set (positions_of (bo_positions data)) \<union> fst ` set (positions_of (bp_positions (bs_payload broker))).
       position_agrees c data (bs_payload broker) symbol) \<and>
    (\<forall>f \<in> snd ` set (fills_of (account_snapshots (bp_fingerprint (bs_payload broker)) snapshots)). fill_agrees c linked f)"
proof -
  from assms(1,3) obtain nav cash pos fills where items: "items = nav @ cash @ pos @ fills"
    and nav: "compare_sides c NAV_MISMATCH ''NAV'' (Json (bo_nav data)) (Number (bs_nav broker)) CENT = Inr nav"
    and cash: "concatE (compare_cash c (cash_of (bo_cash data)) (cash_of (bp_cash (bs_payload broker))))
      (walk (map fst (cash_of (bo_cash data)) @ map fst (cash_of (bp_cash (bs_payload broker))))) = Inr cash"
    and pos: "concatE (compare_position c (positions_of (bo_positions data)) (positions_of (bp_positions (bs_payload broker))))
      (walk (map fst (positions_of (bo_positions data)) @ map fst (positions_of (bp_positions (bs_payload broker))))) = Inr pos"
    and fills: "concatE (compare_fill c (bs_id broker) linked)
      (map snd (fills_of (account_snapshots (bp_fingerprint (bs_payload broker)) snapshots))) = Inr fills"
    by (auto simp: observations_def result_simps Let_def)
  have walk: "set (walk xs) = set xs" for xs using assms(2) by (simp add: walks_def)
  have "cash = [] \<longleftrightarrow> (\<forall>currency \<in> set (walk (map fst (cash_of (bo_cash data)) @ map fst (cash_of (bp_cash (bs_payload broker))))).
      cash_agrees c data (bs_payload broker) currency)"
    by (rule concatE_Nil_iff [OF cash]) (auto simp: compare_cash_def cash_agrees_def dest: compare_agrees)
  moreover have "pos = [] \<longleftrightarrow> (\<forall>symbol \<in> set (walk (map fst (positions_of (bo_positions data))
      @ map fst (positions_of (bp_positions (bs_payload broker))))). position_agrees c data (bs_payload broker) symbol)"
    by (rule concatE_Nil_iff [OF pos]) (auto dest: position_Nil_iff)
  moreover have "fills = [] \<longleftrightarrow> (\<forall>f \<in> set (map snd (fills_of (account_snapshots (bp_fingerprint (bs_payload broker)) snapshots))).
      fill_agrees c linked f)"
    by (rule concatE_Nil_iff [OF fills]) (auto dest: fill_Nil_iff)
  ultimately show ?thesis
    using compare_agrees [OF nav] by (simp add: items walk)
qed

text \<open>C40: \<open>MATCHED\<close> means agreement, and agreement means \<open>MATCHED\<close>: a reconciliation that returns reports
  no break exactly when the two values, every currency and every symbol of either side and every
  recorded fill of the broker account agree, each within its tolerance; a figure missing on either
  side, or an execution that is not booked, is a break.\<close>

theorem matched_is_agreement:
  assumes "reconcile c walk new_id data snapshots details db = Inr (out, db')"
    "latest_snapshot (bo_portfolio_id data) snapshots = Some broker" "walks walk"
    "linked_of (effective_of (bo_transactions data)) details = Inr linked"
  shows "rr_state out = MATCHED \<longleftrightarrow>
    agrees c CENT (Json (bo_nav data)) (Number (bs_nav broker)) \<and>
    (\<forall>currency \<in> fst ` set (cash_of (bo_cash data)) \<union> fst ` set (cash_of (bp_cash (bs_payload broker))).
       cash_agrees c data (bs_payload broker) currency) \<and>
    (\<forall>symbol \<in> fst ` set (positions_of (bo_positions data)) \<union> fst ` set (positions_of (bp_positions (bs_payload broker))).
       position_agrees c data (bs_payload broker) symbol) \<and>
    (\<forall>f \<in> snd ` set (fills_of (account_snapshots (bp_fingerprint (bs_payload broker))
         (own_snapshots (bo_portfolio_id data) snapshots))). fill_agrees c linked f)"
proof -
  from assms(1,2) obtain items where
    obs: "observations c walk data broker (own_snapshots (bo_portfolio_id data) snapshots) details = Inr items"
    and out: "(out, db') = settle_items new_id data broker items db"
    by (auto simp: reconcile_def result_simps)
  have "rr_state out = MATCHED \<longleftrightarrow> items = []"
    by (simp add: settle_itemsE(2) [OF out])
  with observations_Nil_iff [OF obs assms(3,4)] show ?thesis by simp
qed

section \<open>Accepted breaks\<close>

lemma resolve_breakE:
  assumes "resolve_break i st note db = Inr db'"
  shows "rc_breaks db' = map (\<lambda>r. if br_id r = i then r\<lparr>br_state := st, br_resolution := Some note\<rparr> else r) (rc_breaks db)"
  using assms by (auto simp: resolve_break_def result_simps)

lemma accepted_open:
  assumes "resolve_break i BREAK_ACCEPTED note db = Inr db'"
  shows "open_breaks pf (rc_breaks db') = filter (\<lambda>r. br_id r \<noteq> i) (open_breaks pf (rc_breaks db))"
    "map br_id (rc_breaks db') = map br_id (rc_breaks db)"
proof -
  have "open_breaks pf (map (\<lambda>r. if br_id r = i then r\<lparr>br_state := BREAK_ACCEPTED, br_resolution := Some note\<rparr> else r) rs)
      = filter (\<lambda>r. br_id r \<noteq> i) (open_breaks pf rs)" for rs
    by (induction rs) (auto simp: open_breaks_def)
  then show "open_breaks pf (rc_breaks db') = filter (\<lambda>r. br_id r \<noteq> i) (open_breaks pf (rc_breaks db))"
    by (simp add: resolve_breakE [OF assms])
  show "map br_id (rc_breaks db') = map br_id (rc_breaks db)" by (simp add: resolve_breakE [OF assms])
qed

text \<open>A break that a reviewer accepts does not stay accepted. Only open breaks are matched, so as long as
  the difference persists the next reconciliation opens a second break, with the same observation
  under a new id, next to the accepted one.\<close>

theorem accepted_break_reopened:
  assumes "breaks_ok (bo_portfolio_id data) (rc_breaks db)" "r \<in> set (open_breaks (bo_portfolio_id data) (rc_breaks db))"
    "resolve_break (br_id r) BREAK_ACCEPTED note db = Inr db1"
    "reconcile c walk new_id data snapshots details db1 = Inr (out, db2)" "rr_state out \<noteq> BROKER_NOT_CONNECTED"
    "br_payload r \<in> snd ` set (rr_items out)" "walks walk" "inj_on new_id (snd ` set (rr_items out))"
    "new_id ` snd ` set (rr_items out) \<inter> br_id ` set (rc_breaks db1) = {}"
  shows "\<exists>q \<in> set (open_breaks (bo_portfolio_id data) (rc_breaks db2)). br_payload q = br_payload r \<and> br_id q \<noteq> br_id r"
  using assms(4,5)
proof (rule reconcileE)
  fix broker items
  let ?pf = "bo_portfolio_id data"
  let ?E = "open_breaks ?pf (rc_breaks db1)"
  assume obs: "observations c walk data broker (own_snapshots ?pf snapshots) details = Inr items"
    and out: "(out, db2) = settle_items new_id data broker items db1"
  note accepted = accepted_open(1) [OF assms(3), of ?pf] accepted_open(2) [OF assms(3)]
  have keys: "distinct (map item_key items)" by (rule observations_keyed [OF obs assms(7)])
  have items: "snd ` set (rr_items out) = set items" by (rule settled_items [OF out])
  have ok: "breaks_ok ?pf (rc_breaks db1)"
    using assms(1) by (simp add: breaks_ok_def accepted distinct_map_filter)
  have "recording new_id ?pf (rc_breaks db1) ?E items [] (record_items new_id ?pf (bs_id broker) items db1)"
    by (rule record_items_recording [OF ok keys]) (use assms(8,9) items in auto)
  then have shown: "shown ?pf (rc_breaks db2) = (\<lambda>x. (id_for new_id ?E x, x)) ` set items"
    by (simp add: recording_def settle_itemsE(3) [OF out])
  have "(id_for new_id ?E (br_payload r), br_payload r) \<in> shown ?pf (rc_breaks db2)"
    using assms(6) items by (simp add: shown)
  then obtain q where q: "q \<in> set (open_breaks ?pf (rc_breaks db2))" "br_payload q = br_payload r"
    "br_id q = id_for new_id ?E (br_payload r)"
    by (auto simp: shown_def)
  moreover have "id_for new_id ?E (br_payload r) \<noteq> br_id r"
  proof (cases "find (\<lambda>k. row_key k = item_key (br_payload r)) ?E")
    case None
    have "br_id r \<in> br_id ` set (rc_breaks db)" using assms(2) by (auto simp: open_breaks_def)
    then have "br_id r \<in> br_id ` set (rc_breaks db1)" by (metis accepted(2) list.set_map)
    moreover have "new_id (br_payload r) \<in> new_id ` snd ` set (rr_items out)" using assms(6) by (rule imageI)
    ultimately have "new_id (br_payload r) \<noteq> br_id r" using assms(9) by (metis disjoint_iff)
    with None show ?thesis by (simp add: id_for_def)
  next
    case (Some k)
    then have "k \<in> set ?E" by (auto simp: find_Some_iff)
    with Some show ?thesis by (simp add: id_for_def accepted)
  qed
  ultimately show ?thesis by auto
qed

section \<open>The properties on an example\<close>

text \<open>A book that is worth two more than the broker says.\<close>

definition example_book :: reconciliation_book where
  "example_book = \<lparr>bo_portfolio_id = ''pf'', bo_nav = VStr ''100'', bo_as_of = ''t'', bo_cash = [], bo_positions = [],
     bo_transactions = []\<rparr>"

definition example_broker :: "rat \<Rightarrow> broker_snapshot" where
  "example_broker nav = \<lparr>bs_id = ''s'', bs_portfolio_id = ''pf'', bs_as_of = 0, bs_source = ''IBKR'', bs_nav = nav,
     bs_payload = \<lparr>bp_fingerprint = None, bp_cash = [], bp_positions = [], bp_fills = []\<rparr>\<rparr>"

definition no_breaks :: break_db where
  "no_breaks = \<lparr>rc_breaks = [], rc_audit = []\<rparr>"

definition compared_run ::
  "string \<Rightarrow> rat \<Rightarrow> break_db \<Rightarrow> (reconciliation_result \<times> break_db) result" where
  "compared_run i nav db = reconcile exact remdups (\<lambda>x. i) example_book [example_broker nav] [] db"

lemma walks_remdups: "walks remdups"
  by (simp add: walks_def)

lemma compared_runs:
  assumes "\<not> isl (compared_run i nav db)"
  shows "reconcile exact remdups (\<lambda>x. i) example_book [example_broker nav] [] db =
    Inr (fst (projr (compared_run i nav db)), snd (projr (compared_run i nav db)))"
  using assms by (cases "compared_run i nav db") (auto simp: compared_run_def)

lemma example_first:
  "\<not> isl (compared_run ''a'' 98 no_breaks)" "rr_state (fst (projr (compared_run ''a'' 98 no_breaks))) = BREAKS"
  "map br_id (rc_breaks (snd (projr (compared_run ''a'' 98 no_breaks)))) = [''a'']"
  "inj_on (\<lambda>x. ''a'') (snd ` set (rr_items (fst (projr (compared_run ''a'' 98 no_breaks)))))"
proof -
  show "\<not> isl (compared_run ''a'' 98 no_breaks)" by code_simp
  show "rr_state (fst (projr (compared_run ''a'' 98 no_breaks))) = BREAKS" by code_simp
  show "map br_id (rc_breaks (snd (projr (compared_run ''a'' 98 no_breaks)))) = [''a'']" by code_simp
  have "length (rr_items (fst (projr (compared_run ''a'' 98 no_breaks)))) = 1" by code_simp
  then show "inj_on (\<lambda>x. ''a'') (snd ` set (rr_items (fst (projr (compared_run ''a'' 98 no_breaks)))))"
    by (auto simp: length_Suc_conv)
qed

theorem breaks_are_observations_witness:
  "mset (map (\<lambda>r. (br_id r, br_payload r)) (open_breaks ''pf'' (rc_breaks (snd (projr (compared_run ''a'' 98 no_breaks)))))) =
     mset (rr_items (fst (projr (compared_run ''a'' 98 no_breaks))))"
proof -
  have "bo_portfolio_id example_book = ''pf''" by (simp add: example_book_def)
  moreover have "breaks_ok (bo_portfolio_id example_book) (rc_breaks no_breaks)"
    by (simp add: breaks_ok_def no_breaks_def open_breaks_def)
  moreover have "rc_breaks no_breaks = []" by (simp add: no_breaks_def)
  ultimately show ?thesis
    using breaks_are_observations [OF compared_runs [OF example_first(1)] _ walks_remdups] example_first by simp
qed

theorem reconcile_again_witness:
  "\<exists>db''. reconcile exact remdups (\<lambda>x. ''b'') example_book [example_broker 98] []
       (snd (projr (compared_run ''a'' 98 no_breaks))) = Inr (fst (projr (compared_run ''a'' 98 no_breaks)), db'') \<and>
     map br_id (rc_breaks db'') = [''a'']"
proof -
  have "breaks_ok (bo_portfolio_id example_book) (rc_breaks no_breaks)"
    by (simp add: breaks_ok_def no_breaks_def open_breaks_def)
  moreover have "rc_breaks no_breaks = []" by (simp add: no_breaks_def)
  ultimately show ?thesis
    using reconcile_again [OF compared_runs [OF example_first(1)] _ walks_remdups, of "\<lambda>x. ''b''"] example_first
    by auto
qed

theorem matched_is_agreement_witness:
  "\<not> agrees exact CENT (Json (VStr ''100'')) (Number 98)"
proof -
  have "latest_snapshot (bo_portfolio_id example_book) [example_broker 98] = Some (example_broker 98)"
    "linked_of (effective_of (bo_transactions example_book)) [] = Inr []"
    "fst ` set (cash_of (bo_cash example_book)) \<union> fst ` set (cash_of (bp_cash (bs_payload (example_broker 98)))) = {}"
    "fst ` set (positions_of (bo_positions example_book)) \<union> fst ` set (positions_of (bp_positions (bs_payload (example_broker 98)))) = {}"
    "snd ` set (fills_of (account_snapshots (bp_fingerprint (bs_payload (example_broker 98)))
         (own_snapshots (bo_portfolio_id example_book) [example_broker 98]))) = {}"
    "bo_nav example_book = VStr ''100''" "bs_nav (example_broker 98) = 98"
    by code_simp+
  with matched_is_agreement [OF compared_runs [OF example_first(1)] _ walks_remdups, of "example_broker 98" "[]"]
    example_first(2)
  show ?thesis by simp
qed

theorem accepted_break_reopened_witness:
  "\<exists>db1. resolve_break ''a'' BREAK_ACCEPTED ''known timing difference'' (snd (projr (compared_run ''a'' 98 no_breaks))) = Inr db1 \<and>
     (\<exists>q \<in> set (open_breaks ''pf'' (rc_breaks (snd (projr (compared_run ''b'' 98 db1))))). br_id q \<noteq> ''a'')"
proof -
  let ?db = "snd (projr (compared_run ''a'' 98 no_breaks))"
  let ?r = "hd (rc_breaks ?db)"
  let ?db1 = "projr (resolve_break ''a'' BREAK_ACCEPTED ''known timing difference'' ?db)"
  let ?out = "fst (projr (compared_run ''b'' 98 ?db1))"
  have pf: "bo_portfolio_id example_book = ''pf''" by code_simp
  have ok: "breaks_ok ''pf'' (rc_breaks ?db)" by code_simp
  have r: "?r \<in> set (open_breaks ''pf'' (rc_breaks ?db))" "br_id ?r = ''a''" by code_simp+
  have "\<not> isl (resolve_break ''a'' BREAK_ACCEPTED ''known timing difference'' ?db)" by code_simp
  then have resolved: "resolve_break ''a'' BREAK_ACCEPTED ''known timing difference'' ?db = Inr ?db1"
    by (metis isl_def sum.collapse(2))
  have run: "\<not> isl (compared_run ''b'' 98 ?db1)" by code_simp
  have state: "rr_state ?out \<noteq> BROKER_NOT_CONNECTED" by code_simp
  have items: "map snd (rr_items ?out) = [br_payload ?r]" by code_simp
  then have single: "snd ` set (rr_items ?out) = {br_payload ?r}" by (metis list.set(1,2) set_map)
  have ids: "br_id ` set (rc_breaks ?db1) = {''a''}" by code_simp
  show ?thesis
    using accepted_break_reopened [of example_book ?db ?r "''known timing difference''" ?db1, OF _ _ _
        compared_runs [OF run] state _ walks_remdups] ok r resolved single ids pf
    by auto
qed

end
