(* ===== verification/Trade_Recording.thy ===== *)
theory Trade_Recording
  imports Revisions Price_Sources Portfolio_Balances Transaction_Cash
begin

text \<open>
  \<open>PortfolioLedgerService.add\<close> of \<open>portfolio_operations.py\<close>, the only way a transaction enters a
  ledger, in the order of its checks: header, amounts, exchange rate, metadata and provenance, links,
  duplicates, account, the replay of the ledger with the new row, the trade event with its risk
  snapshot and the audit record; and the review of a trade. The valuation on the trade date, ISO
  dates, hashing and fresh identifiers are parameters.
\<close>

section \<open>Tables\<close>

record account_row =
  ac_id :: string
  ac_portfolio_id :: string

record event_payload =
  ep_symbol :: "string option"
  ep_external_reference :: "string option"
  ep_source_file_id :: "string option"
  ep_thesis_id :: pyval
  ep_strategy_id :: pyval
  ep_rationale :: "string option"

datatype review_state = REQUIRES_REVIEW | REVIEWED | FLAGGED

record trade_event_row =
  te_id :: string
  te_created_at :: int
  te_portfolio_id :: string
  te_transaction_id :: string
  te_event_type :: string
  te_source :: string
  te_review_state :: review_state
  te_payload :: event_payload

record trade_breach =
  tb_metric :: string
  tb_severity :: string
  tb_state :: string
  tb_value :: "rat option"
  tb_threshold :: "rat option"
  tb_symbol :: "string option"
  tb_limit_id :: "string option"
  tb_as_of :: "string option"

definition warning :: "string \<Rightarrow> string option \<Rightarrow> trade_breach" where
  "warning metric symbol = \<lparr>tb_metric = metric, tb_severity = ''WARN'', tb_state = ''OPEN'', tb_value = None,
     tb_threshold = None, tb_symbol = symbol, tb_limit_id = None, tb_as_of = None\<rparr>"

text \<open>What is kept of a valuation on the trade date; \<open>{"nav": "0", "beta": None}\<close> when there was none.\<close>

record saved_snapshot =
  sv_nav :: "rat option"
  sv_cash :: "rat option"
  sv_beta :: "rat option"
  sv_gross_exposure :: "rat option"
  sv_positions :: "(string \<times> rat option) list"
  sv_exposures :: "(string \<times> (string \<times> rat option) list) list"
  sv_as_of :: "string option"

record trade_risk_row =
  tk_trade_id :: string
  tk_before :: saved_snapshot
  tk_after :: saved_snapshot
  tk_breaches :: "trade_breach list"

record trade_review_row =
  tw_trade_id :: string
  tw_actor :: "string option"
  tw_state :: review_state
  tw_note :: string

record trade_db =
  tb_ledger :: ledger_db
  tb_instruments :: "instrument_row list"
  tb_accounts :: "account_row list"
  tb_theses :: "string list"
  tb_strategies :: "string list"
  tb_events :: "trade_event_row list"
  tb_risks :: "trade_risk_row list"
  tb_reviews :: "trade_review_row list"

record trade_valuation =
  tv_snapshot :: saved_snapshot
  tv_breaches :: "trade_breach list"
  tv_cash :: "(string \<times> rat) list"

record trade_env =
  ad_now :: int
  ad_today :: date
  ad_timestamps :: timestamps
  ad_read_date :: "string \<Rightarrow> date option"
  ad_fx :: fx_resolver
  ad_storable :: "rat \<Rightarrow> bool"
  ad_decimal_text :: "rat \<Rightarrow> string"
  ad_sha256 :: "string \<Rightarrow> string"
  ad_new_id :: "string \<Rightarrow> string"
  ad_lot_id :: "string \<Rightarrow> string"
  ad_valuation :: "ledger_db \<Rightarrow> string \<Rightarrow> date \<Rightarrow> trade_valuation result"

section \<open>Header\<close>

definition TRANSACTION_TYPES :: "string list" where
  "TRANSACTION_TYPES = map kind_value [DEPOSIT, WITHDRAWAL, BUY, SELL, SHORT, COVER, DIVIDEND, INTEREST,
     COMMISSION, FEE, TAX, FX_CONVERSION, SPLIT, REVERSE_SPLIT, SPINOFF, MERGER, TRANSFER_IN, TRANSFER_OUT,
     OTHER_ADJUSTMENT]"

record trade_header =
  th_kind :: string
  th_day :: date
  th_settle :: date
  th_instrument :: "instrument_row option"
  th_currency :: string

definition read_day :: "trade_env \<Rightarrow> string \<Rightarrow> date result" where
  "read_day env s = found (ValueError ''Invalid isoformat string'') (ad_read_date env (take 10 s))"

definition settle_day :: "trade_env \<Rightarrow> pyval dict \<Rightarrow> date \<Rightarrow> date result" where
  "settle_day env payload day =
     (if falsy (meta_get payload ''settle_date'') then Inr day
      else read_day env (py_str (meta_get payload ''settle_date'')))"

definition by_symbol :: "trade_db \<Rightarrow> string \<Rightarrow> instrument_row option" where
  "by_symbol db symbol = find (\<lambda>i. in_symbol i = symbol) (tb_instruments db)"

definition traded_instrument :: "trade_db \<Rightarrow> pyval dict \<Rightarrow> instrument_row option result" where
  "traded_instrument db payload =
     (let symbol = meta_get payload ''symbol'' in
      if falsy symbol then Inr None
      else bindE (found (ValueError ''Unknown security; map the instrument before import'')
        (by_symbol db (str_upper (py_str symbol)))) (\<lambda>i. Inr (Some i)))"

definition trade_currency :: "portfolio_row \<Rightarrow> instrument_row option \<Rightarrow> pyval dict \<Rightarrow> string" where
  "trade_currency portfolio instrument payload =
     str_upper (if falsy (meta_get payload ''currency'')
       then (case instrument of Some i \<Rightarrow> in_currency i | None \<Rightarrow> po_base_currency portfolio)
       else py_str (meta_get payload ''currency''))"

definition trade_header_of ::
  "trade_env \<Rightarrow> trade_db \<Rightarrow> portfolio_row \<Rightarrow> profile_row \<Rightarrow> pyval dict \<Rightarrow> trade_header result" where
  "trade_header_of env db portfolio profile payload =
     (let kind = str_upper (py_str (dict_get payload ''transaction_type'' (VStr []))) in
      bindE (ensure (kind \<in> set TRANSACTION_TYPES) (ValueError ''Unknown transaction type'')) (\<lambda>_.
      bindE (read_day env (py_str (dict_get payload ''trade_date'' (VStr [])))) (\<lambda>day.
      bindE (ensure (day \<le> ad_today env)
        (ValueError ''Future-dated ledger transactions are not accepted'')) (\<lambda>_.
      bindE (settle_day env payload day) (\<lambda>settle.
      bindE (ensure (day \<le> settle) (ValueError ''Settlement date cannot precede trade date'')) (\<lambda>_.
      bindE (traded_instrument db payload) (\<lambda>instrument.
      let currency = trade_currency portfolio instrument payload in
      bindE (ensure (currency \<in> set CURRENCIES \<and>
          (case instrument of Some i \<Rightarrow> currency = in_currency i | None \<Rightarrow> True))
        (ValueError ''Unsupported currency or currency does not match instrument'')) (\<lambda>_.
      bindE (ensure (kind = ''SHORT'' \<longrightarrow>
          \<not> falsy (dict_get (pr_configuration profile) ''allow_short'' (VBool False)))
        (ValueError ''Short positions are disabled in this portfolio policy'')) (\<lambda>_.
      Inr \<lparr>th_kind = kind, th_day = day, th_settle = settle, th_instrument = instrument,
           th_currency = currency\<rparr>)))))))))"

section \<open>Amounts\<close>

record trade_amounts =
  ta_quantity :: rat
  ta_price :: rat
  ta_fee :: rat
  ta_commission :: rat
  ta_tax :: rat
  ta_multiplier :: rat
  ta_amount :: rat

definition trade_notional :: "ctx \<Rightarrow> rat \<Rightarrow> rat \<Rightarrow> rat \<Rightarrow> rat" where
  "trade_notional c quantity price multiplier = dmul c (dmul c quantity price) multiplier"

text \<open>\<open>amount or gross_amount or quantity * price * multiplier\<close>.\<close>

definition gross_of :: "ctx \<Rightarrow> pyval dict \<Rightarrow> rat \<Rightarrow> rat result" where
  "gross_of c payload product =
     (if \<not> falsy (meta_get payload ''amount'')
      then stored_decimal c (meta_get payload ''amount'') ''gross amount'' False True
      else if \<not> falsy (meta_get payload ''gross_amount'')
      then stored_decimal c (meta_get payload ''gross_amount'') ''gross amount'' False True
      else stored_decimal_of c product ''gross amount'' False True)"

definition number_of ::
  "ctx \<Rightarrow> pyval dict \<Rightarrow> string \<Rightarrow> string \<Rightarrow> string \<Rightarrow> bool \<Rightarrow> bool \<Rightarrow> rat result" where
  "number_of c payload field missing name positive nonnegative =
     stored_decimal c (dict_get payload field (VNum missing)) name positive nonnegative"

definition trade_amounts_of :: "ctx \<Rightarrow> string \<Rightarrow> pyval dict \<Rightarrow> trade_amounts result" where
  "trade_amounts_of c kind payload =
     bindE (number_of c payload ''quantity'' ''0'' ''quantity'' False True) (\<lambda>quantity.
     bindE (number_of c payload ''price'' ''0'' ''price'' False True) (\<lambda>price.
     bindE (number_of c payload ''fee'' ''0'' ''fee'' False True) (\<lambda>fee.
     bindE (number_of c payload ''commission'' ''0'' ''commission'' False True) (\<lambda>commission.
     bindE (number_of c payload ''tax'' ''0'' ''tax'' False True) (\<lambda>tax.
     bindE (number_of c payload ''contract_multiplier'' ''1'' ''multiplier'' True False) (\<lambda>multiplier.
     bindE (gross_of c payload (trade_notional c quantity price multiplier)) (\<lambda>amount.
     bindE (ensure (kind \<in> {''BUY'', ''SELL'', ''SHORT'', ''COVER''} \<longrightarrow>
         amount = trade_notional c quantity price multiplier)
       (ValueError ''Gross amount must equal quantity times price times multiplier'')) (\<lambda>_.
     bindE (ensure (\<not> (kind \<in> {''COMMISSION'', ''FEE'', ''TAX''} \<and> amount \<noteq> 0 \<and>
         dadd c (dadd c fee commission) tax \<noteq> 0))
       (ValueError ''Supply one expense amount, not both amount and charge fields'')) (\<lambda>_.
     Inr \<lparr>ta_quantity = quantity, ta_price = price, ta_fee = fee, ta_commission = commission,
          ta_tax = tax, ta_multiplier = multiplier, ta_amount = amount\<rparr>)))))))))"

section \<open>Exchange rate\<close>

text \<open>The rate and its source; the rate resolved from observations still has all its digits.\<close>

definition transaction_fx ::
  "ctx \<Rightarrow> trade_env \<Rightarrow> string \<Rightarrow> string \<Rightarrow> date \<Rightarrow> pyval \<Rightarrow> (rat \<times> string) result" where
  "transaction_fx c env base currency day given =
     (if currency = base
      then if given = VNone then Inr (1, ''IDENTITY'')
        else bindE (decimal c given ''amount'' False False) (\<lambda>x.
             bindE (ensure (x = 1) (ValueError ''Base-currency FX must equal one'')) (\<lambda>_.
             Inr (1, ''IDENTITY'')))
      else if given \<noteq> VNone
      then bindE (stored_decimal c given ''transaction FX'' True False) (\<lambda>x.
             Inr (x, ''USER PROVIDED TRANSACTION FX''))
      else (case resolve_fx c (ad_fx env) currency base (close_of_day day) of
          (None, p) \<Rightarrow> Inl (ValueError ''Missing transaction FX; supply an explicit recorded exchange rate'')
        | (Some x, p) \<Rightarrow> Inr (x, pv_source p)))"

definition given_metadata :: "pyval dict \<Rightarrow> pyval dict result" where
  "given_metadata payload =
     (case meta_get payload ''metadata'' of
        VDict d \<Rightarrow> Inr (AList.delete ''fx_recording'' d)
      | v \<Rightarrow> if falsy v then Inr [] else Inl (TypeError ''metadata''))"

text \<open>A resolved rate is recorded with eight decimals, next to the one observed.\<close>

definition recorded_fx ::
  "ctx \<Rightarrow> trade_env \<Rightarrow> bool \<Rightarrow> rat \<Rightarrow> pyval dict \<Rightarrow> (rat \<times> pyval dict) result" where
  "recorded_fx c env observed fx metadata =
     (if observed
      then bindE (money (Fin fx) 8) (\<lambda>rounded.
           bindE (stored_decimal_of c rounded ''recorded transaction FX'' True False) (\<lambda>x.
           Inr (x, AList.update ''fx_recording'' (VDict [(''observed_rate'', VStr (ad_decimal_text env fx)),
             (''recorded_rate'', VStr (ad_decimal_text env x)), (''rounding'', VStr ''ROUND_HALF_EVEN''),
             (''decimal_places'', VNum ''8'')]) metadata)))
      else Inr (fx, metadata))"

record trade_value =
  tu_fx :: rat
  tu_fx_source :: string
  tu_base_value :: rat
  tu_metadata :: "pyval dict"

definition trade_value_of ::
  "ctx \<Rightarrow> trade_env \<Rightarrow> string \<Rightarrow> trade_header \<Rightarrow> trade_amounts \<Rightarrow> pyval dict \<Rightarrow> trade_value result" where
  "trade_value_of c env base h a payload =
     (let given = meta_get payload ''fx_rate_to_base'' in
      bindE (transaction_fx c env base (th_currency h) (th_day h) given) (\<lambda>(fx, fx_source).
      bindE (given_metadata payload) (\<lambda>metadata.
      bindE (recorded_fx c env (th_currency h \<noteq> base \<and> given = VNone) fx metadata) (\<lambda>(fx, metadata).
      bindE (money (Fin (dmul c (ta_amount a) fx)) 8) (\<lambda>base_value.
      bindE (stored_decimal_of c base_value ''stored base value'' False True) (\<lambda>_.
      bindE (validate_storage (ad_storable env)
        [(''quantity'', ta_quantity a), (''price'', ta_price a), (''fee'', ta_fee a),
         (''commission'', ta_commission a), (''tax'', ta_tax a), (''multiplier'', ta_multiplier a),
         (''gross amount'', ta_amount a), (''transaction FX'', fx), (''stored base value'', base_value)]) (\<lambda>_.
      Inr \<lparr>tu_fx = fx, tu_fx_source = fx_source, tu_base_value = base_value, tu_metadata = metadata\<rparr>)))))))"

section \<open>Metadata\<close>

definition METADATA_FIELDS :: "string list" where
  "METADATA_FIELDS = [''to_currency'', ''to_amount'', ''ratio'', ''cost_allocation'', ''exchange_ratio'',
     ''cash_per_share'', ''cash_cost_allocation'', ''reason'', ''direction'', ''thesis_id'', ''strategy_id'',
     ''rationale'']"

definition copied_metadata :: "pyval dict \<Rightarrow> pyval dict \<Rightarrow> pyval dict" where
  "copied_metadata payload metadata =
     foldl (\<lambda>m key. if meta_get payload key \<noteq> VNone then AList.update key (meta_get payload key) m else m)
       metadata METADATA_FIELDS"

definition trade_text :: "pyval \<Rightarrow> string option result" where
  "trade_text v = (case v of VNone \<Rightarrow> Inr None | VStr s \<Rightarrow> Inr (Some s)
     | _ \<Rightarrow> Inl (ValueError ''Input should be a valid string''))"

definition with_destination :: "string \<Rightarrow> pyval dict \<Rightarrow> pyval dict result" where
  "with_destination kind metadata =
     (if kind \<noteq> ''FX_CONVERSION'' then Inr metadata
      else let to_currency = str_upper (py_str (dict_get metadata ''to_currency'' (VStr [])))
        in bindE (ensure (to_currency \<in> set CURRENCIES) (ValueError ''FX destination currency is unknown'')) (\<lambda>_.
           Inr (AList.update ''to_currency'' (VStr to_currency) metadata)))"

definition with_child ::
  "trade_db \<Rightarrow> trade_header \<Rightarrow> pyval dict \<Rightarrow> pyval dict \<Rightarrow> pyval dict result" where
  "with_child db h payload metadata =
     (if th_kind h \<notin> {''SPINOFF'', ''MERGER''} then Inr metadata
      else (case (by_symbol db (str_upper (py_str (dict_get payload ''child_symbol'' (VStr [])))), th_instrument h) of
          (Some child, Some parent) \<Rightarrow>
            if in_currency child = in_currency parent
            then Inr (AList.update ''child_instrument_id'' (VStr (in_id child)) metadata)
            else Inl (ValueError ''Corporate action requires a known child security in the parent currency'')
        | _ \<Rightarrow> Inl (ValueError ''Corporate action requires a known child security in the parent currency'')))"

definition check_link :: "string \<Rightarrow> string list \<Rightarrow> pyval dict \<Rightarrow> unit result" where
  "check_link link ids metadata =
     ensure (falsy (meta_get metadata link) \<or> meta_get metadata link \<in> VStr ` set ids)
       (ValueError (''Unknown '' @ link))"

record trade_notes =
  tn_context :: transaction_context
  tn_metadata :: "pyval dict"
  tn_notes :: "string option"
  tn_rationale :: "string option"

definition or_text :: "string option \<Rightarrow> string option \<Rightarrow> string option" where
  "or_text a b = (if a = None \<or> a = Some [] then b else a)"

definition trade_notes_of ::
  "trade_env \<Rightarrow> trade_db \<Rightarrow> trade_header \<Rightarrow> trade_value \<Rightarrow> pyval dict \<Rightarrow> trade_notes result" where
  "trade_notes_of env db h v payload =
     bindE (record_context (ad_timestamps env) (ad_now env) payload (copied_metadata payload (tu_metadata v))
        (th_day h)) (\<lambda>(context, metadata).
     bindE (trade_text (meta_get payload ''notes'')) (\<lambda>notes.
     bindE (trade_text (meta_get metadata ''rationale'')) (\<lambda>rationale.
     bindE (with_destination (th_kind h) metadata) (\<lambda>metadata.
     bindE (with_child db h payload metadata) (\<lambda>metadata.
     bindE (check_link ''thesis_id'' (tb_theses db) metadata) (\<lambda>_.
     bindE (check_link ''strategy_id'' (tb_strategies db) metadata) (\<lambda>_.
     Inr \<lparr>tn_context = context, tn_metadata = AList.update ''fx_source'' (VStr (tu_fx_source v)) metadata,
          tn_notes = notes, tn_rationale = or_text rationale notes\<rparr>)))))))"

section \<open>Recording\<close>

definition external_key :: "trade_env \<Rightarrow> string \<Rightarrow> string \<Rightarrow> string option \<Rightarrow> string option" where
  "external_key env portfolio_id src reference =
     (case reference of
        Some r \<Rightarrow> if r \<noteq> [] then Some (ad_sha256 env (portfolio_id @ ''|'' @ src @ ''|'' @ r)) else None
      | None \<Rightarrow> None)"

definition duplicate_of :: "trade_db \<Rightarrow> string option \<Rightarrow> string option" where
  "duplicate_of db key =
     (case key of
        None \<Rightarrow> None
      | Some k \<Rightarrow> map_option td_transaction_id
          (find (\<lambda>d. td_external_key d = Some k) (db_details (tb_ledger db))))"

definition trade_account :: "trade_db \<Rightarrow> string \<Rightarrow> pyval dict \<Rightarrow> string option result" where
  "trade_account db portfolio_id payload =
     (let given = meta_get payload ''account_id'' in
      if falsy given
      then Inr (map_option ac_id (find (\<lambda>a. ac_portfolio_id a = portfolio_id) (tb_accounts db)))
      else bindE (found (ValueError ''Account does not belong to portfolio'')
        (find (\<lambda>a. VStr (ac_id a) = given \<and> ac_portfolio_id a = portfolio_id) (tb_accounts db))) (\<lambda>a.
        Inr (Some (ac_id a))))"

definition transaction_of ::
  "trade_env \<Rightarrow> string \<Rightarrow> trade_header \<Rightarrow> trade_amounts \<Rightarrow> trade_value \<Rightarrow> trade_notes \<Rightarrow> string option \<Rightarrow> string \<Rightarrow>
   string option \<Rightarrow> transaction_row" where
  "transaction_of env portfolio_id h a v n account_id src source_file_id =
     \<lparr>tr_id = ad_new_id env ''transaction'', tr_created_at = ad_now env, tr_updated_at = ad_now env,
      tr_portfolio_id = portfolio_id, tr_account_id = account_id,
      tr_instrument_id = map_option in_id (th_instrument h), tr_kind = th_kind h, tr_trade_date = th_day h,
      tr_settle_date = Some (th_settle h), tr_quantity = ta_quantity a, tr_price = ta_price a,
      tr_currency = th_currency h, tr_fx = tu_fx v, tr_fee = ta_fee a, tr_source = src,
      tr_quality = (if source_file_id \<noteq> None \<and> source_file_id \<noteq> Some [] then ''USER PROVIDED'' else ''INTERNAL LEDGER''),
      tr_notes = tn_notes n\<rparr>"

definition trade_detail ::
  "trade_env \<Rightarrow> trade_amounts \<Rightarrow> trade_value \<Rightarrow> trade_notes \<Rightarrow> string option \<Rightarrow> string \<Rightarrow> string option \<Rightarrow>
   detail_row" where
  "trade_detail env a v n key src source_file_id =
     \<lparr>td_transaction_id = ad_new_id env ''transaction'', td_gross_amount = ta_amount a,
      td_commission = ta_commission a, td_tax = ta_tax a, td_multiplier = ta_multiplier a,
      td_base_value = tu_base_value v, td_external_key = key, td_source_file_id = source_file_id,
      td_reconciliation_state = (if src = ''IBKR PAPER'' then ''MATCHED'' else ''INTERNAL_ONLY''),
      td_metadata = AList.update ''external_reference'' (text_or_none (tc_external_reference (tn_context n)))
        (tn_metadata n)\<rparr>"

definition insert_trade :: "transaction_row \<Rightarrow> detail_row \<Rightarrow> ledger_db \<Rightarrow> ledger_db" where
  "insert_trade t d db = db\<lparr>db_transactions := db_transactions db @ [t], db_details := db_details db @ [d]\<rparr>"

text \<open>The full chronological ledger is replayed, including effects on later trades.\<close>

definition replayed_ledger ::
  "ctx \<Rightarrow> trade_env \<Rightarrow> profile_row \<Rightarrow> ledger_db \<Rightarrow> string \<Rightarrow> (entry list \<times> ledger) result" where
  "replayed_ledger c env profile db portfolio_id =
     bindE (load_entries c (ad_timestamps env) (ad_now env) db portfolio_id) (\<lambda>(entries, payloads).
     bindE (from_config (pr_configuration profile)) (\<lambda>policy.
     bindE (replay c (ad_lot_id env) (new_ledger policy) entries) (\<lambda>state.
     Inr (entries, state))))"

definition valuation_before ::
  "ctx \<Rightarrow> trade_env \<Rightarrow> ledger_db \<Rightarrow> string \<Rightarrow> date \<Rightarrow> trade_valuation option result" where
  "valuation_before c env db portfolio_id day =
     bindE (load_entries c (ad_timestamps env) (ad_now env) db portfolio_id) (\<lambda>(existing, payloads).
     if existing \<noteq> [] \<and> Min (insert day (e_day ` set existing)) \<le> day
     then bindE (ad_valuation env db portfolio_id day) (\<lambda>v. Inr (Some v)) else Inr None)"

definition no_snapshot :: saved_snapshot where
  "no_snapshot = \<lparr>sv_nav = Some 0, sv_cash = None, sv_beta = None, sv_gross_exposure = None, sv_positions = [],
     sv_exposures = [], sv_as_of = None\<rparr>"

definition trade_risk_snapshot :: "trade_valuation option \<Rightarrow> saved_snapshot" where
  "trade_risk_snapshot v = (case v of None \<Rightarrow> no_snapshot | Some x \<Rightarrow> tv_snapshot x)"

definition trade_breaches :: "trade_header \<Rightarrow> pyval dict \<Rightarrow> trade_valuation \<Rightarrow> trade_breach list" where
  "trade_breaches h metadata after =
     tv_breaches after @
     (case th_instrument h of
        Some i \<Rightarrow> if th_kind h \<in> {''BUY'', ''SHORT''} \<and> falsy (meta_get metadata ''thesis_id'')
          then [warning ''MISSING_THESIS'' (Some (in_symbol i))]
          else []
      | None \<Rightarrow> []) @
     (if \<exists>row \<in> set (tv_cash after). snd row < 0
      then [warning ''NEGATIVE_CASH'' None] else [])"

definition trade_event ::
  "trade_env \<Rightarrow> string \<Rightarrow> trade_header \<Rightarrow> trade_notes \<Rightarrow> string \<Rightarrow> string option \<Rightarrow> trade_event_row" where
  "trade_event env portfolio_id h n src source_file_id =
     \<lparr>te_id = ad_new_id env ''event'', te_created_at = ad_now env, te_portfolio_id = portfolio_id,
      te_transaction_id = ad_new_id env ''transaction'', te_event_type = th_kind h, te_source = src,
      te_review_state = REQUIRES_REVIEW,
      te_payload = \<lparr>ep_symbol = map_option in_symbol (th_instrument h),
        ep_external_reference = tc_external_reference (tn_context n), ep_source_file_id = source_file_id,
        ep_thesis_id = meta_get (tn_metadata n) ''thesis_id'', ep_strategy_id = meta_get (tn_metadata n) ''strategy_id'',
        ep_rationale = tn_rationale n\<rparr>\<rparr>"

definition trade_audit :: "trade_env \<Rightarrow> string option \<Rightarrow> audit_row" where
  "trade_audit env actor =
     \<lparr>au_id = ad_new_id env ''audit'', au_created_at = ad_now env, au_action = ''LEDGER_TRANSACTION_CREATED'',
      au_resource_type = ''portfolio_transaction'', au_resource_id = ad_new_id env ''transaction'', au_actor = actor\<rparr>"

definition finish_trade ::
  "trade_env \<Rightarrow> trade_header \<Rightarrow> trade_notes \<Rightarrow> string \<Rightarrow> string \<Rightarrow> string option \<Rightarrow> string option \<Rightarrow>
   trade_valuation option \<Rightarrow> trade_valuation \<Rightarrow> ledger_db \<Rightarrow> trade_db \<Rightarrow> trade_db" where
  "finish_trade env h n portfolio_id src source_file_id actor before after ledger db =
     db\<lparr>tb_ledger := ledger\<lparr>db_audit := db_audit ledger @ [trade_audit env actor]\<rparr>,
        tb_events := tb_events db @ [trade_event env portfolio_id h n src source_file_id],
        tb_risks := tb_risks db @ [\<lparr>tk_trade_id = ad_new_id env ''event'', tk_before = trade_risk_snapshot before,
          tk_after = trade_risk_snapshot (Some after), tk_breaches = trade_breaches h (tn_metadata n) after\<rparr>]\<rparr>"

datatype trade_receipt = Duplicate string | Recorded tx_payload payload string

definition cash_view :: "tx_payload \<Rightarrow> payload" where
  "cash_view p = \<lparr>py_id = tx_id p, py_currency = tx_currency p, py_net_amount = None, py_net_base_value = None,
     py_net_cash_base = None, py_net_cash_by_currency = [], py_cash_effect_state = []\<rparr>"

text \<open>The receipt: the transaction as the ledger now shows it, with its cash effects.\<close>

definition receipt_of ::
  "ctx \<Rightarrow> trade_env \<Rightarrow> trade_db \<Rightarrow> string \<Rightarrow> entry list \<Rightarrow> ledger \<Rightarrow> trade_receipt result" where
  "receipt_of c env db portfolio_id entries state =
     bindE (load_entries c (ad_timestamps env) (ad_now env) (tb_ledger db) portfolio_id) (\<lambda>(es, payloads).
     bindE (found StopIteration (find (\<lambda>pq. tx_id (fst pq) = ad_new_id env ''transaction'')
        (zip payloads (enrich_cash_effects c (map cash_view payloads) entries (lg_movements state))))) (\<lambda>pq.
     Inr (Recorded (fst pq) (snd pq) (ad_new_id env ''event''))))"

definition record_trade ::
  "ctx \<Rightarrow> trade_env \<Rightarrow> trade_db \<Rightarrow> profile_row \<Rightarrow> string \<Rightarrow> trade_header \<Rightarrow> trade_notes \<Rightarrow> string \<Rightarrow> string option \<Rightarrow>
   string option \<Rightarrow> transaction_row \<Rightarrow> detail_row \<Rightarrow> (trade_receipt \<times> trade_db) result" where
  "record_trade c env db profile portfolio_id h n src source_file_id actor t d =
     bindE (valuation_before c env (tb_ledger db) portfolio_id (th_day h)) (\<lambda>before.
     let ledger = insert_trade t d (tb_ledger db) in
     bindE (replayed_ledger c env profile ledger portfolio_id) (\<lambda>(entries, state).
     bindE (ad_valuation env ledger portfolio_id (th_day h)) (\<lambda>after.
     let db' = finish_trade env h n portfolio_id src source_file_id actor before after ledger db in
     bindE (receipt_of c env db' portfolio_id entries state) (\<lambda>receipt.
     Inr (receipt, db')))))"

definition add_trade ::
  "ctx \<Rightarrow> trade_env \<Rightarrow> trade_db \<Rightarrow> pyval dict \<Rightarrow> string \<Rightarrow> string \<Rightarrow> string option \<Rightarrow> string option \<Rightarrow>
   (trade_receipt \<times> trade_db) result" where
  "add_trade c env db payload key src source_file_id actor =
     bindE (portfolio_of (tb_ledger db) key) (\<lambda>(portfolio, profile).
     bindE (trade_header_of env db portfolio profile payload) (\<lambda>h.
     bindE (trade_amounts_of c (th_kind h) payload) (\<lambda>a.
     bindE (trade_value_of c env (po_base_currency portfolio) h a payload) (\<lambda>v.
     bindE (trade_notes_of env db h v payload) (\<lambda>n.
     let ext = external_key env (po_id portfolio) src (tc_external_reference (tn_context n)) in
     case duplicate_of db ext of
       Some i \<Rightarrow> Inr (Duplicate i, db)
     | None \<Rightarrow>
         bindE (trade_account db (po_id portfolio) payload) (\<lambda>account_id.
         record_trade c env db profile (po_id portfolio) h n src source_file_id actor
           (transaction_of env (po_id portfolio) h a v n account_id src source_file_id)
           (trade_detail env a v n ext src source_file_id)))))))"

section \<open>Review\<close>

definition review_trade ::
  "trade_env \<Rightarrow> trade_db \<Rightarrow> string \<Rightarrow> review_state \<Rightarrow> string \<Rightarrow> string option \<Rightarrow> trade_db result" where
  "review_trade env db trade_id state note actor =
     bindE (ensure (trade_id \<in> te_id ` set (tb_events db)) (ValueError ''Trade not found'')) (\<lambda>_.
     bindE (ensure (str_strip note \<noteq> []) (ValueError ''A valid review state and note are required'')) (\<lambda>_.
     Inr (db\<lparr>tb_events := map (\<lambda>e. if te_id e = trade_id then e\<lparr>te_review_state := state\<rparr> else e) (tb_events db),
             tb_reviews := tb_reviews db @ [\<lparr>tw_trade_id = trade_id, tw_actor = actor, tw_state = state, tw_note = note\<rparr>],
             tb_ledger := (tb_ledger db)\<lparr>db_audit := db_audit (tb_ledger db) @
               [\<lparr>au_id = ad_new_id env ''audit'', au_created_at = ad_now env, au_action = ''TRADE_REVIEWED'',
                 au_resource_type = ''trade_event'', au_resource_id = trade_id, au_actor = actor\<rparr>]\<rparr>\<rparr>)))"

end
