(* ===== verification/Portfolio_Resources.thy ===== *)
theory Portfolio_Resources
  imports Trade_Facts
begin

text \<open>
  \<open>PortfolioResourceService\<close> of \<open>portfolio_resources.py\<close> with its requests in
  \<open>ledger_contracts.py\<close>: the lookup of a portfolio, its metadata, its creation with an opening
  deposit and the change of its accounting policy. Both write operations end in a replay of the
  ledger under the policy in force, so the book of trades stays replayable while portfolios are
  created and policies change. The text of dates and decimals is a parameter.
\<close>

section \<open>Requests\<close>

record policy_request =
  pp_method :: cost_method
  pp_capitalize_commissions :: bool
  pp_capitalize_fees :: bool
  pp_reason :: string

definition check_policy_request :: "policy_request \<Rightarrow> policy_request result" where
  "check_policy_request rq =
     bindE (ensure (5 \<le> length (pp_reason rq) \<and> length (pp_reason rq) \<le> 2000)
       (ValueError ''String length out of range'')) (\<lambda>_.
     bindE (meaningful_reason (pp_reason rq)) (\<lambda>reason. Inr (rq\<lparr>pp_reason := reason\<rparr>)))"

definition requested_policy :: "policy_request \<Rightarrow> policy" where
  "requested_policy rq = \<lparr>p_method = pp_method rq, p_capitalize_commissions = pp_capitalize_commissions rq,
     p_capitalize_fees = pp_capitalize_fees rq\<rparr>"

record portfolio_request =
  pq_code :: string
  pq_name :: string
  pq_base_currency :: string
  pq_reference_capital :: rat
  pq_opening_date :: date
  pq_benchmark :: string
  pq_allow_short :: bool
  pq_method :: cost_method
  pq_capitalize_commissions :: bool
  pq_capitalize_fees :: bool

definition MAX_REFERENCE_CAPITAL :: rat where
  "MAX_REFERENCE_CAPITAL = 10 ^ 12"

definition code_pattern :: "string \<Rightarrow> bool" where
  "code_pattern s = (case s of
       ch # rest \<Rightarrow> is_upper ch \<and> rest \<noteq> [] \<and> list_all (\<lambda>x. is_upper x \<or> is_digit x \<or> x = CHR ''_'') rest
     | [] \<Rightarrow> False)"

definition nonblank_name :: "string \<Rightarrow> string result" where
  "nonblank_name s =
     (if length (str_strip s) < 2
      then Inl (ValueError ''Portfolio name must contain at least two characters'')
      else Inr (str_strip s))"

definition check_portfolio_request :: "ctx \<Rightarrow> portfolio_request \<Rightarrow> portfolio_request result" where
  "check_portfolio_request c rq =
     bindE (ensure (2 \<le> length (pq_code rq) \<and> length (pq_code rq) \<le> 40 \<and> code_pattern (pq_code rq))
       (ValueError ''String should match pattern'')) (\<lambda>_.
     bindE (ensure (2 \<le> length (pq_name rq) \<and> length (pq_name rq) \<le> 200)
       (ValueError ''String length out of range'')) (\<lambda>_.
     bindE (nonblank_name (pq_name rq)) (\<lambda>name.
     bindE (ensure (length (pq_base_currency rq) = 3 \<and> list_all is_upper (pq_base_currency rq))
       (ValueError ''String should match pattern'')) (\<lambda>_.
     bindE (ensure (0 < pq_reference_capital rq \<and> pq_reference_capital rq \<le> MAX_REFERENCE_CAPITAL)
       (ValueError ''Input out of range'')) (\<lambda>_.
     bindE (stored_decimal_of c (pq_reference_capital rq) ''Opening capital'' True False) (\<lambda>capital.
     bindE (ensure (1 \<le> length (pq_benchmark rq) \<and> length (pq_benchmark rq) \<le> 40)
       (ValueError ''String length out of range'')) (\<lambda>_.
     Inr (rq\<lparr>pq_name := name, pq_reference_capital := capital\<rparr>))))))))"

section \<open>Lookup and metadata\<close>

record resource_env =
  re_trade :: trade_env
  re_iso :: "date \<Rightarrow> string"

definition matching_profiles :: "trade_db \<Rightarrow> string \<Rightarrow> (portfolio_row \<times> profile_row) list" where
  "matching_profiles db key = concat (map (\<lambda>p. map (Pair p)
     (filter (\<lambda>r. pr_portfolio_id r = po_id p \<and> (po_id p = key \<or> pr_code r = key)) (db_profiles (tb_ledger db))))
     (db_portfolios (tb_ledger db)))"

definition resolve :: "trade_db \<Rightarrow> string \<Rightarrow> (portfolio_row \<times> profile_row) result" where
  "resolve db key = (case matching_profiles db key of
       [] \<Rightarrow> Inl (PortfolioNotFound ''Portfolio not found'')
     | [x] \<Rightarrow> Inr x
     | _ \<Rightarrow> Inl MultipleResultsFound)"

record portfolio_view =
  pv_id :: string
  pv_code :: string
  pv_name :: string
  pv_base_currency :: string
  pv_reference_capital :: rat
  pv_is_demo :: bool
  pv_is_default :: bool
  pv_configuration :: "pyval dict"
  pv_policy :: "pyval dict"
  pv_accounts :: "string list"

definition metadata_of :: "trade_db \<Rightarrow> string \<Rightarrow> portfolio_view result" where
  "metadata_of db key =
     bindE (resolve db key) (\<lambda>(portfolio, profile).
     bindE (from_config (pr_configuration profile)) (\<lambda>policy.
     Inr \<lparr>pv_id = po_id portfolio, pv_code = pr_code profile, pv_name = po_name portfolio,
          pv_base_currency = po_base_currency portfolio, pv_reference_capital = po_reference_capital portfolio,
          pv_is_demo = pr_is_demo profile, pv_is_default = po_is_default portfolio,
          pv_configuration = pr_configuration profile, pv_policy = policy_to_dict policy,
          pv_accounts = map ac_id (filter (\<lambda>a. ac_portfolio_id a = po_id portfolio) (tb_accounts db))\<rparr>))"

definition list_portfolios :: "trade_db \<Rightarrow> portfolio_view list result" where
  "list_portfolios db =
     mapE (\<lambda>r. metadata_of db (pr_portfolio_id r)) (sort_key pr_code (db_profiles (tb_ledger db)))"

definition resource_audit :: "resource_env \<Rightarrow> string \<Rightarrow> string \<Rightarrow> string option \<Rightarrow> trade_db \<Rightarrow> trade_db" where
  "resource_audit env action portfolio_id actor db =
     db\<lparr>tb_ledger := (tb_ledger db)\<lparr>db_audit := db_audit (tb_ledger db) @
       [\<lparr>au_id = ad_new_id (re_trade env) ''portfolio-audit'', au_created_at = ad_now (re_trade env),
         au_action = action, au_resource_type = ''portfolio'', au_resource_id = portfolio_id, au_actor = actor\<rparr>]\<rparr>\<rparr>"

section \<open>Creation\<close>

definition opening_policy :: "portfolio_request \<Rightarrow> policy" where
  "opening_policy rq = \<lparr>p_method = pq_method rq, p_capitalize_commissions = pq_capitalize_commissions rq,
     p_capitalize_fees = pq_capitalize_fees rq\<rparr>"

definition new_portfolio_id :: "resource_env \<Rightarrow> string" where
  "new_portfolio_id env = ad_new_id (re_trade env) ''portfolio''"

definition new_portfolio :: "resource_env \<Rightarrow> portfolio_request \<Rightarrow> portfolio_row" where
  "new_portfolio env rq = \<lparr>po_id = new_portfolio_id env, po_name = pq_name rq,
     po_base_currency = pq_base_currency rq, po_reference_capital = pq_reference_capital rq, po_is_default = False\<rparr>"

definition new_profile :: "resource_env \<Rightarrow> portfolio_request \<Rightarrow> profile_row" where
  "new_profile env rq = \<lparr>pr_portfolio_id = new_portfolio_id env, pr_code = pq_code rq, pr_is_demo = False,
     pr_configuration = [(''accounting'', VDict (policy_to_dict (opening_policy rq))),
       (''benchmark'', VStr (pq_benchmark rq)), (''allow_short'', VBool (pq_allow_short rq)),
       (''price_mode'', VStr ''AUTO''), (''opening_date'', VStr (re_iso env (pq_opening_date rq))),
       (''execution_mode'', VStr ''MANUAL'')]\<rparr>"

definition insert_portfolio :: "resource_env \<Rightarrow> portfolio_request \<Rightarrow> trade_db \<Rightarrow> trade_db" where
  "insert_portfolio env rq db =
     db\<lparr>tb_ledger := (tb_ledger db)\<lparr>db_portfolios := db_portfolios (tb_ledger db) @ [new_portfolio env rq],
          db_profiles := db_profiles (tb_ledger db) @ [new_profile env rq]\<rparr>,
        tb_accounts := tb_accounts db @
          [\<lparr>ac_id = ad_new_id (re_trade env) ''account'', ac_portfolio_id = new_portfolio_id env\<rparr>]\<rparr>"

definition opening_deposit :: "resource_env \<Rightarrow> portfolio_request \<Rightarrow> pyval dict" where
  "opening_deposit env rq = [(''transaction_type'', VStr ''DEPOSIT''),
     (''trade_date'', VStr (re_iso env (pq_opening_date rq))), (''currency'', VStr (pq_base_currency rq)),
     (''amount'', VStr (ad_decimal_text (re_trade env) (pq_reference_capital rq))),
     (''notes'', VStr ''Explicit opening capital contribution'')]"

definition check_opening :: "resource_env \<Rightarrow> trade_db \<Rightarrow> portfolio_request \<Rightarrow> unit result" where
  "check_opening env db rq =
     bindE (ensure (pq_opening_date rq \<le> ad_today (re_trade env))
       (ValueError ''Opening date cannot be in the future'')) (\<lambda>_.
     bindE (ensure (pq_base_currency rq \<in> set CURRENCIES) (ValueError ''Base currency is not configured'')) (\<lambda>_.
     bindE (ensure (by_symbol db (pq_benchmark rq) \<noteq> None)
       (ValueError ''Benchmark must be a known security'')) (\<lambda>_.
     ensure (\<not> (pq_code rq = ''KNK_MAIN'' \<or> take 8 (pq_code rq) = ''ARCHIVE_''))
       (ValueError ''Portfolio code is reserved''))))"

definition create_portfolio ::
  "ctx \<Rightarrow> resource_env \<Rightarrow> trade_db \<Rightarrow> portfolio_request \<Rightarrow> string option \<Rightarrow> (portfolio_view \<times> trade_db) result" where
  "create_portfolio c env db rq actor =
     bindE (check_opening env db rq) (\<lambda>_.
     bindE (ensure (pq_code rq \<notin> pr_code ` set (db_profiles (tb_ledger db)))
       (IntegrityError ''portfolio_profiles.code'')) (\<lambda>_.
     bindE (add_trade c (re_trade env) (insert_portfolio env rq db) (opening_deposit env rq)
       (new_portfolio_id env) ''MANUAL'' None actor) (\<lambda>(receipt, db').
     let db'' = resource_audit env ''PORTFOLIO_CREATED'' (new_portfolio_id env) actor db' in
     bindE (metadata_of db'' (new_portfolio_id env)) (\<lambda>view. Inr (view, db'')))))"

section \<open>Change of policy\<close>

definition set_policy :: "string \<Rightarrow> policy \<Rightarrow> trade_db \<Rightarrow> trade_db" where
  "set_policy portfolio_id policy db =
     db\<lparr>tb_ledger := (tb_ledger db)\<lparr>db_profiles := map (\<lambda>r. if pr_portfolio_id r = portfolio_id
        then r\<lparr>pr_configuration := AList.update ''accounting'' (VDict (policy_to_dict policy)) (pr_configuration r)\<rparr>
        else r) (db_profiles (tb_ledger db))\<rparr>\<rparr>"

definition change_policy ::
  "ctx \<Rightarrow> resource_env \<Rightarrow> trade_db \<Rightarrow> string \<Rightarrow> policy_request \<Rightarrow> string option \<Rightarrow>
   (portfolio_view \<times> trade_db) result" where
  "change_policy c env db key rq actor =
     bindE (resolve db key) (\<lambda>(portfolio, profile).
     bindE (from_config (pr_configuration profile)) (\<lambda>before.
     bindE (ensure (policy_to_dict before \<noteq> policy_to_dict (requested_policy rq))
       (ValueError ''Accounting policy is unchanged'')) (\<lambda>_.
     bindE (load_entries c (ad_timestamps (re_trade env)) (ad_now (re_trade env)) (tb_ledger db) (po_id portfolio))
       (\<lambda>(entries, payloads).
     bindE (replay c (ad_lot_id (re_trade env)) (new_ledger (requested_policy rq)) entries) (\<lambda>_.
     let db' = resource_audit env ''ACCOUNTING_POLICY_CHANGED'' (po_id portfolio) actor
                 (set_policy (po_id portfolio) (requested_policy rq) db) in
     bindE (metadata_of db' (po_id portfolio)) (\<lambda>view. Inr (view, db')))))))"

section \<open>The managed book replays\<close>

inductive managed_step :: "(string \<Rightarrow> string) \<Rightarrow> trade_db \<Rightarrow> trade_db \<Rightarrow> bool" for lot where
  recorded: "add_trade (prec 28) env db payload key src file actor = Inr (receipt, db') \<Longrightarrow> fresh_ids env db \<Longrightarrow>
    ad_lot_id env = lot \<Longrightarrow> managed_step lot db db'"
| reviewed: "review_trade env db i state note actor = Inr db' \<Longrightarrow> managed_step lot db db'"
| created: "create_portfolio (prec 28) renv db rq actor = Inr (view, db') \<Longrightarrow> fresh_ids (re_trade renv) db \<Longrightarrow>
    ad_lot_id (re_trade renv) = lot \<Longrightarrow> managed_step lot db db'"
| policy: "change_policy (prec 28) renv db key prq actor = Inr (view, db') \<Longrightarrow>
    ad_lot_id (re_trade renv) = lot \<Longrightarrow> managed_step lot db db'"

lemma from_config_set: "from_config (AList.update ''accounting'' (VDict (policy_to_dict p)) cfg) = Inr p"
  by (cases "p_method p")
    (simp_all add: from_config_def policy_to_dict_def dict_get_def cost_method_of_def
      str_upper_def upper_char_def is_lower_def)

lemma loaded_cong:
  assumes "db_transactions l' = db_transactions l" "db_details l' = db_details l" "db_revisions l' = db_revisions l"
  shows "loaded_entries c l' pf = loaded_entries c l pf"
  using assms by (simp add: loaded_entries_def revisions_of_def ledger_rows_def detail_of_def)

lemma all_replay_profiles:
  assumes "all_replay lot db" "set (db_profiles (tb_ledger db)) \<subseteq> set (db_profiles (tb_ledger db'))"
    "db_transactions (tb_ledger db') = db_transactions (tb_ledger db)"
    "db_details (tb_ledger db') = db_details (tb_ledger db)" "db_revisions (tb_ledger db') = db_revisions (tb_ledger db)"
  shows "all_replay lot db'"
proof -
  have "replays lot (tb_ledger db') pf" if "replays lot (tb_ledger db) pf" for pf
    using that assms(2) unfolding replays_def loaded_cong [OF assms(3-5)] by blast
  with assms(1,3) show ?thesis by (simp add: all_replay_def)
qed

lemma created_replays:
  assumes "create_portfolio (prec 28) renv db rq actor = Inr (view, db')" "fresh_ids (re_trade renv) db"
    "all_replay (ad_lot_id (re_trade renv)) db"
  shows "all_replay (ad_lot_id (re_trade renv)) db'"
proof -
  from assms(1) obtain receipt db1 where a: "add_trade (prec 28) (re_trade renv) (insert_portfolio renv rq db)
      (opening_deposit renv rq) (new_portfolio_id renv) ''MANUAL'' None actor = Inr (receipt, db1)"
    and db': "db' = resource_audit renv ''PORTFOLIO_CREATED'' (new_portfolio_id renv) actor db1"
    by (auto simp: create_portfolio_def result_simps Let_def)
  have "all_replay (ad_lot_id (re_trade renv)) (insert_portfolio renv rq db)"
    by (rule all_replay_profiles [OF assms(3)]) (auto simp: insert_portfolio_def)
  moreover have "fresh_ids (re_trade renv) (insert_portfolio renv rq db)"
    using assms(2) by (simp add: fresh_ids_def insert_portfolio_def)
  ultimately have "all_replay (ad_lot_id (re_trade renv)) db1" using recorded_replays [OF a] by blast
  then show ?thesis by (rule all_replay_profiles) (simp_all add: db' resource_audit_def)
qed

lemma resolve_in:
  "resolve db key = Inr (p, r) \<Longrightarrow> p \<in> set (db_portfolios (tb_ledger db)) \<and>
     r \<in> set (db_profiles (tb_ledger db)) \<and> pr_portfolio_id r = po_id p \<and> (po_id p = key \<or> pr_code r = key)"
proof -
  assume "resolve db key = Inr (p, r)"
  then have "(p, r) \<in> set (matching_profiles db key)" by (auto simp: resolve_def split: list.splits)
  then show ?thesis by (auto simp: matching_profiles_def)
qed

lemma policy_replays:
  assumes "change_policy (prec 28) renv db key rq actor = Inr (view, db')"
    "all_replay (ad_lot_id (re_trade renv)) db"
  shows "all_replay (ad_lot_id (re_trade renv)) db'"
proof -
  let ?policy = "requested_policy rq"
  from assms(1) obtain p r es ps st where r: "resolve db key = Inr (p, r)"
    and l: "load_entries (prec 28) (ad_timestamps (re_trade renv)) (ad_now (re_trade renv)) (tb_ledger db) (po_id p) = Inr (es, ps)"
    and st: "replay (prec 28) (ad_lot_id (re_trade renv)) (new_ledger ?policy) es = Inr st"
    and db': "db' = resource_audit renv ''ACCOUNTING_POLICY_CHANGED'' (po_id p) actor (set_policy (po_id p) ?policy db)"
    by (auto simp: change_policy_def result_simps Let_def)
  note R = resolve_in [OF r]
  have loaded: "loaded_entries c (tb_ledger db') pf = loaded_entries c (tb_ledger db) pf" for c pf
    by (rule loaded_cong) (simp_all add: db' resource_audit_def set_policy_def)
  have profiles: "db_profiles (tb_ledger db') = map (\<lambda>r. if pr_portfolio_id r = po_id p
        then r\<lparr>pr_configuration := AList.update ''accounting'' (VDict (policy_to_dict ?policy)) (pr_configuration r)\<rparr>
        else r) (db_profiles (tb_ledger db))"
    by (simp add: db' resource_audit_def set_policy_def)
  let ?r = "r\<lparr>pr_configuration := AList.update ''accounting'' (VDict (policy_to_dict ?policy)) (pr_configuration r)\<rparr>"
  have "?r \<in> set (db_profiles (tb_ledger db'))" unfolding profiles set_map using R by (intro image_eqI [of _ _ r]) auto
  then have own: "replays (ad_lot_id (re_trade renv)) (tb_ledger db') (po_id p)"
    unfolding replays_def
    by (intro bexI [of _ ?r] exI [of _ es] exI [of _ ?policy] exI [of _ st])
      (use R loaded load_entriesE [OF l] st from_config_set in simp_all)
  have other: "replays (ad_lot_id (re_trade renv)) (tb_ledger db') pf"
    if old: "replays (ad_lot_id (re_trade renv)) (tb_ledger db) pf" and neq: "pf \<noteq> po_id p" for pf
  proof -
    from old obtain x where x: "x \<in> set (db_profiles (tb_ledger db))" "pr_portfolio_id x = pf" and
      rest: "\<exists>entries policy state. loaded_entries (prec 28) (tb_ledger db) pf = Inr entries \<and>
        from_config (pr_configuration x) = Inr policy \<and>
        replay (prec 28) (ad_lot_id (re_trade renv)) (new_ledger policy) entries = Inr state"
      unfolding replays_def by blast
    have "x \<in> set (db_profiles (tb_ledger db'))"
      unfolding profiles set_map using x neq by (intro image_eqI [of _ _ x]) auto
    with x(2) rest show ?thesis unfolding replays_def loaded by blast
  qed
  have "db_transactions (tb_ledger db') = db_transactions (tb_ledger db)"
    by (simp add: db' resource_audit_def set_policy_def)
  with assms(2) own other show ?thesis unfolding all_replay_def by metis
qed

lemma managed_replays: "managed_step lot db db' \<Longrightarrow> all_replay lot db \<Longrightarrow> all_replay lot db'"
  by (induction rule: managed_step.induct)
    (auto intro: recorded_replays reviewed_replays created_replays policy_replays)

lemma managed_reachable: "(managed_step lot)\<^sup>*\<^sup>* db db' \<Longrightarrow> all_replay lot db \<Longrightarrow> all_replay lot db'"
  by (induction rule: rtranclp_induct) (auto intro: managed_replays)

text \<open>A managed book always replays. Whatever portfolios are created, trades recorded and reviewed and
  policies changed, in any order from an empty book, the ledger of every portfolio with a transaction
  loads, the policy stored in its configuration parses, and its entries replay without an error
  under that policy.\<close>

theorem managed_book_replays:
  assumes "(managed_step lot)\<^sup>*\<^sup>* db db'" "empty_books db" "t \<in> set (db_transactions (tb_ledger db'))"
  shows "\<exists>profile \<in> set (db_profiles (tb_ledger db')). \<exists>entries payloads policy state.
     pr_portfolio_id profile = tr_portfolio_id t \<and>
     load_entries (prec 28) ts now (tb_ledger db') (tr_portfolio_id t) = Inr (entries, payloads) \<and>
     from_config (pr_configuration profile) = Inr policy \<and>
     replay (prec 28) lot (new_ledger policy) entries = Inr state"
proof -
  have "all_replay lot db" using assms(2) by (simp add: all_replay_def empty_books_def)
  from managed_reachable [OF assms(1) this] assms(3)
  have "replays lot (tb_ledger db') (tr_portfolio_id t)" by (simp add: all_replay_def)
  then show ?thesis unfolding replays_def by (metis load_entriesI)
qed

section \<open>The opening entry\<close>

lemma opening_header:
  assumes "trade_header_of env db portfolio profile (opening_deposit renv rq) = Inr h"
    and "pq_base_currency rq \<in> set CURRENCIES"
    and "ad_read_date env (take 10 (re_iso renv (pq_opening_date rq))) = Some (pq_opening_date rq)"
  shows "th_kind h = ''DEPOSIT''" "th_day h = pq_opening_date rq" "th_currency h = pq_base_currency rq"
    "th_instrument h = None"
proof -
  have kind: "str_upper (py_str (dict_get (opening_deposit renv rq) ''transaction_type'' (VStr []))) = ''DEPOSIT''"
    by (simp add: opening_deposit_def dict_get_def str_upper_def upper_char_def is_lower_def)
  have day: "py_str (dict_get (opening_deposit renv rq) ''trade_date'' (VStr [])) = re_iso renv (pq_opening_date rq)"
    by (simp add: opening_deposit_def dict_get_def)
  have get: "meta_get (opening_deposit renv rq) ''symbol'' = VNone"
    "meta_get (opening_deposit renv rq) ''currency'' = VStr (pq_base_currency rq)"
    by (simp_all add: opening_deposit_def meta_get_def dict_get_def)
  have upper: "str_upper (pq_base_currency rq) = pq_base_currency rq" "pq_base_currency rq \<noteq> []"
    using assms(2) by (auto simp: CURRENCIES_def str_upper_def upper_char_def is_lower_def)
  have currency: "trade_currency portfolio i (opening_deposit renv rq) = pq_base_currency rq" for i
    using upper by (simp add: trade_currency_def get falsy_def)
  have none: "traded_instrument db (opening_deposit renv rq) = Inr None"
    by (simp add: traded_instrument_def get falsy_def)
  from assms(1,3) show "th_kind h = ''DEPOSIT''" "th_day h = pq_opening_date rq" "th_currency h = pq_base_currency rq"
    "th_instrument h = None"
    unfolding trade_header_of_def kind day none currency Let_def result_simps read_day_def found_Inr
    by auto
qed

lemma opening_amounts:
  assumes "trade_amounts_of (prec 28) ''DEPOSIT'' (opening_deposit renv rq) = Inr a"
    and "parse_decimal (ad_decimal_text (re_trade renv) (pq_reference_capital rq)) = Some (Fin (pq_reference_capital rq))"
  shows "ta_amount a = pq_reference_capital rq" "ta_fee a = 0" "ta_commission a = 0" "ta_tax a = 0"
proof -
  let ?p = "opening_deposit renv rq"
  have get: "meta_get ?p ''amount'' = VStr (ad_decimal_text (re_trade renv) (pq_reference_capital rq))"
    "dict_get ?p ''fee'' v = v" "dict_get ?p ''commission'' v = v" "dict_get ?p ''tax'' v = v" for v
    by (simp_all add: opening_deposit_def meta_get_def dict_get_def)
  have "parse_decimal [] = None" by code_simp
  with assms(2) have given: "\<not> falsy (meta_get ?p ''amount'')" by (auto simp: get falsy_def)
  have zero: "parse_decimal (py_str (VNum ''0'')) = Some (Fin 0)" by code_simp
  from assms(1) obtain q pr f cm tx m x where n: "number_of (prec 28) ?p ''fee'' ''0'' ''fee'' False True = Inr f"
    "number_of (prec 28) ?p ''commission'' ''0'' ''commission'' False True = Inr cm"
    "number_of (prec 28) ?p ''tax'' ''0'' ''tax'' False True = Inr tx"
    and g: "gross_of (prec 28) ?p (trade_notional (prec 28) q pr m) = Inr x"
    and a: "a = \<lparr>ta_quantity = q, ta_price = pr, ta_fee = f, ta_commission = cm, ta_tax = tx, ta_multiplier = m,
      ta_amount = x\<rparr>"
    unfolding trade_amounts_of_def result_simps sum.inject by metis
  have zeros: "y = 0" if "stored_decimal (prec 28) (VNum ''0'') name False True = Inr y" for name y
    using that zero by (auto simp: stored_decimal_def decimal_def check_stored_def result_simps simp del: py_str.simps)
  show "ta_fee a = 0" "ta_commission a = 0" "ta_tax a = 0"
    using n [unfolded number_of_def get] zeros unfolding a by auto
  have "stored_decimal (prec 28) (meta_get ?p ''amount'') ''gross amount'' False True = Inr x"
    using g given by (simp add: gross_of_def)
  then show "ta_amount a = pq_reference_capital rq"
    using assms(2) unfolding a by (auto simp: get stored_decimal_def decimal_def check_stored_def result_simps)
qed

lemma opening_unreferenced:
  assumes h: "trade_header_of env db portfolio profile (opening_deposit renv rq) = Inr h"
    and base: "pq_base_currency rq \<in> set CURRENCIES"
    and iso: "ad_read_date env (take 10 (re_iso renv (pq_opening_date rq))) = Some (pq_opening_date rq)"
    and v: "trade_value_of c env (pq_base_currency rq) h a (opening_deposit renv rq) = Inr v"
    and n: "trade_notes_of env db h v (opening_deposit renv rq) = Inr n"
  shows "tc_external_reference (tn_context n) = None"
proof -
  let ?p = "opening_deposit renv rq"
  have given: "given_metadata ?p = Inr []"
    by (simp add: given_metadata_def opening_deposit_def meta_get_def dict_get_def falsy_def)
  have "tu_metadata v = []"
    using v opening_header(3) [OF h base iso]
    by (auto simp: trade_value_of_def result_simps Let_def given recorded_fx_def)
  moreover have "copied_metadata ?p [] = []"
    by (simp add: copied_metadata_def METADATA_FIELDS_def opening_deposit_def meta_get_def dict_get_def)
  ultimately obtain m where
    "record_context (ad_timestamps env) (ad_now env) ?p [] (th_day h) = Inr (tn_context n, m)"
    using n by (auto simp: trade_notes_of_def result_simps)
  then have k: "check_context (ad_timestamps env) (ad_now env) (context_field ?p []) = Inr (tn_context n)"
    by (auto simp: record_context_def result_simps Let_def)
  have "context_field ?p [] ''external_reference'' = VNone"
    by (simp add: context_field_def opening_deposit_def meta_get_def dict_get_def)
  with check_context_fields(2) [OF k] show ?thesis by (simp add: optional_identifier_def)
qed

text \<open>The identifiers drawn by a creation are new.\<close>

definition fresh_portfolio :: "resource_env \<Rightarrow> trade_db \<Rightarrow> bool" where
  "fresh_portfolio env db \<longleftrightarrow> (let i = new_portfolio_id env; l = tb_ledger db in
     i \<noteq> [] \<and> i \<notin> po_id ` set (db_portfolios l) \<and> i \<notin> pr_portfolio_id ` set (db_profiles l) \<and>
     i \<notin> pr_code ` set (db_profiles l) \<and> i \<notin> tr_portfolio_id ` set (db_transactions l) \<and>
     i \<notin> rv_portfolio_id ` set (db_revisions l) \<and>
     ad_new_id (re_trade env) ''transaction'' \<notin> td_transaction_id ` set (db_details l))"

lemma inserted_simps [simp]:
  "db_portfolios (tb_ledger (insert_portfolio env rq db)) = db_portfolios (tb_ledger db) @ [new_portfolio env rq]"
  "db_profiles (tb_ledger (insert_portfolio env rq db)) = db_profiles (tb_ledger db) @ [new_profile env rq]"
  "db_transactions (tb_ledger (insert_portfolio env rq db)) = db_transactions (tb_ledger db)"
  "db_details (tb_ledger (insert_portfolio env rq db)) = db_details (tb_ledger db)"
  "db_revisions (tb_ledger (insert_portfolio env rq db)) = db_revisions (tb_ledger db)"
  by (simp_all add: insert_portfolio_def)

lemma new_ids [simp]: "po_id (new_portfolio env rq) = new_portfolio_id env"
  "pr_portfolio_id (new_profile env rq) = new_portfolio_id env" "pr_code (new_profile env rq) = pq_code rq"
  "po_base_currency (new_portfolio env rq) = pq_base_currency rq"
  by (simp_all add: new_portfolio_def new_profile_def)

lemma new_config: "from_config (pr_configuration (new_profile env rq)) = Inr (opening_policy rq)"
  by (cases "pq_method rq")
    (simp_all add: new_profile_def opening_policy_def from_config_def policy_to_dict_def dict_get_def
      cost_method_of_def str_upper_def upper_char_def is_lower_def)

lemma only_new:
  assumes "fresh_portfolio env db" "p \<in> set (db_portfolios (tb_ledger db) @ [new_portfolio env rq])"
    "r \<in> set (db_profiles (tb_ledger db) @ [new_profile env rq])" "pr_portfolio_id r = po_id p"
    "pr_portfolio_id r = new_portfolio_id env \<or> pr_code r = new_portfolio_id env"
  shows "p = new_portfolio env rq \<and> r = new_profile env rq"
proof -
  have "r \<notin> set (db_profiles (tb_ledger db))"
    using assms(1,5) unfolding fresh_portfolio_def Let_def by (metis image_eqI)
  with assms(3) have r: "r = new_profile env rq" by simp
  then have "po_id p = new_portfolio_id env" using assms(4) by simp
  then have "p \<notin> set (db_portfolios (tb_ledger db))"
    using assms(1) unfolding fresh_portfolio_def Let_def by (metis image_eqI)
  with assms(2) have "p = new_portfolio env rq" by simp
  with r show ?thesis by simp
qed

lemma single_row:
  assumes "i \<notin> tr_portfolio_id ` set ts" "tr_portfolio_id t = i" "td_transaction_id d = tr_id t"
    "tr_id t \<notin> td_transaction_id ` set ds" "i \<notin> rv_portfolio_id ` set rs" "row_entry c (t, Some d) = Inr e"
    and l: "db_transactions l = ts @ [t]" "db_details l = ds @ [d]" "db_revisions l = rs"
  shows "loaded_entries c l i = Inr [e]"
proof -
  have "find (\<lambda>d. td_transaction_id d = tr_id t) (ds @ [d]) = Some d"
    using assms(3,4) by (induction ds) auto
  moreover have "filter (\<lambda>u. tr_portfolio_id u = i) ts = []" using assms(1) by (auto simp: filter_empty_conv)
  ultimately have rows: "ledger_rows l i = [(t, Some d)]"
    using assms(2) by (simp add: ledger_rows_def detail_of_def l)
  have "filter (\<lambda>r. rv_portfolio_id r = i) rs = []" using assms(5) by (auto simp: filter_empty_conv)
  then have "revisions_of l i = []" by (simp add: revisions_of_def l)
  then show ?thesis
    using assms(6) by (simp add: loaded_entries_def rows in_force_entry_def latest_revision_def)
qed

text \<open>C13: a created portfolio opens with its reference capital. Its ledger then loads to exactly one entry, a
  deposit of the requested capital on the opening date in the base currency at rate one and free of
  charges; the metadata returned names the new portfolio, its code and currency and the requested
  accounting policy.\<close>

theorem created_portfolio_opens:
  assumes created: "create_portfolio (prec 28) env db rq actor = Inr (view, db')"
    and fresh: "fresh_portfolio env db"
    and iso: "ad_read_date (re_trade env) (take 10 (re_iso env (pq_opening_date rq))) = Some (pq_opening_date rq)"
    and decimal: "parse_decimal (ad_decimal_text (re_trade env) (pq_reference_capital rq)) = Some (Fin (pq_reference_capital rq))"
  shows "pv_id view = new_portfolio_id env \<and> pv_code view = pq_code rq \<and> pv_base_currency view = pq_base_currency rq \<and>
    pv_policy view = policy_to_dict (opening_policy rq) \<and>
    (\<exists>e payloads. load_entries (prec 28) ts now (tb_ledger db') (new_portfolio_id env) = Inr ([e], payloads) \<and>
       e_kind e = DEPOSIT \<and> e_day e = pq_opening_date rq \<and> e_currency e = pq_base_currency rq \<and>
       e_amount e = pq_reference_capital rq \<and> e_fx e = 1 \<and> e_fee e = 0 \<and> e_commission e = 0 \<and> e_tax e = 0)"
proof -
  let ?db = "insert_portfolio env rq db" and ?i = "new_portfolio_id env"
  from created obtain receipt db1 where opened: "check_opening env db rq = Inr ()"
    and a: "add_trade (prec 28) (re_trade env) ?db (opening_deposit env rq) ?i ''MANUAL'' None actor = Inr (receipt, db1)"
    and db': "db' = resource_audit env ''PORTFOLIO_CREATED'' ?i actor db1"
    and view: "metadata_of db' ?i = Inr view"
    by (auto simp: create_portfolio_def result_simps Let_def)
  from opened have base: "pq_base_currency rq \<in> set CURRENCIES" by (auto simp: check_opening_def result_simps)
  note F = fresh [unfolded fresh_portfolio_def Let_def]
  have found_new: "p = new_portfolio env rq \<and> r = new_profile env rq"
    if "portfolio_of (tb_ledger ?db) ?i = Inr (p, r)" for p r
  proof (rule only_new [OF fresh])
    note in_db = portfolio_of_in [OF that]
    then show "p \<in> set (db_portfolios (tb_ledger db) @ [new_portfolio env rq])"
      "r \<in> set (db_profiles (tb_ledger db) @ [new_profile env rq])" "pr_portfolio_id r = po_id p" by simp_all
    from that F show "pr_portfolio_id r = ?i \<or> pr_code r = ?i"
      by (auto simp: portfolio_of_def profile_for_def result_simps found_Inr dest!: find_Some_in)
  qed
  from a obtain h a v n ext account_id where
    h: "trade_header_of (re_trade env) ?db (new_portfolio env rq) (new_profile env rq) (opening_deposit env rq) = Inr h"
    and am: "trade_amounts_of (prec 28) (th_kind h) (opening_deposit env rq) = Inr a"
    and v: "trade_value_of (prec 28) (re_trade env) (pq_base_currency rq) h a (opening_deposit env rq) = Inr v"
    and rec: "record_trade (prec 28) (re_trade env) ?db (new_profile env rq) ?i h n ''MANUAL'' None actor
       (transaction_of (re_trade env) ?i h a v n account_id ''MANUAL'' None)
       (trade_detail (re_trade env) a v n ext ''MANUAL'' None) = Inr (receipt, db1)"
  proof (cases rule: add_trade_recorded)
    case (duplicate i p r h a v n)
    note new = found_new [OF duplicate(3)]
    have "tc_external_reference (tn_context n) = None"
      by (rule opening_unreferenced [OF duplicate(4) base iso _ duplicate(6)]) (use duplicate(5) new in simp)
    with duplicate(7) show thesis by (simp add: external_key_def duplicate_of_def)
  next
    case (recorded p r h a v n ext account_id)
    with found_new [OF recorded(1)] show thesis by (intro that) simp_all
  qed
  define t where "t = transaction_of (re_trade env) ?i h a v n account_id ''MANUAL'' None"
  define d where "d = trade_detail (re_trade env) a v n ext ''MANUAL'' None"
  from rec obtain before es st after p q where
    "db1 = finish_trade (re_trade env) h n ?i ''MANUAL'' None actor before after (insert_trade t d (tb_ledger ?db)) ?db"
    unfolding t_def d_def by (rule record_tradeE)
  then have l: "db_transactions (tb_ledger db') = db_transactions (tb_ledger db) @ [t]"
    "db_details (tb_ledger db') = db_details (tb_ledger db) @ [d]"
    "db_revisions (tb_ledger db') = db_revisions (tb_ledger db)"
    "db_portfolios (tb_ledger db') = db_portfolios (tb_ledger db) @ [new_portfolio env rq]"
    "db_profiles (tb_ledger db') = db_profiles (tb_ledger db) @ [new_profile env rq]"
    by (simp_all add: db' resource_audit_def finish_trade_def)
  note H = opening_header [OF h base iso]
  note A = opening_amounts [OF am [unfolded H(1)] decimal]
  have fx: "tu_fx v = 1" using trade_value_ok(3) [OF v] H(3) by simp
  define e where "e = \<lparr>e_id = tr_id t, e_day = tr_trade_date t, e_kind = DEPOSIT, e_currency = tr_currency t,
    e_quantity = tr_quantity t, e_price = tr_price t, e_fx = tr_fx t, e_amount = td_gross_amount d, e_fee = tr_fee t,
    e_commission = td_commission d, e_tax = td_tax d, e_instrument_id = tr_instrument_id t,
    e_multiplier = td_multiplier d, e_metadata = td_metadata d, e_settle_date = tr_settle_date t,
    e_account_id = tr_account_id t\<rparr>"
  have kind: "tr_kind t = ''DEPOSIT''" by (simp add: t_def transaction_of_def H(1))
  have row: "row_entry (prec 28) (t, Some d) = Inr e"
    by (simp add: row_entry_def row_amount_def kind kind_of_def e_def)
  have "loaded_entries (prec 28) (tb_ledger db') ?i = Inr [e]"
    by (rule single_row [OF _ _ _ _ _ row l(1-3)])
      (use F in \<open>auto simp: t_def d_def transaction_of_def trade_detail_def\<close>)
  then obtain payloads where load: "load_entries (prec 28) ts now (tb_ledger db') ?i = Inr ([e], payloads)"
    by (rule load_entriesI)
  have E: "e_kind e = DEPOSIT" "e_day e = pq_opening_date rq" "e_currency e = pq_base_currency rq"
    "e_amount e = pq_reference_capital rq" "e_fx e = 1" "e_fee e = 0" "e_commission e = 0" "e_tax e = 0"
    by (simp_all add: e_def t_def d_def transaction_of_def trade_detail_def H A fx)
  from view obtain p r where r: "resolve db' ?i = Inr (p, r)" by (auto simp: metadata_of_def result_simps)
  have new: "p = new_portfolio env rq \<and> r = new_profile env rq"
    by (rule only_new [OF fresh]) (use resolve_in [OF r] in \<open>auto simp: l\<close>)
  from view r new new_config have "pv_id view = ?i \<and> pv_code view = pq_code rq \<and>
      pv_base_currency view = pq_base_currency rq \<and> pv_policy view = policy_to_dict (opening_policy rq)"
    by (auto simp: metadata_of_def)
  with load E show ?thesis by blast
qed

section \<open>A created portfolio\<close>

definition desk_env :: resource_env where
  "desk_env = \<lparr>re_trade = example_env\<lparr>ad_decimal_text := (\<lambda>_. ''250'')\<rparr>, re_iso = (\<lambda>_. ''2024-01-02'')\<rparr>"

definition desk_request :: portfolio_request where
  "desk_request = \<lparr>pq_code = ''DESK_2'', pq_name = ''Second desk'', pq_base_currency = ''USD'',
     pq_reference_capital = 250, pq_opening_date = 738887, pq_benchmark = ''SPY'', pq_allow_short = False,
     pq_method = FIFO, pq_capitalize_commissions = True, pq_capitalize_fees = False\<rparr>"

definition desk_book :: trade_db where
  "desk_book = example_book\<lparr>tb_instruments := [\<lparr>in_id = ''i'', in_symbol = ''SPY'', in_name = ''SPY'',
       in_country = ''US'', in_currency = ''USD'', in_asset_class = ''ETF'', in_sector = None, in_industry = None\<rparr>]\<rparr>"

definition to_average :: policy_request where
  "to_average = \<lparr>pp_method = AVERAGE, pp_capitalize_commissions = True, pp_capitalize_fees = False,
     pp_reason = ''desk convention''\<rparr>"

abbreviation desk_created :: "(portfolio_view \<times> trade_db) result" where
  "desk_created \<equiv> create_portfolio (prec 28) desk_env desk_book desk_request None"

lemma desk_runs:
  "map_sum id (\<lambda>(v, db). (pv_code v, map tr_portfolio_id (db_transactions (tb_ledger db)),
     map_sum id (\<lambda>(v, db). pv_policy v) (change_policy (prec 28) desk_env db ''DESK_2'' to_average None))) desk_created =
   Inr (''DESK_2'', [''portfolio-1''], Inr (policy_to_dict (requested_policy to_average)))"
  by code_simp

lemma desk_changed:
  obtains v db v' db' where "desk_created = Inr (v, db)"
    "change_policy (prec 28) desk_env db ''DESK_2'' to_average None = Inr (v', db')" "pv_code v = ''DESK_2''"
    "map tr_portfolio_id (db_transactions (tb_ledger db)) = [''portfolio-1'']"
    "pv_policy v' = policy_to_dict (requested_policy to_average)"
proof -
  from desk_runs obtain v db where 1: "desk_created = Inr (v, db)" "pv_code v = ''DESK_2''"
    "map tr_portfolio_id (db_transactions (tb_ledger db)) = [''portfolio-1'']"
    and 2: "map_sum id (\<lambda>(v, db). pv_policy v) (change_policy (prec 28) desk_env db ''DESK_2'' to_average None) =
      Inr (policy_to_dict (requested_policy to_average))"
    by (cases desk_created) auto
  from 2 obtain v' db' where "change_policy (prec 28) desk_env db ''DESK_2'' to_average None = Inr (v', db')"
    "pv_policy v' = policy_to_dict (requested_policy to_average)"
    by (cases "change_policy (prec 28) desk_env db ''DESK_2'' to_average None") auto
  from that [OF 1(1) this(1) 1(2,3) this(2)] show thesis .
qed

theorem managed_book_replays_witness:
  "\<exists>(db' :: trade_db) (t :: transaction_row) (profile :: profile_row) entries payloads policy state.
     tr_portfolio_id t = ''portfolio-1'' \<and>
     load_entries (prec 28) unary_timestamps 9 (tb_ledger db') ''portfolio-1'' = Inr (entries, payloads) \<and>
     from_config (pr_configuration profile) = Inr policy \<and>
     replay (prec 28) (\<lambda>s. s) (new_ledger policy) entries = Inr state"
proof -
  obtain v db v' db' where r: "desk_created = Inr (v, db)"
    "change_policy (prec 28) desk_env db ''DESK_2'' to_average None = Inr (v', db')"
    and t: "map tr_portfolio_id (db_transactions (tb_ledger db)) = [''portfolio-1'']" by (rule desk_changed)
  have lot: "ad_lot_id (re_trade desk_env) = (\<lambda>s. s)" by (simp add: desk_env_def example_env_def)
  have "fresh_ids (re_trade desk_env) desk_book" by (simp add: fresh_ids_def desk_book_def example_book_def)
  then have "managed_step (\<lambda>s. s) desk_book db" "managed_step (\<lambda>s. s) db db'"
    using managed_step.created [OF r(1) _ lot] managed_step.policy [OF r(2) lot] by blast+
  then have steps: "(managed_step (\<lambda>s. s))\<^sup>*\<^sup>* desk_book db'" by (meson converse_rtranclp_into_rtranclp rtranclp.rtrancl_refl)
  have empty: "empty_books desk_book" by (simp add: desk_book_def empty_books_def example_book_def)
  have "db_transactions (tb_ledger db') = db_transactions (tb_ledger db)"
    using r(2) by (auto simp: change_policy_def result_simps Let_def resource_audit_def set_policy_def)
  with t obtain x where x: "x \<in> set (db_transactions (tb_ledger db'))" "tr_portfolio_id x = ''portfolio-1''" by auto
  from managed_book_replays [OF steps empty x(1), of unary_timestamps 9] obtain profile :: profile_row
    and entries payloads policy state where
    l: "load_entries (prec 28) unary_timestamps 9 (tb_ledger db') ''portfolio-1'' = Inr (entries, payloads)"
      "from_config (pr_configuration profile) = Inr policy"
      "replay (prec 28) (\<lambda>s. s) (new_ledger policy) entries = Inr state"
    unfolding x(2) by (elim bexE exE conjE)
  show ?thesis
    by (rule exI [of _ db'], rule exI [of _ x], rule exI [of _ profile], rule exI [of _ entries],
        rule exI [of _ payloads], rule exI [of _ policy], rule exI [of _ state]) (intro conjI x(2) l)
qed

theorem created_portfolio_opens_witness:
  "\<exists>(view :: portfolio_view) (db' :: trade_db) e payloads. pv_code view = ''DESK_2'' \<and>
     load_entries (prec 28) unary_timestamps 9 (tb_ledger db') ''portfolio-1'' = Inr ([e], payloads) \<and>
     e_kind e = DEPOSIT \<and> e_amount e = 250"
proof -
  obtain v db where r: "desk_created = Inr (v, db)" "pv_code v = ''DESK_2''" by (rule desk_changed)
  have f: "fresh_portfolio desk_env desk_book"
    by (simp add: fresh_portfolio_def new_portfolio_id_def desk_env_def example_env_def desk_book_def example_book_def)
  have i: "new_portfolio_id desk_env = ''portfolio-1''" by (simp add: new_portfolio_id_def desk_env_def example_env_def)
  have iso: "ad_read_date (re_trade desk_env) (take 10 (re_iso desk_env (pq_opening_date desk_request))) =
      Some (pq_opening_date desk_request)" by code_simp
  have dec: "parse_decimal (ad_decimal_text (re_trade desk_env) (pq_reference_capital desk_request)) =
      Some (Fin (pq_reference_capital desk_request))" by code_simp
  have c: "pq_reference_capital desk_request = 250" by (simp add: desk_request_def)
  show ?thesis
    using created_portfolio_opens [OF r(1) f iso dec, of unary_timestamps 9] r(2) unfolding i c by blast
qed

end
