(* ===== verification/Authentication.thy ===== *)
theory Authentication
  imports Prelude
begin

text \<open>
  Sign-in, sessions and one-time proofs: \<open>auth_security.py\<close>, \<open>auth_guards.py\<close>,
  \<open>auth_sessions.py\<close>, \<open>auth_api.py\<close>, the login and setup endpoints of \<open>main.py\<close> and the logout
  endpoints of \<open>terminal_api.py\<close>. Password hashing (argon2), the cipher (Fernet), one-time codes
  (pyotp) and digests are the record \<open>crypto\<close>, constant over a run; what a request draws from outside
  (the clock, identifiers, fresh secrets) is \<open>auth_env\<close>. A handler returns its answer and the state it
  committed: a refused request can leave a row behind, and one that fails before its commit leaves none.
\<close>

section \<open>Tables\<close>

record user_row =
  us_id :: string
  us_email :: string
  us_password_hash :: string
  us_role :: string
  us_is_active :: bool

record session_row =
  ss_id :: string
  ss_created_at :: int
  ss_user_id :: string
  ss_hash :: string
  ss_expires_at :: int
  ss_revoked_at :: "int option"

record totp_setting =
  tt_user_id :: string
  tt_secret_encrypted :: string
  tt_enabled :: bool
  tt_confirmed_at :: "int option"

record totp_state_row =
  tp_user_id :: string
  tp_last_timecode :: int
  tp_pending_secret :: "string option"
  tp_pending_expires_at :: "int option"

record recovery_code =
  rc_id :: string
  rc_user_id :: string
  rc_code_hash :: string
  rc_used_at :: "int option"

record login_attempt =
  la_created_at :: int
  la_email :: string
  la_success :: bool
  la_ip :: "string option"
  la_failure_reason :: "string option"

record auth_db =
  hb_users :: "user_row list"
  hb_sessions :: "session_row list"
  hb_settings :: "totp_setting list"
  hb_states :: "totp_state_row list"
  hb_codes :: "recovery_code list"
  hb_attempts :: "login_attempt list"
  hb_audit :: "(string \<times> string \<times> string option) list"

record crypto =
  cr_local_demo :: bool
  cr_verify :: "string \<Rightarrow> string \<Rightarrow> bool"
  cr_fernet :: "string \<Rightarrow> string option"
  cr_otp :: "string \<Rightarrow> int \<Rightarrow> string"
  cr_timecode :: "int \<Rightarrow> int"
  cr_digest :: "string \<Rightarrow> string"

record auth_env =
  ax_now :: int
  ax_ip :: "string option"
  ax_cookie :: "string option"
  ax_hash :: "string \<Rightarrow> string"
  ax_encrypt :: "string \<Rightarrow> string"
  ax_secret :: string
  ax_codes :: "(string \<times> string) list"
  ax_token :: string
  ax_id :: "string \<Rightarrow> string"

definition given :: "string option \<Rightarrow> string option" where
  "given x = (if x = Some [] then None else x)"

definition MINUTE :: int where
  "MINUTE = 60000000"

section \<open>Guards\<close>

definition recent_failures :: "int \<Rightarrow> (login_attempt \<Rightarrow> bool) \<Rightarrow> auth_db \<Rightarrow> nat" where
  "recent_failures now P db =
     length (filter (\<lambda>a. \<not> la_success a \<and> now - 15 * MINUTE \<le> la_created_at a \<and> P a) (hb_attempts db))"

definition check_login_limit :: "int \<Rightarrow> auth_db \<Rightarrow> string \<Rightarrow> string option \<Rightarrow> unit result" where
  "check_login_limit now db email ip =
     (let account = recent_failures now (\<lambda>a. la_email a = email) db;
          network = (if given ip = None then 0 else recent_failures now (\<lambda>a. la_ip a = ip) db)
      in ensure (\<not> (10 \<le> account \<or> 100 \<le> network))
           (HTTPError 429 ''Too many sign-in attempts. Try again in 15 minutes.''))"

definition origin_allowed :: "string \<Rightarrow> string option \<Rightarrow> string option \<Rightarrow> string list \<Rightarrow> bool" where
  "origin_allowed http_method origin fetch_site allowed =
     (if http_method \<in> {''GET'', ''HEAD'', ''OPTIONS''} then True
      else if fetch_site = Some ''cross-site'' then False
      else (case origin of None \<Rightarrow> True | Some x \<Rightarrow> x \<in> set allowed))"

section \<open>Sessions\<close>

definition active_session :: "int \<Rightarrow> session_row \<Rightarrow> bool" where
  "active_session now s \<longleftrightarrow> ss_revoked_at s = None \<and> now < ss_expires_at s"

definition token_digest :: "crypto \<Rightarrow> string \<Rightarrow> string" where
  "token_digest cr token = ''sha256:'' @ cr_digest cr token"

definition find_session :: "crypto \<Rightarrow> int \<Rightarrow> auth_db \<Rightarrow> string option \<Rightarrow> session_row option" where
  "find_session cr now db token = (case given token of
       None \<Rightarrow> None
     | Some t \<Rightarrow>
         if 256 < length t then None
         else (case find (\<lambda>s. active_session now s \<and> ss_hash s = token_digest cr t) (hb_sessions db) of
             Some s \<Rightarrow> Some s
           | None \<Rightarrow> find (\<lambda>s. active_session now s \<and> take 7 (ss_hash s) = ''$argon2'' \<and> cr_verify cr (ss_hash s) t)
               (hb_sessions db)))"

definition user_of :: "auth_db \<Rightarrow> string \<Rightarrow> user_row option" where
  "user_of db i = find (\<lambda>u. us_id u = i) (hb_users db)"

definition current_user :: "crypto \<Rightarrow> auth_env \<Rightarrow> auth_db \<Rightarrow> (user_row \<times> session_row) result" where
  "current_user cr env db =
     (case find_session cr (ax_now env) db (ax_cookie env) of
        None \<Rightarrow> Inl (HTTPError 401 ''Authentication required'')
      | Some s \<Rightarrow> (case user_of db (ss_user_id s) of
          Some u \<Rightarrow> if us_is_active u then Inr (u, s) else Inl (HTTPError 401 ''Authentication required'')
        | None \<Rightarrow> Inl (HTTPError 401 ''Authentication required'')))"

definition revoked :: "int \<Rightarrow> string \<Rightarrow> string option \<Rightarrow> session_row \<Rightarrow> bool" where
  "revoked now user_id keep s \<longleftrightarrow> ss_user_id s = user_id \<and> ss_revoked_at s = None \<and> Some (ss_id s) \<noteq> keep"

text \<open>\<open>id != NULL\<close> holds of no row: without a session to keep SQLAlchemy writes \<open>IS NOT NULL\<close>, which holds of all.\<close>

definition revoke_sessions :: "int \<Rightarrow> string \<Rightarrow> string option \<Rightarrow> auth_db \<Rightarrow> nat \<times> auth_db" where
  "revoke_sessions now user_id keep db =
     (length (filter (revoked now user_id keep) (hb_sessions db)),
      db\<lparr>hb_sessions := map (\<lambda>s. if revoked now user_id keep s then s\<lparr>ss_revoked_at := Some now\<rparr> else s)
        (hb_sessions db)\<rparr>)"

section \<open>One-time proofs\<close>

definition decrypt_secret :: "crypto \<Rightarrow> string \<Rightarrow> string result" where
  "decrypt_secret cr v =
     (if take 11 v = ''local-demo:''
      then if cr_local_demo cr then Inr (drop 11 v)
           else Inl (HTTPError 503 ''Legacy authenticator must be migrated before deployment'')
      else if take 7 v \<noteq> ''fernet:''
      then Inl (HTTPError 503 ''Authenticator secret requires administrator repair'')
      else (case cr_fernet cr (drop 7 v) of
          Some s \<Rightarrow> Inr s
        | None \<Rightarrow> Inl (HTTPError 503 ''Authenticator secret cannot be decrypted'')))"

definition encrypt_secret :: "auth_env \<Rightarrow> string \<Rightarrow> string" where
  "encrypt_secret env secret = ''fernet:'' @ ax_encrypt env secret"

definition state_of :: "auth_db \<Rightarrow> string \<Rightarrow> totp_state_row option" where
  "state_of db i = find (\<lambda>s. tp_user_id s = i) (hb_states db)"

text \<open>The row of a user, created when it is missing.\<close>

definition totp_state :: "auth_db \<Rightarrow> string \<Rightarrow> auth_db" where
  "totp_state db i =
     (if state_of db i = None
      then db\<lparr>hb_states := hb_states db @
        [\<lparr>tp_user_id = i, tp_last_timecode = -1, tp_pending_secret = None, tp_pending_expires_at = None\<rparr>]\<rparr>
      else db)"

definition set_state :: "string \<Rightarrow> (totp_state_row \<Rightarrow> totp_state_row) \<Rightarrow> auth_db \<Rightarrow> auth_db" where
  "set_state i f db = db\<lparr>hb_states := map (\<lambda>s. if tp_user_id s = i then f s else s) (hb_states db)\<rparr>"

definition matched_step :: "crypto \<Rightarrow> int \<Rightarrow> string \<Rightarrow> string \<Rightarrow> int option" where
  "matched_step cr now secret code =
     (let current = cr_timecode cr now
      in find (\<lambda>k. cr_otp cr secret k = code) [current, current - 1, current + 1])"

definition consume_totp :: "crypto \<Rightarrow> int \<Rightarrow> auth_db \<Rightarrow> string \<Rightarrow> string \<Rightarrow> string option \<Rightarrow> bool \<times> auth_db" where
  "consume_totp cr now db user_id secret code = (case code of
       None \<Rightarrow> (False, db)
     | Some x \<Rightarrow>
         if length x \<noteq> 6 \<or> \<not> str_isdigit x then (False, db)
         else (case matched_step cr now secret x of
             None \<Rightarrow> (False, db)
           | Some k \<Rightarrow>
               let db = totp_state db user_id in
               (list_ex (\<lambda>s. tp_user_id s = user_id \<and> tp_last_timecode s < k) (hb_states db),
                set_state user_id (\<lambda>s. if tp_last_timecode s < k then s\<lparr>tp_last_timecode := k\<rparr> else s) db)))"

definition unused :: "string \<Rightarrow> recovery_code \<Rightarrow> bool" where
  "unused user_id r \<longleftrightarrow> rc_user_id r = user_id \<and> rc_used_at r = None"

definition consume_recovery :: "crypto \<Rightarrow> int \<Rightarrow> auth_db \<Rightarrow> string \<Rightarrow> string option \<Rightarrow> bool \<times> auth_db" where
  "consume_recovery cr now db user_id code = (case given code of
       None \<Rightarrow> (False, db)
     | Some x \<Rightarrow>
         if 128 < length x then (False, db)
         else (case find (\<lambda>r. unused user_id r \<and> cr_verify cr (rc_code_hash r) x) (hb_codes db) of
             None \<Rightarrow> (False, db)
           | Some r \<Rightarrow>
               (list_ex (\<lambda>q. rc_id q = rc_id r \<and> rc_used_at q = None) (hb_codes db),
                db\<lparr>hb_codes := map (\<lambda>q. if rc_id q = rc_id r \<and> rc_used_at q = None
                  then q\<lparr>rc_used_at := Some now\<rparr> else q) (hb_codes db)\<rparr>)))"

definition setting_of :: "auth_db \<Rightarrow> string \<Rightarrow> totp_setting option" where
  "setting_of db i = find (\<lambda>s. tt_user_id s = i) (hb_settings db)"

definition set_setting :: "string \<Rightarrow> (totp_setting \<Rightarrow> totp_setting) \<Rightarrow> auth_db \<Rightarrow> auth_db" where
  "set_setting i f db = db\<lparr>hb_settings := map (\<lambda>s. if tt_user_id s = i then f s else s) (hb_settings db)\<rparr>"

definition verify_factor ::
  "crypto \<Rightarrow> auth_env \<Rightarrow> auth_db \<Rightarrow> string \<Rightarrow> string option \<Rightarrow> string option \<Rightarrow> (bool \<times> auth_db) result" where
  "verify_factor cr env db user_id code recovery = (case setting_of db user_id of
       None \<Rightarrow> Inr (given recovery = None, db)
     | Some setting \<Rightarrow>
         if \<not> tt_enabled setting then Inr (given recovery = None, db)
         else if given code \<noteq> None \<and> given recovery \<noteq> None then Inr (False, db)
         else if given recovery \<noteq> None then Inr (consume_recovery cr (ax_now env) db user_id recovery)
         else bindE (decrypt_secret cr (tt_secret_encrypted setting)) (\<lambda>secret.
              let (accepted, db) = consume_totp cr (ax_now env) db user_id secret code in
              Inr (accepted, if accepted \<and> take 11 (tt_secret_encrypted setting) = ''local-demo:''
                then set_setting user_id (\<lambda>s. s\<lparr>tt_secret_encrypted := encrypt_secret env secret\<rparr>) db else db)))"

definition replace_recovery_codes :: "auth_env \<Rightarrow> string \<Rightarrow> auth_db \<Rightarrow> auth_db" where
  "replace_recovery_codes env user_id db =
     db\<lparr>hb_codes := filter (\<lambda>r. rc_user_id r \<noteq> user_id) (hb_codes db) @
       map (\<lambda>(i, code). \<lparr>rc_id = i, rc_user_id = user_id, rc_code_hash = ax_hash env code, rc_used_at = None\<rparr>)
         (ax_codes env)\<rparr>"

section \<open>Proof of identity\<close>

record security_proof =
  sp_password :: string
  sp_totp_code :: "string option"
  sp_recovery_code :: "string option"

definition attempt :: "auth_env \<Rightarrow> string \<Rightarrow> string option \<Rightarrow> login_attempt" where
  "attempt env email reason = \<lparr>la_created_at = ax_now env, la_email = email, la_success = (reason = None),
     la_ip = ax_ip env, la_failure_reason = reason\<rparr>"

definition add_attempt :: "auth_env \<Rightarrow> string \<Rightarrow> string option \<Rightarrow> auth_db \<Rightarrow> auth_db" where
  "add_attempt env email reason db = db\<lparr>hb_attempts := hb_attempts db @ [attempt env email reason]\<rparr>"

definition audited :: "string \<Rightarrow> string \<Rightarrow> string option \<Rightarrow> auth_db \<Rightarrow> auth_db" where
  "audited action i actor db = db\<lparr>hb_audit := hb_audit db @ [(action, i, actor)]\<rparr>"

type_synonym 'a reply = "'a result \<times> auth_db"

text \<open>Proved with the state so far, or the refusal and what it committed. \<open>proof_checked\<close> is what follows the
  count of failures; the code takes no lock between the two.\<close>

definition proof_checked ::
  "crypto \<Rightarrow> auth_env \<Rightarrow> auth_db \<Rightarrow> user_row \<Rightarrow> security_proof \<Rightarrow> bool \<Rightarrow> py_error \<times> auth_db + auth_db" where
  "proof_checked cr env db user p factor =
     (let refused = Inl (HTTPError 401 ''Invalid password or one-time proof'',
            add_attempt env (us_email user) (Some ''security_proof'') db) in
      if \<not> cr_verify cr (us_password_hash user) (sp_password p) then refused
      else if \<not> factor then Inr db
      else (case verify_factor cr env db (us_id user) (sp_totp_code p) (sp_recovery_code p) of
          Inl e \<Rightarrow> Inl (e, db)
        | Inr (accepted, db') \<Rightarrow> if accepted then Inr db' else refused))"

definition require_proof ::
  "crypto \<Rightarrow> auth_env \<Rightarrow> auth_db \<Rightarrow> user_row \<Rightarrow> security_proof \<Rightarrow> bool \<Rightarrow> py_error \<times> auth_db + auth_db" where
  "require_proof cr env db user p factor =
     (case check_login_limit (ax_now env) db (us_email user) (ax_ip env) of
        Inl e \<Rightarrow> Inl (e, db)
      | Inr _ \<Rightarrow> proof_checked cr env db user p factor)"

text \<open>A handler of a signed-in user: \<open>body\<close> runs with the proved state and either fails without a
  commit or commits.\<close>

definition with_proof ::
  "crypto \<Rightarrow> auth_env \<Rightarrow> auth_db \<Rightarrow> security_proof \<Rightarrow> bool \<Rightarrow>
   (user_row \<Rightarrow> session_row \<Rightarrow> auth_db \<Rightarrow> 'a reply) \<Rightarrow> 'a reply" where
  "with_proof cr env db p factor body =
     (case current_user cr env db of
        Inl e \<Rightarrow> (Inl e, db)
      | Inr (user, active) \<Rightarrow> (case require_proof cr env db user p factor of
          Inl (e, db') \<Rightarrow> (Inl e, db')
        | Inr db' \<Rightarrow> body user active db'))"

section \<open>Requests\<close>

definition check_text :: "nat \<Rightarrow> nat \<Rightarrow> string \<Rightarrow> unit result" where
  "check_text least most s = ensure (least \<le> length s \<and> length s \<le> most) (ValueError ''String length out of range'')"

definition check_code :: "nat \<Rightarrow> string option \<Rightarrow> unit result" where
  "check_code most x = (case x of None \<Rightarrow> Inr () | Some s \<Rightarrow> check_text 0 most s)"

definition check_security_proof :: "security_proof \<Rightarrow> unit result" where
  "check_security_proof p =
     bindE (check_text 1 1024 (sp_password p)) (\<lambda>_.
     bindE (check_code 6 (sp_totp_code p)) (\<lambda>_. check_code 128 (sp_recovery_code p)))"

definition check_password_change :: "security_proof \<Rightarrow> string \<Rightarrow> unit result" where
  "check_password_change p new_password =
     bindE (check_security_proof p) (\<lambda>_. check_text 12 1024 new_password)"

definition check_login_request :: "string \<Rightarrow> security_proof \<Rightarrow> unit result" where
  "check_login_request email p = bindE (check_text 3 320 email) (\<lambda>_. check_security_proof p)"

section \<open>Signing in and out\<close>

definition user_by_email :: "auth_db \<Rightarrow> string \<Rightarrow> user_row option" where
  "user_by_email db email = find (\<lambda>u. us_email u = email) (hb_users db)"

definition opened_session :: "crypto \<Rightarrow> auth_env \<Rightarrow> string \<Rightarrow> session_row" where
  "opened_session cr env user_id = \<lparr>ss_id = ax_id env ''session'', ss_created_at = ax_now env, ss_user_id = user_id,
     ss_hash = token_digest cr (ax_token env), ss_expires_at = ax_now env + 8 * 60 * MINUTE, ss_revoked_at = None\<rparr>"

definition sign_in :: "crypto \<Rightarrow> auth_env \<Rightarrow> string \<Rightarrow> user_row \<Rightarrow> string option \<Rightarrow> auth_db \<Rightarrow> auth_db" where
  "sign_in cr env email user recovery db =
     (let db = (if given recovery \<noteq> None
            then audited ''AUTH_RECOVERY_LOGIN'' (us_id user) (Some (us_id user))
              (snd (revoke_sessions (ax_now env) (us_id user) None db)) else db)
      in add_attempt env email None (db\<lparr>hb_sessions := hb_sessions db @ [opened_session cr env (us_id user)]\<rparr>))"

text \<open>The answer to an accepted login is the session token; \<open>login_checked\<close> follows the count of failures.\<close>

definition login_checked :: "crypto \<Rightarrow> auth_env \<Rightarrow> auth_db \<Rightarrow> string \<Rightarrow> security_proof \<Rightarrow> string reply" where
  "login_checked cr env db email p =
     (case user_by_email db email of
        None \<Rightarrow> (Inl (HTTPError 401 ''Invalid credentials''), add_attempt env email (Some ''unknown_user'') db)
      | Some user \<Rightarrow>
          if \<not> us_is_active user
          then (Inl (HTTPError 401 ''Invalid credentials''), add_attempt env email (Some ''unknown_user'') db)
          else if \<not> cr_verify cr (us_password_hash user) (sp_password p)
          then (Inl (HTTPError 401 ''Invalid credentials''), add_attempt env email (Some ''password'') db)
          else (case verify_factor cr env db (us_id user) (sp_totp_code p) (sp_recovery_code p) of
              Inl e \<Rightarrow> (Inl e, db)
            | Inr (accepted, db') \<Rightarrow>
                if accepted then (Inr (ax_token env), sign_in cr env email user (sp_recovery_code p) db')
                else (Inl (HTTPError 401 ''Authenticator code or unused recovery code required''),
                      add_attempt env email (Some ''one_time_proof'') db')))"

definition login :: "crypto \<Rightarrow> auth_env \<Rightarrow> auth_db \<Rightarrow> string \<Rightarrow> security_proof \<Rightarrow> string reply" where
  "login cr env db email p =
     (case check_login_limit (ax_now env) db email (ax_ip env) of
        Inl e \<Rightarrow> (Inl e, db)
      | Inr _ \<Rightarrow> login_checked cr env db email p)"

definition setup_admin :: "crypto \<Rightarrow> auth_env \<Rightarrow> auth_db \<Rightarrow> string \<Rightarrow> string \<Rightarrow> unit reply" where
  "setup_admin cr env db email password =
     (if \<not> cr_local_demo cr then (Inl (HTTPError 403 ''Administrator provisioning is local-only''), db)
      else if hb_users db \<noteq> [] then (Inl (HTTPError 409 ''Administrator already configured''), db)
      else (Inr (), audited ''auth.setup'' (ax_id env ''user'') (Some (ax_id env ''user''))
        (db\<lparr>hb_users := [\<lparr>us_id = ax_id env ''user'', us_email = email, us_password_hash = ax_hash env password,
           us_role = ''ADMIN'', us_is_active = True\<rparr>]\<rparr>)))"

definition end_session :: "int \<Rightarrow> string \<Rightarrow> auth_db \<Rightarrow> auth_db" where
  "end_session now i db =
     db\<lparr>hb_sessions := map (\<lambda>s. if ss_id s = i then s\<lparr>ss_revoked_at := Some now\<rparr> else s) (hb_sessions db)\<rparr>"

definition logout :: "crypto \<Rightarrow> auth_env \<Rightarrow> auth_db \<Rightarrow> unit reply" where
  "logout cr env db =
     (case find_session cr (ax_now env) db (ax_cookie env) of
        None \<Rightarrow> (Inr (), db) | Some s \<Rightarrow> (Inr (), end_session (ax_now env) (ss_id s) db))"

definition logout_all :: "crypto \<Rightarrow> auth_env \<Rightarrow> auth_db \<Rightarrow> nat reply" where
  "logout_all cr env db =
     (case current_user cr env db of
        Inl e \<Rightarrow> (Inl (HTTPError 403 ''Authentication required''), db)
      | Inr (user, active) \<Rightarrow>
          let (count, db') = revoke_sessions (ax_now env) (us_id user) None db
          in (Inr count, audited ''AUTH_ALL_SESSIONS_REVOKED'' (us_id user) (Some (us_id user)) db'))"

record auth_session_view =
  av_authenticated :: bool
  av_setup_required :: bool
  av_email :: "string option"
  av_role :: "string option"

definition auth_session :: "crypto \<Rightarrow> auth_env \<Rightarrow> auth_db \<Rightarrow> auth_session_view" where
  "auth_session cr env db =
     (case current_user cr env db of
        Inr (user, active) \<Rightarrow> \<lparr>av_authenticated = True, av_setup_required = False,
          av_email = Some (us_email user), av_role = Some (us_role user)\<rparr>
      | Inl _ \<Rightarrow> \<lparr>av_authenticated = False, av_setup_required = cr_local_demo cr \<and> hb_users db = [],
          av_email = None, av_role = None\<rparr>)"

text \<open>What the middleware refuses before a handler runs: the status of the answer, if any.\<close>

definition request_access ::
  "crypto \<Rightarrow> auth_env \<Rightarrow> auth_db \<Rightarrow> string list \<Rightarrow> string \<Rightarrow> string \<Rightarrow> string option \<Rightarrow> string option \<Rightarrow> nat option" where
  "request_access cr env db allowed http_method path origin fetch_site =
     (if \<not> origin_allowed http_method origin fetch_site allowed then Some 403
      else if take 5 path = ''/api/'' \<and>
          path \<notin> {''/api/v1/auth/login'', ''/api/v1/auth/setup'', ''/api/v1/auth/session'', ''/api/v1/auth/logout''} \<and>
          http_method \<noteq> ''OPTIONS'' \<and> \<not> av_authenticated (auth_session cr env db)
      then Some 401 else None)"

section \<open>Account security\<close>

definition totp_enabled :: "auth_db \<Rightarrow> string \<Rightarrow> bool" where
  "totp_enabled db user_id = (case setting_of db user_id of Some s \<Rightarrow> tt_enabled s | None \<Rightarrow> False)"

record security_view =
  sv_totp_enabled :: bool
  sv_recovery_codes_remaining :: nat
  sv_sessions :: "(string \<times> int \<times> int \<times> bool) list"

definition security_status :: "crypto \<Rightarrow> auth_env \<Rightarrow> auth_db \<Rightarrow> security_view result" where
  "security_status cr env db =
     bindE (current_user cr env db) (\<lambda>(user, active).
     Inr \<lparr>sv_totp_enabled = totp_enabled db (us_id user),
          sv_recovery_codes_remaining = length (filter (unused (us_id user)) (hb_codes db)),
          sv_sessions = map (\<lambda>s. (ss_id s, ss_created_at s, ss_expires_at s, ss_id s = ss_id active))
            (sort_key (\<lambda>s. - ss_created_at s)
              (filter (\<lambda>s. ss_user_id s = us_id user \<and> active_session (ax_now env) s) (hb_sessions db)))\<rparr>)"

definition enroll :: "crypto \<Rightarrow> auth_env \<Rightarrow> auth_db \<Rightarrow> security_proof \<Rightarrow> string reply" where
  "enroll cr env db p = with_proof cr env db p False (\<lambda>user active db'.
     if totp_enabled db' (us_id user)
     then (Inl (HTTPError 409 ''Disable the current authenticator before replacing it''), db)
     else (Inr (ax_secret env),
       audited ''AUTH_TOTP_ENROLLMENT_STARTED'' (us_id user) (Some (us_id user))
         (set_state (us_id user)
           (\<lambda>s. s\<lparr>tp_last_timecode := -1, tp_pending_secret := Some (encrypt_secret env (ax_secret env)),
             tp_pending_expires_at := Some (ax_now env + 10 * MINUTE)\<rparr>)
           (totp_state db' (us_id user)))))"

text \<open>The secret whose enrollment is open.\<close>

definition pending_secret :: "int \<Rightarrow> auth_db \<Rightarrow> string \<Rightarrow> string option" where
  "pending_secret now db user_id =
     (case state_of db user_id of
        None \<Rightarrow> None
      | Some s \<Rightarrow> (case (given (tp_pending_secret s), tp_pending_expires_at s) of
          (Some secret, Some expires) \<Rightarrow> if expires \<le> now then None else Some secret
        | _ \<Rightarrow> None))"

definition enable_setting :: "auth_env \<Rightarrow> string \<Rightarrow> string \<Rightarrow> auth_db \<Rightarrow> auth_db" where
  "enable_setting env user_id secret db =
     (let enabled = \<lparr>tt_user_id = user_id, tt_secret_encrypted = secret, tt_enabled = True,
          tt_confirmed_at = Some (ax_now env)\<rparr>
      in if setting_of db user_id = None then db\<lparr>hb_settings := hb_settings db @ [enabled]\<rparr>
         else set_setting user_id (\<lambda>_. enabled) db)"

definition clear_pending :: "string \<Rightarrow> auth_db \<Rightarrow> auth_db" where
  "clear_pending user_id = set_state user_id (\<lambda>s. s\<lparr>tp_pending_secret := None, tp_pending_expires_at := None\<rparr>)"

definition confirm :: "crypto \<Rightarrow> auth_env \<Rightarrow> auth_db \<Rightarrow> security_proof \<Rightarrow> string list reply" where
  "confirm cr env db p = with_proof cr env db p False (\<lambda>user active db'.
     let i = us_id user; db' = totp_state db' i in
     case pending_secret (ax_now env) db' i of
       None \<Rightarrow> (Inl (HTTPError 409 ''Enrollment expired; start again''), db)
     | Some pending \<Rightarrow> (case decrypt_secret cr pending of
         Inl e \<Rightarrow> (Inl e, db)
       | Inr secret \<Rightarrow> (case consume_totp cr (ax_now env) db' i secret (sp_totp_code p) of
           (False, db'') \<Rightarrow> (Inl (HTTPError 401 ''Invalid or already used authenticator code''),
             add_attempt env (us_email user) (Some ''enrollment_code'') db'')
         | (True, db'') \<Rightarrow> (Inr (map snd (ax_codes env)),
             audited ''AUTH_TOTP_ENABLED'' i (Some i)
               (snd (revoke_sessions (ax_now env) i (Some (ss_id active))
                 (replace_recovery_codes env i (clear_pending i (enable_setting env i pending db'')))))))))"

definition disable :: "crypto \<Rightarrow> auth_env \<Rightarrow> auth_db \<Rightarrow> security_proof \<Rightarrow> unit reply" where
  "disable cr env db p = with_proof cr env db p True (\<lambda>user active db'.
     let i = us_id user in
     (Inr (), audited ''AUTH_TOTP_DISABLED'' i (Some i)
       (snd (revoke_sessions (ax_now env) i (Some (ss_id active))
         (clear_pending i (totp_state (set_setting i (\<lambda>s. s\<lparr>tt_enabled := False\<rparr>) db') i))))))"

definition regenerate_codes :: "crypto \<Rightarrow> auth_env \<Rightarrow> auth_db \<Rightarrow> security_proof \<Rightarrow> string list reply" where
  "regenerate_codes cr env db p = with_proof cr env db p True (\<lambda>user active db'.
     let i = us_id user in
     if \<not> totp_enabled db' i
     then (Inl (HTTPError 409 ''Enable an authenticator before generating recovery codes''), db)
     else (Inr (map snd (ax_codes env)),
       audited ''AUTH_RECOVERY_CODES_REPLACED'' i (Some i) (replace_recovery_codes env i db')))"

definition set_password :: "string \<Rightarrow> string \<Rightarrow> auth_db \<Rightarrow> auth_db" where
  "set_password i h db = db\<lparr>hb_users := map (\<lambda>u. if us_id u = i then u\<lparr>us_password_hash := h\<rparr> else u) (hb_users db)\<rparr>"

definition change_password :: "crypto \<Rightarrow> auth_env \<Rightarrow> auth_db \<Rightarrow> security_proof \<Rightarrow> string \<Rightarrow> nat reply" where
  "change_password cr env db p new_password = with_proof cr env db p True (\<lambda>user active db'.
     let i = us_id user in
     if sp_password p = new_password then (Inl (HTTPError 422 ''Choose a different password''), db)
     else (let (count, db'') = revoke_sessions (ax_now env) i None (set_password i (ax_hash env new_password) db')
       in (Inr count, audited ''AUTH_PASSWORD_CHANGED'' i (Some i) db'')))"

definition revoke_session :: "crypto \<Rightarrow> auth_env \<Rightarrow> auth_db \<Rightarrow> string \<Rightarrow> unit reply" where
  "revoke_session cr env db session_id =
     (case current_user cr env db of
        Inl e \<Rightarrow> (Inl e, db)
      | Inr (user, current) \<Rightarrow>
          if \<exists>s \<in> set (hb_sessions db). ss_id s = session_id \<and> ss_user_id s = us_id user
          then (Inr (), audited ''AUTH_SESSION_REVOKED'' session_id (Some (us_id user))
            (end_session (ax_now env) session_id db))
          else (Inl (HTTPError 404 ''Session not found''), db))"

end
