(* ===== verification/Authentication_Facts.thy ===== *)
theory Authentication_Facts
  imports Authentication
begin

text \<open>
  Sign-in as a state machine: a step is one request of any client at a later or equal time, refused or
  accepted. One-time codes and recovery codes are not accepted twice, and a password change ends every
  session of the account.
\<close>

section \<open>Requests as steps\<close>

datatype auth_request =
    Login string security_proof
  | Setup string string
  | Logout
  | Logout_all
  | Enroll security_proof
  | Confirm security_proof
  | Disable security_proof
  | Regenerate security_proof
  | Change_password security_proof string
  | Revoke_session string

definition handled :: "crypto \<Rightarrow> auth_env \<Rightarrow> auth_db \<Rightarrow> auth_request \<Rightarrow> auth_db" where
  "handled cr env db rq = (case rq of
       Login email p \<Rightarrow> snd (login cr env db email p)
     | Setup email password \<Rightarrow> snd (setup_admin cr env db email password)
     | Logout \<Rightarrow> snd (logout cr env db)
     | Logout_all \<Rightarrow> snd (logout_all cr env db)
     | Enroll p \<Rightarrow> snd (enroll cr env db p)
     | Confirm p \<Rightarrow> snd (confirm cr env db p)
     | Disable p \<Rightarrow> snd (disable cr env db p)
     | Regenerate p \<Rightarrow> snd (regenerate_codes cr env db p)
     | Change_password p new_password \<Rightarrow> snd (change_password cr env db p new_password)
     | Revoke_session i \<Rightarrow> snd (revoke_session cr env db i))"

text \<open>A request that proves a second factor, accepted: whose account it is for and what was given.\<close>

definition signed_in_as :: "crypto \<Rightarrow> auth_env \<Rightarrow> auth_db \<Rightarrow> string \<Rightarrow> bool" where
  "signed_in_as cr env db u \<longleftrightarrow> map_sum id (\<lambda>(user, active). us_id user) (current_user cr env db) = Inr u"

definition accepted_for ::
  "crypto \<Rightarrow> auth_env \<Rightarrow> auth_db \<Rightarrow> auth_request \<Rightarrow> string \<Rightarrow> security_proof \<Rightarrow> bool" where
  "accepted_for cr env db rq u p = (case rq of
       Login email q \<Rightarrow> q = p \<and> map_option us_id (user_by_email db email) = Some u \<and> \<not> isl (fst (login cr env db email q))
     | Disable q \<Rightarrow> q = p \<and> signed_in_as cr env db u \<and> \<not> isl (fst (disable cr env db q))
     | Regenerate q \<Rightarrow> q = p \<and> signed_in_as cr env db u \<and> \<not> isl (fst (regenerate_codes cr env db q))
     | Change_password q new_password \<Rightarrow>
         q = p \<and> signed_in_as cr env db u \<and> \<not> isl (fst (change_password cr env db q new_password))
     | _ \<Rightarrow> False)"

text \<open>What the environment of a request provides: a cipher that decrypts what it encrypts, and new
  identifiers.\<close>

definition sound_env :: "crypto \<Rightarrow> auth_env \<Rightarrow> auth_db \<Rightarrow> bool" where
  "sound_env cr env db \<longleftrightarrow> (\<forall>s. decrypt_secret cr (encrypt_secret env s) = Inr s) \<and>
     ax_id env ''session'' \<notin> ss_id ` set (hb_sessions db) \<and>
     fst ` set (ax_codes env) \<inter> rc_id ` set (hb_codes db) = {} \<and> distinct (map fst (ax_codes env))"

text \<open>\<open>draws\<close> restricts the environments of a run, for the statements that need it.\<close>

inductive auth_step :: "crypto \<Rightarrow> (auth_env \<Rightarrow> bool) \<Rightarrow> int \<times> auth_db \<Rightarrow> int \<times> auth_db \<Rightarrow> bool" for cr draws where
  request: "t \<le> ax_now env \<Longrightarrow> sound_env cr env db \<Longrightarrow> draws env \<Longrightarrow>
    auth_step cr draws (t, db) (ax_now env, handled cr env db rq)"

inductive_cases auth_stepE: "auth_step cr draws (t, db) (t', db')"

definition nobody :: auth_db where
  "nobody = \<lparr>hb_users = [], hb_sessions = [], hb_settings = [], hb_states = [], hb_codes = [], hb_attempts = [],
     hb_audit = []\<rparr>"

section \<open>Every request from its parts\<close>

lemma attempts_kept [simp]:
  "hb_attempts (audited action i actor db) = hb_attempts db"
  "hb_attempts (snd (revoke_sessions now i keep db)) = hb_attempts db"
  "hb_attempts (totp_state db i) = hb_attempts db" "hb_attempts (set_state i f db) = hb_attempts db"
  "hb_attempts (set_setting i g db) = hb_attempts db"
  by (simp_all add: audited_def revoke_sessions_def totp_state_def set_state_def set_setting_def)

lemma consume_totp_attempts: "consume_totp cr now db i secret code = (b, db') \<Longrightarrow> hb_attempts db' = hb_attempts db"
  by (auto simp: consume_totp_def Let_def split: option.splits if_splits)

lemma verify_factor_cases:
  assumes "verify_factor cr env db i code recovery = Inr (accepted, db')"
  obtains (unasked) "db' = db" "totp_enabled db i \<Longrightarrow> \<not> accepted" "accepted \<Longrightarrow> given recovery = None"
  | (recovery) "totp_enabled db i" "given recovery \<noteq> None"
      "consume_recovery cr (ax_now env) db i recovery = (accepted, db')"
  | (code) setting secret db1 where "setting_of db i = Some setting" "tt_enabled setting" "given recovery = None"
      "decrypt_secret cr (tt_secret_encrypted setting) = Inr secret"
      "consume_totp cr (ax_now env) db i secret code = (accepted, db1)"
      "db' = (if accepted \<and> take 11 (tt_secret_encrypted setting) = ''local-demo:''
         then set_setting i (\<lambda>s. s\<lparr>tt_secret_encrypted := encrypt_secret env secret\<rparr>) db1 else db1)"
proof (cases "setting_of db i")
  case None
  with assms unasked show thesis by (auto simp: verify_factor_def totp_enabled_def)
next
  case (Some setting)
  show thesis
  proof (cases "tt_enabled setting \<and> given recovery = None")
    case True
    obtain b db1 where c: "\<And>secret. decrypt_secret cr (tt_secret_encrypted setting) = Inr secret \<Longrightarrow>
        consume_totp cr (ax_now env) db i secret code = (b, db1)"
      by (cases "decrypt_secret cr (tt_secret_encrypted setting)") (simp, metis surj_pair sum.inject(2))
    with assms Some True code show thesis by (auto simp: verify_factor_def result_simps)
  next
    case False
    with assms Some unasked recovery show thesis by (auto simp: verify_factor_def totp_enabled_def split: if_splits)
  qed
qed

lemma consume_recovery_frame:
  "consume_recovery cr now db i code = (b, db') \<Longrightarrow> \<exists>cs. db' = db\<lparr>hb_codes := cs\<rparr>"
  by (auto simp: consume_recovery_def split: option.splits if_splits intro: exI [of _ "hb_codes db"])

lemma verify_factor_attempts:
  "verify_factor cr env db i code recovery = Inr (b, db') \<Longrightarrow> hb_attempts db' = hb_attempts db"
  by (elim verify_factor_cases) (auto dest: consume_recovery_frame consume_totp_attempts)

lemma limit_cong: "hb_attempts db' = hb_attempts db \<Longrightarrow> check_login_limit now db' email ip = check_login_limit now db email ip"
  by (simp add: check_login_limit_def recent_failures_def)

text \<open>The commits a request is made of; a property of states that each of them keeps is kept by
  every request, whatever its outcome.\<close>

locale request_parts =
  fixes cr :: crypto and env :: auth_env and P :: "auth_db \<Rightarrow> bool"
  assumes factor_part: "P db \<Longrightarrow> verify_factor cr env db i code recovery = Inr (accepted, db') \<Longrightarrow> P db'"
    and attempt_part: "P db \<Longrightarrow> check_login_limit (ax_now env) db email (ax_ip env) = Inr () \<Longrightarrow>
      P (add_attempt env email reason db)"
    and audit_part: "P db \<Longrightarrow> P (audited action i actor db)"
    and revoke_part: "P db \<Longrightarrow> P (snd (revoke_sessions (ax_now env) i keep db))"
    and end_part: "P db \<Longrightarrow> P (end_session (ax_now env) i db)"
    and session_part: "P db \<Longrightarrow> P (db\<lparr>hb_sessions := hb_sessions db @ [opened_session cr env i]\<rparr>)"
    and user_part: "P db \<Longrightarrow> hb_users db = [] \<Longrightarrow> P (db\<lparr>hb_users := [u]\<rparr>)"
    and password_part: "P db \<Longrightarrow> P (set_password i h db)"
    and codes_part: "P db \<Longrightarrow> P (replace_recovery_codes env i db)"
    and consume_part: "P db \<Longrightarrow> consume_totp cr (ax_now env) (totp_state db i) i secret code = (accepted, db') \<Longrightarrow> P db'"
    and enroll_part: "P db \<Longrightarrow> \<not> totp_enabled db i \<Longrightarrow>
      P (set_state i (\<lambda>s. s\<lparr>tp_last_timecode := -1, tp_pending_secret := Some (encrypt_secret env (ax_secret env)),
           tp_pending_expires_at := Some (ax_now env + 10 * MINUTE)\<rparr>) (totp_state db i))"
    and confirm_part: "P db \<Longrightarrow> pending_secret (ax_now env) (totp_state db i) i = Some pending \<Longrightarrow>
      decrypt_secret cr pending = Inr secret \<Longrightarrow>
      consume_totp cr (ax_now env) (totp_state db i) i secret code = (True, db') \<Longrightarrow>
      P (clear_pending i (enable_setting env i pending db'))"
    and disable_part: "P db \<Longrightarrow> P (clear_pending i (totp_state (set_setting i (\<lambda>s. s\<lparr>tt_enabled := False\<rparr>) db) i))"
begin

lemma attempt_later:
  assumes "P db'" "check_login_limit (ax_now env) db email (ax_ip env) = Inr ()" "hb_attempts db' = hb_attempts db"
  shows "P (add_attempt env email reason db')"
  using assms limit_cong [OF assms(3)] by (simp add: attempt_part)

lemma require_proof_keeps:
  assumes "P db"
  shows "require_proof cr env db user p factor = Inl (e, db') \<Longrightarrow> P db'"
    and "require_proof cr env db user p factor = Inr db' \<Longrightarrow>
      P db' \<and> check_login_limit (ax_now env) db (us_email user) (ax_ip env) = Inr () \<and> hb_attempts db' = hb_attempts db"
  using assms
  by (auto simp: require_proof_def proof_checked_def Let_def intro: attempt_part factor_part dest: verify_factor_attempts
      split: sum.splits if_splits prod.splits)

lemma with_proof_keeps:
  assumes "P db"
    and body: "\<And>user active db'. P db' \<Longrightarrow> check_login_limit (ax_now env) db (us_email user) (ax_ip env) = Inr () \<Longrightarrow>
      hb_attempts db' = hb_attempts db \<Longrightarrow> P (snd (body user active db'))"
  shows "P (snd (with_proof cr env db p factor body))"
proof (cases "current_user cr env db")
  case (Inr ua)
  then show ?thesis
  proof (cases "require_proof cr env db (fst ua) p factor")
    case (Inl e)
    with Inr require_proof_keeps(1) [OF assms(1)] show ?thesis
      by (cases ua; cases e) (simp add: with_proof_def)
  next
    case (Inr db')
    with \<open>current_user cr env db = Inr ua\<close> require_proof_keeps(2) [OF assms(1)] body show ?thesis
      by (cases ua) (simp add: with_proof_def)
  qed
qed (use assms(1) in \<open>simp add: with_proof_def\<close>)

lemma sign_in_keeps:
  assumes "P db'" "check_login_limit (ax_now env) db email (ax_ip env) = Inr ()" "hb_attempts db' = hb_attempts db"
  shows "P (sign_in cr env email user recovery db')"
proof -
  define db2 where "db2 = (if given recovery \<noteq> None
    then audited ''AUTH_RECOVERY_LOGIN'' (us_id user) (Some (us_id user))
      (snd (revoke_sessions (ax_now env) (us_id user) None db')) else db')"
  have "P db2" "hb_attempts db2 = hb_attempts db"
    using assms(1,3) audit_part revoke_part by (auto simp: db2_def)
  moreover have "sign_in cr env email user recovery db' = add_attempt env email None
      (db2\<lparr>hb_sessions := hb_sessions db2 @ [opened_session cr env (us_id user)]\<rparr>)"
    by (simp only: sign_in_def Let_def db2_def)
  ultimately show ?thesis using attempt_later [OF session_part assms(2)] by simp
qed

lemma login_keeps:
  assumes "P db"
  shows "P (snd (login cr env db email p))"
proof (cases "check_login_limit (ax_now env) db email (ax_ip env)")
  case (Inr u)
  then have limit: "check_login_limit (ax_now env) db email (ax_ip env) = Inr ()" by simp
  note refused = attempt_part [OF assms limit]
  show ?thesis
  proof (cases "user_by_email db email")
    case None
    then show ?thesis by (simp add: login_def login_checked_def limit refused)
  next
    case (Some user)
    show ?thesis
    proof (cases "us_is_active user \<and> cr_verify cr (us_password_hash user) (sp_password p)")
      case True
      show ?thesis
      proof (cases "verify_factor cr env db (us_id user) (sp_totp_code p) (sp_recovery_code p)")
        case (Inr x)
        then obtain b db' where f: "verify_factor cr env db (us_id user) (sp_totp_code p) (sp_recovery_code p) = Inr (b, db')"
          by (cases x) simp
        have P: "P db'" and a: "hb_attempts db' = hb_attempts db"
          using factor_part [OF assms f] verify_factor_attempts [OF f] by simp_all
        have "P (sign_in cr env email user (sp_recovery_code p) db')" by (rule sign_in_keeps [OF P limit a])
        with P a show ?thesis
          by (simp add: login_def login_checked_def limit Some True f attempt_later [OF _ limit])
      qed (use assms in \<open>simp add: login_def login_checked_def limit Some True\<close>)
    qed (auto simp: login_def login_checked_def limit Some refused)
  qed
qed (use assms in \<open>simp add: login_def\<close>)

lemma enroll_keeps: "P db \<Longrightarrow> P (snd (enroll cr env db p))"
  unfolding enroll_def by (rule with_proof_keeps) (auto intro: audit_part enroll_part)

lemma disable_keeps: "P db \<Longrightarrow> P (snd (disable cr env db p))"
  unfolding disable_def by (rule with_proof_keeps) (auto simp: Let_def intro!: audit_part revoke_part disable_part)

lemma regenerate_keeps: "P db \<Longrightarrow> P (snd (regenerate_codes cr env db p))"
  unfolding regenerate_codes_def by (rule with_proof_keeps) (auto simp: Let_def intro!: audit_part codes_part)

lemma change_password_keeps: "P db \<Longrightarrow> P (snd (change_password cr env db p new_password))"
  unfolding change_password_def
proof (rule with_proof_keeps)
  fix user active db'
  assume "P db" "P db'"
  then show "P (snd (let i = us_id user in
     if sp_password p = new_password then (Inl (HTTPError 422 ''Choose a different password''), db)
     else (let (count, db'') = revoke_sessions (ax_now env) i None (set_password i (ax_hash env new_password) db')
       in (Inr count, audited ''AUTH_PASSWORD_CHANGED'' i (Some i) db''))))"
    using revoke_part [OF password_part [OF \<open>P db'\<close>], of "us_id user" None]
    by (auto simp: Let_def case_prod_beta intro!: audit_part)
qed

lemma confirm_keeps: "P db \<Longrightarrow> P (snd (confirm cr env db p))"
  unfolding confirm_def
proof (rule with_proof_keeps)
  fix user active db'
  assume P: "P db" "P db'" and limit: "check_login_limit (ax_now env) db (us_email user) (ax_ip env) = Inr ()"
    and a: "hb_attempts db' = hb_attempts db"
  let ?i = "us_id user"
  show "P (snd (let i = us_id user; db' = totp_state db' i in
     case pending_secret (ax_now env) db' i of
       None \<Rightarrow> (Inl (HTTPError 409 ''Enrollment expired; start again''), db)
     | Some pending \<Rightarrow> (case decrypt_secret cr pending of
         Inl e \<Rightarrow> (Inl e, db)
       | Inr secret \<Rightarrow> (case consume_totp cr (ax_now env) db' i secret (sp_totp_code p) of
           (False, db'') \<Rightarrow> (Inl (HTTPError 401 ''Invalid or already used authenticator code''),
             add_attempt env (us_email user) (Some ''enrollment_code'') db'')
         | (True, db'') \<Rightarrow> (Inr (map snd (ax_codes env)),
             audited ''AUTH_TOTP_ENABLED'' i (Some i)
               (snd (revoke_sessions (ax_now env) i (Some (ss_id active))
                 (replace_recovery_codes env i (clear_pending i (enable_setting env i pending db''))))))))))"
  proof (cases "pending_secret (ax_now env) (totp_state db' ?i) ?i")
    case (Some pending)
    show ?thesis
    proof (cases "decrypt_secret cr pending")
      case (Inr secret)
      obtain b db'' where c: "consume_totp cr (ax_now env) (totp_state db' ?i) ?i secret (sp_totp_code p) = (b, db'')"
        by fastforce
      show ?thesis
      proof (cases b)
        case True
        with c have "consume_totp cr (ax_now env) (totp_state db' ?i) ?i secret (sp_totp_code p) = (True, db'')" by simp
        from confirm_part [OF P(2) Some Inr this]
        show ?thesis by (simp add: Let_def Some Inr c True audit_part revoke_part codes_part)
      next
        case False
        have "hb_attempts db'' = hb_attempts db" using consume_totp_attempts [OF c] a by simp
        from attempt_later [OF consume_part [OF P(2) c] limit this]
        show ?thesis by (simp add: Let_def Some Inr c False)
      qed
    qed (simp add: Let_def Some P(1))
  qed (simp add: Let_def P(1))
qed

lemma handled_keeps:
  assumes "P db"
  shows "P (handled cr env db rq)"
proof (cases rq)
  case Logout
  with assms end_part show ?thesis by (auto simp: handled_def logout_def split: option.split)
next
  case Logout_all
  with assms audit_part revoke_part show ?thesis
    by (auto simp: handled_def logout_all_def split: sum.split prod.splits) (metis snd_conv)
next
  case (Setup email password)
  with assms audit_part user_part show ?thesis by (auto simp: handled_def setup_admin_def)
next
  case (Revoke_session i)
  with assms audit_part end_part show ?thesis by (auto simp: handled_def revoke_session_def split: sum.split)
qed (use assms in \<open>simp_all add: handled_def login_keeps enroll_keeps disable_keeps regenerate_keeps
  change_password_keeps confirm_keeps\<close>)

text \<open>An accepted request commits what its proof consumed: a property that holds once the proof is
  accepted holds of the state the request leaves.\<close>

lemma login_accepted:
  assumes "\<not> isl (fst (login cr env db email p))" "map_option us_id (user_by_email db email) = Some u"
  obtains d where "verify_factor cr env db u (sp_totp_code p) (sp_recovery_code p) = Inr (True, d)"
    "P d \<Longrightarrow> P (snd (login cr env db email p))"
proof -
  from assms(1) have limit: "check_login_limit (ax_now env) db email (ax_ip env) = Inr ()"
    by (auto simp: login_def split: sum.splits)
  from assms(2) obtain user where user: "user_by_email db email = Some user" "us_id user = u" by blast
  with assms(1) obtain d where d: "verify_factor cr env db u (sp_totp_code p) (sp_recovery_code p) = Inr (True, d)"
    "snd (login cr env db email p) = sign_in cr env email user (sp_recovery_code p) d"
    by (auto simp: login_def login_checked_def limit split: if_splits sum.splits)
  with that sign_in_keeps [OF _ limit verify_factor_attempts [OF d(1)]] show thesis by simp
qed

lemma proved_keeps:
  assumes "\<not> isl (fst (with_proof cr env db p True body))" "signed_in_as cr env db u"
    and body: "\<And>user active d. P d \<Longrightarrow> \<not> isl (fst (body user active d)) \<Longrightarrow> P (snd (body user active d))"
  obtains d where "verify_factor cr env db u (sp_totp_code p) (sp_recovery_code p) = Inr (True, d)"
    "P d \<Longrightarrow> P (snd (with_proof cr env db p True body))"
proof -
  from assms(2) obtain user active where w: "current_user cr env db = Inr (user, active)" "us_id user = u"
    by (cases "current_user cr env db") (auto simp: signed_in_as_def)
  with assms(1) obtain d where d: "require_proof cr env db user p True = Inr d"
    by (cases "require_proof cr env db user p True") (auto simp: with_proof_def)
  then have "verify_factor cr env db u (sp_totp_code p) (sp_recovery_code p) = Inr (True, d)"
    using w(2) by (auto simp: require_proof_def proof_checked_def Let_def split: sum.splits if_splits)
  moreover have "with_proof cr env db p True body = body user active d" using w d by (simp add: with_proof_def)
  ultimately show thesis using that body assms(1) by simp
qed

lemma accepted_keeps:
  assumes "accepted_for cr env db rq u p"
  obtains d where "verify_factor cr env db u (sp_totp_code p) (sp_recovery_code p) = Inr (True, d)"
    "P d \<Longrightarrow> P (handled cr env db rq)"
proof (cases rq)
  case (Login email q)
  with assms have q: "q = p" "map_option us_id (user_by_email db email) = Some u" "\<not> isl (fst (login cr env db email p))"
    by (auto simp: accepted_for_def)
  show thesis by (rule login_accepted [OF q(3,2)]) (use that in \<open>simp add: Login q(1) handled_def\<close>)
next
  case (Disable q)
  with assms have q: "q = p" "signed_in_as cr env db u" "\<not> isl (fst (disable cr env db p))"
    by (auto simp: accepted_for_def)
  show thesis
  proof (rule proved_keeps [OF q(3) [unfolded disable_def] q(2)], goal_cases)
    case (1 user active d)
    then show ?case by (auto simp: Let_def intro!: audit_part revoke_part disable_part)
  next
    case (2 d)
    then show ?case using that by (simp add: Disable q(1) handled_def disable_def)
  qed
next
  case (Regenerate q)
  with assms have q: "q = p" "signed_in_as cr env db u" "\<not> isl (fst (regenerate_codes cr env db p))"
    by (auto simp: accepted_for_def)
  show thesis
  proof (rule proved_keeps [OF q(3) [unfolded regenerate_codes_def] q(2)], goal_cases)
    case (1 user active d)
    then show ?case by (auto simp: Let_def split: if_splits intro!: audit_part codes_part)
  next
    case (2 d)
    then show ?case using that by (simp add: Regenerate q(1) handled_def regenerate_codes_def)
  qed
next
  case (Change_password q new_password)
  with assms have q: "q = p" "signed_in_as cr env db u" "\<not> isl (fst (change_password cr env db p new_password))"
    by (auto simp: accepted_for_def)
  show thesis
  proof (rule proved_keeps [OF q(3) [unfolded change_password_def] q(2)], goal_cases)
    case (1 user active d)
    then show ?case
      by (auto simp: Let_def case_prod_beta split: if_splits intro!: audit_part revoke_part password_part)
  next
    case (2 d)
    then show ?case using that by (simp add: Change_password q(1) handled_def change_password_def)
  qed
qed (use assms in \<open>simp_all add: accepted_for_def\<close>)

end

section \<open>One-time codes\<close>

definition last_code :: "auth_db \<Rightarrow> string \<Rightarrow> int" where
  "last_code db u = (case state_of db u of Some s \<Rightarrow> tp_last_timecode s | None \<Rightarrow> -1)"

definition pending_of :: "auth_db \<Rightarrow> string \<Rightarrow> string option" where
  "pending_of db u = (case state_of db u of Some s \<Rightarrow> tp_pending_secret s | None \<Rightarrow> None)"

definition enabled_with :: "crypto \<Rightarrow> auth_db \<Rightarrow> string \<Rightarrow> string \<Rightarrow> bool" where
  "enabled_with cr db u secret \<longleftrightarrow> (\<exists>r. setting_of db u = Some r \<and> tt_enabled r \<and>
     decrypt_secret cr (tt_secret_encrypted r) = Inr secret)"

definition pending_with :: "crypto \<Rightarrow> auth_db \<Rightarrow> string \<Rightarrow> string \<Rightarrow> bool" where
  "pending_with cr db u secret \<longleftrightarrow> (\<exists>x. pending_of db u = Some x \<and> decrypt_secret cr x = Inr secret)"

lemma find_update:
  assumes "\<And>s. key (f s) = key s"
  shows "find (\<lambda>s. key s = j) (map (\<lambda>s. if key s = i then f s else s) xs) =
     (if j = i then map_option f (find (\<lambda>s. key s = j) xs) else find (\<lambda>s. key s = j) xs)"
  using assms by (induction xs) auto

lemma find_snoc: "find P (xs @ [x]) = (case find P xs of Some y \<Rightarrow> Some y | None \<Rightarrow> if P x then Some x else None)"
  by (induction xs) auto

lemma state_of_set:
  "(\<And>s. tp_user_id (f s) = tp_user_id s) \<Longrightarrow>
     state_of (set_state i f db) u = (if u = i then map_option f (state_of db u) else state_of db u)"
  by (simp add: state_of_def set_state_def find_update)

lemma state_of_totp:
  "state_of (totp_state db i) u = (if u = i \<and> state_of db i = None
     then Some \<lparr>tp_user_id = i, tp_last_timecode = -1, tp_pending_secret = None, tp_pending_expires_at = None\<rparr>
     else state_of db u)"
  by (auto simp: totp_state_def state_of_def find_snoc split: option.split)

lemma setting_of_set:
  "(\<And>s. tt_user_id (f s) = tt_user_id s) \<Longrightarrow>
     setting_of (set_setting i f db) u = (if u = i then map_option f (setting_of db u) else setting_of db u)"
  by (simp add: setting_of_def set_setting_def find_update)

lemma settings_kept [simp]:
  "setting_of (set_state i f db) = setting_of db" "setting_of (totp_state db i) = setting_of db"
  "state_of (set_setting i g db) = state_of db"
  by (simp_all add: fun_eq_iff setting_of_def state_of_def set_state_def totp_state_def set_setting_def)

text \<open>Everything else leaves the authenticator rows alone.\<close>

lemma setting_of_cong: "hb_settings db' = hb_settings db \<Longrightarrow> setting_of db' = setting_of db"
  by (simp add: fun_eq_iff setting_of_def)

lemma state_of_cong: "hb_states db' = hb_states db \<Longrightarrow> state_of db' = state_of db"
  by (simp add: fun_eq_iff state_of_def)

lemma rows_kept [simp]:
  "hb_settings (add_attempt env email reason db) = hb_settings db" "hb_states (add_attempt env email reason db) = hb_states db"
  "hb_settings (audited action i actor db) = hb_settings db" "hb_states (audited action i actor db) = hb_states db"
  "hb_settings (snd (revoke_sessions now i keep db)) = hb_settings db"
  "hb_states (snd (revoke_sessions now i keep db)) = hb_states db"
  "hb_settings (end_session now i db) = hb_settings db" "hb_states (end_session now i db) = hb_states db"
  "hb_settings (set_password i h db) = hb_settings db" "hb_states (set_password i h db) = hb_states db"
  "hb_settings (replace_recovery_codes env i db) = hb_settings db"
  "hb_states (replace_recovery_codes env i db) = hb_states db"
  by (simp_all add: add_attempt_def audited_def revoke_sessions_def end_session_def set_password_def
      replace_recovery_codes_def)

lemma totp_cong:
  assumes "hb_settings db' = hb_settings db" "hb_states db' = hb_states db"
  shows "last_code db' = last_code db" "pending_of db' = pending_of db" "enabled_with cr db' = enabled_with cr db"
    "pending_with cr db' = pending_with cr db" "totp_enabled db' = totp_enabled db"
  using setting_of_cong [OF assms(1)] state_of_cong [OF assms(2)]
  by (simp_all add: fun_eq_iff last_code_def pending_of_def enabled_with_def pending_with_def totp_enabled_def)

text \<open>A consumed code moves the last timecode forward, and nothing else.\<close>

definition forward :: "auth_db \<Rightarrow> auth_db \<Rightarrow> bool" where
  "forward db db' \<longleftrightarrow> (\<forall>u. last_code db u \<le> last_code db' u) \<and> pending_of db' = pending_of db"

lemma forward_totp: "forward db (totp_state db i)"
  by (auto simp: forward_def last_code_def pending_of_def fun_eq_iff state_of_totp split: option.split)

lemma consume_forward:
  assumes "consume_totp cr now db i secret code = (b, db')"
  shows "forward db db'" "setting_of db' = setting_of db"
proof -
  have step: "forward db (set_state i (\<lambda>s. if tp_last_timecode s < k then s\<lparr>tp_last_timecode := k\<rparr> else s) db)" for k db
    by (auto simp: forward_def last_code_def pending_of_def fun_eq_iff state_of_set split: option.split)
  have trans: "forward db1 db2 \<Longrightarrow> forward db2 db3 \<Longrightarrow> forward db1 db3" for db1 db2 db3
    by (auto simp: forward_def intro: order_trans)
  have id: "forward db db" by (simp add: forward_def)
  show "forward db db'"
    using assms id trans [OF forward_totp step] by (auto simp: consume_totp_def Let_def split: option.splits if_splits)
  show "setting_of db' = setting_of db"
    using assms by (auto simp: consume_totp_def Let_def split: option.splits if_splits)
qed

lemma consume_accepts:
  assumes "consume_totp cr now db i secret code = (True, db')" "distinct (map tp_user_id (hb_states db))"
  obtains k x where "code = Some x" "matched_step cr now secret x = Some k" "last_code db i < k" "last_code db' i = k"
proof -
  from assms(1) obtain x k where x: "code = Some x" "matched_step cr now secret x = Some k"
    and ex: "list_ex (\<lambda>s. tp_user_id s = i \<and> tp_last_timecode s < k) (hb_states (totp_state db i))"
    and db': "db' = set_state i (\<lambda>s. if tp_last_timecode s < k then s\<lparr>tp_last_timecode := k\<rparr> else s) (totp_state db i)"
    by (auto simp: consume_totp_def Let_def split: option.splits if_splits)
  have d: "distinct (map tp_user_id (hb_states (totp_state db i)))"
    using assms(2) by (auto simp: totp_state_def state_of_def find_None_iff)
  from ex obtain r where r: "r \<in> set (hb_states (totp_state db i))" "tp_user_id r = i" "tp_last_timecode r < k"
    by (auto simp: list_ex_iff)
  have first: "state_of (totp_state db i) i = Some r"
    using find_distinct [OF r(1) d] r(2) by (simp add: state_of_def)
  have "last_code (totp_state db i) i = last_code db i"
    by (auto simp: last_code_def state_of_totp split: option.split)
  then have "last_code db i < k" using first r(3) by (simp add: last_code_def)
  moreover have "last_code db' i = k" using first r(3) by (simp add: db' last_code_def state_of_set)
  ultimately show thesis by (rule that [OF x])
qed

lemma reencrypted:
  assumes "\<And>x. decrypt_secret cr (encrypt_secret env x) = Inr x" "setting_of db i = Some r"
    "decrypt_secret cr (tt_secret_encrypted r) = Inr secret"
  shows "enabled_with cr (set_setting i (\<lambda>s. s\<lparr>tt_secret_encrypted := encrypt_secret env secret\<rparr>) db) = enabled_with cr db"
  using assms by (auto simp: fun_eq_iff enabled_with_def setting_of_set)

lemma totp_enabled_set:
  "totp_enabled (set_setting i (\<lambda>s. s\<lparr>tt_secret_encrypted := x\<rparr>) db) = totp_enabled db"
  by (auto simp: fun_eq_iff totp_enabled_def setting_of_set split: option.split)

section \<open>An enrolled authenticator has no pending secret\<close>

definition auth_ok :: "auth_db \<Rightarrow> bool" where
  "auth_ok db \<longleftrightarrow> distinct (map tp_user_id (hb_states db)) \<and> (\<forall>u. totp_enabled db u \<longrightarrow> pending_of db u = None)"

lemma distinct_states:
  assumes "distinct (map tp_user_id (hb_states db))"
  shows "distinct (map tp_user_id (hb_states (totp_state db i)))"
    "(\<And>s. tp_user_id (f s) = tp_user_id s) \<Longrightarrow> distinct (map tp_user_id (hb_states (set_state i f db)))"
proof -
  show "distinct (map tp_user_id (hb_states (totp_state db i)))"
    using assms by (auto simp: totp_state_def state_of_def find_None_iff)
  assume f: "\<And>s. tp_user_id (f s) = tp_user_id s"
  have "map tp_user_id (hb_states (set_state i f db)) = map tp_user_id (hb_states db)"
    using f by (simp add: set_state_def)
  with assms show "distinct (map tp_user_id (hb_states (set_state i f db)))" by simp
qed

lemma consume_distinct:
  "consume_totp cr now db i secret code = (b, db') \<Longrightarrow> distinct (map tp_user_id (hb_states db)) \<Longrightarrow>
     distinct (map tp_user_id (hb_states db'))"
  by (auto simp: consume_totp_def Let_def distinct_states split: option.splits if_splits)

lemma auth_ok_cong: "hb_settings db' = hb_settings db \<Longrightarrow> hb_states db' = hb_states db \<Longrightarrow> auth_ok db' = auth_ok db"
  using totp_cong [of db' db] by (simp add: auth_ok_def)

lemma totp_enabled_cong: "setting_of db' = setting_of db \<Longrightarrow> totp_enabled db' = totp_enabled db"
  by (simp add: fun_eq_iff totp_enabled_def)

lemma consume_ok:
  assumes "auth_ok db" "consume_totp cr now db i secret code = (b, db')"
  shows "auth_ok db'"
  using assms consume_distinct [OF assms(2)] consume_forward [OF assms(2)] totp_enabled_cong [of db' db]
  by (simp add: auth_ok_def forward_def)

lemma factor_ok:
  assumes "auth_ok db" "verify_factor cr env db i code recovery = Inr (accepted, db')"
  shows "auth_ok db'"
  using assms(2)
proof (cases rule: verify_factor_cases)
  case recovery
  then show ?thesis using assms(1) consume_recovery_frame [OF recovery(3)] auth_ok_cong [of db' db] by auto
next
  case (code setting secret db1)
  have "auth_ok db1" using consume_ok [OF assms(1) code(5)] .
  then have "auth_ok (set_setting i (\<lambda>s. s\<lparr>tt_secret_encrypted := x\<rparr>) db1)" for x
    by (simp add: auth_ok_def totp_enabled_set pending_of_def) (simp add: set_setting_def)
  with \<open>auth_ok db1\<close> code(6) show ?thesis by simp
qed (use assms(1) in simp)

lemma totp_ok: "auth_ok db \<Longrightarrow> auth_ok (totp_state db i)"
  using totp_enabled_cong [of "totp_state db i" db] forward_totp [of db i]
  by (simp add: auth_ok_def distinct_states forward_def)

lemma enroll_ok:
  assumes "auth_ok db" "\<not> totp_enabled db i" "\<And>s. tp_user_id (f s) = tp_user_id s"
  shows "auth_ok (set_state i f (totp_state db i))"
proof -
  have e: "totp_enabled (set_state i f (totp_state db i)) = totp_enabled db"
    by (rule totp_enabled_cong) simp
  have "pending_of (set_state i f (totp_state db i)) u = None" if "totp_enabled db u" for u
  proof -
    have "u \<noteq> i" using that assms(2) by auto
    then show ?thesis
      using assms(1) that by (simp add: pending_of_def state_of_set assms(3) state_of_totp auth_ok_def)
  qed
  with assms(1) e show ?thesis by (simp add: auth_ok_def distinct_states assms(3))
qed

lemma clear_pending_of: "pending_of (clear_pending i db) u = (if u = i then None else pending_of db u)"
  by (simp add: clear_pending_def pending_of_def state_of_set split: option.split)

lemma last_code_clear [simp]: "last_code (clear_pending i db) = last_code db"
  by (simp add: fun_eq_iff clear_pending_def last_code_def state_of_set split: option.split)

lemma clear_setting [simp]: "setting_of (clear_pending i db) = setting_of db"
  by (simp add: clear_pending_def)

lemma setting_of_enable:
  "setting_of (enable_setting env i secret db) u = (if u = i
     then Some \<lparr>tt_user_id = i, tt_secret_encrypted = secret, tt_enabled = True, tt_confirmed_at = Some (ax_now env)\<rparr>
     else setting_of db u)"
proof (cases "setting_of db i")
  case None
  then show ?thesis by (auto simp: enable_setting_def Let_def setting_of_def find_snoc split: option.split)
next
  case (Some r)
  have "find (\<lambda>s. tt_user_id s = u) (map (\<lambda>s. if tt_user_id s = i then x else s) xs) =
      (if u = i then map_option (\<lambda>_. x) (find (\<lambda>s. tt_user_id s = u) xs) else find (\<lambda>s. tt_user_id s = u) xs)"
    if "tt_user_id x = i" for x :: totp_setting and xs
    using that by (induction xs) auto
  with Some show ?thesis by (simp add: enable_setting_def Let_def set_setting_def setting_of_def)
qed

lemma state_of_enable [simp]: "state_of (enable_setting env i secret db) = state_of db"
  "hb_states (enable_setting env i secret db) = hb_states db"
  by (simp_all add: fun_eq_iff enable_setting_def Let_def state_of_def set_setting_def)

lemma pending_of_enable: "pending_of (enable_setting env i secret db) = pending_of db"
  by (simp add: fun_eq_iff pending_of_def)

lemma distinct_clear: "distinct (map tp_user_id (hb_states db)) \<Longrightarrow> distinct (map tp_user_id (hb_states (clear_pending i db)))"
  by (simp add: clear_pending_def distinct_states)

lemma confirm_ok:
  assumes "auth_ok db" "consume_totp cr now (totp_state db i) i secret code = (True, db')"
  shows "auth_ok (clear_pending i (enable_setting env i pending db'))"
proof -
  have ok: "auth_ok db'" using consume_ok [OF totp_ok [OF assms(1)] assms(2)] .
  have "totp_enabled (clear_pending i (enable_setting env i pending db')) u \<Longrightarrow> u = i \<or> totp_enabled db' u" for u
    by (auto simp: totp_enabled_def setting_of_enable split: if_splits)
  with ok show ?thesis
    by (simp add: auth_ok_def clear_pending_of pending_of_enable distinct_clear) blast
qed

lemma disable_enabled:
  "totp_enabled (clear_pending i (totp_state (set_setting i (\<lambda>s. s\<lparr>tt_enabled := False\<rparr>) db) i)) u \<longleftrightarrow>
     u \<noteq> i \<and> totp_enabled db u"
  by (auto simp: totp_enabled_def setting_of_set split: option.split)

lemma disable_ok:
  assumes "auth_ok db"
  shows "auth_ok (clear_pending i (totp_state (set_setting i (\<lambda>s. s\<lparr>tt_enabled := False\<rparr>) db) i))"
proof -
  have "distinct (map tp_user_id (hb_states (set_setting i (\<lambda>s. s\<lparr>tt_enabled := False\<rparr>) db)))"
    using assms by (simp add: auth_ok_def set_setting_def)
  moreover have "pending_of (totp_state (set_setting i (\<lambda>s. s\<lparr>tt_enabled := False\<rparr>) db) i) u = pending_of db u" for u
    by (auto simp: pending_of_def state_of_totp split: option.split)
  ultimately show ?thesis
    using assms disable_enabled by (simp add: auth_ok_def clear_pending_of distinct_clear distinct_states)
qed

interpretation enrolled: request_parts cr env auth_ok for cr env
proof unfold_locales
  fix db i
  assume ok: "auth_ok db"
  show "auth_ok (audited action i actor db)" for action actor by (simp add: ok auth_ok_cong [of _ db])
  show "auth_ok (snd (revoke_sessions (ax_now env) i keep db))" for keep by (simp add: ok auth_ok_cong [of _ db])
  show "auth_ok (end_session (ax_now env) i db)" by (simp add: ok auth_ok_cong [of _ db])
  show "auth_ok (db\<lparr>hb_sessions := hb_sessions db @ [opened_session cr env i]\<rparr>)" by (simp add: ok auth_ok_cong [of _ db])
  show "auth_ok (db\<lparr>hb_users := [u]\<rparr>)" for u by (simp add: ok auth_ok_cong [of _ db])
  show "auth_ok (set_password i h db)" for h by (simp add: ok auth_ok_cong [of _ db])
  show "auth_ok (replace_recovery_codes env i db)" by (simp add: ok auth_ok_cong [of _ db])
  show "auth_ok (add_attempt env email reason db)" for email reason by (simp add: ok auth_ok_cong [of _ db])
qed (auto intro: factor_ok confirm_ok disable_ok enroll_ok consume_ok totp_ok)

section \<open>A used code stays used\<close>

definition spent :: "crypto \<Rightarrow> string \<Rightarrow> string \<Rightarrow> int \<Rightarrow> auth_db \<Rightarrow> bool" where
  "spent cr u secret k db \<longleftrightarrow> (enabled_with cr db u secret \<longrightarrow> k \<le> last_code db u) \<and> \<not> pending_with cr db u secret"

definition draws_other :: "crypto \<Rightarrow> string \<Rightarrow> auth_env \<Rightarrow> bool" where
  "draws_other cr secret env \<longleftrightarrow> (\<forall>x. decrypt_secret cr (encrypt_secret env x) = Inr x) \<and> ax_secret env \<noteq> secret"

lemma spent_cong: "hb_settings db' = hb_settings db \<Longrightarrow> hb_states db' = hb_states db \<Longrightarrow>
    spent cr u secret k db' = spent cr u secret k db"
  using totp_cong [of db' db] by (simp add: spent_def)

lemma spent_kept: "spent cr u secret k db \<Longrightarrow> hb_settings db' = hb_settings db \<Longrightarrow> hb_states db' = hb_states db \<Longrightarrow>
    spent cr u secret k db'"
  using spent_cong by blast

lemma spent_forward:
  assumes "spent cr u secret k db" "forward db db'" "enabled_with cr db' = enabled_with cr db"
  shows "spent cr u secret k db'"
proof -
  have "last_code db u \<le> last_code db' u" "pending_of db' = pending_of db" using assms(2) by (simp_all add: forward_def)
  with assms(1,3) show ?thesis by (auto simp: spent_def pending_with_def)
qed

lemma enabled_with_cong: "setting_of db' = setting_of db \<Longrightarrow> enabled_with cr db' = enabled_with cr db"
  by (simp add: fun_eq_iff enabled_with_def)

lemma spent_consume:
  "spent cr u s k db \<Longrightarrow> consume_totp cr now db i secret code = (b, db') \<Longrightarrow> spent cr u s k db'"
  using spent_forward consume_forward enabled_with_cong by metis

lemma spent_totp: "spent cr u s k db \<Longrightarrow> spent cr u s k (totp_state db i)"
  using spent_forward [OF _ forward_totp enabled_with_cong] by simp

lemma set_setting_forward: "forward db (set_setting i f db)"
  by (simp add: forward_def last_code_def pending_of_def fun_eq_iff)

lemma spent_factor:
  assumes "draws_other cr s env" "spent cr u s k db" "verify_factor cr env db i code recovery = Inr (accepted, db')"
  shows "spent cr u s k db'"
  using assms(3)
proof (cases rule: verify_factor_cases)
  case recovery
  then show ?thesis using assms(2) consume_recovery_frame [OF recovery(3)] spent_cong [of db' db] by auto
next
  case (code setting secret db1)
  have 1: "spent cr u s k db1" using spent_consume [OF assms(2) code(5)] .
  have "setting_of db1 i = Some setting" using consume_forward(2) [OF code(5)] code(1) by simp
  with code(4) assms(1) have
    "enabled_with cr (set_setting i (\<lambda>s. s\<lparr>tt_secret_encrypted := encrypt_secret env secret\<rparr>) db1) = enabled_with cr db1"
    by (intro reencrypted) (auto simp: draws_other_def)
  with 1 set_setting_forward code(6) show ?thesis by (auto intro: spent_forward)
qed (use assms(2) in simp)

lemma spent_enroll:
  assumes "draws_other cr s env" "spent cr u s k db" "\<not> totp_enabled db i"
  shows "spent cr u s k (set_state i (\<lambda>s. s\<lparr>tp_last_timecode := -1,
    tp_pending_secret := Some (encrypt_secret env (ax_secret env)),
    tp_pending_expires_at := Some (ax_now env + 10 * MINUTE)\<rparr>) (totp_state db i))" (is "spent cr u s k ?db")
proof (cases "u = i")
  case True
  have "\<not> enabled_with cr ?db u s" using assms(3) True by (auto simp: enabled_with_def totp_enabled_def)
  moreover have "\<not> pending_with cr ?db u s"
    using assms(1) True by (auto simp: pending_with_def pending_of_def state_of_set draws_other_def split: option.splits)
  ultimately show ?thesis by (simp add: spent_def)
next
  case False
  then have "last_code ?db u = last_code db u" "pending_of ?db u = pending_of db u"
    by (simp_all add: last_code_def pending_of_def state_of_set state_of_totp)
  with assms(2) show ?thesis by (simp add: spent_def enabled_with_def pending_with_def)
qed

lemma spent_confirm:
  assumes "spent cr u s k db" "pending_secret now (totp_state db i) i = Some pending"
    "decrypt_secret cr pending = Inr secret" "consume_totp cr now (totp_state db i) i secret code = (True, db')"
  shows "spent cr u s k (clear_pending i (enable_setting env i pending db'))"
proof -
  have 0: "spent cr u s k (totp_state db i)" using spent_totp [OF assms(1)] .
  have 1: "spent cr u s k db'" using spent_consume [OF 0 assms(4)] .
  have "pending_of (totp_state db i) i = Some pending"
    using assms(2) by (auto simp: pending_secret_def pending_of_def given_def split: option.splits if_splits)
  with assms(3) have "pending_with cr (totp_state db i) i secret" by (simp add: pending_with_def)
  with 0 have new: "u = i \<Longrightarrow> secret \<noteq> s" by (auto simp: spent_def)
  have "enabled_with cr (clear_pending i (enable_setting env i pending db')) u s \<Longrightarrow> enabled_with cr db' u s"
    using new assms(3) by (auto simp: enabled_with_def setting_of_enable split: if_splits)
  moreover have "last_code (clear_pending i (enable_setting env i pending db')) u = last_code db' u"
    by (simp add: last_code_def)
  moreover have "pending_with cr (clear_pending i (enable_setting env i pending db')) u s \<Longrightarrow> pending_with cr db' u s"
    by (auto simp: pending_with_def clear_pending_of pending_of_enable split: if_splits)
  ultimately show ?thesis using 1 by (auto simp: spent_def)
qed

lemma spent_disable:
  assumes "spent cr u s k db"
  shows "spent cr u s k (clear_pending i (totp_state (set_setting i (\<lambda>s. s\<lparr>tt_enabled := False\<rparr>) db) i))" (is "spent cr u s k ?db")
proof -
  have "enabled_with cr ?db u s \<Longrightarrow> enabled_with cr db u s"
    by (auto simp: enabled_with_def setting_of_set split: if_splits)
  moreover have "last_code ?db u = last_code db u"
    by (auto simp: last_code_def state_of_totp split: option.split)
  moreover have "pending_of (totp_state (set_setting i (\<lambda>s. s\<lparr>tt_enabled := False\<rparr>) db) i) u = pending_of db u"
    by (auto simp: pending_of_def state_of_totp split: option.split)
  then have "pending_with cr ?db u s \<Longrightarrow> pending_with cr db u s"
    by (auto simp: pending_with_def clear_pending_of split: if_splits)
  ultimately show ?thesis using assms by (auto simp: spent_def)
qed

interpretation codes: request_parts cr env "\<lambda>db. draws_other cr secret env \<longrightarrow> spent cr u secret k db"
  for cr env secret u k
proof unfold_locales
  fix db i
  assume ok: "draws_other cr secret env \<longrightarrow> spent cr u secret k db"
  show "draws_other cr secret env \<longrightarrow> spent cr u secret k (audited action i actor db)" for action actor
    using ok by (auto elim!: spent_kept)
  show "draws_other cr secret env \<longrightarrow> spent cr u secret k (snd (revoke_sessions (ax_now env) i keep db))" for keep
    using ok by (auto elim!: spent_kept)
  show "draws_other cr secret env \<longrightarrow> spent cr u secret k (end_session (ax_now env) i db)"
    using ok by (auto elim!: spent_kept)
  show "draws_other cr secret env \<longrightarrow> spent cr u secret k (db\<lparr>hb_sessions := hb_sessions db @ [opened_session cr env i]\<rparr>)"
    using ok by (auto elim!: spent_kept)
  show "draws_other cr secret env \<longrightarrow> spent cr u secret k (db\<lparr>hb_users := [x]\<rparr>)" for x
    using ok by (auto elim!: spent_kept)
  show "draws_other cr secret env \<longrightarrow> spent cr u secret k (set_password i h db)" for h
    using ok by (auto elim!: spent_kept)
  show "draws_other cr secret env \<longrightarrow> spent cr u secret k (replace_recovery_codes env i db)"
    using ok by (auto elim!: spent_kept)
  show "draws_other cr secret env \<longrightarrow> spent cr u secret k (add_attempt env email reason db)" for email reason
    using ok by (auto elim!: spent_kept)
qed (auto intro: spent_factor spent_enroll spent_consume [OF spent_totp] spent_confirm spent_disable)

lemma auth_ok_reachable: "(auth_step cr draws)\<^sup>*\<^sup>* s s' \<Longrightarrow> auth_ok (snd s) \<Longrightarrow> auth_ok (snd s')"
  by (induction rule: rtranclp_induct) (auto elim!: auth_step.cases intro: enrolled.handled_keeps)

lemma spent_reachable:
  assumes "(auth_step cr (\<lambda>env. ax_secret env \<noteq> secret))\<^sup>*\<^sup>* s s'" "spent cr u secret k (snd s)"
  shows "spent cr u secret k (snd s')"
  using assms
proof (induction rule: rtranclp_induct)
  case (step s' s'')
  from step.hyps(2) show ?case
  proof cases
    case (request t env db rq)
    have "draws_other cr secret env" using request(4,5) by (simp add: draws_other_def sound_env_def)
    with codes.handled_keeps [of cr secret env u k db rq] step.IH [OF step.prems] request(1,2) show ?thesis by simp
  qed
qed simp

lemma auth_ok_nobody: "auth_ok nobody"
  by (simp add: auth_ok_def nobody_def totp_enabled_def setting_of_def)

section \<open>Sessions end\<close>

definition signed_out :: "string set \<Rightarrow> string \<Rightarrow> auth_db \<Rightarrow> bool" where
  "signed_out ids u db \<longleftrightarrow> (\<forall>s \<in> set (hb_sessions db). ss_id s \<in> ids \<and> ss_user_id s = u \<longrightarrow> ss_revoked_at s \<noteq> None)"

lemma signed_out_cong: "signed_out ids u db \<Longrightarrow> hb_sessions db' = hb_sessions db \<Longrightarrow> signed_out ids u db'"
  by (simp add: signed_out_def)

lemma sessions_kept [simp]:
  "hb_sessions (add_attempt env email reason db) = hb_sessions db" "hb_sessions (audited action i actor db) = hb_sessions db"
  "hb_sessions (set_password i h db) = hb_sessions db" "hb_sessions (replace_recovery_codes env i db) = hb_sessions db"
  "hb_sessions (totp_state db i) = hb_sessions db" "hb_sessions (set_state i f db) = hb_sessions db"
  "hb_sessions (set_setting i g db) = hb_sessions db" "hb_sessions (clear_pending i db) = hb_sessions db"
  "hb_sessions (enable_setting env i x db) = hb_sessions db"
  by (simp_all add: add_attempt_def audited_def set_password_def replace_recovery_codes_def totp_state_def set_state_def
      set_setting_def clear_pending_def enable_setting_def Let_def)

lemma consume_sessions: "consume_totp cr now db i secret code = (b, db') \<Longrightarrow> hb_sessions db' = hb_sessions db"
  by (auto simp: consume_totp_def Let_def split: option.splits if_splits)

lemma factor_sessions: "verify_factor cr env db i code recovery = Inr (b, db') \<Longrightarrow> hb_sessions db' = hb_sessions db"
  by (elim verify_factor_cases) (auto dest: consume_recovery_frame consume_sessions)

definition names_other :: "string set \<Rightarrow> auth_env \<Rightarrow> bool" where
  "names_other ids env \<longleftrightarrow> ax_id env ''session'' \<notin> ids"

interpretation ended: request_parts cr env "\<lambda>db. names_other ids env \<longrightarrow> signed_out ids u db" for cr env ids u
proof unfold_locales
  fix db i code recovery accepted db'
  assume "names_other ids env \<longrightarrow> signed_out ids u db" "verify_factor cr env db i code recovery = Inr (accepted, db')"
  then show "names_other ids env \<longrightarrow> signed_out ids u db'" using signed_out_cong factor_sessions by blast
next
  fix db i secret code accepted db'
  assume w: "names_other ids env \<longrightarrow> signed_out ids u db"
    and c: "consume_totp cr (ax_now env) (totp_state db i) i secret code = (accepted, db')"
  show "names_other ids env \<longrightarrow> signed_out ids u db'" using w consume_sessions [OF c] by (auto elim: signed_out_cong)
next
  fix db i pending secret code db'
  assume w: "names_other ids env \<longrightarrow> signed_out ids u db"
    and c: "consume_totp cr (ax_now env) (totp_state db i) i secret code = (True, db')"
  show "names_other ids env \<longrightarrow> signed_out ids u (clear_pending i (enable_setting env i pending db'))"
    using w consume_sessions [OF c] by (auto elim: signed_out_cong)
qed (auto simp: signed_out_def names_other_def opened_session_def revoke_sessions_def end_session_def)

text \<open>Identifiers of sessions are never forgotten.\<close>

definition keeps_ids :: "string set \<Rightarrow> auth_db \<Rightarrow> bool" where
  "keeps_ids ids db \<longleftrightarrow> ids \<subseteq> set (map ss_id (hb_sessions db))"

lemma revoked_ids: "map ss_id (hb_sessions (snd (revoke_sessions now i keep db))) = map ss_id (hb_sessions db)"
  "map ss_id (hb_sessions (end_session now i db)) = map ss_id (hb_sessions db)"
  by (simp_all add: revoke_sessions_def end_session_def)

interpretation remembered: request_parts cr env "keeps_ids ids" for cr env ids
proof unfold_locales
  fix db i code recovery accepted db'
  assume "keeps_ids ids db" "verify_factor cr env db i code recovery = Inr (accepted, db')"
  then show "keeps_ids ids db'" using factor_sessions by (simp add: keeps_ids_def)
next
  fix db i secret code accepted db'
  assume w: "keeps_ids ids db"
    and c: "consume_totp cr (ax_now env) (totp_state db i) i secret code = (accepted, db')"
  show "keeps_ids ids db'" using w consume_sessions [OF c] by (simp add: keeps_ids_def)
next
  fix db i pending secret code db'
  assume w: "keeps_ids ids db"
    and c: "consume_totp cr (ax_now env) (totp_state db i) i secret code = (True, db')"
  show "keeps_ids ids (clear_pending i (enable_setting env i pending db'))"
    using w consume_sessions [OF c] by (simp add: keeps_ids_def)
qed (auto simp: keeps_ids_def revoked_ids simp del: set_map)

lemma signed_out_reachable:
  assumes "(auth_step cr draws)\<^sup>*\<^sup>* s s'" "signed_out ids u (snd s)" "keeps_ids ids (snd s)"
  shows "signed_out ids u (snd s') \<and> keeps_ids ids (snd s')"
  using assms
proof (induction rule: rtranclp_induct)
  case (step s' s'')
  from step.hyps(2) show ?case
  proof cases
    case (request t env db rq)
    from step.IH [OF step.prems] request(1) have ih: "signed_out ids u db" "keeps_ids ids db" by simp_all
    have "names_other ids env" using request(4) ih(2) by (auto simp: names_other_def sound_env_def keeps_ids_def)
    with ended.handled_keeps [of ids env u db cr rq] remembered.handled_keeps [OF ih(2), of cr env rq] ih(1) request(2)
    show ?thesis by simp
  qed
qed simp

section \<open>Recovery codes\<close>

definition used_up :: "string \<Rightarrow> auth_db \<Rightarrow> bool" where
  "used_up i db \<longleftrightarrow> (\<forall>q \<in> set (hb_codes db). rc_id q = i \<longrightarrow> rc_used_at q \<noteq> None)"

lemma used_up_cong: "used_up i db \<Longrightarrow> hb_codes db' = hb_codes db \<Longrightarrow> used_up i db'"
  by (simp add: used_up_def)

lemma codes_kept [simp]:
  "hb_codes (add_attempt env email reason db) = hb_codes db" "hb_codes (audited action i actor db) = hb_codes db"
  "hb_codes (set_password i h db) = hb_codes db" "hb_codes (snd (revoke_sessions now i keep db)) = hb_codes db"
  "hb_codes (end_session now i db) = hb_codes db"
  "hb_codes (totp_state db i) = hb_codes db" "hb_codes (set_state i f db) = hb_codes db"
  "hb_codes (set_setting i g db) = hb_codes db" "hb_codes (clear_pending i db) = hb_codes db"
  "hb_codes (enable_setting env i x db) = hb_codes db"
  by (simp_all add: add_attempt_def audited_def set_password_def revoke_sessions_def end_session_def totp_state_def
      set_state_def set_setting_def clear_pending_def enable_setting_def Let_def)

lemma consume_codes: "consume_totp cr now db i secret code = (b, db') \<Longrightarrow> hb_codes db' = hb_codes db"
  by (auto simp: consume_totp_def Let_def split: option.splits if_splits)

lemma used_up_recovery: "used_up j db \<Longrightarrow> consume_recovery cr now db i code = (b, db') \<Longrightarrow> used_up j db'"
  by (auto simp: consume_recovery_def used_up_def split: option.splits if_splits)

lemma used_up_factor:
  assumes u: "used_up j db" and v: "verify_factor cr env db i code recovery = Inr (b, db')"
  shows "used_up j db'"
  using v
proof (cases rule: verify_factor_cases)
  case (code setting s d1)
  have "hb_codes db' = hb_codes db" using consume_codes [OF code(5)] code(6) by simp
  with u show ?thesis by (rule used_up_cong)
qed (use u in \<open>auto dest: used_up_recovery\<close>)

interpretation recovery: request_parts cr env "\<lambda>db. j \<notin> fst ` set (ax_codes env) \<longrightarrow> used_up j db" for cr env j
proof unfold_locales
  fix db i code recovery accepted db'
  assume "j \<notin> fst ` set (ax_codes env) \<longrightarrow> used_up j db" "verify_factor cr env db i code recovery = Inr (accepted, db')"
  then show "j \<notin> fst ` set (ax_codes env) \<longrightarrow> used_up j db'" using used_up_factor by blast
next
  fix db i secret code accepted db'
  assume w: "j \<notin> fst ` set (ax_codes env) \<longrightarrow> used_up j db"
    and c: "consume_totp cr (ax_now env) (totp_state db i) i secret code = (accepted, db')"
  show "j \<notin> fst ` set (ax_codes env) \<longrightarrow> used_up j db'" using w consume_codes [OF c] by (auto elim: used_up_cong)
next
  fix db i pending secret code db'
  assume w: "j \<notin> fst ` set (ax_codes env) \<longrightarrow> used_up j db"
    and c: "consume_totp cr (ax_now env) (totp_state db i) i secret code = (True, db')"
  show "j \<notin> fst ` set (ax_codes env) \<longrightarrow> used_up j (clear_pending i (enable_setting env i pending db'))"
    using w consume_codes [OF c] by (auto elim: used_up_cong)
next
  fix db i
  assume "j \<notin> fst ` set (ax_codes env) \<longrightarrow> used_up j db"
  then show "j \<notin> fst ` set (ax_codes env) \<longrightarrow> used_up j (replace_recovery_codes env i db)"
    by (force simp: used_up_def replace_recovery_codes_def)
qed (auto elim: used_up_cong)

lemma used_up_reachable:
  assumes "(auth_step cr (\<lambda>env. j \<notin> fst ` set (ax_codes env)))\<^sup>*\<^sup>* s s'" "used_up j (snd s)"
  shows "used_up j (snd s')"
  using assms
proof (induction rule: rtranclp_induct)
  case (step s' s'')
  from step.hyps(2) show ?case
  proof cases
    case (request t env db rq)
    with recovery.handled_keeps [of j env db cr rq] step.IH [OF step.prems] show ?thesis by simp
  qed
qed simp

section \<open>Properties\<close>

lemma enrolled_after:
  assumes v: "verify_factor cr env db u (Some code) recovery = Inr (True, db1)" "enabled_with cr db u secret"
    and none: "given recovery = None" and law: "\<And>x. decrypt_secret cr (encrypt_secret env x) = Inr x"
  shows "enabled_with cr db1 u secret"
  using v(1)
proof (cases rule: verify_factor_cases)
  case (code setting s d1)
  have d1: "setting_of d1 = setting_of db" using consume_forward(2) [OF code(5)] .
  have "enabled_with cr db1 = enabled_with cr d1"
    using reencrypted [of cr env d1 u setting s] law code(1,4,6) d1 by auto
  with enabled_with_cong [OF d1] v(2) show ?thesis by simp
qed (use v(2) none in \<open>auto simp: enabled_with_def totp_enabled_def\<close>)

lemma accepted_code:
  assumes v: "verify_factor cr env db u (Some code) recovery = Inr (True, db1)" and none: "given recovery = None"
    and en: "enabled_with cr db u secret" and ok: "auth_ok db"
  shows "\<exists>k. matched_step cr (ax_now env) secret code = Some k \<and> last_code db u < k \<and> last_code db1 u = k"
  using v
proof (cases rule: verify_factor_cases)
  case unasked
  with en show ?thesis by (auto simp: enabled_with_def totp_enabled_def)
next
  case (code setting s d1)
  from code(1,4) en have s: "s = secret" by (auto simp: enabled_with_def)
  obtain k where "matched_step cr (ax_now env) secret code = Some k" "last_code db u < k" "last_code d1 u = k"
    using code(5) ok unfolding s by (auto simp: auth_ok_def elim: consume_accepts)
  moreover have "last_code db1 u = last_code d1 u" using code(6) by (simp add: last_code_def)
  ultimately show ?thesis by simp
qed (use none in simp)

text \<open>C30: a one-time code is accepted once. In a state reached from an empty database, let a request (a login,
  a new password, fresh recovery codes or the end of the second factor) be accepted for an account with
  a one-time code. After any further requests to the state it left, as long as the account still uses
  the same secret and no enrollment drew that secret again, the code of every request accepted later
  belongs to a strictly later time step. In particular the same code is not accepted again in its own
  window. (A request refused after its proof was accepted, such as a new password equal to the old one,
  is rolled back with what the proof consumed, and is no acceptance here.)\<close>

theorem one_time_codes:
  assumes start: "(auth_step cr draws)\<^sup>*\<^sup>* (t0, nobody) (t, db)"
    and env: "sound_env cr env db" "ax_secret env \<noteq> secret"
    and first: "accepted_for cr env db rq u p" "sp_totp_code p = Some code" "given (sp_recovery_code p) = None"
      "enabled_with cr db u secret"
    and later: "(auth_step cr (\<lambda>e. ax_secret e \<noteq> secret))\<^sup>*\<^sup>* (ax_now env, handled cr env db rq) (t', db2)"
    and again: "accepted_for cr env' db2 rq' u p'" "sp_totp_code p' = Some code'" "given (sp_recovery_code p') = None"
      "enabled_with cr db2 u secret"
  shows "\<exists>k k'. matched_step cr (ax_now env) secret code = Some k \<and> matched_step cr (ax_now env') secret code' = Some k' \<and> k < k'"
proof -
  have law: "decrypt_secret cr (encrypt_secret env x) = Inr x" for x using env(1) by (simp add: sound_env_def)
  have ok: "auth_ok db" using auth_ok_reachable [OF start] auth_ok_nobody by simp
  obtain db1 where v: "verify_factor cr env db u (Some code) (sp_recovery_code p) = Inr (True, db1)"
    using enrolled.accepted_keeps [OF first(1)] unfolding first(2) by blast
  obtain k where k: "matched_step cr (ax_now env) secret code = Some k" "last_code db1 u = k"
    using accepted_code [OF v first(3,4) ok] by blast
  have ok1: "auth_ok db1" using factor_ok [OF ok v] .
  have "totp_enabled db1 u"
    using enrolled_after [OF v first(4,3) law] by (auto simp: enabled_with_def totp_enabled_def)
  with ok1 have "\<not> pending_with cr db1 u secret" by (auto simp: auth_ok_def pending_with_def)
  with k(2) have s1: "spent cr u secret k db1" by (simp add: spent_def)
  have "draws_other cr secret env" using law env(2) by (simp add: draws_other_def)
  then have "spent cr u secret k (handled cr env db rq)"
    using codes.accepted_keeps [OF first(1), of secret u k] v s1 unfolding first(2) by auto
  with spent_reachable [OF later] have "spent cr u secret k db2" by simp
  with again(4) have "k \<le> last_code db2 u" by (simp add: spent_def)
  moreover have "auth_ok db2" using auth_ok_reachable [OF later] enrolled.handled_keeps [OF ok] by simp
  moreover obtain db3 where "verify_factor cr env' db2 u (Some code') (sp_recovery_code p') = Inr (True, db3)"
    using enrolled.accepted_keeps [OF again(1)] unfolding again(2) by blast
  ultimately show ?thesis using accepted_code [OF _ again(3,4)] k(1) by force
qed

lemma accepted_recovery:
  assumes v: "verify_factor cr env db u code recovery = Inr (True, db1)" "totp_enabled db u" "given recovery \<noteq> None"
  obtains r x where "r \<in> set (hb_codes db)" "recovery = Some x" "unused u r" "cr_verify cr (rc_code_hash r) x"
    "used_up (rc_id r) db1"
proof -
  have "consume_recovery cr (ax_now env) db u recovery = (True, db1)"
    using v(1) by (cases rule: verify_factor_cases) (use v in auto)
  then obtain x r where x: "recovery = Some x"
    and f: "find (\<lambda>r. unused u r \<and> cr_verify cr (rc_code_hash r) x) (hb_codes db) = Some r"
    and db1: "db1 = db\<lparr>hb_codes := map (\<lambda>q. if rc_id q = rc_id r \<and> rc_used_at q = None
        then q\<lparr>rc_used_at := Some (ax_now env)\<rparr> else q) (hb_codes db)\<rparr>"
    by (auto simp: consume_recovery_def given_def split: option.splits if_splits)
  have "used_up (rc_id r) db1" by (auto simp: used_up_def db1)
  moreover from f have "r \<in> set (hb_codes db)" "unused u r" "cr_verify cr (rc_code_hash r) x"
    by (auto simp: find_Some_iff)
  ultimately show thesis using that x by blast
qed

text \<open>C31: a recovery code is accepted once. A request accepted for an account with a recovery code used a row of
  the account that was unused and matches the code; and from the state the request left on, in every
  state any later requests lead to, every row with that row's identifier is marked as used, as long as
  no fresh code takes the identifier, so that a later request accepted with a recovery code used
  another row. (A request refused after its proof was accepted is rolled back with the mark, and is no
  acceptance here.)\<close>

theorem recovery_code_once:
  assumes first: "accepted_for cr env db rq u p" "given (sp_recovery_code p) \<noteq> None" "totp_enabled db u"
    and env: "sound_env cr env db"
  shows "\<exists>r x. r \<in> set (hb_codes db) \<and> sp_recovery_code p = Some x \<and> unused u r \<and> cr_verify cr (rc_code_hash r) x \<and>
     (\<forall>t' db2. (auth_step cr (\<lambda>e. rc_id r \<notin> fst ` set (ax_codes e)))\<^sup>*\<^sup>* (ax_now env, handled cr env db rq) (t', db2) \<longrightarrow>
       (\<forall>q \<in> set (hb_codes db2). rc_id q = rc_id r \<longrightarrow> \<not> unused u q) \<and>
       (\<forall>env' rq' p'. accepted_for cr env' db2 rq' u p' \<and> given (sp_recovery_code p') \<noteq> None \<and> totp_enabled db2 u \<longrightarrow>
         (\<exists>q x'. q \<in> set (hb_codes db2) \<and> sp_recovery_code p' = Some x' \<and> unused u q \<and>
           cr_verify cr (rc_code_hash q) x' \<and> rc_id q \<noteq> rc_id r)))"
proof -
  obtain db1 where v: "verify_factor cr env db u (sp_totp_code p) (sp_recovery_code p) = Inr (True, db1)"
    using enrolled.accepted_keeps [OF first(1)] by blast
  obtain r x where r: "r \<in> set (hb_codes db)" "sp_recovery_code p = Some x" "unused u r" "cr_verify cr (rc_code_hash r) x"
    and used: "used_up (rc_id r) db1"
    by (rule accepted_recovery [OF v first(3,2)])
  have "rc_id r \<notin> fst ` set (ax_codes env)" using env r(1) by (auto simp: sound_env_def)
  then have "used_up (rc_id r) (handled cr env db rq)"
    using recovery.accepted_keeps [OF first(1), of "rc_id r"] v used by auto
  note from_here = used_up_reachable [where j = "rc_id r" and s = "(ax_now env, handled cr env db rq)"]
  have "(\<forall>q \<in> set (hb_codes db2). rc_id q = rc_id r \<longrightarrow> \<not> unused u q) \<and>
       (\<forall>env' rq' p'. accepted_for cr env' db2 rq' u p' \<and> given (sp_recovery_code p') \<noteq> None \<and> totp_enabled db2 u \<longrightarrow>
         (\<exists>q x'. q \<in> set (hb_codes db2) \<and> sp_recovery_code p' = Some x' \<and> unused u q \<and>
           cr_verify cr (rc_code_hash q) x' \<and> rc_id q \<noteq> rc_id r))"
    if later: "(auth_step cr (\<lambda>e. rc_id r \<notin> fst ` set (ax_codes e)))\<^sup>*\<^sup>* (ax_now env, handled cr env db rq) (t', db2)"
    for t' db2
  proof (intro conjI allI impI)
    have "used_up (rc_id r) db2" using used_up_reachable [OF later] \<open>used_up (rc_id r) (handled cr env db rq)\<close> by simp
    then show marked: "\<forall>q \<in> set (hb_codes db2). rc_id q = rc_id r \<longrightarrow> \<not> unused u q"
      by (auto simp: used_up_def unused_def)
    fix env' rq' p'
    assume a: "accepted_for cr env' db2 rq' u p' \<and> given (sp_recovery_code p') \<noteq> None \<and> totp_enabled db2 u"
    then obtain db3 where v': "verify_factor cr env' db2 u (sp_totp_code p') (sp_recovery_code p') = Inr (True, db3)"
      using enrolled.accepted_keeps [of cr env' db2 rq' u p'] by blast
    show "\<exists>q x'. q \<in> set (hb_codes db2) \<and> sp_recovery_code p' = Some x' \<and> unused u q \<and>
           cr_verify cr (rc_code_hash q) x' \<and> rc_id q \<noteq> rc_id r"
      using accepted_recovery [OF v'] a marked by metis
  qed
  with r show ?thesis by blast
qed

text \<open>What a refused request consumed is given back: a new password that equals the old one is refused after
  its proof, and leaves the database as it was, with the code unused.\<close>

lemma refused_change_consumes_nothing:
  assumes "current_user cr env db = Inr (user, active)" "require_proof cr env db user p True = Inr db'"
  shows "change_password cr env db p (sp_password p) = (Inl (HTTPError 422 ''Choose a different password''), db)"
  using assms by (simp add: change_password_def with_proof_def Let_def)

text \<open>C32: changing the password ends every session of the account. After an accepted change, whatever
  requests follow and at whatever time, a cookie never opens a session of that account that existed
  when the password was changed.\<close>

theorem password_change_signs_out:
  assumes changed: "change_password cr env db p new_password = (Inr n, db1)"
    and who: "current_user cr env db = Inr (user, active)"
    and later: "(auth_step cr draws)\<^sup>*\<^sup>* (ax_now env, db1) (t', db2)"
    and found: "find_session cr now db2 token = Some s" "ss_user_id s = us_id user"
  shows "ss_id s \<notin> ss_id ` set (hb_sessions db)"
proof -
  let ?ids = "ss_id ` set (hb_sessions db)"
  from changed who obtain d where d: "require_proof cr env db user p True = Inr d"
    and db1: "hb_sessions db1 =
      map (\<lambda>s. if revoked (ax_now env) (us_id user) None s then s\<lparr>ss_revoked_at := Some (ax_now env)\<rparr> else s) (hb_sessions d)"
    by (auto simp: change_password_def with_proof_def revoke_sessions_def Let_def split: sum.splits if_splits)
  have same: "hb_sessions d = hb_sessions db"
    using d by (auto simp: require_proof_def proof_checked_def Let_def dest: factor_sessions split: sum.splits if_splits)
  have out: "signed_out ?ids (us_id user) db1" "keeps_ids ?ids db1"
    by (auto simp: signed_out_def keeps_ids_def db1 same revoked_def)
  then have "signed_out ?ids (us_id user) db2" using signed_out_reachable [OF later] by simp
  moreover have "s \<in> set (hb_sessions db2) \<and> ss_revoked_at s = None"
    using found(1) by (auto simp: find_session_def find_Some_iff active_session_def split: option.splits if_splits)
  ultimately show ?thesis using found(2) by (auto simp: signed_out_def)
qed

section \<open>A concrete account\<close>

text \<open>One-time codes of time steps of thirty seconds, hashes and ciphers that are the identity, and
  requests at a time, with identifiers that end in the request's own tag.\<close>

definition sample_crypto :: crypto where
  "sample_crypto = \<lparr>cr_local_demo = True, cr_verify = (\<lambda>h x. h = x), cr_fernet = Some,
     cr_otp = (\<lambda>s k. if k = 0 then ''000000'' else if k = 1 then ''111111'' else ''222222''),
     cr_timecode = (\<lambda>t. t div 30), cr_digest = (\<lambda>x. x)\<rparr>"

definition sample_env :: "int \<Rightarrow> string \<Rightarrow> string \<Rightarrow> auth_env" where
  "sample_env now tag secret = \<lparr>ax_now = now, ax_ip = Some ''ip'', ax_cookie = Some ''token'', ax_hash = (\<lambda>x. x),
     ax_encrypt = (\<lambda>x. x), ax_secret = secret, ax_codes = [(tag, ''recovery'')], ax_token = ''token'',
     ax_id = (\<lambda>kind. kind @ tag)\<rparr>"

definition sample_proof :: "string option \<Rightarrow> security_proof" where
  "sample_proof code = \<lparr>sp_password = ''password'', sp_totp_code = code, sp_recovery_code = None\<rparr>"

definition sample_admin :: auth_db where
  "sample_admin = nobody\<lparr>hb_users := [\<lparr>us_id = ''user1'', us_email = ''admin'', us_password_hash = ''password'',
       us_role = ''ADMIN'', us_is_active = True\<rparr>],
     hb_audit := [(''auth.setup'', ''user1'', Some ''user1'')]\<rparr>"

definition sample_session :: auth_db where
  "sample_session = sample_admin\<lparr>
     hb_sessions := [\<lparr>ss_id = ''session2'', ss_created_at = 0, ss_user_id = ''user1'', ss_hash = ''sha256:token'',
       ss_expires_at = 28800000000, ss_revoked_at = None\<rparr>],
     hb_attempts := [\<lparr>la_created_at = 0, la_email = ''admin'', la_success = True, la_ip = Some ''ip'',
       la_failure_reason = None\<rparr>]\<rparr>"

definition sample_enrolled :: auth_db where
  "sample_enrolled = sample_session\<lparr>
     hb_states := [\<lparr>tp_user_id = ''user1'', tp_last_timecode = -1, tp_pending_secret = Some ''fernet:S'',
       tp_pending_expires_at = Some 600000000\<rparr>],
     hb_audit := hb_audit sample_session @ [(''AUTH_TOTP_ENROLLMENT_STARTED'', ''user1'', Some ''user1'')]\<rparr>"

definition sample_confirmed :: auth_db where
  "sample_confirmed = sample_enrolled\<lparr>
     hb_settings := [\<lparr>tt_user_id = ''user1'', tt_secret_encrypted = ''fernet:S'', tt_enabled = True,
       tt_confirmed_at = Some 0\<rparr>],
     hb_states := [\<lparr>tp_user_id = ''user1'', tp_last_timecode = 0, tp_pending_secret = None,
       tp_pending_expires_at = None\<rparr>],
     hb_codes := [\<lparr>rc_id = ''4'', rc_user_id = ''user1'', rc_code_hash = ''recovery'', rc_used_at = None\<rparr>],
     hb_audit := hb_audit sample_enrolled @ [(''AUTH_TOTP_ENABLED'', ''user1'', Some ''user1'')]\<rparr>"

lemma sample_handled:
  "handled sample_crypto (sample_env 0 ''1'' ''S'') nobody (Setup ''admin'' ''password'') = sample_admin"
  "handled sample_crypto (sample_env 0 ''2'' ''S'') sample_admin (Login ''admin'' (sample_proof None)) = sample_session"
  "handled sample_crypto (sample_env 0 ''3'' ''S'') sample_session (Enroll (sample_proof None)) = sample_enrolled"
  "handled sample_crypto (sample_env 0 ''4'' ''S'') sample_enrolled (Confirm (sample_proof (Some ''000000''))) = sample_confirmed"
  by code_simp+

lemma sample_cipher: "decrypt_secret sample_crypto (encrypt_secret (sample_env now tag secret) x) = Inr x"
  by (simp add: decrypt_secret_def encrypt_secret_def sample_crypto_def sample_env_def)

lemma sample_step:
  assumes "handled sample_crypto (sample_env now tag secret) db rq = db'"
    "t \<le> now" "''session'' @ tag \<notin> ss_id ` set (hb_sessions db)" "tag \<notin> rc_id ` set (hb_codes db)"
    "draws (sample_env now tag secret)"
  shows "auth_step sample_crypto draws (t, db) (now, db')"
  using auth_step.request [of t "sample_env now tag secret" sample_crypto db draws rq] assms sample_cipher
  by (simp add: sound_env_def) (simp add: sample_env_def)

lemmas sample_steps = sample_handled [THEN sample_step]

lemma sample_run:
  "(auth_step sample_crypto (\<lambda>_. True))\<^sup>*\<^sup>* (0, nobody) (0, sample_session)"
  "(auth_step sample_crypto (\<lambda>_. True))\<^sup>*\<^sup>* (0, nobody) (0, sample_confirmed)"
proof -
  note into = rtranclp.rtrancl_into_rtrancl
  have "auth_step sample_crypto (\<lambda>_. True) (0, nobody) (0, sample_admin)"
    by (rule sample_steps(1)) code_simp+
  then have admin: "(auth_step sample_crypto (\<lambda>_. True))\<^sup>*\<^sup>* (0, nobody) (0, sample_admin)" by (rule r_into_rtranclp)
  have "auth_step sample_crypto (\<lambda>_. True) (0, sample_admin) (0, sample_session)"
    by (rule sample_steps(2)) code_simp+
  from into [OF admin this]
  show session: "(auth_step sample_crypto (\<lambda>_. True))\<^sup>*\<^sup>* (0, nobody) (0, sample_session)" .
  have "auth_step sample_crypto (\<lambda>_. True) (0, sample_session) (0, sample_enrolled)"
    by (rule sample_steps(3)) code_simp+
  from into [OF session this]
  have enrolled: "(auth_step sample_crypto (\<lambda>_. True))\<^sup>*\<^sup>* (0, nobody) (0, sample_enrolled)" .
  have "auth_step sample_crypto (\<lambda>_. True) (0, sample_enrolled) (0, sample_confirmed)"
    by (rule sample_steps(4)) code_simp+
  from into [OF enrolled this]
  show "(auth_step sample_crypto (\<lambda>_. True))\<^sup>*\<^sup>* (0, nobody) (0, sample_confirmed)" .
qed

lemma sample_enabled: "enabled_with sample_crypto sample_confirmed ''user1'' ''S''"
  by (simp add: enabled_with_def setting_of_def sample_confirmed_def decrypt_secret_def sample_crypto_def)

lemma sample_now: "ax_now (sample_env t tag x) = t"
  by (simp add: sample_env_def)

text \<open>Logins with one-time codes, and with the recovery code.\<close>

definition sample_login :: "string option \<Rightarrow> string option \<Rightarrow> auth_request" where
  "sample_login code recovery = Login ''admin'' (sample_proof code\<lparr>sp_recovery_code := recovery\<rparr>)"

abbreviation sample_after :: "int \<Rightarrow> string \<Rightarrow> auth_request \<Rightarrow> auth_db" where
  "sample_after now tag rq \<equiv> handled sample_crypto (sample_env now tag ''X'') sample_confirmed rq"

lemma sample_sound: "sound_env sample_crypto (sample_env 30 ''5'' ''X'') sample_confirmed"
  using sample_cipher [of 30 "''5''" "''X''"]
  by (simp add: sound_env_def) (simp add: sample_env_def sample_confirmed_def sample_enrolled_def sample_session_def)

theorem one_time_codes_witness:
  "\<exists>k k'. matched_step sample_crypto 30 ''S'' ''111111'' = Some k \<and> matched_step sample_crypto 60 ''S'' ''222222'' = Some k' \<and> k < k'"
proof -
  let ?first = "sample_login (Some ''111111'') None" and ?again = "sample_login (Some ''222222'') None"
  let ?p = "\<lambda>code. sample_proof (Some code)\<lparr>sp_recovery_code := None\<rparr>"
  let ?out = "handled sample_crypto (sample_env 40 ''6'' ''X'') (sample_after 30 ''5'' ?first) Logout"
  have first: "accepted_for sample_crypto (sample_env 30 ''5'' ''X'') sample_confirmed ?first ''user1'' (?p ''111111'')"
    by code_simp
  have "auth_step sample_crypto (\<lambda>e. ax_secret e \<noteq> ''S'') (30, sample_after 30 ''5'' ?first) (40, ?out)"
    by (rule sample_step [OF refl]) code_simp+
  then have later: "(auth_step sample_crypto (\<lambda>e. ax_secret e \<noteq> ''S''))\<^sup>*\<^sup>*
      (ax_now (sample_env 30 ''5'' ''X''), sample_after 30 ''5'' ?first) (40, ?out)"
    unfolding sample_now by (rule r_into_rtranclp)
  have again: "accepted_for sample_crypto (sample_env 60 ''7'' ''X'') ?out ?again ''user1'' (?p ''222222'')"
    by code_simp
  have "hb_settings ?out = hb_settings sample_confirmed" by code_simp
  then have enabled: "enabled_with sample_crypto ?out ''user1'' ''S''"
    using sample_enabled setting_of_cong [of ?out sample_confirmed] by (simp add: enabled_with_def)
  have given: "sp_totp_code (?p code) = Some code" "given (sp_recovery_code (?p code)) = None" for code
    by (simp_all add: sample_proof_def given_def)
  have "ax_secret (sample_env 30 ''5'' ''X'') \<noteq> ''S''" by (simp add: sample_env_def)
  from one_time_codes [OF sample_run(2) sample_sound this first given sample_enabled later again given enabled]
  show ?thesis unfolding sample_now .
qed

theorem recovery_code_once_witness:
  "\<exists>r x. r \<in> set (hb_codes sample_confirmed) \<and> unused ''user1'' r \<and> cr_verify sample_crypto (rc_code_hash r) x \<and>
     (\<forall>q \<in> set (hb_codes (sample_after 30 ''5'' (sample_login None (Some ''recovery'')))). rc_id q = rc_id r \<longrightarrow>
        \<not> unused ''user1'' q)"
proof -
  let ?p = "sample_proof None\<lparr>sp_recovery_code := Some ''recovery''\<rparr>"
  have "accepted_for sample_crypto (sample_env 30 ''5'' ''X'') sample_confirmed (sample_login None (Some ''recovery''))
      ''user1'' ?p" by code_simp
  moreover have "given (sp_recovery_code ?p) \<noteq> None" "totp_enabled sample_confirmed ''user1''" by code_simp+
  ultimately show ?thesis using recovery_code_once [OF _ _ _ sample_sound] by (fastforce simp: sample_now)
qed

definition sample_changed :: auth_db where
  "sample_changed = snd (change_password sample_crypto (sample_env 10 ''5'' ''X'') sample_session (sample_proof None)
     ''new password'')"

definition sample_again :: auth_db where
  "sample_again = handled sample_crypto (sample_env 20 ''6'' ''X'') sample_changed
     (Login ''admin'' (sample_proof None\<lparr>sp_password := ''new password''\<rparr>))"

theorem password_change_signs_out_witness:
  "\<exists>s :: session_row. find_session sample_crypto 30 sample_again (Some ''token'') = Some s \<and> ss_id s \<notin> {''session2''}"
proof -
  let ?s = "last (hb_sessions sample_again)"
  have s: "find_session sample_crypto 30 sample_again (Some ''token'') = Some ?s" by code_simp
  have owner: "ss_user_id ?s = ''user1''" by code_simp
  have who: "current_user sample_crypto (sample_env 10 ''5'' ''X'') sample_session =
      Inr (hd (hb_users sample_session), hd (hb_sessions sample_session))" by code_simp
  have changed: "change_password sample_crypto (sample_env 10 ''5'' ''X'') sample_session (sample_proof None) ''new password'' =
      (Inr 1, sample_changed)" by code_simp
  have "auth_step sample_crypto (\<lambda>_. True) (10, sample_changed) (20, sample_again)"
    by (rule sample_step [OF sample_again_def [symmetric]]) code_simp+
  then have later: "(auth_step sample_crypto (\<lambda>_. True))\<^sup>*\<^sup>* (ax_now (sample_env 10 ''5'' ''X''), sample_changed) (20, sample_again)"
    unfolding sample_now by (rule r_into_rtranclp)
  have ids: "ss_id ` set (hb_sessions sample_session) = {''session2''}" "us_id (hd (hb_users sample_session)) = ''user1''"
    by (simp_all add: sample_session_def sample_admin_def)
  show ?thesis using password_change_signs_out [OF changed who later s] s owner unfolding ids by blast
qed

end
