(* ===== verification/Sign_In_Races.thy ===== *)
theory Sign_In_Races
  imports Authentication_Facts
begin

text \<open>
  The limit on failed proofs of identity when requests overlap. \<open>auth_guards.check_login_limit\<close> counts
  the failures of the last quarter of an hour and takes no lock; \<open>main.login\<close> and
  \<open>auth_api.require_proof\<close> then verify the password, which takes its time, and record a failure
  afterwards. So a request counts in one step and records in a later one, and other requests come in
  between. At most \<open>n\<close> requests are between the two at any time.
\<close>

section \<open>Overlapping requests\<close>

text \<open>The e-mail and network address of each request that has counted and not yet recorded.\<close>

type_synonym in_flight = "(string \<times> string option) list"

type_synonym sign_in_machine = "int \<times> in_flight \<times> auth_db"

text \<open>The attempts a handler may leave after its proof is accepted: none, or one of its own.\<close>

definition commits :: "auth_env \<Rightarrow> string \<Rightarrow> auth_db \<Rightarrow> auth_db \<Rightarrow> bool" where
  "commits env email db db' \<longleftrightarrow> hb_attempts db' = hb_attempts db \<or>
     (\<exists>reason. hb_attempts db' = hb_attempts (add_attempt env email reason db))"

text \<open>A request counts; a login or a proof of identity that has counted goes on, to a refusal or to the
  rest of its handler; a request may die; and anything that records no attempt happens at any time.\<close>

inductive racing_step :: "crypto \<Rightarrow> nat \<Rightarrow> sign_in_machine \<Rightarrow> sign_in_machine \<Rightarrow> bool" for cr n where
  counted: "t \<le> now \<Longrightarrow> check_login_limit now db email ip = Inr () \<Longrightarrow> length fl < n \<Longrightarrow>
    racing_step cr n (t, fl, db) (now, (email, ip) # fl, db)"
| login: "t \<le> ax_now env \<Longrightarrow> (email, ax_ip env) \<in> set fl \<Longrightarrow>
    racing_step cr n (t, fl, db)
      (ax_now env, remove1 (email, ax_ip env) fl, snd (login_checked cr env db email p))"
| refused: "t \<le> ax_now env \<Longrightarrow> (us_email user, ax_ip env) \<in> set fl \<Longrightarrow>
    proof_checked cr env db user p factor = Inl (e, db') \<Longrightarrow>
    racing_step cr n (t, fl, db) (ax_now env, remove1 (us_email user, ax_ip env) fl, db')"
| proved: "t \<le> ax_now env \<Longrightarrow> (us_email user, ax_ip env) \<in> set fl \<Longrightarrow>
    proof_checked cr env db user p factor = Inr db1 \<Longrightarrow> commits env (us_email user) db1 db' \<Longrightarrow>
    racing_step cr n (t, fl, db) (ax_now env, remove1 (us_email user, ax_ip env) fl, db')"
| died: "racing_step cr n (t, fl, db) (t, remove1 request fl, db)"
| other: "t \<le> now \<Longrightarrow> hb_attempts db' = hb_attempts db \<Longrightarrow> racing_step cr n (t, fl, db) (now, fl, db')"

section \<open>A request handled alone\<close>

lemma other_attempts_kept [simp]: "hb_attempts (end_session now i db) = hb_attempts db"
  "hb_attempts (set_password i h db) = hb_attempts db" "hb_attempts (replace_recovery_codes env i db) = hb_attempts db"
  "hb_attempts (clear_pending i db) = hb_attempts db" "hb_attempts (enable_setting env i x db) = hb_attempts db"
  by (simp_all add: end_session_def set_password_def replace_recovery_codes_def clear_pending_def enable_setting_def Let_def)

lemma counted_alone:
  assumes "t \<le> ax_now env" "check_login_limit (ax_now env) db email (ax_ip env) = Inr ()" "0 < n"
    "racing_step cr n (ax_now env, [(email, ax_ip env)], db) (ax_now env, [], db')"
  shows "(racing_step cr n)\<^sup>*\<^sup>* (t, [], db) (ax_now env, [], db')"
proof -
  have "racing_step cr n (t, [], db) (ax_now env, [(email, ax_ip env)], db)"
    using racing_step.counted [OF assms(1,2), of "[]" n cr] assms(3) by simp
  with assms(4) show ?thesis by (blast intro: converse_rtranclp_into_rtranclp)
qed

lemma proof_alone:
  assumes "t \<le> ax_now env" "0 < n"
    and body: "\<And>user active db'. hb_attempts db' = hb_attempts db \<Longrightarrow> commits env (us_email user) db' (snd (body user active db'))"
  shows "(racing_step cr n)\<^sup>*\<^sup>* (t, [], db) (ax_now env, [], snd (with_proof cr env db p factor body))"
proof -
  have idle: "(racing_step cr n)\<^sup>*\<^sup>* (t, [], db) (ax_now env, [], db)"
    using racing_step.other [OF assms(1), of db db cr n "[]"] by blast
  show ?thesis
  proof (cases "current_user cr env db")
    case (Inl e)
    then have "snd (with_proof cr env db p factor body) = db" by (simp add: with_proof_def)
    then show ?thesis by (simp add: idle)
  next
    case (Inr ua)
    then obtain user active where u: "current_user cr env db = Inr (user, active)" by (cases ua) simp
    show ?thesis
    proof (cases "check_login_limit (ax_now env) db (us_email user) (ax_ip env)")
      case (Inl e)
      with u have "snd (with_proof cr env db p factor body) = db" by (simp add: with_proof_def require_proof_def)
      then show ?thesis by (simp add: idle)
    next
      case (Inr x)
      then have limit: "check_login_limit (ax_now env) db (us_email user) (ax_ip env) = Inr ()" by simp
      show ?thesis
      proof (cases "proof_checked cr env db user p factor")
        case (Inl e)
        then obtain e' db' where e: "proof_checked cr env db user p factor = Inl (e', db')" by (cases e) simp
        have "racing_step cr n (ax_now env, [(us_email user, ax_ip env)], db) (ax_now env, [], db')"
          using racing_step.refused [OF order_refl _ e, of "[(us_email user, ax_ip env)]" n] by simp
        from counted_alone [OF assms(1) limit assms(2) this] u limit e show ?thesis
          by (simp add: with_proof_def require_proof_def)
      next
        case (Inr db1)
        have "hb_attempts db1 = hb_attempts db"
          using Inr by (auto simp: proof_checked_def Let_def dest: verify_factor_attempts split: sum.splits if_splits)
        from body [OF this] have "racing_step cr n (ax_now env, [(us_email user, ax_ip env)], db)
            (ax_now env, [], snd (body user active db1))"
          using racing_step.proved [OF order_refl _ Inr, of "[(us_email user, ax_ip env)]" "snd (body user active db1)" n]
          by simp
        from counted_alone [OF assms(1) limit assms(2) this] u limit Inr show ?thesis
          by (simp add: with_proof_def require_proof_def)
      qed
    qed
  qed
qed

lemma commits_same: "hb_attempts db' = hb_attempts db \<Longrightarrow> commits env email db db'"
  by (simp add: commits_def)

text \<open>Every request of the state machine of \<open>Authentication_Facts\<close> is one count and one step after it, so
  the runs of that machine are runs without overlap.\<close>

lemma handled_alone:
  assumes "t \<le> ax_now env" "0 < n"
  shows "(racing_step cr n)\<^sup>*\<^sup>* (t, [], db) (ax_now env, [], handled cr env db rq)"
proof -
  have kept: "(racing_step cr n)\<^sup>*\<^sup>* (t, [], db) (ax_now env, [], db')" if "hb_attempts db' = hb_attempts db" for db'
    using racing_step.other [OF assms(1) that, of cr n "[]"] by blast
  note alone = proof_alone [OF assms]
  show ?thesis
  proof (cases rq)
    case (Login email p)
    show ?thesis
    proof (cases "check_login_limit (ax_now env) db email (ax_ip env)")
      case (Inl e)
      then show ?thesis using kept [of db] by (simp add: Login handled_def login_def)
    next
      case (Inr x)
      then have limit: "check_login_limit (ax_now env) db email (ax_ip env) = Inr ()" by simp
      have "racing_step cr n (ax_now env, [(email, ax_ip env)], db) (ax_now env, [], snd (login_checked cr env db email p))"
        using racing_step.login [OF order_refl, of email env "[(email, ax_ip env)]" cr n db p] by simp
      from counted_alone [OF assms(1) limit assms(2) this] limit show ?thesis
        by (simp add: Login handled_def login_def)
    qed
  next
    case (Enroll p)
    show ?thesis unfolding Enroll handled_def auth_request.case enroll_def
      by (rule alone, rule commits_same) simp
  next
    case (Confirm p)
    show ?thesis unfolding Confirm handled_def auth_request.case confirm_def
      by (rule alone) (auto simp: commits_def Let_def add_attempt_def dest: consume_totp_attempts
          split: option.split sum.split prod.split bool.split)
  next
    case (Disable p)
    show ?thesis unfolding Disable handled_def auth_request.case disable_def
      by (rule alone, rule commits_same) (simp add: Let_def)
  next
    case (Regenerate p)
    show ?thesis unfolding Regenerate handled_def auth_request.case regenerate_codes_def
      by (rule alone, rule commits_same) (simp add: Let_def)
  next
    case (Change_password p new_password)
    show ?thesis unfolding Change_password handled_def auth_request.case change_password_def
      by (rule alone, rule commits_same) (simp add: Let_def case_prod_beta)
  next
    case (Setup email password)
    show ?thesis by (rule kept) (simp add: Setup handled_def setup_admin_def audited_def)
  next
    case Logout
    show ?thesis by (rule kept) (simp add: Logout handled_def logout_def split: option.split)
  next
    case Logout_all
    show ?thesis
      by (rule kept) (simp add: Logout_all handled_def logout_all_def case_prod_beta split: sum.split)
  next
    case (Revoke_session i)
    show ?thesis by (rule kept) (simp add: Revoke_session handled_def revoke_session_def split: sum.split)
  qed
qed

section \<open>Failures and requests in flight\<close>

lemma recent_added: "recent_failures now P (add_attempt env email reason db) =
    recent_failures now P db + (if reason \<noteq> None \<and> now - 15 * MINUTE \<le> ax_now env \<and> P (attempt env email reason) then 1 else 0)"
  by (simp add: recent_failures_def add_attempt_def attempt_def)

lemma recent_cong: "hb_attempts db' = hb_attempts db \<Longrightarrow> recent_failures now P db' = recent_failures now P db"
  by (simp add: recent_failures_def)

lemma filter_length_mono: "(\<And>x. P x \<Longrightarrow> Q x) \<Longrightarrow> length (filter P xs) \<le> length (filter Q xs)"
  by (induction xs) (auto simp: le_SucI)

lemma recent_later: "t \<le> t' \<Longrightarrow> recent_failures t' P db \<le> recent_failures t P db"
  unfolding recent_failures_def by (rule filter_length_mono) auto

text \<open>A failure of a request, recorded now, is one more for its addresses at most.\<close>

definition adds_one :: "int \<Rightarrow> string \<times> string option \<Rightarrow> auth_db \<Rightarrow> auth_db \<Rightarrow> bool" where
  "adds_one now request db db' \<longleftrightarrow>
     (\<forall>e. recent_failures now (\<lambda>a. la_email a = e) db' \<le>
        recent_failures now (\<lambda>a. la_email a = e) db + (if e = fst request then 1 else 0)) \<and>
     (\<forall>ip. recent_failures now (\<lambda>a. la_ip a = ip) db' \<le>
        recent_failures now (\<lambda>a. la_ip a = ip) db + (if ip = snd request then 1 else 0))"

lemma adds_none: "hb_attempts db' = hb_attempts db \<Longrightarrow> adds_one now request db db'"
  by (simp add: adds_one_def recent_failures_def)

lemma adds_attempt: "hb_attempts db' = hb_attempts db \<Longrightarrow> adds_one now (email, ax_ip env) db (add_attempt env email reason db')"
  using recent_cong [of db' db] by (simp add: adds_one_def recent_added attempt_def)

lemma login_adds: "adds_one now (email, ax_ip env) db (snd (login_checked cr env db email p))"
proof (cases "user_by_email db email")
  case None
  then show ?thesis by (simp add: login_checked_def adds_attempt)
next
  case (Some user)
  have "adds_one now (email, ax_ip env) db (sign_in cr env email user recovery db')"
    if "hb_attempts db' = hb_attempts db" for db' recovery
    using that unfolding sign_in_def Let_def by (intro adds_attempt) simp
  with Some show ?thesis
    by (auto simp: login_checked_def adds_attempt adds_none dest!: verify_factor_attempts split: sum.split)
qed

lemma refused_adds:
  "proof_checked cr env db user p factor = Inl (e, db') \<Longrightarrow> adds_one now (us_email user, ax_ip env) db db'"
  by (auto simp: proof_checked_def Let_def adds_none adds_attempt split: if_splits sum.splits)

lemma proved_adds:
  assumes "proof_checked cr env db user p factor = Inr db1" "commits env (us_email user) db1 db'"
  shows "adds_one now (us_email user, ax_ip env) db db'"
proof -
  have same: "hb_attempts db1 = hb_attempts db"
    using assms(1) by (auto simp: proof_checked_def Let_def dest: verify_factor_attempts split: sum.splits if_splits)
  from assms(2) consider "hb_attempts db' = hb_attempts db1"
    | reason where "hb_attempts db' = hb_attempts (add_attempt env (us_email user) reason db1)"
    by (auto simp: commits_def)
  then show ?thesis
  proof cases
    case 1
    with same show ?thesis by (simp add: adds_none)
  next
    case 2
    from adds_attempt [OF same, of now "us_email user" env reason] show ?thesis
      using recent_cong [OF 2] by (simp add: adds_one_def)
  qed
qed

definition flying :: "('a \<Rightarrow> bool) \<Rightarrow> 'a list \<Rightarrow> nat" where
  "flying P fl = length (filter P fl)"

lemma flying_remove: "flying P (remove1 x fl) = (if x \<in> set fl \<and> P x then flying P fl - 1 else flying P fl)"
  by (simp add: flying_def filter_remove1 length_remove1)

lemma flying_member: "x \<in> set fl \<Longrightarrow> P x \<Longrightarrow> 0 < flying P fl"
  by (auto simp: flying_def filter_empty_conv)

lemma flying_bound: "flying P fl \<le> length fl"
  by (simp add: flying_def)

text \<open>The failures of an address and its requests in flight together stay below the limit plus \<open>n\<close>.\<close>

definition in_bounds :: "nat \<Rightarrow> sign_in_machine \<Rightarrow> bool" where
  "in_bounds n m = (case m of (t, fl, db) \<Rightarrow>
     (\<forall>e. recent_failures t (\<lambda>a. la_email a = e) db + flying (\<lambda>r. fst r = e) fl \<le> 9 + n) \<and>
     (\<forall>ip. given ip \<noteq> None \<longrightarrow> recent_failures t (\<lambda>a. la_ip a = ip) db + flying (\<lambda>r. snd r = ip) fl \<le> 99 + n))"

lemma in_boundsI:
  assumes "\<And>e. recent_failures t (\<lambda>a. la_email a = e) db + flying (\<lambda>r. fst r = e) fl \<le> 9 + n"
    "\<And>ip. given ip \<noteq> None \<Longrightarrow> recent_failures t (\<lambda>a. la_ip a = ip) db + flying (\<lambda>r. snd r = ip) fl \<le> 99 + n"
  shows "in_bounds n (t, fl, db)"
  using assms by (simp add: in_bounds_def)

lemma bounds_later: "in_bounds n (t, fl, db) \<Longrightarrow> t \<le> t' \<Longrightarrow> in_bounds n (t', fl, db)"
  unfolding in_bounds_def prod.case by (meson add_mono order_refl order_trans recent_later)

lemma counted_bounds:
  assumes "in_bounds n (t, fl, db)" "t \<le> now" "check_login_limit now db email ip = Inr ()" "length fl < n"
  shows "in_bounds n (now, (email, ip) # fl, db)"
proof (rule in_boundsI)
  note later = bounds_later [OF assms(1,2), unfolded in_bounds_def prod.case]
  have limit: "recent_failures now (\<lambda>a. la_email a = email) db < 10"
    "given ip \<noteq> None \<Longrightarrow> recent_failures now (\<lambda>a. la_ip a = ip) db < 100"
    using assms(3) by (auto simp: check_login_limit_def Let_def ensure_Inr_iff split: if_splits)
  have few: "flying P fl < n" for P :: "string \<times> string option \<Rightarrow> bool"
    using flying_bound [of P fl] assms(4) by linarith
  show "recent_failures now (\<lambda>a. la_email a = e) db + flying (\<lambda>r. fst r = e) ((email, ip) # fl) \<le> 9 + n" for e
    using later limit(1) few [of "\<lambda>r. fst r = e"] by (cases "e = email") (auto simp: flying_def)
  show "recent_failures now (\<lambda>a. la_ip a = x) db + flying (\<lambda>r. snd r = x) ((email, ip) # fl) \<le> 99 + n"
    if "given x \<noteq> None" for x
    using later limit(2) few [of "\<lambda>r. snd r = x"] that by (cases "x = ip") (auto simp: flying_def)
qed

lemma recorded_bounds:
  assumes "in_bounds n (t, fl, db)" "t \<le> now" "request \<in> set fl" "adds_one now request db db'"
  shows "in_bounds n (now, remove1 request fl, db')"
proof (rule in_boundsI)
  note later = bounds_later [OF assms(1,2), unfolded in_bounds_def prod.case]
  show "recent_failures now (\<lambda>a. la_email a = e) db' + flying (\<lambda>r. fst r = e) (remove1 request fl) \<le> 9 + n" for e
  proof -
    have "recent_failures now (\<lambda>a. la_email a = e) db' \<le>
        recent_failures now (\<lambda>a. la_email a = e) db + (if e = fst request then 1 else 0)"
      using assms(4) by (simp add: adds_one_def)
    moreover have "recent_failures now (\<lambda>a. la_email a = e) db + flying (\<lambda>r. fst r = e) fl \<le> 9 + n" using later by blast
    moreover have "fst request = e \<Longrightarrow> 0 < flying (\<lambda>r. fst r = e) fl" by (rule flying_member [OF assms(3)])
    ultimately show ?thesis using assms(3) by (auto simp: flying_remove split: if_splits)
  qed
  show "recent_failures now (\<lambda>a. la_ip a = x) db' + flying (\<lambda>r. snd r = x) (remove1 request fl) \<le> 99 + n"
    if "given x \<noteq> None" for x
  proof -
    have "recent_failures now (\<lambda>a. la_ip a = x) db' \<le>
        recent_failures now (\<lambda>a. la_ip a = x) db + (if x = snd request then 1 else 0)"
      using assms(4) by (simp add: adds_one_def)
    moreover have "recent_failures now (\<lambda>a. la_ip a = x) db + flying (\<lambda>r. snd r = x) fl \<le> 99 + n" using later that by blast
    moreover have "snd request = x \<Longrightarrow> 0 < flying (\<lambda>r. snd r = x) fl" by (rule flying_member [OF assms(3)])
    ultimately show ?thesis using assms(3) by (auto simp: flying_remove split: if_splits)
  qed
qed

lemma racing_bounds: "racing_step cr n m m' \<Longrightarrow> in_bounds n m \<Longrightarrow> in_bounds n m'"
proof (induction rule: racing_step.induct)
  case (died t fl db request)
  have "flying P (remove1 request fl) \<le> flying P fl" for P :: "string \<times> string option \<Rightarrow> bool" by (simp add: flying_remove)
  with died show ?case unfolding in_bounds_def prod.case by (meson add_mono order_refl order_trans)
next
  case (other t now db' db fl)
  from bounds_later [OF other(3,1)] recent_cong [OF other(2)] show ?case by (simp add: in_bounds_def)
qed (auto intro: counted_bounds recorded_bounds login_adds refused_adds proved_adds)

lemma racing_reachable: "(racing_step cr n)\<^sup>*\<^sup>* m m' \<Longrightarrow> in_bounds n m \<Longrightarrow> in_bounds n m'"
  by (induction rule: rtranclp_induct) (auto intro: racing_bounds)

section \<open>The limit and its race\<close>

text \<open>C33: failed proofs of identity are bounded by the limit and the overlap. In every state reached from an
  empty database by requests of which at most \<open>n\<close> at a time have counted the failures and not yet
  recorded their own, the failures recorded in the last fifteen minutes, of logins and of the other
  proofs of identity together, are at most nine and \<open>n\<close> for an e-mail address and at most
  ninety-nine and \<open>n\<close> for a network address: ten and a hundred when requests do not overlap. The count
  takes no lock, so the bound grows with the overlap.\<close>

theorem concurrent_failures_bounded:
  assumes "(racing_step cr n)\<^sup>*\<^sup>* (t0, [], nobody) (t, fl, db)" "given ip \<noteq> None"
  shows "recent_failures t (\<lambda>a. la_email a = email) db \<le> 9 + n \<and> recent_failures t (\<lambda>a. la_ip a = ip) db \<le> 99 + n"
proof -
  have "in_bounds n (t0, [], nobody)" by (simp add: in_bounds_def recent_failures_def nobody_def flying_def)
  from racing_reachable [OF assms(1) this] assms(2)
  have "recent_failures t (\<lambda>a. la_email a = email) db + flying (\<lambda>r. fst r = email) fl \<le> 9 + n"
    "recent_failures t (\<lambda>a. la_ip a = ip) db + flying (\<lambda>r. snd r = ip) fl \<le> 99 + n"
    by (simp_all add: in_bounds_def)
  then show ?thesis by simp
qed

text \<open>The overlap matters: \<open>n\<close> logins that count before any of them records all get as far as the password,
  and leave \<open>n\<close> failures of one address, however large \<open>n\<close> is.\<close>

abbreviation guess :: "string \<times> string option" where
  "guess \<equiv> (''nobody'', Some ''ip'')"

lemma guesses_counted: "k \<le> n \<Longrightarrow> (racing_step sample_crypto n)\<^sup>*\<^sup>* (0, [], nobody) (0, replicate k guess, nobody)"
proof (induction k)
  case (Suc k)
  have "check_login_limit 0 nobody ''nobody'' (Some ''ip'') = Inr ()"
    by (simp add: check_login_limit_def recent_failures_def nobody_def ensure_def)
  then have "racing_step sample_crypto n (0, replicate k guess, nobody) (0, guess # replicate k guess, nobody)"
    using Suc.prems by (intro racing_step.counted) auto
  with Suc show ?case by (auto intro: rtranclp.rtrancl_into_rtrancl)
qed simp

lemma limit_exceeded:
  "\<exists>db. (racing_step sample_crypto n)\<^sup>*\<^sup>* (0, [], nobody) (0, [], db) \<and> recent_failures 0 (\<lambda>a. la_email a = ''nobody'') db = n"
proof -
  have "\<exists>db. (racing_step sample_crypto n)\<^sup>*\<^sup>* (0, [], nobody) (0, replicate (n - k) guess, db) \<and>
      recent_failures 0 (\<lambda>a. la_email a = ''nobody'') db = k \<and> hb_users db = []" if "k \<le> n" for k
    using that
  proof (induction k)
    case 0
    have "recent_failures 0 (\<lambda>a. la_email a = ''nobody'') nobody = 0" "hb_users nobody = []"
      by (simp_all add: recent_failures_def nobody_def)
    with guesses_counted [of n n] show ?case by (intro exI [of _ nobody]) simp
  next
    case (Suc k)
    then obtain db where db: "(racing_step sample_crypto n)\<^sup>*\<^sup>* (0, [], nobody) (0, replicate (n - k) guess, db)"
      "recent_failures 0 (\<lambda>a. la_email a = ''nobody'') db = k" "hb_users db = []" by auto
    let ?env = "sample_env 0 ''1'' ''X''"
    have env: "ax_now ?env = 0" "ax_ip ?env = Some ''ip''" by (simp_all add: sample_env_def)
    have "n - k = Suc (n - Suc k)" using Suc.prems by simp
    then have more: "replicate (n - k) guess = guess # replicate (n - Suc k) guess"
      by (simp only: replicate_Suc)
    have new: "snd (login_checked sample_crypto ?env db ''nobody'' (sample_proof None)) =
        add_attempt ?env ''nobody'' (Some ''unknown_user'') db"
      by (simp add: login_checked_def user_by_email_def db(3))
    have "racing_step sample_crypto n (0, replicate (n - k) guess, db)
        (0, replicate (n - Suc k) guess, add_attempt ?env ''nobody'' (Some ''unknown_user'') db)"
      using racing_step.login [of 0 ?env "''nobody''" "replicate (n - k) guess" sample_crypto n db "sample_proof None"]
      by (simp add: env more new)
    with db(1) have "(racing_step sample_crypto n)\<^sup>*\<^sup>* (0, [], nobody)
        (0, replicate (n - Suc k) guess, add_attempt ?env ''nobody'' (Some ''unknown_user'') db)"
      by (rule rtranclp.rtrancl_into_rtrancl)
    moreover have "recent_failures 0 (\<lambda>a. la_email a = ''nobody'') (add_attempt ?env ''nobody'' (Some ''unknown_user'') db) = Suc k"
      by (simp add: recent_added db(2) env attempt_def MINUTE_def)
    ultimately show ?case using db(3) by (auto simp: add_attempt_def)
  qed
  from this [of n] show ?thesis by (simp only: diff_self_eq_0 replicate_0 order_refl simp_thms) blast
qed

theorem concurrent_failures_bounded_witness:
  "\<exists>db. (racing_step sample_crypto 12)\<^sup>*\<^sup>* (0, [], nobody) (0, [], db) \<and>
     recent_failures 0 (\<lambda>a. la_email a = ''nobody'') db = 12 \<and> recent_failures 0 (\<lambda>a. la_ip a = Some ''ip'') db \<le> 111"
proof -
  obtain db where db: "(racing_step sample_crypto 12)\<^sup>*\<^sup>* (0, [], nobody) (0, [], db)"
    "recent_failures 0 (\<lambda>a. la_email a = ''nobody'') db = 12" using limit_exceeded [of 12] by blast
  have "given (Some ''ip'') \<noteq> None" by (simp add: given_def)
  from concurrent_failures_bounded [OF db(1) this] db show ?thesis by auto
qed

end
