(* ===== verification/Data_Mapping.thy ===== *)
theory Data_Mapping
  imports Trade_Recording
begin

text \<open>
  \<open>data_mapping.py\<close>: the profiles that map the columns of an uploaded table to roles, and the
  normalization of its rows. A row is converted or rejected on its own; what the rows of a file
  have in common (symbols, dates, duplicates) is collected along the way. Reading a file format,
  ISO dates, the text of decimals and of JSON, and the option contracts of \<open>option_contracts.py\<close> are
  parameters.
\<close>

section \<open>Headers and profiles\<close>

definition lower_char :: "char \<Rightarrow> char" where
  "lower_char ch = (if is_upper ch then char_of ((of_char ch :: nat) + 32) else ch)"

definition str_lower :: "string \<Rightarrow> string" where
  "str_lower = map lower_char"

definition is_gap :: "char \<Rightarrow> bool" where
  "is_gap ch \<longleftrightarrow> is_space ch \<or> ch = CHR ''_'' \<or> ch = CHR ''-''"

text \<open>A run of gaps becomes one space.\<close>

fun squeeze :: "string \<Rightarrow> string" where
  "squeeze [] = []"
| "squeeze [ch] = (if is_gap ch then '' '' else [ch])"
| "squeeze (ch # next # rest) =
     (if \<not> is_gap ch then ch # squeeze (next # rest)
      else if is_gap next then squeeze (next # rest) else CHR '' '' # squeeze (next # rest))"

definition header_of :: "string \<Rightarrow> string" where
  "header_of s = squeeze (str_lower (str_strip s))"

definition ALIASES :: "string list dict" where
  "ALIASES = [
     (''symbol'', [''symbol'', ''ticker'', ''security'', ''instrument'']),
     (''date'', [''date'', ''datetime'', ''timestamp'', ''as of'', ''asof'', ''period end'']),
     (''open'', [''open'', ''open price'']),
     (''high'', [''high'', ''high price'']),
     (''low'', [''low'', ''low price'']),
     (''close'', [''close'', ''last'', ''last price'', ''price'', ''close price'', ''px last'']),
     (''volume'', [''volume'', ''vol'']),
     (''currency'', [''currency'', ''ccy'', ''price currency'']),
     (''adjusted_close'', [''adjusted close'', ''adj close'']),
     (''metric'', [''metric'', ''field'', ''item'']),
     (''value'', [''value'', ''amount'']),
     (''period'', [''period'', ''fiscal period'']),
     (''frequency'', [''frequency'', ''freq'']),
     (''unit'', [''unit'', ''units'']),
     (''scale'', [''scale'', ''multiplier'']),
     (''actual_estimate'', [''actual estimate'', ''actual/estimate'', ''estimate flag'']),
     (''report_date'', [''report date'', ''filing date'', ''available date'']),
     (''transaction_type'', [''transaction type'', ''type'', ''action'', ''side'']),
     (''trade_date'', [''trade date'', ''date'']),
     (''settle_date'', [''settle date'', ''settlement date'']),
     (''quantity'', [''quantity'', ''qty'', ''shares'']),
     (''price'', [''price'', ''fill price'']),
     (''amount'', [''amount'', ''gross amount'', ''cash amount'']),
     (''fee'', [''fee'', ''fees'']),
     (''commission'', [''commission'', ''commissions'']),
     (''tax'', [''tax'', ''taxes'']),
     (''fx_rate_to_base'', [''fx rate to base'', ''fx'', ''exchange rate'']),
     (''external_reference'', [''external reference'', ''execution id'', ''trade id'', ''reference'']),
     (''base_currency'', [''base currency'', ''base'']),
     (''quote_currency'', [''quote currency'', ''quote'']),
     (''rate'', [''rate'', ''fx rate'', ''exchange rate'']),
     (''average_cost'', [''average cost'', ''avg cost'', ''cost price''])]"

definition OPTION_ALIASES :: "string list dict" where
  "OPTION_ALIASES = [
     (''symbol'', [''underlying'', ''underlying symbol'', ''underlying ticker'']),
     (''option_symbol'', [''option symbol'', ''contract symbol'', ''option ticker'', ''contract'']),
     (''expiry'', [''expiry'', ''expiration'', ''expiration date'', ''expiry date'']),
     (''expiry_time_utc'', [''expiry time utc'', ''expiration time utc'']),
     (''strike'', [''strike'', ''strike price'']),
     (''right'', [''right'', ''call put'', ''option type'', ''put call'']),
     (''multiplier'', [''contract multiplier'', ''multiplier'', ''contract size'']),
     (''exercise_style'', [''exercise style'', ''exercise'', ''style'']),
     (''currency'', [''currency'', ''ccy'']),
     (''timestamp'', [''timestamp'', ''as of'', ''asof'', ''quote timestamp'']),
     (''iv_unit'', [''iv unit'', ''volatility unit'']),
     (''iv'', [''iv'', ''implied volatility'']),
     (''bid'', [''bid'', ''bid price'']),
     (''ask'', [''ask'', ''ask price'']),
     (''last'', [''last'', ''last price'']),
     (''volume'', [''volume'', ''vol'']),
     (''open_interest'', [''open interest'', ''oi'']),
     (''oi_change'', [''oi change'', ''open interest change'']),
     (''delta'', [''delta'']), (''gamma'', [''gamma'']), (''theta'', [''theta'']), (''vega'', [''vega'']),
     (''rho'', [''rho'']),
     (''greek_units'', [''greek units'', ''greeks units''])]"

definition SPECS :: "string dict" where
  "SPECS = [
     (''GENERIC_OPTIONS_CHAIN'', ''options_chain''),
     (''KOYFIN_PRICE_HISTORY'', ''ohlcv''),
     (''KOYFIN_EQUITY_SNAPSHOT'', ''snapshot''),
     (''KOYFIN_WATCHLIST_EXPORT'', ''snapshot''),
     (''KOYFIN_TECHNICAL_EXPORT'', ''technical''),
     (''KOYFIN_FUND_EXPORT'', ''fundamentals_wide''),
     (''KOYFIN_MACRO_EXPORT'', ''macro''),
     (''GENERIC_OHLCV'', ''ohlcv''),
     (''GENERIC_FUNDAMENTALS_LONG'', ''fundamentals_long''),
     (''GENERIC_FUNDAMENTALS_WIDE'', ''fundamentals_wide''),
     (''GENERIC_PORTFOLIO_TRANSACTIONS'', ''transactions''),
     (''GENERIC_POSITIONS'', ''positions''),
     (''GENERIC_FX_HISTORY'', ''fx'')]"

definition REQUIRED :: "string list dict" where
  "REQUIRED = [
     (''options_chain'', [''symbol'', ''option_symbol'', ''expiry'', ''strike'', ''right'', ''multiplier'',
       ''exercise_style'', ''timestamp'', ''iv_unit'']),
     (''ohlcv'', [''date'', ''close'']),
     (''snapshot'', [''symbol'', ''close'', ''date'']),
     (''technical'', [''symbol'', ''date'']),
     (''fundamentals_long'', [''symbol'', ''period'', ''metric'', ''value'']),
     (''fundamentals_wide'', [''symbol'', ''period'']),
     (''macro'', [''date'', ''value'']),
     (''transactions'', [''transaction_type'', ''trade_date'', ''currency'']),
     (''positions'', [''symbol'', ''quantity'', ''average_cost'', ''currency'']),
     (''fx'', [''date'', ''base_currency'', ''quote_currency'', ''rate''])]"

record mapping_profile =
  mp_id :: string
  mp_code :: string
  mp_version :: nat
  mp_source :: string
  mp_dataset_type :: string
  mp_approved :: bool
  mp_aliases :: "string list dict"
  mp_required :: "string list"

definition new_mapping_profile :: "(string \<Rightarrow> string) \<Rightarrow> string \<Rightarrow> string \<Rightarrow> mapping_profile" where
  "new_mapping_profile new_id code kind =
     \<lparr>mp_id = new_id code, mp_code = code, mp_version = 1,
      mp_source = (if take 6 code = ''KOYFIN'' then ''KOYFIN FILE'' else ''EXTERNAL FILE''),
      mp_dataset_type = kind, mp_approved = False,
      mp_aliases = (if kind = ''options_chain'' then OPTION_ALIASES else ALIASES),
      mp_required = dict_get REQUIRED kind []\<rparr>"

definition seed_profiles :: "(string \<Rightarrow> string) \<Rightarrow> mapping_profile list \<Rightarrow> mapping_profile list" where
  "seed_profiles new_id profiles = profiles @
     map (\<lambda>(code, kind). new_mapping_profile new_id code kind)
       (filter (\<lambda>(code, kind). code \<notin> set (map mp_code profiles)) SPECS)"

text \<open>A role is mapped to the column that one of its aliases names; of columns with the same header
  the last one.\<close>

definition column_named :: "string list \<Rightarrow> string \<Rightarrow> string option" where
  "column_named columns alias = find (\<lambda>c. header_of c = header_of alias) (rev columns)"

definition suggest_mapping :: "string list \<Rightarrow> mapping_profile \<Rightarrow> string dict" where
  "suggest_mapping columns profile =
     List.map_filter (\<lambda>(role, aliases). map_option (Pair role)
       (case List.map_filter (column_named columns) aliases of [] \<Rightarrow> None | c # _ \<Rightarrow> Some c)) (mp_aliases profile)"

section \<open>File names\<close>

definition is_alpha :: "char \<Rightarrow> bool" where
  "is_alpha ch \<longleftrightarrow> is_upper ch \<or> is_lower ch"

definition is_separator :: "char \<Rightarrow> bool" where
  "is_separator ch \<longleftrightarrow> ch = CHR ''_'' \<or> ch = CHR '' '' \<or> ch = CHR ''-''"

definition skip_date_mark :: "string \<Rightarrow> string" where
  "skip_date_mark s = (case s of ch # rest \<Rightarrow> if ch = CHR ''-'' \<or> ch = CHR ''_'' then rest else s | [] \<Rightarrow> [])"

definition take_digits :: "nat \<Rightarrow> string \<Rightarrow> (string \<times> string) option" where
  "take_digits n s =
     (if length (take n s) = n \<and> list_all is_digit (take n s) then Some (take n s, drop n s) else None)"

text \<open>Year, month and day, each possibly followed by a mark, and what follows.\<close>

definition take_date :: "string \<Rightarrow> ((string \<times> string \<times> string) \<times> string) option" where
  "take_date s =
     Option.bind (take_digits 4 s) (\<lambda>(y, s1).
     Option.bind (take_digits 2 (skip_date_mark s1)) (\<lambda>(m, s2).
     Option.bind (take_digits 2 (skip_date_mark s2)) (\<lambda>(d, s3).
     Some ((y, m, d), s3))))"

text \<open>What stands after the separators; one separator is the kind if nothing else is.\<close>

definition take_kind :: "string \<Rightarrow> string option option" where
  "take_kind s =
     (let gaps = takeWhile is_separator s; kind = dropWhile is_separator s in
      if s = [] then Some None
      else if gaps = [] then None
      else if kind \<noteq> [] then Some (Some kind)
      else if 2 \<le> length gaps then Some (Some [last gaps]) else None)"

definition file_stem :: "string \<Rightarrow> string" where
  "file_stem s =
     (let tail = takeWhile (\<lambda>ch. ch \<noteq> CHR ''.'') (rev s) in
      if tail = [] \<or> length s \<le> length tail + 1 then s else take (length s - length tail - 1) s)"

definition no_metadata :: "pyval dict" where
  "no_metadata = [(''symbol'', VNone), (''date'', VNone), (''type'', VNone)]"

definition filename_metadata :: "(string \<Rightarrow> date option) \<Rightarrow> string \<Rightarrow> pyval dict" where
  "filename_metadata read_date filename =
     (let stem = file_stem filename;
          symbol = takeWhile (\<lambda>ch. is_alpha ch \<or> is_digit ch \<or> ch = CHR ''.'') stem;
          rest = drop (length symbol) stem;
          gaps = takeWhile is_separator rest
      in if symbol = [] \<or> \<not> is_alpha (hd symbol) \<or> 16 < length symbol \<or> gaps = [] then no_metadata
         else (case take_date (drop (length gaps) rest) of
             None \<Rightarrow> no_metadata
           | Some ((y, m, d), tail) \<Rightarrow> (case take_kind tail of
                 None \<Rightarrow> no_metadata
               | Some kind \<Rightarrow>
                   let iso = y @ ''-'' @ m @ ''-'' @ d in
                   [(''symbol'', VStr (str_upper symbol)),
                    (''date'', if read_date iso = None then VNone else VStr iso),
                    (''type'', case kind of None \<Rightarrow> VNone | Some k \<Rightarrow> VStr k)])))"

section \<open>Rows\<close>

record mapping_env =
  me_today :: date
  me_read_date :: "string \<Rightarrow> date option"
  me_iso :: "date \<Rightarrow> string"
  me_decimal_text :: "rat \<Rightarrow> string"
  me_dumps :: "pyval dict \<Rightarrow> string"
  me_option :: "pyval dict \<Rightarrow> pyval dict result"

definition absent :: "pyval \<Rightarrow> bool" where
  "absent v \<longleftrightarrow> v = VNone \<or> v = VStr []"

definition merged :: "pyval dict \<Rightarrow> pyval dict \<Rightarrow> pyval dict" where
  "merged base extra = foldl (\<lambda>m (k, v). AList.update k v m) base extra"

definition role_row :: "string dict \<Rightarrow> pyval dict \<Rightarrow> pyval dict \<Rightarrow> pyval dict" where
  "role_row mapping defaults raw =
     merged defaults (filter (\<lambda>(role, v). \<not> absent v)
       (map (\<lambda>(role, column). (role, meta_get raw column)) (filter (\<lambda>(role, column). column \<noteq> []) mapping)))"

definition with_symbol :: "pyval dict \<Rightarrow> string option \<Rightarrow> pyval dict \<Rightarrow> pyval dict" where
  "with_symbol metadata resolution row =
     (let named = meta_get metadata ''symbol'';
          row = (if resolution = Some ''FILENAME'' \<or> falsy (meta_get row ''symbol'')
            then AList.update ''symbol'' (if falsy named then meta_get row ''symbol'' else named) row else row)
      in if falsy (meta_get row ''symbol'') then row
         else AList.update ''symbol'' (VStr (str_strip (str_upper (py_str (meta_get row ''symbol''))))) row)"

definition row_symbol :: "pyval dict \<Rightarrow> string option" where
  "row_symbol row = (let v = meta_get row ''symbol'' in if falsy v then None else Some (py_str v))"

definition known_security :: "instrument_row list \<Rightarrow> string \<Rightarrow> instrument_row option" where
  "known_security instruments symbol = find (\<lambda>i. in_symbol i = symbol) (rev instruments)"

definition check_required :: "string \<Rightarrow> pyval dict \<Rightarrow> unit result" where
  "check_required kind row =
     bindE (found (KeyError kind) (map_of REQUIRED kind)) (\<lambda>fields.
     foldE (\<lambda>_ field. ensure (\<not> absent (meta_get row field)) (ValueError (''Missing '' @ field))) () fields)"

definition row_security :: "instrument_row list \<Rightarrow> pyval dict \<Rightarrow> instrument_row option result" where
  "row_security instruments row = (case row_symbol row of
       None \<Rightarrow> Inr None
     | Some s \<Rightarrow> bindE (found (ValueError (''Unknown security '' @ s)) (known_security instruments s)) (\<lambda>i. Inr (Some i)))"

definition with_row_currency :: "instrument_row option \<Rightarrow> pyval dict \<Rightarrow> pyval dict result" where
  "with_row_currency item row = (case item of
       None \<Rightarrow> Inr row
     | Some i \<Rightarrow>
         let given = meta_get row ''currency'' in
         bindE (ensure (falsy given \<or> str_upper (py_str given) = in_currency i)
           (ValueError ''Currency differs from security master'')) (\<lambda>_.
         Inr (AList.update ''currency'' (VStr (in_currency i)) row)))"

definition with_date :: "mapping_env \<Rightarrow> pyval dict \<Rightarrow> string \<Rightarrow> pyval dict result" where
  "with_date env row field =
     (if falsy (meta_get row field) then Inr row
      else bindE (found (ValueError ''Invalid isoformat string'')
          (me_read_date env (take 10 (py_str (meta_get row field))))) (\<lambda>day.
        bindE (ensure (day \<le> me_today env) (ValueError (''Future '' @ field))) (\<lambda>_.
        Inr (AList.update field (VStr (me_iso env day)) row))))"

definition with_dates :: "mapping_env \<Rightarrow> pyval dict \<Rightarrow> pyval dict result" where
  "with_dates env row = foldE (with_date env) row [''date'', ''trade_date'', ''settle_date'', ''report_date'']"

section \<open>Kinds of rows\<close>

text \<open>A conversion gives the warnings it raised, and then either fails or gives the row, the key
  that must be unique in the file and the day of a price.\<close>

type_synonym conversion = "string list \<times> (pyval dict \<times> pyval list \<times> (string \<times> date) list) result"

definition set_decimal ::
  "ctx \<Rightarrow> mapping_env \<Rightarrow> bool \<Rightarrow> bool \<Rightarrow> string \<Rightarrow> pyval dict \<Rightarrow> string \<Rightarrow> pyval dict result" where
  "set_decimal c env positive nonnegative name row field =
     bindE (decimal c (meta_get row field) name positive nonnegative) (\<lambda>x.
     Inr (AList.update field (VStr (me_decimal_text env x)) row))"

definition set_given ::
  "ctx \<Rightarrow> mapping_env \<Rightarrow> bool \<Rightarrow> bool \<Rightarrow> pyval dict \<Rightarrow> string \<Rightarrow> pyval dict result" where
  "set_given c env positive nonnegative row field =
     (if absent (meta_get row field) then Inr row
      else set_decimal c env positive nonnegative field row field)"

definition check_ohlc :: "ctx \<Rightarrow> pyval dict \<Rightarrow> unit result" where
  "check_ohlc c row =
     (let figure = \<lambda>k. decimal c (meta_get row k) ''amount'' False False in
      bindE (figure ''open'') (\<lambda>op. bindE (figure ''high'') (\<lambda>hi.
      bindE (figure ''low'') (\<lambda>lo. bindE (figure ''close'') (\<lambda>cl.
      ensure (\<not> (hi < max op (max lo cl) \<or> min op (min hi cl) < lo))
        (ValueError ''Invalid OHLC high/low ordering''))))))"

definition has_ohlc :: "pyval dict \<Rightarrow> bool" where
  "has_ohlc row \<longleftrightarrow> list_all (\<lambda>k. meta_get row k \<noteq> VNone) [''open'', ''high'', ''low'', ''close'']"

definition price_figures :: "ctx \<Rightarrow> mapping_env \<Rightarrow> instrument_row option \<Rightarrow> pyval dict \<Rightarrow> pyval dict result" where
  "price_figures c env item row =
     bindE (ensure (item \<noteq> None) (ValueError ''Map a security or supply a filename symbol'')) (\<lambda>_.
     bindE (foldE (set_given c env True False) row [''open'', ''high'', ''low'', ''close'', ''adjusted_close'']) (\<lambda>row.
     bindE (set_given c env False True row ''volume'') (\<lambda>row.
     bindE (if has_ohlc row then check_ohlc c row else Inr ()) (\<lambda>_. Inr row))))"

definition INCOMPLETE_OHLC :: string where
  "INCOMPLETE_OHLC = ''Incomplete OHLC: close-only prices can value NAV but cannot run OHLC backtests''"

definition price_row :: "ctx \<Rightarrow> mapping_env \<Rightarrow> instrument_row option \<Rightarrow> pyval dict \<Rightarrow> conversion" where
  "price_row c env item row = (case price_figures c env item row of
       Inl e \<Rightarrow> ([], Inl e)
     | Inr row \<Rightarrow> ((if has_ohlc row then [] else [INCOMPLETE_OHLC]),
         bindE (found (ValueError ''Invalid isoformat string'') (me_read_date env (py_str (meta_get row ''date'')))) (\<lambda>day.
         Inr (row, [meta_get row ''symbol'', meta_get row ''date''], [(py_str (meta_get row ''symbol''), day)]))))"

definition fx_row :: "ctx \<Rightarrow> mapping_env \<Rightarrow> pyval dict \<Rightarrow> conversion" where
  "fx_row c env row =
     (let base = str_upper (py_str (meta_get row ''base_currency''));
          quot = str_upper (py_str (meta_get row ''quote_currency''));
          row = AList.update ''quote_currency'' (VStr quot) (AList.update ''base_currency'' (VStr base) row)
      in ([],
        bindE (ensure (length base = 3 \<and> str_isalpha base \<and> length quot = 3 \<and> str_isalpha quot)
          (ValueError ''FX currencies must be three-letter codes'')) (\<lambda>_.
        bindE (set_decimal c env True False ''rate'' row ''rate'') (\<lambda>row.
        bindE (if base = quot
            then bindE (decimal c (meta_get row ''rate'') ''amount'' False False) (\<lambda>x.
              ensure (x = 1) (ValueError ''Identity FX must equal one''))
            else Inr ()) (\<lambda>_.
        Inr (row, [VStr base, VStr quot, meta_get row ''date''], []))))))"

definition wide_metrics :: "ctx \<Rightarrow> mapping_env \<Rightarrow> string dict \<Rightarrow> pyval dict \<Rightarrow> pyval dict result" where
  "wide_metrics c env mapping raw =
     mapE (\<lambda>(k, v). bindE (decimal c v k False False) (\<lambda>x. Inr (k, VStr (me_decimal_text env x))))
       (filter (\<lambda>(k, v). k \<notin> snd ` set mapping \<and> \<not> absent v) raw)"

definition fundamentals_row ::
  "ctx \<Rightarrow> mapping_env \<Rightarrow> string \<Rightarrow> string dict \<Rightarrow> pyval dict \<Rightarrow> pyval dict \<Rightarrow> conversion" where
  "fundamentals_row c env kind mapping raw row =
     ([],
      bindE (foldE (\<lambda>_ field. ensure (\<not> falsy (meta_get row field))
          (ValueError (''Fundamentals require explicit '' @ field))) ()
        [''frequency'', ''unit'', ''scale'', ''actual_estimate'', ''report_date'']) (\<lambda>_.
      bindE (ensure (str_upper (py_str (meta_get row ''actual_estimate'')) \<in> {''ACTUAL'', ''ESTIMATE''})
        (ValueError ''actual_estimate must be ACTUAL or ESTIMATE'')) (\<lambda>_.
      bindE (set_decimal c env True False ''scale'' row ''scale'') (\<lambda>row.
      bindE (if kind = ''fundamentals_long'' then set_decimal c env False False ''value'' row ''value''
        else bindE (wide_metrics c env mapping raw) (\<lambda>metrics.
          bindE (ensure (metrics \<noteq> []) (ValueError ''No numeric fundamental metrics'')) (\<lambda>_.
          Inr (AList.update ''metrics'' (VDict metrics) row)))) (\<lambda>row.
      Inr (row, [meta_get row ''symbol'', VStr (py_str (meta_get row ''period'')), meta_get row ''metric'',
        meta_get row ''actual_estimate''], []))))))"

definition whole_row_key :: "mapping_env \<Rightarrow> pyval dict \<Rightarrow> pyval list" where
  "whole_row_key env row = [VStr ''row'', VStr (me_dumps env row)]"

definition transaction_record :: "ctx \<Rightarrow> mapping_env \<Rightarrow> pyval dict \<Rightarrow> conversion" where
  "transaction_record c env row =
     (let kind = str_upper (py_str (meta_get row ''transaction_type''));
          row = AList.update ''transaction_type'' (VStr kind) row
      in ([],
        bindE (ensure (kind \<in> set TRANSACTION_TYPES) (ValueError ''Unknown ledger transaction type'')) (\<lambda>_.
        bindE (foldE (set_given c env False True) row
          [''quantity'', ''price'', ''amount'', ''fee'', ''commission'', ''tax'', ''fx_rate_to_base'']) (\<lambda>row.
        Inr (row, (if falsy (meta_get row ''external_reference'') then whole_row_key env row
          else [VStr ''reference'', meta_get row ''external_reference'']), [])))))"

definition POSITION_REFERENCE :: string where
  "POSITION_REFERENCE = ''Position files are reconciliation references only; positions remain ledger-derived''"

definition other_row :: "ctx \<Rightarrow> mapping_env \<Rightarrow> string \<Rightarrow> pyval dict \<Rightarrow> conversion" where
  "other_row c env kind row =
     (if kind \<noteq> ''positions'' then ([], Inr (row, whole_row_key env row, []))
      else (case bindE (set_decimal c env False False ''amount'' row ''quantity'')
             (\<lambda>row. set_decimal c env True False ''amount'' row ''average_cost'') of
          Inl e \<Rightarrow> ([], Inl e)
        | Inr row \<Rightarrow> ([POSITION_REFERENCE], Inr (row, whole_row_key env row, []))))"

definition OPTION_DEFAULTS :: string where
  "OPTION_DEFAULTS = ''Option expiry time defaults to 20:00 UTC only when not explicitly mapped. Provider Greeks require explicit STANDARD units; options files do not alter ledger positions.''"

definition option_row :: "mapping_env \<Rightarrow> pyval dict \<Rightarrow> conversion" where
  "option_row env row = (case me_option env row of
       Inl e \<Rightarrow> ([], Inl e)
     | Inr row \<Rightarrow> ([OPTION_DEFAULTS],
         Inr (row, [meta_get row ''option_symbol'', meta_get row ''timestamp''], [])))"

definition converted ::
  "ctx \<Rightarrow> mapping_env \<Rightarrow> string \<Rightarrow> string dict \<Rightarrow> instrument_row list \<Rightarrow> pyval dict \<Rightarrow> pyval dict \<Rightarrow>
   conversion" where
  "converted c env kind mapping instruments raw row =
     (case bindE (check_required kind row) (\<lambda>_.
           bindE (row_security instruments row) (\<lambda>item.
           bindE (with_row_currency item row) (\<lambda>row.
           bindE (with_dates env row) (\<lambda>row. Inr (item, row))))) of
        Inl e \<Rightarrow> ([], Inl e)
      | Inr (item, row) \<Rightarrow>
          if kind = ''options_chain'' then option_row env row
          else if kind = ''ohlcv'' \<or> kind = ''snapshot'' then price_row c env item row
          else if kind = ''fx'' then fx_row c env row
          else if take 12 kind = ''fundamentals'' then fundamentals_row c env kind mapping raw row
          else if kind = ''transactions'' then transaction_record c env row
          else other_row c env kind row)"

section \<open>A file\<close>

text \<open>Tuples of keys are compared as Python compares them: numbers by value, and lists and
  dictionaries cannot be hashed.\<close>

datatype key_item = KNone | KNumber "pynum option" | KText string

fun key_item_of :: "pyval \<Rightarrow> key_item result" where
  "key_item_of VNone = Inr KNone"
| "key_item_of (VBool b) = Inr (KNumber (Some (Fin (if b then 1 else 0))))"
| "key_item_of (VNum s) = Inr (KNumber (parse_decimal s))"
| "key_item_of (VStr s) = Inr (KText s)"
| "key_item_of (VList _) = Inl (TypeError ''unhashable type'')"
| "key_item_of (VDict _) = Inl (TypeError ''unhashable type'')"

datatype mapping_error = SymbolConflict | ManySymbols | RowError nat py_error

record mapping_state =
  ms_errors :: "mapping_error list"
  ms_warnings :: "string list"
  ms_normalized :: "pyval dict list"
  ms_seen :: "key_item list list"
  ms_dates :: "(string \<times> date) list"

definition rejects :: "py_error \<Rightarrow> bool" where
  "rejects e \<longleftrightarrow> (case e of ValueError _ \<Rightarrow> True | RevisionConflict _ \<Rightarrow> True | PortfolioNotFound _ \<Rightarrow> True
     | TypeError _ \<Rightarrow> True | KeyError _ \<Rightarrow> True | _ \<Rightarrow> False)"

definition accept_row ::
  "pyval dict \<times> pyval list \<times> (string \<times> date) list \<Rightarrow> mapping_state \<Rightarrow> mapping_state \<times> py_error option" where
  "accept_row converted_row st =
     (let (row, key, days) = converted_row; st = st\<lparr>ms_dates := ms_dates st @ days\<rparr> in
      case mapE key_item_of key of
        Inl e \<Rightarrow> (st, Some e)
      | Inr k \<Rightarrow>
          if k \<in> set (ms_seen st)
          then (st, Some (ValueError ''Duplicate instrument/date or record within file''))
          else (st\<lparr>ms_seen := ms_seen st @ [k], ms_normalized := ms_normalized st @ [row]\<rparr>, None))"

definition rejected :: "nat \<Rightarrow> mapping_state \<times> py_error option \<Rightarrow> mapping_state result" where
  "rejected n outcome = (case outcome of
       (st, None) \<Rightarrow> Inr st
     | (st, Some e) \<Rightarrow> if rejects e then Inr (st\<lparr>ms_errors := ms_errors st @ [RowError n e]\<rparr>) else Inl e)"

definition normalize_row ::
  "ctx \<Rightarrow> mapping_env \<Rightarrow> string \<Rightarrow> string dict \<Rightarrow> instrument_row list \<Rightarrow> pyval dict \<Rightarrow> pyval dict \<Rightarrow>
   string option \<Rightarrow> mapping_state \<Rightarrow> nat \<times> pyval dict \<Rightarrow> mapping_state result" where
  "normalize_row c env kind mapping instruments metadata defaults resolution st indexed =
     (let (n, raw) = indexed;
          row = with_symbol metadata resolution (role_row mapping defaults raw);
          (warnings, outcome) = converted c env kind mapping instruments raw row;
          st = st\<lparr>ms_warnings := ms_warnings st @ warnings\<rparr>
      in rejected n (case outcome of Inl e \<Rightarrow> (st, Some e) | Inr r \<Rightarrow> accept_row r st))"

definition content_symbols :: "string dict \<Rightarrow> pyval dict list \<Rightarrow> string list" where
  "content_symbols mapping rows =
     (let column = dict_get mapping ''symbol'' [] in
      filter (\<lambda>s. s \<noteq> []) (remdups (map (\<lambda>r. str_strip (str_upper (py_str (dict_get r column (VStr []))))) rows)))"

definition symbol_conflict :: "pyval dict \<Rightarrow> string list \<Rightarrow> bool" where
  "symbol_conflict metadata symbols \<longleftrightarrow>
     \<not> falsy (meta_get metadata ''symbol'') \<and> symbols \<noteq> [] \<and> VStr ` set symbols \<noteq> {meta_get metadata ''symbol''}"

definition file_errors :: "bool \<Rightarrow> string list \<Rightarrow> string option \<Rightarrow> mapping_error list" where
  "file_errors conflict symbols resolution =
     (if conflict \<and> resolution \<notin> {Some ''CONTENT'', Some ''FILENAME''} then [SymbolConflict] else []) @
     (if resolution = Some ''FILENAME'' \<and> 1 < length symbols then [ManySymbols] else [])"

definition days_of :: "(string \<times> date) list \<Rightarrow> string \<Rightarrow> date list" where
  "days_of dates symbol = map snd (filter (\<lambda>(s, d). s = symbol) dates)"

definition date_warnings :: "(string \<times> date) list \<Rightarrow> string list" where
  "date_warnings dates = concat (map (\<lambda>symbol.
       let days = days_of dates symbol; ordered = sort days in
       (if days \<noteq> ordered then [symbol @ '': dates were sorted during import''] else []) @
       (if list_ex (\<lambda>(a, b). 7 < b - a) (zip ordered (tl ordered))
        then [symbol @ '': price gaps exceed seven calendar days''] else []))
     (rev (remdups (rev (map fst dates)))))"

record mapping_report =
  vr_valid :: bool
  vr_errors :: "mapping_error list"
  vr_error_count :: nat
  vr_warnings :: "string list"
  vr_rows :: nat
  vr_validated_rows :: nat
  vr_symbol_conflict :: bool

definition normalize ::
  "ctx \<Rightarrow> mapping_env \<Rightarrow> pyval dict list \<Rightarrow> string dict \<Rightarrow> mapping_profile \<Rightarrow> instrument_row list \<Rightarrow>
   pyval dict \<Rightarrow> pyval dict \<Rightarrow> string option \<Rightarrow> (pyval dict list \<times> mapping_report) result" where
  "normalize c env rows mapping profile instruments metadata defaults resolution =
     (let symbols = content_symbols mapping rows; conflict = symbol_conflict metadata symbols;
          start = \<lparr>ms_errors = file_errors conflict symbols resolution, ms_warnings = [], ms_normalized = [],
            ms_seen = [], ms_dates = []\<rparr>
      in bindE (foldE (normalize_row c env (mp_dataset_type profile) mapping instruments metadata defaults resolution)
           start (enumerate 1 rows)) (\<lambda>st.
         Inr (ms_normalized st,
           \<lparr>vr_valid = (ms_errors st = []), vr_errors = take 100 (ms_errors st), vr_error_count = length (ms_errors st),
            vr_warnings = rev (remdups (rev (ms_warnings st @ date_warnings (ms_dates st)))), vr_rows = length rows,
            vr_validated_rows = length (ms_normalized st), vr_symbol_conflict = conflict\<rparr>)))"

end
