(* ===== verification/Mapping_Facts.thy ===== *)
theory Mapping_Facts
  imports Data_Mapping Revision_Facts
begin

text \<open>
  The normalization of a file: every row is either kept or reported, the kept rows have the required
  fields and unique keys, and the prices of a file order as high and low do.
\<close>

section \<open>Required fields survive the conversion\<close>

lemma foldE_ensure_all:
  "foldE (\<lambda>_ x. ensure (P x) (e x)) () xs = Inr () \<longleftrightarrow> list_all P xs"
  by (induction xs) (auto simp: result_simps ensure_def)

lemma check_required_Inr:
  "check_required kind row = Inr u \<Longrightarrow> \<exists>fields. map_of REQUIRED kind = Some fields \<and>
     list_all (\<lambda>field. \<not> absent (meta_get row field)) fields"
  by (cases u) (auto simp: check_required_def result_simps found_def foldE_ensure_all split: option.splits)

text \<open>Setting a field to a text that is not empty keeps what was present.\<close>

definition fuller :: "pyval dict \<Rightarrow> pyval dict \<Rightarrow> bool" where
  "fuller row row' \<longleftrightarrow> (\<forall>k. \<not> absent (meta_get row k) \<longrightarrow> \<not> absent (meta_get row' k))"

lemma fuller_refl [simp]: "fuller row row"
  by (simp add: fuller_def)

lemma fuller_trans: "fuller a b \<Longrightarrow> fuller b c \<Longrightarrow> fuller a c"
  by (simp add: fuller_def)

lemma fuller_update: "\<not> absent v \<Longrightarrow> fuller row (AList.update k v row)"
  by (auto simp: fuller_def meta_get_def)

lemma fuller_foldE:
  assumes "\<And>r x r'. f r x = Inr r' \<Longrightarrow> fuller r r'"
  shows "foldE f row xs = Inr row' \<Longrightarrow> fuller row row'"
proof (induction xs arbitrary: row)
  case (Cons x xs)
  then show ?case using assms fuller_trans by (fastforce simp: result_simps)
qed simp


text \<open>What the proofs need of the texts that the conversions write.\<close>

definition texts_ok :: "mapping_env \<Rightarrow> instrument_row list \<Rightarrow> bool" where
  "texts_ok env instruments \<longleftrightarrow> (\<forall>day. me_iso env day \<noteq> []) \<and> (\<forall>x. me_decimal_text env x \<noteq> []) \<and>
     (\<forall>i \<in> set instruments. in_currency i \<noteq> [])"

lemma set_decimal_fuller: "texts_ok env is \<Longrightarrow> set_decimal c env p n name row field = Inr row' \<Longrightarrow> fuller row row'"
  by (auto simp: set_decimal_def result_simps texts_ok_def absent_def intro: fuller_update)

lemma set_given_fuller: "texts_ok env is \<Longrightarrow> set_given c env p n row field = Inr row' \<Longrightarrow> fuller row row'"
  by (auto simp: set_given_def split: if_splits intro: set_decimal_fuller)

lemma with_date_fuller: "texts_ok env is \<Longrightarrow> with_date env row field = Inr row' \<Longrightarrow> fuller row row'"
  by (auto simp: with_date_def result_simps texts_ok_def absent_def split: if_splits intro: fuller_update)

lemma with_row_currency_fuller:
  "texts_ok env is \<Longrightarrow> row_security is row = Inr item \<Longrightarrow> with_row_currency item row = Inr row' \<Longrightarrow> fuller row row'"
  by (auto simp: with_row_currency_def row_security_def known_security_def result_simps texts_ok_def absent_def found_def Let_def
      split: option.splits dest!: find_Some_in intro: fuller_update)

lemma price_figures_fuller:
  assumes t: "texts_ok env is" and p: "price_figures c env item row = Inr row'"
  shows "fuller row row'"
proof -
  from p obtain r where r: "foldE (set_given c env True False) row [''open'', ''high'', ''low'', ''close'', ''adjusted_close''] = Inr r"
    and v: "set_given c env False True r ''volume'' = Inr row'"
    by (auto simp: price_figures_def result_simps)
  have "fuller row r" by (rule fuller_foldE [OF _ r]) (rule set_given_fuller [OF t])
  then show ?thesis using set_given_fuller [OF t v] by (rule fuller_trans)
qed

lemma price_figures_ordered:
  "price_figures c env item row = Inr row' \<Longrightarrow> has_ohlc row' \<Longrightarrow> check_ohlc c row' = Inr ()"
  by (auto simp: price_figures_def result_simps)

lemma price_row_Inr:
  assumes "price_row c env item row = (ws, Inr (row', key, days))"
  shows "price_figures c env item row = Inr row'"
  using assms by (auto simp: price_row_def result_simps split: sum.splits)

lemma fx_row_fuller:
  assumes t: "texts_ok env is" and r: "fx_row c env row = (ws, Inr (row', key, days))"
  shows "fuller row row'"
proof -
  let ?b = "str_upper (py_str (meta_get row ''base_currency''))" and ?q = "str_upper (py_str (meta_get row ''quote_currency''))"
  let ?r = "AList.update ''quote_currency'' (VStr ?q) (AList.update ''base_currency'' (VStr ?b) row)"
  from r have n: "length ?b = 3" "length ?q = 3" and d: "set_decimal c env True False ''rate'' ?r ''rate'' = Inr row'"
    by (auto simp: fx_row_def result_simps Let_def)
  have "fuller row ?r" by (rule fuller_trans; rule fuller_update) (use n in \<open>auto simp: absent_def\<close>)
  then show ?thesis using set_decimal_fuller [OF t d] by (rule fuller_trans)
qed

lemma fundamentals_row_fuller:
  assumes t: "texts_ok env is" and r: "fundamentals_row c env kind mapping raw row = (ws, Inr (row', key, days))"
  shows "fuller row row'"
proof -
  from r obtain r1 where d: "set_decimal c env True False ''scale'' row ''scale'' = Inr r1"
    and v: "(if kind = ''fundamentals_long'' then set_decimal c env False False ''value'' r1 ''value''
        else bindE (wide_metrics c env mapping raw) (\<lambda>metrics.
          bindE (ensure (metrics \<noteq> []) (ValueError ''No numeric fundamental metrics'')) (\<lambda>_.
          Inr (AList.update ''metrics'' (VDict metrics) r1)))) = Inr row'"
    by (auto simp: fundamentals_row_def result_simps)
  have "fuller r1 row'" using v set_decimal_fuller [OF t]
    by (auto simp: result_simps absent_def split: if_splits intro: fuller_update)
  with set_decimal_fuller [OF t d] show ?thesis by (rule fuller_trans)
qed

lemma transaction_record_fuller:
  assumes t: "texts_ok env is" and r: "transaction_record c env row = (ws, Inr (row', key, days))"
  shows "fuller row row'"
proof -
  let ?k = "str_upper (py_str (meta_get row ''transaction_type''))"
  let ?r = "AList.update ''transaction_type'' (VStr ?k) row"
  from r have k: "?k \<in> set TRANSACTION_TYPES"
    and f: "foldE (set_given c env False True) ?r
          [''quantity'', ''price'', ''amount'', ''fee'', ''commission'', ''tax'', ''fx_rate_to_base''] = Inr row'"
    by (auto simp: transaction_record_def result_simps Let_def)
  have "?k \<noteq> []" using k by (auto simp: TRANSACTION_TYPES_def)
  then have "fuller row ?r" by (intro fuller_update) (simp add: absent_def)
  moreover have "fuller ?r row'" by (rule fuller_foldE [OF _ f]) (rule set_given_fuller [OF t])
  ultimately show ?thesis by (rule fuller_trans)
qed

lemma other_row_fuller:
  assumes t: "texts_ok env is" and r: "other_row c env kind row = (ws, Inr (row', key, days))"
  shows "fuller row row'"
proof (cases "kind = ''positions''")
  case True
  with r obtain r1 where q: "set_decimal c env False False ''amount'' row ''quantity'' = Inr r1"
    and a: "set_decimal c env True False ''amount'' r1 ''average_cost'' = Inr row'"
    by (auto simp: other_row_def result_simps split: sum.splits)
  show ?thesis by (rule fuller_trans [OF set_decimal_fuller [OF t q] set_decimal_fuller [OF t a]])
next
  case False
  with r show ?thesis by (simp add: other_row_def)
qed

text \<open>A kept row has the fields its kind requires, and ordered prices. A kept quote of an option is
  what the conversion of quotes returned for a row that has them.\<close>

definition complete_row :: "string \<Rightarrow> pyval dict \<Rightarrow> bool" where
  "complete_row kind row \<longleftrightarrow> (\<exists>fields. map_of REQUIRED kind = Some fields \<and>
     list_all (\<lambda>field. \<not> absent (meta_get row field)) fields)"

definition kept_row :: "ctx \<Rightarrow> mapping_env \<Rightarrow> string \<Rightarrow> pyval dict \<Rightarrow> bool" where
  "kept_row c env kind row \<longleftrightarrow>
     (if kind = ''options_chain'' then \<exists>quote. complete_row kind quote \<and> me_option env quote = Inr row
      else complete_row kind row) \<and>
     (kind \<in> {''ohlcv'', ''snapshot''} \<and> has_ohlc row \<longrightarrow> check_ohlc c row = Inr ())"

lemma converted_kept:
  assumes t: "texts_ok env is" and r: "converted c env kind mapping is raw row = (ws, Inr (row', key, days))"
  shows "kept_row c env kind row'"
proof -
  from r obtain item r1 r2 u where req: "check_required kind row = Inr u" and sec: "row_security is row = Inr item"
    and cur: "with_row_currency item row = Inr r1" and dates: "with_dates env r1 = Inr r2"
    and conv: "(if kind = ''options_chain'' then option_row env r2
          else if kind = ''ohlcv'' \<or> kind = ''snapshot'' then price_row c env item r2
          else if kind = ''fx'' then fx_row c env r2
          else if take 12 kind = ''fundamentals'' then fundamentals_row c env kind mapping raw r2
          else if kind = ''transactions'' then transaction_record c env r2
          else other_row c env kind r2) = (ws, Inr (row', key, days))"
    unfolding converted_def by (auto simp: result_simps split: sum.splits)
  have "fuller r1 r2" by (rule fuller_foldE [OF _ dates [unfolded with_dates_def]]) (rule with_date_fuller [OF t])
  with with_row_currency_fuller [OF t sec cur] have f2: "fuller row r2" by (rule fuller_trans)
  have "fuller r2 row'" if "kind \<noteq> ''options_chain''"
    using conv that fx_row_fuller [OF t] fundamentals_row_fuller [OF t] transaction_record_fuller [OF t] other_row_fuller [OF t]
      price_figures_fuller [OF t price_row_Inr]
    by (auto split: if_splits)
  moreover have "me_option env r2 = Inr row'" if "kind = ''options_chain''"
    using conv that by (auto simp: option_row_def split: sum.splits)
  moreover obtain fields where "map_of REQUIRED kind = Some fields" "list_all (\<lambda>field. \<not> absent (meta_get row field)) fields"
    using check_required_Inr [OF req] by blast
  then have "complete_row kind r2" using f2 by (auto simp: complete_row_def fuller_def list_all_iff)
  moreover have "complete_row kind b" if "complete_row kind a" "fuller a b" for a b
    using that by (auto simp: complete_row_def fuller_def list_all_iff)
  ultimately have "if kind = ''options_chain'' then \<exists>quote. complete_row kind quote \<and> me_option env quote = Inr row'
      else complete_row kind row'" by (cases "kind = ''options_chain''") auto
  moreover have "check_ohlc c row' = Inr ()" if "kind \<in> {''ohlcv'', ''snapshot''}" "has_ohlc row'"
  proof -
    have "price_row c env item r2 = (ws, Inr (row', key, days))" using conv that(1) by (auto split: if_splits)
    from price_figures_ordered [OF price_row_Inr [OF this] that(2)] show ?thesis .
  qed
  ultimately show ?thesis by (simp add: kept_row_def)
qed

section \<open>Accounting for the rows\<close>

lemma normalize_row_cases:
  assumes "normalize_row c env kind mapping instruments metadata defaults resolution st (n, raw) = Inr st'"
  obtains (reported) e where "ms_errors st' = ms_errors st @ [e]" "ms_normalized st' = ms_normalized st" "ms_seen st' = ms_seen st"
  | (kept) ws row row' key days k where "converted c env kind mapping instruments raw row = (ws, Inr (row', key, days))"
    "mapE key_item_of key = Inr k" "k \<notin> set (ms_seen st)" "ms_errors st' = ms_errors st"
    "ms_normalized st' = ms_normalized st @ [row']" "ms_seen st' = ms_seen st @ [k]"
proof -
  let ?row = "with_symbol metadata resolution (role_row mapping defaults raw)"
  obtain ws outcome where o: "converted c env kind mapping instruments raw ?row = (ws, outcome)" by (cases "converted c env kind mapping instruments raw ?row")
  let ?st = "st\<lparr>ms_warnings := ms_warnings st @ ws\<rparr>"
  from assms o have r: "rejected n (case outcome of Inl e \<Rightarrow> (?st, Some e) | Inr r \<Rightarrow> accept_row r ?st) = Inr st'"
    by (simp add: normalize_row_def Let_def)
  show thesis
  proof (cases outcome)
    case (Inl e)
    with r have "st' = ?st\<lparr>ms_errors := ms_errors st @ [RowError n e]\<rparr>" by (simp add: rejected_def split: if_splits)
    then show thesis by (intro reported [of "RowError n e"]) simp_all
  next
    case (Inr triple)
    obtain row' key days where t: "triple = (row', key, days)" by (cases triple)
    show thesis
    proof (cases "mapE key_item_of key")
      case (Inl e)
      with r Inr t have "st' = ?st\<lparr>ms_dates := ms_dates st @ days, ms_errors := ms_errors st @ [RowError n e]\<rparr>"
        by (simp add: accept_row_def rejected_def split: if_splits)
      then show thesis by (intro reported [of "RowError n e"]) simp_all
    next
      case key: (Inr k)
      show thesis
      proof (cases "k \<in> set (ms_seen st)")
        case True
        let ?e = "RowError n (ValueError ''Duplicate instrument/date or record within file'')"
        from True key r Inr t have "st' = ?st\<lparr>ms_dates := ms_dates st @ days, ms_errors := ms_errors st @ [?e]\<rparr>"
          by (simp add: accept_row_def rejected_def rejects_def)
        then show thesis by (intro reported [of ?e]) simp_all
      next
        case False
        with key r Inr t have "st' = ?st\<lparr>ms_dates := ms_dates st @ days, ms_seen := ms_seen st @ [k], ms_normalized := ms_normalized st @ [row']\<rparr>"
          by (simp add: accept_row_def rejected_def)
        with False key o Inr t show thesis by (intro kept [of ?row ws row' key days k]) simp_all
      qed
    qed
  qed
qed

text \<open>The key of a price, that no other row of the file may have.\<close>

definition price_key :: "pyval dict \<Rightarrow> key_item list result" where
  "price_key row = mapE key_item_of [meta_get row ''symbol'', meta_get row ''date'']"

definition accounted :: "ctx \<Rightarrow> mapping_env \<Rightarrow> string \<Rightarrow> nat \<Rightarrow> nat \<Rightarrow> mapping_state \<Rightarrow> bool" where
  "accounted c env kind base m st \<longleftrightarrow> base \<le> length (ms_errors st) \<and>
     length (ms_errors st) + length (ms_normalized st) = base + m \<and>
     list_all (kept_row c env kind) (ms_normalized st) \<and> distinct (ms_seen st) \<and>
     (kind \<in> {''ohlcv'', ''snapshot''} \<longrightarrow> map price_key (ms_normalized st) = map Inr (ms_seen st))"

lemma converted_price_key:
  assumes "converted c env kind mapping instruments raw row = (ws, Inr (row', key, days))" "kind \<in> {''ohlcv'', ''snapshot''}"
  shows "key = [meta_get row' ''symbol'', meta_get row' ''date'']"
  using assms by (auto simp: converted_def price_row_def result_simps split: sum.splits)

lemma accounted_row:
  assumes "normalize_row c env kind mapping instruments metadata defaults resolution st (n, raw) = Inr st'"
    "accounted c env kind base m st" "texts_ok env instruments"
  shows "accounted c env kind base (Suc m) st'"
  using assms(1)
proof (cases rule: normalize_row_cases)
  case (reported e)
  with assms(2) show ?thesis by (simp add: accounted_def)
next
  case (kept ws row row' key days k)
  have "kept_row c env kind row'" by (rule converted_kept [OF assms(3) kept(1)])
  moreover have "price_key row' = Inr k" if "kind \<in> {''ohlcv'', ''snapshot''}"
    using converted_price_key [OF kept(1) that] kept(2) by (simp add: price_key_def)
  ultimately show ?thesis using assms(2) kept(3-6) by (simp add: accounted_def)
qed

lemma accounted_rows:
  "foldE (normalize_row c env kind mapping instruments metadata defaults resolution) st (enumerate k rows) = Inr st' \<Longrightarrow>
   accounted c env kind base m st \<Longrightarrow> texts_ok env instruments \<Longrightarrow> accounted c env kind base (m + length rows) st'"
proof (induction rows arbitrary: st k m)
  case (Cons raw rows)
  from Cons.prems(1) obtain st1 where s: "normalize_row c env kind mapping instruments metadata defaults resolution st (k, raw) = Inr st1"
    and rest: "foldE (normalize_row c env kind mapping instruments metadata defaults resolution) st1 (enumerate (Suc k) rows) = Inr st'"
    by (auto simp: result_simps)
  from Cons.IH [OF rest accounted_row [OF s Cons.prems(2,3)] Cons.prems(3)] show ?case by simp
qed simp

text \<open>C20: the validation of a file accounts for every row. When normalization returns, each row of the file is
  either kept or counted as an error, next to the errors of the file as a whole (a conflict of
  symbols, or several symbols under one filename); the report is valid exactly when there is no
  error, and then all rows are kept. A kept row has every field its kind requires (a kept quote of an
  option is what the conversion of quotes, a function given to the model, returned for a row that
  has them), its prices order as high and low do, and no two kept prices are of the same security
  and day. This holds where the texts that the conversion writes for dates and decimals are not
  empty and every security has a currency (\<open>texts_ok\<close>).\<close>

theorem normalization_accounts_for_rows:
  assumes "normalize c env rows mapping profile instruments metadata defaults resolution = Inr (normalized, report)"
    "texts_ok env instruments"
  shows "vr_rows report = length rows \<and> vr_validated_rows report = length normalized \<and> length normalized \<le> length rows \<and>
     vr_error_count report = (length rows - length normalized) +
       length (file_errors (vr_symbol_conflict report) (content_symbols mapping rows) resolution) \<and>
     (vr_valid report \<longleftrightarrow> vr_error_count report = 0) \<and> (vr_valid report \<longrightarrow> length normalized = length rows) \<and>
     list_all (kept_row c env (mp_dataset_type profile)) normalized \<and>
     (mp_dataset_type profile \<in> {''ohlcv'', ''snapshot''} \<longrightarrow> distinct (map price_key normalized))"
proof -
  let ?symbols = "content_symbols mapping rows" and ?kind = "mp_dataset_type profile"
  let ?conflict = "symbol_conflict metadata ?symbols"
  let ?start = "\<lparr>ms_errors = file_errors ?conflict ?symbols resolution, ms_warnings = [], ms_normalized = [],
            ms_seen = [], ms_dates = []\<rparr> :: mapping_state"
  let ?base = "length (file_errors ?conflict ?symbols resolution)"
  from assms(1) obtain st where f: "foldE (normalize_row c env ?kind mapping instruments metadata defaults resolution)
      ?start (enumerate 1 rows) = Inr st"
    and out: "normalized = ms_normalized st" "vr_rows report = length rows" "vr_validated_rows report = length normalized"
      "vr_error_count report = length (ms_errors st)" "vr_valid report = (ms_errors st = [])" "vr_symbol_conflict report = ?conflict"
    by (auto simp: normalize_def Let_def result_simps)
  have a: "accounted c env ?kind ?base (0 + length rows) st"
    by (rule accounted_rows [OF f _ assms(2)]) (simp add: accounted_def)
  then have counts: "?base \<le> length (ms_errors st)" "length (ms_errors st) + length (ms_normalized st) = ?base + length rows"
    and kept: "list_all (kept_row c env ?kind) (ms_normalized st)" by (simp_all add: accounted_def)
  have "distinct (map price_key (ms_normalized st))" if "?kind \<in> {''ohlcv'', ''snapshot''}"
  proof -
    from a that have "map price_key (ms_normalized st) = map Inr (ms_seen st)" "distinct (ms_seen st)"
      unfolding accounted_def by blast+
    then show ?thesis by (metis distinct_map inj_Inl inj_on_subset sum.inject(2) inj_onI)
  qed
  moreover have "ms_errors st = [] \<Longrightarrow> ?base = 0" using counts(1) by simp
  ultimately show ?thesis using counts kept by (auto simp: out)
qed

section \<open>Blank symbols\<close>

text \<open>A file named after a security whose rows leave the symbol blank: the rows take the symbol of the
  filename, but the blank cells count as a symbol of the contents, and the file has a conflict.\<close>

lemma blank_symbol_conflicts:
  assumes "rows \<noteq> []" "\<And>raw. raw \<in> set rows \<Longrightarrow> dict_get raw (dict_get mapping ''symbol'' []) (VStr []) = VNone"
    "meta_get metadata ''symbol'' = VStr s" "s \<noteq> []" "s \<noteq> ''NONE''"
  shows "symbol_conflict metadata (content_symbols mapping rows)"
proof -
  let ?symbol = "\<lambda>raw. str_strip (str_upper (py_str (dict_get raw (dict_get mapping ''symbol'' []) (VStr []))))"
  have none: "str_strip (str_upper (py_str VNone)) = ''NONE''" by code_simp
  have "?symbol ` set rows = (\<lambda>_. ''NONE'') ` set rows"
    by (rule image_cong [OF refl]) (simp only: assms(2) none)
  also have "\<dots> = {''NONE''}" using assms(1) by (simp only: image_constant_conv set_empty if_False)
  finally have "set (content_symbols mapping rows) = {t \<in> {''NONE''}. t \<noteq> []}"
    by (simp only: content_symbols_def Let_def set_filter set_remdups set_map)
  then have symbols: "set (content_symbols mapping rows) = {''NONE''}" by auto
  have "set (content_symbols mapping rows) \<noteq> {}" unfolding symbols by (rule insert_not_empty)
  then have "content_symbols mapping rows \<noteq> []" by (simp only: set_empty not_False_eq_True)
  moreover have "\<not> falsy (VStr s)" using assms(4) by (simp add: falsy_def)
  moreover have "VStr ` {''NONE''} \<noteq> {VStr s}"
    unfolding image_insert image_empty singleton_insert_inj_eq' pyval.inject using assms(5) by blast
  ultimately show ?thesis unfolding symbol_conflict_def assms(3) symbols by (intro conjI)
qed

section \<open>A file with a row of each kind\<close>

lemma map_sum_Inr_iff: "map_sum id f x = Inr y \<longleftrightarrow> (\<exists>z. x = Inr z \<and> y = f z)"
  by (cases x) auto

lemma Inr_map_sum: "Inr y = map_sum id f x \<longleftrightarrow> (\<exists>z. x = Inr z \<and> y = f z)"
  unfolding map_sum_Inr_iff [symmetric] by (rule eq_commute)

definition sample_mapping_env :: mapping_env where
  "sample_mapping_env = \<lparr>me_today = 738890, me_read_date = (\<lambda>s. if s = ''2024-01-02'' then Some 738887 else None),
     me_iso = (\<lambda>_. ''2024-01-02''), me_decimal_text = (\<lambda>_. ''250''), me_dumps = (\<lambda>_. ''{}''),
     me_option = (\<lambda>_. Inl (ValueError ''option''))\<rparr>"

text \<open>A price, the same price again, and a row without a price.\<close>

definition sample_prices :: "pyval dict list" where
  "sample_prices = [[(''day'', VStr ''2024-01-02''), (''last'', VNum ''250'')],
     [(''day'', VStr ''2024-01-02''), (''last'', VNum ''250'')], [(''day'', VStr ''2024-01-02''), (''last'', VNone)]]"

definition sample_security :: instrument_row where
  "sample_security = \<lparr>in_id = ''i'', in_symbol = ''SPY'', in_name = ''SPY'', in_country = ''US'', in_currency = ''USD'',
     in_asset_class = ''ETF'', in_sector = None, in_industry = None\<rparr>"

definition sample_report :: "(pyval dict list \<times> mapping_report) result" where
  "sample_report = normalize (prec 28) sample_mapping_env sample_prices [(''date'', ''day''), (''close'', ''last'')]
     (new_mapping_profile (\<lambda>s. s) ''GENERIC_OHLCV'' ''ohlcv'') [sample_security] [(''symbol'', VStr ''SPY'')] [] None"

lemma sample_report_runs:
  "map_sum id (\<lambda>(normalized, report). (length normalized, vr_symbol_conflict report)) sample_report = Inr (1, False)"
  by code_simp

theorem normalization_accounts_for_rows_witness:
  "\<exists>normalized (report :: mapping_report). sample_report = Inr (normalized, report) \<and> length normalized = 1 \<and>
     vr_error_count report = 2 \<and> \<not> vr_valid report"
proof -
  from sample_report_runs obtain normalized and report :: mapping_report where r: "sample_report = Inr (normalized, report)"
    "length normalized = 1" "\<not> vr_symbol_conflict report" by (auto simp: map_sum_Inr_iff)
  have "texts_ok sample_mapping_env [sample_security]"
    by (simp add: texts_ok_def sample_mapping_env_def sample_security_def)
  from normalization_accounts_for_rows [OF r(1) [unfolded sample_report_def] this] r
  show ?thesis
    by (intro exI [of _ normalized] exI [of _ report]) (simp add: file_errors_def sample_prices_def)
qed

end
