(* ===== verification/Data_Inbox.thy ===== *)
theory Data_Inbox
  imports Data_Mapping Report_Jobs
begin

text \<open>
  The file inbox: \<open>data_drop.py\<close> and the endpoints of \<open>data_drop_api.py\<close> with the local agents that
  upload files. A file is received, previewed, mapped, validated, approved and imported; an import
  writes a dataset version with its lineage and, by the kind of the file, market observations,
  exchange rates or ledger transactions. A handler gives the committed state, or the refusal that
  rolled it back. Parsing of file formats, hashing, tokens and storage outages are parameters; a byte
  string is a \<open>string\<close>.
\<close>

section \<open>Files and their transitions\<close>

datatype file_state =
    DETECTED | HASHING | UPLOADING | STORED_RAW | PREVIEWING | SCHEMA_DETECTED | MAPPING_REQUIRED | MAPPED
  | VALIDATING | VALIDATED | VALIDATED_WITH_WARNINGS | VALIDATION_FAILED | AWAITING_APPROVAL | IMPORTING
  | IMPORTED | IMPORT_FAILED | UPLOAD_FAILED | QUARANTINED | REJECTED | ARCHIVED | DUPLICATE

definition FINAL :: "file_state set" where
  "FINAL = {IMPORTED, ARCHIVED, DUPLICATE}"

fun TRANSITIONS :: "file_state \<Rightarrow> file_state set" where
  "TRANSITIONS DETECTED = {HASHING}"
| "TRANSITIONS HASHING = {UPLOADING, DUPLICATE}"
| "TRANSITIONS UPLOADING = {STORED_RAW, UPLOAD_FAILED}"
| "TRANSITIONS STORED_RAW = {PREVIEWING}"
| "TRANSITIONS PREVIEWING = {SCHEMA_DETECTED, QUARANTINED}"
| "TRANSITIONS SCHEMA_DETECTED = {MAPPING_REQUIRED}"
| "TRANSITIONS MAPPING_REQUIRED = {MAPPED, REJECTED}"
| "TRANSITIONS MAPPED = {VALIDATING}"
| "TRANSITIONS VALIDATING = {VALIDATED, VALIDATED_WITH_WARNINGS, VALIDATION_FAILED}"
| "TRANSITIONS VALIDATED = {AWAITING_APPROVAL}"
| "TRANSITIONS VALIDATED_WITH_WARNINGS = {AWAITING_APPROVAL}"
| "TRANSITIONS VALIDATION_FAILED = {MAPPED, REJECTED}"
| "TRANSITIONS AWAITING_APPROVAL = {IMPORTING, MAPPED, REJECTED}"
| "TRANSITIONS IMPORTING = {IMPORTED, IMPORT_FAILED}"
| "TRANSITIONS IMPORT_FAILED = {MAPPED, REJECTED}"
| "TRANSITIONS IMPORTED = {ARCHIVED}"
| "TRANSITIONS UPLOAD_FAILED = {UPLOADING, REJECTED}"
| "TRANSITIONS QUARANTINED = {REJECTED}"
| "TRANSITIONS REJECTED = {}"
| "TRANSITIONS ARCHIVED = {}"
| "TRANSITIONS DUPLICATE = {}"

datatype file_validation =
    Unvalidated
  | Unparsable py_error
  | Reported mapping_report
  | Import_error file_validation py_error

record inbox_file =
  xf_id :: string
  xf_filename :: string
  xf_content_hash :: string
  xf_size_bytes :: nat
  xf_state :: file_state
  xf_source :: string
  xf_agent_id :: "string option"
  xf_uploaded_file_id :: "string option"
  xf_profile_id :: "string option"
  xf_dataset_version_id :: "string option"
  xf_duplicate_of :: "string option"
  xf_metadata :: "pyval dict"
  xf_mapping :: "string dict"
  xf_validation :: file_validation
  xf_history :: "(file_state \<times> int \<times> string) list"

record uploaded_file =
  up_id :: string
  up_original_filename :: string
  up_content_type :: string
  up_object_key :: string
  up_content_hash :: string
  up_size_bytes :: nat
  up_upload_state :: string

record dataset_row =
  dt_id :: string
  dt_name :: string
  dt_source :: string
  dt_dataset_type :: string

record raw_object =
  ro_id :: string
  ro_provider :: string
  ro_dataset :: string
  ro_object_key :: string
  ro_content_hash :: string
  ro_source_uri :: string
  ro_correlation_id :: string

record dataset_version =
  dv_id :: string
  dv_dataset_id :: string
  dv_version :: nat
  dv_raw_object_id :: string
  dv_row_count :: nat
  dv_content_hash :: string
  dv_licence :: string
  dv_profile_id :: string
  dv_file_id :: string
  dv_curated_key :: string

record dataset_column =
  dc_version_id :: string
  dc_name :: string
  dc_mapped_role :: "string option"

record local_agent =
  la_id :: string
  la_name :: string
  la_token_hash :: string
  la_scopes :: "string list"
  la_last_seen :: "int option"
  la_revoked_at :: "int option"
  la_status :: "pyval dict"

record agent_pairing =
  ap_id :: string
  ap_code_hash :: string
  ap_expires_at :: int
  ap_claimed_at :: "int option"
  ap_scopes :: "string list"

record inbox_db =
  ix_trade :: trade_db
  ix_files :: "inbox_file list"
  ix_hashes :: "(string \<times> string) list"
  ix_uploads :: "uploaded_file list"
  ix_profiles :: "mapping_profile list"
  ix_datasets :: "dataset_row list"
  ix_raws :: "raw_object list"
  ix_versions :: "dataset_version list"
  ix_lineage :: "(string \<times> string) list"
  ix_columns :: "dataset_column list"
  ix_market :: "market_row list"
  ix_fx :: "fx_observation_row list"
  ix_agents :: "local_agent list"
  ix_pairings :: "agent_pairing list"
  ix_objects :: object_store
  ix_audit :: "(string \<times> string \<times> string option) list"

text \<open>\<open>ie_trade n\<close> is what the recording of the \<open>n\<close>-th record of an import draws; \<open>ie_identity admin\<close> is
  the signed-in user, who must be an administrator if \<open>admin\<close> is set.\<close>

record inbox_env =
  ie_now :: int
  ie_trade :: "nat \<Rightarrow> trade_env"
  ie_mapping :: mapping_env
  ie_new_id :: "string \<Rightarrow> string"
  ie_parse :: "string \<Rightarrow> string \<Rightarrow> (pyval dict list \<times> string list) result"
  ie_sha256 :: "string \<Rightarrow> string"
  ie_outage :: "string \<Rightarrow> py_error option"
  ie_dumps :: "pyval dict list \<Rightarrow> string"
  ie_identity :: "bool \<Rightarrow> string option result"

definition file_transition :: "int \<Rightarrow> inbox_file \<Rightarrow> file_state \<Rightarrow> string \<Rightarrow> inbox_file result" where
  "file_transition now row state message =
     bindE (ensure (state \<in> TRANSITIONS (xf_state row)) (ValueError ''Invalid file file_transition'')) (\<lambda>_.
     Inr (row\<lparr>xf_state := state, xf_history := xf_history row @ [(state, now, message)]\<rparr>))"

definition file_of :: "inbox_db \<Rightarrow> string \<Rightarrow> inbox_file result" where
  "file_of db i = found (ValueError ''File not found'') (find (\<lambda>f. xf_id f = i) (ix_files db))"

definition save_file :: "inbox_file \<Rightarrow> inbox_db \<Rightarrow> inbox_db" where
  "save_file row db = db\<lparr>ix_files := map (\<lambda>f. if xf_id f = xf_id row then row else f) (ix_files db)\<rparr>"

definition file_audit :: "string \<Rightarrow> string \<Rightarrow> string option \<Rightarrow> inbox_db \<Rightarrow> inbox_db" where
  "file_audit action i actor db = db\<lparr>ix_audit := ix_audit db @ [(action, i, actor)]\<rparr>"

section \<open>Storage\<close>

definition put_bytes :: "inbox_env \<Rightarrow> object_store \<Rightarrow> string \<Rightarrow> string \<Rightarrow> object_store result" where
  "put_bytes env objects key content =
     (if \<not> valid_key key then Inl (ValueError ''Invalid object key'')
      else case ie_outage env key of Some e \<Rightarrow> Inl e | None \<Rightarrow> Inr (AList.update key content objects))"

definition stored_bytes :: "inbox_env \<Rightarrow> object_store \<Rightarrow> string \<Rightarrow> string result" where
  "stored_bytes env objects key =
     (if \<not> valid_key key then Inl (ValueError ''Invalid object key'')
      else case ie_outage env key of
          Some e \<Rightarrow> Inl e
        | None \<Rightarrow> found (OSError ''No such file or directory'') (map_of objects key))"

definition upload_of :: "inbox_db \<Rightarrow> inbox_file \<Rightarrow> uploaded_file result" where
  "upload_of db row = (case xf_uploaded_file_id row of
       None \<Rightarrow> Inl (ValueError ''Raw file reference is missing'')
     | Some i \<Rightarrow> found (ValueError ''Raw file reference is missing'') (find (\<lambda>u. up_id u = i) (ix_uploads db)))"

definition raw_rows :: "inbox_env \<Rightarrow> inbox_db \<Rightarrow> inbox_file \<Rightarrow> (pyval dict list \<times> string list) result" where
  "raw_rows env db row =
     bindE (upload_of db row) (\<lambda>uploaded.
     bindE (stored_bytes env (ix_objects db) (up_object_key uploaded)) (\<lambda>content.
     bindE (ensure (ie_sha256 env content = xf_content_hash row) (ValueError ''Raw file integrity check failed'')) (\<lambda>_.
     ie_parse env content (xf_filename row))))"

section \<open>Receiving a file\<close>

fun path_parts :: "string \<Rightarrow> string \<Rightarrow> string list" where
  "path_parts word [] = [word]"
| "path_parts word (ch # rest) =
     (if ch = CHR ''/'' then word # path_parts [] rest else path_parts (word @ [ch]) rest)"

definition path_name :: "string \<Rightarrow> string" where
  "path_name s = (case rev (filter (\<lambda>p. p \<noteq> [] \<and> p \<noteq> ''.'') (path_parts [] s)) of [] \<Rightarrow> [] | p # _ \<Rightarrow> p)"

definition file_suffix :: "string \<Rightarrow> string" where
  "file_suffix s = str_lower (drop (length (file_stem s)) s)"

definition file_name_of :: "string \<Rightarrow> string" where
  "file_name_of s = path_name (map (\<lambda>ch. if ch = CHR 92 then CHR ''/'' else ch) s)"

definition detected_file :: "inbox_env \<Rightarrow> string \<Rightarrow> string \<Rightarrow> string \<Rightarrow> string option \<Rightarrow> inbox_file" where
  "detected_file env name content src agent_id =
     \<lparr>xf_id = ie_new_id env ''file'', xf_filename = name, xf_content_hash = ie_sha256 env content,
      xf_size_bytes = length content, xf_state = DETECTED, xf_source = src, xf_agent_id = agent_id,
      xf_uploaded_file_id = None, xf_profile_id = None, xf_dataset_version_id = None, xf_duplicate_of = None,
      xf_metadata = [], xf_mapping = [], xf_validation = Unvalidated, xf_history = [(DETECTED, ie_now env, [])]\<rparr>"

definition raw_key :: "string \<Rightarrow> string \<Rightarrow> string \<Rightarrow> string" where
  "raw_key file_id sha name = ''data-drop/raw/'' @ file_id @ ''/'' @ sha @ file_suffix name"

definition new_upload :: "inbox_env \<Rightarrow> string \<Rightarrow> string \<Rightarrow> string \<Rightarrow> uploaded_file" where
  "new_upload env name content key =
     \<lparr>up_id = ie_new_id env ''upload'', up_original_filename = name, up_content_type = drop 1 (file_suffix name),
      up_object_key = key, up_content_hash = ie_sha256 env content, up_size_bytes = length content,
      up_upload_state = ''STORED_RAW''\<rparr>"

definition preview_metadata ::
  "inbox_env \<Rightarrow> string \<Rightarrow> string \<Rightarrow> pyval dict list \<Rightarrow> string list \<Rightarrow> pyval dict" where
  "preview_metadata env name key rows columns =
     merged (filename_metadata (me_read_date (ie_mapping env)) name)
       [(''columns'', VList (map VStr columns)), (''preview'', VList (map VDict (take 30 rows))),
        (''row_count'', VNum (nat_str (length rows))), (''licence'', VNone), (''raw_key'', VStr key)]"

definition preview ::
  "inbox_env \<Rightarrow> string \<Rightarrow> string \<Rightarrow> string \<Rightarrow> inbox_file \<Rightarrow> inbox_db \<Rightarrow> (inbox_file \<times> inbox_db) result" where
  "preview env name content key row db =
     bindE (file_transition (ie_now env) row PREVIEWING []) (\<lambda>row. case ie_parse env content name of
       Inl e \<Rightarrow> bindE (file_transition (ie_now env) row QUARANTINED ''Parser rejected file'') (\<lambda>row.
         Inr (row\<lparr>xf_validation := Unparsable e\<rparr>, db))
     | Inr (rows, columns) \<Rightarrow>
         bindE (file_transition (ie_now env) (row\<lparr>xf_metadata := preview_metadata env name key rows columns\<rparr>) SCHEMA_DETECTED [])
           (\<lambda>row.
         bindE (file_transition (ie_now env) row MAPPING_REQUIRED ''First mapping and import require approval'') (\<lambda>row.
         Inr (row, db\<lparr>ix_profiles := seed_profiles (ie_new_id env) (ix_profiles db)\<rparr>))))"

definition storage_failure :: "py_error \<Rightarrow> bool" where
  "storage_failure e \<longleftrightarrow> (case e of ValueError _ \<Rightarrow> True | OSError _ \<Rightarrow> True | RevisionConflict _ \<Rightarrow> True
     | PortfolioNotFound _ \<Rightarrow> True | _ \<Rightarrow> False)"

definition store_raw ::
  "inbox_env \<Rightarrow> string \<Rightarrow> string \<Rightarrow> string \<Rightarrow> string option \<Rightarrow> inbox_file \<Rightarrow> inbox_db \<Rightarrow>
   (inbox_file \<times> inbox_db) result" where
  "store_raw env name content src agent_id row db =
     bindE (file_transition (ie_now env) row UPLOADING []) (\<lambda>row.
     let key = raw_key (xf_id row) (ie_sha256 env content) name in
     case put_bytes env (ix_objects db) key content of
       Inl e \<Rightarrow>
         if storage_failure e
         then bindE (file_transition (ie_now env) row UPLOAD_FAILED ''Object storage write failed'') (\<lambda>row.
           Inr (row, save_file row db))
         else Inl e
     | Inr objects \<Rightarrow>
         let uploaded = new_upload env name content key in
         bindE (file_transition (ie_now env) (row\<lparr>xf_uploaded_file_id := Some (up_id uploaded)\<rparr>) STORED_RAW []) (\<lambda>row.
         bindE (preview env name content key row
           (db\<lparr>ix_objects := objects, ix_uploads := ix_uploads db @ [uploaded]\<rparr>)) (\<lambda>(row, db).
         Inr (row, file_audit ''EXTERNAL_FILE_RECEIVED'' (xf_id row) None (save_file row db)))))"

definition retries :: "inbox_db \<Rightarrow> string \<Rightarrow> string option \<Rightarrow> inbox_file option" where
  "retries db sha agent_id = Option.bind (map_of (ix_hashes db) sha) (\<lambda>owner.
     Option.bind (find (\<lambda>f. xf_id f = owner) (ix_files db)) (\<lambda>failed.
     if xf_state failed = UPLOAD_FAILED \<and> xf_agent_id failed = agent_id then Some failed else None))"

definition receive ::
  "inbox_env \<Rightarrow> inbox_db \<Rightarrow> string \<Rightarrow> string \<Rightarrow> string \<Rightarrow> string option \<Rightarrow> (inbox_file \<times> inbox_db) result" where
  "receive env db filename content src agent_id =
     bindE (ensure (0 < length content \<and> int (length content) \<le> 25000000)
       (ValueError ''File must be nonempty and at most 25 MB'')) (\<lambda>_.
     let name = file_name_of filename; sha = ie_sha256 env content in
     bindE (ensure (name \<noteq> [] \<and> length name \<le> 260) (ValueError ''Invalid filename'')) (\<lambda>_.
     bindE (file_transition (ie_now env) (detected_file env name content src agent_id) HASHING []) (\<lambda>row.
     case retries db sha agent_id of
       Some failed \<Rightarrow>
         store_raw env name content src agent_id failed (file_audit ''RAW_UPLOAD_RETRIED'' (xf_id failed) None db)
     | None \<Rightarrow> (case map_of (ix_hashes db) sha of
         Some owner \<Rightarrow>
           bindE (file_transition (ie_now env) (row\<lparr>xf_duplicate_of := Some owner\<rparr>) DUPLICATE
             ''Byte-identical file already recorded'') (\<lambda>row.
           Inr (row, db\<lparr>ix_files := ix_files db @ [row]\<rparr>))
       | None \<Rightarrow>
           store_raw env name content src agent_id row
             (db\<lparr>ix_files := ix_files db @ [row], ix_hashes := ix_hashes db @ [(sha, xf_id row)]\<rparr>)))))"

section \<open>Mapping\<close>

definition UNMAPPABLE :: "file_state set" where
  "UNMAPPABLE = FINAL \<union> {QUARANTINED, REJECTED, UPLOAD_FAILED}"

definition profile_by_id :: "inbox_db \<Rightarrow> string \<Rightarrow> mapping_profile option" where
  "profile_by_id db i = find (\<lambda>p. mp_id p = i) (ix_profiles db)"

definition normalized_rows ::
  "ctx \<Rightarrow> inbox_env \<Rightarrow> inbox_db \<Rightarrow> inbox_file \<Rightarrow> mapping_profile \<Rightarrow> pyval dict list \<Rightarrow> pyval dict \<Rightarrow> string option \<Rightarrow>
   (pyval dict list \<times> mapping_report) result" where
  "normalized_rows c env db row profile rows defaults resolution =
     normalize c (ie_mapping env) rows (xf_mapping row) profile (tb_instruments (ix_trade db)) (xf_metadata row)
       defaults resolution"

definition validated_state :: "mapping_report \<Rightarrow> file_state" where
  "validated_state report =
     (if vr_valid report \<and> vr_warnings report \<noteq> [] then VALIDATED_WITH_WARNINGS
      else if vr_valid report then VALIDATED else VALIDATION_FAILED)"

definition mapped_file ::
  "inbox_file \<Rightarrow> mapping_profile \<Rightarrow> string dict \<Rightarrow> pyval dict \<Rightarrow> string option \<Rightarrow> inbox_file" where
  "mapped_file row profile chosen defaults resolution =
     row\<lparr>xf_profile_id := Some (mp_id profile), xf_mapping := chosen, xf_source := mp_source profile,
       xf_metadata := merged (xf_metadata row) [(''defaults'', VDict defaults),
         (''symbol_resolution'', case resolution of None \<Rightarrow> VNone | Some s \<Rightarrow> VStr s),
         (''mapping_profile'', VStr (mp_code profile)), (''mapping_version'', VNum (nat_str (mp_version profile)))]\<rparr>"

definition map_validate ::
  "ctx \<Rightarrow> inbox_env \<Rightarrow> inbox_db \<Rightarrow> string \<Rightarrow> string \<Rightarrow> string dict option \<Rightarrow> pyval dict \<Rightarrow> string option \<Rightarrow>
   (inbox_file \<times> inbox_db) result" where
  "map_validate c env db file_id profile_id mapping defaults resolution =
     bindE (ie_identity env False) (\<lambda>actor.
     bindE (file_of db file_id) (\<lambda>row.
     bindE (ensure (xf_state row \<notin> UNMAPPABLE) (ValueError ''This file cannot be mapped'')) (\<lambda>_.
     bindE (found (ValueError ''Unknown mapping profile'') (profile_by_id db profile_id)) (\<lambda>profile.
     bindE (raw_rows env db row) (\<lambda>(rows, columns).
     let chosen = (case mapping of Some m \<Rightarrow> m | None \<Rightarrow> suggest_mapping columns profile) in
     bindE (ensure (list_all (\<lambda>(role, column). column = [] \<or> column \<in> set columns) chosen)
       (ValueError ''Mapped columns must exist in the raw file'')) (\<lambda>_.
     bindE (file_transition (ie_now env) row MAPPED []) (\<lambda>row.
     bindE (file_transition (ie_now env) (mapped_file row profile chosen defaults resolution) VALIDATING []) (\<lambda>row.
     bindE (normalized_rows c env db row profile rows defaults resolution) (\<lambda>(normalized, report).
     bindE (file_transition (ie_now env) (row\<lparr>xf_validation := Reported report\<rparr>) (validated_state report) []) (\<lambda>row.
     bindE (if vr_valid report then file_transition (ie_now env) row AWAITING_APPROVAL [] else Inr row) (\<lambda>row.
     let row = row\<lparr>xf_metadata := merged (xf_metadata row)
           [(''normalized_preview'', VList (map VDict (take 30 normalized)))]\<rparr> in
     Inr (row, file_audit ''FILE_MAPPING_VALIDATED'' (xf_id row) actor (save_file row db)))))))))))))"

section \<open>Import\<close>

definition dataset_for :: "inbox_env \<Rightarrow> inbox_db \<Rightarrow> string \<Rightarrow> mapping_profile \<Rightarrow> dataset_row \<times> inbox_db" where
  "dataset_for env db name profile =
     (case find (\<lambda>d. dt_name d = name \<and> dt_source d = mp_source profile \<and> dt_dataset_type d = mp_dataset_type profile)
        (ix_datasets db) of
        Some d \<Rightarrow> (d, db)
      | None \<Rightarrow>
          let d = \<lparr>dt_id = ie_new_id env ''dataset'', dt_name = name, dt_source = mp_source profile,
                dt_dataset_type = mp_dataset_type profile\<rparr>
          in (d, db\<lparr>ix_datasets := ix_datasets db @ [d]\<rparr>))"

definition next_version :: "inbox_db \<Rightarrow> string \<Rightarrow> nat" where
  "next_version db dataset_id =
     Max (insert 0 (dv_version ` set (filter (\<lambda>v. dv_dataset_id v = dataset_id) (ix_versions db)))) + 1"

text \<open>By date, then by symbol.\<close>

definition sorted_records :: "pyval dict list \<Rightarrow> pyval dict list" where
  "sorted_records records =
     (let text = \<lambda>v. if falsy v then [] else py_str v;
          day = \<lambda>r. if falsy (meta_get r ''date'') then text (meta_get r ''trade_date'') else py_str (meta_get r ''date'')
      in sort_key day (sort_key (\<lambda>r. text (meta_get r ''symbol'')) records))"

definition curated_key :: "string \<Rightarrow> nat \<Rightarrow> string \<Rightarrow> string" where
  "curated_key dataset_id version file_id =
     ''data-drop/curated/'' @ dataset_id @ ''/v'' @ nat_str version @ ''-'' @ file_id @ ''.json''"

definition text_field :: "pyval dict \<Rightarrow> string \<Rightarrow> string \<Rightarrow> string result" where
  "text_field record field message = (case meta_get record field of VStr s \<Rightarrow> Inr s | _ \<Rightarrow> Inl (ValueError message))"

definition observed_day :: "inbox_env \<Rightarrow> pyval dict \<Rightarrow> date result" where
  "observed_day env record =
     bindE (text_field record ''date'' ''Normalized observation date must be text'') (\<lambda>s.
     found (ValueError ''Invalid isoformat string'') (me_read_date (ie_mapping env) s))"

definition import_price ::
  "ctx \<Rightarrow> inbox_env \<Rightarrow> string \<Rightarrow> mapping_profile \<Rightarrow> inbox_file \<Rightarrow> string \<Rightarrow> inbox_db \<Rightarrow> nat \<times> pyval dict \<Rightarrow>
   inbox_db result" where
  "import_price c env version_id profile row licence db indexed =
     (let (n, record) = indexed in
      bindE (text_field record ''symbol'' ''Normalized security symbol must be text'') (\<lambda>symbol.
      bindE (found (KeyError symbol) (known_security (tb_instruments (ix_trade db)) symbol)) (\<lambda>item.
      bindE (observed_day env record) (\<lambda>day.
      bindE (decimal c (meta_get record ''close'') ''amount'' False False) (\<lambda>price.
      Inr (db\<lparr>ix_market := ix_market db @
        [\<lparr>mo_id = ie_new_id env (''observation'' @ nat_str n), mo_created_at = ie_now env, mo_instrument_id = in_id item,
          mo_timestamp = start_of_day day + 20 * 3600000000, mo_price = price, mo_currency = in_currency item,
          mo_source = mp_source profile, mo_source_category = ''FILE'', mo_data_state = ''FILE IMPORT'',
          mo_adjustment_state = ''UNADJUSTED'', mo_dataset_version_id = Some version_id,
          mo_source_file_id = Some (xf_id row),
          mo_fields = merged record [(''filename'', VStr (xf_filename row)), (''licence'', VStr licence)]\<rparr>]\<rparr>))))))"

definition import_fx ::
  "ctx \<Rightarrow> inbox_env \<Rightarrow> mapping_profile \<Rightarrow> inbox_file \<Rightarrow> inbox_db \<Rightarrow> nat \<times> pyval dict \<Rightarrow> inbox_db result" where
  "import_fx c env profile row db indexed =
     (let (n, record) = indexed in
      bindE (observed_day env record) (\<lambda>day.
      bindE (decimal c (meta_get record ''rate'') ''amount'' False False) (\<lambda>rate.
      Inr (db\<lparr>ix_fx := ix_fx db @
        [\<lparr>fo_id = ie_new_id env (''fx'' @ nat_str n), fo_created_at = ie_now env,
          fo_base_currency = py_str (meta_get record ''base_currency''),
          fo_quote_currency = py_str (meta_get record ''quote_currency''), fo_timestamp = start_of_day day,
          fo_rate = rate, fo_source = mp_source profile, fo_source_category = ''FILE'', fo_data_state = ''FILE IMPORT'',
          fo_source_file_id = Some (xf_id row)\<rparr>]\<rparr>))))"

definition import_payload :: "inbox_file \<Rightarrow> nat \<Rightarrow> pyval dict \<Rightarrow> pyval dict" where
  "import_payload row n record =
     AList.update ''external_reference''
       (if falsy (meta_get record ''external_reference'') then VStr (xf_content_hash row @ '':'' @ nat_str n)
        else meta_get record ''external_reference'') record"

definition import_trade ::
  "ctx \<Rightarrow> inbox_env \<Rightarrow> mapping_profile \<Rightarrow> inbox_file \<Rightarrow> string \<Rightarrow> string option \<Rightarrow> inbox_db \<Rightarrow> nat \<times> pyval dict \<Rightarrow>
   inbox_db result" where
  "import_trade c env profile row portfolio actor db indexed =
     (let (n, record) = indexed in
      bindE (add_trade c (ie_trade env n) (ix_trade db) (import_payload row n record) portfolio (mp_source profile)
        (Some (xf_id row)) actor) (\<lambda>(receipt, trade).
      Inr (db\<lparr>ix_trade := trade\<rparr>)))"

definition import_record ::
  "ctx \<Rightarrow> inbox_env \<Rightarrow> string \<Rightarrow> mapping_profile \<Rightarrow> inbox_file \<Rightarrow> string \<Rightarrow> string \<Rightarrow> string option \<Rightarrow> inbox_db \<Rightarrow>
   nat \<times> pyval dict \<Rightarrow> inbox_db result" where
  "import_record c env version_id profile row licence portfolio actor db indexed =
     (if mp_dataset_type profile \<in> {''ohlcv'', ''snapshot''}
      then import_price c env version_id profile row licence db indexed
      else if mp_dataset_type profile = ''fx'' then import_fx c env profile row db indexed
      else if mp_dataset_type profile = ''transactions'' then import_trade c env profile row portfolio actor db indexed
      else Inr db)"

definition enable_prices :: "string \<Rightarrow> string option \<Rightarrow> inbox_db \<Rightarrow> inbox_db" where
  "enable_prices portfolio actor db =
     (let l = tb_ledger (ix_trade db) in
      case profile_for (db_profiles l) portfolio of
        None \<Rightarrow> db
      | Some p \<Rightarrow>
          if meta_get (pr_configuration p) ''price_mode'' \<noteq> VStr ''DEMO_ONLY'' then db
          else file_audit ''PORTFOLIO_APPROVED_EXTERNAL_PRICES'' (pr_portfolio_id p) actor
            (db\<lparr>ix_trade := (ix_trade db)\<lparr>tb_ledger := l\<lparr>db_profiles := map (\<lambda>r.
              if pr_portfolio_id r = pr_portfolio_id p
              then r\<lparr>pr_configuration := AList.update ''price_mode'' (VStr ''AUTO'') (pr_configuration r)\<rparr> else r)
              (db_profiles l)\<rparr>\<rparr>\<rparr>))"

definition new_version ::
  "inbox_env \<Rightarrow> string \<Rightarrow> nat \<Rightarrow> string \<Rightarrow> nat \<Rightarrow> inbox_file \<Rightarrow> string \<Rightarrow> string \<Rightarrow> string \<Rightarrow> dataset_version" where
  "new_version env dataset_id version raw_id rows row licence profile_id key =
     \<lparr>dv_id = ie_new_id env ''version'', dv_dataset_id = dataset_id, dv_version = version, dv_raw_object_id = raw_id,
      dv_row_count = rows, dv_content_hash = xf_content_hash row, dv_licence = licence, dv_profile_id = profile_id,
      dv_file_id = xf_id row, dv_curated_key = key\<rparr>"

definition new_columns :: "string \<Rightarrow> string dict \<Rightarrow> string list \<Rightarrow> dataset_column list" where
  "new_columns version_id mapping columns = map (\<lambda>column. \<lparr>dc_version_id = version_id, dc_name = column,
     dc_mapped_role = map_option fst (find (\<lambda>(role, v). v = column) mapping)\<rparr>) columns"

text \<open>The transaction of an import, up to the stored curated object and then the rest: the object
  outlives a rollback of what follows.\<close>

definition curate ::
  "inbox_env \<Rightarrow> string \<Rightarrow> mapping_profile \<Rightarrow> inbox_file \<Rightarrow> pyval dict list \<Rightarrow> inbox_db \<Rightarrow>
   (dataset_row \<times> nat \<times> string \<times> string \<times> inbox_db) result" where
  "curate env name profile row records db =
     (let (dataset, db) = dataset_for env db name profile;
          version = next_version db (dt_id dataset);
          key = curated_key (dt_id dataset) version (xf_id row)
      in bindE (upload_of db row) (\<lambda>uploaded.
         let raw = \<lparr>ro_id = ie_new_id env ''raw'', ro_provider = mp_source profile, ro_dataset = mp_dataset_type profile,
               ro_object_key = up_object_key uploaded, ro_content_hash = xf_content_hash row,
               ro_source_uri = xf_filename row, ro_correlation_id = xf_id row\<rparr> in
         bindE (put_bytes env (ix_objects db) key (ie_dumps env records)) (\<lambda>objects.
         Inr (dataset, version, ro_id raw, key, db\<lparr>ix_raws := ix_raws db @ [raw], ix_objects := objects\<rparr>))))"

definition import_records ::
  "ctx \<Rightarrow> inbox_env \<Rightarrow> dataset_version \<Rightarrow> mapping_profile \<Rightarrow> inbox_file \<Rightarrow> string list \<Rightarrow> pyval dict list \<Rightarrow> string \<Rightarrow>
   string \<Rightarrow> string option \<Rightarrow> inbox_db \<Rightarrow> inbox_db result" where
  "import_records c env version profile row columns records licence portfolio actor db =
     bindE (foldE (import_record c env (dv_id version) profile row licence portfolio actor)
       (db\<lparr>ix_versions := ix_versions db @ [version], ix_lineage := ix_lineage db @ [(dv_id version, xf_id row)],
           ix_columns := ix_columns db @ new_columns (dv_id version) (xf_mapping row) columns\<rparr>)
       (enumerate 0 records)) (\<lambda>db.
     let db = (if mp_dataset_type profile \<in> {''ohlcv'', ''snapshot'', ''fx''} then enable_prices portfolio actor db else db) in
     Inr (file_audit ''EXTERNAL_FILE_IMPORTED'' (xf_id row) actor
       (db\<lparr>ix_uploads := map (\<lambda>u. if Some (up_id u) = xf_uploaded_file_id row then u\<lparr>up_upload_state := ''IMPORTED''\<rparr> else u)
         (ix_uploads db)\<rparr>)))"

definition import_failure :: "py_error \<Rightarrow> bool" where
  "import_failure e \<longleftrightarrow> storage_failure e \<or> (case e of IntegrityError _ \<Rightarrow> True | _ \<Rightarrow> False)"

definition failed_import ::
  "inbox_env \<Rightarrow> inbox_file \<Rightarrow> py_error \<Rightarrow> inbox_db \<Rightarrow> (inbox_file \<times> inbox_db) result" where
  "failed_import env row e db =
     (if import_failure e
      then bindE (file_transition (ie_now env) row IMPORT_FAILED ''Atomic import rolled back'') (\<lambda>row.
        let row = row\<lparr>xf_validation := Import_error (xf_validation row) e\<rparr> in Inr (row, save_file row db))
      else Inl e)"

definition imported_file :: "inbox_file \<Rightarrow> string \<Rightarrow> string \<Rightarrow> string \<Rightarrow> string \<Rightarrow> inbox_file" where
  "imported_file row version_id licence dataset_id key =
     row\<lparr>xf_dataset_version_id := Some version_id, xf_metadata := merged (xf_metadata row)
       [(''licence'', VStr licence), (''dataset_id'', VStr dataset_id), (''curated_key'', VStr key)]\<rparr>"

definition run_import ::
  "ctx \<Rightarrow> inbox_env \<Rightarrow> string \<Rightarrow> string \<Rightarrow> string \<Rightarrow> string option \<Rightarrow> mapping_profile \<Rightarrow> inbox_file \<Rightarrow> string list \<Rightarrow>
   pyval dict list \<Rightarrow> inbox_db \<Rightarrow> (inbox_file \<times> inbox_db) result" where
  "run_import c env name licence portfolio actor profile row columns records db =
     (case curate env name profile row records db of
        Inl e \<Rightarrow> failed_import env row e db
      | Inr (dataset, version, raw_id, key, db1) \<Rightarrow>
          let v = new_version env (dt_id dataset) version raw_id (length records) row licence (mp_id profile) key in
          case import_records c env v profile row columns records licence portfolio actor db1 of
            Inl e \<Rightarrow> failed_import env row e (db\<lparr>ix_objects := ix_objects db1\<rparr>)
          | Inr db2 \<Rightarrow>
              bindE (file_transition (ie_now env) (imported_file row (dv_id v) licence (dt_id dataset) key) IMPORTED []) (\<lambda>row.
              Inr (row, save_file row db2)))"

definition saved_inputs :: "pyval dict \<Rightarrow> (pyval dict \<times> string option) result" where
  "saved_inputs metadata =
     bindE (case dict_get metadata ''defaults'' (VDict []) of VDict d \<Rightarrow> Inr d
        | _ \<Rightarrow> Inl (ValueError ''Input should be a valid dictionary'')) (\<lambda>defaults.
     bindE (trade_text (meta_get metadata ''symbol_resolution'')) (\<lambda>resolution. Inr (defaults, resolution)))"

definition import_file ::
  "ctx \<Rightarrow> inbox_env \<Rightarrow> inbox_db \<Rightarrow> string \<Rightarrow> string \<Rightarrow> string \<Rightarrow> bool \<Rightarrow> string \<Rightarrow> (inbox_file \<times> inbox_db) result" where
  "import_file c env db file_id name licence approve portfolio =
     bindE (ie_identity env False) (\<lambda>actor.
     bindE (file_of db file_id) (\<lambda>row.
     if xf_state row \<in> {IMPORTED, ARCHIVED} then Inr (row, db)
     else bindE (ensure (xf_state row = AWAITING_APPROVAL \<and> approve)
         (ValueError ''Validated mapping and explicit import approval required'')) (\<lambda>_.
       bindE (ensure (str_strip licence \<noteq> [] \<and> str_strip name \<noteq> [] \<and> length name \<le> 200)
         (ValueError ''Dataset name and licence note are required'')) (\<lambda>_.
       bindE (found (ValueError ''Approved mapping profile is missing'')
         (Option.bind (xf_profile_id row) (profile_by_id db))) (\<lambda>profile.
       bindE (saved_inputs (xf_metadata row)) (\<lambda>(defaults, resolution).
       bindE (raw_rows env db row) (\<lambda>(rows, columns).
       bindE (normalized_rows c env db row profile rows defaults resolution) (\<lambda>(normalized, report).
       bindE (ensure (vr_valid report) (ValueError ''Revalidation failed'')) (\<lambda>_.
       bindE (file_transition (ie_now env) row IMPORTING []) (\<lambda>row.
       run_import c env name licence portfolio actor profile row columns (sorted_records normalized) db))))))))))"

definition reject_file :: "inbox_env \<Rightarrow> inbox_db \<Rightarrow> string \<Rightarrow> string \<Rightarrow> (inbox_file \<times> inbox_db) result" where
  "reject_file env db file_id reason =
     bindE (ensure (5 \<le> length reason \<and> length reason \<le> 1000) (ValueError ''String length out of range'')) (\<lambda>_.
     bindE (file_of db file_id) (\<lambda>row.
     bindE (file_transition (ie_now env) row REJECTED reason) (\<lambda>row.
     bindE (ie_identity env False) (\<lambda>actor.
     Inr (row, file_audit ''EXTERNAL_FILE_REJECTED'' (xf_id row) actor (save_file row db))))))"

section \<open>Local agents\<close>

definition SCOPES :: "string list" where
  "SCOPES = [''files:upload'', ''files:status'', ''agent:heartbeat'']"

definition pair_agent :: "inbox_env \<Rightarrow> inbox_db \<Rightarrow> bool \<Rightarrow> (string \<times> inbox_db) result" where
  "pair_agent env db broker =
     bindE (ie_identity env True) (\<lambda>actor.
     bindE (if \<not> broker then Inr SCOPES
       else bindE (found (HTTPError 409 ''Main portfolio profile is not configured'')
           (profile_for (db_profiles (tb_ledger (ix_trade db))) [])) (\<lambda>profile.
         Inr (SCOPES @ [''broker:read-sync'', ''portfolio:'' @ pr_portfolio_id profile]))) (\<lambda>permissions.
     let code = ie_new_id env ''code'';
         row = \<lparr>ap_id = ie_new_id env ''pairing'', ap_code_hash = ie_sha256 env code,
           ap_expires_at = ie_now env + 10 * 60 * 1000000, ap_claimed_at = None, ap_scopes = permissions\<rparr>
     in Inr (code, file_audit ''AGENT_PAIRING_CREATED'' (ap_id row) actor (db\<lparr>ix_pairings := ix_pairings db @ [row]\<rparr>))))"

definition open_pairing :: "int \<Rightarrow> agent_pairing \<Rightarrow> bool" where
  "open_pairing now p \<longleftrightarrow> ap_claimed_at p = None \<and> now < ap_expires_at p"

definition claim_agent :: "inbox_env \<Rightarrow> inbox_db \<Rightarrow> string \<Rightarrow> string \<Rightarrow> (string \<times> inbox_db) result" where
  "claim_agent env db code name =
     bindE (ensure (20 \<le> length code \<and> length code \<le> 100 \<and> 1 \<le> length name \<and> length name \<le> 160)
       (ValueError ''String length out of range'')) (\<lambda>_.
     bindE (found (HTTPError 403 ''Pairing code is invalid or expired'')
       (find (\<lambda>p. ap_code_hash p = ie_sha256 env code) (ix_pairings db))) (\<lambda>row.
     bindE (ensure (open_pairing (ie_now env) row) (HTTPError 403 ''Pairing code is invalid or expired'')) (\<lambda>_.
     bindE (ensure (length (filter (\<lambda>p. ap_id p = ap_id row \<and> open_pairing (ie_now env) p) (ix_pairings db)) = 1)
       (HTTPError 409 ''Pairing already claimed'')) (\<lambda>_.
     let token = ie_new_id env ''token'';
         agent = \<lparr>la_id = ie_new_id env ''agent'', la_name = name, la_token_hash = ie_sha256 env token,
           la_scopes = ap_scopes row, la_last_seen = None, la_revoked_at = None, la_status = []\<rparr>
     in Inr (token, db\<lparr>ix_pairings := map (\<lambda>p. if ap_id p = ap_id row \<and> open_pairing (ie_now env) p
            then p\<lparr>ap_claimed_at := Some (ie_now env)\<rparr> else p) (ix_pairings db),
          ix_agents := ix_agents db @ [agent]\<rparr>)))))"

definition update_agent :: "string \<Rightarrow> (local_agent \<Rightarrow> local_agent) \<Rightarrow> inbox_db \<Rightarrow> inbox_db" where
  "update_agent i f db = db\<lparr>ix_agents := map (\<lambda>a. if la_id a = i then f a else a) (ix_agents db)\<rparr>"

definition revoke_agent :: "inbox_env \<Rightarrow> inbox_db \<Rightarrow> string \<Rightarrow> inbox_db result" where
  "revoke_agent env db agent_id =
     bindE (ie_identity env True) (\<lambda>actor.
     bindE (ensure (agent_id \<in> la_id ` set (ix_agents db)) (HTTPError 404 ''Agent not found'')) (\<lambda>_.
     Inr (file_audit ''AGENT_REVOKED'' agent_id actor
       (update_agent agent_id (\<lambda>a. a\<lparr>la_revoked_at := Some (ie_now env)\<rparr>) db))))"

definition agent_auth :: "inbox_env \<Rightarrow> inbox_db \<Rightarrow> string option \<Rightarrow> local_agent result" where
  "agent_auth env db authorization =
     (let auth = (case authorization of None \<Rightarrow> [] | Some s \<Rightarrow> s) in
      bindE (ensure (take 7 auth = ''Bearer '') (HTTPError 401 ''Agent token required'')) (\<lambda>_.
      found (HTTPError 401 ''Invalid or revoked agent token'')
        (find (\<lambda>a. la_token_hash a = ie_sha256 env (drop 7 auth) \<and> la_revoked_at a = None) (ix_agents db))))"

definition agent_scope :: "inbox_env \<Rightarrow> inbox_db \<Rightarrow> string option \<Rightarrow> string \<Rightarrow> local_agent result" where
  "agent_scope env db authorization permission =
     bindE (agent_auth env db authorization) (\<lambda>agent.
     bindE (ensure (permission \<in> set (la_scopes agent)) (HTTPError 403 ''Agent scope denied'')) (\<lambda>_. Inr agent))"

definition agent_heartbeat :: "inbox_env \<Rightarrow> inbox_db \<Rightarrow> string option \<Rightarrow> pyval dict \<Rightarrow> inbox_db result" where
  "agent_heartbeat env db authorization status =
     bindE (agent_scope env db authorization ''agent:heartbeat'') (\<lambda>agent.
     Inr (update_agent (la_id agent) (\<lambda>a. a\<lparr>la_last_seen := Some (ie_now env), la_status := status\<rparr>) db))"

definition agent_upload ::
  "inbox_env \<Rightarrow> inbox_db \<Rightarrow> string option \<Rightarrow> string \<Rightarrow> string \<Rightarrow> (inbox_file \<times> inbox_db) result" where
  "agent_upload env db authorization filename content =
     bindE (agent_scope env db authorization ''files:upload'') (\<lambda>agent.
     receive env db (if filename = [] then ''upload.csv'' else filename) content ''EXTERNAL FILE'' (Some (la_id agent)))"

definition agent_archived :: "inbox_env \<Rightarrow> inbox_db \<Rightarrow> string option \<Rightarrow> string \<Rightarrow> (inbox_file \<times> inbox_db) result" where
  "agent_archived env db authorization file_id =
     bindE (agent_scope env db authorization ''files:status'') (\<lambda>agent.
     bindE (file_of db file_id) (\<lambda>row.
     bindE (ensure (xf_agent_id row = Some (la_id agent)) (HTTPError 403 ''File belongs to another agent'')) (\<lambda>_.
     if xf_state row = ARCHIVED then Inr (row, db)
     else bindE (file_transition (ie_now env) row ARCHIVED ''Local agent confirmed archive'') (\<lambda>row.
       Inr (row, save_file row db)))))"

text \<open>Newest first: rows are stored in the order of their creation.\<close>

definition agent_files :: "inbox_env \<Rightarrow> inbox_db \<Rightarrow> string option \<Rightarrow> string list option \<Rightarrow> inbox_file list result" where
  "agent_files env db authorization file_ids =
     bindE (agent_scope env db authorization ''files:status'') (\<lambda>agent.
     let mine = rev (filter (\<lambda>f. xf_agent_id f = Some (la_id agent)) (ix_files db)) in
     case file_ids of
       None \<Rightarrow> Inr (take 500 mine)
     | Some ids \<Rightarrow> bindE (ensure (1 \<le> length ids \<and> length ids \<le> 100 \<and> list_all (\<lambda>i. 1 \<le> length i \<and> length i \<le> 200) ids)
         (HTTPError 422 ''Supply one to 100 bounded file identifiers'')) (\<lambda>_.
       Inr (filter (\<lambda>f. xf_id f \<in> set ids) mine)))"

datatype agent_state = AGENT_REVOKED | AGENT_ONLINE | AGENT_OFFLINE

definition agent_state_of :: "int \<Rightarrow> local_agent \<Rightarrow> agent_state" where
  "agent_state_of now a =
     (if la_revoked_at a \<noteq> None then AGENT_REVOKED
      else (case la_last_seen a of
          Some t \<Rightarrow> if now - t < 90 * 1000000 then AGENT_ONLINE else AGENT_OFFLINE
        | None \<Rightarrow> AGENT_OFFLINE))"

end
