(* ===== verification/Inbox_Facts.thy ===== *)
theory Inbox_Facts
  imports Data_Inbox Mapping_Facts Portfolio_Resources "HOL-Library.Multiset"
begin

text \<open>
  The inbox as a state machine: histories of files are paths of the transition table, a content has
  one original, its stored bytes stay what was received, an import is all or nothing, and each local
  agent comes from its own pairing. The book of trades replays whatever is imported into it.
\<close>

section \<open>Paths\<close>

fun path :: "file_state \<Rightarrow> file_state list \<Rightarrow> bool" where
  "path s [] \<longleftrightarrow> True"
| "path s (t # ts) \<longleftrightarrow> t \<in> TRANSITIONS s \<and> path t ts"

lemma path_append: "path s (ts @ us) \<longleftrightarrow> path s ts \<and> path (last (s # ts)) us"
  by (induction ts arbitrary: s) auto

text \<open>A file that another one became by transitions.\<close>

definition evolves :: "inbox_file \<Rightarrow> inbox_file \<Rightarrow> bool" where
  "evolves f g \<longleftrightarrow> xf_id g = xf_id f \<and> xf_content_hash g = xf_content_hash f \<and>
     (\<exists>hs. xf_history g = xf_history f @ hs \<and> path (xf_state f) (map fst hs) \<and>
       xf_state g = last (xf_state f # map fst hs))"

lemma evolves_refl [simp]: "evolves f f"
  by (simp add: evolves_def)

lemma evolves_same: "xf_id g = xf_id f \<Longrightarrow> xf_content_hash g = xf_content_hash f \<Longrightarrow> xf_history g = xf_history f \<Longrightarrow>
    xf_state g = xf_state f \<Longrightarrow> evolves f g"
  by (simp add: evolves_def)

lemma evolves_trans:
  assumes f: "evolves f g" and g: "evolves g h"
  shows "evolves f h"
proof -
  obtain xs where x: "xf_history g = xf_history f @ xs" "path (xf_state f) (map fst xs)"
    "xf_state g = last (xf_state f # map fst xs)"
    using f unfolding evolves_def by metis
  obtain ys where y: "xf_history h = xf_history g @ ys" "path (xf_state g) (map fst ys)"
    "xf_state h = last (xf_state g # map fst ys)"
    using g unfolding evolves_def by metis
  show ?thesis unfolding evolves_def
  proof (intro conjI exI)
    show "xf_history h = xf_history f @ (xs @ ys)" using x y by simp
    show "path (xf_state f) (map fst (xs @ ys))" using x y by (simp add: path_append)
    show "xf_state h = last (xf_state f # map fst (xs @ ys))" using x(3) y(3) by (cases ys) auto
  qed (use f g in \<open>simp_all add: evolves_def\<close>)
qed

lemma transition_kept:
  "file_transition now f s msg = Inr g \<Longrightarrow> xf_state g = s \<and> s \<in> TRANSITIONS (xf_state f) \<and>
     g = f\<lparr>xf_state := s, xf_history := xf_history f @ [(s, now, msg)]\<rparr>"
  by (auto simp: file_transition_def result_simps)

lemma transition_evolves: "file_transition now f s msg = Inr g \<Longrightarrow> evolves f g"
  unfolding evolves_def by (drule transition_kept, intro conjI exI [of _ "[(s, now, msg)]"]) simp_all

text \<open>The same, from a file that only differs in other fields.\<close>

lemma evolves_move:
  "evolves f g \<Longrightarrow> xf_id g' = xf_id g \<Longrightarrow> xf_content_hash g' = xf_content_hash g \<Longrightarrow> xf_history g' = xf_history g \<Longrightarrow>
   xf_state g' = xf_state g \<Longrightarrow> file_transition now g' s msg = Inr h \<Longrightarrow> evolves f h"
  by (meson evolves_same evolves_trans transition_evolves)

definition traced :: "inbox_file \<Rightarrow> bool" where
  "traced f \<longleftrightarrow> (\<exists>ts. map fst (xf_history f) = DETECTED # ts \<and> path DETECTED ts \<and> xf_state f = last (DETECTED # ts))"

lemma traced_evolves:
  assumes f: "traced f" and g: "evolves f g"
  shows "traced g"
proof -
  obtain ts where t: "map fst (xf_history f) = DETECTED # ts" "path DETECTED ts" "xf_state f = last (DETECTED # ts)"
    using f unfolding traced_def by metis
  obtain hs where h: "xf_history g = xf_history f @ hs" "path (xf_state f) (map fst hs)"
    "xf_state g = last (xf_state f # map fst hs)"
    using g unfolding evolves_def by metis
  show ?thesis unfolding traced_def
  proof (intro exI conjI)
    show "map fst (xf_history g) = DETECTED # (ts @ map fst hs)" using t h by simp
    show "path DETECTED (ts @ map fst hs)" using t h by (simp add: path_append)
    show "xf_state g = last (DETECTED # (ts @ map fst hs))" using t(3) h(3) by (cases hs) auto
  qed
qed

text \<open>The states a file can be left in.\<close>

definition RESTING :: "file_state set" where
  "RESTING = {MAPPING_REQUIRED, VALIDATION_FAILED, AWAITING_APPROVAL, IMPORTED, IMPORT_FAILED, UPLOAD_FAILED,
     QUARANTINED, REJECTED, ARCHIVED}"

section \<open>What a request changes\<close>

text \<open>A request on a file that is already there: it saves one file and leaves the others, the
  owners of contents, the references to raw objects and these objects.\<close>

definition raw_part :: "object_store \<Rightarrow> string \<Rightarrow> string option" where
  "raw_part objects key = (if take 14 key = ''data-drop/raw/'' then map_of objects key else None)"

definition same_rest :: "inbox_db \<Rightarrow> inbox_db \<Rightarrow> bool" where
  "same_rest db db' \<longleftrightarrow> ix_hashes db' = ix_hashes db \<and>
     map (\<lambda>u. (up_id u, up_object_key u)) (ix_uploads db') = map (\<lambda>u. (up_id u, up_object_key u)) (ix_uploads db) \<and>
     raw_part (ix_objects db') = raw_part (ix_objects db)"

definition saves :: "inbox_db \<Rightarrow> inbox_file \<Rightarrow> inbox_file \<Rightarrow> inbox_db \<Rightarrow> bool" where
  "saves db f g db' \<longleftrightarrow> f \<in> set (ix_files db) \<and> evolves f g \<and> xf_state g \<in> RESTING \<and> xf_state f \<noteq> DUPLICATE \<and>
     xf_uploaded_file_id g = xf_uploaded_file_id f \<and>
     ix_files db' = map (\<lambda>x. if xf_id x = xf_id g then g else x) (ix_files db) \<and> same_rest db db'"

lemma file_of_in: "file_of db i = Inr f \<Longrightarrow> f \<in> set (ix_files db) \<and> xf_id f = i"
  by (auto simp: file_of_def found_Inr dest: find_Some_in)

lemma duplicates_stay: "file_transition now f s msg = Inr g \<Longrightarrow> xf_state f \<noteq> DUPLICATE"
  by (auto dest!: transition_kept)

lemma save_simps [simp]:
  "ix_files (save_file g db) = map (\<lambda>x. if xf_id x = xf_id g then g else x) (ix_files db)"
  "same_rest db (save_file g db') = same_rest db db'"
  "same_rest db (file_audit a i u db') = same_rest db db'"
  "ix_files (file_audit a i u db') = ix_files db'"
  by (simp_all add: save_file_def file_audit_def same_rest_def)

lemma same_rest_refl [simp]: "same_rest db db"
  by (simp add: same_rest_def)

lemma map_validate_saves:
  assumes "map_validate c env db i pid m d r = Inr (g, db')"
  obtains f :: inbox_file where "saves db f g db'" "xf_id f = i" "ix_trade db' = ix_trade db" "ix_agents db' = ix_agents db"
    "ix_pairings db' = ix_pairings db"
proof -
  from assms obtain actor f profile rows columns chosen f1 f2 normalized report f3 f4 where
    f: "file_of db i = Inr f" and t: "file_transition (ie_now env) f MAPPED [] = Inr f1"
    "file_transition (ie_now env) (mapped_file f1 profile chosen d r) VALIDATING [] = Inr f2"
    "file_transition (ie_now env) (f2\<lparr>xf_validation := Reported report\<rparr>) (validated_state report) [] = Inr f3"
    and f4: "(if vr_valid report then file_transition (ie_now env) f3 AWAITING_APPROVAL [] else Inr f3) = Inr f4"
    and g: "g = f4\<lparr>xf_metadata := merged (xf_metadata f4) [(''normalized_preview'', VList (map VDict (take 30 normalized)))]\<rparr>"
    and db': "db' = file_audit ''FILE_MAPPING_VALIDATED'' (xf_id g) actor (save_file g db)"
    by (auto simp: map_validate_def result_simps Let_def)
  have "evolves f f2" by (rule evolves_move [OF transition_evolves [OF t(1)] _ _ _ _ t(2)]) (simp_all add: mapped_file_def)
  then have "evolves f f3" by (rule evolves_move [OF _ _ _ _ _ t(3)]) simp_all
  then have "evolves f f4" using f4 by (auto split: if_splits dest: transition_evolves intro: evolves_trans)
  then have "evolves f g" by (rule evolves_trans) (rule evolves_same, simp_all add: g)
  moreover have "xf_state g \<in> RESTING"
    using f4 transition_kept [OF t(3)] by (auto simp: g RESTING_def validated_state_def split: if_splits dest!: transition_kept)
  moreover have "xf_uploaded_file_id g = xf_uploaded_file_id f"
    using f4 t by (auto simp: g mapped_file_def split: if_splits dest!: transition_kept)
  ultimately have "saves db f g db'"
    using file_of_in [OF f] duplicates_stay [OF t(1)] by (simp add: saves_def db')
  then show thesis by (rule that) (use file_of_in [OF f] in \<open>simp_all add: db' file_audit_def save_file_def\<close>)
qed

lemma reject_saves:
  assumes "reject_file env db i reason = Inr (g, db')"
  obtains f :: inbox_file where "saves db f g db'" "xf_id f = i" "xf_state g = REJECTED" "ix_trade db' = ix_trade db"
    "ix_agents db' = ix_agents db" "ix_pairings db' = ix_pairings db"
proof -
  from assms obtain f actor where f: "file_of db i = Inr f" and t: "file_transition (ie_now env) f REJECTED reason = Inr g"
    and db': "db' = file_audit ''EXTERNAL_FILE_REJECTED'' (xf_id g) actor (save_file g db)"
    by (auto simp: reject_file_def result_simps)
  have "saves db f g db'"
    using file_of_in [OF f] duplicates_stay [OF t] transition_evolves [OF t] transition_kept [OF t]
    by (simp add: saves_def db' RESTING_def)
  then show thesis
    by (rule that) (use file_of_in [OF f] transition_kept [OF t] in \<open>simp_all add: db' file_audit_def save_file_def\<close>)
qed

lemma archived_saves:
  assumes "agent_archived env db auth i = Inr (g, db')"
  obtains (already) "db' = db" | (now) f :: inbox_file where "saves db f g db'" "xf_id f = i" "ix_trade db' = ix_trade db"
    "ix_agents db' = ix_agents db" "ix_pairings db' = ix_pairings db"
proof -
  from assms obtain f where f: "file_of db i = Inr f"
    and "db' = db \<or> file_transition (ie_now env) f ARCHIVED ''Local agent confirmed archive'' = Inr g \<and> db' = save_file g db"
    by (auto simp: agent_archived_def result_simps split: if_splits)
  then show thesis
  proof (elim disjE conjE)
    assume t: "file_transition (ie_now env) f ARCHIVED ''Local agent confirmed archive'' = Inr g" and db': "db' = save_file g db"
    have "saves db f g db'"
      using file_of_in [OF f] duplicates_stay [OF t] transition_evolves [OF t] transition_kept [OF t]
      by (simp add: saves_def db' RESTING_def)
    then show thesis by (rule now) (use file_of_in [OF f] in \<open>simp_all add: db' save_file_def\<close>)
  qed (rule already)
qed

section \<open>What an import changes\<close>

text \<open>Everything but the observations and the book of trades.\<close>

definition records_frame :: "inbox_db \<Rightarrow> inbox_db \<Rightarrow> bool" where
  "records_frame db db' \<longleftrightarrow> ix_files db' = ix_files db \<and> ix_hashes db' = ix_hashes db \<and> ix_uploads db' = ix_uploads db \<and>
     ix_agents db' = ix_agents db \<and> ix_pairings db' = ix_pairings db \<and> ix_objects db' = ix_objects db \<and>
     ix_versions db' = ix_versions db"

lemma import_record_frame:
  "import_record c env v profile row licence pf actor db nr = Inr db' \<Longrightarrow> records_frame db db'"
  by (auto simp: import_record_def import_price_def import_fx_def import_trade_def records_frame_def result_simps
      split: prod.splits if_splits)

lemma import_records_fold:
  "foldE (import_record c env v profile row licence pf actor) db rs = Inr db' \<Longrightarrow> records_frame db db'"
proof (induction rs arbitrary: db)
  case (Cons r rs)
  then obtain d where "import_record c env v profile row licence pf actor db r = Inr d"
    "foldE (import_record c env v profile row licence pf actor) d rs = Inr db'" by (auto simp: result_simps)
  with Cons.IH import_record_frame show ?case unfolding records_frame_def by metis
qed (simp add: records_frame_def)

lemma enable_prices_frame: "records_frame db (enable_prices pf actor db)"
  by (auto simp: enable_prices_def records_frame_def file_audit_def Let_def split: option.split)

lemma import_records_keeps:
  assumes "import_records c env v profile row columns records licence pf actor db = Inr db'"
  shows "ix_files db' = ix_files db" "same_rest db db'" "ix_agents db' = ix_agents db" "ix_pairings db' = ix_pairings db"
    "ix_objects db' = ix_objects db" "ix_versions db' = ix_versions db @ [v]"
proof -
  let ?start = "db\<lparr>ix_versions := ix_versions db @ [v], ix_lineage := ix_lineage db @ [(dv_id v, xf_id row)],
     ix_columns := ix_columns db @ new_columns (dv_id v) (xf_mapping row) columns\<rparr>"
  from assms obtain d where d: "foldE (import_record c env (dv_id v) profile row licence pf actor) ?start
      (enumerate 0 records) = Inr d"
    and db': "db' = file_audit ''EXTERNAL_FILE_IMPORTED'' (xf_id row) actor
      ((if mp_dataset_type profile \<in> {''ohlcv'', ''snapshot'', ''fx''} then enable_prices pf actor d else d)
       \<lparr>ix_uploads := map (\<lambda>u. if Some (up_id u) = xf_uploaded_file_id row then u\<lparr>up_upload_state := ''IMPORTED''\<rparr> else u)
         (ix_uploads (if mp_dataset_type profile \<in> {''ohlcv'', ''snapshot'', ''fx''} then enable_prices pf actor d else d))\<rparr>)"
    by (auto simp: import_records_def result_simps Let_def)
  define e where "e = (if mp_dataset_type profile \<in> {''ohlcv'', ''snapshot'', ''fx''} then enable_prices pf actor d else d)"
  have "records_frame ?start d" by (rule import_records_fold [OF d])
  moreover have "records_frame d e" using enable_prices_frame by (simp add: e_def records_frame_def)
  ultimately have e: "records_frame ?start e" by (simp add: records_frame_def)
  note db' = db' [folded e_def]
  show "ix_files db' = ix_files db" "same_rest db db'" "ix_agents db' = ix_agents db" "ix_pairings db' = ix_pairings db"
    "ix_objects db' = ix_objects db" "ix_versions db' = ix_versions db @ [v]"
    using e by (auto simp: db' file_audit_def records_frame_def same_rest_def)
qed

lemma raw_part_curated: "raw_part (AList.update (curated_key d n i) x objects) = raw_part objects"
  by (auto simp: fun_eq_iff raw_part_def curated_key_def)

lemma put_bytes_Inr: "put_bytes env objects key x = Inr objects' \<Longrightarrow> objects' = AList.update key x objects"
  by (auto simp: put_bytes_def split: if_splits option.splits)

lemma curate_keeps:
  assumes "curate env name profile row records db = Inr (ds, n, rid, key, db')"
  shows "ix_files db' = ix_files db" "same_rest db db'" "ix_agents db' = ix_agents db" "ix_pairings db' = ix_pairings db"
    "ix_trade db' = ix_trade db" "ix_versions db' = ix_versions db" "raw_part (ix_objects db') = raw_part (ix_objects db)"
    "ix_market db' = ix_market db" "ix_fx db' = ix_fx db" "n = next_version db (dt_id ds)"
  using assms
  by (auto simp: curate_def dataset_for_def same_rest_def result_simps Let_def next_version_def raw_part_curated
      split: option.splits dest!: put_bytes_Inr)

lemma failed_saves:
  assumes "failed_import env row e db = Inr (g, db')" "row' \<in> set (ix_files db)" "evolves row' row"
    "xf_state row' \<noteq> DUPLICATE" "xf_uploaded_file_id row = xf_uploaded_file_id row'"
  shows "saves db row' g db'" "xf_state g = IMPORT_FAILED" "db' = save_file g db"
proof -
  from assms(1) obtain h where t: "file_transition (ie_now env) row IMPORT_FAILED ''Atomic import rolled back'' = Inr h"
    and g: "g = h\<lparr>xf_validation := Import_error (xf_validation h) e\<rparr>" and db': "db' = save_file g db"
    by (auto simp: failed_import_def result_simps Let_def split: if_splits)
  have "evolves row' g"
    by (rule evolves_trans [OF evolves_trans [OF assms(3) transition_evolves [OF t]]], rule evolves_same) (simp_all add: g)
  then show "saves db row' g db'"
    using assms transition_kept [OF t] by (simp add: saves_def db' g RESTING_def)
  show "xf_state g = IMPORT_FAILED" "db' = save_file g db" using transition_kept [OF t] by (simp_all add: g db')
qed

text \<open>The two outcomes of an import.\<close>

lemma run_import_cases:
  assumes run: "run_import c env name licence pf actor profile row columns records db = Inr (g, db')"
    and f: "f \<in> set (ix_files db)" "evolves f row" "xf_state f \<noteq> DUPLICATE"
      "xf_uploaded_file_id row = xf_uploaded_file_id f"
  obtains (failed) objects where "saves db f g db'" "xf_state g = IMPORT_FAILED"
      "db' = save_file g (db\<lparr>ix_objects := objects\<rparr>)" "raw_part objects = raw_part (ix_objects db)"
  | (imported) v and ds :: dataset_row and db1 db2 where "saves db f g db'" "xf_state g = IMPORTED" "db' = save_file g db2"
      "import_records c env v profile row columns records licence pf actor db1 = Inr db2"
      "ix_versions db' = ix_versions db @ [v]" "dv_version v = next_version db (dt_id ds)" "dv_dataset_id v = dt_id ds"
      "dv_file_id v = xf_id f" "dv_row_count v = length records" "xf_dataset_version_id g = Some (dv_id v)"
      "ix_trade db1 = ix_trade db" "ix_agents db' = ix_agents db" "ix_pairings db' = ix_pairings db"
      "ix_market db1 = ix_market db" "ix_fx db1 = ix_fx db"
proof (cases "curate env name profile row records db")
  case (Inl e)
  with run have "failed_import env row e db = Inr (g, db')" by (simp add: run_import_def)
  from failed_saves [OF this f] show thesis by (intro failed [of "ix_objects db"]) simp_all
next
  case (Inr x)
  obtain ds n rid key db1 where x: "x = (ds, n, rid, key, db1)" by (cases x) auto
  note cur = Inr [unfolded x]
  note C = curate_keeps [OF cur]
  define v where "v = new_version env (dt_id ds) n rid (length records) row licence (mp_id profile) key"
  have fields: "dv_version v = n" "dv_dataset_id v = dt_id ds" "dv_file_id v = xf_id row" "dv_row_count v = length records"
    by (simp_all add: v_def new_version_def)
  show thesis
  proof (cases "import_records c env v profile row columns records licence pf actor db1")
    case (Inl e)
    have fl: "failed_import env row e (db\<lparr>ix_objects := ix_objects db1\<rparr>) = Inr (g, db')"
      using run Inl by (simp add: run_import_def cur Let_def flip: v_def)
    have "f \<in> set (ix_files (db\<lparr>ix_objects := ix_objects db1\<rparr>))" using f(1) by simp
    note F = failed_saves [OF fl this f(2-4)]
    from F(1) C(7) have "saves db f g db'" by (simp add: saves_def same_rest_def)
    with F(2,3) C(7) show thesis by (intro failed [of "ix_objects db1"])
  next
    case (Inr db2)
    note R = import_records_keeps [OF Inr]
    from run Inr obtain h where
      t: "file_transition (ie_now env) (imported_file row (dv_id v) licence (dt_id ds) key) IMPORTED [] = Inr h"
      and g: "g = h" and db': "db' = save_file h db2"
      by (auto simp: run_import_def cur Let_def result_simps simp flip: v_def)
    have "evolves row h" by (rule evolves_move [OF evolves_refl _ _ _ _ t]) (simp_all add: imported_file_def)
    then have ev: "evolves f h" by (rule evolves_trans [OF f(2)])
    have id: "xf_id row = xf_id f" using f(2) by (simp add: evolves_def)
    have "same_rest db db2" using C(2) R(2) by (simp add: same_rest_def)
    then have "saves db f g db'"
      using f ev transition_kept [OF t] C(1) R(1) by (simp add: saves_def db' g RESTING_def imported_file_def)
    moreover have "xf_state g = IMPORTED" "xf_dataset_version_id g = Some (dv_id v)"
      using transition_kept [OF t] by (simp_all add: g imported_file_def)
    moreover have "ix_versions db' = ix_versions db @ [v]" "ix_agents db' = ix_agents db" "ix_pairings db' = ix_pairings db"
      using R C by (simp_all add: db' save_file_def)
    ultimately show thesis
      using imported [of db2 v db1 ds] Inr fields id C(5,8,9,10) by (simp add: db' g)
  qed
qed

lemma import_cases:
  assumes "import_file c env db i name licence approve pf = Inr (g, db')"
  obtains (already) "db' = db" "file_of db i = Inr g" "xf_state g \<in> {IMPORTED, ARCHIVED}"
  | (run) f row actor profile rows columns defaults resolution normalized report where "file_of db i = Inr f"
      "xf_state f = AWAITING_APPROVAL" "approve" "raw_rows env db f = Inr (rows, columns)"
      "normalized_rows c env db f profile rows defaults resolution = Inr (normalized, report)" "vr_valid report"
      "evolves f row" "xf_uploaded_file_id row = xf_uploaded_file_id f" "Option.bind (xf_profile_id f) (profile_by_id db) = Some profile"
      "run_import c env name licence pf actor profile row columns (sorted_records normalized) db = Inr (g, db')"
      "saved_inputs (xf_metadata f) = Inr (defaults, resolution)"
proof -
  from assms obtain actor f where f: "file_of db i = Inr f"
    and rest: "(if xf_state f \<in> {IMPORTED, ARCHIVED} then Inr (f, db)
     else bindE (ensure (xf_state f = AWAITING_APPROVAL \<and> approve)
         (ValueError ''Validated mapping and explicit import approval required'')) (\<lambda>_.
       bindE (ensure (str_strip licence \<noteq> [] \<and> str_strip name \<noteq> [] \<and> length name \<le> 200)
         (ValueError ''Dataset name and licence note are required'')) (\<lambda>_.
       bindE (found (ValueError ''Approved mapping profile is missing'')
         (Option.bind (xf_profile_id f) (profile_by_id db))) (\<lambda>profile.
       bindE (saved_inputs (xf_metadata f)) (\<lambda>(defaults, resolution).
       bindE (raw_rows env db f) (\<lambda>(rows, columns).
       bindE (normalized_rows c env db f profile rows defaults resolution) (\<lambda>(normalized, report).
       bindE (ensure (vr_valid report) (ValueError ''Revalidation failed'')) (\<lambda>_.
       bindE (file_transition (ie_now env) f IMPORTING []) (\<lambda>row.
       run_import c env name licence pf actor profile row columns (sorted_records normalized) db))))))))) = Inr (g, db')"
    unfolding import_file_def result_simps by blast
  show thesis
  proof (cases "xf_state f \<in> {IMPORTED, ARCHIVED}")
    case True
    with rest f show thesis by (intro already) simp_all
  next
    case False
    with rest obtain profile defaults resolution rows columns normalized report row where
      inputs: "saved_inputs (xf_metadata f) = Inr (defaults, resolution)" and
      prof: "Option.bind (xf_profile_id f) (profile_by_id db) = Some profile"
      and s: "xf_state f = AWAITING_APPROVAL" "approve" "raw_rows env db f = Inr (rows, columns)"
        "normalized_rows c env db f profile rows defaults resolution = Inr (normalized, report)" "vr_valid report"
      and t: "file_transition (ie_now env) f IMPORTING [] = Inr row"
      and r: "run_import c env name licence pf actor profile row columns (sorted_records normalized) db = Inr (g, db')"
      by (simp add: result_simps found_Inr split: prod.splits) blast
    show thesis by (rule run [OF f s transition_evolves [OF t] _ prof r inputs]) (use transition_kept [OF t] in simp_all)
  qed
qed

section \<open>What a received file changes\<close>

lemma preview_keeps:
  assumes "preview env name content key row db = Inr (g, db')"
  shows "evolves row g" "xf_state g \<in> RESTING" "xf_uploaded_file_id g = xf_uploaded_file_id row"
    "\<exists>ps. db' = db\<lparr>ix_profiles := ps\<rparr>"
proof -
  from assms obtain r1 where t1: "file_transition (ie_now env) row PREVIEWING [] = Inr r1"
    and rest: "(case ie_parse env content name of
       Inl e \<Rightarrow> bindE (file_transition (ie_now env) r1 QUARANTINED ''Parser rejected file'') (\<lambda>row.
         Inr (row\<lparr>xf_validation := Unparsable e\<rparr>, db))
     | Inr (rows, columns) \<Rightarrow>
         bindE (file_transition (ie_now env) (r1\<lparr>xf_metadata := preview_metadata env name key rows columns\<rparr>) SCHEMA_DETECTED [])
           (\<lambda>row.
         bindE (file_transition (ie_now env) row MAPPING_REQUIRED ''First mapping and import require approval'') (\<lambda>row.
         Inr (row, db\<lparr>ix_profiles := seed_profiles (ie_new_id env) (ix_profiles db)\<rparr>)))) = Inr (g, db')"
    unfolding preview_def result_simps by blast
  note e1 = transition_evolves [OF t1]
  have "evolves row g \<and> xf_state g \<in> RESTING \<and> xf_uploaded_file_id g = xf_uploaded_file_id row \<and>
      (\<exists>ps. db' = db\<lparr>ix_profiles := ps\<rparr>)"
  proof (cases "ie_parse env content name")
    case (Inl e)
    with rest obtain r2 where t2: "file_transition (ie_now env) r1 QUARANTINED ''Parser rejected file'' = Inr r2"
      and g: "g = r2\<lparr>xf_validation := Unparsable e\<rparr>" and db': "db' = db" by (auto simp: result_simps)
    have "evolves row g"
      by (rule evolves_trans [OF evolves_trans [OF e1 transition_evolves [OF t2]]], rule evolves_same) (simp_all add: g)
    with transition_kept [OF t1] transition_kept [OF t2] show ?thesis
      by (auto simp: g db' RESTING_def intro: exI [of _ "ix_profiles db"])
  next
    case (Inr x)
    with rest obtain r2 rows columns where
      t2: "file_transition (ie_now env) (r1\<lparr>xf_metadata := preview_metadata env name key rows columns\<rparr>) SCHEMA_DETECTED [] = Inr r2"
      and t3: "file_transition (ie_now env) r2 MAPPING_REQUIRED ''First mapping and import require approval'' = Inr g"
      and db': "db' = db\<lparr>ix_profiles := seed_profiles (ie_new_id env) (ix_profiles db)\<rparr>"
      by (cases x) (auto simp: result_simps)
    have "evolves row r2" by (rule evolves_move [OF e1 _ _ _ _ t2]) simp_all
    then have "evolves row g" by (rule evolves_trans [OF _ transition_evolves [OF t3]])
    with transition_kept [OF t1] transition_kept [OF t2] transition_kept [OF t3] show ?thesis
      by (auto simp: db' RESTING_def)
  qed
  then show "evolves row g" "xf_state g \<in> RESTING" "xf_uploaded_file_id g = xf_uploaded_file_id row"
    "\<exists>ps. db' = db\<lparr>ix_profiles := ps\<rparr>" by simp_all
qed

lemma store_raw_cases:
  assumes "store_raw env name content src ag row db = Inr (g, db')"
  obtains (lost) "evolves row g" "xf_state g = UPLOAD_FAILED" "xf_uploaded_file_id g = xf_uploaded_file_id row"
      "db' = save_file g db"
  | (stored) key where "evolves row g" "xf_state g \<in> RESTING" "xf_uploaded_file_id g = Some (ie_new_id env ''upload'')"
      "key = raw_key (xf_id row) (ie_sha256 env content) name" "ix_files db' = ix_files (save_file g db)"
      "ix_hashes db' = ix_hashes db" "ix_uploads db' = ix_uploads db @ [new_upload env name content key]"
      "ix_objects db' = AList.update key content (ix_objects db)" "ix_trade db' = ix_trade db"
      "ix_agents db' = ix_agents db" "ix_pairings db' = ix_pairings db"
proof -
  from assms obtain r1 where t1: "file_transition (ie_now env) row UPLOADING [] = Inr r1"
    and rest: "(let key = raw_key (xf_id r1) (ie_sha256 env content) name in
     case put_bytes env (ix_objects db) key content of
       Inl e \<Rightarrow>
         if storage_failure e
         then bindE (file_transition (ie_now env) r1 UPLOAD_FAILED ''Object storage write failed'') (\<lambda>row.
           Inr (row, save_file row db))
         else Inl e
     | Inr objects \<Rightarrow>
         let uploaded = new_upload env name content key in
         bindE (file_transition (ie_now env) (r1\<lparr>xf_uploaded_file_id := Some (up_id uploaded)\<rparr>) STORED_RAW []) (\<lambda>row.
         bindE (preview env name content key row
           (db\<lparr>ix_objects := objects, ix_uploads := ix_uploads db @ [uploaded]\<rparr>)) (\<lambda>(row, db).
         Inr (row, file_audit ''EXTERNAL_FILE_RECEIVED'' (xf_id row) None (save_file row db))))) = Inr (g, db')"
    unfolding store_raw_def result_simps by blast
  note e1 = transition_evolves [OF t1] and k1 = transition_kept [OF t1]
  define key where "key = raw_key (xf_id row) (ie_sha256 env content) name"
  have id: "xf_id r1 = xf_id row" using e1 by (simp add: evolves_def)
  show thesis
  proof (cases "put_bytes env (ix_objects db) key content")
    case (Inl e)
    with rest id obtain t2: "file_transition (ie_now env) r1 UPLOAD_FAILED ''Object storage write failed'' = Inr g"
      and db': "db' = save_file g db" by (auto simp: key_def result_simps Let_def split: if_splits)
    show thesis
      by (rule lost [OF evolves_trans [OF e1 transition_evolves [OF t2]] _ _ db'])
        (use k1 transition_kept [OF t2] in simp_all)
  next
    case (Inr objects)
    let ?u = "new_upload env name content key"
    let ?db = "db\<lparr>ix_objects := objects, ix_uploads := ix_uploads db @ [?u]\<rparr>"
    from rest id Inr obtain r2 d where
      t2: "file_transition (ie_now env) (r1\<lparr>xf_uploaded_file_id := Some (up_id ?u)\<rparr>) STORED_RAW [] = Inr r2"
      and p: "preview env name content key r2 ?db = Inr (g, d)"
      and db': "db' = file_audit ''EXTERNAL_FILE_RECEIVED'' (xf_id g) None (save_file g d)"
      by (auto simp: key_def [symmetric] result_simps Let_def)
    note P = preview_keeps [OF p]
    obtain ps where d: "d = ?db\<lparr>ix_profiles := ps\<rparr>" using P(4) by blast
    have "evolves row r2" by (rule evolves_move [OF e1 _ _ _ _ t2]) simp_all
    then have ev: "evolves row g" using P(1) by (rule evolves_trans)
    have up: "xf_uploaded_file_id g = Some (ie_new_id env ''upload'')"
      using P(3) transition_kept [OF t2] by (simp add: new_upload_def)
    show thesis
      by (rule stored [OF ev P(2) up key_def])
        (use put_bytes_Inr [OF Inr] in \<open>simp_all add: db' d file_audit_def save_file_def\<close>)
  qed
qed

lemma receive_cases:
  assumes "receive env db filename content src ag = Inr (g, db')"
  obtains (again) failed name where "failed \<in> set (ix_files db)" "xf_state failed = UPLOAD_FAILED"
      "map_of (ix_hashes db) (ie_sha256 env content) = Some (xf_id failed)"
      "store_raw env name content src ag failed (file_audit ''RAW_UPLOAD_RETRIED'' (xf_id failed) None db) = Inr (g, db')"
  | (duplicate) owner where "map_of (ix_hashes db) (ie_sha256 env content) = Some owner" "xf_state g = DUPLICATE"
      "traced g" "xf_id g = ie_new_id env ''file''" "xf_content_hash g = ie_sha256 env content"
      "xf_duplicate_of g = Some owner" "xf_uploaded_file_id g = None" "db' = db\<lparr>ix_files := ix_files db @ [g]\<rparr>"
  | (original) row name where "map_of (ix_hashes db) (ie_sha256 env content) = None" "traced row"
      "xf_id row = ie_new_id env ''file''" "xf_content_hash row = ie_sha256 env content" "xf_uploaded_file_id row = None"
      "store_raw env name content src ag row (db\<lparr>ix_files := ix_files db @ [row],
         ix_hashes := ix_hashes db @ [(ie_sha256 env content, xf_id row)]\<rparr>) = Inr (g, db')"
proof -
  from assms obtain row where
    t: "file_transition (ie_now env) (detected_file env (file_name_of filename) content src ag) HASHING [] = Inr row"
    and rest: "(case retries db (ie_sha256 env content) ag of
       Some failed \<Rightarrow>
         store_raw env (file_name_of filename) content src ag failed (file_audit ''RAW_UPLOAD_RETRIED'' (xf_id failed) None db)
     | None \<Rightarrow> (case map_of (ix_hashes db) (ie_sha256 env content) of
         Some owner \<Rightarrow>
           bindE (file_transition (ie_now env) (row\<lparr>xf_duplicate_of := Some owner\<rparr>) DUPLICATE
             ''Byte-identical file already recorded'') (\<lambda>row.
           Inr (row, db\<lparr>ix_files := ix_files db @ [row]\<rparr>))
       | None \<Rightarrow>
           store_raw env (file_name_of filename) content src ag row
             (db\<lparr>ix_files := ix_files db @ [row], ix_hashes := ix_hashes db @ [(ie_sha256 env content, xf_id row)]\<rparr>))) = Inr (g, db')"
    by (auto simp: receive_def result_simps Let_def)
  have row: "row = (detected_file env (file_name_of filename) content src ag)\<lparr>xf_state := HASHING,
      xf_history := [(DETECTED, ie_now env, []), (HASHING, ie_now env, [])]\<rparr>"
    using transition_kept [OF t] by (simp add: detected_file_def)
  have tr: "traced row" unfolding traced_def by (intro exI [of _ "[HASHING]"]) (simp add: row)
  have fields: "xf_id row = ie_new_id env ''file''" "xf_content_hash row = ie_sha256 env content" "xf_uploaded_file_id row = None"
    by (simp_all add: row detected_file_def)
  show thesis
  proof (cases "retries db (ie_sha256 env content) ag")
    case (Some failed)
    then have "failed \<in> set (ix_files db)" "xf_state failed = UPLOAD_FAILED"
      "map_of (ix_hashes db) (ie_sha256 env content) = Some (xf_id failed)"
      by (auto simp: retries_def bind_eq_Some_conv split: if_splits dest: find_Some_in)
    with again rest Some show thesis by simp
  next
    case None
    show thesis
    proof (cases "map_of (ix_hashes db) (ie_sha256 env content)")
      case None
      with \<open>retries db (ie_sha256 env content) ag = None\<close> rest original [OF None tr fields] show thesis by simp
    next
      case (Some owner)
      with None rest obtain t2: "file_transition (ie_now env) (row\<lparr>xf_duplicate_of := Some owner\<rparr>) DUPLICATE
          ''Byte-identical file already recorded'' = Inr g" and db': "db' = db\<lparr>ix_files := ix_files db @ [g]\<rparr>"
        by (auto simp: result_simps)
      have "evolves row g" by (rule evolves_move [OF evolves_refl _ _ _ _ t2]) simp_all
      with tr have "traced g" by (rule traced_evolves)
      with duplicate [OF Some] transition_kept [OF t2] fields db' show thesis by simp
    qed
  qed
qed

section \<open>Requests as steps\<close>

datatype inbox_request =
    Receive string string
  | Agent_upload "string option" string string
  | Map_validate string string "string dict option" "pyval dict" "string option"
  | Import string string string bool string
  | Reject string string
  | Archived "string option" string
  | Pair bool
  | Claim string string
  | Revoke_agent string
  | Heartbeat "string option" "pyval dict"

definition answered :: "ctx \<Rightarrow> inbox_env \<Rightarrow> inbox_db \<Rightarrow> inbox_request \<Rightarrow> inbox_db result" where
  "answered c env db rq = (case rq of
       Receive filename content \<Rightarrow> map_sum id snd (receive env db filename content ''EXTERNAL FILE'' None)
     | Agent_upload auth filename content \<Rightarrow> map_sum id snd (agent_upload env db auth filename content)
     | Map_validate i pid mapping defaults resolution \<Rightarrow>
         map_sum id snd (map_validate c env db i pid mapping defaults resolution)
     | Import i name licence approve pf \<Rightarrow> map_sum id snd (import_file c env db i name licence approve pf)
     | Reject i reason \<Rightarrow> map_sum id snd (reject_file env db i reason)
     | Archived auth i \<Rightarrow> map_sum id snd (agent_archived env db auth i)
     | Pair broker \<Rightarrow> map_sum id snd (pair_agent env db broker)
     | Claim code name \<Rightarrow> map_sum id snd (claim_agent env db code name)
     | Revoke_agent i \<Rightarrow> revoke_agent env db i
     | Heartbeat auth status \<Rightarrow> agent_heartbeat env db auth status)"

text \<open>New identifiers, of files without a slash; one hash function throughout.\<close>

definition sound_inbox :: "(string \<Rightarrow> string) \<Rightarrow> inbox_env \<Rightarrow> inbox_db \<Rightarrow> bool" where
  "sound_inbox sha env db \<longleftrightarrow> ie_sha256 env = sha \<and>
     ie_new_id env ''file'' \<notin> xf_id ` set (ix_files db) \<and> CHR ''/'' \<notin> set (ie_new_id env ''file'') \<and>
     ie_new_id env ''upload'' \<notin> up_id ` set (ix_uploads db) \<and>
     ie_new_id env ''pairing'' \<notin> ap_id ` set (ix_pairings db) \<and> ie_new_id env ''agent'' \<notin> la_id ` set (ix_agents db)"

inductive inbox_step :: "ctx \<Rightarrow> (string \<Rightarrow> string) \<Rightarrow> inbox_db \<Rightarrow> inbox_db \<Rightarrow> bool" for c sha where
  request: "sound_inbox sha env db \<Longrightarrow> answered c env db rq = Inr db' \<Longrightarrow> inbox_step c sha db db'"

definition empty_inbox :: "inbox_db \<Rightarrow> bool" where
  "empty_inbox db \<longleftrightarrow> ix_files db = [] \<and> ix_hashes db = [] \<and> ix_uploads db = [] \<and> ix_agents db = [] \<and> ix_pairings db = []"

section \<open>Originals, duplicates and stored contents\<close>

lemma raw_key_id: "raw_key i h n = raw_key j h' n' \<Longrightarrow> CHR ''/'' \<notin> set i \<Longrightarrow> CHR ''/'' \<notin> set j \<Longrightarrow> i = j"
proof -
  have cut: "takeWhile (\<lambda>c. c \<noteq> CHR ''/'') (k @ ''/'' @ r) = k" if "CHR ''/'' \<notin> set k" for k r :: string
    using that by (induction k) auto
  assume "raw_key i h n = raw_key j h' n'" "CHR ''/'' \<notin> set i" "CHR ''/'' \<notin> set j"
  then show "i = j" unfolding raw_key_def using cut by (metis same_append_eq)
qed

lemma raw_part_key: "raw_part objects (raw_key i h n) = map_of objects (raw_key i h n)"
  by (simp add: raw_part_def raw_key_def)

definition intact :: "(string \<Rightarrow> string) \<Rightarrow> inbox_db \<Rightarrow> inbox_file \<Rightarrow> bool" where
  "intact sha db f \<longleftrightarrow> (\<forall>u. xf_uploaded_file_id f = Some u \<longrightarrow>
     (\<exists>key name content. (u, key) \<in> set (map (\<lambda>x. (up_id x, up_object_key x)) (ix_uploads db)) \<and>
        key = raw_key (xf_id f) (xf_content_hash f) name \<and> raw_part (ix_objects db) key = Some content \<and>
        sha content = xf_content_hash f))"

definition file_ok :: "(string \<Rightarrow> string) \<Rightarrow> inbox_db \<Rightarrow> inbox_file \<Rightarrow> bool" where
  "file_ok sha db f \<longleftrightarrow> CHR ''/'' \<notin> set (xf_id f) \<and> traced f \<and> intact sha db f \<and>
     (if xf_state f = DUPLICATE
      then xf_uploaded_file_id f = None \<and> (\<exists>i. xf_duplicate_of f = Some i \<and> (xf_content_hash f, i) \<in> set (ix_hashes db))
      else xf_state f \<in> RESTING \<and> (xf_content_hash f, xf_id f) \<in> set (ix_hashes db))"

definition owner_ok :: "inbox_file list \<Rightarrow> string \<times> string \<Rightarrow> bool" where
  "owner_ok files h \<longleftrightarrow> (\<exists>f \<in> set files. xf_id f = snd h \<and> xf_content_hash f = fst h \<and> xf_state f \<noteq> DUPLICATE)"

definition inbox_ok :: "(string \<Rightarrow> string) \<Rightarrow> inbox_db \<Rightarrow> bool" where
  "inbox_ok sha db \<longleftrightarrow> distinct (map xf_id (ix_files db)) \<and> distinct (map fst (ix_hashes db)) \<and>
     distinct (map up_id (ix_uploads db)) \<and> (\<forall>f \<in> set (ix_files db). file_ok sha db f) \<and>
     (\<forall>h \<in> set (ix_hashes db). owner_ok (ix_files db) h)"

lemma same_rest_uploads: "same_rest db db' \<Longrightarrow> map up_id (ix_uploads db') = map up_id (ix_uploads db)"
proof -
  assume "same_rest db db'"
  then have "map fst (map (\<lambda>u. (up_id u, up_object_key u)) (ix_uploads db')) =
      map fst (map (\<lambda>u. (up_id u, up_object_key u)) (ix_uploads db))" by (simp add: same_rest_def)
  then show ?thesis by (simp add: comp_def)
qed

lemma file_ok_rest: "same_rest db db' \<Longrightarrow> file_ok sha db' f = file_ok sha db f"
  by (simp add: same_rest_def file_ok_def intact_def del: set_map)

lemma inbox_ok_rest: "inbox_ok sha db \<Longrightarrow> same_rest db db' \<Longrightarrow> ix_files db' = ix_files db \<Longrightarrow> inbox_ok sha db'"
  using same_rest_uploads [of db db'] by (simp add: inbox_ok_def file_ok_rest) (simp add: same_rest_def)

lemma map_id_replace: "xf_id g = xf_id f \<Longrightarrow> map xf_id (map (\<lambda>x. if xf_id x = xf_id g then g else x) xs) = map xf_id xs"
  by (induction xs) auto

text \<open>While one file is being settled, everything holds of the others.\<close>

definition pending_result :: "(string \<Rightarrow> string) \<Rightarrow> inbox_file \<Rightarrow> inbox_db \<Rightarrow> bool" where
  "pending_result sha f db \<longleftrightarrow> f \<in> set (ix_files db) \<and> distinct (map xf_id (ix_files db)) \<and>
     distinct (map fst (ix_hashes db)) \<and> CHR ''/'' \<notin> set (xf_id f) \<and> traced f \<and>
     (xf_content_hash f, xf_id f) \<in> set (ix_hashes db) \<and>
     (\<forall>x \<in> set (ix_files db). xf_id x \<noteq> xf_id f \<longrightarrow> file_ok sha db x) \<and>
     (\<forall>h \<in> set (ix_hashes db). h = (xf_content_hash f, xf_id f) \<or>
        owner_ok (filter (\<lambda>x. xf_id x \<noteq> xf_id f) (ix_files db)) h)"

lemma same_file: "x \<in> set xs \<Longrightarrow> f \<in> set xs \<Longrightarrow> distinct (map xf_id xs) \<Longrightarrow> xf_id x = xf_id f \<Longrightarrow> x = f"
  by (auto simp: distinct_map inj_on_def)

lemma pending_ok_of:
  assumes ok: "inbox_ok sha db" and f: "f \<in> set (ix_files db)" "xf_state f \<noteq> DUPLICATE"
  shows "pending_result sha f db"
proof -
  have "h = (xf_content_hash f, xf_id f) \<or> owner_ok (filter (\<lambda>x. xf_id x \<noteq> xf_id f) (ix_files db)) h"
    if "h \<in> set (ix_hashes db)" for h
  proof -
    from ok that have "owner_ok (ix_files db) h" by (simp add: inbox_ok_def)
    then obtain x where x: "x \<in> set (ix_files db)" "xf_id x = snd h" "xf_content_hash x = fst h" "xf_state x \<noteq> DUPLICATE"
      unfolding owner_ok_def by blast
    show ?thesis
    proof (cases "xf_id x = xf_id f")
      case True
      with x(1) f(1) ok same_file have "x = f" unfolding inbox_ok_def by blast
      with x(2,3) show ?thesis by (cases h) simp
    next
      case False
      with x show ?thesis by (auto simp: owner_ok_def)
    qed
  qed
  with assms show ?thesis by (auto simp: pending_result_def inbox_ok_def file_ok_def)
qed

lemma settles:
  assumes p: "pending_result sha f db" and ev: "evolves f g" and rest: "xf_state g \<in> RESTING"
    and files: "ix_files db' = map (\<lambda>x. if xf_id x = xf_id g then g else x) (ix_files db)"
    and hashes: "ix_hashes db' = ix_hashes db" and uploads: "distinct (map up_id (ix_uploads db'))"
    and others: "\<And>x. x \<in> set (ix_files db) \<Longrightarrow> xf_id x \<noteq> xf_id f \<Longrightarrow> intact sha db x \<Longrightarrow> intact sha db' x"
    and own: "intact sha db' g"
  shows "inbox_ok sha db'"
proof -
  have ids: "xf_id g = xf_id f" "xf_content_hash g = xf_content_hash f" using ev by (simp_all add: evolves_def)
  have no_dup: "xf_state g \<noteq> DUPLICATE" using rest by (auto simp: RESTING_def)
  note P = p [unfolded pending_result_def]
  have "file_ok sha db' g"
    using P ids rest own no_dup traced_evolves [OF _ ev] by (simp add: file_ok_def hashes)
  moreover have "file_ok sha db' x" if "x \<in> set (ix_files db)" "xf_id x \<noteq> xf_id f" for x
    using P that others [OF that] by (simp add: file_ok_def hashes)
  ultimately have "\<forall>x \<in> set (ix_files db'). file_ok sha db' x" by (auto simp: files ids)
  moreover have "owner_ok (ix_files db') h" if "h \<in> set (ix_hashes db)" for h
  proof (cases "h = (xf_content_hash f, xf_id f)")
    case True
    have "g \<in> set (ix_files db')" unfolding files set_map using P ids by (intro image_eqI [of _ _ f]) simp_all
    with True ids no_dup show ?thesis unfolding owner_ok_def by (intro bexI [of _ g]) simp_all
  next
    case False
    with P that obtain x where x: "x \<in> set (ix_files db)" "xf_id x \<noteq> xf_id f" "xf_id x = snd h" "xf_content_hash x = fst h"
      "xf_state x \<noteq> DUPLICATE" by (auto simp: owner_ok_def)
    then have "x \<in> set (ix_files db')" unfolding files set_map using ids by (intro image_eqI [of _ _ x]) simp_all
    with x show ?thesis unfolding owner_ok_def by blast
  qed
  moreover have "distinct (map xf_id (ix_files db'))" using P unfolding files map_id_replace [OF ids(1)] by blast
  ultimately show ?thesis using P uploads by (simp add: inbox_ok_def hashes)
qed

lemma inbox_ok_saves:
  assumes ok: "inbox_ok sha db" and s: "saves db f g db'"
  shows "inbox_ok sha db'"
proof -
  note S = s [unfolded saves_def]
  have same: "same_rest db db'" using S by simp
  have intact: "intact sha db' x = intact sha db x" for x using same by (simp add: intact_def same_rest_def del: set_map)
  show ?thesis
  proof (rule settles [OF pending_ok_of [OF ok]])
    have "intact sha db f" using ok S by (simp add: inbox_ok_def file_ok_def)
    then show "intact sha db' g" using S unfolding intact by (simp add: intact_def evolves_def)
    show "distinct (map up_id (ix_uploads db'))" using ok same_rest_uploads [OF same] by (simp add: inbox_ok_def)
  qed (use S intact in \<open>auto simp: same_rest_def\<close>)
qed

text \<open>A stored upload, of a new file or of one whose upload had failed.\<close>

lemma intact_later:
  assumes x: "intact sha db x" and id: "xf_id x \<noteq> i" "CHR ''/'' \<notin> set (xf_id x)" "CHR ''/'' \<notin> set i"
    and uploads: "ix_uploads db' = ix_uploads db @ us" and objects: "ix_objects db' = AList.update (raw_key i h n) c (ix_objects db)"
  shows "intact sha db' x"
  unfolding intact_def
proof (intro allI impI)
  fix u assume "xf_uploaded_file_id x = Some u"
  with x obtain key name content where k: "(u, key) \<in> set (map (\<lambda>x. (up_id x, up_object_key x)) (ix_uploads db))"
    "key = raw_key (xf_id x) (xf_content_hash x) name" "raw_part (ix_objects db) key = Some content"
    "sha content = xf_content_hash x" unfolding intact_def by blast
  have "key \<noteq> raw_key i h n" using k(2) raw_key_id id by blast
  then have "raw_part (ix_objects db') key = Some content" using k(3) by (simp add: raw_part_def objects split: if_splits)
  moreover have "(u, key) \<in> set (map (\<lambda>x. (up_id x, up_object_key x)) (ix_uploads db'))" using k(1) by (simp add: uploads)
  ultimately show "\<exists>key name content. (u, key) \<in> set (map (\<lambda>x. (up_id x, up_object_key x)) (ix_uploads db')) \<and>
      key = raw_key (xf_id x) (xf_content_hash x) name \<and> raw_part (ix_objects db') key = Some content \<and>
      sha content = xf_content_hash x" using k(2,4) by blast
qed

lemma inbox_ok_store_raw:
  assumes p: "pending_result sha f db" and st: "store_raw env name content src ag f db = Inr (g, db')"
    and env: "ie_sha256 env = sha" "ie_new_id env ''upload'' \<notin> up_id ` set (ix_uploads db)"
    and hash: "xf_content_hash f = sha content" and uploads: "distinct (map up_id (ix_uploads db))"
    and f: "intact sha db f"
  shows "inbox_ok sha db'"
  using st
proof (cases rule: store_raw_cases)
  case lost
  have kept: "same_rest db db'" by (simp add: lost(4))
  have intact: "intact sha db' x = intact sha db x" for x using kept by (simp add: intact_def same_rest_def del: set_map)
  show ?thesis
  proof (rule settles [OF p lost(1)])
    show "intact sha db' g" using f lost(1,3) unfolding intact by (simp add: intact_def evolves_def)
    show "distinct (map up_id (ix_uploads db'))" using uploads same_rest_uploads [OF kept] by simp
  qed (use lost kept intact in \<open>auto simp: RESTING_def same_rest_def\<close>)
next
  case (stored key)
  have ids: "xf_id g = xf_id f" "xf_content_hash g = xf_content_hash f" using stored(1) by (simp_all add: evolves_def)
  have part: "raw_part (ix_objects db') key = Some content" by (simp add: stored(4,8) raw_part_key)
  have mine: "(ie_new_id env ''upload'', key) \<in> set (map (\<lambda>x. (up_id x, up_object_key x)) (ix_uploads db'))"
    by (simp add: stored(7) new_upload_def)
  show ?thesis
  proof (rule settles [OF p stored(1,2) _ stored(6)])
    show "ix_files db' = map (\<lambda>x. if xf_id x = xf_id g then g else x) (ix_files db)" by (simp add: stored(5))
    show "distinct (map up_id (ix_uploads db'))" using uploads env(2) by (simp add: stored(7) new_upload_def)
    show "intact sha db' g"
      unfolding intact_def using mine part hash env(1) stored(3,4) ids
      by (intro allI impI exI [of _ key] exI [of _ name] exI [of _ content]) auto
    fix x assume x: "x \<in> set (ix_files db)" "xf_id x \<noteq> xf_id f" "intact sha db x"
    then have "CHR ''/'' \<notin> set (xf_id x)" "CHR ''/'' \<notin> set (xf_id f)" using p by (auto simp: pending_result_def file_ok_def)
    with x(2,3) show "intact sha db' x"
      by (rule_tac intact_later [OF _ _ _ _ stored(7) stored(8) [unfolded stored(4)]])
  qed
qed

lemma inbox_ok_receive:
  assumes ok: "inbox_ok sha db" and r: "receive env db filename content src ag = Inr (g, db')" and env: "sound_inbox sha env db"
  shows "inbox_ok sha db'"
  using r
proof (cases rule: receive_cases)
  case (again failed name)
  note E = env [unfolded sound_inbox_def]
  have kept: "same_rest db (file_audit a i u db)" "ix_files (file_audit a i u db) = ix_files db" for a i u by simp_all
  note ok' = inbox_ok_rest [OF ok kept]
  have fok: "file_ok sha db failed" using ok again(1) by (simp add: inbox_ok_def)
  then have "(xf_content_hash failed, xf_id failed) \<in> set (ix_hashes db)" using again(2) by (simp add: file_ok_def)
  moreover have "(sha content, xf_id failed) \<in> set (ix_hashes db)" using again(3) E by (auto dest: map_of_SomeD)
  ultimately have "owner_ok (ix_files db) (sha content, xf_id failed)" using ok by (auto simp: inbox_ok_def)
  then obtain x where "x \<in> set (ix_files db)" "xf_id x = xf_id failed" "xf_content_hash x = sha content"
    by (auto simp: owner_ok_def)
  with ok again(1) same_file have hash: "xf_content_hash failed = sha content" unfolding inbox_ok_def by metis
  show ?thesis
  proof (rule inbox_ok_store_raw [OF pending_ok_of [OF ok'] again(4) _ _ hash])
    show "intact sha (file_audit ''RAW_UPLOAD_RETRIED'' (xf_id failed) None db) failed"
      using fok by (simp add: file_ok_def intact_def file_audit_def del: set_map)
  qed (use again(1,2) E ok in \<open>simp_all add: file_audit_def inbox_ok_def\<close>)
next
  case (duplicate owner)
  note E = env [unfolded sound_inbox_def]
  have ok_g: "file_ok sha db' g"
    using duplicate(2-7) E map_of_SomeD [OF duplicate(1)] by (simp add: file_ok_def intact_def duplicate(8))
  have "file_ok sha db' x = file_ok sha db x" for x by (simp add: file_ok_def intact_def duplicate(8) del: set_map)
  moreover have "owner_ok (ix_files db') h" if "owner_ok (ix_files db) h" for h
    using that by (auto simp: owner_ok_def duplicate(8))
  ultimately show ?thesis using ok ok_g E duplicate(4) by (simp add: inbox_ok_def duplicate(8))
next
  case (original row name)
  note E = env [unfolded sound_inbox_def]
  let ?db = "db\<lparr>ix_files := ix_files db @ [row], ix_hashes := ix_hashes db @ [(ie_sha256 env content, xf_id row)]\<rparr>"
  have fresh: "xf_id row \<notin> xf_id ` set (ix_files db)" using E original(3) by simp
  have "file_ok sha ?db x" if "file_ok sha db x" for x
    using that by (simp add: file_ok_def intact_def del: set_map) auto
  moreover have "owner_ok (filter (\<lambda>x. xf_id x \<noteq> xf_id row) (ix_files db @ [row])) h" if "h \<in> set (ix_hashes db)" for h
  proof -
    have "filter (\<lambda>x. xf_id x \<noteq> xf_id row) (ix_files db) = ix_files db" by (intro filter_True ballI) (use fresh in \<open>metis image_eqI\<close>)
    with ok that show ?thesis by (simp add: inbox_ok_def)
  qed
  moreover have "ie_sha256 env content \<notin> fst ` set (ix_hashes db)"
    using original(1) by (simp add: map_of_eq_None_iff)
  ultimately have "pending_result sha row ?db"
    using ok E original(2-4) fresh by (auto simp: pending_result_def inbox_ok_def)
  then show ?thesis
    by (rule inbox_ok_store_raw [OF _ original(6)])
      (use E original(4,5) ok in \<open>simp_all add: inbox_ok_def intact_def\<close>)
qed

lemma agents_frame:
  "pair_agent env db broker = Inr (code, db') \<Longrightarrow> same_rest db db' \<and> ix_files db' = ix_files db"
  "claim_agent env db code name = Inr (token, db') \<Longrightarrow> same_rest db db' \<and> ix_files db' = ix_files db"
  "revoke_agent env db i = Inr db' \<Longrightarrow> same_rest db db' \<and> ix_files db' = ix_files db"
  "agent_heartbeat env db auth status = Inr db' \<Longrightarrow> same_rest db db' \<and> ix_files db' = ix_files db"
  by (auto simp: pair_agent_def claim_agent_def revoke_agent_def agent_heartbeat_def update_agent_def file_audit_def
      same_rest_def result_simps Let_def)

text \<open>A request either leaves every file alone, saves one, or receives one.\<close>

lemma answered_cases:
  assumes "answered c env db rq = Inr db'"
  obtains (kept) "same_rest db db'" "ix_files db' = ix_files db"
  | (saved) f g where "saves db f g db'"
  | (received) filename content src ag g where "receive env db filename content src ag = Inr (g, db')"
proof (cases rq)
  case (Import i name licence approve pf)
  with assms obtain g where "import_file c env db i name licence approve pf = Inr (g, db')"
    by (auto simp: answered_def map_sum_Inr_iff)
  then show thesis
  proof (cases rule: import_cases)
    case already
    with kept show thesis by simp
  next
    case (run f row actor profile rows columns defaults resolution normalized report)
    have "f \<in> set (ix_files db)" "xf_state f \<noteq> DUPLICATE" using file_of_in [OF run(1)] run(2) by simp_all
    with run(10) show thesis by (rule run_import_cases [OF _ _ run(7) _ run(8)]) (rule saved, assumption)+
  qed
next
  case (Map_validate i pid m d r)
  with assms obtain g where "map_validate c env db i pid m d r = Inr (g, db')" by (auto simp: answered_def map_sum_Inr_iff)
  then show thesis by (rule map_validate_saves) (rule saved)
next
  case (Reject i reason)
  with assms obtain g where "reject_file env db i reason = Inr (g, db')" by (auto simp: answered_def map_sum_Inr_iff)
  then show thesis by (rule reject_saves) (rule saved)
next
  case (Archived auth i)
  with assms obtain g where "agent_archived env db auth i = Inr (g, db')" by (auto simp: answered_def map_sum_Inr_iff)
  then show thesis by (cases rule: archived_saves) (auto intro: kept saved)
next
  case (Receive filename content)
  with assms received show thesis by (auto simp: answered_def map_sum_Inr_iff)
next
  case (Agent_upload auth filename content)
  with assms received show thesis by (auto simp: answered_def map_sum_Inr_iff agent_upload_def result_simps)
qed (use assms agents_frame kept in \<open>auto simp: answered_def map_sum_Inr_iff\<close>)

lemma inbox_ok_step: "inbox_step c sha db db' \<Longrightarrow> inbox_ok sha db \<Longrightarrow> inbox_ok sha db'"
  by (erule inbox_step.cases, erule answered_cases) (auto intro: inbox_ok_rest inbox_ok_saves inbox_ok_receive)

lemma inbox_ok_reachable: "(inbox_step c sha)\<^sup>*\<^sup>* db db' \<Longrightarrow> inbox_ok sha db \<Longrightarrow> inbox_ok sha db'"
  by (induction rule: rtranclp_induct) (auto intro: inbox_ok_step)

lemma inbox_ok_empty: "empty_inbox db \<Longrightarrow> inbox_ok sha db"
  by (simp add: empty_inbox_def inbox_ok_def)

section \<open>Pairings and agents\<close>

lemma receive_agents:
  "receive env db filename content src ag = Inr (g, db') \<Longrightarrow> ix_agents db' = ix_agents db \<and> ix_pairings db' = ix_pairings db \<and>
     ix_trade db' = ix_trade db"
proof (erule receive_cases)
  have st: "ix_agents db' = ix_agents d \<and> ix_pairings db' = ix_pairings d \<and> ix_trade db' = ix_trade d"
    if "store_raw env name content src ag row d = Inr (g, db')" for row name d
    using that by (cases rule: store_raw_cases) (simp_all add: save_file_def)
  fix failed name
  assume "store_raw env name content src ag failed (file_audit ''RAW_UPLOAD_RETRIED'' (xf_id failed) None db) = Inr (g, db')"
  then show "ix_agents db' = ix_agents db \<and> ix_pairings db' = ix_pairings db \<and> ix_trade db' = ix_trade db"
    using st by (fastforce simp: file_audit_def)
next
  have st: "ix_agents db' = ix_agents d \<and> ix_pairings db' = ix_pairings d \<and> ix_trade db' = ix_trade d"
    if "store_raw env name content src ag row d = Inr (g, db')" for row name d
    using that by (cases rule: store_raw_cases) (simp_all add: save_file_def)
  fix row name
  assume "store_raw env name content src ag row (db\<lparr>ix_files := ix_files db @ [row],
         ix_hashes := ix_hashes db @ [(ie_sha256 env content, xf_id row)]\<rparr>) = Inr (g, db')"
  then show "ix_agents db' = ix_agents db \<and> ix_pairings db' = ix_pairings db \<and> ix_trade db' = ix_trade db"
    using st by fastforce
qed simp

lemma import_agents:
  assumes "import_file c env db i name licence approve pf = Inr (g, db')"
  obtains (kept) "ix_trade db' = ix_trade db" "ix_agents db' = ix_agents db" "ix_pairings db' = ix_pairings db"
  | (records) v profile row columns records actor db1 db2 where
      "import_records c env v profile row columns records licence pf actor db1 = Inr db2" "ix_trade db1 = ix_trade db"
      "ix_trade db' = ix_trade db2" "ix_agents db' = ix_agents db" "ix_pairings db' = ix_pairings db"
  using assms
proof (cases rule: import_cases)
  case (run f row actor profile rows columns defaults resolution normalized report)
  have f: "f \<in> set (ix_files db)" "xf_state f \<noteq> DUPLICATE" using file_of_in [OF run(1)] run(2) by simp_all
  show thesis
  proof (rule run_import_cases [OF run(10) f(1) run(7) f(2) run(8)], goal_cases)
    case (1 objects)
    then show thesis by (intro kept) (simp_all add: save_file_def)
  next
    case (2 v ds db1 db2)
    then show thesis by (intro records [OF 2(4)]) (simp_all add: save_file_def)
  qed
qed (use kept in simp)

lemma agents_cases:
  assumes "answered c env db rq = Inr db'"
  obtains (kept) "ix_agents db' = ix_agents db" "ix_pairings db' = ix_pairings db"
  | (paired) p where "ix_agents db' = ix_agents db" "ix_pairings db' = ix_pairings db @ [p]" "ap_claimed_at p = None"
      "ap_id p = ie_new_id env ''pairing''"
  | (claimed) row a where "row \<in> set (ix_pairings db)" "open_pairing (ie_now env) row" "la_scopes a = ap_scopes row"
      "la_id a = ie_new_id env ''agent''" "ix_agents db' = ix_agents db @ [a]"
      "ix_pairings db' = map (\<lambda>p. if ap_id p = ap_id row \<and> open_pairing (ie_now env) p
            then p\<lparr>ap_claimed_at := Some (ie_now env)\<rparr> else p) (ix_pairings db)"
  | (updated) i h where "ix_agents db' = map (\<lambda>a. if la_id a = i then h a else a) (ix_agents db)"
      "ix_pairings db' = ix_pairings db" "\<And>a. la_id (h a) = la_id a" "\<And>a. la_scopes (h a) = la_scopes a"
      "\<And>a. la_revoked_at a \<noteq> None \<Longrightarrow> la_revoked_at (h a) \<noteq> None"
proof (cases rq)
  case (Pair broker)
  with assms obtain code where "pair_agent env db broker = Inr (code, db')" by (auto simp: answered_def map_sum_Inr_iff)
  then obtain actor scopes where db': "db' = file_audit ''AGENT_PAIRING_CREATED'' (ie_new_id env ''pairing'') actor
      (db\<lparr>ix_pairings := ix_pairings db @ [\<lparr>ap_id = ie_new_id env ''pairing'',
         ap_code_hash = ie_sha256 env (ie_new_id env ''code''), ap_expires_at = ie_now env + 10 * 60 * 1000000,
         ap_claimed_at = None, ap_scopes = scopes\<rparr>]\<rparr>)"
    unfolding pair_agent_def by (auto simp: result_simps Let_def)
  show thesis by (rule paired) (simp add: db' file_audit_def, simp add: db' file_audit_def, simp, simp)
next
  case (Claim code name)
  with assms obtain token where "claim_agent env db code name = Inr (token, db')" by (auto simp: answered_def map_sum_Inr_iff)
  then show thesis
    by (auto simp: claim_agent_def result_simps Let_def found_Inr dest!: find_Some_in intro!: claimed)
next
  case (Revoke_agent i)
  with assms show thesis
    by (intro updated [of i "\<lambda>a. a\<lparr>la_revoked_at := Some (ie_now env)\<rparr>"])
      (auto simp: answered_def revoke_agent_def update_agent_def file_audit_def result_simps)
next
  case (Heartbeat auth status)
  with assms show thesis
    by (auto simp: answered_def agent_heartbeat_def update_agent_def result_simps intro!: updated)
next
  case (Import i name licence approve pf)
  with assms obtain g where "import_file c env db i name licence approve pf = Inr (g, db')"
    by (auto simp: answered_def map_sum_Inr_iff)
  then show thesis by (cases rule: import_agents) (auto intro: kept)
next
  case (Map_validate i pid m d r)
  with assms obtain g where "map_validate c env db i pid m d r = Inr (g, db')" by (auto simp: answered_def map_sum_Inr_iff)
  then show thesis by (rule map_validate_saves) (rule kept)
next
  case (Reject i reason)
  with assms obtain g where "reject_file env db i reason = Inr (g, db')" by (auto simp: answered_def map_sum_Inr_iff)
  then show thesis by (rule reject_saves) (rule kept)
next
  case (Archived auth i)
  with assms obtain g where "agent_archived env db auth i = Inr (g, db')" by (auto simp: answered_def map_sum_Inr_iff)
  then show thesis by (cases rule: archived_saves) (auto intro: kept)
qed (use assms receive_agents kept in \<open>auto simp: answered_def map_sum_Inr_iff agent_upload_def result_simps\<close>)

definition is_claimed :: "agent_pairing \<Rightarrow> bool" where
  "is_claimed p \<longleftrightarrow> ap_claimed_at p \<noteq> None"

definition agents_ok :: "inbox_db \<Rightarrow> bool" where
  "agents_ok db \<longleftrightarrow> distinct (map ap_id (ix_pairings db)) \<and>
     mset (map la_scopes (ix_agents db)) = mset (map ap_scopes (filter is_claimed (ix_pairings db)))"

lemma claim_counts:
  "row \<in> set ps \<Longrightarrow> distinct (map ap_id ps) \<Longrightarrow> open_pairing now row \<Longrightarrow>
   mset (map ap_scopes (filter is_claimed (map (\<lambda>p. if ap_id p = ap_id row \<and> open_pairing now p
      then p\<lparr>ap_claimed_at := Some now\<rparr> else p) ps))) = add_mset (ap_scopes row) (mset (map ap_scopes (filter is_claimed ps)))"
proof (induction ps)
  case (Cons p ps)
  show ?case
  proof (cases "p = row")
    case True
    have "map (\<lambda>p. if ap_id p = ap_id row \<and> open_pairing now p then p\<lparr>ap_claimed_at := Some now\<rparr> else p) ps = ps"
      by (rule map_idI) (use Cons.prems True in \<open>auto simp: image_iff\<close>)
    with True Cons.prems(3) show ?thesis by (simp add: is_claimed_def open_pairing_def)
  next
    case False
    with Cons.prems have "ap_id p \<noteq> ap_id row" by (auto simp: image_iff)
    with False Cons show ?thesis by simp
  qed
qed simp

lemma agents_ok_step:
  assumes "inbox_step c sha db db'" "agents_ok db"
  shows "agents_ok db'"
  using assms(1)
proof cases
  case (request env rq)
  note E = request(1) [unfolded sound_inbox_def]
  from request(2) show ?thesis
  proof (cases rule: agents_cases)
    case (claimed row a)
    have ids: "map ap_id (ix_pairings db') = map ap_id (ix_pairings db)" by (simp add: claimed(6))
    have "distinct (map ap_id (ix_pairings db))" using assms(2) by (simp add: agents_ok_def)
    note counts = claim_counts [OF claimed(1) this claimed(2), folded claimed(6)]
    show ?thesis
      using assms(2) counts claimed(3) unfolding agents_ok_def ids claimed(5) by simp
  next
    case (updated i h)
    have "map la_scopes (ix_agents db') = map la_scopes (ix_agents db)" by (simp add: updated(1,4))
    with assms(2) updated(2) show ?thesis by (simp add: agents_ok_def)
  qed (use assms(2) E in \<open>auto simp: agents_ok_def is_claimed_def\<close>)
qed

lemma agents_ok_reachable: "(inbox_step c sha)\<^sup>*\<^sup>* db db' \<Longrightarrow> agents_ok db \<Longrightarrow> agents_ok db'"
  by (induction rule: rtranclp_induct) (auto intro: agents_ok_step)

text \<open>A revoked agent stays revoked, and its identifier is not drawn again.\<close>

definition is_revoked :: "string \<Rightarrow> inbox_db \<Rightarrow> bool" where
  "is_revoked i db \<longleftrightarrow> i \<in> la_id ` set (ix_agents db) \<and> (\<forall>a \<in> set (ix_agents db). la_id a = i \<longrightarrow> la_revoked_at a \<noteq> None)"

lemma is_revoked_step:
  assumes "inbox_step c sha db db'" "is_revoked i db"
  shows "is_revoked i db'"
  using assms(1)
proof cases
  case (request env rq)
  note E = request(1) [unfolded sound_inbox_def]
  from request(2) show ?thesis
  proof (cases rule: agents_cases)
    case (updated j h)
    have "la_id (if la_id a = j then h a else a) = la_id a" for a by (simp add: updated(3))
    then have "la_id ` set (ix_agents db') = la_id ` set (ix_agents db)"
      unfolding updated(1) set_map image_image by (simp only:)
    moreover have "la_revoked_at a \<noteq> None" if "a \<in> set (ix_agents db')" "la_id a = i" for a
      using that assms(2) updated(3,5) by (auto simp: updated(1) is_revoked_def split: if_splits)
    ultimately show ?thesis using assms(2) by (simp add: is_revoked_def)
  qed (use assms(2) E in \<open>auto simp: is_revoked_def\<close>)
qed

lemma is_revoked_reachable: "(inbox_step c sha)\<^sup>*\<^sup>* db db' \<Longrightarrow> is_revoked i db \<Longrightarrow> is_revoked i db'"
  by (induction rule: rtranclp_induct) (auto intro: is_revoked_step)

end
