(* ===== verification/Inbox_Properties.thy ===== *)
theory Inbox_Properties
  imports Inbox_Facts
begin

text \<open>
  What the inbox guarantees: histories, originals and stored contents of files, the two outcomes of
  an import, agents and their pairings, and the book of trades that imports are recorded in.
\<close>

section \<open>Imports and the book of trades\<close>

text \<open>Each record of an import draws identifiers of its own.\<close>

definition fresh_records :: "(string \<Rightarrow> string) \<Rightarrow> (nat \<Rightarrow> trade_env) \<Rightarrow> nat \<Rightarrow> trade_db \<Rightarrow> bool" where
  "fresh_records lot envs k book \<longleftrightarrow> (\<forall>n. ad_lot_id (envs n) = lot) \<and> (\<forall>n \<ge> k. fresh_ids (envs n) book) \<and>
     inj (\<lambda>n. ad_new_id (envs n) ''transaction'') \<and> inj (\<lambda>n. ad_new_id (envs n) ''event'')"

lemma fresh_records_add:
  assumes "fresh_records lot envs k book" "add_trade (prec 28) (envs k) book payload key src file actor = Inr (receipt, book')"
  shows "fresh_records lot envs (Suc k) book'"
proof (cases "book' = book")
  case True
  with assms(1) show ?thesis by (simp add: fresh_records_def)
next
  case False
  show ?thesis
  proof (rule add_trade_writes [OF assms(2) False], goal_cases)
    case (1 t d e k')
    have w: "db_transactions (tb_ledger book') = db_transactions (tb_ledger book) @ [t]" by (simp add: 1(1))
    have "fresh_ids (envs n) book'" if "Suc k \<le> n" for n
    proof -
      have "fresh_ids (envs n) book" using assms(1) that by (simp add: fresh_records_def)
      moreover have "ad_new_id (envs n) ''transaction'' \<noteq> tr_id t" "ad_new_id (envs n) ''event'' \<noteq> te_id e"
        using assms(1) that 1(6,8) not_less_eq_eq [of n k] unfolding fresh_records_def inj_def by (metis order_refl)+
      ultimately show ?thesis by (simp add: fresh_ids_def w 1(2))
    qed
    with assms(1) show ?case by (simp add: fresh_records_def)
  qed
qed

lemma imported_trades_replay:
  "foldE (import_record (prec 28) env v profile row licence pf actor) db (enumerate k rs) = Inr db' \<Longrightarrow>
   all_replay lot (ix_trade db) \<Longrightarrow> fresh_records lot (ie_trade env) k (ix_trade db) \<Longrightarrow> all_replay lot (ix_trade db')"
proof (induction rs arbitrary: k db)
  case (Cons r rs)
  then obtain d where d: "import_record (prec 28) env v profile row licence pf actor db (k, r) = Inr d"
    and rest: "foldE (import_record (prec 28) env v profile row licence pf actor) d (enumerate (Suc k) rs) = Inr db'"
    by (auto simp: result_simps)
  have "all_replay lot (ix_trade d) \<and> fresh_records lot (ie_trade env) (Suc k) (ix_trade d)"
  proof (cases "ix_trade d = ix_trade db")
    case True
    with Cons.prems show ?thesis by (simp add: fresh_records_def)
  next
    case False
    with d obtain receipt where a: "add_trade (prec 28) (ie_trade env k) (ix_trade db) (import_payload row k r) pf
        (mp_source profile) (Some (xf_id row)) actor = Inr (receipt, ix_trade d)"
      by (auto simp: import_record_def import_price_def import_fx_def import_trade_def result_simps split: if_splits)
    have "fresh_ids (ie_trade env k) (ix_trade db)" "ad_lot_id (ie_trade env k) = lot"
      using Cons.prems(3) by (simp_all add: fresh_records_def)
    with recorded_replays [OF a] Cons.prems(2) fresh_records_add [OF Cons.prems(3) a] show ?thesis by simp
  qed
  with Cons.IH [OF rest] show ?case by blast
qed simp

lemma from_config_price: "from_config (AList.update ''price_mode'' x cfg) = from_config cfg"
  by (simp add: from_config_def)

lemma enable_prices_book:
  "db_transactions (tb_ledger (ix_trade (enable_prices pf actor db))) = db_transactions (tb_ledger (ix_trade db))"
  "db_details (tb_ledger (ix_trade (enable_prices pf actor db))) = db_details (tb_ledger (ix_trade db))"
  "db_revisions (tb_ledger (ix_trade (enable_prices pf actor db))) = db_revisions (tb_ledger (ix_trade db))"
  "\<exists>h. db_profiles (tb_ledger (ix_trade (enable_prices pf actor db))) = map h (db_profiles (tb_ledger (ix_trade db))) \<and>
     (\<forall>p. pr_portfolio_id (h p) = pr_portfolio_id p \<and> from_config (pr_configuration (h p)) = from_config (pr_configuration p))"
proof -
  let ?off = "\<lambda>q. meta_get (pr_configuration q) ''price_mode'' \<noteq> VStr ''DEMO_ONLY''"
  consider "ix_trade (enable_prices pf actor db) = ix_trade db"
    | q where "ix_trade (enable_prices pf actor db) = (ix_trade db)\<lparr>tb_ledger := (tb_ledger (ix_trade db))\<lparr>db_profiles :=
        map (\<lambda>r. if pr_portfolio_id r = q
          then r\<lparr>pr_configuration := AList.update ''price_mode'' (VStr ''AUTO'') (pr_configuration r)\<rparr> else r)
        (db_profiles (tb_ledger (ix_trade db)))\<rparr>\<rparr>"
  proof (cases "profile_for (db_profiles (tb_ledger (ix_trade db))) pf")
    case (Some q)
    with that show thesis by (cases "?off q") (simp_all add: enable_prices_def file_audit_def Let_def)
  qed (use that in \<open>simp add: enable_prices_def Let_def\<close>)
  then have "db_transactions (tb_ledger (ix_trade (enable_prices pf actor db))) = db_transactions (tb_ledger (ix_trade db)) \<and>
    db_details (tb_ledger (ix_trade (enable_prices pf actor db))) = db_details (tb_ledger (ix_trade db)) \<and>
    db_revisions (tb_ledger (ix_trade (enable_prices pf actor db))) = db_revisions (tb_ledger (ix_trade db)) \<and>
    (\<exists>h. db_profiles (tb_ledger (ix_trade (enable_prices pf actor db))) = map h (db_profiles (tb_ledger (ix_trade db))) \<and>
     (\<forall>p. pr_portfolio_id (h p) = pr_portfolio_id p \<and> from_config (pr_configuration (h p)) = from_config (pr_configuration p)))"
  proof cases
    case 1
    then show ?thesis by (simp add: exI [of _ "\<lambda>p. p"])
  next
    case (2 q)
    let ?h = "\<lambda>r. if pr_portfolio_id r = q
          then r\<lparr>pr_configuration := AList.update ''price_mode'' (VStr ''AUTO'') (pr_configuration r)\<rparr> else r"
    show ?thesis unfolding 2 by (intro conjI exI [of _ ?h]) (simp_all add: from_config_price)
  qed
  then show "db_transactions (tb_ledger (ix_trade (enable_prices pf actor db))) = db_transactions (tb_ledger (ix_trade db))"
    "db_details (tb_ledger (ix_trade (enable_prices pf actor db))) = db_details (tb_ledger (ix_trade db))"
    "db_revisions (tb_ledger (ix_trade (enable_prices pf actor db))) = db_revisions (tb_ledger (ix_trade db))"
    "\<exists>h. db_profiles (tb_ledger (ix_trade (enable_prices pf actor db))) = map h (db_profiles (tb_ledger (ix_trade db))) \<and>
     (\<forall>p. pr_portfolio_id (h p) = pr_portfolio_id p \<and> from_config (pr_configuration (h p)) = from_config (pr_configuration p))"
    by blast+
qed

lemma enable_prices_replays:
  assumes "all_replay lot (ix_trade db)"
  shows "all_replay lot (ix_trade (enable_prices pf actor db))"
proof -
  let ?l = "tb_ledger (ix_trade db)" and ?l' = "tb_ledger (ix_trade (enable_prices pf actor db))"
  obtain h where h: "db_profiles ?l' = map h (db_profiles ?l)" "\<And>p. pr_portfolio_id (h p) = pr_portfolio_id p"
    "\<And>p. from_config (pr_configuration (h p)) = from_config (pr_configuration p)" using enable_prices_book(4) by blast
  have loaded: "loaded_entries c ?l' i = loaded_entries c ?l i" for c i
    by (rule loaded_cong) (rule enable_prices_book)+
  have "replays lot ?l' i" if "replays lot ?l i" for i
    using that unfolding replays_def loaded h(1) set_map bex_simps(7) h(2,3) .
  with assms show ?thesis by (simp add: all_replay_def enable_prices_book(1))
qed

lemma import_records_replay:
  assumes "import_records (prec 28) env v profile row columns records licence pf actor db = Inr db'"
    "all_replay lot (ix_trade db)" "fresh_records lot (ie_trade env) 0 (ix_trade db)"
  shows "all_replay lot (ix_trade db')"
proof -
  from assms(1) obtain d where d: "foldE (import_record (prec 28) env (dv_id v) profile row licence pf actor)
      (db\<lparr>ix_versions := ix_versions db @ [v], ix_lineage := ix_lineage db @ [(dv_id v, xf_id row)],
        ix_columns := ix_columns db @ new_columns (dv_id v) (xf_mapping row) columns\<rparr>) (enumerate 0 records) = Inr d"
    and db': "ix_trade db' = ix_trade (if mp_dataset_type profile \<in> {''ohlcv'', ''snapshot'', ''fx''}
       then enable_prices pf actor d else d)"
    by (auto simp: import_records_def result_simps Let_def file_audit_def)
  have "all_replay lot (ix_trade d)" by (rule imported_trades_replay [OF d]) (use assms in simp_all)
  with enable_prices_replays show ?thesis unfolding db' by simp
qed

text \<open>The desk: requests to the inbox, and the steps of the managed book.\<close>

inductive desk_step :: "(string \<Rightarrow> string) \<Rightarrow> inbox_db \<Rightarrow> inbox_db \<Rightarrow> bool" for lot where
  inbox: "fresh_records lot (ie_trade env) 0 (ix_trade db) \<Longrightarrow> answered (prec 28) env db rq = Inr db' \<Longrightarrow> desk_step lot db db'"
| managed: "managed_step lot (ix_trade db) book \<Longrightarrow> desk_step lot db (db\<lparr>ix_trade := book\<rparr>)"

lemma answered_replays:
  assumes "answered (prec 28) env db rq = Inr db'" "fresh_records lot (ie_trade env) 0 (ix_trade db)" "all_replay lot (ix_trade db)"
  shows "all_replay lot (ix_trade db')"
proof (cases rq)
  case (Import i name licence approve pf)
  with assms obtain g where "import_file (prec 28) env db i name licence approve pf = Inr (g, db')"
    by (auto simp: answered_def map_sum_Inr_iff)
  then show ?thesis
  proof (cases rule: import_agents)
    case (records v profile row columns rs actor db1 db2)
    with import_records_replay [OF records(1)] assms(2,3) show ?thesis by simp
  qed (use assms(3) in simp)
next
  case (Map_validate i pid m d r)
  with assms obtain g where "map_validate (prec 28) env db i pid m d r = Inr (g, db')"
    by (auto simp: answered_def map_sum_Inr_iff)
  then show ?thesis by (rule map_validate_saves) (use assms(3) in simp)
next
  case (Reject i reason)
  with assms obtain g where "reject_file env db i reason = Inr (g, db')" by (auto simp: answered_def map_sum_Inr_iff)
  then show ?thesis by (rule reject_saves) (use assms(3) in simp)
next
  case (Archived auth i)
  with assms obtain g where "agent_archived env db auth i = Inr (g, db')" by (auto simp: answered_def map_sum_Inr_iff)
  then show ?thesis by (cases rule: archived_saves) (use assms(3) in simp_all)
qed (use assms receive_agents in \<open>auto simp: answered_def map_sum_Inr_iff agent_upload_def result_simps pair_agent_def
      claim_agent_def revoke_agent_def agent_heartbeat_def update_agent_def file_audit_def Let_def\<close>)

lemma desk_replays: "desk_step lot db db' \<Longrightarrow> all_replay lot (ix_trade db) \<Longrightarrow> all_replay lot (ix_trade db')"
  by (induction rule: desk_step.induct) (auto intro: answered_replays managed_replays)

lemma desk_reachable: "(desk_step lot)\<^sup>*\<^sup>* db db' \<Longrightarrow> all_replay lot (ix_trade db) \<Longrightarrow> all_replay lot (ix_trade db')"
  by (induction rule: rtranclp_induct) (auto intro: desk_replays)

section \<open>Properties\<close>

text \<open>C12: the book of trades replays whatever is imported into it. From an empty book, after any requests to the
  inbox (uploads, mappings, imports of transactions, prices and rates, refused or accepted) between
  any creations of portfolios, trades, reviews and changes of policy, the ledger of every portfolio
  with a transaction loads, its stored policy parses, and its entries replay without an error.\<close>

theorem imported_book_replays:
  assumes "(desk_step lot)\<^sup>*\<^sup>* db db'" "empty_books (ix_trade db)" "t \<in> set (db_transactions (tb_ledger (ix_trade db')))"
  shows "\<exists>profile \<in> set (db_profiles (tb_ledger (ix_trade db'))). \<exists>entries payloads policy state.
     pr_portfolio_id profile = tr_portfolio_id t \<and>
     load_entries (prec 28) ts now (tb_ledger (ix_trade db')) (tr_portfolio_id t) = Inr (entries, payloads) \<and>
     from_config (pr_configuration profile) = Inr policy \<and>
     replay (prec 28) lot (new_ledger policy) entries = Inr state"
proof -
  have "all_replay lot (ix_trade db)" using assms(2) by (simp add: all_replay_def empty_books_def)
  from desk_reachable [OF assms(1) this] assms(3)
  have "replays lot (tb_ledger (ix_trade db')) (tr_portfolio_id t)" by (simp add: all_replay_def)
  then show ?thesis unfolding replays_def by (metis load_entriesI)
qed

text \<open>C19: files follow the transition table, and only come to rest in states a request can leave. In every
  state reached from an empty inbox, the history of a file starts with its detection, each further
  entry is allowed by the table from the one before, the last one is its state, and that state is
  none of the intermediate ones.\<close>

theorem file_histories_follow_table:
  assumes "(inbox_step c sha)\<^sup>*\<^sup>* db db'" "empty_inbox db" "f \<in> set (ix_files db')"
  shows "(\<exists>ts. map fst (xf_history f) = DETECTED # ts \<and> path DETECTED ts \<and> xf_state f = last (DETECTED # ts)) \<and>
     xf_state f \<notin> {DETECTED, HASHING, UPLOADING, STORED_RAW, PREVIEWING, SCHEMA_DETECTED, MAPPED, VALIDATING, VALIDATED,
       VALIDATED_WITH_WARNINGS, IMPORTING}"
proof -
  from inbox_ok_reachable [OF assms(1) inbox_ok_empty [OF assms(2)]] assms(3) have ok: "file_ok sha db' f"
    by (simp add: inbox_ok_def)
  then have "traced f" "xf_state f = DUPLICATE \<or> xf_state f \<in> RESTING" by (auto simp: file_ok_def split: if_splits)
  then show ?thesis unfolding traced_def by (auto simp: RESTING_def)
qed

text \<open>C17: a content has one original. In every state reached from an empty inbox, two files with the same
  content hash that are not duplicates are the same file, and a duplicate names a file of the same
  hash that is not a duplicate itself. In particular, no content is imported twice.\<close>

theorem one_original_per_content:
  assumes "(inbox_step c sha)\<^sup>*\<^sup>* db db'" "empty_inbox db" "f \<in> set (ix_files db')"
  shows "\<exists>g \<in> set (ix_files db'). xf_content_hash g = xf_content_hash f \<and> xf_state g \<noteq> DUPLICATE \<and>
     (if xf_state f = DUPLICATE then xf_duplicate_of f = Some (xf_id g) else g = f) \<and>
     (\<forall>x \<in> set (ix_files db'). xf_content_hash x = xf_content_hash f \<and> xf_state x \<noteq> DUPLICATE \<longrightarrow> x = g)"
proof -
  have ok: "inbox_ok sha db'" by (rule inbox_ok_reachable [OF assms(1) inbox_ok_empty [OF assms(2)]])
  have files: "file_ok sha db' x" if "x \<in> set (ix_files db')" for x using ok that by (simp add: inbox_ok_def)
  have hashes: "distinct (map fst (ix_hashes db'))" using ok by (simp add: inbox_ok_def)
  have unique: "x = y" if "x \<in> set (ix_files db')" "y \<in> set (ix_files db')" "xf_state x \<noteq> DUPLICATE" "xf_state y \<noteq> DUPLICATE"
    "xf_content_hash x = xf_content_hash y" for x y
  proof -
    have "(xf_content_hash y, xf_id x) \<in> set (ix_hashes db')" "(xf_content_hash y, xf_id y) \<in> set (ix_hashes db')"
      using files [OF that(1)] files [OF that(2)] that(3-5) by (simp_all add: file_ok_def)
    with hashes have "xf_id x = xf_id y" by (rule_tac eq_key_imp_eq_value)
    with ok that(1,2) same_file show ?thesis unfolding inbox_ok_def by blast
  qed
  show ?thesis
  proof (cases "xf_state f = DUPLICATE")
    case False
    with assms(3) unique show ?thesis by (intro bexI [of _ f]) auto
  next
    case True
    with files [OF assms(3)] obtain i where i: "xf_duplicate_of f = Some i" "(xf_content_hash f, i) \<in> set (ix_hashes db')"
      by (auto simp: file_ok_def)
    with ok have "owner_ok (ix_files db') (xf_content_hash f, i)" by (simp add: inbox_ok_def)
    then obtain g where g: "g \<in> set (ix_files db')" "xf_id g = i" "xf_content_hash g = xf_content_hash f" "xf_state g \<noteq> DUPLICATE"
      by (auto simp: owner_ok_def)
    with i(1) True unique show ?thesis by (intro bexI [of _ g]) auto
  qed
qed

text \<open>C18: the stored content of a file stays what was received. In every state reached from an empty inbox,
  the raw object a file refers to exists and hashes to the file's content hash, so the integrity
  check before mapping and importing it never fails: whatever has been uploaded, retried or imported
  since, no other object was written over it.\<close>

theorem raw_content_intact:
  assumes "(inbox_step c sha)\<^sup>*\<^sup>* db db'" "empty_inbox db" "f \<in> set (ix_files db')" "xf_uploaded_file_id f = Some u"
  shows "\<exists>uploaded content. upload_of db' f = Inr uploaded \<and> up_id uploaded = u \<and>
     map_of (ix_objects db') (up_object_key uploaded) = Some content \<and> sha content = xf_content_hash f"
proof -
  have ok: "inbox_ok sha db'" by (rule inbox_ok_reachable [OF assms(1) inbox_ok_empty [OF assms(2)]])
  with assms(3) have "intact sha db' f" by (simp add: inbox_ok_def file_ok_def)
  with assms(4) obtain x content where x: "x \<in> set (ix_uploads db')" "up_id x = u"
    "raw_part (ix_objects db') (up_object_key x) = Some content" "sha content = xf_content_hash f"
    by (auto simp: intact_def)
  have "find (\<lambda>y. up_id y = u) (ix_uploads db') = Some x"
    using find_distinct [OF x(1), of up_id] x(2) ok by (simp add: inbox_ok_def)
  then have "upload_of db' f = Inr x" by (simp add: upload_of_def assms(4) found_def)
  with x show ?thesis by (auto simp: raw_part_def split: if_splits)
qed

section \<open>Outcomes of an import\<close>

text \<open>What the observation of a price record says, and the exchange rate of a rate record.\<close>

definition price_of_record ::
  "ctx \<Rightarrow> inbox_env \<Rightarrow> instrument_row list \<Rightarrow> mapping_profile \<Rightarrow> string \<Rightarrow> string \<Rightarrow> pyval dict \<Rightarrow> market_row \<Rightarrow> bool" where
  "price_of_record c env instruments profile file_id version_id record ob \<longleftrightarrow>
     (\<exists>symbol item text day. meta_get record ''symbol'' = VStr symbol \<and> known_security instruments symbol = Some item \<and>
        meta_get record ''date'' = VStr text \<and> me_read_date (ie_mapping env) text = Some day \<and>
        mo_instrument_id ob = in_id item \<and> mo_currency ob = in_currency item \<and>
        mo_timestamp ob = start_of_day day + 20 * 3600000000) \<and>
     decimal c (meta_get record ''close'') ''amount'' False False = Inr (mo_price ob) \<and>
     mo_source ob = mp_source profile \<and> mo_source_category ob = ''FILE'' \<and>
     mo_dataset_version_id ob = Some version_id \<and> mo_source_file_id ob = Some file_id"

definition rate_of_record ::
  "ctx \<Rightarrow> inbox_env \<Rightarrow> mapping_profile \<Rightarrow> string \<Rightarrow> pyval dict \<Rightarrow> fx_observation_row \<Rightarrow> bool" where
  "rate_of_record c env profile file_id record ob \<longleftrightarrow>
     (\<exists>text day. meta_get record ''date'' = VStr text \<and> me_read_date (ie_mapping env) text = Some day \<and>
        fo_timestamp ob = start_of_day day) \<and>
     fo_base_currency ob = py_str (meta_get record ''base_currency'') \<and>
     fo_quote_currency ob = py_str (meta_get record ''quote_currency'') \<and>
     decimal c (meta_get record ''rate'') ''amount'' False False = Inr (fo_rate ob) \<and>
     fo_source ob = mp_source profile \<and> fo_source_category ob = ''FILE'' \<and> fo_source_file_id ob = Some file_id"

definition observed_records ::
  "ctx \<Rightarrow> inbox_env \<Rightarrow> instrument_row list \<Rightarrow> mapping_profile \<Rightarrow> string \<Rightarrow> string \<Rightarrow> pyval dict list \<Rightarrow>
   inbox_db \<Rightarrow> inbox_db \<Rightarrow> bool" where
  "observed_records c env instruments profile file_id version_id records db db' \<longleftrightarrow>
     (\<exists>prices rates. ix_market db' = ix_market db @ prices \<and> ix_fx db' = ix_fx db @ rates \<and>
        (if mp_dataset_type profile \<in> {''ohlcv'', ''snapshot''}
         then list_all2 (price_of_record c env instruments profile file_id version_id) records prices else prices = []) \<and>
        (if mp_dataset_type profile = ''fx'' then list_all2 (rate_of_record c env profile file_id) records rates
         else rates = []))"

lemma observed_day_Inr:
  "observed_day env record = Inr day \<longleftrightarrow>
     (\<exists>text. meta_get record ''date'' = VStr text \<and> me_read_date (ie_mapping env) text = Some day)"
  by (auto simp: observed_day_def text_field_def result_simps found_Inr split: pyval.splits)

lemma observed_record:
  assumes "import_record c env v profile row licence pf actor db (n, record) = Inr db'"
  shows "observed_records c env (tb_instruments (ix_trade db)) profile (xf_id row) v [record] db db'"
    "mp_dataset_type profile \<noteq> ''transactions'' \<Longrightarrow> ix_trade db' = ix_trade db"
proof -
  consider (price) "mp_dataset_type profile \<in> {''ohlcv'', ''snapshot''}" "import_price c env v profile row licence db (n, record) = Inr db'"
    | (fx) "mp_dataset_type profile = ''fx''" "import_fx c env profile row db (n, record) = Inr db'"
    | (other) "mp_dataset_type profile \<notin> {''ohlcv'', ''snapshot'', ''fx''}" "ix_market db' = ix_market db" "ix_fx db' = ix_fx db"
        "mp_dataset_type profile \<noteq> ''transactions'' \<longrightarrow> ix_trade db' = ix_trade db"
    using assms by (auto simp: import_record_def import_trade_def result_simps split: if_splits)
  then have "observed_records c env (tb_instruments (ix_trade db)) profile (xf_id row) v [record] db db' \<and>
      (mp_dataset_type profile \<noteq> ''transactions'' \<longrightarrow> ix_trade db' = ix_trade db)"
  proof cases
    case price
    from price(2) obtain symbol item day x ob where s: "text_field record ''symbol'' ''Normalized security symbol must be text'' = Inr symbol"
      "known_security (tb_instruments (ix_trade db)) symbol = Some item" "observed_day env record = Inr day"
      "decimal c (meta_get record ''close'') ''amount'' False False = Inr x" and db': "db' = db\<lparr>ix_market := ix_market db @ [ob]\<rparr>"
      and ob: "mo_instrument_id ob = in_id item" "mo_currency ob = in_currency item" "mo_price ob = x"
        "mo_timestamp ob = start_of_day day + 20 * 3600000000" "mo_source ob = mp_source profile" "mo_source_category ob = ''FILE''"
        "mo_dataset_version_id ob = Some v" "mo_source_file_id ob = Some (xf_id row)"
      by (fastforce simp: import_price_def result_simps found_Inr)
    then have "price_of_record c env (tb_instruments (ix_trade db)) profile (xf_id row) v record ob"
      by (auto simp: price_of_record_def observed_day_Inr text_field_def split: pyval.splits)
    with price(1) show ?thesis by (auto simp: observed_records_def db')
  next
    case fx
    from fx(2) obtain day x ob where s: "observed_day env record = Inr day"
      "decimal c (meta_get record ''rate'') ''amount'' False False = Inr x" and db': "db' = db\<lparr>ix_fx := ix_fx db @ [ob]\<rparr>"
      and ob: "fo_base_currency ob = py_str (meta_get record ''base_currency'')" "fo_rate ob = x"
        "fo_quote_currency ob = py_str (meta_get record ''quote_currency'')" "fo_timestamp ob = start_of_day day"
        "fo_source ob = mp_source profile" "fo_source_category ob = ''FILE''" "fo_source_file_id ob = Some (xf_id row)"
      by (fastforce simp: import_fx_def result_simps)
    then have "rate_of_record c env profile (xf_id row) record ob"
      by (auto simp: rate_of_record_def observed_day_Inr)
    with fx(1) show ?thesis by (auto simp: observed_records_def db')
  next
    case other
    then show ?thesis by (auto simp: observed_records_def)
  qed
  then show "observed_records c env (tb_instruments (ix_trade db)) profile (xf_id row) v [record] db db'"
    "mp_dataset_type profile \<noteq> ''transactions'' \<Longrightarrow> ix_trade db' = ix_trade db" by blast+
qed

lemma observed_append:
  assumes "observed_records c env is profile i v xs db d" "observed_records c env is' profile i v ys d db'"
    "mp_dataset_type profile \<noteq> ''transactions'' \<Longrightarrow> is' = is"
  shows "observed_records c env is profile i v (xs @ ys) db db'"
proof -
  obtain ps rs where p: "ix_market d = ix_market db @ ps" "ix_fx d = ix_fx db @ rs"
      "if mp_dataset_type profile \<in> {''ohlcv'', ''snapshot''} then list_all2 (price_of_record c env is profile i v) xs ps else ps = []"
      "if mp_dataset_type profile = ''fx'' then list_all2 (rate_of_record c env profile i) xs rs else rs = []"
    using assms(1) unfolding observed_records_def by blast
  obtain ps' rs' where q: "ix_market db' = ix_market d @ ps'" "ix_fx db' = ix_fx d @ rs'"
      "if mp_dataset_type profile \<in> {''ohlcv'', ''snapshot''} then list_all2 (price_of_record c env is' profile i v) ys ps' else ps' = []"
      "if mp_dataset_type profile = ''fx'' then list_all2 (rate_of_record c env profile i) ys rs' else rs' = []"
    using assms(2) unfolding observed_records_def by blast
  show ?thesis unfolding observed_records_def
    using p q assms(3) by (intro exI [of _ "ps @ ps'"] exI [of _ "rs @ rs'"]) (auto intro: list_all2_appendI split: if_splits)
qed

lemma observed_fold:
  "foldE (import_record c env v profile row licence pf actor) db (enumerate n records) = Inr db' \<Longrightarrow>
   observed_records c env (tb_instruments (ix_trade db)) profile (xf_id row) v records db db'"
proof (induction records arbitrary: db n)
  case Nil
  then show ?case by (simp add: observed_records_def)
next
  case (Cons entry records)
  then obtain d where d: "import_record c env v profile row licence pf actor db (n, entry) = Inr d"
    and rest: "foldE (import_record c env v profile row licence pf actor) d (enumerate (Suc n) records) = Inr db'"
    by (auto simp: result_simps)
  from observed_append [OF observed_record(1) [OF d] Cons.IH [OF rest]] observed_record(2) [OF d] show ?case by simp
qed

lemma import_records_observed:
  assumes "import_records c env v profile row columns records licence pf actor db = Inr db'"
  shows "observed_records c env (tb_instruments (ix_trade db)) profile (xf_id row) (dv_id v) records db db'"
proof -
  from assms obtain d where d: "foldE (import_record c env (dv_id v) profile row licence pf actor)
      (db\<lparr>ix_versions := ix_versions db @ [v], ix_lineage := ix_lineage db @ [(dv_id v, xf_id row)],
        ix_columns := ix_columns db @ new_columns (dv_id v) (xf_mapping row) columns\<rparr>) (enumerate 0 records) = Inr d"
    and same: "ix_market db' = ix_market d" "ix_fx db' = ix_fx d"
    by (auto simp: import_records_def enable_prices_def result_simps Let_def file_audit_def split: option.splits)
  from observed_fold [OF d] show ?thesis by (simp add: observed_records_def same)
qed

text \<open>A valid normalization keeps every row.\<close>

lemma normalized_all:
  assumes "normalized_rows c env db row profile rows defaults resolution = Inr (normalized, report)" "vr_valid report"
  shows "length normalized = length rows"
proof -
  have rows: "length (ms_errors st) \<le> length (ms_errors st') \<and>
      length (ms_errors st') + length (ms_normalized st') = length (ms_errors st) + length (ms_normalized st) + length rows"
    if "foldE (normalize_row c env kind mapping instruments metadata defaults resolution) st (enumerate k rows) = Inr st'"
    for env kind mapping instruments metadata st k st' and rows :: "pyval dict list"
    using that
  proof (induction rows arbitrary: st k)
    case (Cons raw rows)
    from Cons.prems obtain s where s: "normalize_row c env kind mapping instruments metadata defaults resolution st (k, raw) = Inr s"
      and rest: "foldE (normalize_row c env kind mapping instruments metadata defaults resolution) s (enumerate (Suc k) rows) = Inr st'"
      by (auto simp: result_simps)
    from s show ?case by (cases rule: normalize_row_cases) (use Cons.IH [OF rest] in auto)
  qed simp
  from assms show ?thesis
    by (auto simp: normalized_rows_def normalize_def Let_def result_simps dest!: rows)
qed

lemma mset_sorted_records: "mset (sorted_records records) = mset records"
  by (simp add: sorted_records_def Let_def)

lemma next_version_above: "w \<in> set (ix_versions db) \<Longrightarrow> dv_version w < next_version db (dv_dataset_id w)"
  by (auto simp: next_version_def less_Suc_eq_le intro!: Max_ge)

text \<open>C15: an approved import is all or nothing. An import of a file that awaits approval may end IMPORTED: then
  there is exactly one new dataset version, of this file and above every earlier version of its
  dataset; it counts the rows of the file, all of which the file's own mapping normalizes without an
  error; and in a price or exchange rate file the new observations are, one for one, those of the
  normalized rows in their sorted order: of the row's security or currencies, at its date, with its
  close or rate, and of this file and version. Or it ends IMPORT_FAILED, and then nothing but the file
  row and the object storage differs from before.\<close>

theorem import_is_atomic:
  assumes "import_file c env db i name licence approve pf = Inr (g, db')" "file_of db i = Inr f" "xf_state f = AWAITING_APPROVAL"
  shows "(xf_state g = IMPORTED \<and> (\<exists>v profile rows columns defaults resolution normalized report.
        ix_versions db' = ix_versions db @ [v] \<and> dv_file_id v = i \<and> xf_dataset_version_id g = Some (dv_id v) \<and>
        (\<forall>w \<in> set (ix_versions db). dv_dataset_id w = dv_dataset_id v \<longrightarrow> dv_version w < dv_version v) \<and>
        Option.bind (xf_profile_id f) (profile_by_id db) = Some profile \<and>
        raw_rows env db f = Inr (rows, columns) \<and> saved_inputs (xf_metadata f) = Inr (defaults, resolution) \<and>
        normalized_rows c env db f profile rows defaults resolution = Inr (normalized, report) \<and> vr_valid report \<and>
        length normalized = length rows \<and> dv_row_count v = length rows \<and>
        mset (sorted_records normalized) = mset normalized \<and>
        observed_records c env (tb_instruments (ix_trade db)) profile i (dv_id v) (sorted_records normalized) db db')) \<or>
     (xf_state g = IMPORT_FAILED \<and> (\<exists>objects. db' = save_file g (db\<lparr>ix_objects := objects\<rparr>)))"
  using assms(1)
proof (cases rule: import_cases)
  case already
  with assms(2,3) show ?thesis by simp
next
  case (run f' row actor profile rows columns defaults resolution normalized report)
  have f': "f' = f" using run(1) assms(2) by simp
  have f: "f' \<in> set (ix_files db)" "xf_state f' \<noteq> DUPLICATE" "xf_id f' = i" using file_of_in [OF run(1)] run(2) by simp_all
  have all: "length normalized = length rows" by (rule normalized_all [OF run(5,6)])
  have "size (mset (sorted_records normalized)) = size (mset normalized)" by (simp only: mset_sorted_records)
  then have count: "length (sorted_records normalized) = length rows" using all by simp
  show ?thesis
  proof (rule run_import_cases [OF run(10) f(1) run(7) f(2) run(8)], goal_cases)
    case (1 objects)
    then show ?case by blast
  next
    case (2 v ds db1 db2)
    have above: "dv_version w < dv_version v" if "w \<in> set (ix_versions db)" "dv_dataset_id w = dv_dataset_id v" for w
      using next_version_above [OF that(1)] that(2) 2(6,7) by simp
    have "ix_market db' = ix_market db2" "ix_fx db' = ix_fx db2" by (simp_all add: 2(3) save_file_def)
    moreover have "xf_id row = i" using run(7) f(3) by (simp add: evolves_def)
    ultimately have observed: "observed_records c env (tb_instruments (ix_trade db)) profile i (dv_id v) (sorted_records normalized) db db'"
      using import_records_observed [OF 2(4)] 2(11,14,15) by (simp add: observed_records_def)
    show ?case
      by (intro disjI1 conjI exI [of _ v] exI [of _ profile] exI [of _ rows] exI [of _ columns] exI [of _ defaults]
          exI [of _ resolution] exI [of _ normalized] exI [of _ report])
        (use 2(2,5,8,9,10) run(4,5,6,9,11) f(3) above all count observed mset_sorted_records in \<open>simp_all add: f'\<close>)
  qed
qed

section \<open>Rejected contents\<close>

definition rejected_original :: "string \<Rightarrow> string \<Rightarrow> inbox_db \<Rightarrow> bool" where
  "rejected_original i h db \<longleftrightarrow>
     (\<exists>f \<in> set (ix_files db). xf_id f = i \<and> xf_content_hash f = h \<and> xf_state f = REJECTED)"

lemma rejected_evolves: "evolves f g \<Longrightarrow> xf_state f = REJECTED \<Longrightarrow> xf_state g = REJECTED"
proof -
  assume e: "evolves f g" and r: "xf_state f = REJECTED"
  from e obtain hs where "xf_history g = xf_history f @ hs" "path (xf_state f) (map fst hs)"
      "xf_state g = last (xf_state f # map fst hs)"
    unfolding evolves_def by blast
  with r show ?thesis by (cases hs) auto
qed

lemma rejected_replace:
  assumes ok: "distinct (map xf_id xs)" and f: "f \<in> set xs" "evolves f g"
    and old: "r \<in> set xs" "xf_id r = i" "xf_content_hash r = h" "xf_state r = REJECTED"
  shows "\<exists>x \<in> set (map (\<lambda>x. if xf_id x = xf_id g then g else x) xs). xf_id x = i \<and> xf_content_hash x = h \<and> xf_state x = REJECTED"
proof (cases "xf_id r = xf_id g")
  case True
  have ids: "xf_id g = xf_id f" "xf_content_hash g = xf_content_hash f" using f(2) by (simp_all add: evolves_def)
  with True same_file [OF old(1) f(1) ok] have "r = f" by simp
  with old ids rejected_evolves [OF f(2)] have "xf_id g = i \<and> xf_content_hash g = h \<and> xf_state g = REJECTED" by simp
  moreover have "g \<in> set (map (\<lambda>x. if xf_id x = xf_id g then g else x) xs)"
    unfolding set_map by (rule image_eqI [of _ _ f]) (use f(1) ids in simp_all)
  ultimately show ?thesis by blast
next
  case False
  then have "r \<in> set (map (\<lambda>x. if xf_id x = xf_id g then g else x) xs)"
    unfolding set_map by (intro image_eqI [of _ _ r]) (use old(1) in simp_all)
  with old show ?thesis by blast
qed

lemma rejected_step:
  assumes "inbox_step c sha db db'" "inbox_ok sha db" "rejected_original i h db"
  shows "rejected_original i h db'"
  using assms(1)
proof cases
  case (request env rq)
  obtain r where r: "r \<in> set (ix_files db)" "xf_id r = i" "xf_content_hash r = h" "xf_state r = REJECTED"
    using assms(3) by (auto simp: rejected_original_def)
  have ids: "distinct (map xf_id (ix_files db))" using assms(2) by (simp add: inbox_ok_def)
  from request(2) show ?thesis
  proof (cases rule: answered_cases)
    case kept
    with assms(3) show ?thesis by (simp add: rejected_original_def)
  next
    case (saved f g)
    then have s: "f \<in> set (ix_files db)" "evolves f g" "ix_files db' = map (\<lambda>x. if xf_id x = xf_id g then g else x) (ix_files db)"
      by (simp_all add: saves_def)
    show ?thesis unfolding rejected_original_def s(3) by (rule rejected_replace [OF ids s(1,2) r])
  next
    case (received filename content src ag g)
    then show ?thesis
    proof (cases rule: receive_cases)
      case (again failed name)
      have files: "evolves failed g \<and> ix_files db' = map (\<lambda>x. if xf_id x = xf_id g then g else x) (ix_files db)"
        using again(4) by (cases rule: store_raw_cases) simp_all
      show ?thesis unfolding rejected_original_def conjunct2 [OF files]
        by (rule rejected_replace [OF ids again(1) conjunct1 [OF files] r])
    next
      case (duplicate owner)
      with r show ?thesis by (auto simp: rejected_original_def)
    next
      case (original row name)
      have files: "evolves row g \<and> ix_files db' = map (\<lambda>x. if xf_id x = xf_id g then g else x) (ix_files db @ [row])"
        using original(6) by (cases rule: store_raw_cases) simp_all
      have "xf_id row \<notin> xf_id ` set (ix_files db)" using request(1) original(3) by (simp add: sound_inbox_def)
      then have "distinct (map xf_id (ix_files db @ [row]))" using ids by simp
      from rejected_replace [OF this _ conjunct1 [OF files] _ r(2-4)] r(1)
      show ?thesis unfolding rejected_original_def conjunct2 [OF files] by simp
    qed
  qed
qed

lemma rejected_reachable:
  "(inbox_step c sha)\<^sup>*\<^sup>* db db' \<Longrightarrow> inbox_ok sha db \<Longrightarrow> rejected_original i h db \<Longrightarrow> rejected_original i h db'"
  by (induction rule: rtranclp_induct) (auto intro: rejected_step inbox_ok_reachable)

text \<open>C16: a rejected content stays out. Once the original file of a content has been rejected, no later request
  brings that content in: whatever is uploaded, by whom and under whatever name, every file with the
  same content hash is that rejected file or a duplicate, and so is never mapped or imported.\<close>

theorem rejected_content_stays_out:
  assumes "(inbox_step c sha)\<^sup>*\<^sup>* db0 db" "empty_inbox db0" "f \<in> set (ix_files db)" "xf_state f = REJECTED"
    and "(inbox_step c sha)\<^sup>*\<^sup>* db db'" "g \<in> set (ix_files db')" "xf_content_hash g = xf_content_hash f"
  shows "xf_state g = DUPLICATE \<or> xf_state g = REJECTED \<and> xf_id g = xf_id f"
proof -
  have ok: "inbox_ok sha db" by (rule inbox_ok_reachable [OF assms(1) inbox_ok_empty [OF assms(2)]])
  have "rejected_original (xf_id f) (xf_content_hash f) db" using assms(3,4) by (auto simp: rejected_original_def)
  from rejected_reachable [OF assms(5) ok this] obtain r where r: "r \<in> set (ix_files db')" "xf_id r = xf_id f"
    "xf_content_hash r = xf_content_hash f" "xf_state r = REJECTED" by (auto simp: rejected_original_def)
  have ok': "inbox_ok sha db'" by (rule inbox_ok_reachable [OF assms(5) ok])
  show ?thesis
  proof (cases "xf_state g = DUPLICATE")
    case False
    have "file_ok sha db' g" "file_ok sha db' r" using ok' assms(6) r(1) by (simp_all add: inbox_ok_def)
    with False r assms(7) have "(xf_content_hash f, xf_id g) \<in> set (ix_hashes db')" "(xf_content_hash f, xf_id r) \<in> set (ix_hashes db')"
      by (simp_all add: file_ok_def)
    moreover have "distinct (map fst (ix_hashes db'))" using ok' by (simp add: inbox_ok_def)
    ultimately have "xf_id g = xf_id r" by (rule_tac eq_key_imp_eq_value)
    with ok' r(1) assms(6) same_file have "g = r" unfolding inbox_ok_def by blast
    with r show ?thesis by simp
  qed simp
qed

section \<open>Agents\<close>

text \<open>Every agent has a pairing of its own. In every state reached from an empty inbox, the agents and the
  claimed pairings correspond one to one, each agent with the permissions its pairing was created
  with; so no code is claimed twice, none after it has expired adds an agent, and no agent has a
  permission an administrator did not grant.\<close>

theorem agents_are_claimed_pairings:
  assumes "(inbox_step c sha)\<^sup>*\<^sup>* db db'" "empty_inbox db"
  shows "mset (map la_scopes (ix_agents db')) = mset (map ap_scopes (filter is_claimed (ix_pairings db')))"
proof -
  have "agents_ok db" using assms(2) by (simp add: agents_ok_def empty_inbox_def)
  with agents_ok_reachable [OF assms(1)] show ?thesis by (simp add: agents_ok_def)
qed

text \<open>C21: a revoked agent is out for good. After an agent has been revoked, whatever requests follow, no
  authorization header authenticates it again.\<close>

theorem revoked_agent_denied:
  assumes "revoke_agent env db i = Inr db1" "(inbox_step c sha)\<^sup>*\<^sup>* db1 db2" "agent_auth env' db2 auth = Inr a"
  shows "la_id a \<noteq> i"
proof -
  have revoked: "i \<in> la_id ` set (ix_agents db)"
    "ix_agents db1 = map (\<lambda>a. if la_id a = i then a\<lparr>la_revoked_at := Some (ie_now env)\<rparr> else a) (ix_agents db)"
    using assms(1) by (auto simp: revoke_agent_def update_agent_def file_audit_def result_simps)
  have "la_id (if la_id a = i then a\<lparr>la_revoked_at := Some (ie_now env)\<rparr> else a) = la_id a" for a :: local_agent by simp
  then have "la_id ` set (ix_agents db1) = la_id ` set (ix_agents db)"
    unfolding revoked(2) set_map image_image by (simp only:)
  then have "is_revoked i db1" using revoked(1) by (auto simp: is_revoked_def revoked(2))
  then have "is_revoked i db2" by (rule is_revoked_reachable [OF assms(2)])
  moreover have "a \<in> set (ix_agents db2) \<and> la_revoked_at a = None"
    using assms(3) by (auto simp: agent_auth_def result_simps found_Inr Let_def find_Some_iff)
  ultimately show ?thesis by (auto simp: is_revoked_def)
qed

section \<open>A deposit imported from a file\<close>

definition sample_trade :: "nat \<Rightarrow> trade_env" where
  "sample_trade n = example_env\<lparr>ad_new_id := (\<lambda>s. s @ replicate n CHR ''x'')\<rparr>"

definition deposit_rows :: "pyval dict list" where
  "deposit_rows = [[(''type'', VStr ''deposit''), (''day'', VStr ''2024-01-02''), (''sum'', VNum ''250''), (''ccy'', VStr ''USD'')]]"

definition deposit_columns :: "string dict" where
  "deposit_columns = [(''transaction_type'', ''type''), (''trade_date'', ''day''), (''amount'', ''sum''), (''currency'', ''ccy'')]"

definition inbox_env_at :: "int \<Rightarrow> string \<Rightarrow> inbox_env" where
  "inbox_env_at now tag = \<lparr>ie_now = now, ie_trade = sample_trade, ie_mapping = sample_mapping_env,
     ie_new_id = (\<lambda>s. s @ tag), ie_parse = (\<lambda>content name. Inr (deposit_rows, [''type'', ''day'', ''sum'', ''ccy''])),
     ie_sha256 = (\<lambda>s. s), ie_outage = (\<lambda>_. None), ie_dumps = (\<lambda>_. ''[]''), ie_identity = (\<lambda>_. Inr (Some ''admin''))\<rparr>"

text \<open>Profiles of all codes are there already, without aliases, so that mappings are given explicitly.\<close>

definition plain_profiles :: "mapping_profile list" where
  "plain_profiles = map (\<lambda>(code, kind). \<lparr>mp_id = code, mp_code = code, mp_version = 1, mp_source = ''EXTERNAL FILE'',
     mp_dataset_type = kind, mp_approved = False, mp_aliases = [], mp_required = []\<rparr>) SPECS"

definition new_inbox :: inbox_db where
  "new_inbox = \<lparr>ix_trade = example_book, ix_files = [], ix_hashes = [], ix_uploads = [], ix_profiles = plain_profiles, ix_datasets = [],
     ix_raws = [], ix_versions = [], ix_lineage = [], ix_columns = [], ix_market = [], ix_fx = [], ix_agents = [],
     ix_pairings = [], ix_objects = [], ix_audit = []\<rparr>"

text \<open>Requests \<open>(now, tag, request)\<close> answered one after the other; what a request is checked for before it
  is answered is what a step asks of its environment.\<close>

definition ready :: "inbox_env \<Rightarrow> inbox_db \<Rightarrow> bool" where
  "ready env db \<longleftrightarrow> ie_new_id env ''file'' \<notin> set (map xf_id (ix_files db)) \<and> CHR ''/'' \<notin> set (ie_new_id env ''file'') \<and>
     ie_new_id env ''upload'' \<notin> set (map up_id (ix_uploads db)) \<and>
     ie_new_id env ''pairing'' \<notin> set (map ap_id (ix_pairings db)) \<and> ie_new_id env ''agent'' \<notin> set (map la_id (ix_agents db)) \<and>
     db_transactions (tb_ledger (ix_trade db)) = [] \<and> tb_events (ix_trade db) = []"

definition handled_request :: "inbox_db \<Rightarrow> int \<times> string \<times> inbox_request \<Rightarrow> inbox_db result" where
  "handled_request db timed = (let (now, tag, rq) = timed; env = inbox_env_at now tag in
     if ready env db then answered (prec 28) env db rq else Inl (ValueError ''not ready''))"

lemma ready_steps:
  assumes "ready (inbox_env_at now tag) db" "answered (prec 28) (inbox_env_at now tag) db rq = Inr db'"
  shows "inbox_step (prec 28) (\<lambda>s. s) db db' \<and> desk_step (\<lambda>s. s) db db'"
proof -
  let ?env = "inbox_env_at now tag"
  have "sound_inbox (\<lambda>s. s) ?env db"
    using assms(1) by (simp add: sound_inbox_def ready_def inbox_env_at_def)
  moreover have "fresh_records (\<lambda>s. s) (ie_trade ?env) 0 (ix_trade db)"
    using assms(1) by (simp add: fresh_records_def fresh_ids_def ready_def inbox_env_at_def sample_trade_def example_env_def inj_def)
  ultimately show ?thesis using assms(2) inbox_step.request desk_step.inbox by blast
qed

lemma handled_steps:
  "foldE handled_request db rqs = Inr db' \<Longrightarrow>
   (inbox_step (prec 28) (\<lambda>s. s))\<^sup>*\<^sup>* db db' \<and> (desk_step (\<lambda>s. s))\<^sup>*\<^sup>* db db'"
proof (induction rqs arbitrary: db)
  case (Cons x rqs)
  obtain now tag rq where x: "x = (now, tag, rq)" by (cases x)
  from Cons.prems obtain d where d: "handled_request db x = Inr d" and rest: "foldE handled_request d rqs = Inr db'"
    by (auto simp: result_simps)
  have "ready (inbox_env_at now tag) db" "answered (prec 28) (inbox_env_at now tag) db rq = Inr d"
    using d by (simp_all add: x handled_request_def Let_def split: if_splits)
  from ready_steps [OF this] Cons.IH [OF rest] show ?case
    by (blast intro: converse_rtranclp_into_rtranclp)
qed simp

definition inbox_summary ::
  "inbox_db \<Rightarrow> (string \<times> string \<times> file_state \<times> string option) list \<times> string list \<times> string list \<times> string list" where
  "inbox_summary db = (map (\<lambda>f. (xf_id f, xf_content_hash f, xf_state f, xf_uploaded_file_id f)) (ix_files db),
     map la_id (ix_agents db), map ap_id (ix_pairings db),
     map tr_portfolio_id (db_transactions (tb_ledger (ix_trade db))))"

definition mapping_requests :: "(int \<times> string \<times> inbox_request) list" where
  "mapping_requests = [(1, ''1'', Receive ''deposit.csv'' ''abc''),
     (2, ''2'', Map_validate ''file1'' ''GENERIC_PORTFOLIO_TRANSACTIONS'' (Some deposit_columns) [] None)]"

definition import_requests :: "(int \<times> string \<times> inbox_request) list" where
  "import_requests = mapping_requests @ [(3, ''3'', Import ''file1'' ''deposits'' ''own records'' True ''P'')]"

definition rejection_requests :: "(int \<times> string \<times> inbox_request) list" where
  "rejection_requests = [(1, ''1'', Receive ''deposit.csv'' ''abc''), (2, ''2'', Reject ''file1'' ''not ours'')]"

text \<open>Two pairings are claimed, by a desk and by a laptop.\<close>

definition agent_requests :: "(int \<times> string \<times> inbox_request) list" where
  "agent_requests = [(1, ''-one-0123456789-0123456789'', Pair False),
     (2, ''2'', Claim ''code-one-0123456789-0123456789'' ''desk''),
     (3, ''-two-0123456789-0123456789'', Pair False),
     (4, ''4'', Claim ''code-two-0123456789-0123456789'' ''laptop'')]"

lemma import_runs:
  "map_sum id inbox_summary (foldE handled_request new_inbox import_requests) =
   Inr ([(''file1'', ''abc'', IMPORTED, Some ''upload1'')], [], [], [''P''])"
  by code_simp

text \<open>A price of a known security, in a file that names its columns.\<close>

definition price_env_at :: "int \<Rightarrow> string \<Rightarrow> inbox_env" where
  "price_env_at now tag = (inbox_env_at now tag)\<lparr>ie_parse := (\<lambda>content name.
     Inr ([[(''sec'', VStr ''SPY''), (''day'', VStr ''2024-01-02''), (''last'', VNum ''250'')]], [''sec'', ''day'', ''last'']))\<rparr>"

definition price_inbox :: inbox_db where
  "price_inbox = new_inbox\<lparr>ix_trade := example_book\<lparr>tb_instruments := [sample_security]\<rparr>\<rparr>"

definition price_mapped :: "inbox_db result" where
  "price_mapped = bindE (answered (prec 28) (price_env_at 1 ''1'') price_inbox (Receive ''prices.csv'' ''abc'')) (\<lambda>db.
     answered (prec 28) (price_env_at 2 ''2'') db (Map_validate ''file1'' ''GENERIC_OHLCV''
       (Some [(''symbol'', ''sec''), (''date'', ''day''), (''close'', ''last'')]) [] None))"

lemma atomic_runs:
  "map_sum id (\<lambda>(g, db). (xf_state g, map mo_price (ix_market db))) (bindE price_mapped (\<lambda>db.
     bindE (file_of db ''file1'') (\<lambda>f. if xf_state f = AWAITING_APPROVAL \<and> ix_market db = []
       then import_file (prec 28) (price_env_at 3 ''3'') db ''file1'' ''prices'' ''own records'' True ''P''
       else Inl (ValueError ''state'')))) = Inr (IMPORTED, [250])"
  by code_simp

lemma rejection_runs:
  "map_sum id (\<lambda>db. (inbox_summary db, map_sum id inbox_summary (foldE handled_request db
     [(3, ''3'', Receive ''copy.csv'' ''abc'')]))) (foldE handled_request new_inbox rejection_requests) =
   Inr (([(''file1'', ''abc'', REJECTED, Some ''upload1'')], [], [], []),
     Inr ([(''file1'', ''abc'', REJECTED, Some ''upload1''), (''file3'', ''abc'', DUPLICATE, None)], [], [], []))"
  by code_simp

lemma agent_runs:
  "map_sum id (\<lambda>db. (length (filter is_claimed (ix_pairings db)), map_sum id (\<lambda>db1.
     map_sum id la_id (agent_auth (inbox_env_at 6 ''6'') db1 (Some ''Bearer token4'')))
       (revoke_agent (inbox_env_at 5 ''5'') db ''agent2''))) (foldE handled_request new_inbox agent_requests) =
   Inr (2, Inr (Inr ''agent4''))"
  by code_simp

lemma new_inbox_empty: "empty_inbox new_inbox"
  by (simp add: empty_inbox_def new_inbox_def)

section \<open>Witnesses\<close>

theorem imported_book_replays_witness:
  "\<exists>(db' :: inbox_db) (t :: transaction_row) (profile :: profile_row) entries payloads policy state.
     t \<in> set (db_transactions (tb_ledger (ix_trade db'))) \<and> tr_portfolio_id t = ''P'' \<and>
     load_entries (prec 28) unary_timestamps 9 (tb_ledger (ix_trade db')) ''P'' = Inr (entries, payloads) \<and>
     from_config (pr_configuration profile) = Inr policy \<and>
     replay (prec 28) (\<lambda>s. s) (new_ledger policy) entries = Inr state"
proof -
  from import_runs obtain db' where r: "foldE handled_request new_inbox import_requests = Inr db'"
    and t: "map tr_portfolio_id (db_transactions (tb_ledger (ix_trade db'))) = [''P'']"
    by (auto simp: map_sum_Inr_iff Inr_map_sum inbox_summary_def)
  from t obtain x where x: "x \<in> set (db_transactions (tb_ledger (ix_trade db')))" "tr_portfolio_id x = ''P''" by auto
  have empty: "empty_books (ix_trade new_inbox)" by (simp add: new_inbox_def example_empty)
  from imported_book_replays [OF conjunct2 [OF handled_steps [OF r]] empty x(1), of unary_timestamps 9] obtain profile :: profile_row
    and entries payloads policy state where
    l: "load_entries (prec 28) unary_timestamps 9 (tb_ledger (ix_trade db')) ''P'' = Inr (entries, payloads)"
      "from_config (pr_configuration profile) = Inr policy"
      "replay (prec 28) (\<lambda>s. s) (new_ledger policy) entries = Inr state"
    unfolding x(2) by (elim bexE exE conjE)
  show ?thesis
    by (rule exI [of _ db'], rule exI [of _ x], rule exI [of _ profile], rule exI [of _ entries],
        rule exI [of _ payloads], rule exI [of _ policy], rule exI [of _ state]) (intro conjI x l)
qed

lemma imported_file_exists:
  obtains db f where "foldE handled_request new_inbox import_requests = Inr db" "f \<in> set (ix_files db)"
    "xf_id f = ''file1''" "xf_state f = IMPORTED" "xf_uploaded_file_id f = Some ''upload1''" "xf_content_hash f = ''abc''"
proof -
  from import_runs obtain db where r: "foldE handled_request new_inbox import_requests = Inr db"
    and "map (\<lambda>f. (xf_id f, xf_content_hash f, xf_state f, xf_uploaded_file_id f)) (ix_files db) =
      [(''file1'', ''abc'', IMPORTED, Some ''upload1'')]"
    by (auto simp: map_sum_Inr_iff Inr_map_sum inbox_summary_def)
  then show thesis by (intro that [OF r, of "hd (ix_files db)"]) auto
qed

theorem file_histories_follow_table_witness:
  "\<exists>(f :: inbox_file) ts. xf_state f = IMPORTED \<and> map fst (xf_history f) = DETECTED # ts \<and> path DETECTED ts"
proof -
  obtain db f where r: "foldE handled_request new_inbox import_requests = Inr db" "f \<in> set (ix_files db)" "xf_state f = IMPORTED"
    by (rule imported_file_exists)
  from file_histories_follow_table [OF conjunct1 [OF handled_steps [OF r(1)]] new_inbox_empty r(2)] r(3) show ?thesis
    by (elim conjE exE) (intro exI conjI)
qed

theorem one_original_per_content_witness:
  "\<exists>(db :: inbox_db) f. f \<in> set (ix_files db) \<and> xf_state f = IMPORTED \<and>
     (\<forall>x \<in> set (ix_files db). xf_content_hash x = xf_content_hash f \<and> xf_state x \<noteq> DUPLICATE \<longrightarrow> x = f)"
proof -
  obtain db f where r: "foldE handled_request new_inbox import_requests = Inr db" "f \<in> set (ix_files db)" "xf_state f = IMPORTED"
    by (rule imported_file_exists)
  from one_original_per_content [OF conjunct1 [OF handled_steps [OF r(1)]] new_inbox_empty r(2)] r(2,3)
  show ?thesis by (intro exI [of _ db] exI [of _ f]) auto
qed

theorem raw_content_intact_witness:
  "\<exists>(db :: inbox_db) f uploaded. xf_state f = IMPORTED \<and> upload_of db f = Inr uploaded \<and>
     map_of (ix_objects db) (up_object_key uploaded) = Some ''abc''"
proof -
  obtain db f where r: "foldE handled_request new_inbox import_requests = Inr db" "f \<in> set (ix_files db)" "xf_state f = IMPORTED"
    "xf_uploaded_file_id f = Some ''upload1''" "xf_content_hash f = ''abc''"
    by (rule imported_file_exists)
  from raw_content_intact [OF conjunct1 [OF handled_steps [OF r(1)]] new_inbox_empty r(2,4)] r(3,5) show ?thesis by auto
qed

theorem import_is_atomic_witness:
  "\<exists>(db :: inbox_db) (g :: inbox_file) db' v profile records. xf_state g = IMPORTED \<and> ix_market db = [] \<and>
     import_file (prec 28) (price_env_at 3 ''3'') db ''file1'' ''prices'' ''own records'' True ''P'' = Inr (g, db') \<and>
     ix_versions db' = ix_versions db @ [v] \<and> dv_file_id v = ''file1'' \<and> map mo_price (ix_market db') = [250] \<and>
     observed_records (prec 28) (price_env_at 3 ''3'') (tb_instruments (ix_trade db)) profile ''file1'' (dv_id v) records db db'"
proof -
  from atomic_runs obtain db f g db' where r: "file_of db ''file1'' = Inr f" "xf_state f = AWAITING_APPROVAL"
    "import_file (prec 28) (price_env_at 3 ''3'') db ''file1'' ''prices'' ''own records'' True ''P'' = Inr (g, db')"
    and x: "xf_state g = IMPORTED" "ix_market db = []" "map mo_price (ix_market db') = [250]"
    by (auto simp: map_sum_Inr_iff Inr_map_sum result_simps split: if_splits)
  have "xf_state g \<noteq> IMPORT_FAILED" by (simp add: x(1))
  with import_is_atomic [OF r(3,1,2)] obtain v profile records where "ix_versions db' = ix_versions db @ [v]" "dv_file_id v = ''file1''"
    "observed_records (prec 28) (price_env_at 3 ''3'') (tb_instruments (ix_trade db)) profile ''file1'' (dv_id v) records db db'"
    by blast
  with r(3) x show ?thesis
    by (intro exI [of _ db] exI [of _ g] exI [of _ db'] exI [of _ v] exI [of _ profile] exI [of _ records]) simp
qed

theorem rejected_content_stays_out_witness:
  "\<exists>(db :: inbox_db) g. g \<in> set (ix_files db) \<and> xf_id g = ''file3'' \<and> xf_content_hash g = ''abc'' \<and> xf_state g = DUPLICATE"
proof -
  from rejection_runs obtain db where r: "foldE handled_request new_inbox rejection_requests = Inr db"
    and both: "(([(''file1'', ''abc'', REJECTED, Some ''upload1'')], [], [], []),
      Inr ([(''file1'', ''abc'', REJECTED, Some ''upload1''), (''file3'', ''abc'', DUPLICATE, None)], [], [], [])) =
      (inbox_summary db, map_sum id inbox_summary (foldE handled_request db [(3, ''3'', Receive ''copy.csv'' ''abc'')]))"
    unfolding map_sum_Inr_iff by blast
  then have files: "map (\<lambda>f. (xf_id f, xf_content_hash f, xf_state f, xf_uploaded_file_id f)) (ix_files db) =
      [(''file1'', ''abc'', REJECTED, Some ''upload1'')]" by (simp add: inbox_summary_def)
  from both obtain db' where r': "foldE handled_request db [(3, ''3'', Receive ''copy.csv'' ''abc'')] = Inr db'"
    "map (\<lambda>f. (xf_id f, xf_content_hash f, xf_state f, xf_uploaded_file_id f)) (ix_files db') =
      [(''file1'', ''abc'', REJECTED, Some ''upload1''), (''file3'', ''abc'', DUPLICATE, None)]"
    unfolding Inr_map_sum prod.inject inbox_summary_def by metis
  obtain f where f: "f \<in> set (ix_files db)" "xf_id f = ''file1''" "xf_state f = REJECTED" "xf_content_hash f = ''abc''" using files by auto
  obtain x g where "ix_files db' = [x, g]" and g: "xf_id g = ''file3''" "xf_content_hash g = ''abc''" using r'(2) by auto
  then have "g \<in> set (ix_files db')" by simp
  from rejected_content_stays_out [OF conjunct1 [OF handled_steps [OF r]] new_inbox_empty f(1,3)
      conjunct1 [OF handled_steps [OF r'(1)]] this] f(2,4) g \<open>g \<in> set (ix_files db')\<close>
  show ?thesis by (intro exI [of _ db'] exI [of _ g]) auto
qed

theorem agents_are_claimed_pairings_witness:
  "\<exists>db :: inbox_db. length (filter is_claimed (ix_pairings db)) = 2 \<and>
     mset (map la_scopes (ix_agents db)) = mset (map ap_scopes (filter is_claimed (ix_pairings db)))"
proof -
  from agent_runs obtain db where r: "foldE handled_request new_inbox agent_requests = Inr db"
    "length (filter is_claimed (ix_pairings db)) = 2" by (auto simp: map_sum_Inr_iff Inr_map_sum)
  from agents_are_claimed_pairings [OF conjunct1 [OF handled_steps [OF r(1)]] new_inbox_empty] r(2)
  show ?thesis by blast
qed

theorem revoked_agent_denied_witness:
  "\<exists>(db :: inbox_db) a. agent_auth (inbox_env_at 6 ''6'') db (Some ''Bearer token4'') = Inr a \<and> la_id a \<noteq> ''agent2''"
proof -
  from agent_runs obtain db db1 a where r: "revoke_agent (inbox_env_at 5 ''5'') db ''agent2'' = Inr db1"
    "agent_auth (inbox_env_at 6 ''6'') db1 (Some ''Bearer token4'') = Inr a"
    by (auto simp: map_sum_Inr_iff Inr_map_sum)
  from revoked_agent_denied [OF r(1) rtranclp.rtrancl_refl r(2)] r(2) show ?thesis by blast
qed

end
