(* ===== verification/Spec2Isabelle.thy ===== *)
theory Spec2Isabelle
  imports Accounting_Types Cash Cost_Basis_Facts Rounding_Drift Ledger_Exact Nav Transaction_Cash
    Postings Position_Pnl Pnl_Tracking Position_Metrics Exposure Performance Drawdowns Money_Weighted
    Revision_Facts Price_Resolution Valuation_Facts Risk_Facts
    Report_Facts Analysis_Runs Reconciliation_Facts Trade_Facts
    Portfolio_Resources Sign_In_Races Mapping_Facts Inbox_Properties
begin

text \<open>
  Verification library for the accounting core of the portfolio terminal (the FastAPI service
  under \<open>src/services/api/app\<close>).

  \<^bold>\<open>What the program is.\<close> The service keeps portfolios as an append-only list of recorded
  transactions. Every figure it shows is derived by replaying the transactions through a ledger
  (\<open>portfolio_domain/ledger.py\<close>), which drives a lot-matching service (\<open>cost_basis.py\<close>) and a
  settlement-aware cash service (\<open>cash.py\<close>); reports (NAV, postings, period P&L, exposures,
  performance series) are computed from the replayed state and observed marks.

  \<^bold>\<open>Theories and the code they model\<close> (paths under \<open>src/services/api/app\<close>).
  \<^item> \<open>Prelude\<close>: results with the exception a Python function raises, dictionaries in insertion
    order, character predicates of ASCII strings, JSON-like values; the interface
    \<open>keyed_store\<close> of a keyed store with a default.
  \<^item> \<open>Decimal_Context\<close>: the rounding of Python's decimal contexts. A context is a function
    applied to the exact result of every operation; \<open>prec p\<close> rounds half-even to \<open>p\<close> digits and
    \<open>exact\<close> is ideal arithmetic. The locale \<open>decimal_ctx\<close> states what proofs need of a context;
    it is interpreted on the contexts the code runs in (28 digits, 40 digits) and on \<open>exact\<close>.
  \<^item> \<open>Money\<close>: \<open>portfolio_domain/money.py\<close> (bounded inputs, display rounding, stored decimals,
    proportional allocation).
  \<^item> \<open>Accounting_Types\<close>: \<open>portfolio_domain/types.py\<close> (policy, entry and its validation, lots,
    matches, the position rollup).
  \<^item> \<open>Cash\<close>: \<open>portfolio_domain/cash.py\<close> (movements, balances by trade and settlement date).
  \<^item> \<open>Cost_Basis\<close>, \<open>Cost_Basis_Facts\<close>, \<open>Rounding_Drift\<close>: \<open>portfolio_domain/cost_basis.py\<close>. The
    code mutates lot objects inside the stored lists; the model writes the changed lots back at
    their positions (\<open>lot_order\<close>, \<open>write_lots\<close>). \<open>Rounding_Drift\<close> replays four trades through the
    ledger.
  \<^item> \<open>Ledger\<close>, \<open>Ledger_Facts\<close>, \<open>Ledger_Exact\<close>: \<open>portfolio_domain/ledger.py\<close>, the replay.
  \<^item> \<open>Nav\<close>: \<open>portfolio_domain/nav.py\<close>. \<open>Postings\<close>: \<open>portfolio_domain/postings.py\<close>.
    \<open>Transaction_Cash\<close>: \<open>portfolio_domain/transaction_cash.py\<close>. \<open>Position_Pnl\<close> and
    \<open>Pnl_Tracking\<close>: \<open>portfolio_domain/position_pnl.py\<close>. \<open>Position_Metrics\<close>:
    \<open>portfolio_domain/position_metrics.py\<close>. \<open>Exposure\<close>: \<open>portfolio_domain/exposure.py\<close>.
  \<^item> \<open>Performance\<close>: \<open>performance_domain/contracts.py\<close> and \<open>performance_domain/series.py\<close>.
    \<open>Drawdowns\<close>: \<open>performance_domain/drawdowns.py\<close>. \<open>Money_Weighted\<close>:
    \<open>performance_domain/money_weighted.py\<close>, with the solver as a parameter.
  \<^item> \<open>Transaction_Context\<close>: \<open>transaction_context.py\<close>, provenance of a trade.
  \<^item> \<open>Ledger_Store\<close>: the tables a ledger is stored in (\<open>models.py\<close>, \<open>ledger_models.py\<close>) and
    \<open>load_entries\<close> of \<open>portfolio_valuation.py\<close> with \<open>apply_revisions\<close> of
    \<open>ledger_revisions.py\<close>. \<open>Revisions\<close>: \<open>ledger_contracts.py\<close>, \<open>ledger_storage.py\<close> and the
    rest of \<open>ledger_revisions.py\<close>; \<open>Revision_Facts\<close> treats the history as a step relation,
    \<open>Revision_Order\<close> exhibits a sequence of accepted corrections whose ledger does not replay from
    the corrected day on.
  \<^item> \<open>Trade_Recording\<close>, \<open>Trade_Facts\<close>: \<open>PortfolioLedgerService.add\<close> and the review of a trade
    (\<open>portfolio_operations.py\<close>, \<open>trade_monitor_contracts.py\<close>): the checks of a submitted payload, the
    rows it writes and the replay it must pass; with \<open>revise\<close> the steps of the book of trades.
  \<^item> \<open>Portfolio_Resources\<close>: \<open>portfolio_resources.py\<close> with the requests of \<open>ledger_contracts.py\<close>: lookup,
    creation with the opening deposit and change of the accounting policy, which join the steps of
    the book; every reachable book replays under the policy in force.
  \<^item> \<open>Data_Mapping\<close>, \<open>Mapping_Facts\<close>: \<open>data_mapping.py\<close>, the profiles that map the columns of a table to
    roles and the normalization of its rows; every row is kept with its required fields and a key of
    its own, or reported.
  \<^item> \<open>Data_Inbox\<close>: \<open>data_drop.py\<close> and \<open>data_drop_api.py\<close>, the files from their receipt to the import
    of market observations, exchange rates or transactions (through \<open>Trade_Recording\<close>), and the local
    agents that upload them. \<open>Inbox_Facts\<close> treats requests as steps of a machine with the invariant of
    files, hashes and stored contents; \<open>Inbox_Properties\<close> states what follows: histories along the
    transition table, one original for a content, imports that are all or nothing, agents that are
    claimed pairings, and a book of trades that replays whatever is imported.
  \<^item> \<open>Authentication\<close>, \<open>Authentication_Facts\<close>, \<open>Sign_In_Races\<close>: \<open>auth_security.py\<close>, \<open>auth_api.py\<close>, \<open>auth_guards.py\<close>,
    \<open>auth_sessions.py\<close>, the login, setup and access check of \<open>main.py\<close> and the logout of
    \<open>terminal_api.py\<close>. A request of any client is a step; the locale \<open>request_parts\<close> lists the commits
    every request is made of and is interpreted on each invariant: the authenticator rows, the
    consumed time steps, the used recovery codes and the ended sessions. The count of failed proofs
    takes no lock; \<open>Sign_In_Races\<close> has it and the rest of the request as separate steps of overlapping
    requests, bounds the failures by the limit and the overlap, and shows that the limit alone is no
    bound.
  \<^item> \<open>Portfolio_Balances\<close>: \<open>portfolio_balances.py\<close>, dated adjustments that never make a balance
    negative.
  \<^item> \<open>Price_Sources\<close>, \<open>Price_Resolution\<close>: \<open>price_sources.py\<close>, resolution of prices and
    exchange rates at an instant, among the market observations and the daily bars of the 400 days
    before the start of the valuation (older bars are dropped by the code's query, as
    \<open>stale_bar_replaced\<close> exhibits).
  \<^item> \<open>Daily_Valuation\<close>, \<open>Valuation_Facts\<close>: the daily loop of \<open>calculate\<close> in
    \<open>portfolio_valuation.py\<close>, which composes the ledger, the price sources, the balance
    adjustments, the NAV, the position metrics and the period P\&L.
  \<^item> \<open>Risk_Limits\<close>, \<open>Risk_Facts\<close>: \<open>risk_limits.py\<close> with \<open>risk_contracts.py\<close>, the configuration
    of limits and the lifecycle of breaches, alerts and their audit records as a step relation.
  \<^item> \<open>Reconciliation\<close>, \<open>Reconciliation_Facts\<close>: \<open>reconcile\<close> of \<open>portfolio_operations.py\<close> with
    \<open>reconciliation_contracts.py\<close>, the comparison of the book with broker snapshots and the table of
    breaks it maintains.
  \<^item> \<open>Report_Jobs\<close>, \<open>Report_Facts\<close>: \<open>report_jobs.py\<close>, \<open>report_api.py\<close> and the write-once storage of
    \<open>object_storage.py\<close>; the transactions of concurrent workers are the steps of a machine.
  \<^item> \<open>Analysis_Runs\<close>: \<open>analysis_lifecycle.py\<close> with its callers in \<open>terminal_worker.py\<close>,
    \<open>queue_worker.py\<close> and \<open>terminal_api.py\<close>; the read and the conditional write of a transition are
    separate steps of concurrent sessions.

  \<^bold>\<open>What the lemmas show.\<close> For each component: its functional behaviour on every branch, its
  state invariant and its preservation by every operation, and how the components agree with
  each other. The cash balance of the ledger is the sum of its recorded movements; positions are
  the rollup of their open lots; lot operations conserve quantity and basis; the accounting
  identity relates book cash, cost, realised profit, income, charges and external flows; the
  postings, the per-transaction cash effects and the period P&L reconcile with the replayed
  ledger; NAV is the sum of its components; linked returns are time-consistent.

  \<^bold>\<open>Contexts.\<close> Statements about control flow, ordering, bounds and missing data are proved in the
  28- or 40-digit context in which the code runs. Conservation laws that a finite context breaks
  in the last digit are proved for \<open>exact\<close>, and say so; \<open>Rounding_Drift\<close> shows that the
  28-digit context really breaks one of them.

  \<^bold>\<open>Not modelled.\<close> A \<open>Decimal\<close> is its numerical value: exponents, trailing zeros and the sign of
  zero are dropped, so the text rendering of results (\<open>str\<close> of a decimal in payloads) is too,
  and so are the context's exponent range and traps, which amounts below \<open>10 ^ 16\<close> do not reach.
  Strings are ASCII. Identifiers made with \<open>uuid5\<close> are a parameter of the operations that make
  them, and the calendar functions of pandas a parameter of the period aggregation. A database transaction is
  one atomic step, at the isolation of READ COMMITTED. Statistics on floating point (numpy, scipy,
  pyxirr), rendering of reports, the database and HTTP layers, providers and the user interface are
  outside the model. Password hashing, the cipher, one-time codes and digests are a parameter of the
  sign-in. In \<open>Authentication_Facts\<close> a request is one step, so two requests do not race inside one
  handler there: what is proved of one-time codes, recovery codes and sessions is about requests that
  follow one another, and only the count of failures is examined for overlapping requests
  (\<open>Sign_In_Races\<close>). Cookies, user agents and metrics are left out. The views of \<open>portfolio_resources.py\<close> that repackage a stored
  valuation are not modelled, nor is the analytics on floating point of \<open>terminal_analytics.py\<close>,
  \<open>options_analytics.py\<close>, \<open>services.py\<close> and the engines, whose results depend on numpy and pandas.
  Of the inbox, reading a file format (\<open>parse_file\<close>) and the option contracts of
  \<open>option_contracts.py\<close> are parameters, requests do not race inside a handler, and the metadata that a
  dataset version repeats (profile version, quality report) is left out.
\<close>

end
